(* ===== verification/Prelude.thy ===== *)
theory Prelude
  imports Main
begin

text \<open>
  What every component of the development shares.

  \<^item> Errors as values. The services throw the exception classes of
    \<^verbatim>\<open>libs/platform/src/errors/exceptions.ts\<close> or a plain \<^verbatim>\<open>Error\<close>. A throw is the
    left injection of a sum; the constructor carries the error code (the message is prose
    for a reader and is left out).
  \<^item> Database tables as lists of rows in insertion order. A \<^verbatim>\<open>select .. where\<close> is
    \<open>filter\<close>, an \<^verbatim>\<open>update .. where\<close> is \<open>update_where\<close>, an insert appends, a delete
    filters. A lookup by primary key is \<open>find_row\<close>. The locale \<open>keyed_table\<close> states
    what a client of such a table relies on.
\<close>

section \<open>Errors and results\<close>

datatype app_error =
    NotFoundException string
  | PreconditionFailedException string
  | PermissionDeniedException string
  | ConflictException string
  | ValidationException string
  | ThrownError string

type_synonym 'a result = "app_error + 'a"

text \<open>Sequencing of steps that may throw, and a check that throws.\<close>

definition and_then :: "'e + 'a \<Rightarrow> ('a \<Rightarrow> 'e + 'b) \<Rightarrow> 'e + 'b" where
  "and_then r f = (case r of Inl e \<Rightarrow> Inl e | Inr a \<Rightarrow> f a)"

definition ensure :: "bool \<Rightarrow> 'e \<Rightarrow> 'e + unit" where
  "ensure b e = (if b then Inr () else Inl e)"

named_theorems result_simps

lemma and_then_simps [simp]:
  "and_then (Inl e) f = Inl e"
  "and_then (Inr a) f = f a"
  by (simp_all add: and_then_def)

lemma and_then_eq_Inr [result_simps]:
  "and_then r f = Inr b \<longleftrightarrow> (\<exists>a. r = Inr a \<and> f a = Inr b)"
  by (cases r) simp_all

lemma and_then_eq_Inl [result_simps]:
  "and_then r f = Inl e \<longleftrightarrow> r = Inl e \<or> (\<exists>a. r = Inr a \<and> f a = Inl e)"
  by (cases r) simp_all

lemma ensure_eq_Inr [simp]: "ensure b e = Inr u \<longleftrightarrow> b"
  by (cases u) (simp add: ensure_def)

lemma ensure_eq_Inl [simp]: "ensure b e = Inl e' \<longleftrightarrow> \<not> b \<and> e = e'"
  by (auto simp: ensure_def)

lemma ensure_simps [simp]:
  "ensure True e = Inr ()"
  "ensure False e = Inl e"
  by (simp_all add: ensure_def)

lemma Inr_of: "\<not> isl x \<Longrightarrow> x = Inr (fst (projr x), snd (projr x))"
  by (cases x) simp_all

lemma option_eqI: "(\<And>a. x = Some a \<longleftrightarrow> y = Some a) \<Longrightarrow> x = y"
  by (cases x; cases y) auto

text \<open>An optional hook of a strategy object: absent means nothing happens.\<close>

definition run_hook :: "('a \<Rightarrow> 'd \<Rightarrow> 'e + 'd) option \<Rightarrow> 'a \<Rightarrow> 'd \<Rightarrow> 'e + 'd" where
  "run_hook h a d = (case h of None \<Rightarrow> Inr d | Some f \<Rightarrow> f a d)"

lemma run_hook_simps [simp]:
  "run_hook None a d = Inr d"
  "run_hook (Some f) a d = f a d"
  by (simp_all add: run_hook_def)

section \<open>Tables\<close>

definition find_row :: "('r \<Rightarrow> 'k) \<Rightarrow> 'k \<Rightarrow> 'r list \<Rightarrow> 'r option" where
  "find_row key k t = find (\<lambda>r. key r = k) t"

definition update_where :: "('r \<Rightarrow> bool) \<Rightarrow> ('r \<Rightarrow> 'r) \<Rightarrow> 'r list \<Rightarrow> 'r list" where
  "update_where p f t = map (\<lambda>r. if p r then f r else r) t"

definition keys_distinct :: "('r \<Rightarrow> 'k) \<Rightarrow> 'r list \<Rightarrow> bool" where
  "keys_distinct key t \<longleftrightarrow> distinct (map key t)"

lemma find_row_Nil [simp]: "find_row key k [] = None"
  by (simp add: find_row_def)

lemma find_row_Cons [simp]:
  "find_row key k (r # t) = (if key r = k then Some r else find_row key k t)"
  by (simp add: find_row_def)

lemma find_row_append:
  "find_row key k (t @ u) =
     (case find_row key k t of None \<Rightarrow> find_row key k u | Some r \<Rightarrow> Some r)"
  by (induction t) auto

lemma find_row_Some: "find_row key k t = Some r \<Longrightarrow> r \<in> set t \<and> key r = k"
  by (induction t) (auto split: if_splits)

lemma find_row_None_iff: "find_row key k t = None \<longleftrightarrow> (\<forall>r \<in> set t. key r \<noteq> k)"
  by (induction t) auto

lemma find_row_eqI:
  "keys_distinct key t \<Longrightarrow> r \<in> set t \<Longrightarrow> find_row key (key r) t = Some r"
  by (induction t) (auto simp: keys_distinct_def rev_image_eqI)

lemma update_where_Nil [simp]: "update_where p f [] = []"
  by (simp add: update_where_def)

lemma update_where_Cons [simp]:
  "update_where p f (r # t) = (if p r then f r else r) # update_where p f t"
  by (simp add: update_where_def)

lemma length_update_where [simp]: "length (update_where p f t) = length t"
  by (simp add: update_where_def)

lemma set_update_where:
  "set (update_where p f t) = (\<lambda>r. if p r then f r else r) ` set t"
  by (simp add: update_where_def)

lemma update_where_in_set:
  "r' \<in> set (update_where p f t) \<Longrightarrow> \<exists>r \<in> set t. r' = (if p r then f r else r)"
  by (auto simp: set_update_where)

lemma map_key_update_where:
  "(\<And>r. key (f r) = key r) \<Longrightarrow> map key (update_where p f t) = map key t"
  by (induction t) auto

lemma keys_distinct_update_where:
  "(\<And>r. key (f r) = key r) \<Longrightarrow> keys_distinct key (update_where p f t) = keys_distinct key t"
  by (simp add: keys_distinct_def map_key_update_where)

lemma find_row_update_where:
  assumes "\<And>r. key (f r) = key r"
  shows "find_row key k (update_where p f t) =
     map_option (\<lambda>r. if p r then f r else r) (find_row key k t)"
  using assms by (induction t) auto

lemma keys_distinct_append_one:
  "keys_distinct key (t @ [r]) \<longleftrightarrow> keys_distinct key t \<and> find_row key (key r) t = None"
  by (induction t) (auto simp: keys_distinct_def find_row_None_iff)

subsection \<open>What a client of a keyed table relies on\<close>

text \<open>
  The contract of a table addressed by primary key: an insert under a fresh key is found and
  disturbs nothing else, an update by key changes that row only, and keys stay unique.
\<close>

locale keyed_table =
  fixes key :: "'r \<Rightarrow> 'k"
    and lookup :: "'k \<Rightarrow> 'r list \<Rightarrow> 'r option"
    and modify :: "'k \<Rightarrow> ('r \<Rightarrow> 'r) \<Rightarrow> 'r list \<Rightarrow> 'r list"
    and wf :: "'r list \<Rightarrow> bool"
  assumes lookup_insert:
      "wf t \<Longrightarrow> lookup (key r) t = None \<Longrightarrow> lookup k (t @ [r]) = (if k = key r then Some r else lookup k t)"
    and lookup_modify:
      "(\<And>r. key (f r) = key r) \<Longrightarrow> lookup k' (modify k f t) =
         (if k' = k then map_option f (lookup k t) else lookup k' t)"
    and wf_insert: "wf t \<Longrightarrow> lookup (key r) t = None \<Longrightarrow> wf (t @ [r])"
    and wf_modify: "(\<And>r. key (f r) = key r) \<Longrightarrow> wf t \<Longrightarrow> wf (modify k f t)"
    and wf_empty: "wf []"
    and lookup_member: "wf t \<Longrightarrow> r \<in> set t \<Longrightarrow> lookup (key r) t = Some r"
    and member_lookup: "lookup k t = Some r \<Longrightarrow> r \<in> set t \<and> key r = k"
begin

lemma modify_other:
  "(\<And>r. key (f r) = key r) \<Longrightarrow> k' \<noteq> k \<Longrightarrow> lookup k' (modify k f t) = lookup k' t"
  by (simp add: lookup_modify)

lemma modify_same:
  "(\<And>r. key (f r) = key r) \<Longrightarrow> lookup k t = Some r \<Longrightarrow> lookup k (modify k f t) = Some (f r)"
  by (simp add: lookup_modify)

lemma modify_missing:
  "(\<And>r. key (f r) = key r) \<Longrightarrow> lookup k t = None \<Longrightarrow> lookup k (modify k f t) = None"
  by (simp add: lookup_modify)

lemma wf_member_unique:
  "wf t \<Longrightarrow> r \<in> set t \<Longrightarrow> r' \<in> set t \<Longrightarrow> key r = key r' \<Longrightarrow> r = r'"
  by (metis lookup_member option.inject)

end

definition modify_row :: "('r \<Rightarrow> 'k) \<Rightarrow> 'k \<Rightarrow> ('r \<Rightarrow> 'r) \<Rightarrow> 'r list \<Rightarrow> 'r list" where
  "modify_row key k f t = update_where (\<lambda>r. key r = k) f t"

lemma keyed_list_table:
  "keyed_table key (find_row key) (modify_row key) (keys_distinct key)"
proof unfold_locales
  fix t :: "'a list" and r k
  assume "keys_distinct key t" and "find_row key (key r) t = None"
  then show "find_row key k (t @ [r]) = (if k = key r then Some r else find_row key k t)"
    by (auto simp: find_row_append split: option.splits)
next
  fix t :: "'a list" and f k k'
  assume key: "\<And>r. key (f r) = key r"
  show "find_row key k' (modify_row key k f t) =
      (if k' = k then map_option f (find_row key k t) else find_row key k' t)"
    using find_row_update_where [where key = key and f = f, OF key]
    by (cases "find_row key k' t") (auto simp: modify_row_def dest: find_row_Some)
next
  fix t :: "'a list" and f k
  assume "\<And>r. key (f r) = key r" and "keys_distinct key t"
  then show "keys_distinct key (modify_row key k f t)"
    by (simp add: modify_row_def keys_distinct_update_where)
qed (auto simp: keys_distinct_append_one find_row_eqI dest: find_row_Some,
     simp add: keys_distinct_def)

end
