(* ===== verification/Messaging.thy ===== *)
theory Messaging
  imports Prelude
begin

text \<open>
  What a transition enqueues inside its transaction:
  \<^verbatim>\<open>libs/platform/src/notifications/notification-scheduler.service.ts\<close> (the notification outbox) and
  \<^verbatim>\<open>libs/platform/src/webhooks/webhook-enqueue.service.ts\<close> (the webhook deliveries). A template name
  with its variables is one constructor; the outbox row adds the addressing. The wake hint
  (\<^verbatim>\<open>NOTIFY\<close>) changes no table and is left out.
\<close>

section \<open>Notifications\<close>

datatype notification =
    N_request_submitted (n_requestType: string) (n_requestId: string) (n_requesterEmail: string)
  | N_step_ready string string (n_completedStep: int) (n_nextStep: int) (n_totalSteps: "int option")
  | N_request_approved string string
  | N_request_rejected string string (n_reason: "string option")
  | N_no_approver string string (n_requiredPermission: string)
  | N_delegation_created (n_delegatorName: string) (n_endsAt: int)
  | N_sla_breach string string (n_deadline: int)

text \<open>
  The idempotency keys are strings built from a prefix, ids and a recipient; a constructor per
  format keeps them apart the way the prefixes do.
\<close>

datatype idempotency_key =
    K_request_submitted string string
  | K_step_ready string int string
  | K_no_approver idempotency_key
  | K_request_approved string
  | K_request_rejected string
  | K_delegation_created string
  | K_sla_breach string

record notification_row =
  no_recipientId :: string
  no_actorId :: "string option"
  no_event :: notification
  no_resourceId :: string
  no_idempotencyKey :: idempotency_key

text \<open>\<^verbatim>\<open>insert .. onConflictDoNothing\<close> against the unique index on the key.\<close>

definition schedule :: "notification_row \<Rightarrow> notification_row list \<Rightarrow> notification_row list" where
  "schedule n outbox =
     (if find_row no_idempotencyKey (no_idempotencyKey n) outbox = None then outbox @ [n] else outbox)"

definition schedule_all :: "notification_row list \<Rightarrow> notification_row list \<Rightarrow> notification_row list" where
  "schedule_all ns outbox = foldl (\<lambda>ob n. schedule n ob) outbox ns"

interpretation notifs: keyed_table no_idempotencyKey "find_row no_idempotencyKey"
    "modify_row no_idempotencyKey" "keys_distinct no_idempotencyKey"
  by (rule keyed_list_table)

lemma schedule_keeps: "r \<in> set ob \<Longrightarrow> r \<in> set (schedule n ob)"
  by (simp add: schedule_def)

lemma schedule_all_keeps: "r \<in> set ob \<Longrightarrow> r \<in> set (schedule_all ns ob)"
  unfolding schedule_all_def by (induction ns arbitrary: ob) (auto simp: schedule_keeps)

lemma schedule_source: "r \<in> set (schedule n ob) \<Longrightarrow> r \<in> set ob \<or> r = n"
  by (auto simp: schedule_def split: if_splits)

lemma schedule_all_source: "r \<in> set (schedule_all ns ob) \<Longrightarrow> r \<in> set ob \<or> r \<in> set ns"
  unfolding schedule_all_def
  by (induction ns arbitrary: ob) (auto dest: schedule_source)

lemma schedule_distinct:
  "keys_distinct no_idempotencyKey ob \<Longrightarrow> keys_distinct no_idempotencyKey (schedule n ob)"
  by (simp add: schedule_def notifs.wf_insert)

lemma schedule_all_distinct:
  "keys_distinct no_idempotencyKey ob \<Longrightarrow> keys_distinct no_idempotencyKey (schedule_all ns ob)"
  unfolding schedule_all_def by (induction ns arbitrary: ob) (auto simp: schedule_distinct)

lemma schedule_twice: "schedule n (schedule n ob) = schedule n ob"
  by (auto simp: schedule_def find_row_append split: option.splits)

lemma schedule_has_key: "find_row no_idempotencyKey (no_idempotencyKey n) (schedule n ob) \<noteq> None"
  by (auto simp: schedule_def find_row_append split: option.splits)

section \<open>Webhooks\<close>

datatype webhook_event =
    W_request_submitted (w_requestId: string) (w_type: string) (w_requesterId: string) (w_priority: string)
  | W_request_approved string string (w_approverId: string) (w_step: int) (w_isFinalStep: bool) (w_totalSteps: "int option")
  | W_step_approved string string string int bool "int option"
  | W_request_rejected string string string (w_note: "string option")
  | W_request_cancelled string string (w_cancelledBy: string)
  | W_request_expired string string

fun event_type :: "webhook_event \<Rightarrow> string" where
  "event_type (W_request_submitted _ _ _ _) = ''request.submitted''"
| "event_type (W_request_approved _ _ _ _ _ _) = ''request.approved''"
| "event_type (W_step_approved _ _ _ _ _ _) = ''request.step_approved''"
| "event_type (W_request_rejected _ _ _ _) = ''request.rejected''"
| "event_type (W_request_cancelled _ _ _) = ''request.cancelled''"
| "event_type (W_request_expired _ _) = ''request.expired''"

record webhook_subscription =
  ws_id :: string
  ws_active :: bool
  ws_events :: "string list"

record webhook_delivery =
  wd_subscriptionId :: string
  wd_event :: webhook_event

definition fanout ::
    "webhook_subscription list \<Rightarrow> webhook_event \<Rightarrow> webhook_delivery list \<Rightarrow> webhook_delivery list" where
  "fanout all_subs ev deliveries =
     (let subs = filter (\<lambda>s. ws_active s \<and> event_type ev \<in> set (ws_events s)) all_subs
      in if subs = [] then deliveries
         else deliveries @ map (\<lambda>s. \<lparr>wd_subscriptionId = ws_id s, wd_event = ev\<rparr>) subs)"

lemma set_fanout:
  "set (fanout subs ev ds) = set ds \<union>
     {\<lparr>wd_subscriptionId = ws_id s, wd_event = ev\<rparr> | s.
        s \<in> set subs \<and> ws_active s \<and> event_type ev \<in> set (ws_events s)}"
  by (auto simp: fanout_def Let_def filter_empty_conv)

end
