(* ===== verification/Authz.thy ===== *)
theory Authz
  imports Messaging
begin

text \<open>
  Who may do what: the wildcard rule of \<^verbatim>\<open>db/permissions.catalog.ts\<close>, the permission service
  \<^verbatim>\<open>libs/platform/src/auth/authz.service.ts\<close> with \<^verbatim>\<open>scope-evaluator.ts\<close>, the narrowing helpers
  of \<^verbatim>\<open>actor-scope.service.ts\<close>, and the approval delegations of
  \<^verbatim>\<open>libs/platform/src/authz/delegation.service.ts\<close>.

  The permission cache is a service outside the repository: what it answered for the user
  (\<open>cached\<close>) and whether the database query succeeded (\<open>db_ok\<close>) are arguments.
\<close>

section \<open>The wildcard rule\<close>

definition WILDCARD_PERMISSION :: string where "WILDCARD_PERMISSION = ''*''"

definition module_of :: "string \<Rightarrow> string" where
  "module_of permission = takeWhile (\<lambda>c. c \<noteq> CHR ''.'') permission"

definition permission_grants :: "string list \<Rightarrow> string \<Rightarrow> bool" where
  "permission_grants held required =
     (if held = [] then False
      else if WILDCARD_PERMISSION \<in> set held \<or> required \<in> set held then True
      else module_of required @ ''.*'' \<in> set held)"

lemma permission_grants_iff:
  "permission_grants held required \<longleftrightarrow>
     WILDCARD_PERMISSION \<in> set held \<or> required \<in> set held \<or> module_of required @ ''.*'' \<in> set held"
  by (auto simp: permission_grants_def)

lemma permission_grants_mono:
  "set held \<subseteq> set held' \<Longrightarrow> permission_grants held p \<Longrightarrow> permission_grants held' p"
  by (auto simp: permission_grants_iff)

lemma permission_grants_single:
  "permission_grants held p \<longleftrightarrow> (\<exists>c \<in> set held. permission_grants [c] p)"
  by (auto simp: permission_grants_iff)

section \<open>Scopes\<close>

datatype scope_type = Global | Self | Team | Dept | Region

record scope =
  sc_type :: scope_type
  sc_id :: "string option"

record resource_attrs =
  ra_ownerId :: "string option"
  ra_teamId :: "string option"
  ra_deptId :: "string option"
  ra_region :: "string option"

definition scope_matches :: "scope \<Rightarrow> resource_attrs \<Rightarrow> string \<Rightarrow> bool" where
  "scope_matches grant resource user_sub =
     (case sc_type grant of
        Global \<Rightarrow> True
      | Self \<Rightarrow> ra_ownerId resource = Some user_sub
      | Team \<Rightarrow> sc_id grant \<noteq> None \<and> sc_id grant = ra_teamId resource
      | Dept \<Rightarrow> sc_id grant \<noteq> None \<and> sc_id grant = ra_deptId resource
      | Region \<Rightarrow> sc_id grant \<noteq> None \<and> sc_id grant = ra_region resource)"

definition any_matches :: "scope list \<Rightarrow> resource_attrs \<Rightarrow> string \<Rightarrow> bool" where
  "any_matches grants resource user_sub = list_ex (\<lambda>g. scope_matches g resource user_sub) grants"

section \<open>The permission service\<close>

record assignment =
  as_userId :: string
  as_roleId :: string
  as_scope :: scope
  as_expiresAt :: "int option"

record authz_db =
  role_permissions :: "(string \<times> string) list"
  assignments :: "assignment list"

type_synonym effective = "(string \<times> scope list) list"

definition in_force :: "int \<Rightarrow> assignment \<Rightarrow> bool" where
  "in_force now a = (case as_expiresAt a of None \<Rightarrow> True | Some t \<Rightarrow> t > now)"

text \<open>The join of assignments with role permissions.\<close>

definition permission_rows :: "authz_db \<Rightarrow> assignment list \<Rightarrow> (assignment \<times> string) list" where
  "permission_rows db as_list =
     concat (map (\<lambda>a. map (\<lambda>rp. (a, snd rp)) (filter (\<lambda>rp. fst rp = as_roleId a) (role_permissions db)))
       as_list)"

text \<open>\<^verbatim>\<open>(effective[key] ??= []).push(scope)\<close>.\<close>

fun push_scope :: "string \<Rightarrow> scope \<Rightarrow> effective \<Rightarrow> effective" where
  "push_scope k s [] = [(k, [s])]"
| "push_scope k s ((k', ss) # e) = (if k' = k then (k', ss @ [s]) # e else (k', ss) # push_scope k s e)"

definition resolve :: "effective option \<Rightarrow> bool \<Rightarrow> authz_db \<Rightarrow> int \<Rightarrow> string \<Rightarrow> effective" where
  "resolve cached db_ok db now user =
     (case cached of
        Some e \<Rightarrow> e
      | None \<Rightarrow>
          if db_ok then
            foldl (\<lambda>e row. push_scope (snd row) (as_scope (fst row)) e) []
              (permission_rows db (filter (\<lambda>a. as_userId a = user \<and> in_force now a) (assignments db)))
          else [])"

definition granted_scopes :: "effective \<Rightarrow> string \<Rightarrow> scope list" where
  "granted_scopes e permission =
     concat (map snd (filter (\<lambda>entry. permission_grants [fst entry] permission) e))"

definition check_effective :: "effective \<Rightarrow> string \<Rightarrow> resource_attrs option \<Rightarrow> string option \<Rightarrow> bool" where
  "check_effective e permission resource user =
     (let grants = granted_scopes e permission
      in if grants = [] then False
         else if list_ex (\<lambda>s. sc_type s = Global) grants then True
         else case (resource, user) of
                (Some r, Some u) \<Rightarrow> any_matches grants r u
              | _ \<Rightarrow> False)"

definition authz_check ::
    "effective option \<Rightarrow> bool \<Rightarrow> authz_db \<Rightarrow> int \<Rightarrow> string \<Rightarrow> string \<Rightarrow>
     resource_attrs option \<Rightarrow> string option \<Rightarrow> bool" where
  "authz_check cached db_ok db now user permission resource user_sub =
     check_effective (resolve cached db_ok db now user) permission resource user_sub"

text \<open>Insertion into a JavaScript \<^verbatim>\<open>Set\<close> keeps the first occurrence of each holder.\<close>

definition global_holders_of :: "bool \<Rightarrow> authz_db \<Rightarrow> int \<Rightarrow> string \<Rightarrow> string list" where
  "global_holders_of db_ok db now permission =
     (if db_ok then
        foldl (\<lambda>hs row. if permission_grants [snd row] permission \<and> as_userId (fst row) \<notin> set hs
                        then hs @ [as_userId (fst row)] else hs) []
          (permission_rows db
            (filter (\<lambda>a. sc_type (as_scope a) = Global \<and> in_force now a) (assignments db)))
      else [])"

subsection \<open>What resolution yields\<close>

lemma set_permission_rows:
  "(a, p) \<in> set (permission_rows db as_list) \<longleftrightarrow> a \<in> set as_list \<and> (as_roleId a, p) \<in> set (role_permissions db)"
  by (auto simp: permission_rows_def image_iff intro!: bexI)

definition grants_of :: "effective \<Rightarrow> (string \<times> scope) set" where
  "grants_of e = {(k, s). \<exists>ss. (k, ss) \<in> set e \<and> s \<in> set ss}"

lemma grants_of_push: "grants_of (push_scope k s e) = insert (k, s) (grants_of e)"
  by (induction k s e rule: push_scope.induct) (auto simp: grants_of_def)

lemma grants_of_fold:
  "grants_of (foldl (\<lambda>e row. push_scope (snd row) (as_scope (fst row)) e) e rows) =
     grants_of e \<union> (\<lambda>row. (snd row, as_scope (fst row))) ` set rows"
  by (induction rows arbitrary: e) (auto simp: grants_of_push)

lemma set_granted_scopes:
  "set (granted_scopes e p) = {s. \<exists>k. (k, s) \<in> grants_of e \<and> permission_grants [k] p}"
  by (fastforce simp: granted_scopes_def grants_of_def)

lemma grants_of_resolve:
  "grants_of (resolve None True db now user) =
     {(k, as_scope a) | k a. a \<in> set (assignments db) \<and> as_userId a = user \<and> in_force now a \<and>
        (as_roleId a, k) \<in> set (role_permissions db)}"
proof -
  have "grants_of (resolve None True db now user) =
      (\<lambda>row. (snd row, as_scope (fst row))) `
        set (permission_rows db (filter (\<lambda>a. as_userId a = user \<and> in_force now a) (assignments db)))"
    by (simp add: resolve_def grants_of_fold) (simp add: grants_of_def)
  also have "\<dots> = {(k, as_scope a) | k a. (a, k) \<in> set (permission_rows db
      (filter (\<lambda>a. as_userId a = user \<and> in_force now a) (assignments db)))}"
    by force
  finally show ?thesis unfolding set_permission_rows by simp
qed

lemma check_effective_no_resource:
  "check_effective e p None u \<longleftrightarrow> (\<exists>k s. (k, s) \<in> grants_of e \<and> permission_grants [k] p \<and> sc_type s = Global)"
proof -
  have "check_effective e p None u \<longleftrightarrow> (\<exists>s \<in> set (granted_scopes e p). sc_type s = Global)"
    by (auto simp: check_effective_def Let_def list_ex_iff)
  then show ?thesis by (auto simp: set_granted_scopes)
qed

lemma check_effective_iff:
  "check_effective e p (Some r) (Some u) \<longleftrightarrow>
     (\<exists>k s. (k, s) \<in> grants_of e \<and> permission_grants [k] p \<and> scope_matches s r u)"
proof -
  have "check_effective e p (Some r) (Some u) \<longleftrightarrow> (\<exists>s \<in> set (granted_scopes e p). scope_matches s r u)"
    by (force simp: check_effective_def Let_def list_ex_iff any_matches_def scope_matches_def)
  then show ?thesis by (auto simp: set_granted_scopes)
qed

lemma set_holders_fold:
  "set (foldl (\<lambda>hs row. if permission_grants [snd row] p \<and> as_userId (fst row) \<notin> set hs
                 then hs @ [as_userId (fst row)] else hs) hs rows) =
   set hs \<union> as_userId ` fst ` {row \<in> set rows. permission_grants [snd row] p}"
  by (induction rows arbitrary: hs) (auto simp: image_iff)

lemma distinct_holders_fold:
  "distinct hs \<Longrightarrow>
   distinct (foldl (\<lambda>hs row. if permission_grants [snd row] p \<and> as_userId (fst row) \<notin> set hs
                 then hs @ [as_userId (fst row)] else hs) hs rows)"
  by (induction rows arbitrary: hs) auto

lemma holders_iff_check:
  "u \<in> set (global_holders_of True db now p) \<longleftrightarrow> authz_check None True db now u p None None"
proof -
  have "u \<in> set (global_holders_of True db now p) \<longleftrightarrow>
      (\<exists>a k. (a, k) \<in> set (permission_rows db
         (filter (\<lambda>a. sc_type (as_scope a) = Global \<and> in_force now a) (assignments db))) \<and>
         permission_grants [k] p \<and> as_userId a = u)"
    unfolding global_holders_of_def by (simp add: set_holders_fold) force
  then show ?thesis
    unfolding authz_check_def check_effective_no_resource grants_of_resolve set_permission_rows
    by auto
qed

lemma global_holders_distinct: "distinct (global_holders_of True db now p)"
  by (simp add: global_holders_of_def distinct_holders_fold)

section \<open>A directory of approvers\<close>

text \<open>
  What the request engine relies on when it tells people that a request waits for them: the
  holders it is given for a permission are exactly the people the permission check lets pass.
\<close>

locale approver_directory =
  fixes may :: "string \<Rightarrow> string \<Rightarrow> bool"
    and holders :: "string \<Rightarrow> string list"
  assumes holders_iff: "u \<in> set (holders p) \<longleftrightarrow> may u p"
    and holders_distinct: "distinct (holders p)"
begin

lemma nobody_may: "holders p = [] \<Longrightarrow> \<not> may u p"
  using holders_iff [of u p] by simp

lemma recipients_may:
  "u \<in> set (filter (\<lambda>h. h \<noteq> x) (holders p)) \<longleftrightarrow> may u p \<and> u \<noteq> x"
  by (simp add: holders_iff)

end

interpretation directory:
  approver_directory "\<lambda>u p. authz_check None True db now u p None None" "global_holders_of True db now"
  for db now
  by unfold_locales (simp_all only: holders_iff_check global_holders_distinct)

section \<open>Narrowing to the actor\<close>

text \<open>\<open>may\<close> is the permission check of the caller; \<open>requested\<close> the owner filter they sent.\<close>

definition narrow_filter :: "(string \<Rightarrow> string \<Rightarrow> bool) \<Rightarrow> string option \<Rightarrow> string \<Rightarrow> string \<Rightarrow> string option result" where
  "narrow_filter may requested actor permission =
     (if may actor permission then Inr requested
      else case requested of
        Some owner \<Rightarrow>
          if owner \<noteq> actor then Inl (PermissionDeniedException ''FORBIDDEN'') else Inr (Some actor)
      | None \<Rightarrow> Inr (Some actor))"

definition assert_party :: "(string \<Rightarrow> string \<Rightarrow> bool) \<Rightarrow> string option list \<Rightarrow> string \<Rightarrow> string \<Rightarrow> unit result" where
  "assert_party may parties actor permission =
     (if list_ex (\<lambda>p. p \<noteq> None \<and> p = Some actor) parties then Inr ()
      else if may actor permission then Inr ()
      else Inl (PermissionDeniedException ''FORBIDDEN''))"

lemma narrow_filter_own:
  "narrow_filter may requested actor p = Inr f \<Longrightarrow> \<not> may actor p \<Longrightarrow> f = Some actor"
  by (auto simp: narrow_filter_def split: option.splits if_splits)

lemma assert_party_iff:
  "assert_party may parties actor p = Inr () \<longleftrightarrow> Some actor \<in> set parties \<or> may actor p"
  by (auto simp: assert_party_def list_ex_iff)

section \<open>Delegations\<close>

record delegation =
  de_id :: string
  de_fromUserId :: string
  de_toUserId :: string
  de_startsAt :: int
  de_endsAt :: int
  de_reason :: "string option"

definition delegation_create ::
    "string \<Rightarrow> string \<Rightarrow> string \<Rightarrow> int \<Rightarrow> int \<Rightarrow> string option \<Rightarrow> string option \<Rightarrow>
     delegation list \<times> notification_row list \<Rightarrow>
     (delegation \<times> delegation list \<times> notification_row list) result" where
  "delegation_create new_id d_from d_to starts ends reason from_name st =
     (case st of (ds, outbox) \<Rightarrow>
        if d_from = d_to then Inl (PreconditionFailedException ''DELEGATION_SELF'')
        else if starts \<ge> ends then Inl (PreconditionFailedException ''DELEGATION_INVALID_WINDOW'')
        else
          let row = \<lparr>de_id = new_id, de_fromUserId = d_from, de_toUserId = d_to, de_startsAt = starts,
                     de_endsAt = ends, de_reason = reason\<rparr>;
              name = (case from_name of None \<Rightarrow> ''A colleague'' | Some n \<Rightarrow> n)
          in Inr (row, ds @ [row],
               schedule \<lparr>no_recipientId = d_to, no_actorId = Some d_from,
                         no_event = N_delegation_created name ends, no_resourceId = new_id,
                         no_idempotencyKey = K_delegation_created new_id\<rparr> outbox))"

definition delegation_revoke :: "string \<Rightarrow> string \<Rightarrow> delegation list \<Rightarrow> delegation list result" where
  "delegation_revoke did actor ds =
     (case find_row de_id did ds of
        None \<Rightarrow> Inl (NotFoundException ''DELEGATION_NOT_FOUND'')
      | Some row \<Rightarrow>
          if de_fromUserId row \<noteq> actor
          then Inl (PreconditionFailedException ''DELEGATION_NOT_OWNER'')
          else Inr (filter (\<lambda>d. de_id d \<noteq> did) ds))"

text \<open>The query has no order, so the database picks the row; the model takes the first.\<close>

definition find_active_delegation_to :: "int \<Rightarrow> string \<Rightarrow> delegation list \<Rightarrow> delegation option" where
  "find_active_delegation_to now actor ds =
     find (\<lambda>d. de_toUserId d = actor \<and> de_startsAt d \<le> now \<and> de_endsAt d > now) ds"

definition delete_expired_before :: "int \<Rightarrow> delegation list \<Rightarrow> int \<times> delegation list" where
  "delete_expired_before before ds =
     (int (length (filter (\<lambda>d. de_endsAt d \<le> before) ds)), filter (\<lambda>d. \<not> de_endsAt d \<le> before) ds)"

definition delegation_ok :: "delegation \<Rightarrow> bool" where
  "delegation_ok d \<longleftrightarrow> de_fromUserId d \<noteq> de_toUserId d \<and> de_startsAt d < de_endsAt d"

lemma find_active_Some:
  "find_active_delegation_to now actor ds = Some d \<Longrightarrow>
   d \<in> set ds \<and> de_toUserId d = actor \<and> de_startsAt d \<le> now \<and> now < de_endsAt d"
  unfolding find_active_delegation_to_def by (induction ds) (auto split: if_splits)

lemma delegation_create_ok:
  "delegation_create i f t s e r n (ds, ob) = Inr (row, ds', ob') \<Longrightarrow>
   delegation_ok row \<and> ds' = ds @ [row] \<and> de_fromUserId row = f \<and> de_toUserId row = t"
  by (auto simp: delegation_create_def delegation_ok_def Let_def split: if_splits)

text \<open>Purging windows that ended changes no answer about the present.\<close>

lemma find_active_delete_expired:
  "before \<le> now \<Longrightarrow>
   find_active_delegation_to now actor (snd (delete_expired_before before ds)) =
     find_active_delegation_to now actor ds"
  unfolding find_active_delegation_to_def delete_expired_before_def
  by (induction ds) (auto split: if_splits)

end
