(* ===== verification/Calendar.thy ===== *)
theory Calendar
  imports Prelude
begin

text \<open>
  Calendar dates and the arithmetic on them: \<^verbatim>\<open>libs/shared-kernel/src/time/index.ts\<close>,
  \<^verbatim>\<open>libs/modules/workforce/src/domain/working-days.ts\<close> and \<^verbatim>\<open>wio-day.ts\<close>.

  The code keeps a date as a \<^verbatim>\<open>YYYY-MM-DD\<close> string, compares the strings, and converts through
  JavaScript's \<^verbatim>\<open>Date\<close> in UTC. Here a date is its three fields, ordered field by field; that this
  is the order of the strings is \<open>js_less_iso_string\<close>. \<^verbatim>\<open>Date\<close> is the millisecond count of the
  language standard: \<open>day_from_year\<close>, \<open>make_day\<close> and \<open>iso_of_day\<close> are its DayFromYear, MakeDay
  and the fields of toISOString, on unbounded integers. Strings that are not dates are not modelled:
  \<open>valid_date\<close> is what the \<^verbatim>\<open>date\<close> columns of the schema guarantee.
\<close>

section \<open>Dates\<close>

datatype iso_date = Iso (iyear: int) (imonth: int) (iday: int)

instantiation iso_date :: linorder
begin

fun less_eq_iso_date :: "iso_date \<Rightarrow> iso_date \<Rightarrow> bool" where
  "less_eq_iso_date (Iso y m d) (Iso y' m' d') \<longleftrightarrow>
     y < y' \<or> y = y' \<and> (m < m' \<or> m = m' \<and> d \<le> d')"

fun less_iso_date :: "iso_date \<Rightarrow> iso_date \<Rightarrow> bool" where
  "less_iso_date (Iso y m d) (Iso y' m' d') \<longleftrightarrow>
     y < y' \<or> y = y' \<and> (m < m' \<or> m = m' \<and> d < d')"

instance
proof
  fix a b c :: iso_date
  show "a < b \<longleftrightarrow> a \<le> b \<and> \<not> b \<le> a"
    by (cases a; cases b) auto
  show "a \<le> a"
    by (cases a) auto
  show "a \<le> b \<Longrightarrow> b \<le> c \<Longrightarrow> a \<le> c"
    by (cases a; cases b; cases c) auto
  show "a \<le> b \<Longrightarrow> b \<le> a \<Longrightarrow> a = b"
    by (cases a; cases b) auto
  show "a \<le> b \<or> b \<le> a"
    by (cases a; cases b) auto
qed

end

definition leap :: "int \<Rightarrow> bool" where
  "leap y \<longleftrightarrow> 4 dvd y \<and> \<not> 100 dvd y \<or> 400 dvd y"

text \<open>Days before month \<open>m\<close> (counted from 0) of a leap or a common year.\<close>

definition month_start :: "bool \<Rightarrow> int \<Rightarrow> int" where
  "month_start l m =
     (if m \<le> 0 then 0 else if m = 1 then 31 else
      (if l then 1 else 0) +
      (if m = 2 then 59 else if m = 3 then 90 else if m = 4 then 120 else if m = 5 then 151
       else if m = 6 then 181 else if m = 7 then 212 else if m = 8 then 243 else if m = 9 then 273
       else if m = 10 then 304 else if m = 11 then 334 else 365))"

definition days_in_month :: "bool \<Rightarrow> int \<Rightarrow> int" where
  "days_in_month l m = month_start l (m + 1) - month_start l m"

fun valid_date :: "iso_date \<Rightarrow> bool" where
  "valid_date (Iso y m d) \<longleftrightarrow>
     1 \<le> m \<and> m \<le> 12 \<and> 1 \<le> d \<and> d \<le> days_in_month (leap y) (m - 1)"

section \<open>The day number of JavaScript's Date\<close>

definition day_from_year :: "int \<Rightarrow> int" where
  "day_from_year y =
     365 * (y - 1970) + (y - 1969) div 4 - (y - 1901) div 100 + (y - 1601) div 400"

text \<open>
  MakeDay: a month outside 0..11 carries into the year, a day outside its month runs on.
\<close>

definition make_day :: "int \<Rightarrow> int \<Rightarrow> int \<Rightarrow> int" where
  "make_day y m d =
     (let ym = y + m div 12
      in day_from_year ym + month_start (leap ym) (m mod 12) + (d - 1))"

definition year_from_day :: "int \<Rightarrow> int" where
  "year_from_day n =
     (let e = 1970 + (400 * n) div 146097
      in if n < day_from_year e then e - 1
         else if day_from_year (e + 1) \<le> n then e + 1 else e)"

definition month_in_year :: "bool \<Rightarrow> int \<Rightarrow> int" where
  "month_in_year l n =
     (if n < month_start l 1 then 0 else if n < month_start l 2 then 1
      else if n < month_start l 3 then 2 else if n < month_start l 4 then 3
      else if n < month_start l 5 then 4 else if n < month_start l 6 then 5
      else if n < month_start l 7 then 6 else if n < month_start l 8 then 7
      else if n < month_start l 9 then 8 else if n < month_start l 10 then 9
      else if n < month_start l 11 then 10 else 11)"

definition iso_of_day :: "int \<Rightarrow> iso_date" where
  "iso_of_day n =
     (let y = year_from_day n; r = n - day_from_year y; m = month_in_year (leap y) r
      in Iso y (m + 1) (r - month_start (leap y) m + 1))"

fun day_of :: "iso_date \<Rightarrow> int" where
  "day_of (Iso y m d) = make_day y (m - 1) d"

subsection \<open>Years\<close>

lemma div_bounds:
  "0 < n \<Longrightarrow> n * (x div n) \<le> x"
  "0 < n \<Longrightarrow> x < n * (x div n) + n" for x n :: int
proof -
  have "n * (x div n) + x mod n = x" by (rule mult_div_mod_eq)
  then show "0 < n \<Longrightarrow> n * (x div n) \<le> x" "0 < n \<Longrightarrow> x < n * (x div n) + n"
    using pos_mod_bound [of n x] pos_mod_sign [of n x] by linarith+
qed

lemma div_plus_one:
  fixes x n :: int
  assumes "0 < n"
  shows "(x + 1) div n = x div n + (if n dvd x + 1 then 1 else 0)"
proof (cases "n dvd x + 1")
  case True
  then obtain k where k: "x + 1 = n * k" ..
  then have "x = n * (k - 1) + (n - 1)" by (simp add: algebra_simps)
  then have "x div n = k - 1" by (rule int_div_pos_eq) (use assms in auto)
  with True k assms show ?thesis by simp
next
  case False
  have "x mod n \<noteq> n - 1"
  proof
    assume "x mod n = n - 1"
    then have "x + 1 = n * (x div n + 1)"
      using mult_div_mod_eq [of n x] by (simp only: distrib_left mult_1_right)
    with False show False by (metis dvd_triv_left)
  qed
  then have "x mod n + 1 < n"
    using pos_mod_bound [OF assms, of x] by linarith
  moreover have "x + 1 = n * (x div n) + (x mod n + 1)"
    using mult_div_mod_eq [of n x] by linarith
  ultimately have "(x + 1) div n = x div n"
    using pos_mod_sign [OF assms, of x] by (intro int_div_pos_eq) auto
  with False show ?thesis by simp
qed

lemma dvd_minus_iff_of_dvd: "n dvd k \<Longrightarrow> n dvd y - k \<longleftrightarrow> n dvd y" for n k y :: int
  by (metis diff_add_cancel dvd_add dvd_diff)

lemma div_step:
  fixes k n y :: int
  assumes "0 < n" and "n dvd k"
  shows "(y + 1 - (k + 1)) div n = (y - (k + 1)) div n + (if n dvd y then 1 else 0)"
proof -
  have "y - (k + 1) + 1 = y - k" and "y + 1 - (k + 1) = y - k" by simp_all
  with div_plus_one [OF assms(1), of "y - (k + 1)"] dvd_minus_iff_of_dvd [OF assms(2), of y]
  show ?thesis by (simp only:)
qed

lemma day_from_year_Suc:
  "day_from_year (y + 1) = day_from_year y + (if leap y then 366 else 365)"
proof -
  define p q r where "p \<longleftrightarrow> 4 dvd y" and "q \<longleftrightarrow> 100 dvd y" and "r \<longleftrightarrow> 400 dvd y"
  define a b c where "a = (y - (1968 + 1)) div 4" and "b = (y - (1900 + 1)) div 100"
    and "c = (y - (1600 + 1)) div 400"
  have "(y + 1 - (1968 + 1)) div 4 = a + (if p then 1 else 0)"
    unfolding p_def a_def by (rule div_step) simp_all
  moreover have "(y + 1 - (1900 + 1)) div 100 = b + (if q then 1 else 0)"
    unfolding q_def b_def by (rule div_step) simp_all
  moreover have "(y + 1 - (1600 + 1)) div 400 = c + (if r then 1 else 0)"
    unfolding r_def c_def by (rule div_step) simp_all
  ultimately have "day_from_year (y + 1) = 365 * (y + 1 - 1970)
      + (a + (if p then 1 else 0)) - (b + (if q then 1 else 0)) + (c + (if r then 1 else 0))"
    by (simp only: day_from_year_def) simp
  moreover have "day_from_year y = 365 * (y - 1970) + a - b + c"
    by (simp add: day_from_year_def a_def b_def c_def)
  moreover have "q \<Longrightarrow> p" and "r \<Longrightarrow> q"
    unfolding p_def q_def r_def by (rule dvd_trans [rotated], assumption, simp)+
  moreover have "leap y \<longleftrightarrow> p \<and> \<not> q \<or> r"
    by (simp add: leap_def p_def q_def r_def)
  ultimately show ?thesis
    by (cases p; cases q; cases r) simp_all
qed

lemma day_from_year_bounds:
  "400 * day_from_year y \<le> 146097 * (y - 1970) + 593"
  "146097 * (y - 1970) - 607 \<le> 400 * day_from_year y"
proof -
  define a b c where "a = (y - 1969) div 4" and "b = (y - 1901) div 100" and "c = (y - 1601) div 400"
  have "4 * a \<le> y - 1969" "y - 1969 < 4 * a + 4"
    "100 * b \<le> y - 1901" "y - 1901 < 100 * b + 100"
    "400 * c \<le> y - 1601" "y - 1601 < 400 * c + 400"
    unfolding a_def b_def c_def by (intro div_bounds; simp)+
  then show "400 * day_from_year y \<le> 146097 * (y - 1970) + 593"
    "146097 * (y - 1970) - 607 \<le> 400 * day_from_year y"
    by (simp_all add: day_from_year_def a_def [symmetric] b_def [symmetric] c_def [symmetric] algebra_simps)
qed

lemma day_from_year_step: "day_from_year y + 365 \<le> day_from_year (y + 1)"
  by (simp add: day_from_year_Suc)

lemma day_from_year_strict_mono: "y < y' \<Longrightarrow> day_from_year y + 365 \<le> day_from_year y'"
proof (induction "nat (y' - y)" arbitrary: y')
  case 0
  then show ?case by simp
next
  case (Suc k)
  show ?case
  proof (cases "y' = y + 1")
    case True
    then show ?thesis by (simp add: day_from_year_step)
  next
    case False
    with Suc.prems Suc.hyps(2) have "k = nat (y' - 1 - y)" and "y < y' - 1" by simp_all
    then have "day_from_year y + 365 \<le> day_from_year (y' - 1)"
      using Suc.hyps(1) by blast
    with day_from_year_step [of "y' - 1"] show ?thesis by simp
  qed
qed

lemma year_from_day_bounds:
  "day_from_year (year_from_day n) \<le> n \<and> n < day_from_year (year_from_day n + 1)"
proof -
  define e where "e = 1970 + (400 * n) div 146097"
  have e: "146097 * (e - 1970) \<le> 400 * n" "400 * n \<le> 146097 * (e - 1970) + 146096"
    using div_bounds [of 146097 "400 * n"] by (simp_all add: e_def)
  have "day_from_year (e - 1) \<le> n"
    using day_from_year_bounds(1) [of "e - 1"] e by (simp add: algebra_simps)
  moreover have "n < day_from_year (e + 2)"
    using day_from_year_bounds(2) [of "e + 2"] e by (simp add: algebra_simps)
  ultimately show ?thesis
    unfolding year_from_day_def e_def [symmetric] Let_def by (auto simp: add.commute)
qed

lemma year_from_day_unique:
  assumes "day_from_year y \<le> n" and "n < day_from_year (y + 1)"
  shows "year_from_day n = y"
proof (rule ccontr)
  assume "year_from_day n \<noteq> y"
  then consider "year_from_day n + 1 \<le> y" | "y + 1 \<le> year_from_day n" by linarith
  then show False
  proof cases
    case 1
    then have "day_from_year (year_from_day n + 1) \<le> day_from_year y"
      using day_from_year_strict_mono [of "year_from_day n + 1" y]
      by (cases "year_from_day n + 1 = y") auto
    with assms year_from_day_bounds [of n] show False by linarith
  next
    case 2
    then have "day_from_year (y + 1) \<le> day_from_year (year_from_day n)"
      using day_from_year_strict_mono [of "y + 1" "year_from_day n"]
      by (cases "year_from_day n = y + 1") auto
    with assms year_from_day_bounds [of n] show False by linarith
  qed
qed

subsection \<open>Months and whole dates\<close>

lemma month_cases:
  "0 \<le> m \<Longrightarrow> m \<le> 11 \<Longrightarrow>
   m = 0 \<or> m = 1 \<or> m = 2 \<or> m = 3 \<or> m = 4 \<or> m = 5 \<or> m = 6 \<or> m = 7 \<or> m = 8 \<or> m = 9 \<or> m = 10 \<or> m = 11"
  for m :: int
  by presburger

lemma days_in_month_pos: "0 \<le> m \<Longrightarrow> m \<le> 11 \<Longrightarrow> 28 \<le> days_in_month l m \<and> days_in_month l m \<le> 31"
  by (drule (1) month_cases) (elim disjE; simp add: days_in_month_def month_start_def)

lemma month_start_range:
  "0 \<le> m \<Longrightarrow> m \<le> 11 \<Longrightarrow> 0 \<le> month_start l m \<and>
   month_start l m + days_in_month l m \<le> (if l then 366 else 365)"
  by (drule (1) month_cases) (elim disjE; simp add: days_in_month_def month_start_def)

lemma month_in_year_bounds:
  assumes "0 \<le> n" and "n < (if l then 366 else 365)"
  defines "m \<equiv> month_in_year l n"
  shows "0 \<le> m \<and> m \<le> 11 \<and> month_start l m \<le> n \<and> n < month_start l (m + 1)"
  using assms by (cases l) (simp_all add: month_in_year_def month_start_def)

lemma month_in_year_unique:
  assumes "0 \<le> m" and "m \<le> 11" and "0 \<le> d" and "d < days_in_month l m"
  shows "month_in_year l (month_start l m + d) = m"
  using month_cases [OF assms(1,2)] assms(3,4)
  by (cases l) (elim disjE; simp add: month_in_year_def month_start_def days_in_month_def)+

lemma month_start_mono:
  assumes "0 \<le> m" and "m \<le> m'" and "m' \<le> 12"
  shows "month_start l m \<le> month_start l m'"
proof (cases "m = 12")
  case True
  with assms show ?thesis by simp
next
  case False
  with month_cases [of m] assms show ?thesis
    by simp (elim disjE; simp add: month_start_def)
qed

lemma make_day_in_year:
  assumes "0 \<le> m" and "m \<le> 11"
  shows "make_day y m d = day_from_year y + month_start (leap y) m + (d - 1)"
  using assms by (simp add: make_day_def div_pos_pos_trivial mod_pos_pos_trivial)

lemma day_of_bounds:
  assumes "valid_date (Iso y m d)"
  shows "day_from_year y \<le> day_of (Iso y m d)" and "day_of (Iso y m d) < day_from_year (y + 1)"
  using assms month_start_range [of "m - 1" "leap y"]
  by (simp_all add: make_day_in_year day_from_year_Suc)

text \<open>The two directions of the round trip between a date and its day number.\<close>

lemma iso_of_day_of [simp]:
  assumes "valid_date dt"
  shows "iso_of_day (day_of dt) = dt"
proof (cases dt)
  case (Iso y m d)
  with assms have v: "valid_date (Iso y m d)" by simp
  then have m: "0 \<le> m - 1" "m - 1 \<le> 11" and d: "0 \<le> d - 1" "d - 1 < days_in_month (leap y) (m - 1)"
    by simp_all
  have "year_from_day (day_of (Iso y m d)) = y"
    using day_of_bounds [OF v] by (rule year_from_day_unique)
  moreover have "day_of (Iso y m d) - day_from_year y = month_start (leap y) (m - 1) + (d - 1)"
    using make_day_in_year [OF m] by simp
  ultimately show ?thesis
    using month_in_year_unique [OF m d] Iso
    by (simp only: iso_of_day_def Let_def) simp
qed

lemma year_remainder:
  "0 \<le> n - day_from_year (year_from_day n) \<and>
   n - day_from_year (year_from_day n) < (if leap (year_from_day n) then 366 else 365)"
  using year_from_day_bounds [of n] day_from_year_Suc [of "year_from_day n"] by simp

lemma valid_iso_of_day [simp]: "valid_date (iso_of_day n)"
  using month_in_year_bounds [OF conjunct1 [OF year_remainder] conjunct2 [OF year_remainder], of n]
  by (simp add: iso_of_day_def Let_def days_in_month_def)

lemma day_of_iso_of_day [simp]: "day_of (iso_of_day n) = n"
  using month_in_year_bounds [OF conjunct1 [OF year_remainder] conjunct2 [OF year_remainder], of n]
  by (simp add: iso_of_day_def Let_def make_day_in_year)

lemma day_of_strict_mono:
  assumes "valid_date a" and "valid_date b" and "a < b"
  shows "day_of a < day_of b"
proof (cases a; cases b)
  fix y m d y' m' d'
  assume ab: "a = Iso y m d" "b = Iso y' m' d'"
  consider "y < y'" | "y = y'" "m < m'" | "y = y'" "m = m'" "d < d'"
    using assms(3) ab by auto
  then show ?thesis
  proof cases
    case 1
    then have "day_from_year (y + 1) \<le> day_from_year y'"
      using day_from_year_strict_mono [of "y + 1" y'] by (cases "y + 1 = y'") auto
    then show ?thesis
      using day_of_bounds [of y m d] day_of_bounds [of y' m' d'] assms(1,2) ab by simp
  next
    case 2
    have "month_start (leap y) (m - 1 + 1) \<le> month_start (leap y) (m' - 1)"
      using assms(1,2) ab 2 by (intro month_start_mono) simp_all
    then show ?thesis
      using assms(1,2) ab 2 by (simp add: make_day_in_year days_in_month_def)
  next
    case 3
    then show ?thesis using assms(1,2) ab by (simp add: make_day_in_year)
  qed
qed

lemma day_of_less_iff [simp]: "valid_date a \<Longrightarrow> valid_date b \<Longrightarrow> day_of a < day_of b \<longleftrightarrow> a < b"
  using day_of_strict_mono [of a b] day_of_strict_mono [of b a] by (cases a b rule: linorder_cases) auto

lemma day_of_le_iff [simp]: "valid_date a \<Longrightarrow> valid_date b \<Longrightarrow> day_of a \<le> day_of b \<longleftrightarrow> a \<le> b"
  by (simp add: linorder_not_less [symmetric])

lemma day_of_eq_iff: "valid_date a \<Longrightarrow> valid_date b \<Longrightarrow> day_of a = day_of b \<longleftrightarrow> a = b"
  by (metis iso_of_day_of)

lemma iso_of_day_less_iff [simp]: "iso_of_day m < iso_of_day n \<longleftrightarrow> m < n"
  using day_of_less_iff [of "iso_of_day m" "iso_of_day n"] by simp

lemma iso_of_day_le_iff [simp]: "iso_of_day m \<le> iso_of_day n \<longleftrightarrow> m \<le> n"
  using day_of_le_iff [of "iso_of_day m" "iso_of_day n"] by simp

section \<open>Instants and the helpers of the shared kernel\<close>

definition MS_PER_HOUR :: int where "MS_PER_HOUR = 3600000"

definition MS_PER_DAY :: int where "MS_PER_DAY = 86400000"

text \<open>\<^verbatim>\<open>new Date(`${date}T00:00:00Z`)\<close> as its time value in milliseconds.\<close>

definition parse_iso_date :: "iso_date \<Rightarrow> int" where
  "parse_iso_date dt = day_of dt * MS_PER_DAY"

text \<open>\<^verbatim>\<open>at.toISOString().slice(0, 10)\<close>.\<close>

definition to_iso_date :: "int \<Rightarrow> iso_date" where
  "to_iso_date t = iso_of_day (t div MS_PER_DAY)"

definition today :: "int \<Rightarrow> iso_date" where
  "today now = to_iso_date now"

definition latest_date_anywhere :: "int \<Rightarrow> iso_date" where
  "latest_date_anywhere now = to_iso_date (now + 14 * MS_PER_HOUR)"

text \<open>\<^verbatim>\<open>Math.round(a / b)\<close> for a positive divisor: the floor of the quotient plus a half.\<close>

definition js_round_div :: "int \<Rightarrow> int \<Rightarrow> int" where
  "js_round_div a b = (2 * a + b) div (2 * b)"

definition days_between :: "iso_date \<Rightarrow> iso_date \<Rightarrow> int" where
  "days_between d_from d_to =
     (let ms = parse_iso_date d_to - parse_iso_date d_from in js_round_div ms MS_PER_DAY)"

text \<open>\<^verbatim>\<open>Date.UTC\<close>: a two-digit year is read as 19xx.\<close>

definition date_utc :: "int \<Rightarrow> int \<Rightarrow> int \<Rightarrow> int" where
  "date_utc y m d = make_day (if 0 \<le> y \<and> y \<le> 99 then 1900 + y else y) m d * MS_PER_DAY"

text \<open>\<^verbatim>\<open>setUTCDate\<close> rebuilds the day from the year and month of the instant.\<close>

definition add_days :: "iso_date \<Rightarrow> int \<Rightarrow> iso_date" where
  "add_days d_from n =
     (case to_iso_date (parse_iso_date d_from) of
        Iso y m d \<Rightarrow> to_iso_date (make_day y (m - 1) (d + n) * MS_PER_DAY))"

definition add_months :: "iso_date \<Rightarrow> int \<Rightarrow> iso_date" where
  "add_months d_from n =
     (case to_iso_date (parse_iso_date d_from) of
        Iso y m day \<Rightarrow>
          let month = m - 1 + n;
              last_of_target = iday (to_iso_date (date_utc y (month + 1) 0))
          in to_iso_date (date_utc y month (min day last_of_target)))"

text \<open>The last day of a \<^verbatim>\<open>YYYY-MM\<close> month (\<^verbatim>\<open>wio-day.ts\<close>); a month is its year and number.\<close>

definition last_day_of :: "int \<times> int \<Rightarrow> iso_date" where
  "last_day_of ym = (case ym of (y, m) \<Rightarrow> to_iso_date (date_utc y m 0))"

lemma to_iso_date_parse [simp]: "valid_date dt \<Longrightarrow> to_iso_date (parse_iso_date dt) = dt"
  by (simp add: to_iso_date_def parse_iso_date_def MS_PER_DAY_def)

lemma to_iso_date_of_day [simp]: "to_iso_date (n * MS_PER_DAY) = iso_of_day n"
  by (simp add: to_iso_date_def MS_PER_DAY_def)

lemma js_round_div_exact: "0 < b \<Longrightarrow> js_round_div (k * b) b = k"
  by (simp add: js_round_div_def int_div_pos_eq [where q = k and r = b])

lemma days_between_eq: "days_between a b = day_of b - day_of a"
proof -
  have "parse_iso_date b - parse_iso_date a = (day_of b - day_of a) * MS_PER_DAY"
    by (simp add: parse_iso_date_def left_diff_distrib)
  moreover have "0 < MS_PER_DAY" by (simp add: MS_PER_DAY_def)
  ultimately show ?thesis
    by (simp only: days_between_def Let_def js_round_div_exact)
qed

lemma make_day_add: "make_day y m (d + n) = make_day y m d + n"
  by (simp add: make_day_def Let_def)

lemma add_days_eq: "valid_date dt \<Longrightarrow> add_days dt n = iso_of_day (day_of dt + n)"
  by (cases dt) (simp add: add_days_def make_day_add)

lemma valid_add_days [simp]: "valid_date dt \<Longrightarrow> valid_date (add_days dt n)"
  by (simp add: add_days_eq)

subsection \<open>Months\<close>

lemma make_day_norm:
  "make_day y m d = day_of (Iso (y + m div 12) (m mod 12 + 1) d)"
  by (simp add: make_day_def Let_def)

text \<open>Day 0 of the next month is the last day of this one.\<close>

lemma make_day_next_month_0:
  "make_day y (m + 1) 0 = make_day y m (days_in_month (leap (y + m div 12)) (m mod 12))"
proof -
  define q r where "q = m div 12" and "r = m mod 12"
  have m: "m = 12 * q + r" and r: "0 \<le> r" "r < 12"
    by (simp_all add: q_def r_def)
  show ?thesis
  proof (cases "r = 11")
    case True
    with m have m1: "m + 1 = 12 * (q + 1) + 0" by simp
    have "(m + 1) div 12 = q + 1" by (rule int_div_pos_eq [OF m1]) simp_all
    moreover have "(m + 1) mod 12 = 0" by (rule int_mod_pos_eq [OF m1]) simp_all
    ultimately have "(m + 1) div 12 = q + 1" and "(m + 1) mod 12 = 0" .
    with True show ?thesis
      unfolding make_day_def Let_def q_def [symmetric] r_def [symmetric]
      by (simp add: day_from_year_Suc [of "y + q", unfolded add.assoc] month_start_def days_in_month_def)
  next
    case False
    with r have "r + 1 < 12" by simp
    have m1: "m + 1 = 12 * q + (r + 1)" using m by simp
    have "(m + 1) div 12 = q" by (rule int_div_pos_eq [OF m1]) (use r \<open>r + 1 < 12\<close> in auto)
    moreover have "(m + 1) mod 12 = r + 1"
      by (rule int_mod_pos_eq [OF m1]) (use r \<open>r + 1 < 12\<close> in auto)
    ultimately show ?thesis
      unfolding make_day_def Let_def q_def [symmetric] r_def [symmetric]
      by (simp add: days_in_month_def)
  qed
qed

lemma mod_12_bounds: "0 \<le> m mod 12" "m mod 12 \<le> 11" for m :: int
  using pos_mod_bound [of 12 m] by simp_all

lemma valid_month_end:
  "valid_date (Iso (y + m div 12) (m mod 12 + 1) (days_in_month (leap (y + m div 12)) (m mod 12)))"
  using days_in_month_pos [OF mod_12_bounds, of "leap (y + m div 12)" m] mod_12_bounds [of m] by simp

lemma month_end_of:
  "\<not> (0 \<le> y \<and> y \<le> 99) \<Longrightarrow>
   to_iso_date (date_utc y (m + 1) 0) =
     Iso (y + m div 12) (m mod 12 + 1) (days_in_month (leap (y + m div 12)) (m mod 12))"
  unfolding date_utc_def
  by (simp only: if_False to_iso_date_of_day make_day_next_month_0)
    (simp only: make_day_norm iso_of_day_of [OF valid_month_end])

lemma add_months_eq:
  fixes n :: int
  assumes v: "valid_date (Iso y m d)" and y: "\<not> (0 \<le> y \<and> y \<le> 99)"
  defines "Y \<equiv> y + (m - 1 + n) div 12" and "M \<equiv> (m - 1 + n) mod 12"
  shows "add_months (Iso y m d) n = Iso Y (M + 1) (min d (days_in_month (leap Y) M))"
proof -
  have M: "0 \<le> M" "M \<le> 11" unfolding M_def by (rule mod_12_bounds)+
  have valid: "valid_date (Iso Y (M + 1) (min d (days_in_month (leap Y) M)))"
    using v M days_in_month_pos [OF M, of "leap Y"] by simp
  have last: "iday (to_iso_date (date_utc y (m - 1 + n + 1) 0)) = days_in_month (leap Y) M"
    unfolding month_end_of [OF y] Y_def M_def by simp
  have start: "to_iso_date (parse_iso_date (Iso y m d)) = Iso y m d"
    using v by (rule to_iso_date_parse)
  have utc: "to_iso_date (date_utc y (m - 1 + n) k) = iso_of_day (day_of (Iso Y (M + 1) k))" for k
    using y unfolding date_utc_def
    by (simp only: if_False to_iso_date_of_day make_day_norm Y_def M_def)
  show ?thesis
    unfolding add_months_def start iso_date.case Let_def last utc
    using valid by (rule iso_of_day_of)
qed

lemma last_day_of_eq:
  assumes "1 \<le> m" and "m \<le> 12" and "\<not> (0 \<le> y \<and> y \<le> 99)"
  shows "last_day_of (y, m) = Iso y m (days_in_month (leap y) (m - 1))"
  using month_end_of [OF assms(3), of "m - 1"] assms(1,2)
  by (simp add: last_day_of_def div_pos_pos_trivial mod_pos_pos_trivial)

section \<open>The string order\<close>

text \<open>JavaScript compares strings code unit by code unit; a proper prefix is smaller.\<close>

fun js_less :: "string \<Rightarrow> string \<Rightarrow> bool" where
  "js_less xs [] = False"
| "js_less [] (y # ys) = True"
| "js_less (x # xs) (y # ys) =
     ((of_char x :: nat) < of_char y \<or> x = y \<and> js_less xs ys)"

definition digit :: "int \<Rightarrow> char" where
  "digit n = char_of (nat (48 + n))"

fun pad :: "nat \<Rightarrow> int \<Rightarrow> string" where
  "pad 0 n = []"
| "pad (Suc k) n = pad k (n div 10) @ [digit (n mod 10)]"

fun iso_string :: "iso_date \<Rightarrow> string" where
  "iso_string (Iso y m d) = pad 4 y @ ''-'' @ pad 2 m @ ''-'' @ pad 2 d"

lemma of_char_digit: "0 \<le> n \<Longrightarrow> n < 10 \<Longrightarrow> (of_char (digit n) :: nat) = nat (48 + n)"
  by (simp add: digit_def)

lemma digit_eq_iff: "0 \<le> a \<Longrightarrow> a < 10 \<Longrightarrow> 0 \<le> b \<Longrightarrow> b < 10 \<Longrightarrow> digit a = digit b \<longleftrightarrow> a = b"
  by (metis of_char_digit add_left_cancel add_nonneg_nonneg eq_nat_nat_iff zero_le_numeral)

lemma digit_less_iff:
  "0 \<le> a \<Longrightarrow> a < 10 \<Longrightarrow> 0 \<le> b \<Longrightarrow> b < 10 \<Longrightarrow>
   (of_char (digit a) :: nat) < of_char (digit b) \<longleftrightarrow> a < b"
  by (simp add: of_char_digit)

lemma js_less_pad:
  "0 \<le> a \<Longrightarrow> a < 10 ^ k \<Longrightarrow> 0 \<le> b \<Longrightarrow> b < 10 ^ k \<Longrightarrow>
   js_less (pad k a @ xs) (pad k b @ ys) \<longleftrightarrow> a < b \<or> a = b \<and> js_less xs ys"
proof (induction k arbitrary: a b xs ys)
  case 0
  then show ?case by simp
next
  case (Suc k)
  have "js_less (pad (Suc k) a @ xs) (pad (Suc k) b @ ys) \<longleftrightarrow>
      a div 10 < b div 10 \<or> a div 10 = b div 10 \<and>
      js_less (digit (a mod 10) # xs) (digit (b mod 10) # ys)"
    using Suc.IH [of "a div 10" "b div 10"] Suc.prems by simp
  also have "\<dots> \<longleftrightarrow> a div 10 < b div 10 \<or> a div 10 = b div 10 \<and>
      (a mod 10 < b mod 10 \<or> a mod 10 = b mod 10 \<and> js_less xs ys)"
    by (simp add: digit_less_iff digit_eq_iff)
  also have "\<dots> \<longleftrightarrow> a < b \<or> a = b \<and> js_less xs ys"
  proof -
    define qa ra qb rb where "qa = a div 10" and "ra = a mod 10" and "qb = b div 10" and "rb = b mod 10"
    have "a = 10 * qa + ra" "0 \<le> ra" "ra < 10" "b = 10 * qb + rb" "0 \<le> rb" "rb < 10"
      by (simp_all add: qa_def ra_def qb_def rb_def)
    then have "a < b \<longleftrightarrow> qa < qb \<or> qa = qb \<and> ra < rb"
      by (cases qa qb rule: linorder_cases) simp_all
    moreover have "a = b \<longleftrightarrow> qa = qb \<and> ra = rb"
      unfolding qa_def ra_def qb_def rb_def by (metis mult_div_mod_eq)
    ultimately show ?thesis unfolding qa_def ra_def qb_def rb_def by blast
  qed
  finally show ?case .
qed

lemma js_less_iso_string:
  assumes "valid_date a" and "valid_date b"
    and "0 \<le> iyear a" "iyear a \<le> 9999" and "0 \<le> iyear b" "iyear b \<le> 9999"
  shows "js_less (iso_string a) (iso_string b) \<longleftrightarrow> a < b"
proof (cases a; cases b)
  fix y m d y' m' d'
  assume ab: "a = Iso y m d" "b = Iso y' m' d'"
  have "d < 100" "d' < 100"
    using assms(1,2) ab days_in_month_pos [of "m - 1" "leap y"] days_in_month_pos [of "m' - 1" "leap y'"]
    by simp_all
  with assms ab
  have "js_less (pad 2 d @ []) (pad 2 d' @ []) \<longleftrightarrow> d < d'"
    by (subst js_less_pad) auto
  with assms ab show ?thesis
    by (simp add: js_less_pad)
qed

section \<open>Working days and date ranges\<close>

text \<open>\<^verbatim>\<open>getUTCDay\<close> counts from Sunday, and 1 January 1970 was a Thursday.\<close>

definition utc_day :: "int \<Rightarrow> int" where
  "utc_day t = (t div MS_PER_DAY + 4) mod 7"

definition iso_weekday :: "iso_date \<Rightarrow> int" where
  "iso_weekday dt = (let d = utc_day (parse_iso_date dt) in if d = 0 then 7 else d)"

definition WORKING_WEEKDAYS :: "int list" where
  "WORKING_WEEKDAYS = [1, 2, 3, 4, 5]"

definition next_date :: "iso_date \<Rightarrow> iso_date" where
  "next_date dt = (let ms = parse_iso_date dt + 86400000 in to_iso_date ms)"

lemma next_date_eq: "next_date dt = iso_of_day (day_of dt + 1)"
proof -
  have "parse_iso_date dt + 86400000 = (day_of dt + 1) * MS_PER_DAY"
    by (simp add: parse_iso_date_def MS_PER_DAY_def)
  then show ?thesis by (simp add: next_date_def Let_def del: mult_minus1)
qed

lemma day_of_bound_of_le:
  assumes "valid_date d" and "d \<le> e"
  shows "day_of d < day_from_year (iyear e + 1)"
proof (cases d; cases e)
  fix y m k y' m' k'
  assume de: "d = Iso y m k" "e = Iso y' m' k'"
  then have "y \<le> y'" using assms(2) by auto
  then have "day_from_year (y + 1) \<le> day_from_year (y' + 1)"
    using day_from_year_strict_mono [of "y + 1" "y' + 1"] by (cases "y = y'") auto
  with day_of_bounds(2) [of y m k] assms(1) de show ?thesis by simp
qed

text \<open>The loop of \<^verbatim>\<open>datesInRange\<close>, and its guard against an inverted range.\<close>

function dates_from :: "iso_date \<Rightarrow> iso_date \<Rightarrow> iso_date list" where
  "dates_from d e = (if d \<le> e then d # dates_from (next_date d) e else [])"
  by pat_completeness auto
termination
  by (relation "measures [\<lambda>(d, e). if valid_date d then 0 else 1,
        \<lambda>(d, e). nat (day_from_year (iyear e + 1) - day_of d)]")
    (auto simp: next_date_eq dest: day_of_bound_of_le)

declare dates_from.simps [simp del]

definition dates_in_range :: "iso_date \<Rightarrow> iso_date \<Rightarrow> iso_date list" where
  "dates_in_range s e = (if e < s then [] else dates_from s e)"

definition working_dates_in_range :: "iso_date \<Rightarrow> iso_date \<Rightarrow> iso_date set \<Rightarrow> iso_date list" where
  "working_dates_in_range s e holidays =
     filter (\<lambda>date. iso_weekday date \<in> set WORKING_WEEKDAYS \<and> date \<notin> holidays) (dates_in_range s e)"

lemma dates_from_eq:
  "valid_date d \<Longrightarrow> valid_date e \<Longrightarrow> dates_from d e = map iso_of_day [day_of d .. day_of e]"
proof (induction d e rule: dates_from.induct)
  case (1 d e)
  show ?case
  proof (cases "d \<le> e")
    case True
    then have "[day_of d .. day_of e] = day_of d # [day_of d + 1 .. day_of e]"
      using 1 by (subst upto.simps) simp
    with True 1 show ?thesis
      by (subst dates_from.simps) (simp add: next_date_eq)
  next
    case False
    with 1 have "[day_of d .. day_of e] = []" by simp
    with False show ?thesis by (subst dates_from.simps) simp
  qed
qed

lemma dates_in_range_eq:
  "valid_date s \<Longrightarrow> valid_date e \<Longrightarrow> dates_in_range s e = map iso_of_day [day_of s .. day_of e]"
  by (auto simp: dates_in_range_def dates_from_eq)

lemma set_dates_in_range:
  assumes "valid_date s" and "valid_date e"
  shows "set (dates_in_range s e) = {d. valid_date d \<and> s \<le> d \<and> d \<le> e}"
proof -
  have "d \<in> iso_of_day ` {day_of s .. day_of e}" if "valid_date d" "s \<le> d" "d \<le> e" for d
    using that assms by (intro image_eqI [of _ _ "day_of d"]) auto
  moreover have "s \<le> iso_of_day n \<and> iso_of_day n \<le> e" if "day_of s \<le> n" "n \<le> day_of e" for n
    using that assms day_of_le_iff [of s "iso_of_day n"] day_of_le_iff [of "iso_of_day n" e] by simp
  ultimately show ?thesis
    using assms by (auto simp: dates_in_range_eq)
qed

lemma sorted_dates_in_range:
  "valid_date s \<Longrightarrow> valid_date e \<Longrightarrow> sorted_wrt (<) (dates_in_range s e)"
  by (simp add: dates_in_range_eq sorted_wrt_map sorted_wrt_upto)

lemma set_working_dates_in_range:
  "valid_date s \<Longrightarrow> valid_date e \<Longrightarrow>
   set (working_dates_in_range s e hs) =
     {d. valid_date d \<and> s \<le> d \<and> d \<le> e \<and> 1 \<le> iso_weekday d \<and> iso_weekday d \<le> 5 \<and> d \<notin> hs}"
  by (auto simp: working_dates_in_range_def set_dates_in_range WORKING_WEEKDAYS_def)

lemma distinct_working_dates_in_range:
  "valid_date s \<Longrightarrow> valid_date e \<Longrightarrow> distinct (working_dates_in_range s e hs)"
  using sorted_dates_in_range [of s e]
  by (simp add: working_dates_in_range_def strict_sorted_iff)

end
