(* ===== verification/Leave.thy ===== *)
theory Leave
  imports Calendar Complex_Main
begin

text \<open>
  The leave rules of \<^verbatim>\<open>libs/modules/workforce/src/domain\<close>: what a leave window means and costs
  (\<^verbatim>\<open>leave-window.ts\<close>), how entitlement accrues and carries over (\<^verbatim>\<open>leave-accrual.ts\<close>), and the
  leave marks of the office calendar (\<^verbatim>\<open>wio-pto.ts\<close>).

  Days are exact rationals rounded to hundredths where the code rounds. The code computes in
  binary floating point and says itself that a value exactly on half a hundredth may round either
  way there; the model rounds it up.
\<close>

datatype leave_day_portion = Full_day | Morning | Afternoon

datatype leave_accrual_method = Annual_grant | Monthly_accrual

datatype day_half = Am | Pm

section \<open>Leave windows\<close>

record leave_window =
  startDate :: iso_date
  endDate :: iso_date
  startPortion :: leave_day_portion
  endPortion :: leave_day_portion

definition HALF_DAY :: rat where "HALF_DAY = 1 / 2"

definition whole_days :: "iso_date \<Rightarrow> iso_date \<Rightarrow> leave_window" where
  "whole_days s e =
     \<lparr>startDate = s, endDate = e, startPortion = Full_day, endPortion = Full_day\<rparr>"

text \<open>The four refusals, by the rule each message states.\<close>

datatype window_violation =
    StartAfterEnd | SingleDayTwoPortions | StartsWithMorning | EndsWithAfternoon

definition leave_window_violation :: "leave_window \<Rightarrow> window_violation option" where
  "leave_window_violation w =
     (if endDate w < startDate w then Some StartAfterEnd
      else if startDate w = endDate w then
        (if startPortion w \<noteq> endPortion w then Some SingleDayTwoPortions else None)
      else if startPortion w = Morning then Some StartsWithMorning
      else if endPortion w = Afternoon then Some EndsWithAfternoon
      else None)"

definition halves_on :: "leave_window \<Rightarrow> iso_date \<Rightarrow> day_half list" where
  "halves_on w date =
     (if date < startDate w \<or> endDate w < date then []
      else
        let portion = (if date = startDate w then startPortion w
                       else if date = endDate w then endPortion w else Full_day)
        in if portion = Morning then [Am] else if portion = Afternoon then [Pm] else [Am, Pm])"

definition leave_window_cost :: "leave_window \<Rightarrow> iso_date set \<Rightarrow> rat" where
  "leave_window_cost w holidays =
     (let halves = foldl (\<lambda>n date. n + length (halves_on w date)) 0
                     (working_dates_in_range (startDate w) (endDate w) holidays)
      in of_nat halves * HALF_DAY)"

definition leave_windows_overlap :: "leave_window \<Rightarrow> leave_window \<Rightarrow> bool" where
  "leave_windows_overlap a b =
     (let d_from = (if startDate a > startDate b then startDate a else startDate b);
          d_to = (if endDate a < endDate b then endDate a else endDate b)
      in list_ex (\<lambda>date. filter (\<lambda>h. h \<in> set (halves_on b date)) (halves_on a date) \<noteq> [])
           (dates_in_range d_from d_to))"

definition valid_window :: "leave_window \<Rightarrow> bool" where
  "valid_window w \<longleftrightarrow> valid_date (startDate w) \<and> valid_date (endDate w)"

subsection \<open>What a window costs\<close>

lemma foldl_count: "foldl (\<lambda>n x. n + f x) (k::nat) xs = k + sum_list (map f xs)"
  by (induction xs arbitrary: k) auto

lemma length_halves_on_le: "length (halves_on w d) \<le> 2"
  by (simp add: halves_on_def Let_def)

lemma leave_window_cost_eq:
  "leave_window_cost w hs =
     of_nat (\<Sum>d\<leftarrow>working_dates_in_range (startDate w) (endDate w) hs. length (halves_on w d)) / 2"
  by (simp add: leave_window_cost_def Let_def foldl_count HALF_DAY_def)

lemma leave_window_cost_nonneg: "0 \<le> leave_window_cost w hs"
  by (simp add: leave_window_cost_eq)

lemma leave_window_cost_le_days:
  "leave_window_cost w hs \<le> of_nat (length (working_dates_in_range (startDate w) (endDate w) hs))"
proof -
  define ds where "ds = working_dates_in_range (startDate w) (endDate w) hs"
  have "(\<Sum>d\<leftarrow>ds. length (halves_on w d)) \<le> (\<Sum>d\<leftarrow>ds. 2)"
    by (rule sum_list_mono) (rule length_halves_on_le)
  also have "\<dots> = 2 * length ds"
    by (induction ds) simp_all
  finally have "(\<Sum>d\<leftarrow>ds. length (halves_on w d)) \<le> 2 * length ds" .
  then have "(of_nat (\<Sum>d\<leftarrow>ds. length (halves_on w d)) :: rat) \<le> of_nat (2 * length ds)"
    by (rule of_nat_mono)
  then show ?thesis
    unfolding leave_window_cost_eq ds_def [symmetric] by simp
qed

text \<open>
  The rule stated the other way round: whole working days, less half a day for a part-day end that
  falls on a working day. Counting halves agrees with it on every legal window of several days.
\<close>

definition subtracted_cost :: "leave_window \<Rightarrow> iso_date set \<Rightarrow> rat" where
  "subtracted_cost w hs =
     (let ds = working_dates_in_range (startDate w) (endDate w) hs
      in of_nat (length ds)
         - (if startPortion w \<noteq> Full_day \<and> startDate w \<in> set ds then HALF_DAY else 0)
         - (if endPortion w \<noteq> Full_day \<and> endDate w \<in> set ds then HALF_DAY else 0))"

lemma length_halves_on_legal:
  assumes "startDate w < endDate w" and "startDate w \<le> d" and "d \<le> endDate w"
  shows "int (length (halves_on w d)) =
     2 - (if d = startDate w \<and> startPortion w \<noteq> Full_day then 1 else 0)
       - (if d = endDate w \<and> endPortion w \<noteq> Full_day then 1 else 0)"
  using assms
  by (cases "startPortion w"; cases "endPortion w") (auto simp: halves_on_def Let_def)

lemma sum_list_indicator:
  "distinct ds \<Longrightarrow> (\<Sum>d\<leftarrow>ds. if d = a \<and> P then 1 else 0 :: int) = (if P \<and> a \<in> set ds then 1 else 0)"
  by (induction ds) auto

lemma int_sum_list: "int (\<Sum>x\<leftarrow>xs. f x) = (\<Sum>x\<leftarrow>xs. int (f x))"
  by (induction xs) simp_all

lemma counting_halves_agrees:
  assumes v: "valid_window w" and lt: "startDate w < endDate w"
  shows "leave_window_cost w hs = subtracted_cost w hs"
proof -
  define ds where "ds = working_dates_in_range (startDate w) (endDate w) hs"
  have dist: "distinct ds" and range: "\<forall>d \<in> set ds. startDate w \<le> d \<and> d \<le> endDate w"
    using v by (auto simp: ds_def valid_window_def distinct_working_dates_in_range
        set_working_dates_in_range)
  let ?s = "\<lambda>d. if d = startDate w \<and> startPortion w \<noteq> Full_day then 1 else 0 :: int"
  let ?e = "\<lambda>d. if d = endDate w \<and> endPortion w \<noteq> Full_day then 1 else 0 :: int"
  have "int (\<Sum>d\<leftarrow>ds. length (halves_on w d)) = (\<Sum>d\<leftarrow>ds. 2 - ?s d - ?e d)"
    using range length_halves_on_legal [OF lt]
    unfolding int_sum_list by (intro arg_cong [where f = sum_list] map_cong) auto
  also have "\<dots> = 2 * int (length ds) - (\<Sum>d\<leftarrow>ds. ?s d) - (\<Sum>d\<leftarrow>ds. ?e d)"
    by (simp add: sum_list_subtractf sum_list_triv)
  also have "\<dots> = 2 * int (length ds)
      - (if startPortion w \<noteq> Full_day \<and> startDate w \<in> set ds then 1 else 0)
      - (if endPortion w \<noteq> Full_day \<and> endDate w \<in> set ds then 1 else 0)"
    using dist by (simp add: sum_list_indicator)
  finally have eq: "int (\<Sum>d\<leftarrow>ds. length (halves_on w d)) = \<dots>" .
  have "leave_window_cost w hs = of_int (int (\<Sum>d\<leftarrow>ds. length (halves_on w d))) / 2"
    unfolding leave_window_cost_eq ds_def by simp
  then show ?thesis
    unfolding eq subtracted_cost_def Let_def ds_def [symmetric] HALF_DAY_def
    by (auto simp: field_simps)
qed

subsection \<open>Overlap\<close>

lemma halves_on_outside: "d < startDate w \<or> endDate w < d \<Longrightarrow> halves_on w d = []"
  by (simp add: halves_on_def)

lemma halves_on_Nil_iff: "halves_on w d = [] \<longleftrightarrow> d < startDate w \<or> endDate w < d"
  by (auto simp: halves_on_def Let_def)

lemma leave_windows_overlap_iff:
  assumes "valid_window a" and "valid_window b"
  shows "leave_windows_overlap a b \<longleftrightarrow>
     (\<exists>d h. valid_date d \<and> h \<in> set (halves_on a d) \<and> h \<in> set (halves_on b d))"
proof -
  define f t where "f = max (startDate a) (startDate b)" and "t = min (endDate a) (endDate b)"
  have valid: "valid_date f" "valid_date t"
    using assms by (simp_all add: f_def t_def valid_window_def max_def min_def)
  have "leave_windows_overlap a b \<longleftrightarrow>
      (\<exists>d \<in> set (dates_in_range f t). \<exists>h. h \<in> set (halves_on a d) \<and> h \<in> set (halves_on b d))"
    by (auto simp: leave_windows_overlap_def list_ex_iff filter_empty_conv f_def t_def Let_def
        max_def min_def not_less)
  also have "\<dots> \<longleftrightarrow> (\<exists>d h. valid_date d \<and> h \<in> set (halves_on a d) \<and> h \<in> set (halves_on b d))"
  proof -
    have "d \<in> set (dates_in_range f t)"
      if "valid_date d" "h \<in> set (halves_on a d)" "h \<in> set (halves_on b d)" for d h
    proof -
      have "halves_on a d \<noteq> []" and "halves_on b d \<noteq> []" using that by auto
      with that(1) valid show ?thesis
        by (simp add: halves_on_Nil_iff set_dates_in_range f_def t_def not_less)
    qed
    then show ?thesis
      using valid by (fastforce simp: set_dates_in_range)
  qed
  finally show ?thesis .
qed

section \<open>Accrual and carry-over\<close>

text \<open>\<^verbatim>\<open>Math.round\<close>: the floor of the number plus a half.\<close>

definition js_round :: "rat \<Rightarrow> int" where
  "js_round x = \<lfloor>x + 1 / 2\<rfloor>"

definition round_days :: "rat \<Rightarrow> rat" where
  "round_days days = of_int (js_round (days * 100)) / 100"

definition accrued_days :: "rat \<Rightarrow> leave_accrual_method \<Rightarrow> int \<Rightarrow> iso_date \<Rightarrow> rat" where
  "accrued_days granted method year as_of =
     (let as_of_year = iyear as_of in
      if as_of_year > year then round_days granted
      else if as_of_year < year then 0
      else if method = Annual_grant then round_days granted
      else let month = imonth as_of in round_days (granted * of_int month / 12))"

definition carried_over_still_available :: "iso_date option \<Rightarrow> iso_date \<Rightarrow> bool" where
  "carried_over_still_available expires_on as_of =
     (case expires_on of None \<Rightarrow> True | Some e \<Rightarrow> as_of \<le> e)"

definition carry_over_expiry_date :: "int \<Rightarrow> int option \<Rightarrow> iso_date option" where
  "carry_over_expiry_date year expiry_months =
     (case expiry_months of None \<Rightarrow> None
      | Some n \<Rightarrow> let last_day = date_utc year n 0 in Some (to_iso_date last_day))"

definition carry_over_amount :: "rat \<Rightarrow> rat \<Rightarrow> rat" where
  "carry_over_amount remaining max_days =
     (if remaining \<le> 0 then 0 else round_days (min remaining max_days))"

text \<open>Amounts with at most two decimals, the range of a \<^verbatim>\<open>numeric(5,2)\<close> column.\<close>

definition two_decimals :: "rat \<Rightarrow> bool" where
  "two_decimals x \<longleftrightarrow> of_int \<lfloor>x * 100\<rfloor> = x * 100"

lemma js_round_mono: "x \<le> y \<Longrightarrow> js_round x \<le> js_round y"
  by (simp add: js_round_def floor_mono)

lemma js_round_of_int [simp]: "js_round (of_int n) = n"
  by (simp add: js_round_def floor_unique)

lemma round_days_mono: "x \<le> y \<Longrightarrow> round_days x \<le> round_days y"
  by (simp add: round_days_def js_round_mono divide_right_mono)

lemma round_days_0 [simp]: "round_days 0 = 0"
  using js_round_of_int [of 0] by (simp add: round_days_def)

lemma round_days_two_decimals [simp]: "two_decimals (round_days x)"
  by (simp add: two_decimals_def round_days_def)

lemma round_days_id: "two_decimals x \<Longrightarrow> round_days x = x"
  unfolding two_decimals_def round_days_def by (metis js_round_of_int nonzero_mult_div_cancel_right
      zero_neq_numeral)

lemma round_days_error: "\<bar>round_days x - x\<bar> \<le> 1 / 200"
proof -
  have "of_int (js_round (x * 100)) \<le> x * 100 + 1 / 2"
    and "x * 100 + 1 / 2 < of_int (js_round (x * 100)) + 1"
    using floor_correct [of "x * 100 + 1 / 2"] by (simp_all add: js_round_def)
  then show ?thesis
    unfolding round_days_def abs_le_iff by (simp add: field_simps)
qed

lemma accrued_days_mono:
  assumes "0 \<le> granted" and "a \<le> b" and "valid_date a" and "valid_date b"
  shows "accrued_days granted m year a \<le> accrued_days granted m year b"
proof (cases a; cases b)
  fix ya ma da yb mb db
  assume ab: "a = Iso ya ma da" "b = Iso yb mb db"
  have nonneg: "0 \<le> round_days granted"
    using round_days_mono [OF assms(1)] by simp
  have part: "round_days (granted * of_int k / 12) \<le> round_days granted" if "k \<le> 12" for k
    using that assms(1) by (intro round_days_mono) (simp add: mult_left_mono)
  have part0: "0 \<le> round_days (granted * of_int k / 12)" if "0 \<le> k" for k
    using that assms(1) round_days_mono [of 0 "granted * of_int k / 12"] by simp
  have months: "round_days (granted * of_int ma / 12) \<le> round_days (granted * of_int mb / 12)"
    if "ma \<le> mb"
    using that assms(1) by (intro round_days_mono) (simp add: mult_left_mono divide_right_mono)
  show ?thesis
    using ab assms nonneg part part0 months by (auto simp: accrued_days_def Let_def)
qed

lemma accrued_days_year_end:
  "accrued_days granted m year (Iso year 12 d) = round_days granted"
  by (simp add: accrued_days_def)

lemma carry_over_amount_bounds:
  assumes "0 \<le> max_days" and "two_decimals max_days"
  shows "0 \<le> carry_over_amount r max_days \<and> carry_over_amount r max_days \<le> max_days"
proof (cases "r \<le> 0")
  case True
  with assms show ?thesis by (simp add: carry_over_amount_def)
next
  case False
  have "round_days 0 \<le> round_days (min r max_days)"
    using False assms(1) by (intro round_days_mono) simp
  moreover have "round_days (min r max_days) \<le> round_days max_days"
    by (intro round_days_mono) simp
  ultimately show ?thesis
    using False assms(2) by (simp add: carry_over_amount_def round_days_id)
qed

section \<open>Leave marks of the office calendar\<close>

record pto_window =
  pto_employeeId :: string
  pto_startDate :: iso_date
  pto_endDate :: iso_date
  pto_startPortion :: leave_day_portion
  pto_endPortion :: leave_day_portion

record pto_mark =
  mark_employeeId :: string
  mark_date :: iso_date
  mark_portion :: leave_day_portion

definition portion_on :: "pto_window \<Rightarrow> iso_date \<Rightarrow> leave_day_portion option" where
  "portion_on w date =
     (if date < pto_startDate w \<or> pto_endDate w < date then None
      else if date = pto_startDate w then Some (pto_startPortion w)
      else if date = pto_endDate w then Some (pto_endPortion w)
      else Some Full_day)"

text \<open>
  The JavaScript \<^verbatim>\<open>Map\<close> of marks, keyed by employee and date: \<^verbatim>\<open>set\<close> on a present key keeps its
  position, on a new key appends.
\<close>

definition mark_key :: "pto_mark \<Rightarrow> string \<times> iso_date" where
  "mark_key m = (mark_employeeId m, mark_date m)"

definition marks_set :: "pto_mark \<Rightarrow> pto_mark list \<Rightarrow> pto_mark list" where
  "marks_set m marks =
     (case find_row mark_key (mark_key m) marks of
        None \<Rightarrow> marks @ [m]
      | Some _ \<Rightarrow> modify_row mark_key (mark_key m) (\<lambda>_. m) marks)"

definition mark_step :: "pto_window \<Rightarrow> pto_mark list \<Rightarrow> iso_date \<Rightarrow> pto_mark list" where
  "mark_step w marks date =
     (if iso_weekday date \<notin> set WORKING_WEEKDAYS then marks
      else case portion_on w date of
        None \<Rightarrow> marks
      | Some portion \<Rightarrow>
          let m = \<lparr>mark_employeeId = pto_employeeId w, mark_date = date, mark_portion = portion\<rparr>
          in if find_row mark_key (mark_key m) marks = None \<or> portion = Full_day
             then marks_set m marks else marks)"

definition window_marks :: "iso_date \<Rightarrow> iso_date \<Rightarrow> pto_mark list \<Rightarrow> pto_window \<Rightarrow> pto_mark list" where
  "window_marks d_from d_to marks w =
     (let s = (if pto_startDate w > d_from then pto_startDate w else d_from);
          e = (if pto_endDate w < d_to then pto_endDate w else d_to)
      in if e < s then marks else foldl (mark_step w) marks (dates_in_range s e))"

definition pto_marks_in_range :: "pto_window list \<Rightarrow> iso_date \<Rightarrow> iso_date \<Rightarrow> pto_mark list" where
  "pto_marks_in_range windows d_from d_to = foldl (window_marks d_from d_to) [] windows"

interpretation marks: keyed_table mark_key "find_row mark_key" "modify_row mark_key"
    "keys_distinct mark_key"
  by (rule keyed_list_table)

lemma keys_distinct_marks_set:
  "keys_distinct mark_key marks \<Longrightarrow> keys_distinct mark_key (marks_set m marks)"
proof (cases "find_row mark_key (mark_key m) marks")
  case None
  then show "keys_distinct mark_key marks \<Longrightarrow> ?thesis"
    by (simp add: marks_set_def marks.wf_insert)
next
  case (Some m')
  have "map mark_key (modify_row mark_key (mark_key m) (\<lambda>_. m) marks) = map mark_key marks"
    by (simp add: modify_row_def update_where_def)
  with Some show "keys_distinct mark_key marks \<Longrightarrow> ?thesis"
    by (simp add: marks_set_def keys_distinct_def)
qed

text \<open>What every mark of a finished run satisfies.\<close>

definition mark_ok :: "pto_window list \<Rightarrow> iso_date \<Rightarrow> iso_date \<Rightarrow> pto_mark \<Rightarrow> bool" where
  "mark_ok ws d_from d_to m \<longleftrightarrow>
     iso_weekday (mark_date m) \<in> set WORKING_WEEKDAYS \<and>
     d_from \<le> mark_date m \<and> mark_date m \<le> d_to \<and>
     (\<exists>w \<in> set ws. pto_employeeId w = mark_employeeId m \<and>
        portion_on w (mark_date m) = Some (mark_portion m))"

lemma marks_set_subset: "set (marks_set m marks) \<subseteq> insert m (set marks)"
  by (auto simp: marks_set_def modify_row_def set_update_where split: option.splits)

lemma mark_step_subset:
  assumes "m \<in> set (mark_step w marks d)"
  shows "m \<in> set marks \<or>
    iso_weekday d \<in> set WORKING_WEEKDAYS \<and> mark_date m = d \<and>
    mark_employeeId m = pto_employeeId w \<and> portion_on w d = Some (mark_portion m)"
proof (cases "iso_weekday d \<in> set WORKING_WEEKDAYS")
  case False
  with assms show ?thesis by (simp add: mark_step_def)
next
  case True
  show ?thesis
  proof (cases "portion_on w d")
    case None
    with True assms show ?thesis by (simp add: mark_step_def)
  next
    case (Some p)
    let ?n = "\<lparr>mark_employeeId = pto_employeeId w, mark_date = d, mark_portion = p\<rparr>"
    have "m \<in> set marks \<or> m = ?n"
      using True Some assms marks_set_subset [of ?n marks]
      by (auto simp: mark_step_def Let_def split: if_splits)
    with True Some show ?thesis by auto
  qed
qed

lemma mark_step_ok:
  assumes "\<forall>m \<in> set marks. mark_ok ws f t m" and "w \<in> set ws" and "f \<le> d" and "d \<le> t"
  shows "\<forall>m \<in> set (mark_step w marks d). mark_ok ws f t m"
proof
  fix m
  assume "m \<in> set (mark_step w marks d)"
  from mark_step_subset [OF this] show "mark_ok ws f t m"
  proof
    assume "m \<in> set marks"
    with assms(1) show ?thesis by blast
  next
    assume "iso_weekday d \<in> set WORKING_WEEKDAYS \<and> mark_date m = d \<and>
      mark_employeeId m = pto_employeeId w \<and> portion_on w d = Some (mark_portion m)"
    with assms(2-4) show ?thesis unfolding mark_ok_def by auto
  qed
qed

lemma foldl_invariant:
  assumes "I a" and "\<And>a x. I a \<Longrightarrow> x \<in> set xs \<Longrightarrow> I (f a x)"
  shows "I (foldl f a xs)"
  using assms by (induction xs arbitrary: a) auto

lemma window_marks_ok:
  assumes "\<forall>m \<in> set marks. mark_ok ws f t m" and "w \<in> set ws"
    and "valid_date f" "valid_date t" "valid_date (pto_startDate w)" "valid_date (pto_endDate w)"
  shows "\<forall>m \<in> set (window_marks f t marks w). mark_ok ws f t m"
proof -
  define s e where "s = (if pto_startDate w > f then pto_startDate w else f)"
    and "e = (if pto_endDate w < t then pto_endDate w else t)"
  have valid: "valid_date s" "valid_date e" and le: "f \<le> s" "e \<le> t"
    using assms(3-6) by (auto simp: s_def e_def)
  have "\<forall>m \<in> set (foldl (mark_step w) marks (dates_in_range s e)). mark_ok ws f t m"
  proof (rule foldl_invariant [where I = "\<lambda>ms. \<forall>m \<in> set ms. mark_ok ws f t m"])
    show "\<forall>m \<in> set marks. mark_ok ws f t m" by fact
  next
    fix ms d
    assume ms: "\<forall>m \<in> set ms. mark_ok ws f t m" and "d \<in> set (dates_in_range s e)"
    then have "f \<le> d" "d \<le> t" using valid le by (auto simp: set_dates_in_range)
    with ms assms(2) show "\<forall>m \<in> set (mark_step w ms d). mark_ok ws f t m"
      by (rule mark_step_ok)
  qed
  with assms(1) show ?thesis
    unfolding window_marks_def s_def e_def Let_def by simp
qed

lemma keys_distinct_mark_step:
  "keys_distinct mark_key marks \<Longrightarrow> keys_distinct mark_key (mark_step w marks d)"
  by (auto simp: mark_step_def Let_def keys_distinct_marks_set split: option.splits)

lemma keys_distinct_pto_marks: "keys_distinct mark_key (pto_marks_in_range ws f t)"
  unfolding pto_marks_in_range_def
proof (rule foldl_invariant)
  show "keys_distinct mark_key []" by (simp add: keys_distinct_def)
next
  fix marks w
  assume "keys_distinct mark_key marks"
  then show "keys_distinct mark_key (window_marks f t marks w)"
    unfolding window_marks_def Let_def
    by (auto intro!: foldl_invariant [where I = "keys_distinct mark_key"] keys_distinct_mark_step)
qed

lemma pto_marks_ok:
  assumes "valid_date f" "valid_date t"
    and ws: "\<forall>w \<in> set ws. valid_date (pto_startDate w) \<and> valid_date (pto_endDate w)"
  shows "\<forall>m \<in> set (pto_marks_in_range ws f t). mark_ok ws f t m"
  unfolding pto_marks_in_range_def
proof (rule foldl_invariant [where I = "\<lambda>ms. \<forall>m \<in> set ms. mark_ok ws f t m"])
  show "\<forall>m \<in> set []. mark_ok ws f t m" by simp
next
  fix ms w
  assume ms: "\<forall>m \<in> set ms. mark_ok ws f t m" and w: "w \<in> set ws"
  from w ws have "valid_date (pto_startDate w)" "valid_date (pto_endDate w)" by auto
  with ms w assms(1,2) show "\<forall>m \<in> set (window_marks f t ms w). mark_ok ws f t m"
    by (intro window_marks_ok)
qed

end
