(* ===== verification/Requests.thy ===== *)
theory Requests
  imports Authz Leave "HOL-Library.Product_Lexorder" "HOL-Library.List_Lexorder" "HOL-Library.Char_ord"
begin

text \<open>
  The request engine, \<^verbatim>\<open>libs/platform/src/requests/request-engine.service.ts\<close>, with the registry
  of request types (\<^verbatim>\<open>request-registry.ts\<close>), the strategy interface and rows of
  \<^verbatim>\<open>request-engine.types.ts\<close>, and the two crons that drive it
  (\<^verbatim>\<open>apps/worker/src/cron/request-expiry.cron.ts\<close>, \<^verbatim>\<open>sla-breach.cron.ts\<close>).

  The engine is generic in the payload (\<open>'p\<close>) and in the domain tables its hooks write (\<open>'d\<close>), as
  the TypeScript is. A hook runs inside the engine's transaction: it returns the new domain
  tables or an error, and an error anywhere gives back no state at all, which is the rollback.

  Every transition reads the request and checks it before the transaction opens; the transaction
  itself does not look at the status again. The model keeps the two halves apart
  (\<open>approve_check\<close> / \<open>approve_commit\<close> and so on) and composes them as the methods do, so the
  interleavings of two callers can be stated.

  The row a transition returns is the one the new state holds under the request's id, so the
  transitions return the state alone (\<open>submit\<close> also returns its row, whose id is new).

  Logging and the post-transaction \<^verbatim>\<open>afterApprove\<close> hook, which calls outside services and whose
  failure is swallowed, change no table here and are left out.
\<close>

section \<open>Rows\<close>

datatype request_status = Pending | In_review | Approved | Rejected | Cancelled | Expired

datatype request_priority = Low | Normal | High | Urgent

fun priority_text :: "request_priority \<Rightarrow> string" where
  "priority_text Low = ''low''"
| "priority_text Normal = ''normal''"
| "priority_text High = ''high''"
| "priority_text Urgent = ''urgent''"

datatype decision = Decision_approved | Decision_rejected | Decision_delegated

datatype employee_status = Employee_active | Employee_on_leave | Employee_offboarded

record actor =
  ac_sub :: string
  ac_email :: string

record 'p request_item =
  ri_id :: string
  ri_type :: string
  ri_requesterId :: string
  ri_assigneeId :: "string option"
  ri_status :: request_status
  ri_priority :: request_priority
  ri_payload :: 'p
  ri_resolutionNote :: "string option"
  ri_submittedAt :: int
  ri_resolvedAt :: "int option"
  ri_expiresAt :: "int option"
  ri_slaHours :: "int option"
  ri_slaDeadline :: "int option"
  ri_slaBreachedAt :: "int option"
  ri_currentStep :: int
  ri_totalSteps :: int
  ri_createdAt :: int
  ri_updatedAt :: int

record request_approval =
  ap_id :: string
  ap_requestId :: string
  ap_step :: int
  ap_approverId :: string
  ap_decision :: decision
  ap_note :: "string option"
  ap_delegatedFromId :: "string option"
  ap_decidedAt :: int

record request_comment =
  cm_id :: string
  cm_requestId :: string
  cm_authorId :: string
  cm_body :: string
  cm_createdAt :: int

definition is_open :: "request_status \<Rightarrow> bool" where
  "is_open s \<longleftrightarrow> s = Pending \<or> s = In_review"

lemma is_open_simps [simp]:
  "is_open Pending" "is_open In_review" "\<not> is_open Approved" "\<not> is_open Rejected"
  "\<not> is_open Cancelled" "\<not> is_open Expired"
  by (simp_all add: is_open_def)

section \<open>Request types and their registry\<close>

record ('p, 'd) approval_step =
  sp_step :: int
  sp_requiredPermission :: string
  sp_resolverFn :: "('p \<Rightarrow> 'd \<Rightarrow> string option result) option"

text \<open>
  The hooks take the payload, the request id, the person acting, the instant, and the domain
  tables. \<^verbatim>\<open>onStepApproved\<close> also gets the completed step, the next step and its assignee.
\<close>

type_synonym ('p, 'd) decision_hook = "'p \<Rightarrow> string \<Rightarrow> string \<Rightarrow> int \<Rightarrow> 'd \<Rightarrow> 'd result"

record ('p, 'd) type_def =
  td_type :: string
  td_requiredApprovalPermission :: string
  td_allowSelfApproval :: bool
  td_defaultExpiryHours :: "int option"
  td_slaHours :: "int option"
  td_approvalSteps :: "('p, 'd) approval_step list option"
  td_onSubmit :: "('p \<Rightarrow> string \<Rightarrow> int \<Rightarrow> 'd \<Rightarrow> 'd result) option"
  td_onApprove :: "('p, 'd) decision_hook"
  td_onStepApproved ::
    "('p \<Rightarrow> string \<Rightarrow> int \<Rightarrow> int \<Rightarrow> string option \<Rightarrow> string \<Rightarrow> int \<Rightarrow> 'd \<Rightarrow> 'd result) option"
  td_onReject :: "('p, 'd) decision_hook option"
  td_onCancel :: "('p, 'd) decision_hook option"
  td_onExpire :: "('p \<Rightarrow> string \<Rightarrow> int \<Rightarrow> 'd \<Rightarrow> 'd result) option"

type_synonym ('p, 'd) registry = "('p, 'd) type_def list"

definition registry_has :: "('p, 'd) registry \<Rightarrow> string \<Rightarrow> bool" where
  "registry_has reg t \<longleftrightarrow> find_row td_type t reg \<noteq> None"

definition register :: "('p, 'd) type_def \<Rightarrow> ('p, 'd) registry \<Rightarrow> ('p, 'd) registry" where
  "register def reg = (if registry_has reg (td_type def) then reg else reg @ [def])"

definition registry_get :: "('p, 'd) registry \<Rightarrow> string \<Rightarrow> ('p, 'd) type_def result" where
  "registry_get reg t =
     (case find_row td_type t reg of
        None \<Rightarrow> Inl (ThrownError ''No RequestTypeDef registered'')
      | Some def \<Rightarrow> Inr def)"

lemma registry_get_Inr:
  "registry_get reg t = Inr def \<Longrightarrow> find_row td_type t reg = Some def \<and> td_type def = t"
  by (auto simp: registry_get_def dest: find_row_Some split: option.splits)

section \<open>State and environment\<close>

record ('p, 'd) engine_db =
  items :: "'p request_item list"
  approvals :: "request_approval list"
  comments :: "request_comment list"
  outbox :: "notification_row list"
  subscriptions :: "webhook_subscription list"
  deliveries :: "webhook_delivery list"
  domain_db :: 'd

text \<open>
  What the engine asks of the other services at the moment of a call: the clock, the permission
  check, the global holders of a permission, the active delegation to a person, an employee's
  status (\<open>None\<close> when there is no such row).
\<close>

record request_env =
  ev_now :: int
  ev_check :: "string \<Rightarrow> string \<Rightarrow> bool"
  ev_holders :: "string \<Rightarrow> string list"
  ev_delegation :: "string \<Rightarrow> delegation option"
  ev_employee :: "string \<Rightarrow> employee_status option"

text \<open>The environment the platform's own services provide.\<close>

definition platform_env ::
    "authz_db \<Rightarrow> delegation list \<Rightarrow> (string \<Rightarrow> employee_status option) \<Rightarrow> int \<Rightarrow> request_env" where
  "platform_env adb ds emps now =
     \<lparr>ev_now = now,
      ev_check = (\<lambda>u p. authz_check None True adb now u p None None),
      ev_holders = global_holders_of True adb now,
      ev_delegation = (\<lambda>u. find_active_delegation_to now u ds),
      ev_employee = emps\<rparr>"

definition ASSIGNEE_FALLBACK_PERMISSION :: string where
  "ASSIGNEE_FALLBACK_PERMISSION = ''workforce.manage''"

section \<open>Reading the step chain\<close>

definition step_def :: "('p, 'd) type_def \<Rightarrow> int \<Rightarrow> ('p, 'd) approval_step option" where
  "step_def def n =
     (case td_approvalSteps def of None \<Rightarrow> None | Some steps \<Rightarrow> find (\<lambda>s. sp_step s = n) steps)"

definition step_permission :: "('p, 'd) type_def \<Rightarrow> int \<Rightarrow> string" where
  "step_permission def n =
     (case step_def def n of
        None \<Rightarrow> td_requiredApprovalPermission def
      | Some s \<Rightarrow> sp_requiredPermission s)"

text \<open>
  \<^verbatim>\<open>Math.max(...steps.map(..))\<close>: \<open>None\<close> stands for minus infinity, the maximum of no numbers.
\<close>

definition max_step :: "('p, 'd) type_def \<Rightarrow> int option" where
  "max_step def =
     (case td_approvalSteps def of
        None \<Rightarrow> Some 1
      | Some [] \<Rightarrow> None
      | Some (s # ss) \<Rightarrow> Some (foldl max (sp_step s) (map sp_step ss)))"

definition is_final_step :: "('p, 'd) type_def \<Rightarrow> int \<Rightarrow> bool" where
  "is_final_step def n \<longleftrightarrow>
     td_approvalSteps def = None \<or> (case max_step def of None \<Rightarrow> True | Some m \<Rightarrow> n \<ge> m)"

section \<open>Who is told\<close>

definition notify_administrators ::
    "request_env \<Rightarrow> string \<Rightarrow> string \<Rightarrow> string \<Rightarrow> (string \<Rightarrow> idempotency_key) \<Rightarrow>
     notification_row list \<Rightarrow> notification_row list" where
  "notify_administrators env requestId requestType requiredPermission key ob =
     schedule_all
       (map (\<lambda>recipientId.
          \<lparr>no_recipientId = recipientId, no_actorId = None,
           no_event = N_no_approver requestType requestId requiredPermission,
           no_resourceId = requestId, no_idempotencyKey = K_no_approver (key recipientId)\<rparr>)
        (ev_holders env ''rbac.manage''))
       ob"

definition decision_makers :: "request_env \<Rightarrow> string option \<Rightarrow> string \<Rightarrow> string \<Rightarrow> string list" where
  "decision_makers env assigneeId requiredPermission excludeUserId =
     (case assigneeId of
        Some a \<Rightarrow> [a]
      | None \<Rightarrow> filter (\<lambda>u. u \<noteq> excludeUserId) (ev_holders env requiredPermission))"

definition notify_decision_makers ::
    "request_env \<Rightarrow> notification \<Rightarrow> string \<Rightarrow> string option \<Rightarrow> string \<Rightarrow> string \<Rightarrow> string \<Rightarrow>
     (string \<Rightarrow> idempotency_key) \<Rightarrow> string option \<Rightarrow> notification_row list \<Rightarrow> notification_row list" where
  "notify_decision_makers env event requestId assigneeId requiredPermission excludeUserId requestType
     key actorId ob =
     (let recipients = decision_makers env assigneeId requiredPermission excludeUserId
      in if recipients = []
         then notify_administrators env requestId requestType requiredPermission key ob
         else schedule_all
                (map (\<lambda>recipientId.
                   \<lparr>no_recipientId = recipientId, no_actorId = actorId, no_event = event,
                    no_resourceId = requestId, no_idempotencyKey = key recipientId\<rparr>) recipients)
                ob)"

section \<open>Submit\<close>

record submit_options =
  so_expiresAt :: "int option"
  so_priority :: "request_priority option"
  so_assigneeId :: "string option"

definition no_options :: submit_options where
  "no_options = \<lparr>so_expiresAt = None, so_priority = None, so_assigneeId = None\<rparr>"

text \<open>An hour count of \<^verbatim>\<open>0\<close> is falsy in JavaScript and means no deadline, like an absent one.\<close>

definition deadline_after :: "int \<Rightarrow> int option \<Rightarrow> int option" where
  "deadline_after now hours =
     (case hours of None \<Rightarrow> None | Some h \<Rightarrow> if h = 0 then None else Some (now + h * MS_PER_HOUR))"

definition submit ::
    "request_env \<Rightarrow> ('p, 'd) registry \<Rightarrow> string \<Rightarrow> string \<Rightarrow> 'p \<Rightarrow> actor \<Rightarrow> submit_options \<Rightarrow>
     ('p, 'd) engine_db \<Rightarrow> ('p request_item \<times> ('p, 'd) engine_db) result" where
  "submit env reg new_id ty payload actor opts db =
     and_then (registry_get reg ty) (\<lambda>def.
       let now = ev_now env;
           expiresAt = (case so_expiresAt opts of
               Some t \<Rightarrow> Some t
             | None \<Rightarrow> deadline_after now (td_defaultExpiryHours def));
           totalSteps = (case td_approvalSteps def of None \<Rightarrow> 1 | Some steps \<Rightarrow> int (length steps))
       in and_then
            (case td_onSubmit def of
               None \<Rightarrow> Inr (domain_db db)
             | Some hook \<Rightarrow> hook payload (ac_sub actor) now (domain_db db))
            (\<lambda>d'.
               let row = \<lparr>ri_id = new_id, ri_type = ty, ri_requesterId = ac_sub actor,
                          ri_assigneeId = so_assigneeId opts, ri_status = Pending,
                          ri_priority = (case so_priority opts of None \<Rightarrow> Normal | Some p \<Rightarrow> p),
                          ri_payload = payload, ri_resolutionNote = None, ri_submittedAt = now,
                          ri_resolvedAt = None, ri_expiresAt = expiresAt,
                          ri_slaHours = td_slaHours def,
                          ri_slaDeadline = deadline_after now (td_slaHours def),
                          ri_slaBreachedAt = None, ri_currentStep = 1, ri_totalSteps = totalSteps,
                          ri_createdAt = now, ri_updatedAt = now\<rparr>;
                   firstStepPermission =
                     (case td_approvalSteps def of
                        Some (s # ss) \<Rightarrow> sp_requiredPermission s
                      | _ \<Rightarrow> td_requiredApprovalPermission def)
               in Inr (row,
                    db\<lparr>items := items db @ [row],
                       domain_db := d',
                       deliveries := fanout (subscriptions db)
                         (W_request_submitted new_id ty (ac_sub actor) (priority_text (ri_priority row)))
                         (deliveries db),
                       outbox := notify_decision_makers env
                         (N_request_submitted ty new_id (ac_email actor))
                         new_id (ri_assigneeId row) firstStepPermission (ac_sub actor) ty
                         (K_request_submitted new_id) (Some (ac_sub actor)) (outbox db)\<rparr>)))"

section \<open>The gates before a decision\<close>

definition get_or_fail :: "('p, 'd) engine_db \<Rightarrow> string \<Rightarrow> 'p request_item result" where
  "get_or_fail db rid =
     (case find_row ri_id rid (items db) of
        None \<Rightarrow> Inl (NotFoundException ''REQUEST_NOT_FOUND'')
      | Some item \<Rightarrow> Inr item)"

definition assert_approvable :: "request_status \<Rightarrow> unit result" where
  "assert_approvable status =
     (if status \<noteq> Pending \<and> status \<noteq> In_review
      then Inl (PreconditionFailedException ''REQUEST_NOT_PENDING'') else Inr ())"

definition assignee_unavailable :: "request_env \<Rightarrow> string \<Rightarrow> string \<Rightarrow> bool" where
  "assignee_unavailable env assigneeId permission =
     (case ev_employee env assigneeId of
        None \<Rightarrow> True
      | Some Employee_offboarded \<Rightarrow> True
      | Some _ \<Rightarrow> \<not> ev_check env assigneeId permission)"

text \<open>The result names the unavailable assignee when the decision is a fallback.\<close>

definition resolve_assignee_gate ::
    "request_env \<Rightarrow> 'p request_item \<Rightarrow> actor \<Rightarrow> delegation option \<Rightarrow> string \<Rightarrow> string option result" where
  "resolve_assignee_gate env request actor active requiredPermission =
     (case ri_assigneeId request of
        None \<Rightarrow> Inr None
      | Some assigneeId \<Rightarrow>
          if assigneeId = ac_sub actor then Inr None
          else if (case active of None \<Rightarrow> False | Some d \<Rightarrow> de_fromUserId d = assigneeId) then Inr None
          else if assignee_unavailable env assigneeId requiredPermission then
            (let mayOverride =
                   ev_check env (ac_sub actor) ASSIGNEE_FALLBACK_PERMISSION \<or>
                   (case active of
                      None \<Rightarrow> False
                    | Some d \<Rightarrow> ev_check env (de_fromUserId d) ASSIGNEE_FALLBACK_PERMISSION)
             in if \<not> mayOverride then Inl (PermissionDeniedException ''FORBIDDEN'')
                else Inr (Some assigneeId))
          else Inl (PermissionDeniedException ''FORBIDDEN''))"

definition fallback_note :: "string option \<Rightarrow> string option \<Rightarrow> string option" where
  "fallback_note note fallbackFor =
     (case fallbackFor of
        None \<Rightarrow> note
      | Some a \<Rightarrow>
          let tag = ''[fallback decision: assignee '' @ a @ '' unavailable]''
          in case note of
               None \<Rightarrow> Some tag
             | Some n \<Rightarrow> if n = [] then Some tag else Some (tag @ '' '' @ n))"

text \<open>
  What a decision carries from its checks into its transaction: the request as it was read, its
  type, the delegation in force and the fallback.
\<close>

record ('p, 'd) decision_context =
  dc_request :: "'p request_item"
  dc_def :: "('p, 'd) type_def"
  dc_delegation :: "delegation option"
  dc_fallbackFor :: "string option"

definition sod_subject :: "delegation option \<Rightarrow> actor \<Rightarrow> string" where
  "sod_subject active actor = (case active of None \<Rightarrow> ac_sub actor | Some d \<Rightarrow> de_fromUserId d)"

definition allowed_for :: "request_env \<Rightarrow> delegation option \<Rightarrow> actor \<Rightarrow> string \<Rightarrow> bool" where
  "allowed_for env active actor permission =
     (ev_check env (ac_sub actor) permission \<or>
      (case active of None \<Rightarrow> False | Some d \<Rightarrow> ev_check env (de_fromUserId d) permission))"

definition approve_check ::
    "request_env \<Rightarrow> ('p, 'd) registry \<Rightarrow> string \<Rightarrow> actor \<Rightarrow> ('p, 'd) engine_db \<Rightarrow>
     ('p, 'd) decision_context result" where
  "approve_check env reg requestId actor db =
     and_then (get_or_fail db requestId) (\<lambda>request.
     and_then (assert_approvable (ri_status request)) (\<lambda>_.
     and_then (registry_get reg (ri_type request)) (\<lambda>def.
       let currentStep = ri_currentStep request;
           requiredPermission = step_permission def currentStep;
           active = ev_delegation env (ac_sub actor)
       in if \<not> td_allowSelfApproval def \<and> ri_requesterId request = sod_subject active actor
          then Inl (PermissionDeniedException ''REQUEST_SOD_VIOLATION'')
          else if \<not> allowed_for env active actor requiredPermission
          then Inl (PermissionDeniedException ''FORBIDDEN'')
          else and_then (resolve_assignee_gate env request actor active requiredPermission)
                 (\<lambda>fallbackFor.
                    Inr \<lparr>dc_request = request, dc_def = def, dc_delegation = active,
                         dc_fallbackFor = fallbackFor\<rparr>))))"

definition reject_check ::
    "request_env \<Rightarrow> ('p, 'd) registry \<Rightarrow> string \<Rightarrow> actor \<Rightarrow> ('p, 'd) engine_db \<Rightarrow>
     ('p, 'd) decision_context result" where
  "reject_check env reg requestId actor db =
     and_then (get_or_fail db requestId) (\<lambda>request.
     and_then (assert_approvable (ri_status request)) (\<lambda>_.
     and_then (registry_get reg (ri_type request)) (\<lambda>def.
       let active = ev_delegation env (ac_sub actor)
       in if \<not> td_allowSelfApproval def \<and> ri_requesterId request = sod_subject active actor
          then Inl (PermissionDeniedException ''REQUEST_SOD_VIOLATION'')
          else
            let requiredPermission = step_permission def (ri_currentStep request)
            in if \<not> allowed_for env active actor requiredPermission
               then Inl (PermissionDeniedException ''FORBIDDEN'')
               else and_then (resolve_assignee_gate env request actor active requiredPermission)
                      (\<lambda>fallbackFor.
                         Inr \<lparr>dc_request = request, dc_def = def, dc_delegation = active,
                              dc_fallbackFor = fallbackFor\<rparr>))))"

section \<open>Approve\<close>

definition approval_row ::
    "int \<Rightarrow> string \<Rightarrow> ('p, 'd) decision_context \<Rightarrow> decision \<Rightarrow> string option \<Rightarrow> actor \<Rightarrow> request_approval" where
  "approval_row now new_id ctx dec note actor =
     \<lparr>ap_id = new_id, ap_requestId = ri_id (dc_request ctx), ap_step = ri_currentStep (dc_request ctx),
      ap_approverId = ac_sub actor, ap_decision = dec,
      ap_note = fallback_note note (dc_fallbackFor ctx),
      ap_delegatedFromId = map_option de_fromUserId (dc_delegation ctx), ap_decidedAt = now\<rparr>"

definition next_assignee :: "('p, 'd) decision_context \<Rightarrow> 'd \<Rightarrow> string option result" where
  "next_assignee ctx d =
     (let request = dc_request ctx; def = dc_def ctx; n = ri_currentStep request
      in if is_final_step def n then Inr (ri_assigneeId request)
         else case step_def def (n + 1) of
                None \<Rightarrow> Inr (ri_assigneeId request)
              | Some s \<Rightarrow>
                  (case sp_resolverFn s of
                     None \<Rightarrow> Inr (ri_assigneeId request)
                   | Some resolve_assignee \<Rightarrow>
                       and_then (resolve_assignee (ri_payload request) d)
                         (\<lambda>a. Inr (case a of None \<Rightarrow> ri_assigneeId request | Some u \<Rightarrow> Some u))))"

definition approve_item ::
    "int \<Rightarrow> ('p, 'd) decision_context \<Rightarrow> string option \<Rightarrow> string option \<Rightarrow>
     'p request_item \<Rightarrow> 'p request_item" where
  "approve_item now ctx nextAssigneeId note r =
     (let request = dc_request ctx; n = ri_currentStep request; final = is_final_step (dc_def ctx) n
      in r\<lparr>ri_status := if final then Approved else In_review,
           ri_currentStep := if final then n else n + 1,
           ri_assigneeId := if final then ri_assigneeId request else nextAssigneeId,
           ri_resolvedAt := if final then Some now else None,
           ri_resolutionNote := if final then note else None,
           ri_updatedAt := now\<rparr>)"

definition approve_commit ::
    "request_env \<Rightarrow> string \<Rightarrow> string option \<Rightarrow> actor \<Rightarrow> ('p, 'd) decision_context \<Rightarrow>
     ('p, 'd) engine_db \<Rightarrow> ('p, 'd) engine_db result" where
  "approve_commit env new_id note actor ctx db =
     (let now = ev_now env; request = dc_request ctx; def = dc_def ctx;
          requestId = ri_id request; currentStep = ri_currentStep request;
          nextStep = currentStep + 1; final = is_final_step def currentStep
      in and_then (next_assignee ctx (domain_db db)) (\<lambda>nextAssigneeId.
           let db1 = db\<lparr>items := modify_row ri_id requestId (approve_item now ctx nextAssigneeId note) (items db),
                        approvals := approvals db @ [approval_row now new_id ctx Decision_approved note actor]\<rparr>
           in and_then
                (if final
                 then and_then (td_onApprove def (ri_payload request) requestId (ac_sub actor) now (domain_db db1))
                        (\<lambda>d'. Inr (db1\<lparr>domain_db := d',
                           outbox := schedule
                             \<lparr>no_recipientId = ri_requesterId request, no_actorId = Some (ac_sub actor),
                              no_event = N_request_approved (ri_type request) requestId,
                              no_resourceId = requestId,
                              no_idempotencyKey = K_request_approved requestId\<rparr> (outbox db1)\<rparr>))
                 else and_then
                        (case td_onStepApproved def of
                           None \<Rightarrow> Inr (domain_db db1)
                         | Some hook \<Rightarrow> hook (ri_payload request) requestId currentStep nextStep
                             nextAssigneeId (ac_sub actor) now (domain_db db1))
                        (\<lambda>d'. Inr (db1\<lparr>domain_db := d',
                           outbox := notify_decision_makers env
                             (N_step_ready (ri_type request) requestId currentStep nextStep (max_step def))
                             requestId nextAssigneeId (step_permission def nextStep)
                             (ri_requesterId request) (ri_type request)
                             (K_step_ready requestId nextStep) None (outbox db1)\<rparr>)))
                (\<lambda>db2. Inr (db2\<lparr>deliveries := fanout (subscriptions db2)
                   (if final
                    then W_request_approved requestId (ri_type request) (ac_sub actor) currentStep True (max_step def)
                    else W_step_approved requestId (ri_type request) (ac_sub actor) currentStep False (max_step def))
                   (deliveries db2)\<rparr>))))"

definition approve ::
    "request_env \<Rightarrow> ('p, 'd) registry \<Rightarrow> string \<Rightarrow> string \<Rightarrow> string option \<Rightarrow> actor \<Rightarrow>
     ('p, 'd) engine_db \<Rightarrow> ('p, 'd) engine_db result" where
  "approve env reg new_id requestId note actor db =
     and_then (approve_check env reg requestId actor db)
       (\<lambda>ctx. approve_commit env new_id note actor ctx db)"

section \<open>Reject, cancel, expire\<close>

definition reject_item :: "int \<Rightarrow> string option \<Rightarrow> 'p request_item \<Rightarrow> 'p request_item" where
  "reject_item now note r =
     r\<lparr>ri_status := Rejected, ri_resolvedAt := Some now, ri_resolutionNote := note, ri_updatedAt := now\<rparr>"

definition reject_commit ::
    "request_env \<Rightarrow> string \<Rightarrow> string option \<Rightarrow> actor \<Rightarrow> ('p, 'd) decision_context \<Rightarrow>
     ('p, 'd) engine_db \<Rightarrow> ('p, 'd) engine_db result" where
  "reject_commit env new_id note actor ctx db =
     (let now = ev_now env; request = dc_request ctx; def = dc_def ctx; requestId = ri_id request;
          db1 = db\<lparr>items := modify_row ri_id requestId (reject_item now note) (items db),
                   approvals := approvals db @ [approval_row now new_id ctx Decision_rejected note actor]\<rparr>
      in and_then
           (case td_onReject def of
              None \<Rightarrow> Inr (domain_db db1)
            | Some hook \<Rightarrow> hook (ri_payload request) requestId (ac_sub actor) now (domain_db db1))
           (\<lambda>d'. Inr (db1\<lparr>domain_db := d',
              outbox := schedule
                \<lparr>no_recipientId = ri_requesterId request, no_actorId = Some (ac_sub actor),
                 no_event = N_request_rejected (ri_type request) requestId note,
                 no_resourceId = requestId, no_idempotencyKey = K_request_rejected requestId\<rparr>
                (outbox db1),
              deliveries := fanout (subscriptions db1)
                (W_request_rejected requestId (ri_type request) (ac_sub actor) note)
                (deliveries db1)\<rparr>)))"

definition reject ::
    "request_env \<Rightarrow> ('p, 'd) registry \<Rightarrow> string \<Rightarrow> string \<Rightarrow> string option \<Rightarrow> actor \<Rightarrow>
     ('p, 'd) engine_db \<Rightarrow> ('p, 'd) engine_db result" where
  "reject env reg new_id requestId note actor db =
     and_then (reject_check env reg requestId actor db)
       (\<lambda>ctx. reject_commit env new_id note actor ctx db)"

definition cancel_check ::
    "request_env \<Rightarrow> ('p, 'd) registry \<Rightarrow> string \<Rightarrow> actor \<Rightarrow> ('p, 'd) engine_db \<Rightarrow>
     ('p request_item \<times> ('p, 'd) type_def) result" where
  "cancel_check env reg requestId actor db =
     and_then (get_or_fail db requestId) (\<lambda>request.
       let canAdminCancel = ev_check env (ac_sub actor) ''rbac.manage''
       in if ri_requesterId request \<noteq> ac_sub actor \<and> \<not> canAdminCancel
          then Inl (PermissionDeniedException ''FORBIDDEN'')
          else if ri_status request \<noteq> Pending \<and> ri_status request \<noteq> In_review
          then Inl (PreconditionFailedException ''REQUEST_NOT_CANCELLABLE'')
          else and_then (registry_get reg (ri_type request)) (\<lambda>def. Inr (request, def)))"

definition cancel_item :: "int \<Rightarrow> 'p request_item \<Rightarrow> 'p request_item" where
  "cancel_item now r = r\<lparr>ri_status := Cancelled, ri_resolvedAt := Some now, ri_updatedAt := now\<rparr>"

definition cancel_commit ::
    "request_env \<Rightarrow> actor \<Rightarrow> 'p request_item \<times> ('p, 'd) type_def \<Rightarrow>
     ('p, 'd) engine_db \<Rightarrow> ('p, 'd) engine_db result" where
  "cancel_commit env actor ctx db =
     (let now = ev_now env; request = fst ctx; def = snd ctx; requestId = ri_id request;
          db1 = db\<lparr>items := modify_row ri_id requestId (cancel_item now) (items db)\<rparr>
      in and_then
           (case td_onCancel def of
              None \<Rightarrow> Inr (domain_db db1)
            | Some hook \<Rightarrow> hook (ri_payload request) requestId (ac_sub actor) now (domain_db db1))
           (\<lambda>d'. Inr (db1\<lparr>domain_db := d',
              deliveries := fanout (subscriptions db1)
                (W_request_cancelled requestId (ri_type request) (ac_sub actor)) (deliveries db1)\<rparr>)))"

definition cancel ::
    "request_env \<Rightarrow> ('p, 'd) registry \<Rightarrow> string \<Rightarrow> actor \<Rightarrow> ('p, 'd) engine_db \<Rightarrow>
     ('p, 'd) engine_db result" where
  "cancel env reg requestId actor db =
     and_then (cancel_check env reg requestId actor db) (\<lambda>ctx. cancel_commit env actor ctx db)"

text \<open>\<open>None\<close>: the request is decided already and there is nothing to expire.\<close>

definition expire_check ::
    "('p, 'd) registry \<Rightarrow> string \<Rightarrow> ('p, 'd) engine_db \<Rightarrow>
     ('p request_item \<times> ('p, 'd) type_def) option result" where
  "expire_check reg requestId db =
     and_then (get_or_fail db requestId) (\<lambda>request.
       if ri_status request \<noteq> Pending \<and> ri_status request \<noteq> In_review then Inr None
       else and_then (registry_get reg (ri_type request)) (\<lambda>def. Inr (Some (request, def))))"

definition expire_item :: "int \<Rightarrow> 'p request_item \<Rightarrow> 'p request_item" where
  "expire_item now r = r\<lparr>ri_status := Expired, ri_resolvedAt := Some now, ri_updatedAt := now\<rparr>"

definition expire_commit ::
    "request_env \<Rightarrow> 'p request_item \<times> ('p, 'd) type_def \<Rightarrow> ('p, 'd) engine_db \<Rightarrow>
     ('p, 'd) engine_db result" where
  "expire_commit env ctx db =
     (let now = ev_now env; request = fst ctx; def = snd ctx; requestId = ri_id request;
          db1 = db\<lparr>items := modify_row ri_id requestId (expire_item now) (items db)\<rparr>
      in and_then
           (case td_onExpire def of
              None \<Rightarrow> Inr (domain_db db1)
            | Some hook \<Rightarrow> hook (ri_payload request) requestId now (domain_db db1))
           (\<lambda>d'. Inr (db1\<lparr>domain_db := d',
              deliveries := fanout (subscriptions db1)
                (W_request_expired requestId (ri_type request)) (deliveries db1)\<rparr>)))"

definition expire ::
    "request_env \<Rightarrow> ('p, 'd) registry \<Rightarrow> string \<Rightarrow> ('p, 'd) engine_db \<Rightarrow> ('p, 'd) engine_db result" where
  "expire env reg requestId db =
     and_then (expire_check reg requestId db)
       (\<lambda>found. case found of None \<Rightarrow> Inr db | Some ctx \<Rightarrow> expire_commit env ctx db)"

section \<open>The crons\<close>

text \<open>The query has no order, so the database picks the batch; the model takes the first rows.\<close>

definition find_expired :: "int \<Rightarrow> nat \<Rightarrow> ('p, 'd) engine_db \<Rightarrow> string list" where
  "find_expired now batchSize db =
     take batchSize
       (map ri_id
         (filter (\<lambda>r. (ri_status r = Pending \<or> ri_status r = In_review) \<and>
                      (case ri_expiresAt r of None \<Rightarrow> False | Some t \<Rightarrow> t < now)) (items db)))"

text \<open>One row that fails is logged and skipped.\<close>

definition expire_or_skip ::
    "request_env \<Rightarrow> ('p, 'd) registry \<Rightarrow> string \<Rightarrow> ('p, 'd) engine_db \<Rightarrow> ('p, 'd) engine_db" where
  "expire_or_skip env reg rid db = (case expire env reg rid db of Inl e \<Rightarrow> db | Inr db' \<Rightarrow> db')"

definition request_expiry_tick ::
    "request_env \<Rightarrow> ('p, 'd) registry \<Rightarrow> ('p, 'd) engine_db \<Rightarrow> ('p, 'd) engine_db" where
  "request_expiry_tick env reg db =
     foldl (\<lambda>db' rid. expire_or_skip env reg rid db') db (find_expired (ev_now env) 100 db)"

definition breach_item :: "int \<Rightarrow> 'p request_item \<Rightarrow> 'p request_item" where
  "breach_item now r = r\<lparr>ri_slaBreachedAt := Some now\<rparr>"

definition sla_breached :: "int \<Rightarrow> 'p request_item \<Rightarrow> bool" where
  "sla_breached now r \<longleftrightarrow>
     ri_status r \<in> {Pending, In_review} \<and> ri_slaBreachedAt r = None \<and>
     (case ri_slaDeadline r of None \<Rightarrow> False | Some t \<Rightarrow> t \<le> now)"

definition sla_breach_row :: "int \<Rightarrow> 'p request_item \<Rightarrow> ('p, 'd) engine_db \<Rightarrow> ('p, 'd) engine_db" where
  "sla_breach_row now row db =
     (case ri_slaDeadline row of
        None \<Rightarrow> db
      | Some deadline \<Rightarrow>
          db\<lparr>items := modify_row ri_id (ri_id row) (breach_item now) (items db),
             outbox := schedule
               \<lparr>no_recipientId = ri_requesterId row, no_actorId = None,
                no_event = N_sla_breach (ri_type row) (ri_id row) deadline,
                no_resourceId = ri_id row, no_idempotencyKey = K_sla_breach (ri_id row)\<rparr>
               (outbox db)\<rparr>)"

definition sla_breach_tick :: "int \<Rightarrow> ('p, 'd) engine_db \<Rightarrow> ('p, 'd) engine_db" where
  "sla_breach_tick now db =
     foldl (\<lambda>db' row. sla_breach_row now row db') db (take 100 (filter (sla_breached now) (items db)))"

section \<open>Decidability and the queue\<close>

datatype refusal_reason = Own_request | Missing_permission | Not_open

definition decidability_of ::
    "request_env \<Rightarrow> ('p, 'd) registry \<Rightarrow> string \<Rightarrow> 'p request_item \<Rightarrow>
     (bool \<times> refusal_reason option) result" where
  "decidability_of env reg actorId row =
     (if ri_status row \<noteq> Pending \<and> ri_status row \<noteq> In_review then Inr (False, Some Not_open)
      else and_then (registry_get reg (ri_type row)) (\<lambda>def.
        let active = ev_delegation env actorId;
            sodSubject = (case active of None \<Rightarrow> actorId | Some d \<Rightarrow> de_fromUserId d);
            mayUse = (\<lambda>permission. ev_check env actorId permission \<or>
                        (case active of None \<Rightarrow> False | Some d \<Rightarrow> ev_check env (de_fromUserId d) permission))
        in if \<not> td_allowSelfApproval def \<and> ri_requesterId row = sodSubject
           then Inr (False, Some Own_request)
           else
             let required = step_permission def (ri_currentStep row);
                 may = mayUse required;
                 may' = (case ri_assigneeId row of
                           None \<Rightarrow> may
                         | Some a \<Rightarrow>
                             if may \<and> a \<noteq> actorId \<and> map_option de_fromUserId active \<noteq> Some a \<and>
                                \<not> (assignee_unavailable env a required \<and> mayUse ASSIGNEE_FALLBACK_PERMISSION)
                             then False else may)
             in Inr (may', if may' then None else Some Missing_permission)))"

definition decidability ::
    "request_env \<Rightarrow> ('p, 'd) registry \<Rightarrow> 'p request_item list \<Rightarrow> string \<Rightarrow>
     (string \<times> bool \<times> refusal_reason option) list result" where
  "decidability env reg rows actorId =
     foldl (\<lambda>acc row. and_then acc (\<lambda>out. and_then (decidability_of env reg actorId row)
              (\<lambda>v. Inr (out @ [(ri_id row, v)])))) (Inr []) rows"

text \<open>The (type, step) pairs whose permission the actor holds, then the SQL predicate built from them.\<close>

definition decidable_pairs :: "request_env \<Rightarrow> ('p, 'd) registry \<Rightarrow> string \<Rightarrow> (string \<times> int) list" where
  "decidable_pairs env reg actorId =
     concat (map (\<lambda>def.
       map (\<lambda>(n, required). (td_type def, n))
         (filter (\<lambda>(n, required). ev_check env actorId required)
           (case td_approvalSteps def of
              None \<Rightarrow> [(1, td_requiredApprovalPermission def)]
            | Some steps \<Rightarrow> map (\<lambda>s. (sp_step s, sp_requiredPermission s)) steps))) reg)"

definition decidable_by_predicate ::
    "request_env \<Rightarrow> ('p, 'd) registry \<Rightarrow> string \<Rightarrow> 'p request_item \<Rightarrow> bool" where
  "decidable_by_predicate env reg actorId r =
     (let pairs = decidable_pairs env reg actorId;
          selfApprovable = map td_type (filter td_allowSelfApproval reg);
          active = ev_delegation env actorId
      in if pairs = [] then False
         else (ri_status r = Pending \<or> ri_status r = In_review) \<and>
              (ri_type r, ri_currentStep r) \<in> set pairs \<and>
              (case ri_assigneeId r of
                 None \<Rightarrow> True
               | Some a \<Rightarrow>
                   a = actorId \<or> map_option de_fromUserId active = Some a \<or>
                   (ev_check env actorId ASSIGNEE_FALLBACK_PERMISSION \<and>
                    ev_employee env a = Some Employee_offboarded)) \<and>
              (ri_type r \<in> set selfApprovable \<or> ri_requesterId r \<noteq> actorId))"

section \<open>Reading\<close>

definition sorted_approvals :: "('p, 'd) engine_db \<Rightarrow> string \<Rightarrow> request_approval list" where
  "sorted_approvals db rid =
     sort_key (\<lambda>a. (ap_step a, ap_decidedAt a, ap_id a)) (filter (\<lambda>a. ap_requestId a = rid) (approvals db))"

record 'p request_view =
  vw_item :: "'p request_item"
  vw_approvals :: "request_approval list"
  vw_viewerMayDecide :: bool
  vw_viewerCannotDecideReason :: "refusal_reason option"

definition view_of :: "('p, 'd) engine_db \<Rightarrow> 'p request_item \<Rightarrow> bool \<times> refusal_reason option \<Rightarrow> 'p request_view" where
  "view_of db r v =
     \<lparr>vw_item = r, vw_approvals = sorted_approvals db (ri_id r), vw_viewerMayDecide = fst v,
      vw_viewerCannotDecideReason = snd v\<rparr>"

definition get_by_id ::
    "request_env \<Rightarrow> ('p, 'd) registry \<Rightarrow> string \<Rightarrow> actor \<Rightarrow> ('p, 'd) engine_db \<Rightarrow>
     'p request_view option result" where
  "get_by_id env reg rid actor db =
     (case find_row ri_id rid (items db) of
        None \<Rightarrow> Inr None
      | Some item \<Rightarrow>
          and_then (assert_party (ev_check env) [Some (ri_requesterId item), ri_assigneeId item]
                      (ac_sub actor) ''request.read'') (\<lambda>_.
          and_then (decidability_of env reg (ac_sub actor) item) (\<lambda>v. Inr (Some (view_of db item v)))))"

record request_filters =
  rf_type :: "string option"
  rf_requesterId :: "string option"
  rf_assigneeId :: "string option"
  rf_status :: "request_status option"
  rf_myQueue :: bool

definition list_where ::
    "request_env \<Rightarrow> ('p, 'd) registry \<Rightarrow> request_filters \<Rightarrow> string \<Rightarrow> 'p request_item \<Rightarrow> bool" where
  "list_where env reg filters actorId r =
     ((case rf_type filters of None \<Rightarrow> True | Some t \<Rightarrow> ri_type r = t) \<and>
      (case rf_requesterId filters of None \<Rightarrow> True | Some u \<Rightarrow> ri_requesterId r = u) \<and>
      (case rf_status filters of None \<Rightarrow> True | Some s \<Rightarrow> ri_status r = s) \<and>
      (if rf_myQueue filters then decidable_by_predicate env reg actorId r
       else case rf_assigneeId filters of None \<Rightarrow> True | Some a \<Rightarrow> ri_assigneeId r = Some a) \<and>
      (if ev_check env actorId ''request.read'' then True
       else ri_requesterId r = actorId \<or> ri_assigneeId r = Some actorId))"

text \<open>Newest first, ties by id; the page and the count share one predicate.\<close>

definition list_requests ::
    "request_env \<Rightarrow> ('p, 'd) registry \<Rightarrow> request_filters \<Rightarrow> string \<Rightarrow> nat \<Rightarrow> nat \<Rightarrow>
     ('p, 'd) engine_db \<Rightarrow> ('p request_view list \<times> nat) result" where
  "list_requests env reg filters actorId limit offset db =
     (let found = filter (list_where env reg filters actorId) (items db);
          rows = take limit (drop offset (rev (sort_key (\<lambda>r. (ri_createdAt r, ri_id r)) found)))
      in and_then (decidability env reg rows actorId) (\<lambda>verdicts.
           Inr (map (\<lambda>r. view_of db r
                  (case map_of verdicts (ri_id r) of None \<Rightarrow> (False, None) | Some v \<Rightarrow> v)) rows,
                length found)))"

section \<open>Comments\<close>

definition is_space :: "char \<Rightarrow> bool" where
  "is_space c \<longleftrightarrow> of_char c \<in> {9, 10, 11, 12, 13, 32, 160 :: nat}"

definition trim :: "string \<Rightarrow> string" where
  "trim s = rev (dropWhile is_space (rev (dropWhile is_space s)))"

definition add_comment ::
    "request_env \<Rightarrow> string \<Rightarrow> string \<Rightarrow> string \<Rightarrow> actor \<Rightarrow> ('p, 'd) engine_db \<Rightarrow>
     (request_comment \<times> ('p, 'd) engine_db) result" where
  "add_comment env new_id requestId body actor db =
     and_then (get_or_fail db requestId) (\<lambda>request.
     and_then (assert_party (ev_check env) [Some (ri_requesterId request), ri_assigneeId request]
                 (ac_sub actor) ''request.read'') (\<lambda>_.
       let row = \<lparr>cm_id = new_id, cm_requestId = requestId, cm_authorId = ac_sub actor,
                  cm_body = trim body, cm_createdAt = ev_now env\<rparr>
       in Inr (row, db\<lparr>comments := comments db @ [row]\<rparr>)))"

definition list_comments ::
    "request_env \<Rightarrow> string \<Rightarrow> actor \<Rightarrow> ('p, 'd) engine_db \<Rightarrow> request_comment list result" where
  "list_comments env requestId actor db =
     and_then (get_or_fail db requestId) (\<lambda>request.
     and_then (assert_party (ev_check env) [Some (ri_requesterId request), ri_assigneeId request]
                 (ac_sub actor) ''request.read'') (\<lambda>_.
       Inr (sort_key (\<lambda>c. (cm_createdAt c, cm_id c))
              (filter (\<lambda>c. cm_requestId c = requestId) (comments db)))))"

end
