(* ===== verification/RequestLemmas.thy ===== *)
theory RequestLemmas
  imports Requests
begin

text \<open>
  What every transition of the request engine does to its tables, stated once: the shape of a
  successful check, the shape of a committed transaction, and the step relations built from them.
  \<open>engine_step\<close> runs one method call after another; \<open>race_step\<close> lets the check of a call and its
  transaction be separated by other callers, as the unlocked reads of the methods allow.
\<close>

named_theorems shapes

interpretation item_table: keyed_table ri_id "find_row ri_id" "modify_row ri_id" "keys_distinct ri_id"
  by (rule keyed_list_table)

interpretation type_table: keyed_table td_type "find_row td_type" "modify_row td_type" "keys_distinct td_type"
  by (rule keyed_list_table)

section \<open>Keys and frames of the row updates\<close>

lemma item_updates_id [simp]:
  "ri_id (approve_item now ctx na note r) = ri_id r"
  "ri_id (reject_item now note r) = ri_id r"
  "ri_id (cancel_item now r) = ri_id r"
  "ri_id (expire_item now r) = ri_id r"
  "ri_id (breach_item now r) = ri_id r"
  by (simp_all add: approve_item_def reject_item_def cancel_item_def expire_item_def breach_item_def Let_def)

text \<open>The part of a request that is written at submit and never again.\<close>

definition filed :: "'p request_item \<Rightarrow> string \<times> string \<times> string \<times> 'p \<times> int \<times> int \<times> int option" where
  "filed r = (ri_id r, ri_type r, ri_requesterId r, ri_payload r, ri_totalSteps r, ri_createdAt r,
              ri_expiresAt r)"

lemma item_updates_filed [simp]:
  "filed (approve_item now ctx na note r) = filed r"
  "filed (reject_item now note r) = filed r"
  "filed (cancel_item now r) = filed r"
  "filed (expire_item now r) = filed r"
  "filed (breach_item now r) = filed r"
  by (simp_all add: filed_def approve_item_def reject_item_def cancel_item_def expire_item_def
      breach_item_def Let_def)

lemma update_status_simps [simp]:
  "ri_status (approve_item now ctx na note r) =
     (if is_final_step (dc_def ctx) (ri_currentStep (dc_request ctx)) then Approved else In_review)"
  "ri_status (reject_item now note r) = Rejected"
  "ri_status (cancel_item now r) = Cancelled"
  "ri_status (expire_item now r) = Expired"
  "ri_status (breach_item now r) = ri_status r"
  by (simp_all add: approve_item_def reject_item_def cancel_item_def expire_item_def breach_item_def Let_def)

lemma update_step_simps [simp]:
  "ri_currentStep (approve_item now ctx na note r) =
     (if is_final_step (dc_def ctx) (ri_currentStep (dc_request ctx)) then ri_currentStep (dc_request ctx)
      else ri_currentStep (dc_request ctx) + 1)"
  "ri_currentStep (reject_item now note r) = ri_currentStep r"
  "ri_currentStep (cancel_item now r) = ri_currentStep r"
  "ri_currentStep (expire_item now r) = ri_currentStep r"
  "ri_currentStep (breach_item now r) = ri_currentStep r"
  by (simp_all add: approve_item_def reject_item_def cancel_item_def expire_item_def breach_item_def Let_def)

lemma update_resolved_simps [simp]:
  "ri_resolvedAt (approve_item now ctx na note r) =
     (if is_final_step (dc_def ctx) (ri_currentStep (dc_request ctx)) then Some now else None)"
  "ri_resolvedAt (reject_item now note r) = Some now"
  "ri_resolvedAt (cancel_item now r) = Some now"
  "ri_resolvedAt (expire_item now r) = Some now"
  "ri_resolvedAt (breach_item now r) = ri_resolvedAt r"
  by (simp_all add: approve_item_def reject_item_def cancel_item_def expire_item_def breach_item_def Let_def)

section \<open>Shapes of the checks\<close>

lemma get_or_fail_Inr [simp]:
  "get_or_fail db rid = Inr r \<longleftrightarrow> find_row ri_id rid (items db) = Some r"
  by (auto simp: get_or_fail_def split: option.splits)

lemma assert_approvable_Inr [simp]: "assert_approvable s = Inr u \<longleftrightarrow> is_open s"
  by (auto simp: assert_approvable_def is_open_def)

lemma reject_check_is_approve_check: "reject_check env reg rid actor db = approve_check env reg rid actor db"
  unfolding reject_check_def approve_check_def Let_def ..

lemma approve_check_Inr [shapes]:
  "approve_check env reg rid actor db = Inr ctx \<longleftrightarrow>
     (\<exists>r def fb. find_row ri_id rid (items db) = Some r \<and> is_open (ri_status r) \<and>
        registry_get reg (ri_type r) = Inr def \<and>
        (td_allowSelfApproval def \<or> ri_requesterId r \<noteq> sod_subject (ev_delegation env (ac_sub actor)) actor) \<and>
        allowed_for env (ev_delegation env (ac_sub actor)) actor (step_permission def (ri_currentStep r)) \<and>
        resolve_assignee_gate env r actor (ev_delegation env (ac_sub actor))
          (step_permission def (ri_currentStep r)) = Inr fb \<and>
        ctx = \<lparr>dc_request = r, dc_def = def, dc_delegation = ev_delegation env (ac_sub actor),
               dc_fallbackFor = fb\<rparr>)"
  by (auto simp: approve_check_def Let_def and_then_eq_Inr split: if_splits)

lemma approve_checkD:
  assumes "approve_check env reg rid actor db = Inr ctx"
  shows "find_row ri_id rid (items db) = Some (dc_request ctx)"
    and "ri_id (dc_request ctx) = rid"
    and "is_open (ri_status (dc_request ctx))"
    and "registry_get reg (ri_type (dc_request ctx)) = Inr (dc_def ctx)"
    and "dc_delegation ctx = ev_delegation env (ac_sub actor)"
    and "td_allowSelfApproval (dc_def ctx) \<or>
      ri_requesterId (dc_request ctx) \<noteq> sod_subject (dc_delegation ctx) actor"
    and "allowed_for env (dc_delegation ctx) actor
      (step_permission (dc_def ctx) (ri_currentStep (dc_request ctx)))"
    and "resolve_assignee_gate env (dc_request ctx) actor (dc_delegation ctx)
      (step_permission (dc_def ctx) (ri_currentStep (dc_request ctx))) = Inr (dc_fallbackFor ctx)"
  using assms by (auto simp: approve_check_Inr dest: find_row_Some)

lemma cancel_check_Inr [shapes]:
  "cancel_check env reg rid actor db = Inr ctx \<longleftrightarrow>
     (\<exists>r def. find_row ri_id rid (items db) = Some r \<and> is_open (ri_status r) \<and>
        registry_get reg (ri_type r) = Inr def \<and>
        (ri_requesterId r = ac_sub actor \<or> ev_check env (ac_sub actor) ''rbac.manage'') \<and>
        ctx = (r, def))"
  by (auto simp: cancel_check_def Let_def and_then_eq_Inr is_open_def split: if_splits)

lemma expire_check_Some [shapes]:
  "expire_check reg rid db = Inr (Some ctx) \<longleftrightarrow>
     (\<exists>r def. find_row ri_id rid (items db) = Some r \<and> is_open (ri_status r) \<and>
        registry_get reg (ri_type r) = Inr def \<and> ctx = (r, def))"
  by (auto simp: expire_check_def and_then_eq_Inr is_open_def split: if_splits)

lemma expire_check_None [shapes]:
  "expire_check reg rid db = Inr None \<longleftrightarrow>
     (\<exists>r. find_row ri_id rid (items db) = Some r \<and> \<not> is_open (ri_status r))"
  by (auto simp: expire_check_def and_then_eq_Inr is_open_def split: if_splits)

section \<open>Shapes of the transactions\<close>

lemma submit_shape:
  assumes "submit env reg i ty p actor opts db = Inr (r, db')"
  obtains def d' where
    "registry_get reg ty = Inr def"
    "items db' = items db @ [r]" "approvals db' = approvals db" "comments db' = comments db"
    "domain_db db' = d'" "run_hook (map_option (\<lambda>h x d. h p (ac_sub actor) (ev_now env) d) (td_onSubmit def))
       () (domain_db db) = Inr d'"
    "ri_id r = i" "ri_type r = ty" "ri_requesterId r = ac_sub actor" "ri_assigneeId r = so_assigneeId opts"
    "ri_status r = Pending" "ri_payload r = p" "ri_resolvedAt r = None" "ri_currentStep r = 1"
    "ri_totalSteps r = (case td_approvalSteps def of None \<Rightarrow> 1 | Some steps \<Rightarrow> int (length steps))"
    "ri_createdAt r = ev_now env" "ri_slaBreachedAt r = None"
proof -
  obtain def d' where 1: "registry_get reg ty = Inr def"
      and 2: "(case td_onSubmit def of None \<Rightarrow> Inr (domain_db db)
               | Some hook \<Rightarrow> hook p (ac_sub actor) (ev_now env) (domain_db db)) = Inr d'"
    using assms by (auto simp: submit_def and_then_eq_Inr Let_def)
  show ?thesis
    by (rule that [of def d'])
      (use assms 1 2 in \<open>auto simp: submit_def Let_def run_hook_def split: option.splits\<close>)
qed

lemma approve_commit_shape:
  assumes "approve_commit env i note actor ctx db = Inr db'"
  obtains na where
    "next_assignee ctx (domain_db db) = Inr na"
    "items db' = modify_row ri_id (ri_id (dc_request ctx)) (approve_item (ev_now env) ctx na note) (items db)"
    "approvals db' = approvals db @ [approval_row (ev_now env) i ctx Decision_approved note actor]"
    "comments db' = comments db"
    "if is_final_step (dc_def ctx) (ri_currentStep (dc_request ctx))
     then td_onApprove (dc_def ctx) (ri_payload (dc_request ctx)) (ri_id (dc_request ctx)) (ac_sub actor)
            (ev_now env) (domain_db db) = Inr (domain_db db')
     else run_hook (map_option (\<lambda>h x d. h (ri_payload (dc_request ctx)) (ri_id (dc_request ctx))
            (ri_currentStep (dc_request ctx)) (ri_currentStep (dc_request ctx) + 1) na (ac_sub actor)
            (ev_now env) d) (td_onStepApproved (dc_def ctx))) () (domain_db db) = Inr (domain_db db')"
proof -
  obtain na where na: "next_assignee ctx (domain_db db) = Inr na"
    using assms by (auto simp: approve_commit_def and_then_eq_Inr Let_def)
  show ?thesis
    by (rule that [of na])
      (use assms na in \<open>auto simp: approve_commit_def Let_def and_then_eq_Inr run_hook_def
         split: if_splits option.splits\<close>)
qed

lemma reject_commit_shape:
  assumes "reject_commit env i note actor ctx db = Inr db'"
  shows "items db' = modify_row ri_id (ri_id (dc_request ctx)) (reject_item (ev_now env) note) (items db)"
    and "approvals db' = approvals db @ [approval_row (ev_now env) i ctx Decision_rejected note actor]"
    and "comments db' = comments db"
    and "run_hook (map_option (\<lambda>h x d. h (ri_payload (dc_request ctx)) (ri_id (dc_request ctx)) (ac_sub actor)
           (ev_now env) d) (td_onReject (dc_def ctx))) () (domain_db db) = Inr (domain_db db')"
  using assms by (auto simp: reject_commit_def Let_def and_then_eq_Inr run_hook_def split: option.splits)

lemma cancel_commit_shape:
  assumes "cancel_commit env actor ctx db = Inr db'"
  shows "items db' = modify_row ri_id (ri_id (fst ctx)) (cancel_item (ev_now env)) (items db)"
    and "approvals db' = approvals db" and "comments db' = comments db"
    and "run_hook (map_option (\<lambda>h x d. h (ri_payload (fst ctx)) (ri_id (fst ctx)) (ac_sub actor)
           (ev_now env) d) (td_onCancel (snd ctx))) () (domain_db db) = Inr (domain_db db')"
  using assms by (auto simp: cancel_commit_def Let_def and_then_eq_Inr run_hook_def split: option.splits)

lemma expire_commit_shape:
  assumes "expire_commit env ctx db = Inr db'"
  shows "items db' = modify_row ri_id (ri_id (fst ctx)) (expire_item (ev_now env)) (items db)"
    and "approvals db' = approvals db" and "comments db' = comments db"
    and "run_hook (map_option (\<lambda>h x d. h (ri_payload (fst ctx)) (ri_id (fst ctx)) (ev_now env) d)
           (td_onExpire (snd ctx))) () (domain_db db) = Inr (domain_db db')"
  using assms by (auto simp: expire_commit_def Let_def and_then_eq_Inr run_hook_def split: option.splits)

end
