(* ===== verification/RequestSafety.thy ===== *)
theory RequestSafety
  imports RequestLemmas
begin

text \<open>
  The engine as a transition system, and what its reachable states satisfy.

  \<open>engine_step\<close> is one method call (with any environment: clock, grants, delegations and employees
  may differ from call to call) or a write of another service, which never touches requests,
  approvals or comments. \<open>race_step\<close> splits every decision into the check and the transaction and
  lets other callers run between the two.
\<close>

section \<open>One call after another\<close>

inductive engine_step :: "('p, 'd) registry \<Rightarrow> ('p, 'd) engine_db \<Rightarrow> ('p, 'd) engine_db \<Rightarrow> bool"
  for reg where
  step_submit:
    "submit env reg i ty p actor opts db = Inr (r, db') \<Longrightarrow> find_row ri_id i (items db) = None \<Longrightarrow>
     \<forall>a \<in> set (approvals db). ap_requestId a \<noteq> i \<Longrightarrow> engine_step reg db db'"
| step_approve: "approve env reg i rid note actor db = Inr db' \<Longrightarrow> engine_step reg db db'"
| step_reject: "reject env reg i rid note actor db = Inr db' \<Longrightarrow> engine_step reg db db'"
| step_cancel: "cancel env reg rid actor db = Inr db' \<Longrightarrow> engine_step reg db db'"
| step_expire: "expire env reg rid db = Inr db' \<Longrightarrow> engine_step reg db db'"
| step_breach: "engine_step reg db (sla_breach_row now row db)"
| step_comment: "add_comment env i rid body actor db = Inr (c, db') \<Longrightarrow> engine_step reg db db'"
| step_other:
    "items db' = items db \<Longrightarrow> approvals db' = approvals db \<Longrightarrow> comments db' = comments db \<Longrightarrow>
     engine_step reg db db'"

definition engine_init :: "('p, 'd) engine_db \<Rightarrow> bool" where
  "engine_init db \<longleftrightarrow> items db = [] \<and> approvals db = []"

inductive engine_reachable :: "('p, 'd) registry \<Rightarrow> ('p, 'd) engine_db \<Rightarrow> bool" for reg where
  reach_init: "engine_init db \<Longrightarrow> engine_reachable reg db"
| reach_step: "engine_reachable reg db \<Longrightarrow> engine_step reg db db' \<Longrightarrow> engine_reachable reg db'"

text \<open>
  Whatever the call was, the tables change in one of six ways.
\<close>

datatype ('p, 'd) table_change =
    No_change
  | Filed "'p request_item"
  | Approved_step int "('p, 'd) decision_context" "string option" "string option" actor string
  | Turned_down int "('p, 'd) decision_context" "string option" actor string
  | Closed_by int "'p request_item" bool
  | Breached string int

definition change_ok :: "('p, 'd) registry \<Rightarrow> ('p, 'd) engine_db \<Rightarrow> ('p, 'd) table_change \<Rightarrow> bool" where
  "change_ok reg db c =
     (case c of
        No_change \<Rightarrow> True
      | Filed r \<Rightarrow>
          find_row ri_id (ri_id r) (items db) = None \<and> (\<forall>a \<in> set (approvals db). ap_requestId a \<noteq> ri_id r) \<and>
          ri_status r = Pending \<and> ri_currentStep r = 1 \<and> ri_resolvedAt r = None
      | Approved_step now ctx na note actor i \<Rightarrow>
          \<exists>env rid. approve_check env reg rid actor db = Inr ctx
      | Turned_down now ctx note actor i \<Rightarrow>
          \<exists>env rid. approve_check env reg rid actor db = Inr ctx
      | Closed_by now r byTime \<Rightarrow>
          find_row ri_id (ri_id r) (items db) = Some r \<and> is_open (ri_status r) \<and>
          (\<exists>def. registry_get reg (ri_type r) = Inr def)
      | Breached rid now \<Rightarrow> True)"

fun changed_items :: "('p, 'd) table_change \<Rightarrow> 'p request_item list \<Rightarrow> 'p request_item list" where
  "changed_items No_change t = t"
| "changed_items (Filed r) t = t @ [r]"
| "changed_items (Approved_step now ctx na note actor i) t =
     modify_row ri_id (ri_id (dc_request ctx)) (approve_item now ctx na note) t"
| "changed_items (Turned_down now ctx note actor i) t =
     modify_row ri_id (ri_id (dc_request ctx)) (reject_item now note) t"
| "changed_items (Closed_by now r byTime) t =
     modify_row ri_id (ri_id r) (if byTime then expire_item now else cancel_item now) t"
| "changed_items (Breached rid now) t = modify_row ri_id rid (breach_item now) t"

fun changed_approvals :: "('p, 'd) table_change \<Rightarrow> request_approval list \<Rightarrow> request_approval list" where
  "changed_approvals (Approved_step now ctx na note actor i) aps =
     aps @ [approval_row now i ctx Decision_approved note actor]"
| "changed_approvals (Turned_down now ctx note actor i) aps =
     aps @ [approval_row now i ctx Decision_rejected note actor]"
| "changed_approvals _ aps = aps"

text \<open>The decisions a change records about one request.\<close>

fun decision_log :: "('p, 'd) table_change \<Rightarrow> string \<Rightarrow> (int \<times> decision) list" where
  "decision_log (Approved_step now ctx na note actor i) rid =
     (if ri_id (dc_request ctx) = rid then [(ri_currentStep (dc_request ctx), Decision_approved)] else [])"
| "decision_log (Turned_down now ctx note actor i) rid =
     (if ri_id (dc_request ctx) = rid then [(ri_currentStep (dc_request ctx), Decision_rejected)] else [])"
| "decision_log _ rid = []"

lemma engine_step_change:
  assumes "engine_step reg db db'"
  obtains c where "change_ok reg db c" "items db' = changed_items c (items db)"
    "approvals db' = changed_approvals c (approvals db)"
  using assms
proof cases
  case (step_submit env i ty p actor opts r)
  from step_submit(1) show ?thesis
    by (rule submit_shape, intro that [of "Filed r"]) (use step_submit in \<open>auto simp: change_ok_def\<close>)
next
  case (step_approve env i rid nt actor)
  then obtain ctx where c: "approve_check env reg rid actor db = Inr ctx"
      and m: "approve_commit env i nt actor ctx db = Inr db'"
    by (auto simp: approve_def and_then_eq_Inr)
  from m obtain na where
      "items db' = modify_row ri_id (ri_id (dc_request ctx)) (approve_item (ev_now env) ctx na nt) (items db)"
      "approvals db' = approvals db @ [approval_row (ev_now env) i ctx Decision_approved nt actor]"
    by (rule approve_commit_shape)
  with c show ?thesis
    by (intro that [of "Approved_step (ev_now env) ctx na nt actor i"]) (auto simp: change_ok_def)
next
  case (step_reject env i rid nt actor)
  then obtain ctx where c: "approve_check env reg rid actor db = Inr ctx"
      and m: "reject_commit env i nt actor ctx db = Inr db'"
    by (auto simp: reject_def and_then_eq_Inr reject_check_is_approve_check)
  with reject_commit_shape [OF m] show ?thesis
    by (intro that [of "Turned_down (ev_now env) ctx nt actor i"]) (auto simp: change_ok_def)
next
  case (step_cancel env rid actor)
  then obtain ctx where c: "cancel_check env reg rid actor db = Inr ctx"
      and m: "cancel_commit env actor ctx db = Inr db'"
    by (auto simp: cancel_def and_then_eq_Inr)
  from c obtain r def where "find_row ri_id rid (items db) = Some r" "is_open (ri_status r)" "fst ctx = r"
      "registry_get reg (ri_type r) = Inr def"
    by (auto simp: cancel_check_Inr)
  with cancel_commit_shape [OF m] show ?thesis
    by (intro that [of "Closed_by (ev_now env) r False"])
      (auto simp: change_ok_def dest: find_row_Some)
next
  case (step_expire env rid)
  then obtain found where f: "expire_check reg rid db = Inr found"
      and m: "(case found of None \<Rightarrow> Inr db | Some ctx \<Rightarrow> expire_commit env ctx db) = Inr db'"
    by (auto simp: expire_def and_then_eq_Inr)
  show ?thesis
  proof (cases found)
    case None
    with m show ?thesis by (intro that [of No_change]) (auto simp: change_ok_def)
  next
    case (Some ctx)
    with f obtain r def where "find_row ri_id rid (items db) = Some r" "is_open (ri_status r)" "fst ctx = r"
        "registry_get reg (ri_type r) = Inr def"
      by (auto simp: expire_check_Some)
    moreover have "expire_commit env ctx db = Inr db'"
      using m Some by simp
    from expire_commit_shape [OF this] calculation show ?thesis
      by (intro that [of "Closed_by (ev_now env) r True"])
        (auto simp: change_ok_def dest: find_row_Some)
  qed
next
  case (step_breach now row)
  show ?thesis
  proof (cases "ri_slaDeadline row")
    case None
    with step_breach show ?thesis
      by (intro that [of No_change]) (auto simp: sla_breach_row_def change_ok_def)
  next
    case (Some t)
    with step_breach show ?thesis
      by (intro that [of "Breached (ri_id row) now"]) (auto simp: sla_breach_row_def change_ok_def)
  qed
next
  case (step_comment env i rid body actor c)
  then show ?thesis
    by (intro that [of No_change])
      (auto simp: add_comment_def and_then_eq_Inr Let_def change_ok_def)
next
  case step_other
  then show ?thesis by (intro that [of No_change]) (auto simp: change_ok_def)
qed

section \<open>The abstract lifecycle\<close>

text \<open>
  What a request is, seen from outside: waiting on a step, or closed with an outcome. A waiting
  request moves to the next step, or closes; a closed one does not move.
\<close>

datatype outcome = O_approved | O_rejected | O_cancelled | O_expired

datatype life = Waiting int | Closed outcome int

fun life_at :: "request_status \<Rightarrow> int \<Rightarrow> life" where
  "life_at Pending n = Waiting n"
| "life_at In_review n = Waiting n"
| "life_at Approved n = Closed O_approved n"
| "life_at Rejected n = Closed O_rejected n"
| "life_at Cancelled n = Closed O_cancelled n"
| "life_at Expired n = Closed O_expired n"

definition life_of :: "'p request_item \<Rightarrow> life" where
  "life_of r = life_at (ri_status r) (ri_currentStep r)"

inductive life_step :: "(int \<Rightarrow> bool) \<Rightarrow> life \<Rightarrow> life \<Rightarrow> bool" for final where
  "\<not> final n \<Longrightarrow> life_step final (Waiting n) (Waiting (n + 1))"
| "final n \<Longrightarrow> life_step final (Waiting n) (Closed O_approved n)"
| "outcome \<noteq> O_approved \<Longrightarrow> life_step final (Waiting n) (Closed outcome n)"

inductive_cases life_step_closedE: "life_step final (Closed outc n) l"

inductive_simps life_step_waiting: "life_step final (Waiting n) l"

lemma open_life: "is_open (ri_status r) \<Longrightarrow> life_of r = Waiting (ri_currentStep r)"
  by (cases "ri_status r") (auto simp: life_of_def)

lemma closed_life: "\<not> is_open (ri_status r) \<Longrightarrow> \<exists>outc. life_of r = Closed outc (ri_currentStep r)"
  by (cases "ri_status r") (auto simp: life_of_def)

text \<open>What a change does to one request: nothing but the breach mark, or one of the decisions.\<close>

definition item_change ::
    "('p, 'd) registry \<Rightarrow> ('p, 'd) table_change \<Rightarrow> 'p request_item \<Rightarrow> 'p request_item \<Rightarrow> bool" where
  "item_change reg c r r' \<longleftrightarrow>
     ((r' = r \<or> (\<exists>now. r' = breach_item now r)) \<and> decision_log c (ri_id r) = []) \<or>
     (is_open (ri_status r) \<and> (\<exists>def. registry_get reg (ri_type r) = Inr def) \<and>
       ((\<exists>def now ctx na note actor i. c = Approved_step now ctx na note actor i \<and>
           dc_request ctx = r \<and> dc_def ctx = def \<and>
           registry_get reg (ri_type r) = Inr def \<and> r' = approve_item now ctx na note r) \<or>
        (\<exists>now ctx note actor i. c = Turned_down now ctx note actor i \<and> dc_request ctx = r \<and>
           r' = reject_item now note r) \<or>
        (\<exists>now byTime. c = Closed_by now r byTime \<and>
           r' = (if byTime then expire_item now r else cancel_item now r))))"

lemma change_item:
  assumes "change_ok reg db c" and "find_row ri_id rid (items db) = Some r"
  obtains r' where "find_row ri_id rid (changed_items c (items db)) = Some r'" "filed r' = filed r"
    "item_change reg c r r'"
proof -
  have id: "ri_id r = rid"
    using assms(2) by (auto dest: find_row_Some)
  show ?thesis
  proof (cases c)
    case No_change
    with assms show ?thesis by (intro that [of r]) (auto simp: item_change_def)
  next
    case (Filed q)
    with assms show ?thesis
      by (intro that [of r]) (auto simp: find_row_append item_change_def)
  next
    case (Approved_step now ctx na nt actor i)
    with assms obtain env rid' where "approve_check env reg rid' actor db = Inr ctx"
      by (auto simp: change_ok_def)
    note q = approve_checkD [OF this]
    show ?thesis
    proof (cases "rid' = rid")
      case True
      with q assms(2) have "dc_request ctx = r" by simp
      with q id Approved_step assms(2) show ?thesis
        by (intro that [of "approve_item now ctx na nt r"]) (auto simp: item_table.lookup_modify item_change_def)
    next
      case False
      with q id Approved_step assms(2) show ?thesis
        by (intro that [of r]) (auto simp: item_table.lookup_modify item_change_def)
    qed
  next
    case (Turned_down now ctx nt actor i)
    with assms obtain env rid' where "approve_check env reg rid' actor db = Inr ctx"
      by (auto simp: change_ok_def)
    note q = approve_checkD [OF this]
    show ?thesis
    proof (cases "rid' = rid")
      case True
      with q assms(2) have "dc_request ctx = r" by simp
      with q id Turned_down assms(2) show ?thesis
        by (intro that [of "reject_item now nt r"]) (auto simp: item_table.lookup_modify item_change_def)
    next
      case False
      with q id Turned_down assms(2) show ?thesis
        by (intro that [of r]) (auto simp: item_table.lookup_modify item_change_def)
    qed
  next
    case (Closed_by now q byTime)
    with assms have q: "find_row ri_id (ri_id q) (items db) = Some q" "is_open (ri_status q)"
        "\<exists>def. registry_get reg (ri_type q) = Inr def"
      by (auto simp: change_ok_def)
    show ?thesis
    proof (cases "ri_id q = rid")
      case True
      with q assms(2) have "q = r" by simp
      with q id Closed_by assms(2) show ?thesis
        by (intro that [of "if byTime then expire_item now r else cancel_item now r"])
          (auto simp: item_table.lookup_modify item_change_def)
    next
      case False
      with q id Closed_by assms(2) show ?thesis
        by (intro that [of r]) (auto simp: item_table.lookup_modify item_change_def)
    qed
  next
    case (Breached rid' now)
    show ?thesis
    proof (cases "rid' = rid")
      case True
      with assms id Breached show ?thesis
        by (intro that [of "breach_item now r"]) (auto simp: item_table.lookup_modify item_change_def)
    next
      case False
      with assms id Breached show ?thesis
        by (intro that [of r]) (auto simp: item_table.lookup_modify item_change_def)
    qed
  qed
qed

lemma life_breach [simp]: "life_of (breach_item now r) = life_of r"
  by (simp add: life_of_def)

lemma change_life:
  assumes "change_ok reg db c" and "find_row ri_id rid (items db) = Some r"
  obtains r' where "find_row ri_id rid (changed_items c (items db)) = Some r'" "filed r' = filed r"
    "life_of r' = life_of r \<or>
     (\<exists>def. registry_get reg (ri_type r) = Inr def \<and>
        life_step (is_final_step def) (life_of r) (life_of r'))"
  using assms
proof (rule change_item)
  fix r'
  assume r': "find_row ri_id rid (changed_items c (items db)) = Some r'" "filed r' = filed r"
    and kind: "item_change reg c r r'"
  have step: "life_of r' = life_of r \<or>
     (\<exists>def. registry_get reg (ri_type r) = Inr def \<and>
        life_step (is_final_step def) (life_of r) (life_of r'))"
    using kind unfolding item_change_def
  proof (elim disjE conjE exE)
    assume op: "is_open (ri_status r)"
    fix def def' now ctx na nt actor i
    assume "dc_request ctx = r" "dc_def ctx = def'" "registry_get reg (ri_type r) = Inr def'"
      "r' = approve_item now ctx na nt r"
    then show ?thesis
      by (intro disjI2 exI [of _ def'])
        (simp add: open_life [OF op] life_step_waiting, simp add: life_of_def)
  next
    assume op: "is_open (ri_status r)"
    fix def now ctx nt actor i
    assume "r' = reject_item now nt r" and def: "registry_get reg (ri_type r) = Inr def"
    then have "life_of r' = Closed O_rejected (ri_currentStep r)"
      by (simp add: life_of_def)
    with def show ?thesis
      by (intro disjI2 exI [of _ def]) (simp add: open_life [OF op] life_step_waiting)
  next
    assume op: "is_open (ri_status r)"
    fix def now byTime
    assume "r' = (if byTime then expire_item now r else cancel_item now r)"
      and def: "registry_get reg (ri_type r) = Inr def"
    then have "life_of r' = Closed (if byTime then O_expired else O_cancelled) (ri_currentStep r)"
      by (simp add: life_of_def)
    with def show ?thesis
      by (intro disjI2 exI [of _ def]) (simp add: open_life [OF op] life_step_waiting)
  qed auto
  show thesis by (rule that [OF r' step])
qed

section \<open>Decided requests\<close>

definition decisions_of :: "('p, 'd) engine_db \<Rightarrow> string \<Rightarrow> (int \<times> decision) list" where
  "decisions_of db rid =
     map (\<lambda>a. (ap_step a, ap_decision a)) (filter (\<lambda>a. ap_requestId a = rid) (approvals db))"

definition outcome_of :: "'p request_item \<Rightarrow>
    (string \<times> string \<times> string \<times> 'p \<times> int \<times> int \<times> int option) \<times>
    request_status \<times> string option \<times> int option \<times> string option \<times> int" where
  "outcome_of r = (filed r, ri_status r, ri_assigneeId r, ri_resolvedAt r, ri_resolutionNote r, ri_currentStep r)"

lemma outcome_breach [simp]: "outcome_of (breach_item now r) = outcome_of r"
  by (simp add: outcome_of_def) (simp add: breach_item_def)

lemma change_closed:
  assumes ok: "change_ok reg db c" and r: "find_row ri_id rid (items db) = Some r"
    and closed: "\<not> is_open (ri_status r)"
  obtains r' where "find_row ri_id rid (changed_items c (items db)) = Some r'" "outcome_of r' = outcome_of r"
    "filter (\<lambda>a. ap_requestId a = rid) (changed_approvals c (approvals db)) =
     filter (\<lambda>a. ap_requestId a = rid) (approvals db)"
proof -
  obtain r' where r': "find_row ri_id rid (changed_items c (items db)) = Some r'"
      and "item_change reg c r r'"
    by (rule change_item [OF ok r])
  then have kind: "r' = r \<or> (\<exists>now. r' = breach_item now r)"
    using closed by (auto simp: item_change_def)
  have "filter (\<lambda>a. ap_requestId a = rid) (changed_approvals c (approvals db)) =
     filter (\<lambda>a. ap_requestId a = rid) (approvals db)"
  proof -
    have other: "ri_id (dc_request ctx) \<noteq> rid" if "approve_check env reg rid' actor db = Inr ctx"
      for env rid' actor and ctx :: "('a, 'b) decision_context"
      using approve_checkD(1,2,3) [OF that] r closed by auto
    show ?thesis
      using ok other by (cases c) (fastforce simp: change_ok_def approval_row_def)+
  qed
  with r' kind show thesis
    by (intro that [of r']) auto
qed

section \<open>What holds of every reachable state\<close>

text \<open>A row on its own: resolved exactly when closed, and a step count that starts at one.\<close>

definition item_ok :: "'p request_item \<Rightarrow> bool" where
  "item_ok r \<longleftrightarrow>
     (ri_resolvedAt r = None \<longleftrightarrow> is_open (ri_status r)) \<and> ri_currentStep r \<ge> 1 \<and>
     (ri_status r = Pending \<longrightarrow> ri_currentStep r = 1) \<and>
     (ri_status r = In_review \<longrightarrow> ri_currentStep r > 1)"

text \<open>The decisions a request in a given position must have on record.\<close>

definition steps_approved :: "int \<Rightarrow> (int \<times> decision) list" where
  "steps_approved n = map (\<lambda>k. (k, Decision_approved)) [1..n]"

definition expected_log :: "'p request_item \<Rightarrow> (int \<times> decision) list" where
  "expected_log r =
     (case ri_status r of
        Approved \<Rightarrow> steps_approved (ri_currentStep r)
      | Rejected \<Rightarrow> steps_approved (ri_currentStep r - 1) @ [(ri_currentStep r, Decision_rejected)]
      | _ \<Rightarrow> steps_approved (ri_currentStep r - 1))"

definition engine_inv :: "('p, 'd) registry \<Rightarrow> ('p, 'd) engine_db \<Rightarrow> bool" where
  "engine_inv reg db \<longleftrightarrow>
     keys_distinct ri_id (items db) \<and>
     (\<forall>r \<in> set (items db). item_ok r \<and> decisions_of db (ri_id r) = expected_log r \<and>
        (ri_status r = Approved \<longrightarrow>
           (\<exists>def. registry_get reg (ri_type r) = Inr def \<and> is_final_step def (ri_currentStep r)))) \<and>
     (\<forall>a \<in> set (approvals db). find_row ri_id (ap_requestId a) (items db) \<noteq> None)"

lemma steps_approved_snoc: "n \<ge> 0 \<Longrightarrow> steps_approved n @ [(n + 1, Decision_approved)] = steps_approved (n + 1)"
  by (simp add: steps_approved_def upto_rec2)

lemma expected_log_open: "is_open (ri_status r) \<Longrightarrow> expected_log r = steps_approved (ri_currentStep r - 1)"
  by (cases "ri_status r") (auto simp: expected_log_def)

lemma expected_log_breach [simp]: "expected_log (breach_item now r) = expected_log r"
  by (cases "ri_status r") (simp_all add: expected_log_def)

lemma item_ok_breach [simp]: "item_ok (breach_item now r) = item_ok r"
  by (simp add: item_ok_def)

lemma decisions_changed:
  "decisions_of (db\<lparr>approvals := changed_approvals c (approvals db)\<rparr>) rid =
     decisions_of db rid @ decision_log c rid"
  by (cases c) (auto simp: decisions_of_def approval_row_def)

lemma changed_distinct:
  "change_ok reg db c \<Longrightarrow> keys_distinct ri_id (items db) \<Longrightarrow> keys_distinct ri_id (changed_items c (items db))"
  by (cases c) (auto simp: change_ok_def item_table.wf_insert intro!: item_table.wf_modify)

lemma changed_origin:
  assumes "r' \<in> set (changed_items c (items db))"
  shows "c = Filed r' \<or> find_row ri_id (ri_id r') (items db) \<noteq> None"
proof (rule ccontr)
  assume n: "\<not> (c = Filed r' \<or> find_row ri_id (ri_id r') (items db) \<noteq> None)"
  have "ri_id r' \<notin> ri_id ` set (items db)"
    using n by (auto simp: find_row_None_iff)
  with assms n show False
    by (cases c) (auto simp: modify_row_def set_update_where image_iff split: if_splits)
qed

lemma found_changed:
  assumes "change_ok reg db c" and "find_row ri_id k (items db) \<noteq> None"
  shows "find_row ri_id k (changed_items c (items db)) \<noteq> None"
proof -
  obtain r where "find_row ri_id k (items db) = Some r" using assms(2) by auto
  then show ?thesis by (rule change_item [OF assms(1)]) simp
qed

lemma engine_inv_item:
  assumes inv: "engine_inv reg db" and ok: "change_ok reg db c"
    and r': "r' \<in> set (changed_items c (items db))"
  shows "item_ok r'"
    and "decisions_of (db\<lparr>approvals := changed_approvals c (approvals db)\<rparr>) (ri_id r') = expected_log r'"
    and "ri_status r' = Approved \<Longrightarrow>
      \<exists>def. registry_get reg (ri_type r') = Inr def \<and> is_final_step def (ri_currentStep r')"
proof -
  let ?dec = "decisions_of (db\<lparr>approvals := changed_approvals c (approvals db)\<rparr>)"
  have dist: "keys_distinct ri_id (items db)" and dist': "keys_distinct ri_id (changed_items c (items db))"
    using inv changed_distinct [OF ok] by (auto simp: engine_inv_def)
  have "item_ok r' \<and> ?dec (ri_id r') = expected_log r' \<and> (ri_status r' = Approved \<longrightarrow>
      (\<exists>def. registry_get reg (ri_type r') = Inr def \<and> is_final_step def (ri_currentStep r')))"
  proof (cases "c = Filed r'")
    case True
    with ok have "decisions_of db (ri_id r') = []"
      by (auto simp: change_ok_def decisions_of_def filter_empty_conv)
    moreover have "ri_status r' = Pending" "ri_currentStep r' = 1" "ri_resolvedAt r' = None"
      using ok True by (auto simp: change_ok_def)
    ultimately show ?thesis
      by (simp add: True decisions_changed item_ok_def expected_log_def steps_approved_def)
  next
    case False
    then obtain r where r: "find_row ri_id (ri_id r') (items db) = Some r"
      using changed_origin [OF r'] by auto
    have old: "item_ok r" "decisions_of db (ri_id r) = expected_log r" "ri_id r = ri_id r'"
      "ri_status r = Approved \<Longrightarrow> \<exists>def. registry_get reg (ri_type r) = Inr def \<and> is_final_step def (ri_currentStep r)"
      using inv find_row_Some [OF r] by (auto simp: engine_inv_def)
    have now: "find_row ri_id (ri_id r') (changed_items c (items db)) = Some r'"
      by (rule item_table.lookup_member [OF dist' r'])
    show ?thesis
      using ok r
    proof (rule change_item)
      fix q
      assume "find_row ri_id (ri_id r') (changed_items c (items db)) = Some q"
      then have [simp]: "q = r'" using now by simp
      assume "filed q = filed r"
      then have ty: "ri_type r' = ri_type r" by (simp add: filed_def)
      assume kind: "item_change reg c r q"
      show ?thesis
        using kind unfolding item_change_def
      proof (elim disjE conjE exE)
        assume op: "is_open (ri_status r)"
        fix def def' now ctx na nt actor i
        assume c: "c = Approved_step now ctx na nt actor i" "dc_request ctx = r" and def': "dc_def ctx = def'"
          "registry_get reg (ri_type r) = Inr def'" and "q = approve_item now ctx na nt r"
        then have r'_eq: "r' = approve_item now ctx na nt r" by simp
        have pos: "1 \<le> ri_currentStep r" using old(1) by (simp add: item_ok_def)
        have log: "decisions_of (db\<lparr>approvals := changed_approvals c (approvals db)\<rparr>) (ri_id r') =
            steps_approved (ri_currentStep r)"
          using steps_approved_snoc [of "ri_currentStep r - 1"] pos c old(2) expected_log_open [OF op]
          unfolding decisions_changed by (simp flip: old(3))
        show ?thesis
        proof (cases "is_final_step def' (ri_currentStep r)")
          case True
          then show ?thesis
            using log pos c def' ty
            by (simp add: r'_eq item_ok_def expected_log_def)
        next
          case False
          then show ?thesis
            using log pos c def' by (simp add: r'_eq item_ok_def expected_log_def)
        qed
      next
        assume op: "is_open (ri_status r)"
        fix def now ctx nt actor i
        assume c: "c = Turned_down now ctx nt actor i" "dc_request ctx = r" and "q = reject_item now nt r"
        then have r'_eq: "r' = reject_item now nt r" by simp
        have pos: "1 \<le> ri_currentStep r" using old(1) by (simp add: item_ok_def)
        have log: "decisions_of (db\<lparr>approvals := changed_approvals c (approvals db)\<rparr>) (ri_id r') =
            steps_approved (ri_currentStep r - 1) @ [(ri_currentStep r, Decision_rejected)]"
          using c old(2) expected_log_open [OF op] unfolding decisions_changed by (simp flip: old(3))
        show ?thesis
          using log pos by (simp add: r'_eq item_ok_def expected_log_def)
      next
        assume op: "is_open (ri_status r)"
        fix def now byTime
        assume c: "c = Closed_by now r byTime" and "q = (if byTime then expire_item now r else cancel_item now r)"
        then have r'_eq: "r' = (if byTime then expire_item now r else cancel_item now r)" by simp
        have pos: "1 \<le> ri_currentStep r" using old(1) by (simp add: item_ok_def)
        have log: "decisions_of (db\<lparr>approvals := changed_approvals c (approvals db)\<rparr>) (ri_id r') =
            steps_approved (ri_currentStep r - 1)"
          using c old(2) expected_log_open [OF op] unfolding decisions_changed by (simp flip: old(3))
        show ?thesis
          using log pos by (cases byTime) (simp_all add: r'_eq item_ok_def expected_log_def)
      next
        assume c: "decision_log c (ri_id r) = []" and "q = r"
        then have r'_eq: "r' = r" by simp
        show ?thesis
          unfolding r'_eq decisions_changed c using old(1,2,4) by simp
      next
        fix now
        assume c: "decision_log c (ri_id r) = []" and "q = breach_item now r"
        then have r'_eq: "r' = breach_item now r" by simp
        have log: "decisions_of (db\<lparr>approvals := changed_approvals c (approvals db)\<rparr>) (ri_id r') = expected_log r"
          using c old(2) unfolding decisions_changed by (simp flip: old(3))
        have ty': "ri_type (breach_item now r) = ri_type r"
          using ty r'_eq by simp
        show ?thesis
          using log old(1,4) unfolding r'_eq by (simp add: ty')
      qed
    qed
  qed
  then show "item_ok r'" "?dec (ri_id r') = expected_log r'"
    "ri_status r' = Approved \<Longrightarrow>
      \<exists>def. registry_get reg (ri_type r') = Inr def \<and> is_final_step def (ri_currentStep r')"
    by auto
qed

lemma engine_inv_change:
  assumes inv: "engine_inv reg db" and ok: "change_ok reg db c"
    and items': "items db' = changed_items c (items db)"
    and approvals': "approvals db' = changed_approvals c (approvals db)"
  shows "engine_inv reg db'"
proof -
  have dist: "keys_distinct ri_id (items db')"
    using inv changed_distinct [OF ok] by (auto simp: engine_inv_def items')
  have dec: "decisions_of db' = decisions_of (db\<lparr>approvals := changed_approvals c (approvals db)\<rparr>)"
    by (rule ext) (simp add: decisions_of_def approvals')
  have linked: "find_row ri_id (ap_requestId a) (items db') \<noteq> None" if "a \<in> set (approvals db')" for a
  proof (cases "a \<in> set (approvals db)")
    case True
    then have "find_row ri_id (ap_requestId a) (items db) \<noteq> None"
      using inv by (auto simp: engine_inv_def)
    then show ?thesis unfolding items' by (rule found_changed [OF ok])
  next
    case False
    have about: "find_row ri_id (ri_id (dc_request ctx)) (items db) \<noteq> None"
      if "approve_check env reg rid actor db = Inr ctx" for env rid actor ctx
      using approve_checkD(1,2) [OF that] by simp
    have "find_row ri_id (ap_requestId a) (items db) \<noteq> None"
      using that False ok about unfolding approvals'
      by (cases c) (fastforce simp: change_ok_def approval_row_def)+
    then show ?thesis unfolding items' by (rule found_changed [OF ok])
  qed
  show ?thesis
    unfolding engine_inv_def dec
    using dist linked engine_inv_item [OF inv ok] by (simp add: items')
qed

lemma engine_inv_step: "engine_inv reg db \<Longrightarrow> engine_step reg db db' \<Longrightarrow> engine_inv reg db'"
  by (metis engine_step_change engine_inv_change)

lemma engine_inv_init: "engine_init db \<Longrightarrow> engine_inv reg db"
  by (simp add: engine_init_def engine_inv_def keys_distinct_def)

lemma engine_inv_reachable: "engine_reachable reg db \<Longrightarrow> engine_inv reg db"
  by (induction rule: engine_reachable.induct) (auto intro: engine_inv_init engine_inv_step)

section \<open>Checks and transactions interleaved\<close>

datatype ('p, 'd) flight =
    Approving "('p, 'd) decision_context" "string option" actor
  | Rejecting "('p, 'd) decision_context" "string option" actor
  | Cancelling "'p request_item \<times> ('p, 'd) type_def" actor
  | Expiring "'p request_item \<times> ('p, 'd) type_def"

fun commit_flight ::
    "request_env \<Rightarrow> string \<Rightarrow> ('p, 'd) flight \<Rightarrow> ('p, 'd) engine_db \<Rightarrow> ('p, 'd) engine_db result" where
  "commit_flight env i (Approving ctx note actor) db = approve_commit env i note actor ctx db"
| "commit_flight env i (Rejecting ctx note actor) db = reject_commit env i note actor ctx db"
| "commit_flight env i (Cancelling ctx actor) db = cancel_commit env actor ctx db"
| "commit_flight env i (Expiring ctx) db = expire_commit env ctx db"

type_synonym ('p, 'd) race_state = "('p, 'd) engine_db \<times> ('p, 'd) flight list"

inductive race_step :: "('p, 'd) registry \<Rightarrow> ('p, 'd) race_state \<Rightarrow> ('p, 'd) race_state \<Rightarrow> bool" for reg where
  race_call: "engine_step reg db db' \<Longrightarrow> race_step reg (db, fl) (db', fl)"
| race_begin_approve:
    "approve_check env reg rid actor db = Inr ctx \<Longrightarrow>
     race_step reg (db, fl) (db, fl @ [Approving ctx note actor])"
| race_begin_reject:
    "reject_check env reg rid actor db = Inr ctx \<Longrightarrow>
     race_step reg (db, fl) (db, fl @ [Rejecting ctx note actor])"
| race_begin_cancel:
    "cancel_check env reg rid actor db = Inr c \<Longrightarrow> race_step reg (db, fl) (db, fl @ [Cancelling c actor])"
| race_begin_expire:
    "expire_check reg rid db = Inr (Some c) \<Longrightarrow> race_step reg (db, fl) (db, fl @ [Expiring c])"
| race_commit:
    "f \<in> set fl \<Longrightarrow> commit_flight env i f db = Inr db' \<Longrightarrow> race_step reg (db, fl) (db', remove1 f fl)"
| race_abort:
    "f \<in> set fl \<Longrightarrow> commit_flight env i f db = Inl e \<Longrightarrow> race_step reg (db, fl) (db, remove1 f fl)"

inductive race_reachable :: "('p, 'd) registry \<Rightarrow> ('p, 'd) race_state \<Rightarrow> bool" for reg where
  race_init: "engine_init db \<Longrightarrow> race_reachable reg (db, [])"
| race_next: "race_reachable reg s \<Longrightarrow> race_step reg s s' \<Longrightarrow> race_reachable reg s'"

text \<open>Separation of duties, read off the approval log.\<close>

definition answered_for :: "request_approval \<Rightarrow> string" where
  "answered_for a = (case ap_delegatedFromId a of None \<Rightarrow> ap_approverId a | Some d \<Rightarrow> d)"

definition duties_separated :: "('p, 'd) registry \<Rightarrow> 'p request_item list \<Rightarrow> request_approval \<Rightarrow> bool" where
  "duties_separated reg t a \<longleftrightarrow>
     (\<exists>r def. find_row ri_id (ap_requestId a) t = Some r \<and> registry_get reg (ri_type r) = Inr def \<and>
        (td_allowSelfApproval def \<or> ri_requesterId r \<noteq> answered_for a))"

text \<open>A request read earlier is still there, with what was filed, at whatever position.\<close>

definition seen :: "'p request_item list \<Rightarrow> 'p request_item \<Rightarrow> bool" where
  "seen t q \<longleftrightarrow> ri_currentStep q \<ge> 1 \<and> (\<exists>r. find_row ri_id (ri_id q) t = Some r \<and> filed r = filed q)"

definition context_ok :: "('p, 'd) registry \<Rightarrow> 'p request_item list \<Rightarrow> ('p, 'd) decision_context \<Rightarrow> actor \<Rightarrow> bool" where
  "context_ok reg t ctx actor \<longleftrightarrow>
     seen t (dc_request ctx) \<and> registry_get reg (ri_type (dc_request ctx)) = Inr (dc_def ctx) \<and>
     (td_allowSelfApproval (dc_def ctx) \<or> ri_requesterId (dc_request ctx) \<noteq> sod_subject (dc_delegation ctx) actor)"

fun flight_ok :: "('p, 'd) registry \<Rightarrow> 'p request_item list \<Rightarrow> ('p, 'd) flight \<Rightarrow> bool" where
  "flight_ok reg t (Approving ctx note actor) = context_ok reg t ctx actor"
| "flight_ok reg t (Rejecting ctx note actor) = context_ok reg t ctx actor"
| "flight_ok reg t (Cancelling c actor) = seen t (fst c)"
| "flight_ok reg t (Expiring c) = seen t (fst c)"

definition race_inv :: "('p, 'd) registry \<Rightarrow> ('p, 'd) race_state \<Rightarrow> bool" where
  "race_inv reg s \<longleftrightarrow>
     keys_distinct ri_id (items (fst s)) \<and> (\<forall>r \<in> set (items (fst s)). item_ok r) \<and>
     (\<forall>a \<in> set (approvals (fst s)). duties_separated reg (items (fst s)) a) \<and>
     (\<forall>f \<in> set (snd s). flight_ok reg (items (fst s)) f)"

text \<open>
  Any table that keeps every filed request keeps what was seen and every separation on record.
\<close>

definition keeps_filed :: "'p request_item list \<Rightarrow> 'p request_item list \<Rightarrow> bool" where
  "keeps_filed t t' \<longleftrightarrow>
     (\<forall>k r. find_row ri_id k t = Some r \<longrightarrow> (\<exists>r'. find_row ri_id k t' = Some r' \<and> filed r' = filed r))"

lemma keeps_filed_refl [simp]: "keeps_filed t t"
  by (simp add: keeps_filed_def)

lemma keeps_filed_modify:
  assumes "\<And>r. filed (f r) = filed r"
  shows "keeps_filed t (modify_row ri_id k f t)"
proof -
  have key: "ri_id (f r) = ri_id r" for r
    using assms [of r] by (simp add: filed_def)
  show ?thesis
    unfolding keeps_filed_def item_table.lookup_modify [OF key] using assms by auto
qed

lemma keeps_filed_change: "change_ok reg db c \<Longrightarrow> keeps_filed (items db) (changed_items c (items db))"
  unfolding keeps_filed_def by (meson change_item)

lemma seen_keeps: "keeps_filed t t' \<Longrightarrow> seen t q \<Longrightarrow> seen t' q"
  unfolding keeps_filed_def seen_def by metis

lemma flight_ok_keeps: "keeps_filed t t' \<Longrightarrow> flight_ok reg t f \<Longrightarrow> flight_ok reg t' f"
  by (cases f) (auto simp: context_ok_def seen_keeps)

lemma duties_keeps:
  assumes k: "keeps_filed t t'" and d: "duties_separated reg t a"
  shows "duties_separated reg t' a"
proof -
  obtain r def where r: "find_row ri_id (ap_requestId a) t = Some r" "registry_get reg (ri_type r) = Inr def"
      "td_allowSelfApproval def \<or> ri_requesterId r \<noteq> answered_for a"
    using d by (auto simp: duties_separated_def)
  obtain r' where "find_row ri_id (ap_requestId a) t' = Some r'" "filed r' = filed r"
    using k r(1) by (auto simp: keeps_filed_def)
  with r show ?thesis by (auto simp: duties_separated_def filed_def)
qed

lemma context_duties:
  assumes c: "context_ok reg t ctx actor"
  shows "duties_separated reg t (approval_row now i ctx dec note actor)"
proof -
  obtain r where r: "find_row ri_id (ri_id (dc_request ctx)) t = Some r" "filed r = filed (dc_request ctx)"
    using c by (auto simp: context_ok_def seen_def)
  have "answered_for (approval_row now i ctx dec note actor) = sod_subject (dc_delegation ctx) actor"
    by (cases "dc_delegation ctx") (simp_all add: answered_for_def approval_row_def sod_subject_def)
  with r c show ?thesis
    by (auto simp: duties_separated_def context_ok_def filed_def approval_row_def)
qed

lemma item_ok_updates:
  "ri_currentStep (dc_request ctx) \<ge> 1 \<Longrightarrow> item_ok (approve_item now ctx na note r)"
  "item_ok r \<Longrightarrow> item_ok (reject_item now note r)"
  "item_ok r \<Longrightarrow> item_ok (cancel_item now r)"
  "item_ok r \<Longrightarrow> item_ok (expire_item now r)"
  by (simp_all add: item_ok_def)

lemma modify_row_all:
  "(\<And>r. P r \<Longrightarrow> P (f r)) \<Longrightarrow> \<forall>r \<in> set t. P r \<Longrightarrow> \<forall>r \<in> set (modify_row key k f t). P r"
  by (auto simp: modify_row_def set_update_where)

lemma item_found_ok:
  "\<forall>r \<in> set t. item_ok r \<Longrightarrow> find_row ri_id k t = Some r \<Longrightarrow> item_ok r"
  by (auto dest: find_row_Some)

lemma found_seen:
  "\<forall>r \<in> set t. item_ok r \<Longrightarrow> find_row ri_id k t = Some r \<Longrightarrow> seen t r"
  using item_found_ok [of t k r] by (auto simp: seen_def item_ok_def dest: find_row_Some)

lemma approve_check_context:
  assumes ok: "\<forall>r \<in> set (items db). item_ok r" and c: "approve_check env reg rid actor db = Inr ctx"
  shows "context_ok reg (items db) ctx actor"
  using approve_checkD [OF c] item_found_ok [OF ok]
  by (auto simp: context_ok_def seen_def item_ok_def)

lemma race_inv_change:
  assumes inv: "race_inv reg (db, fl)" and ok: "change_ok reg db c"
    and items': "items db' = changed_items c (items db)"
    and approvals': "approvals db' = changed_approvals c (approvals db)"
  shows "race_inv reg (db', fl)"
proof -
  have i: "keys_distinct ri_id (items db)" "\<forall>r \<in> set (items db). item_ok r"
      "\<forall>a \<in> set (approvals db). duties_separated reg (items db) a"
      "\<forall>f \<in> set fl. flight_ok reg (items db) f"
    using inv by (auto simp: race_inv_def)
  have keep: "keeps_filed (items db) (items db')"
    unfolding items' by (rule keeps_filed_change [OF ok])
  have ctx: "context_ok reg (items db) ctx actor"
    if "c = Approved_step now ctx na nt actor j \<or> c = Turned_down now ctx nt actor j"
    for now ctx na nt actor j
    using that ok approve_check_context [OF i(2)] by (auto simp: change_ok_def)
  have "\<forall>r \<in> set (items db'). item_ok r"
    unfolding items'
  proof (cases c)
    case (Approved_step now ctx na nt actor j)
    then have "ri_currentStep (dc_request ctx) \<ge> 1"
      using ctx by (auto simp: context_ok_def seen_def)
    with Approved_step show "\<forall>r \<in> set (changed_items c (items db)). item_ok r"
      using i(2) by (auto simp: modify_row_def set_update_where item_ok_updates)
  qed (use i(2) ok in \<open>auto simp: modify_row_def set_update_where item_ok_updates change_ok_def item_ok_def
         [of r for r] split: if_splits\<close>)
  moreover have "\<forall>a \<in> set (approvals db'). duties_separated reg (items db') a"
  proof
    fix a assume "a \<in> set (approvals db')"
    then have "duties_separated reg (items db) a"
      unfolding approvals' using i(3) ctx by (cases c) (auto intro: context_duties)
    then show "duties_separated reg (items db') a" by (rule duties_keeps [OF keep])
  qed
  moreover have "keys_distinct ri_id (items db')"
    unfolding items' by (rule changed_distinct [OF ok i(1)])
  moreover have "\<forall>f \<in> set fl. flight_ok reg (items db') f"
    using i(4) by (auto intro: flight_ok_keeps [OF keep])
  ultimately show ?thesis
    by (auto simp: race_inv_def)
qed

text \<open>A transaction that runs late: what it may assume is only what was seen.\<close>

lemma race_inv_commit:
  assumes inv: "race_inv reg (db, fl)" and f: "f \<in> set fl" and m: "commit_flight env j f db = Inr db'"
  shows "race_inv reg (db', remove1 f fl)"
proof -
  have i: "keys_distinct ri_id (items db)" "\<forall>r \<in> set (items db). item_ok r"
      "\<forall>a \<in> set (approvals db). duties_separated reg (items db) a"
      "\<forall>f \<in> set fl. flight_ok reg (items db) f"
    using inv by (auto simp: race_inv_def)
  have fok: "flight_ok reg (items db) f" using i(4) f by auto
  obtain g k where g: "items db' = modify_row ri_id k g (items db)" "\<And>r. filed (g r) = filed r"
      "\<And>r. item_ok r \<Longrightarrow> item_ok (g r)"
    and a: "\<forall>x \<in> set (approvals db'). x \<in> set (approvals db) \<or> duties_separated reg (items db) x"
  proof (cases f)
    case (Approving ctx nt actor)
    with m have "approve_commit env j nt actor ctx db = Inr db'" by simp
    then show thesis
    proof (rule approve_commit_shape)
      fix na
      assume "items db' = modify_row ri_id (ri_id (dc_request ctx)) (approve_item (ev_now env) ctx na nt) (items db)"
        "approvals db' = approvals db @ [approval_row (ev_now env) j ctx Decision_approved nt actor]"
      moreover have cx: "context_ok reg (items db) ctx actor" using fok Approving by simp
      then have pos: "ri_currentStep (dc_request ctx) \<ge> 1" by (simp add: context_ok_def seen_def)
      ultimately show thesis
        by (intro that [of "ri_id (dc_request ctx)" "approve_item (ev_now env) ctx na nt"])
          (auto intro: item_ok_updates(1) [OF pos] context_duties [OF cx])
    qed
  next
    case (Rejecting ctx nt actor)
    with m have "reject_commit env j nt actor ctx db = Inr db'" by simp
    from reject_commit_shape [OF this] fok Rejecting show thesis
      by (intro that [of "ri_id (dc_request ctx)" "reject_item (ev_now env) nt"])
        (auto intro: item_ok_updates context_duties)
  next
    case (Cancelling c actor)
    with m have "cancel_commit env actor c db = Inr db'" by simp
    from cancel_commit_shape [OF this] show thesis
      by (intro that [of "ri_id (fst c)" "cancel_item (ev_now env)"]) (auto intro: item_ok_updates)
  next
    case (Expiring c)
    with m have "expire_commit env c db = Inr db'" by simp
    from expire_commit_shape [OF this] show thesis
      by (intro that [of "ri_id (fst c)" "expire_item (ev_now env)"]) (auto intro: item_ok_updates)
  qed
  have key: "ri_id (g r) = ri_id r" for r using g(2) [of r] by (simp add: filed_def)
  have keep: "keeps_filed (items db) (items db')"
    unfolding g(1) by (rule keeps_filed_modify) (rule g(2))
  have "keys_distinct ri_id (items db')"
    unfolding g(1) by (rule item_table.wf_modify [OF key i(1)])
  moreover have "\<forall>r \<in> set (items db'). item_ok r"
    unfolding g(1) by (rule modify_row_all [OF g(3) i(2)])
  moreover have "\<forall>x \<in> set (approvals db'). duties_separated reg (items db') x"
    using a i(3) duties_keeps [OF keep] by blast
  moreover have "\<forall>f' \<in> set (remove1 f fl). flight_ok reg (items db') f'"
    using i(4) by (auto intro: flight_ok_keeps [OF keep] dest: set_remove1_subset [THEN subsetD])
  ultimately show ?thesis by (simp add: race_inv_def)
qed

lemma race_inv_step: "race_inv reg s \<Longrightarrow> race_step reg s s' \<Longrightarrow> race_inv reg s'"
proof -
  assume inv: "race_inv reg s" and step: "race_step reg s s'"
  from step show "race_inv reg s'"
  proof cases
    case (race_call db db' fl)
    from race_call(3) obtain c where "change_ok reg db c" "items db' = changed_items c (items db)"
        "approvals db' = changed_approvals c (approvals db)"
      by (rule engine_step_change)
    then show ?thesis using race_inv_change inv race_call by blast
  next
    case (race_begin_approve env rid actor db ctx fl nt)
    with inv show ?thesis by (auto simp: race_inv_def intro: approve_check_context)
  next
    case (race_begin_reject env rid actor db ctx fl nt)
    with inv show ?thesis
      by (auto simp: race_inv_def reject_check_is_approve_check intro: approve_check_context)
  next
    case (race_begin_cancel env rid actor db c fl)
    with inv show ?thesis
      by (auto simp: race_inv_def cancel_check_Inr intro: found_seen)
  next
    case (race_begin_expire rid db c fl)
    with inv show ?thesis
      by (auto simp: race_inv_def expire_check_Some intro: found_seen)
  next
    case (race_commit f fl env i db db')
    with inv race_inv_commit show ?thesis by blast
  next
    case (race_abort f fl env i db e)
    with inv show ?thesis
      by (auto simp: race_inv_def dest: set_remove1_subset [THEN subsetD])
  qed
qed

lemma race_inv_reachable: "race_reachable reg s \<Longrightarrow> race_inv reg s"
proof (induction rule: race_reachable.induct)
  case (race_init db)
  then show ?case by (simp add: race_inv_def engine_init_def keys_distinct_def)
qed (rule race_inv_step)

end
