(* ===== verification/RequestRaces.thy ===== *)
theory RequestRaces
  imports RequestSafety
begin

text \<open>
  What the approval log still says when checks and transactions of concurrent callers interleave
  (\<open>race_step\<close>): a request waits on a step only when every earlier step has an approval on record, and
  is approved only when its whole chain has. The order and the number of decisions may be wrong under
  races; this is the part that survives.
\<close>

definition recorded :: "request_approval list \<Rightarrow> string \<Rightarrow> int \<Rightarrow> bool" where
  "recorded aps rid n \<longleftrightarrow>
     (\<exists>a \<in> set aps. ap_requestId a = rid \<and> ap_step a = n \<and> ap_decision a = Decision_approved)"

definition steps_earned :: "request_approval list \<Rightarrow> 'p request_item \<Rightarrow> bool" where
  "steps_earned aps r \<longleftrightarrow> (\<forall>n. 1 \<le> n \<and> n < ri_currentStep r \<longrightarrow> recorded aps (ri_id r) n)"

definition chain_earned :: "('p, 'd) registry \<Rightarrow> request_approval list \<Rightarrow> 'p request_item \<Rightarrow> bool" where
  "chain_earned reg aps r \<longleftrightarrow>
     (ri_status r = Approved \<longrightarrow>
        recorded aps (ri_id r) (ri_currentStep r) \<and>
        (\<exists>def. registry_get reg (ri_type r) = Inr def \<and> is_final_step def (ri_currentStep r)))"

definition earned :: "('p, 'd) registry \<Rightarrow> request_approval list \<Rightarrow> 'p request_item \<Rightarrow> bool" where
  "earned reg aps r \<longleftrightarrow> steps_earned aps r \<and> chain_earned reg aps r"

fun flight_earned :: "('p, 'd) registry \<Rightarrow> request_approval list \<Rightarrow> ('p, 'd) flight \<Rightarrow> bool" where
  "flight_earned reg aps (Approving ctx note actor) = steps_earned aps (dc_request ctx)"
| "flight_earned reg aps (Rejecting ctx note actor) = True"
| "flight_earned reg aps (Cancelling c actor) = (registry_get reg (ri_type (fst c)) = Inr (snd c))"
| "flight_earned reg aps (Expiring c) = (registry_get reg (ri_type (fst c)) = Inr (snd c))"

definition races_earned :: "('p, 'd) registry \<Rightarrow> ('p, 'd) race_state \<Rightarrow> bool" where
  "races_earned reg s \<longleftrightarrow>
     (\<forall>r \<in> set (items (fst s)). earned reg (approvals (fst s)) r) \<and>
     (\<forall>f \<in> set (snd s). flight_earned reg (approvals (fst s)) f)"

section \<open>The log only grows\<close>

lemma recorded_mono: "set aps \<subseteq> set aps' \<Longrightarrow> recorded aps rid n \<Longrightarrow> recorded aps' rid n"
  by (auto simp: recorded_def)

lemma steps_earned_mono: "set aps \<subseteq> set aps' \<Longrightarrow> steps_earned aps r \<Longrightarrow> steps_earned aps' r"
  using recorded_mono [of aps aps'] by (simp add: steps_earned_def)

lemma chain_earned_mono: "set aps \<subseteq> set aps' \<Longrightarrow> chain_earned reg aps r \<Longrightarrow> chain_earned reg aps' r"
  using recorded_mono [of aps aps'] by (simp add: chain_earned_def)

lemma earned_mono: "set aps \<subseteq> set aps' \<Longrightarrow> earned reg aps r \<Longrightarrow> earned reg aps' r"
  using steps_earned_mono [of aps aps' r] chain_earned_mono [of aps aps' reg r] by (simp add: earned_def)

lemma flight_earned_mono: "set aps \<subseteq> set aps' \<Longrightarrow> flight_earned reg aps f \<Longrightarrow> flight_earned reg aps' f"
  by (cases f) (auto intro: steps_earned_mono)

lemma changed_approvals_grow: "set aps \<subseteq> set (changed_approvals c aps)"
  by (cases c) auto

lemma recorded_approval_row:
  "recorded (aps @ [approval_row now i ctx Decision_approved note actor])
     (ri_id (dc_request ctx)) (ri_currentStep (dc_request ctx))"
  by (auto simp: recorded_def approval_row_def)

section \<open>An approval earns its step\<close>

lemma item_type_updates [simp]:
  "ri_type (approve_item now ctx na note r) = ri_type r"
  "ri_type (reject_item now note r) = ri_type r"
  "ri_type (cancel_item now r) = ri_type r"
  "ri_type (expire_item now r) = ri_type r"
  "ri_type (breach_item now r) = ri_type r"
  by (simp_all add: approve_item_def reject_item_def cancel_item_def expire_item_def breach_item_def Let_def)

lemma approve_item_earned:
  assumes "steps_earned aps (dc_request ctx)" and "ri_id r = ri_id (dc_request ctx)"
    and "ri_type r = ri_type (dc_request ctx)"
    and "registry_get reg (ri_type (dc_request ctx)) = Inr (dc_def ctx)"
  shows "earned reg (aps @ [approval_row now i ctx Decision_approved note actor]) (approve_item now' ctx na note' r)"
proof -
  let ?aps = "aps @ [approval_row now i ctx Decision_approved note actor]"
  let ?n = "ri_currentStep (dc_request ctx)"
  have "recorded ?aps (ri_id (dc_request ctx)) ?n" by (rule recorded_approval_row)
  moreover have "recorded ?aps (ri_id (dc_request ctx)) k" if "1 \<le> k" "k < ?n" for k
    using assms(1) that recorded_mono [of aps ?aps] by (auto simp: steps_earned_def)
  ultimately have "recorded ?aps (ri_id (dc_request ctx)) k" if "1 \<le> k" "k \<le> ?n" for k
    using that by (cases "k = ?n") auto
  then show ?thesis
    using assms(2-4) \<open>recorded ?aps (ri_id (dc_request ctx)) ?n\<close>
    by (auto simp: earned_def steps_earned_def chain_earned_def)
qed

lemma closed_item_earned:
  "earned reg aps r \<Longrightarrow> earned reg aps (reject_item now note r)"
  "earned reg aps r \<Longrightarrow> earned reg aps (cancel_item now r)"
  "earned reg aps r \<Longrightarrow> earned reg aps (expire_item now r)"
  "earned reg aps r \<Longrightarrow> earned reg aps (breach_item now r)"
  by (auto simp: earned_def steps_earned_def chain_earned_def)

text \<open>
  The one argument both kinds of step need: a table updated at one key, a log that grew, and an
  update that earns its result on the row with that key.
\<close>

lemma earned_modify:
  assumes all: "\<forall>r \<in> set t. earned reg aps r" and sub: "set aps \<subseteq> set aps'"
    and one: "\<And>r. r \<in> set t \<Longrightarrow> ri_id r = k \<Longrightarrow> earned reg aps r \<Longrightarrow> earned reg aps' (g r)"
  shows "\<forall>r \<in> set (modify_row ri_id k g t). earned reg aps' r"
  using assms by (auto simp: modify_row_def set_update_where intro: earned_mono)

lemma approve_context_earned:
  assumes "approve_check env reg rid actor db = Inr ctx" and "\<forall>r \<in> set (items db). earned reg (approvals db) r"
  shows "steps_earned (approvals db) (dc_request ctx)"
  using approve_checkD(1) [OF assms(1)] assms(2) by (auto simp: earned_def dest: find_row_Some)

lemma seen_type:
  "keys_distinct ri_id t \<Longrightarrow> seen t q \<Longrightarrow> r \<in> set t \<Longrightarrow> ri_id r = ri_id q \<Longrightarrow> ri_type r = ri_type q"
  using find_row_eqI [of ri_id t r] by (auto simp: seen_def filed_def)

lemma earned_approve_table:
  assumes all: "\<forall>r \<in> set (items db). earned reg (approvals db) r" and keys: "keys_distinct ri_id (items db)"
    and ctx: "context_ok reg (items db) ctx actor" and steps: "steps_earned (approvals db) (dc_request ctx)"
  shows "\<forall>r \<in> set (modify_row ri_id (ri_id (dc_request ctx)) (approve_item now ctx na note) (items db)).
    earned reg (approvals db @ [approval_row now' i ctx Decision_approved note' actor']) r"
proof (rule earned_modify [OF all])
  fix r assume r: "r \<in> set (items db)" "ri_id r = ri_id (dc_request ctx)"
  have c: "seen (items db) (dc_request ctx)" "registry_get reg (ri_type (dc_request ctx)) = Inr (dc_def ctx)"
    using ctx by (auto simp: context_ok_def)
  show "earned reg (approvals db @ [approval_row now' i ctx Decision_approved note' actor'])
      (approve_item now ctx na note r)"
    by (rule approve_item_earned [OF steps r(2) seen_type [OF keys c(1) r] c(2)])
qed auto

section \<open>Every step keeps it\<close>

lemma races_earned_call:
  assumes inv: "races_earned reg (db, fl)" and race: "race_inv reg (db, fl)" and step: "engine_step reg db db'"
  shows "races_earned reg (db', fl)"
proof -
  obtain c where ok: "change_ok reg db c" and items': "items db' = changed_items c (items db)"
    and aps': "approvals db' = changed_approvals c (approvals db)"
    by (rule engine_step_change [OF step])
  have all: "\<forall>r \<in> set (items db). earned reg (approvals db) r" and fl: "\<forall>f \<in> set fl. flight_earned reg (approvals db) f"
    using inv by (auto simp: races_earned_def)
  have keys: "keys_distinct ri_id (items db)" and oks: "\<forall>r \<in> set (items db). item_ok r"
    using race by (auto simp: race_inv_def)
  have "\<forall>r \<in> set (changed_items c (items db)). earned reg (changed_approvals c (approvals db)) r"
  proof (cases c)
    case (Approved_step now ctx na nt actor i)
    then obtain env rid where chk: "approve_check env reg rid actor db = Inr ctx"
      using ok by (auto simp: change_ok_def)
    show ?thesis
      unfolding Approved_step changed_items.simps changed_approvals.simps
      by (rule earned_approve_table [OF all keys approve_check_context [OF oks chk]
          approve_context_earned [OF chk all]])
  next
    case (Filed r)
    then show ?thesis
      using all ok by (auto simp: change_ok_def earned_def steps_earned_def chain_earned_def)
  next
    case (Turned_down now ctx nt actor i)
    show ?thesis
      unfolding Turned_down changed_items.simps changed_approvals.simps
      by (rule earned_modify [OF all]) (auto intro: earned_mono [rotated] closed_item_earned)
  qed (use all in \<open>auto simp: modify_row_def set_update_where intro: closed_item_earned\<close>)
  moreover have "\<forall>f \<in> set fl. flight_earned reg (changed_approvals c (approvals db)) f"
    using fl flight_earned_mono [OF changed_approvals_grow] by blast
  ultimately show ?thesis by (simp add: races_earned_def items' aps')
qed

lemma races_earned_commit:
  assumes inv: "races_earned reg (db, fl)" and race: "race_inv reg (db, fl)" and f: "f \<in> set fl"
    and m: "commit_flight env j f db = Inr db'"
  shows "races_earned reg (db', remove1 f fl)"
proof -
  have all: "\<forall>r \<in> set (items db). earned reg (approvals db) r" and fl: "\<forall>f \<in> set fl. flight_earned reg (approvals db) f"
    using inv by (auto simp: races_earned_def)
  have keys: "keys_distinct ri_id (items db)" and fok: "flight_ok reg (items db) f"
    using race f by (auto simp: race_inv_def)
  have main: "set (approvals db) \<subseteq> set (approvals db') \<and> (\<forall>r \<in> set (items db'). earned reg (approvals db') r)"
  proof (cases f)
    case (Approving ctx nt actor)
    with m have "approve_commit env j nt actor ctx db = Inr db'" by simp
    then show ?thesis
    proof (rule approve_commit_shape)
      fix na
      assume i': "items db' = modify_row ri_id (ri_id (dc_request ctx)) (approve_item (ev_now env) ctx na nt) (items db)"
        and a': "approvals db' = approvals db @ [approval_row (ev_now env) j ctx Decision_approved nt actor]"
      have "context_ok reg (items db) ctx actor" "steps_earned (approvals db) (dc_request ctx)"
        using fok fl f Approving by auto
      from earned_approve_table [OF all keys this] show ?thesis unfolding i' a' by auto
    qed
  next
    case (Rejecting ctx nt actor)
    with m have "reject_commit env j nt actor ctx db = Inr db'" by simp
    note s = reject_commit_shape [OF this]
    show ?thesis unfolding s(1,2)
      by (intro conjI earned_modify [OF all]) (auto intro: earned_mono [rotated] closed_item_earned)
  next
    case (Cancelling c actor)
    with m have "cancel_commit env actor c db = Inr db'" by simp
    note s = cancel_commit_shape [OF this]
    show ?thesis unfolding s(1,2) by (intro conjI earned_modify [OF all]) (auto intro: closed_item_earned)
  next
    case (Expiring c)
    with m have "expire_commit env c db = Inr db'" by simp
    note s = expire_commit_shape [OF this]
    show ?thesis unfolding s(1,2) by (intro conjI earned_modify [OF all]) (auto intro: closed_item_earned)
  qed
  moreover have "\<forall>f' \<in> set (remove1 f fl). flight_earned reg (approvals db') f'"
    using fl main by (auto intro: flight_earned_mono dest: set_remove1_subset [THEN subsetD])
  ultimately show ?thesis by (simp add: races_earned_def)
qed

lemma races_earned_step:
  assumes "races_earned reg s" and "race_inv reg s" and "race_step reg s s'"
  shows "races_earned reg s'"
  using assms(3)
proof cases
  case (race_call db db' fl)
  with assms races_earned_call show ?thesis by blast
next
  case (race_begin_approve env rid actor db ctx fl nt)
  with assms(1) show ?thesis by (auto simp: races_earned_def intro: approve_context_earned)
next
  case (race_commit f fl env i db db')
  with assms races_earned_commit show ?thesis by blast
next
  case (race_abort f fl env i db e)
  with assms(1) show ?thesis by (auto simp: races_earned_def dest: set_remove1_subset [THEN subsetD])
qed (use assms(1) in \<open>auto simp: races_earned_def cancel_check_Inr expire_check_Some\<close>)

lemma races_earned_reachable: "race_reachable reg s \<Longrightarrow> races_earned reg s"
proof (induction rule: race_reachable.induct)
  case (race_init db)
  then show ?case by (simp add: races_earned_def engine_init_def)
next
  case (race_next s s')
  then show ?case using races_earned_step race_inv_reachable by blast
qed

section \<open>What every commit leaves in place\<close>

definition same_filings :: "'p request_item list \<Rightarrow> 'p request_item list \<Rightarrow> bool" where
  "same_filings t t' \<longleftrightarrow> (\<forall>r' \<in> set t'. \<exists>r \<in> set t. filed r' = filed r)"

lemma same_filings_modify:
  assumes "\<And>r. filed (f r) = filed r"
  shows "same_filings t (modify_row ri_id k f t)"
  unfolding same_filings_def
proof
  fix r' assume "r' \<in> set (modify_row ri_id k f t)"
  then obtain r where "r \<in> set t" "r' = (if ri_id r = k then f r else r)"
    by (auto simp: modify_row_def set_update_where)
  then show "\<exists>r \<in> set t. filed r' = filed r" using assms by (intro bexI [of _ r]) auto
qed

definition log_kept :: "('p, 'd) engine_db \<Rightarrow> ('p, 'd) engine_db \<Rightarrow> bool" where
  "log_kept db db' \<longleftrightarrow>
     keeps_filed (items db) (items db') \<and> same_filings (items db) (items db') \<and>
     set (approvals db) \<subseteq> set (approvals db')"

lemma log_kept_refl [simp]: "log_kept db db"
  by (auto simp: log_kept_def same_filings_def)

lemma commit_keeps:
  assumes "commit_flight env j f db = Inr db'"
  shows "log_kept db db'"
proof (cases f)
  case (Approving ctx nt actor)
  with assms have "approve_commit env j nt actor ctx db = Inr db'" by simp
  then show ?thesis
    by (rule approve_commit_shape) (auto simp: log_kept_def intro: keeps_filed_modify same_filings_modify)
next
  case (Rejecting ctx nt actor)
  with assms have "reject_commit env j nt actor ctx db = Inr db'" by simp
  from reject_commit_shape [OF this] show ?thesis
    by (auto simp: log_kept_def intro: keeps_filed_modify same_filings_modify)
next
  case (Cancelling c actor)
  with assms have "cancel_commit env actor c db = Inr db'" by simp
  from cancel_commit_shape [OF this] show ?thesis
    by (auto simp: log_kept_def intro: keeps_filed_modify same_filings_modify)
next
  case (Expiring c)
  with assms have "expire_commit env c db = Inr db'" by simp
  from expire_commit_shape [OF this] show ?thesis
    by (auto simp: log_kept_def intro: keeps_filed_modify same_filings_modify)
qed

lemma breach_keeps: "log_kept db (sla_breach_row now row db)"
  by (auto simp: log_kept_def sla_breach_row_def same_filings_def intro: keeps_filed_modify
      split: option.splits dest: same_filings_modify [THEN same_filings_def [THEN iffD1], THEN bspec, rotated])

section \<open>A decision and the request it read\<close>

text \<open>
  A call in flight carries the request as its check read it. The request was open then and its type is
  registered, so the transaction writes what that reading says: for an approval the step it read, for
  the other decisions the outcome, at whatever step the row stands by then.
\<close>

fun flight_request :: "('p, 'd) flight \<Rightarrow> 'p request_item" where
  "flight_request (Approving ctx note actor) = dc_request ctx"
| "flight_request (Rejecting ctx note actor) = dc_request ctx"
| "flight_request (Cancelling c actor) = fst c"
| "flight_request (Expiring c) = fst c"

text \<open>What the check of a call found: the same check on the row it read gives the same result.\<close>

fun flight_checked :: "('p, 'd) registry \<Rightarrow> ('p, 'd) flight \<Rightarrow> bool" where
  "flight_checked reg (Approving ctx note actor) =
     (\<exists>env db. approve_check env reg (ri_id (dc_request ctx)) actor db = Inr ctx)"
| "flight_checked reg (Rejecting ctx note actor) =
     (\<exists>env db. approve_check env reg (ri_id (dc_request ctx)) actor db = Inr ctx)"
| "flight_checked reg (Cancelling c actor) =
     (is_open (ri_status (fst c)) \<and> registry_get reg (ri_type (fst c)) = Inr (snd c))"
| "flight_checked reg (Expiring c) =
     (is_open (ri_status (fst c)) \<and> registry_get reg (ri_type (fst c)) = Inr (snd c))"

lemma flight_checkedD:
  assumes "flight_checked reg f"
  shows "is_open (ri_status (flight_request f))" "\<exists>def. registry_get reg (ri_type (flight_request f)) = Inr def"
  using assms by (cases f; auto dest: approve_checkD(3,4))+

lemma flight_ok_seen: "flight_ok reg t f \<Longrightarrow> seen t (flight_request f)"
  by (cases f) (auto simp: context_ok_def)

lemma flights_checked_step:
  assumes "race_step reg s s'" and "\<forall>f \<in> set (snd s). flight_checked reg f"
  shows "\<forall>f \<in> set (snd s'). flight_checked reg f"
  using assms
proof cases
  case (race_begin_approve env rid actor db ctx fl nt)
  with assms(2) show ?thesis by (auto dest: approve_checkD(2))
next
  case (race_begin_reject env rid actor db ctx fl nt)
  with assms(2) show ?thesis by (auto simp: reject_check_is_approve_check dest: approve_checkD(2))
qed (auto simp: cancel_check_Inr expire_check_Some dest: set_remove1_subset [THEN subsetD])

lemma flights_checked_reachable:
  "race_reachable reg s \<Longrightarrow> \<forall>f \<in> set (snd s). flight_checked reg f"
proof (induction rule: race_reachable.induct)
  case (race_next s s')
  then show ?case using flights_checked_step by blast
qed simp

section \<open>The lifecycle when decisions run late\<close>

text \<open>
  One decision, made on a reading \<open>l\<close> of the request and written over what the request is by then: an
  approval moves it past the step that was read, or closes it there; any other decision closes it at
  the step it stands on. On an up-to-date reading this is a step of the abstract lifecycle.
\<close>

fun stage :: "life \<Rightarrow> int" where
  "stage (Waiting n) = n"
| "stage (Closed outc n) = n"

inductive decision_step :: "(int \<Rightarrow> bool) \<Rightarrow> life \<Rightarrow> life \<Rightarrow> life \<Rightarrow> bool" for final where
  decide_advance: "\<not> final n \<Longrightarrow> decision_step final (Waiting n) cur (Waiting (n + 1))"
| decide_approve: "final n \<Longrightarrow> decision_step final (Waiting n) cur (Closed O_approved n)"
| decide_close: "outc \<noteq> O_approved \<Longrightarrow> decision_step final (Waiting n) cur (Closed outc (stage cur))"

lemma decision_step_now: "decision_step final l l l' \<longleftrightarrow> life_step final l l'"
  by (auto simp: decision_step.simps life_step.simps)

text \<open>The readings of a request that calls in flight still hold.\<close>

definition readings :: "string \<Rightarrow> ('p, 'd) flight list \<Rightarrow> life set" where
  "readings rid fl = {life_of (flight_request f) | f. f \<in> set fl \<and> ri_id (flight_request f) = rid}"

lemma no_readings: "\<forall>f \<in> set fl. ri_id (flight_request f) \<noteq> rid \<Longrightarrow> readings rid fl = {}"
  by (auto simp: readings_def)

text \<open>What the transaction of a call does to the table: one row, the one it read, is written over.\<close>

lemma commit_row:
  assumes "commit_flight env j f db = Inr db'" and "flight_checked reg f"
  obtains g where "items db' = modify_row ri_id (ri_id (flight_request f)) g (items db)"
    "\<And>r. filed (g r) = filed r"
    "\<And>r def. registry_get reg (ri_type (flight_request f)) = Inr def \<Longrightarrow>
       decision_step (is_final_step def) (life_of (flight_request f)) (life_of r) (life_of (g r))"
proof (cases f)
  case (Approving ctx nt actor)
  obtain env0 db0 where c: "approve_check env0 reg (ri_id (dc_request ctx)) actor db0 = Inr ctx"
    using assms(2) Approving by auto
  from assms(1) Approving have "approve_commit env j nt actor ctx db = Inr db'" by simp
  then show ?thesis
  proof (rule approve_commit_shape)
    fix na
    assume i: "items db' = modify_row ri_id (ri_id (dc_request ctx)) (approve_item (ev_now env) ctx na nt) (items db)"
    show ?thesis
      by (rule that [OF i [folded flight_request.simps(1) [of ctx nt actor, folded Approving]]])
        (use approve_checkD [OF c] open_life [OF approve_checkD(3) [OF c]] Approving
         in \<open>auto simp: life_of_def intro: decision_step.intros\<close>)
  qed
next
  case (Rejecting ctx nt actor)
  obtain env0 db0 where c: "approve_check env0 reg (ri_id (dc_request ctx)) actor db0 = Inr ctx"
    using assms(2) Rejecting by auto
  from assms(1) Rejecting have m: "reject_commit env j nt actor ctx db = Inr db'" by simp
  have close: "decision_step final (life_of (dc_request ctx)) (life_of r) (life_of (reject_item now nt r))"
    for final now and r :: "'a request_item"
    using decide_close [of O_rejected final "ri_currentStep (dc_request ctx)" "life_of r"]
    by (cases "ri_status r") (simp_all add: open_life [OF approve_checkD(3) [OF c]], simp_all add: life_of_def)
  show ?thesis
    by (rule that [of "reject_item (ev_now env) nt"]) (use reject_commit_shape [OF m] close Rejecting in auto)
next
  case (Cancelling c actor)
  have op: "is_open (ri_status (fst c))" using assms(2) Cancelling by simp
  from assms(1) Cancelling have m: "cancel_commit env actor c db = Inr db'" by simp
  have close: "decision_step final (life_of (fst c)) (life_of r) (life_of (cancel_item now r))"
    for final now and r :: "'a request_item"
    using decide_close [of O_cancelled final "ri_currentStep (fst c)" "life_of r"]
    by (cases "ri_status r") (simp_all add: open_life [OF op], simp_all add: life_of_def)
  show ?thesis
    by (rule that [of "cancel_item (ev_now env)"]) (use cancel_commit_shape [OF m] close Cancelling in auto)
next
  case (Expiring c)
  have op: "is_open (ri_status (fst c))" using assms(2) Expiring by simp
  from assms(1) Expiring have m: "expire_commit env c db = Inr db'" by simp
  have close: "decision_step final (life_of (fst c)) (life_of r) (life_of (expire_item now r))"
    for final now and r :: "'a request_item"
    using decide_close [of O_expired final "ri_currentStep (fst c)" "life_of r"]
    by (cases "ri_status r") (simp_all add: open_life [OF op], simp_all add: life_of_def)
  show ?thesis
    by (rule that [of "expire_item (ev_now env)"]) (use expire_commit_shape [OF m] close Expiring in auto)
qed

lemma race_life_step:
  assumes race: "race_reachable reg s" and step: "race_step reg s s'"
    and r: "find_row ri_id rid (items (fst s)) = Some r"
  shows "\<exists>r'. find_row ri_id rid (items (fst s')) = Some r' \<and> filed r' = filed r \<and>
    (life_of r' = life_of r \<or>
     (\<exists>def. registry_get reg (ri_type r) = Inr def \<and>
        (\<exists>l \<in> insert (life_of r) (readings rid (snd s)).
           decision_step (is_final_step def) l (life_of r) (life_of r'))))"
  using step
proof cases
  case (race_call db db' fl)
  obtain c where c: "change_ok reg db c" "items db' = changed_items c (items db)"
    by (rule engine_step_change [OF race_call(3)])
  have r': "find_row ri_id rid (items db) = Some r" using r race_call(1) by simp
  show ?thesis
    unfolding race_call(1,2) fst_conv snd_conv c(2)
    by (rule change_life [OF c(1) r']) (auto simp: decision_step_now)
next
  case (race_commit f fl env j db db')
  have f: "flight_checked reg f" "flight_ok reg (items db) f"
    using flights_checked_reachable [OF race] race_inv_reachable [OF race] race_commit(1,3)
    by (auto simp: race_inv_def)
  obtain g where g: "items db' = modify_row ri_id (ri_id (flight_request f)) g (items db)"
    "\<And>r. filed (g r) = filed r"
    "\<And>r def. registry_get reg (ri_type (flight_request f)) = Inr def \<Longrightarrow>
       decision_step (is_final_step def) (life_of (flight_request f)) (life_of r) (life_of (g r))"
    by (rule commit_row [OF race_commit(4) f(1)]) blast
  have key: "ri_id (g r) = ri_id r" for r using g(2) [of r] by (simp add: filed_def)
  have r': "find_row ri_id rid (items db) = Some r" using r race_commit(1) by simp
  show ?thesis
  proof (cases "ri_id (flight_request f) = rid")
    case True
    have "filed (flight_request f) = filed r"
      using flight_ok_seen [OF f(2)] r' True by (auto simp: seen_def)
    then have ty: "ri_type (flight_request f) = ri_type r" by (simp add: filed_def)
    obtain def where def: "registry_get reg (ri_type r) = Inr def"
      using flight_checkedD(2) [OF f(1)] ty by auto
    have "life_of (flight_request f) \<in> readings rid fl"
      using race_commit(3) True by (auto simp: readings_def)
    then show ?thesis
      using g(2,3) def ty r' True race_commit(1,2) by (auto simp: g(1) item_table.lookup_modify [OF key])
  next
    case False
    then show ?thesis using r' race_commit(2) by (simp add: g(1) item_table.lookup_modify [OF key])
  qed
qed (use r in auto)

section \<open>Decided requests\<close>

lemma begun_elsewhere:
  assumes step: "race_step reg s s'" and r: "find_row ri_id rid (items (fst s)) = Some r"
    and closed: "\<not> is_open (ri_status r)" and none: "\<forall>f \<in> set (snd s). ri_id (flight_request f) \<noteq> rid"
  shows "\<forall>f \<in> set (snd s'). ri_id (flight_request f) \<noteq> rid"
  using step
proof cases
  case (race_begin_approve env rid' actor db ctx fl nt)
  have "ri_id (dc_request ctx) \<noteq> rid"
    using approve_checkD(1-3) [OF race_begin_approve(3)] r closed race_begin_approve(1) by auto
  then show ?thesis using none race_begin_approve by auto
next
  case (race_begin_reject env rid' actor db ctx fl nt)
  have "approve_check env reg rid' actor db = Inr ctx"
    using race_begin_reject(3) by (simp add: reject_check_is_approve_check)
  then have "ri_id (dc_request ctx) \<noteq> rid"
    using approve_checkD(1-3) r closed race_begin_reject(1) by fastforce
  then show ?thesis using none race_begin_reject by auto
next
  case (race_begin_cancel env rid' actor db c fl)
  have c: "find_row ri_id rid' (items db) = Some (fst c)" "is_open (ri_status (fst c))"
    using race_begin_cancel(3) by (auto simp: cancel_check_Inr)
  have "ri_id (fst c) \<noteq> rid" using c find_row_Some [OF c(1)] r closed race_begin_cancel(1) by auto
  then show ?thesis using none race_begin_cancel by auto
next
  case (race_begin_expire rid' db c fl)
  have c: "find_row ri_id rid' (items db) = Some (fst c)" "is_open (ri_status (fst c))"
    using race_begin_expire(3) by (auto simp: expire_check_Some)
  have "ri_id (fst c) \<noteq> rid" using c find_row_Some [OF c(1)] r closed race_begin_expire(1) by auto
  then show ?thesis using none race_begin_expire by auto
qed (use none in \<open>auto dest: set_remove1_subset [THEN subsetD]\<close>)

lemma commit_elsewhere:
  assumes "commit_flight env j f db = Inr db'" and "ri_id (flight_request f) \<noteq> rid"
  shows "find_row ri_id rid (items db') = find_row ri_id rid (items db)" "decisions_of db' rid = decisions_of db rid"
proof -
  have same: "find_row ri_id rid (items db') = find_row ri_id rid (items db) \<and> decisions_of db' rid = decisions_of db rid"
  proof (cases f)
    case (Approving ctx nt actor)
    with assms(1) have "approve_commit env j nt actor ctx db = Inr db'" by simp
    then show ?thesis
      by (rule approve_commit_shape)
        (use assms(2) Approving in \<open>simp add: item_table.lookup_modify decisions_of_def approval_row_def\<close>)
  next
    case (Rejecting ctx nt actor)
    with assms(1) have "reject_commit env j nt actor ctx db = Inr db'" by simp
    from reject_commit_shape [OF this] show ?thesis
      using assms(2) Rejecting by (simp add: item_table.lookup_modify decisions_of_def approval_row_def)
  next
    case (Cancelling c actor)
    with assms(1) have "cancel_commit env actor c db = Inr db'" by simp
    from cancel_commit_shape [OF this] show ?thesis
      using assms(2) Cancelling by (simp add: item_table.lookup_modify decisions_of_def)
  next
    case (Expiring c)
    with assms(1) have "expire_commit env c db = Inr db'" by simp
    from expire_commit_shape [OF this] show ?thesis
      using assms(2) Expiring by (simp add: item_table.lookup_modify decisions_of_def)
  qed
  then show "find_row ri_id rid (items db') = find_row ri_id rid (items db)" "decisions_of db' rid = decisions_of db rid"
    by auto
qed

lemma decided_step:
  assumes step: "race_step reg s s'" and r: "find_row ri_id rid (items (fst s)) = Some r"
    and closed: "\<not> is_open (ri_status r)" and none: "\<forall>f \<in> set (snd s). ri_id (flight_request f) \<noteq> rid"
  obtains r' where "find_row ri_id rid (items (fst s')) = Some r'" "outcome_of r' = outcome_of r"
    "decisions_of (fst s') rid = decisions_of (fst s) rid"
  using step
proof cases
  case (race_call db db' fl)
  obtain c where c: "change_ok reg db c" "items db' = changed_items c (items db)"
      "approvals db' = changed_approvals c (approvals db)"
    by (rule engine_step_change [OF race_call(3)])
  have r0: "find_row ri_id rid (items db) = Some r" using r race_call(1) by simp
  obtain r2 where r2: "find_row ri_id rid (items db') = Some r2" "outcome_of r2 = outcome_of r"
    and log: "filter (\<lambda>a. ap_requestId a = rid) (approvals db') = filter (\<lambda>a. ap_requestId a = rid) (approvals db)"
    unfolding c(2,3) by (rule change_closed [OF c(1) r0 closed])
  show ?thesis using that [of r2] r2 log race_call(1,2) by (simp only: fst_conv decisions_of_def)
next
  case (race_commit f fl env j db db')
  then have "ri_id (flight_request f) \<noteq> rid" using none by auto
  with commit_elsewhere [OF race_commit(4) this] r that race_commit(1,2) show ?thesis by simp
qed (use r that in auto)

section \<open>Decisions that commit on the row they read\<close>

text \<open>
  The runs in which nothing else wrote a request between the check of a decision and its transaction.
  Different requests, and checks that come to nothing, interleave freely.
\<close>

definition unmoved :: "('p, 'd) flight \<Rightarrow> ('p, 'd) engine_db \<Rightarrow> bool" where
  "unmoved f db \<longleftrightarrow> find_row ri_id (ri_id (flight_request f)) (items db) = Some (flight_request f)"

inductive orderly_step :: "('p, 'd) registry \<Rightarrow> ('p, 'd) race_state \<Rightarrow> ('p, 'd) race_state \<Rightarrow> bool" for reg where
  orderly_call: "engine_step reg db db' \<Longrightarrow> orderly_step reg (db, fl) (db', fl)"
| orderly_quiet: "race_step reg (db, fl) (db, fl') \<Longrightarrow> orderly_step reg (db, fl) (db, fl')"
| orderly_commit:
    "f \<in> set fl \<Longrightarrow> unmoved f db \<Longrightarrow> commit_flight env i f db = Inr db' \<Longrightarrow>
     orderly_step reg (db, fl) (db', remove1 f fl)"

inductive orderly_reachable :: "('p, 'd) registry \<Rightarrow> ('p, 'd) race_state \<Rightarrow> bool" for reg where
  orderly_init: "engine_init db \<Longrightarrow> orderly_reachable reg (db, [])"
| orderly_next: "orderly_reachable reg s \<Longrightarrow> orderly_step reg s s' \<Longrightarrow> orderly_reachable reg s'"

lemma orderly_step_races: "orderly_step reg s s' \<Longrightarrow> race_step reg s s'"
  by (induction rule: orderly_step.induct) (auto intro: race_call race_commit)

lemma orderly_reachable_races: "orderly_reachable reg s \<Longrightarrow> race_reachable reg s"
  by (induction rule: orderly_reachable.induct) (auto intro: race_init race_next orderly_step_races)

lemma approve_check_row:
  "find_row ri_id rid (items db') = find_row ri_id rid (items db) \<Longrightarrow>
   approve_check env reg rid actor db' = approve_check env reg rid actor db"
  by (simp add: approve_check_def get_or_fail_def)

lemma rechecked:
  assumes "approve_check env reg (ri_id (dc_request ctx)) actor db0 = Inr ctx"
    and "find_row ri_id (ri_id (dc_request ctx)) (items db) = Some (dc_request ctx)"
  shows "approve_check env reg (ri_id (dc_request ctx)) actor db = Inr ctx"
  using assms approve_checkD(1) [OF assms(1)] approve_check_row [of "ri_id (dc_request ctx)" db db0] by simp

text \<open>Such a transaction changes the tables the way an undisturbed call does.\<close>

lemma unmoved_commit:
  assumes m: "commit_flight env j f db = Inr db'" and chk: "flight_checked reg f" and un: "unmoved f db"
  obtains c where "change_ok reg db c" "items db' = changed_items c (items db)"
    "approvals db' = changed_approvals c (approvals db)"
proof (cases f)
  case (Approving ctx nt actor)
  have c: "\<exists>env0. approve_check env0 reg (ri_id (dc_request ctx)) actor db = Inr ctx"
    using chk un rechecked Approving by (fastforce simp: unmoved_def)
  from m Approving have "approve_commit env j nt actor ctx db = Inr db'" by simp
  then show ?thesis
    by (rule approve_commit_shape) (rule that [of "Approved_step (ev_now env) ctx _ nt actor j"],
        use c in \<open>auto simp: change_ok_def\<close>)
next
  case (Rejecting ctx nt actor)
  have c: "\<exists>env0. approve_check env0 reg (ri_id (dc_request ctx)) actor db = Inr ctx"
    using chk un rechecked Rejecting by (fastforce simp: unmoved_def)
  from m Rejecting have "reject_commit env j nt actor ctx db = Inr db'" by simp
  from reject_commit_shape [OF this] c show ?thesis
    by (intro that [of "Turned_down (ev_now env) ctx nt actor j"]) (auto simp: change_ok_def)
next
  case (Cancelling c actor)
  from m Cancelling have "cancel_commit env actor c db = Inr db'" by simp
  from cancel_commit_shape [OF this] chk un Cancelling show ?thesis
    by (intro that [of "Closed_by (ev_now env) (fst c) False"]) (auto simp: change_ok_def unmoved_def)
next
  case (Expiring c)
  from m Expiring have "expire_commit env c db = Inr db'" by simp
  from expire_commit_shape [OF this] chk un Expiring show ?thesis
    by (intro that [of "Closed_by (ev_now env) (fst c) True"]) (auto simp: change_ok_def unmoved_def)
qed

lemma orderly_inv: "orderly_reachable reg s \<Longrightarrow> engine_inv reg (fst s)"
proof (induction rule: orderly_reachable.induct)
  case (orderly_init db)
  then show ?case by (simp add: engine_inv_init)
next
  case (orderly_next s s')
  note race = orderly_reachable_races [OF orderly_next(1)]
  from orderly_next(2) show ?case
  proof cases
    case (orderly_call db db' fl)
    then show ?thesis using orderly_next(3) engine_inv_step by auto
  next
    case (orderly_quiet db fl fl')
    then show ?thesis using orderly_next(3) by simp
  next
    case (orderly_commit f fl db env i db')
    have "flight_checked reg f"
      using flights_checked_reachable [OF race] orderly_commit(1,3) by auto
    then obtain c where c: "change_ok reg db c" "items db' = changed_items c (items db)"
        "approvals db' = changed_approvals c (approvals db)"
      by (rule unmoved_commit [OF orderly_commit(5) _ orderly_commit(4)])
    have "engine_inv reg db" using orderly_next(3) orderly_commit(1) by simp
    then show ?thesis using engine_inv_change [OF _ c] orderly_commit(2) by simp
  qed
qed

end
