(* ===== verification/RequestProperties.thy ===== *)
theory RequestProperties
  imports RequestRaces
begin

text \<open>
  The properties of the request engine: its lifecycle, the approval log, separation of duties with
  calls interleaved, the agreement of the gates with the screens that predict them, who is told, and
  the expiry sweep. A small registry and database give the concrete inputs of the witnesses.
\<close>

section \<open>A small system\<close>

definition ex_step :: "int \<Rightarrow> string \<Rightarrow> (string, unit) approval_step" where
  "ex_step n p = \<lparr>sp_step = n, sp_requiredPermission = p, sp_resolverFn = None\<rparr>"

definition ex_def :: "(string, unit) type_def" where
  "ex_def =
     \<lparr>td_type = ''purchase'', td_requiredApprovalPermission = ''request.approve'',
      td_allowSelfApproval = False, td_defaultExpiryHours = Some 72, td_slaHours = Some 48,
      td_approvalSteps = Some [ex_step 1 ''request.approve'', ex_step 2 ''workforce.approve''],
      td_onSubmit = None, td_onApprove = (\<lambda>p rid u now d. Inr d), td_onStepApproved = None,
      td_onReject = None, td_onCancel = None, td_onExpire = None\<rparr>"

definition ex_single :: "(string, unit) type_def" where
  "ex_single = ex_def\<lparr>td_type := ''leave'', td_approvalSteps := None\<rparr>"

definition ex_registry :: "(string, unit) registry" where
  "ex_registry = [ex_def, ex_single]"

definition ex_actor :: "string \<Rightarrow> actor" where
  "ex_actor u = \<lparr>ac_sub = u, ac_email = u @ ''@example''\<rparr>"

text \<open>Bob and Carol hold every permission; Dave delegates to Erin between the instants 0 and 100.\<close>

definition ex_env :: "int \<Rightarrow> request_env" where
  "ex_env now =
     \<lparr>ev_now = now, ev_check = (\<lambda>u p. u = ''bob'' \<or> u = ''carol'' \<or> u = ''dave''),
      ev_holders = (\<lambda>p. [''bob'', ''carol'', ''dave'']),
      ev_delegation = (\<lambda>u. if u = ''erin'' then Some \<lparr>de_id = ''d1'', de_fromUserId = ''dave'',
          de_toUserId = ''erin'', de_startsAt = 0, de_endsAt = 100, de_reason = None\<rparr> else None),
      ev_employee = (\<lambda>u. Some Employee_active)\<rparr>"

definition ex_empty :: "(string, unit) engine_db" where
  "ex_empty = \<lparr>items = [], approvals = [], comments = [], outbox = [], subscriptions = [],
               deliveries = [], domain_db = ()\<rparr>"

definition ex_submitted :: "string \<Rightarrow> string \<Rightarrow> (string, unit) engine_db" where
  "ex_submitted ty u =
     (case submit (ex_env 1) ex_registry ''r1'' ty ''payload'' (ex_actor u) no_options ex_empty of
        Inl e \<Rightarrow> ex_empty | Inr (r, db) \<Rightarrow> db)"

definition ex_item :: "string \<Rightarrow> string \<Rightarrow> string request_item" where
  "ex_item ty u = hd (items (ex_submitted ty u))"

lemmas ex_defs =
  ex_step_def ex_def_def ex_single_def ex_registry_def ex_actor_def ex_env_def ex_empty_def
  ex_submitted_def no_options_def ex_item_def

lemmas engine_defs =
  submit_def registry_get_def and_then_def Let_def notify_decision_makers_def notify_administrators_def
  decision_makers_def schedule_all_def schedule_def fanout_def deadline_after_def get_or_fail_def
  assert_approvable_def step_permission_def step_def_def allowed_for_def resolve_assignee_gate_def
  assignee_unavailable_def sod_subject_def approve_check_def approve_commit_def approve_def
  next_assignee_def is_final_step_def max_step_def approval_row_def approve_item_def modify_row_def
  fallback_note_def reject_check_def reject_commit_def reject_def reject_item_def cancel_check_def
  cancel_commit_def cancel_def cancel_item_def expire_check_def expire_commit_def expire_def expire_item_def

lemma ex_submit:
  "submit (ex_env 1) ex_registry ''r1'' ''purchase'' ''payload'' (ex_actor ''alice'') no_options ex_empty =
     Inr (ex_item ''purchase'' ''alice'', ex_submitted ''purchase'' ''alice'')"
  by (simp add: ex_defs submit_def registry_get_def Let_def)

lemma ex_submit_fields:
  "items (ex_submitted ''purchase'' ''alice'') = [ex_item ''purchase'' ''alice'']"
  "approvals (ex_submitted ''purchase'' ''alice'') = []"
  "ri_id (ex_item ''purchase'' ''alice'') = ''r1''"
  "ri_status (ex_item ''purchase'' ''alice'') = Pending"
  "ri_type (ex_item ''purchase'' ''alice'') = ''purchase''"
  "ri_requesterId (ex_item ''purchase'' ''alice'') = ''alice''"
  "ri_assigneeId (ex_item ''purchase'' ''alice'') = None"
  "ri_currentStep (ex_item ''purchase'' ''alice'') = 1"
  by (simp_all add: ex_defs submit_def registry_get_def Let_def)

lemma ex_reachable: "engine_reachable ex_registry (ex_submitted ''purchase'' ''alice'')"
  by (rule reach_step [OF reach_init step_submit [OF ex_submit]])
    (simp_all add: ex_empty_def engine_init_def)

text \<open>Bob approves the first step, Carol the second.\<close>

definition ex_first :: "(string, unit) engine_db" where
  "ex_first =
     (case approve (ex_env 2) ex_registry ''a1'' ''r1'' None (ex_actor ''bob'') (ex_submitted ''purchase'' ''alice'') of
        Inl e \<Rightarrow> ex_empty | Inr db \<Rightarrow> db)"

definition ex_second :: "(string, unit) engine_db" where
  "ex_second =
     (case approve (ex_env 3) ex_registry ''a2'' ''r1'' (Some ''fine'') (ex_actor ''carol'') ex_first of
        Inl e \<Rightarrow> ex_empty | Inr db \<Rightarrow> db)"

lemma ex_approve:
  "approve (ex_env 2) ex_registry ''a1'' ''r1'' None (ex_actor ''bob'') (ex_submitted ''purchase'' ''alice'') = Inr ex_first"
  "approve (ex_env 3) ex_registry ''a2'' ''r1'' (Some ''fine'') (ex_actor ''carol'') ex_first = Inr ex_second"
  by code_simp+

lemma ex_second_fields:
  "ri_id (hd (items ex_second)) = ''r1''"
  "ri_type (hd (items ex_second)) = ''purchase''"
  "ri_status (hd (items ex_second)) = Approved"
  "ri_requesterId (hd (items ex_second)) = ''alice''"
  "length (items ex_second) = 1"
  "map (\<lambda>a. (ap_requestId a, ap_step a, ap_decision a)) (approvals ex_second) =
     [(''r1'', 1, Decision_approved), (''r1'', 2, Decision_approved)]"
  by code_simp+

lemma ex_first_approval:
  "ap_requestId (hd (approvals ex_second)) = ''r1''"
  "ap_approverId (hd (approvals ex_second)) = ''bob''"
  "ap_delegatedFromId (hd (approvals ex_second)) = None"
  by code_simp+

lemma ex_second_reachable: "engine_reachable ex_registry ex_second"
  by (rule reach_step [OF reach_step [OF ex_reachable step_approve [OF ex_approve(1)]] step_approve [OF ex_approve(2)]])

lemma ex_second_item: "hd (items ex_second) \<in> set (items ex_second)"
  using ex_second_fields(5) by (cases "items ex_second") auto

section \<open>Lifecycle\<close>

lemma foldl_max_from: "(m::int) \<le> foldl max m xs"
proof (induction xs arbitrary: m)
  case (Cons y ys)
  have "max m y \<le> foldl max (max m y) ys" by (rule Cons.IH)
  then show ?case by simp
qed simp

lemma foldl_max_member: "(x::int) \<in> set xs \<Longrightarrow> x \<le> foldl max m xs"
proof (induction xs arbitrary: m)
  case (Cons y ys)
  then show ?case using foldl_max_from [of "max m y" ys] by auto
qed simp

lemma step_le_max:
  "td_approvalSteps def = Some steps \<Longrightarrow> s \<in> set steps \<Longrightarrow>
   \<exists>m. max_step def = Some m \<and> sp_step s \<le> m"
  by (cases steps) (auto simp: max_step_def intro: foldl_max_from foldl_max_member)

lemma race_of_calls: "engine_reachable reg db \<Longrightarrow> race_reachable reg (db, [])"
  by (induction rule: engine_reachable.induct) (auto intro: race_init race_next race_call)

lemma orderly_of_calls: "engine_reachable reg db \<Longrightarrow> orderly_reachable reg (db, [])"
  by (induction rule: engine_reachable.induct) (auto intro: orderly_init orderly_next orderly_call)

text \<open>C1. Every transition of the engine, seen at one request, with the checks and transactions of
  concurrent callers interleaved in any order: what was filed never changes, and the request stays
  where it is or one decision is written, made on the request as it stands or as a call still in
  flight read it. An approval moves it past the step that was read, or closes it as approved if that
  step is final; a rejection, cancellation or expiry closes it at the step it stands on. With no call
  in flight about the request this is a step of the abstract lifecycle: a waiting request advances past
  a non-final step, is approved at the final one, or closes at the step it waited on, and a closed one
  stays closed.\<close>

theorem request_lifecycle_refinement:
  assumes race: "race_reachable reg s" and step: "race_step reg s s'"
    and r: "find_row ri_id rid (items (fst s)) = Some r"
  shows "\<exists>r'. find_row ri_id rid (items (fst s')) = Some r' \<and> filed r' = filed r \<and>
    (life_of r' = life_of r \<or>
     (\<exists>def. registry_get reg (ri_type r) = Inr def \<and>
        (\<exists>l \<in> insert (life_of r) (readings rid (snd s)).
           decision_step (is_final_step def) l (life_of r) (life_of r')))) \<and>
    ((\<forall>f \<in> set (snd s). ri_id (flight_request f) \<noteq> rid) \<longrightarrow>
     life_of r' = life_of r \<or>
     (\<exists>def. registry_get reg (ri_type r) = Inr def \<and> life_step (is_final_step def) (life_of r) (life_of r')))"
proof -
  obtain r' where "find_row ri_id rid (items (fst s')) = Some r'" "filed r' = filed r"
    and "life_of r' = life_of r \<or>
     (\<exists>def. registry_get reg (ri_type r) = Inr def \<and>
        (\<exists>l \<in> insert (life_of r) (readings rid (snd s)). decision_step (is_final_step def) l (life_of r) (life_of r')))"
    using race_life_step [OF race step r] by blast
  moreover from this(3) have "life_of r' = life_of r \<or>
     (\<exists>def. registry_get reg (ri_type r) = Inr def \<and> life_step (is_final_step def) (life_of r) (life_of r'))"
    if "\<forall>f \<in> set (snd s). ri_id (flight_request f) \<noteq> rid"
    by (simp add: no_readings [OF that] decision_step_now)
  ultimately show ?thesis by blast
qed

theorem request_lifecycle_refinement_witness:
  "\<exists>r'. find_row ri_id ''r1'' (items (sla_breach_row 9 (ex_item ''purchase'' ''alice'')
        (ex_submitted ''purchase'' ''alice''))) = Some r' \<and> filed r' = filed (ex_item ''purchase'' ''alice'')"
  using request_lifecycle_refinement [OF race_of_calls [OF ex_reachable]
        race_call [OF step_breach [where reg = ex_registry and now = 9
          and db = "ex_submitted ''purchase'' ''alice''" and row = "ex_item ''purchase'' ''alice''"]],
        of "''r1''" "ex_item ''purchase'' ''alice''"]
  by (auto simp: ex_submit_fields)

text \<open>C2. As long as every decision commits on the request row its check read (nothing else has
  written that row in between; everything else may interleave), the decisions recorded for a request
  are exactly the ones its position needs: one approval per step it has passed, in order, then the
  rejection if it was rejected; and an approved request stands at the final step of its type.\<close>

theorem approval_log_matches_position:
  assumes "orderly_reachable reg s" and "r \<in> set (items (fst s))"
  shows "decisions_of (fst s) (ri_id r) = expected_log r \<and>
    (ri_status r = Approved \<longrightarrow>
       (\<exists>def. registry_get reg (ri_type r) = Inr def \<and> is_final_step def (ri_currentStep r)))"
  using orderly_inv [OF assms(1)] assms(2) by (simp add: engine_inv_def)

theorem approval_log_matches_position_witness:
  "decisions_of (ex_submitted ''purchase'' ''alice'') ''r1'' = []"
  using approval_log_matches_position [OF orderly_of_calls [OF ex_reachable], of "ex_item ''purchase'' ''alice''"]
  by (simp add: ex_submit_fields expected_log_def steps_approved_def)

text \<open>C3. However checks and transactions interleave, a request is approved only when every step of
  its chain has an approval on record.\<close>

theorem approved_has_every_step:
  assumes "race_reachable reg s" and "r \<in> set (items (fst s))" and "ri_status r = Approved"
    and "registry_get reg (ri_type r) = Inr def" and "td_approvalSteps def = Some steps"
    and "t \<in> set steps" and "1 \<le> sp_step t"
  shows "\<exists>a \<in> set (approvals (fst s)). ap_requestId a = ri_id r \<and> ap_step a = sp_step t \<and>
    ap_decision a = Decision_approved"
proof -
  have "earned reg (approvals (fst s)) r"
    using races_earned_reachable [OF assms(1)] assms(2) by (simp add: races_earned_def)
  then have e: "steps_earned (approvals (fst s)) r" "recorded (approvals (fst s)) (ri_id r) (ri_currentStep r)"
      "is_final_step def (ri_currentStep r)"
    using assms(3,4) by (auto simp: earned_def chain_earned_def)
  have "sp_step t \<le> ri_currentStep r"
    using step_le_max [OF assms(5,6)] e(3) assms(5) by (fastforce simp: is_final_step_def)
  then have "recorded (approvals (fst s)) (ri_id r) (sp_step t)"
    using e(1,2) assms(7) by (cases "sp_step t = ri_currentStep r") (auto simp: steps_earned_def)
  then show ?thesis by (auto simp: recorded_def)
qed

theorem approved_has_every_step_witness:
  "\<exists>a \<in> set (approvals ex_second). ap_requestId a = ''r1'' \<and> ap_step a = 2 \<and> ap_decision a = Decision_approved"
  using approved_has_every_step [OF race_of_calls [OF ex_second_reachable], of "hd (items ex_second)" ex_def
      "[ex_step 1 ''request.approve'', ex_step 2 ''workforce.approve'']" "ex_step 2 ''workforce.approve''"]
  by (simp add: ex_second_fields ex_second_item registry_get_def ex_registry_def) (simp add: ex_def_def ex_step_def)

text \<open>C4. A decided request is final once no call in flight is about it: whatever runs afterwards, its
  checks and transactions interleaved in any order, the request's status, assignee, resolution, step,
  everything filed with it and its recorded decisions stay what they were. (A decision that was
  checked before the request closed can still be written over it.)\<close>

theorem decided_request_is_final:
  assumes run: "rtranclp (race_step reg) s s'" and r: "find_row ri_id rid (items (fst s)) = Some r"
    and closed: "\<not> is_open (ri_status r)" and none: "\<forall>f \<in> set (snd s). ri_id (flight_request f) \<noteq> rid"
  shows "(\<exists>r'. find_row ri_id rid (items (fst s')) = Some r' \<and> outcome_of r' = outcome_of r) \<and>
    decisions_of (fst s') rid = decisions_of (fst s) rid"
proof -
  have "(\<exists>r'. find_row ri_id rid (items (fst s')) = Some r' \<and> outcome_of r' = outcome_of r) \<and>
    decisions_of (fst s') rid = decisions_of (fst s) rid \<and> (\<forall>f \<in> set (snd s'). ri_id (flight_request f) \<noteq> rid)"
    using run
  proof (induction rule: rtranclp_induct)
    case base
    with r none show ?case by simp
  next
    case (step s1 s2)
    then obtain r1 where r1: "find_row ri_id rid (items (fst s1)) = Some r1" "outcome_of r1 = outcome_of r"
      by auto
    with closed have c1: "\<not> is_open (ri_status r1)" by (simp add: outcome_of_def)
    have n1: "\<forall>f \<in> set (snd s1). ri_id (flight_request f) \<noteq> rid" using step.IH by simp
    obtain r2 where "find_row ri_id rid (items (fst s2)) = Some r2" "outcome_of r2 = outcome_of r1"
        "decisions_of (fst s2) rid = decisions_of (fst s1) rid"
      by (rule decided_step [OF step.hyps(2) r1(1) c1 n1])
    with begun_elsewhere [OF step.hyps(2) r1(1) c1 n1] r1(2) step.IH show ?case by simp
  qed
  then show ?thesis by simp
qed

lemma ex_second_found: "find_row ri_id ''r1'' (items ex_second) = Some (hd (items ex_second))"
  using ex_second_fields(1,5) by (cases "items ex_second") auto

theorem decided_request_is_final_witness:
  "decisions_of (sla_breach_row 9 (hd (items ex_second)) ex_second) ''r1'' =
     [(1, Decision_approved), (2, Decision_approved)]"
proof -
  have "rtranclp (race_step ex_registry) (ex_second, []) (sla_breach_row 9 (hd (items ex_second)) ex_second, [])"
    by (intro r_into_rtranclp race_call step_breach)
  from decided_request_is_final [OF this, of "''r1''"]
  have "decisions_of (sla_breach_row 9 (hd (items ex_second)) ex_second) ''r1'' = decisions_of ex_second ''r1''"
    by (simp add: ex_second_fields ex_second_found)
  moreover have "decisions_of ex_second ''r1'' = [(1, Decision_approved), (2, Decision_approved)]"
    by code_simp
  ultimately show ?thesis by simp
qed

section \<open>Calls interleaved\<close>

text \<open>C6. However checks and transactions of concurrent callers interleave, every decision on
  record separates duties: unless the type allows self-approval, the person the decision was made
  for (the approver, or the colleague who delegated to them) is not the requester.\<close>

theorem separation_of_duties_under_races:
  assumes "race_reachable reg s" and "a \<in> set (approvals (fst s))"
  shows "\<exists>r def. find_row ri_id (ap_requestId a) (items (fst s)) = Some r \<and>
    registry_get reg (ri_type r) = Inr def \<and>
    (td_allowSelfApproval def \<or>
     ri_requesterId r \<noteq> (case ap_delegatedFromId a of None \<Rightarrow> ap_approverId a | Some d \<Rightarrow> d))"
  using race_inv_reachable [OF assms(1)] assms(2)
  by (auto simp: race_inv_def duties_separated_def answered_for_def)

theorem separation_of_duties_under_races_witness:
  "\<exists>r def. find_row ri_id ''r1'' (items ex_second) = Some r \<and>
     registry_get ex_registry (ri_type r) = Inr def \<and>
     (td_allowSelfApproval def \<or> ri_requesterId r \<noteq> ''bob'')"
proof -
  have "hd (approvals ex_second) \<in> set (approvals (fst (ex_second, [] :: (string, unit) flight list)))"
    by code_simp
  from separation_of_duties_under_races [OF race_of_calls [OF ex_second_reachable] this] show ?thesis
    by (simp add: ex_first_approval)
qed

text \<open>Under the same interleavings a request carries a resolution instant exactly when it is
  closed, waits on step one while pending, and on a later step once in review.\<close>

theorem resolved_exactly_when_closed:
  assumes "race_reachable reg s" and "r \<in> set (items (fst s))"
  shows "(ri_resolvedAt r = None \<longleftrightarrow> is_open (ri_status r)) \<and>
    (ri_status r = Pending \<longrightarrow> ri_currentStep r = 1) \<and>
    (ri_status r = In_review \<longrightarrow> ri_currentStep r > 1)"
  using race_inv_reachable [OF assms(1)] assms(2) by (auto simp: race_inv_def item_ok_def)

theorem resolved_exactly_when_closed_witness: "ri_resolvedAt (hd (items ex_second)) \<noteq> None"
  using resolved_exactly_when_closed [OF race_of_calls [OF ex_second_reachable], of "hd (items ex_second)"]
  by (simp add: ex_second_item ex_second_fields)

text \<open>Bob's approval and Carol's rejection of one single-step request, both checked before either commits.\<close>

definition ex_leave :: "(string, unit) engine_db" where "ex_leave = ex_submitted ''leave'' ''alice''"

definition ex_flight :: "string \<Rightarrow> (string, unit) decision_context" where
  "ex_flight u = projr (approve_check (ex_env 2) ex_registry ''r1'' (ex_actor u) ex_leave)"

definition ex_raced_approve :: "(string, unit) engine_db" where
  "ex_raced_approve = projr (approve_commit (ex_env 3) ''a1'' None (ex_actor ''bob'') (ex_flight ''bob'') ex_leave)"

definition ex_raced_both :: "(string, unit) engine_db" where
  "ex_raced_both =
     projr (reject_commit (ex_env 4) ''a2'' None (ex_actor ''carol'') (ex_flight ''carol'') ex_raced_approve)"

lemma ex_race_steps:
  "isl (submit (ex_env 1) ex_registry ''r1'' ''leave'' ''payload'' (ex_actor ''alice'') no_options ex_empty) = False"
  "isl (approve_check (ex_env 2) ex_registry ''r1'' (ex_actor ''bob'') ex_leave) = False"
  "isl (approve_check (ex_env 2) ex_registry ''r1'' (ex_actor ''carol'') ex_leave) = False"
  "approve_commit (ex_env 3) ''a1'' None (ex_actor ''bob'') (ex_flight ''bob'') ex_leave = Inr ex_raced_approve"
  "reject_commit (ex_env 4) ''a2'' None (ex_actor ''carol'') (ex_flight ''carol'') ex_raced_approve =
     Inr ex_raced_both"
  by code_simp+

lemma ex_leave_reachable: "engine_reachable ex_registry ex_leave"
proof -
  obtain x where x: "submit (ex_env 1) ex_registry ''r1'' ''leave'' ''payload'' (ex_actor ''alice'') no_options ex_empty
      = Inr x"
    using ex_race_steps(1) by (metis isl_def sum.exhaust)
  obtain r db where "x = (r, db)" by fastforce
  moreover have "ex_leave = db"
    using x calculation by (simp add: ex_leave_def ex_submitted_def)
  ultimately show ?thesis
    using x by (auto intro!: reach_step [OF reach_init step_submit] simp: ex_empty_def engine_init_def)
qed

lemma ex_flights:
  "approve_check (ex_env 2) ex_registry ''r1'' (ex_actor ''bob'') ex_leave = Inr (ex_flight ''bob'')"
  "reject_check (ex_env 2) ex_registry ''r1'' (ex_actor ''carol'') ex_leave = Inr (ex_flight ''carol'')"
  using ex_race_steps(2,3) by (auto simp: ex_flight_def reject_check_is_approve_check isl_def split: sum.splits)

text \<open>Two decisions of one request can both commit: the transactions do not look at the status
  again, so an approval and a rejection checked before either commits leave a rejected request whose
  log holds an approval and a rejection of the same step.\<close>

theorem approve_and_reject_both_commit:
  "\<exists>(reg :: (string, unit) registry) s. race_reachable reg s \<and>
     decisions_of (fst s) ''r1'' = [(1, Decision_approved), (1, Decision_rejected)] \<and>
     map ri_status (items (fst s)) = [Rejected]"
proof -
  let ?A = "Approving (ex_flight ''bob'') None (ex_actor ''bob'')"
  let ?R = "Rejecting (ex_flight ''carol'') None (ex_actor ''carol'')"
  have "race_reachable ex_registry (ex_leave, [])"
    by (rule race_of_calls [OF ex_leave_reachable])
  then have "race_reachable ex_registry (ex_leave, [] @ [?A])"
    by (rule race_next) (rule race_begin_approve [OF ex_flights(1)])
  then have "race_reachable ex_registry (ex_leave, ([] @ [?A]) @ [?R])"
    by (rule race_next) (rule race_begin_reject [OF ex_flights(2)])
  then have "race_reachable ex_registry (ex_raced_approve, remove1 ?A (([] @ [?A]) @ [?R]))"
    by (rule race_next) (rule race_commit [where env = "ex_env 3" and i = "''a1''"], simp_all add: ex_race_steps)
  then have "race_reachable ex_registry (ex_raced_approve, [?R])" by simp
  then have "race_reachable ex_registry (ex_raced_both, remove1 ?R [?R])"
    by (rule race_next) (rule race_commit [where env = "ex_env 4" and i = "''a2''"], simp_all add: ex_race_steps)
  moreover have "decisions_of ex_raced_both ''r1'' = [(1, Decision_approved), (1, Decision_rejected)]"
    "map ri_status (items ex_raced_both) = [Rejected]"
    by code_simp+
  ultimately show ?thesis by (intro exI) auto
qed

text \<open>Somebody acting under a delegation may decide their own request: the separation of duties
  is judged against the delegator alone, so an open, unassigned request passes every gate of a type
  that forbids self-approval when its own requester has an active delegation from anybody else and
  either of the two holds the step's permission.\<close>

theorem delegate_may_decide_own_request:
  assumes "find_row ri_id rid (items db) = Some r" and "is_open (ri_status r)"
    and "registry_get reg (ri_type r) = Inr def" and "\<not> td_allowSelfApproval def"
    and "ri_assigneeId r = None" and "ri_requesterId r = ac_sub actor"
    and "ev_delegation env (ac_sub actor) = Some d" and "de_fromUserId d \<noteq> ac_sub actor"
    and "ev_check env (ac_sub actor) (step_permission def (ri_currentStep r)) \<or>
         ev_check env (de_fromUserId d) (step_permission def (ri_currentStep r))"
  shows "\<exists>ctx. approve_check env reg rid actor db = Inr ctx"
  using assms by (simp add: approve_check_Inr sod_subject_def allowed_for_def resolve_assignee_gate_def)

lemma ex_erin_fields:
  "find_row ri_id ''r1'' (items (ex_submitted ''leave'' ''erin'')) = Some (ex_item ''leave'' ''erin'')"
  "ri_status (ex_item ''leave'' ''erin'') = Pending"
  "ri_type (ex_item ''leave'' ''erin'') = ''leave''"
  "ri_requesterId (ex_item ''leave'' ''erin'') = ''erin''"
  "ri_assigneeId (ex_item ''leave'' ''erin'') = None"
  by (simp_all add: ex_defs submit_def registry_get_def Let_def)

lemma ex_leave_type: "registry_get ex_registry ''leave'' = Inr ex_single"
  by (simp add: registry_get_def ex_registry_def ex_single_def ex_def_def)

theorem delegate_may_decide_own_request_witness:
  "\<exists>ctx. approve_check (ex_env 2) ex_registry ''r1'' (ex_actor ''erin'') (ex_submitted ''leave'' ''erin'') = Inr ctx"
  by (rule delegate_may_decide_own_request [OF ex_erin_fields(1)])
    (simp_all add: ex_erin_fields ex_leave_type, simp_all add: ex_defs, simp_all)

section \<open>The gates and their predictions\<close>

lemma sod_subject_sub:
  "sod_subject active actor = (case active of None \<Rightarrow> ac_sub actor | Some d \<Rightarrow> de_fromUserId d)"
  by (simp add: sod_subject_def)

lemma gate_passes:
  "(\<exists>fb. resolve_assignee_gate env r actor active p = Inr fb) \<longleftrightarrow>
     (case ri_assigneeId r of
        None \<Rightarrow> True
      | Some a \<Rightarrow> a = ac_sub actor \<or> map_option de_fromUserId active = Some a \<or>
          (assignee_unavailable env a p \<and> allowed_for env active actor ASSIGNEE_FALLBACK_PERMISSION))"
  by (auto simp: resolve_assignee_gate_def allowed_for_def Let_def split: option.splits)

text \<open>What the screens show is what the engine enforces: a request is reported as decidable by
  the viewer exactly when their approval, and equally their rejection, would pass every check, and
  the reasons shown are the refusals the engine would give.\<close>

theorem decidability_is_the_gate:
  assumes r: "find_row ri_id rid (items db) = Some r" and def: "registry_get reg (ri_type r) = Inr def"
  shows "(decidability_of env reg (ac_sub actor) r = Inr (True, None) \<longleftrightarrow>
      (\<exists>ctx. approve_check env reg rid actor db = Inr ctx)) \<and>
    (decidability_of env reg (ac_sub actor) r = Inr (True, None) \<longleftrightarrow>
      (\<exists>ctx. reject_check env reg rid actor db = Inr ctx)) \<and>
    (decidability_of env reg (ac_sub actor) r = Inr (False, Some Own_request) \<longleftrightarrow>
      approve_check env reg rid actor db = Inl (PermissionDeniedException ''REQUEST_SOD_VIOLATION'')) \<and>
    (decidability_of env reg (ac_sub actor) r = Inr (False, Some Not_open) \<longleftrightarrow>
      approve_check env reg rid actor db = Inl (PreconditionFailedException ''REQUEST_NOT_PENDING'')) \<and>
    (decidability_of env reg (ac_sub actor) r = Inr (False, Some Missing_permission) \<longleftrightarrow>
      approve_check env reg rid actor db = Inl (PermissionDeniedException ''FORBIDDEN''))"
proof -
  let ?act = "ev_delegation env (ac_sub actor)" and ?p = "step_permission def (ri_currentStep r)"
  have verdict: "decidability_of env reg (ac_sub actor) r =
      (if \<not> is_open (ri_status r) then Inr (False, Some Not_open)
       else if \<not> td_allowSelfApproval def \<and> ri_requesterId r = sod_subject ?act actor
       then Inr (False, Some Own_request)
       else if allowed_for env ?act actor ?p \<and> (\<exists>fb. resolve_assignee_gate env r actor ?act ?p = Inr fb)
       then Inr (True, None) else Inr (False, Some Missing_permission))"
    using def unfolding gate_passes decidability_of_def
    by (auto simp: Let_def is_open_def allowed_for_def sod_subject_def split: option.splits)
  have gate_err: "resolve_assignee_gate env r actor ?act ?p = Inl e \<Longrightarrow> e = PermissionDeniedException ''FORBIDDEN''" for e
    by (auto simp: resolve_assignee_gate_def Let_def split: option.splits if_splits)
  have check: "approve_check env reg rid actor db =
      (if \<not> is_open (ri_status r) then Inl (PreconditionFailedException ''REQUEST_NOT_PENDING'')
       else if \<not> td_allowSelfApproval def \<and> ri_requesterId r = sod_subject ?act actor
       then Inl (PermissionDeniedException ''REQUEST_SOD_VIOLATION'')
       else if \<not> allowed_for env ?act actor ?p then Inl (PermissionDeniedException ''FORBIDDEN'')
       else case resolve_assignee_gate env r actor ?act ?p of
              Inl e \<Rightarrow> Inl e
            | Inr fb \<Rightarrow> Inr \<lparr>dc_request = r, dc_def = def, dc_delegation = ?act, dc_fallbackFor = fb\<rparr>)"
    using r def
    by (auto simp: approve_check_def Let_def get_or_fail_def assert_approvable_def is_open_def split: sum.split)
  note both = verdict check reject_check_is_approve_check
  show ?thesis
    unfolding both using gate_err by (intro conjI) (auto split: sum.splits)
qed

lemma ex_simps:
  "ac_sub (ex_actor u) = u" "ev_delegation (ex_env t) ''bob'' = None"
  "td_approvalSteps ex_def = Some [ex_step 1 ''request.approve'', ex_step 2 ''workforce.approve'']"
  by (simp_all add: ex_actor_def ex_env_def ex_def_def)

lemma ex_bob_passes:
  "\<exists>ctx. approve_check (ex_env 2) ex_registry ''r1'' (ex_actor ''bob'') (ex_submitted ''purchase'' ''alice'') = Inr ctx"
  using ex_approve(1) by (auto simp: approve_def and_then_eq_Inr)

lemma ex_purchase_type: "registry_get ex_registry ''purchase'' = Inr ex_def"
  by (simp add: registry_get_def ex_registry_def ex_single_def ex_def_def)

theorem decidability_is_the_gate_witness:
  "decidability_of (ex_env 2) ex_registry ''bob'' (ex_item ''purchase'' ''alice'') = Inr (True, None)"
  using decidability_is_the_gate [of "''r1''" "ex_submitted ''purchase'' ''alice''" "ex_item ''purchase'' ''alice''"
      ex_registry ex_def "ex_env 2" "ex_actor ''bob''"]
      ex_bob_passes
  by (simp add: ex_submit_fields ex_purchase_type) (simp add: ex_actor_def)

text \<open>A registry as the modules build it: one entry per type, and distinct step numbers in a chain.\<close>

definition registry_ok :: "('p, 'd) registry \<Rightarrow> bool" where
  "registry_ok reg \<longleftrightarrow> keys_distinct td_type reg \<and>
     list_all (\<lambda>def. case td_approvalSteps def of None \<Rightarrow> True | Some steps \<Rightarrow> distinct (map sp_step steps)) reg"

lemma find_step:
  "distinct (map sp_step steps) \<Longrightarrow> s \<in> set steps \<Longrightarrow> find (\<lambda>t. sp_step t = sp_step s) steps = Some s"
  by (induction steps) (auto simp: rev_image_eqI)

lemma registered_iff:
  assumes ok: "registry_ok reg" and def: "registry_get reg t = Inr def"
  shows "q \<in> set reg \<and> td_type q = t \<longleftrightarrow> q = def"
proof
  have d: "def \<in> set reg" "td_type def = t"
    using registry_get_Inr [OF def] by (auto dest: find_row_Some)
  then show "q = def \<Longrightarrow> q \<in> set reg \<and> td_type q = t" by simp
  assume "q \<in> set reg \<and> td_type q = t"
  then show "q = def"
    using type_table.wf_member_unique [of reg q def] ok d by (simp add: registry_ok_def)
qed

lemma decidable_pairs_iff:
  assumes ok: "registry_ok reg" and def: "registry_get reg t = Inr def"
  shows "(t, n) \<in> set (decidable_pairs env reg u) \<longleftrightarrow>
    ev_check env u (step_permission def n) \<and>
    (case td_approvalSteps def of None \<Rightarrow> n = 1 | Some steps \<Rightarrow> n \<in> sp_step ` set steps)"
proof -
  note reg = registered_iff [OF ok def]
  have mem: "def \<in> set reg" using reg [of def] by simp
  let ?steps = "\<lambda>q. case td_approvalSteps q of None \<Rightarrow> [(1, td_requiredApprovalPermission q)]
      | Some steps \<Rightarrow> map (\<lambda>s. (sp_step s, sp_requiredPermission s)) steps"
  have "(t, n) \<in> set (decidable_pairs env reg u) \<longleftrightarrow>
      (\<exists>q. (q \<in> set reg \<and> td_type q = t) \<and> (\<exists>p. (n, p) \<in> set (?steps q) \<and> ev_check env u p))"
    by (force simp: decidable_pairs_def)
  also have "\<dots> \<longleftrightarrow> (\<exists>p. (n, p) \<in> set (?steps def) \<and> ev_check env u p)"
    unfolding reg by simp
  also have "\<dots> \<longleftrightarrow> ev_check env u (step_permission def n) \<and>
      (case td_approvalSteps def of None \<Rightarrow> n = 1 | Some steps \<Rightarrow> n \<in> sp_step ` set steps)"
  proof (cases "td_approvalSteps def")
    case None
    then show ?thesis by (auto simp: step_permission_def step_def_def)
  next
    case (Some steps)
    then have dist: "distinct (map sp_step steps)"
      using ok mem by (auto simp: registry_ok_def list_all_iff)
    have "step_permission def (sp_step s) = sp_requiredPermission s" if "s \<in> set steps" for s
      using find_step [OF dist that] Some by (simp add: step_permission_def step_def_def)
    with Some show ?thesis by (auto simp: image_iff)
  qed
  finally show ?thesis .
qed

text \<open>C37. For a viewer nobody has delegated to, "My queue" is exactly the open requests they could
  decide: where the step belongs to the type's chain and an assignee is unavailable only by having
  left, the queue's SQL predicate selects a request if and only if the viewer's approval would pass
  every check.\<close>

theorem queue_is_what_may_be_decided:
  assumes "registry_ok reg" and "find_row ri_id rid (items db) = Some r"
    and "registry_get reg (ri_type r) = Inr def"
    and "case td_approvalSteps def of None \<Rightarrow> ri_currentStep r = 1 | Some steps \<Rightarrow> ri_currentStep r \<in> sp_step ` set steps"
    and "ev_delegation env (ac_sub actor) = None"
    and "case ri_assigneeId r of None \<Rightarrow> True
         | Some a \<Rightarrow> assignee_unavailable env a (step_permission def (ri_currentStep r)) =
             (ev_employee env a = Some Employee_offboarded)"
  shows "decidable_by_predicate env reg (ac_sub actor) r \<longleftrightarrow>
    (\<exists>ctx. approve_check env reg rid actor db = Inr ctx)"
proof -
  let ?p = "step_permission def (ri_currentStep r)"
  have pair: "(ri_type r, ri_currentStep r) \<in> set (decidable_pairs env reg (ac_sub actor)) \<longleftrightarrow>
      ev_check env (ac_sub actor) ?p"
    using decidable_pairs_iff [OF assms(1,3)] assms(4) by auto
  have "ri_type r \<in> set (map td_type (filter td_allowSelfApproval reg)) \<longleftrightarrow>
      (\<exists>q. (q \<in> set reg \<and> td_type q = ri_type r) \<and> td_allowSelfApproval q)"
    by (auto simp: image_iff)
  then have self: "ri_type r \<in> set (map td_type (filter td_allowSelfApproval reg)) \<longleftrightarrow> td_allowSelfApproval def"
    unfolding registered_iff [OF assms(1,3)] by simp
  have gate: "(\<exists>ctx. approve_check env reg rid actor db = Inr ctx) \<longleftrightarrow>
      is_open (ri_status r) \<and> (td_allowSelfApproval def \<or> ri_requesterId r \<noteq> ac_sub actor) \<and>
      ev_check env (ac_sub actor) ?p \<and> (\<exists>fb. resolve_assignee_gate env r actor None ?p = Inr fb)"
    using assms(2,3,5) by (auto simp: approve_check_Inr sod_subject_def allowed_for_def)
  show ?thesis
    unfolding gate gate_passes decidable_by_predicate_def Let_def self
    using pair assms(5,6)
    by (auto simp: is_open_def allowed_for_def split: option.splits)
qed

theorem queue_is_what_may_be_decided_witness:
  "decidable_by_predicate (ex_env 2) ex_registry ''bob'' (ex_item ''purchase'' ''alice'')"
proof -
  have "registry_ok ex_registry"
    by (simp add: registry_ok_def ex_registry_def keys_distinct_def ex_def_def ex_single_def ex_step_def)
  moreover have "ri_currentStep (ex_item ''purchase'' ''alice'') \<in>
      sp_step ` set [ex_step 1 ''request.approve'', ex_step 2 ''workforce.approve'']"
    by (simp add: ex_submit_fields ex_step_def)
  ultimately show ?thesis
    using queue_is_what_may_be_decided [of ex_registry "''r1''" "ex_submitted ''purchase'' ''alice''"
        "ex_item ''purchase'' ''alice''" ex_def "ex_env 2" "ex_actor ''bob''"] ex_bob_passes
    by (simp add: ex_submit_fields ex_purchase_type ex_simps)
qed

section \<open>Who is told\<close>

definition first_permission :: "('p, 'd) type_def \<Rightarrow> string" where
  "first_permission def =
     (case td_approvalSteps def of Some (s # ss) \<Rightarrow> sp_requiredPermission s | _ \<Rightarrow> td_requiredApprovalPermission def)"

lemma submit_outbox:
  assumes "submit env reg i ty p actor opts db = Inr (r, db')" and "registry_get reg ty = Inr def"
  shows "outbox db' = notify_decision_makers env (N_request_submitted ty i (ac_email actor)) i
    (so_assigneeId opts) (first_permission def) (ac_sub actor) ty (K_request_submitted i)
    (Some (ac_sub actor)) (outbox db)"
  using assms by (auto simp: submit_def and_then_eq_Inr Let_def first_permission_def)

lemma schedule_all_keys:
  "n \<in> set ns \<Longrightarrow> \<exists>m \<in> set (schedule_all ns ob). no_idempotencyKey m = no_idempotencyKey n"
proof (induction ns arbitrary: ob)
  case (Cons x xs)
  show ?case
  proof (cases "n = x")
    case True
    obtain m where "m \<in> set (schedule x ob)" "no_idempotencyKey m = no_idempotencyKey x"
      using schedule_has_key [of x ob] find_row_Some by fastforce
    then show ?thesis using True schedule_all_keeps [of m "schedule x ob" xs]
      by (auto simp: schedule_all_def)
  next
    case False
    with Cons show ?thesis by (auto simp: schedule_all_def)
  qed
qed simp

text \<open>A submitted request always tells somebody who is there to be told: every decision maker
  (the assignee, or each holder of the first step's permission but the requester) gets a prompt
  under their own key, and when there is none, every administrator gets the no-approver notice.\<close>

theorem submit_tells_somebody:
  assumes "submit env reg i ty p actor opts db = Inr (r, db')" and "registry_get reg ty = Inr def"
  shows "(\<forall>u \<in> set (decision_makers env (so_assigneeId opts) (first_permission def) (ac_sub actor)).
       \<exists>n \<in> set (outbox db'). no_idempotencyKey n = K_request_submitted i u) \<and>
    (decision_makers env (so_assigneeId opts) (first_permission def) (ac_sub actor) = [] \<longrightarrow>
       (\<forall>u \<in> set (ev_holders env ''rbac.manage'').
          \<exists>n \<in> set (outbox db'). no_idempotencyKey n = K_no_approver (K_request_submitted i u)))"
proof -
  let ?dm = "decision_makers env (so_assigneeId opts) (first_permission def) (ac_sub actor)"
  have ob: "outbox db' = notify_decision_makers env (N_request_submitted ty i (ac_email actor)) i
    (so_assigneeId opts) (first_permission def) (ac_sub actor) ty (K_request_submitted i)
    (Some (ac_sub actor)) (outbox db)"
    by (rule submit_outbox [OF assms])
  show ?thesis
  proof (intro conjI ballI impI)
    fix u assume u: "u \<in> set ?dm"
    let ?row = "\<lambda>u. \<lparr>no_recipientId = u, no_actorId = Some (ac_sub actor),
       no_event = N_request_submitted ty i (ac_email actor), no_resourceId = i,
       no_idempotencyKey = K_request_submitted i u\<rparr>"
    from u have "?dm \<noteq> []" by auto
    then have "outbox db' = schedule_all (map ?row ?dm) (outbox db)"
      unfolding ob by (simp add: notify_decision_makers_def Let_def)
    with u schedule_all_keys [of "?row u" "map ?row ?dm" "outbox db"]
    show "\<exists>n \<in> set (outbox db'). no_idempotencyKey n = K_request_submitted i u" by simp
  next
    fix u assume none: "?dm = []" and u: "u \<in> set (ev_holders env ''rbac.manage'')"
    let ?row = "\<lambda>u. \<lparr>no_recipientId = u, no_actorId = None,
       no_event = N_no_approver ty i (first_permission def), no_resourceId = i,
       no_idempotencyKey = K_no_approver (K_request_submitted i u)\<rparr>"
    have "outbox db' = schedule_all (map ?row (ev_holders env ''rbac.manage'')) (outbox db)"
      unfolding ob using none by (simp add: notify_decision_makers_def notify_administrators_def Let_def)
    with u schedule_all_keys [of "?row u" "map ?row (ev_holders env ''rbac.manage'')" "outbox db"]
    show "\<exists>n \<in> set (outbox db'). no_idempotencyKey n = K_no_approver (K_request_submitted i u)" by simp
  qed
qed

theorem submit_tells_somebody_witness:
  "\<exists>n \<in> set (outbox (ex_submitted ''purchase'' ''alice'')). no_idempotencyKey n = K_request_submitted ''r1'' ''carol''"
  using submit_tells_somebody [OF ex_submit ex_purchase_type]
  by (auto simp: decision_makers_def no_options_def ex_env_def ex_actor_def)

text \<open>A prompt to decide is never an invitation to a refusal: on the platform's own permission
  service, whoever is prompted about an unassigned submission, and has no delegation running, passes
  every check when they approve it.\<close>

theorem prompted_people_may_decide:
  assumes "submit (platform_env adb ds emps now) reg i ty p actor opts db = Inr (r, db')"
    and "registry_get reg ty = Inr def" and "so_assigneeId opts = None"
    and "case td_approvalSteps def of Some (s # ss) \<Rightarrow> sp_step s = 1 | _ \<Rightarrow> True"
    and "find_row ri_id i (items db) = None"
    and "n \<in> set (outbox db')" and "n \<notin> set (outbox db)" and "no_event n = N_request_submitted ty i (ac_email actor)"
    and "find_active_delegation_to now (no_recipientId n) ds = None"
    and "ac_sub approver = no_recipientId n"
  shows "\<exists>ctx. approve_check (platform_env adb ds emps now) reg i approver db' = Inr ctx"
proof -
  let ?env = "platform_env adb ds emps now"
  have n: "no_recipientId n \<in> set (decision_makers ?env None (first_permission def) (ac_sub actor))"
    using assms(6,7,8) submit_outbox [OF assms(1,2)] assms(3)
    by (auto simp: notify_decision_makers_def notify_administrators_def Let_def
        dest!: schedule_all_source split: if_splits)
  have may: "ev_check ?env (no_recipientId n) (first_permission def)" and other: "no_recipientId n \<noteq> ac_sub actor"
    using n directory.recipients_may [of "no_recipientId n" "ac_sub actor" adb now "first_permission def"]
    by (auto simp: decision_makers_def platform_env_def)
  have perm: "step_permission def 1 = first_permission def"
    using assms(4)
    by (auto simp: step_permission_def step_def_def first_permission_def split: option.splits list.splits)
  from assms(1) show ?thesis
  proof (rule submit_shape)
    assume "items db' = items db @ [r]" "ri_id r = i" "ri_type r = ty" "ri_requesterId r = ac_sub actor"
      "ri_assigneeId r = so_assigneeId opts" "ri_status r = Pending" "ri_currentStep r = 1"
    then show ?thesis
      using assms(2,3,5,9,10) may other perm
      by (simp add: approve_check_Inr find_row_append sod_subject_def allowed_for_def
          resolve_assignee_gate_def platform_env_def)
  qed
qed

definition ex_authz :: authz_db where
  "ex_authz =
     \<lparr>role_permissions = [(''admin'', ''*'')],
      assignments = [\<lparr>as_userId = ''bob'', as_roleId = ''admin'',
                      as_scope = \<lparr>sc_type = Global, sc_id = None\<rparr>, as_expiresAt = None\<rparr>]\<rparr>"

definition ex_platform :: request_env where
  "ex_platform = platform_env ex_authz [] (\<lambda>u. Some Employee_active) 1"

definition ex_prompted :: "string request_item \<times> (string, unit) engine_db" where
  "ex_prompted = projr (submit ex_platform ex_registry ''r1'' ''purchase'' ''payload'' (ex_actor ''alice'')
     no_options ex_empty)"

lemma ex_prompted_run:
  "submit ex_platform ex_registry ''r1'' ''purchase'' ''payload'' (ex_actor ''alice'') no_options ex_empty =
     Inr (fst ex_prompted, snd ex_prompted)"
  by code_simp

lemma ex_prompted_outbox:
  "outbox (snd ex_prompted) =
     [\<lparr>no_recipientId = ''bob'', no_actorId = Some ''alice'',
       no_event = N_request_submitted ''purchase'' ''r1'' ''alice@example'', no_resourceId = ''r1'',
       no_idempotencyKey = K_request_submitted ''r1'' ''bob''\<rparr>]"
  by code_simp

theorem prompted_people_may_decide_witness:
  "\<exists>ctx. approve_check ex_platform ex_registry ''r1'' (ex_actor ''bob'') (snd ex_prompted) = Inr ctx"
  unfolding ex_platform_def
  by (rule prompted_people_may_decide [OF ex_prompted_run [unfolded ex_platform_def] ex_purchase_type, of
        "hd (outbox (snd ex_prompted))"])
    (simp_all add: ex_simps ex_prompted_outbox no_options_def ex_step_def ex_empty_def ex_actor_def
       find_active_delegation_to_def)

section \<open>Listing and expiring\<close>

text \<open>The list never shows a caller without \<^verbatim>\<open>request.read\<close> a request they are not a party to,
  whatever filters they send; a page is no longer than asked, and the total counts every match.\<close>

theorem list_shows_parties_only:
  assumes "list_requests env reg filters actorId limit offset db = Inr (views, n_all)"
    and "\<not> ev_check env actorId ''request.read''"
  shows "(\<forall>v \<in> set views. vw_item v \<in> set (items db) \<and>
      (ri_requesterId (vw_item v) = actorId \<or> ri_assigneeId (vw_item v) = Some actorId)) \<and>
    length views \<le> limit \<and> n_all = length (filter (list_where env reg filters actorId) (items db))"
proof -
  let ?found = "filter (list_where env reg filters actorId) (items db)"
  define rows where "rows = take limit (drop offset (rev (sort_key (\<lambda>r. (ri_createdAt r, ri_id r)) ?found)))"
  obtain f where f: "views = map f rows" "n_all = length ?found" "\<And>r. vw_item (f r) = r"
  proof -
    obtain verdicts where "views = map (\<lambda>r. view_of db r
        (case map_of verdicts (ri_id r) of None \<Rightarrow> (False, None) | Some v \<Rightarrow> v)) rows" "n_all = length ?found"
      using assms(1) unfolding rows_def by (auto simp: list_requests_def Let_def and_then_eq_Inr)
    then show thesis by (rule that) (simp add: view_of_def)
  qed
  have short: "length rows \<le> limit" by (simp add: rows_def)
  have "r \<in> set ?found" if "r \<in> set rows" for r
    using in_set_dropD [OF in_set_takeD [OF that [unfolded rows_def]]] by simp
  then have party: "\<forall>r \<in> set rows. r \<in> set (items db) \<and> (ri_requesterId r = actorId \<or> ri_assigneeId r = Some actorId)"
    using assms(2) by (auto simp: list_where_def)
  show ?thesis
    unfolding f(1,2) using short party by (simp add: f(3))
qed

theorem list_shows_parties_only_witness:
  "\<exists>views n_all. list_requests (ex_env 2) ex_registry \<lparr>rf_type = None, rf_requesterId = None, rf_assigneeId = None,
      rf_status = None, rf_myQueue = False\<rparr> ''alice'' 10 0 ex_second = Inr (views, n_all) \<and>
     n_all = 1 \<and> (\<forall>v \<in> set views. ri_requesterId (vw_item v) = ''alice'' \<or> ri_assigneeId (vw_item v) = Some ''alice'')"
proof -
  let ?f = "\<lparr>rf_type = None, rf_requesterId = None, rf_assigneeId = None, rf_status = None, rf_myQueue = False\<rparr>"
  have "list_requests (ex_env 2) ex_registry ?f ''alice'' 10 0 ex_second =
      Inr (fst (projr (list_requests (ex_env 2) ex_registry ?f ''alice'' 10 0 ex_second)), 1)"
    by code_simp
  from this list_shows_parties_only [OF this] show ?thesis
    by (intro exI) (auto simp: ex_env_def)
qed

definition overdue :: "int \<Rightarrow> 'p request_item \<Rightarrow> bool" where
  "overdue now r \<longleftrightarrow> is_open (ri_status r) \<and> (case ri_expiresAt r of None \<Rightarrow> False | Some t \<Rightarrow> t < now)"

definition hooks_expire :: "('p, 'd) registry \<Rightarrow> bool" where
  "hooks_expire reg \<longleftrightarrow>
     (\<forall>def \<in> set reg. \<forall>h. td_onExpire def = Some h \<longrightarrow> (\<forall>p rid now d. \<exists>d'. h p rid now d = Inr d'))"

lemma find_expired_overdue:
  "find_expired now n db = take n (map ri_id (filter (overdue now) (items db)))"
  by (simp add: find_expired_def overdue_def [abs_def] is_open_def)

lemma expire_item_not_overdue [simp]: "\<not> overdue now (expire_item now' r)"
  by (simp add: overdue_def)

lemma expire_or_skip_items:
  assumes "hooks_expire reg" and "keys_distinct ri_id (items db)"
    and "\<forall>r \<in> set (items db). \<exists>def. registry_get reg (ri_type r) = Inr def"
  shows "items (expire_or_skip env reg rid db) =
    update_where (\<lambda>r. ri_id r = rid \<and> is_open (ri_status r)) (expire_item (ev_now env)) (items db)"
proof (cases "find_row ri_id rid (items db)")
  case None
  then have "\<forall>r \<in> set (items db). ri_id r \<noteq> rid" by (simp add: find_row_None_iff)
  then have "update_where (\<lambda>r. ri_id r = rid \<and> is_open (ri_status r)) (expire_item (ev_now env)) (items db) = items db"
    by (auto simp: update_where_def intro: map_idI)
  then show ?thesis using None by (simp add: expire_or_skip_def expire_def expire_check_def get_or_fail_def)
next
  case (Some q)
  have only: "r = q" if "r \<in> set (items db)" "ri_id r = rid" for r
    using item_table.lookup_member [OF assms(2) that(1)] that(2) Some by simp
  show ?thesis
  proof (cases "is_open (ri_status q)")
    case False
    then have "update_where (\<lambda>r. ri_id r = rid \<and> is_open (ri_status r)) (expire_item (ev_now env)) (items db) = items db"
      using only by (auto simp: update_where_def intro!: map_idI)
    moreover have "expire_check reg rid db = Inr None" using Some False by (simp add: expire_check_None)
    ultimately show ?thesis by (simp add: expire_or_skip_def expire_def)
  next
    case True
    obtain def where def: "registry_get reg (ri_type q) = Inr def"
      using assms(3) find_row_Some [OF Some] by auto
    then have mem: "def \<in> set reg" by (auto dest!: registry_get_Inr find_row_Some)
    have c: "expire_check reg rid db = Inr (Some (q, def))" using Some True def by (simp add: expire_check_Some)
    have "\<exists>db'. expire_commit env (q, def) db = Inr db'"
      using assms(1) mem by (auto simp: hooks_expire_def expire_commit_def Let_def split: option.splits)
        (metis and_then_simps(2))
    then obtain db' where e: "expire_commit env (q, def) db = Inr db'" by blast
    have "items (expire_or_skip env reg rid db) = modify_row ri_id rid (expire_item (ev_now env)) (items db)"
      using c e expire_commit_shape(1) [OF e] find_row_Some [OF Some]
      by (simp add: expire_or_skip_def expire_def)
    also have "\<dots> = update_where (\<lambda>r. ri_id r = rid \<and> is_open (ri_status r)) (expire_item (ev_now env)) (items db)"
      using only True by (auto simp: modify_row_def update_where_def intro!: map_cong)
    finally show ?thesis .
  qed
qed

lemma sweep_leaves_nothing_overdue:
  assumes "hooks_expire reg" and "keys_distinct ri_id (items db)"
    and "\<forall>r \<in> set (items db). \<exists>def. registry_get reg (ri_type r) = Inr def"
    and "\<forall>r \<in> set (items db). overdue now r \<longrightarrow> ri_id r \<in> set rids"
  shows "\<forall>r \<in> set (items (foldl (\<lambda>db' rid. expire_or_skip env reg rid db') db rids)). \<not> overdue now r"
  using assms(2-4)
proof (induction rids arbitrary: db)
  case (Cons rid rids)
  let ?db = "expire_or_skip env reg rid db"
  have i: "items ?db = update_where (\<lambda>r. ri_id r = rid \<and> is_open (ri_status r)) (expire_item (ev_now env)) (items db)"
    by (rule expire_or_skip_items [OF assms(1) Cons.prems(1,2)])
  have "keys_distinct ri_id (items ?db)"
    unfolding i using Cons.prems(1) by (subst keys_distinct_update_where) simp_all
  moreover have "\<forall>r \<in> set (items ?db). \<exists>def. registry_get reg (ri_type r) = Inr def"
    unfolding i using Cons.prems(2) by (auto simp: set_update_where expire_item_def)
  moreover have "\<forall>r \<in> set (items ?db). overdue now r \<longrightarrow> ri_id r \<in> set rids"
    unfolding i using Cons.prems(3) by (auto simp: set_update_where overdue_def split: if_splits)
  ultimately show ?case using Cons.IH by simp
qed auto

text \<open>C39. One run of the expiry cron leaves no request open past its deadline, when at most a batch
  of a hundred is overdue, every request's type is registered and no expiry hook fails.\<close>

theorem expiry_sweep_is_complete:
  assumes "hooks_expire reg" and "keys_distinct ri_id (items db)"
    and "\<forall>r \<in> set (items db). \<exists>def. registry_get reg (ri_type r) = Inr def"
    and "length (filter (overdue (ev_now env)) (items db)) \<le> 100"
  shows "find_expired (ev_now env) n (request_expiry_tick env reg db) = []"
proof -
  have "set (find_expired (ev_now env) 100 db) = ri_id ` {r \<in> set (items db). overdue (ev_now env) r}"
    using assms(4) by (simp add: find_expired_overdue)
  then have "\<forall>r \<in> set (items (request_expiry_tick env reg db)). \<not> overdue (ev_now env) r"
    unfolding request_expiry_tick_def
    by (intro sweep_leaves_nothing_overdue [OF assms(1-3)]) auto
  then show ?thesis by (simp add: find_expired_overdue filter_empty_conv)
qed

theorem expiry_sweep_is_complete_witness:
  "find_expired 1000000000 5 (request_expiry_tick (ex_env 1000000000) ex_registry (ex_submitted ''purchase'' ''alice'')) = []"
proof -
  have now: "ev_now (ex_env 1000000000) = 1000000000" by (simp add: ex_env_def)
  have "hooks_expire ex_registry"
    by (simp add: hooks_expire_def ex_registry_def ex_def_def ex_single_def)
  then show ?thesis
    using expiry_sweep_is_complete [of ex_registry "ex_submitted ''purchase'' ''alice''" "ex_env 1000000000" 5, unfolded now]
    by (simp add: ex_submit_fields ex_purchase_type keys_distinct_def)
qed

end
