(* ===== verification/RequestHooks.thy ===== *)
theory RequestHooks
  imports RequestLemmas
begin

text \<open>
  What a set of single-step request types owes the engine so that the engine's record of a request
  and the domain row behind it never disagree, and the proof that the engine keeps its half.

  A request names its domain row by \<open>target\<close>; \<open>row\<close> reads what the domain says of that row, and
  \<open>agree\<close> says which answers are right for a status of the request. The provider promises that each
  hook, run on a row that agrees with a pending request, leaves it agreeing with the new status and
  touches no other row.
\<close>

text \<open>The hook the engine runs when it closes a request with a status.\<close>

definition closes ::
    "('p, 'd) type_def \<Rightarrow> 'p \<Rightarrow> string \<Rightarrow> string \<Rightarrow> int \<Rightarrow> request_status \<Rightarrow> 'd \<Rightarrow> 'd result" where
  "closes def p rid u now st d =
     (case st of
        Approved \<Rightarrow> td_onApprove def p rid u now d
      | Rejected \<Rightarrow> run_hook (map_option (\<lambda>h x d. h p rid u now d) (td_onReject def)) () d
      | Cancelled \<Rightarrow> run_hook (map_option (\<lambda>h x d. h p rid u now d) (td_onCancel def)) () d
      | Expired \<Rightarrow> run_hook (map_option (\<lambda>h x d. h p rid now d) (td_onExpire def)) () d
      | _ \<Rightarrow> Inl (ThrownError ''still open''))"

text \<open>The calls that decide or close one request.\<close>

inductive closing_call :: "('p, 'd) registry \<Rightarrow> ('p, 'd) engine_db \<Rightarrow> ('p, 'd) engine_db \<Rightarrow> bool" for reg where
  call_approve: "approve env reg i rid note actor db = Inr db' \<Longrightarrow> closing_call reg db db'"
| call_reject: "reject env reg i rid note actor db = Inr db' \<Longrightarrow> closing_call reg db db'"
| call_cancel: "cancel env reg rid actor db = Inr db' \<Longrightarrow> closing_call reg db db'"
| call_expire: "expire env reg rid db = Inr db' \<Longrightarrow> closing_call reg db db'"

text \<open>What such a call amounts to: nothing, or one open request closed and its hook run.\<close>

definition one_closed :: "('p, 'd) registry \<Rightarrow> ('p, 'd) engine_db \<Rightarrow> ('p, 'd) engine_db \<Rightarrow> bool" where
  "one_closed reg db db' \<longleftrightarrow>
     (\<exists>k r def rid u now st f.
        find_row ri_id k (items db) = Some r \<and> is_open (ri_status r) \<and> registry_get reg (ri_type r) = Inr def \<and>
        closes def (ri_payload r) rid u now st (domain_db db) = Inr (domain_db db') \<and> st \<noteq> In_review \<and>
        items db' = modify_row ri_id k f (items db) \<and> (\<forall>q. filed (f q) = filed q \<and> ri_status (f q) = st))"

locale request_hooks =
  fixes reg :: "('p, 'd) registry"
    and typed :: "string \<Rightarrow> 'p \<Rightarrow> bool"
    and target :: "'p \<Rightarrow> 'k"
    and row :: "'k \<Rightarrow> 'd \<Rightarrow> 's"
    and agree :: "'k \<Rightarrow> request_status \<Rightarrow> 's \<Rightarrow> bool"
  assumes single_step: "def \<in> set reg \<Longrightarrow> td_approvalSteps def = None"
    and no_submit_hook: "def \<in> set reg \<Longrightarrow> td_onSubmit def = None"
    and closing_agrees:
      "def \<in> set reg \<Longrightarrow> typed (td_type def) p \<Longrightarrow> agree (target p) Pending (row (target p) d) \<Longrightarrow>
       closes def p rid u now st d = Inr d' \<Longrightarrow> agree (target p) st (row (target p) d')"
    and closing_frame:
      "def \<in> set reg \<Longrightarrow> typed (td_type def) p \<Longrightarrow> closes def p rid u now st d = Inr d' \<Longrightarrow>
       k \<noteq> target p \<Longrightarrow> row k d' = row k d"
begin

definition item_in_step :: "'d \<Rightarrow> 'p request_item \<Rightarrow> bool" where
  "item_in_step d r \<longleftrightarrow>
     typed (ri_type r) (ri_payload r) \<and> ri_status r \<noteq> In_review \<and>
     agree (target (ri_payload r)) (ri_status r) (row (target (ri_payload r)) d)"

definition in_step :: "('p, 'd) engine_db \<Rightarrow> bool" where
  "in_step db \<longleftrightarrow>
     keys_distinct ri_id (items db) \<and> distinct (map (\<lambda>r. target (ri_payload r)) (items db)) \<and>
     (\<forall>r \<in> set (items db). item_in_step (domain_db db) r)"

lemma in_stepI:
  assumes "keys_distinct ri_id (items db)" and "distinct (map (\<lambda>r. target (ri_payload r)) (items db))"
    and "\<And>r. r \<in> set (items db) \<Longrightarrow> item_in_step (domain_db db) r"
  shows "in_step db"
  using assms by (simp add: in_step_def)

lemma always_final: "registry_get reg t = Inr def \<Longrightarrow> is_final_step def n"
  using single_step [of def] by (auto dest!: registry_get_Inr find_row_Some simp: is_final_step_def)

text \<open>A row written over with a status its domain row agrees with, its hook run in between.\<close>

lemma written_in_step:
  assumes inv: "in_step db" and r: "find_row ri_id k (items db) = Some r"
    and def: "registry_get reg (ri_type r) = Inr def"
    and hook: "closes def (ri_payload r) rid u now st (domain_db db) = Inr (domain_db db')"
    and st: "st \<noteq> In_review"
    and items': "items db' = modify_row ri_id k f (items db)"
    and f: "\<And>q. filed (f q) = filed q" "\<And>q. ri_status (f q) = st"
    and agree: "agree (target (ri_payload r)) st (row (target (ri_payload r)) (domain_db db'))"
  shows "in_step db'"
proof -
  have keep: "ri_id (f q) = ri_id q" "ri_type (f q) = ri_type q" "ri_payload (f q) = ri_payload q" for q
    using f(1) [of q] by (simp_all add: filed_def)
  have i: "keys_distinct ri_id (items db)" "distinct (map (\<lambda>r. target (ri_payload r)) (items db))"
      "\<And>q. q \<in> set (items db) \<Longrightarrow> item_in_step (domain_db db) q"
    using inv by (auto simp: in_step_def)
  have rk: "r \<in> set (items db)" "ri_id r = k" using find_row_Some [OF r] by auto
  have d: "def \<in> set reg" "td_type def = ri_type r" using def by (auto dest!: registry_get_Inr find_row_Some)
  have typed: "typed (td_type def) (ri_payload r)" using i(3) [OF rk(1)] d by (simp add: item_in_step_def)
  show ?thesis
  proof (rule in_stepI)
    show "keys_distinct ri_id (items db')"
      unfolding items' by (rule item_table.wf_modify [OF keep(1) i(1)])
    have "map (\<lambda>q. target (ri_payload q)) (items db') = map (\<lambda>q. target (ri_payload q)) (items db)"
      unfolding items' modify_row_def by (rule map_key_update_where) (simp add: keep)
    then show "distinct (map (\<lambda>q. target (ri_payload q)) (items db'))" using i(2) by simp
    fix q' assume "q' \<in> set (items db')"
    then obtain q where q: "q \<in> set (items db)" "q' = (if ri_id q = k then f q else q)"
      unfolding items' modify_row_def by (auto simp: set_update_where)
    show "item_in_step (domain_db db') q'"
    proof (cases "ri_id q = k")
      case True
      then have "q = r" using item_table.wf_member_unique [OF i(1) q(1) rk(1)] rk(2) by simp
      then show ?thesis using q True agree typed d(2) st by (simp add: item_in_step_def f keep)
    next
      case False
      then have "target (ri_payload q) \<noteq> target (ri_payload r)"
        using i(2) q(1) rk by (metis distinct_map inj_onD)
      then show ?thesis
        using closing_frame [OF d(1) typed hook] i(3) [OF q(1)] False q(2) by (simp add: item_in_step_def)
    qed
  qed
qed

lemma closing_in_step:
  assumes inv: "in_step db" and one: "one_closed reg db db'"
  shows "in_step db'"
proof -
  obtain k r def rid u now st f where r: "find_row ri_id k (items db) = Some r" and op: "is_open (ri_status r)"
    and def: "registry_get reg (ri_type r) = Inr def"
    and hook: "closes def (ri_payload r) rid u now st (domain_db db) = Inr (domain_db db')"
    and st: "st \<noteq> In_review"
    and items': "items db' = modify_row ri_id k f (items db)"
    and f: "\<And>q. filed (f q) = filed q" "\<And>q. ri_status (f q) = st"
    using one unfolding one_closed_def by metis
  have i: "item_in_step (domain_db db) r" using inv find_row_Some [OF r] by (simp add: in_step_def)
  have d: "def \<in> set reg" "td_type def = ri_type r" using def by (auto dest!: registry_get_Inr find_row_Some)
  have typed: "typed (td_type def) (ri_payload r)" using i d by (simp add: item_in_step_def)
  have pending: "ri_status r = Pending" using i op by (auto simp: item_in_step_def is_open_def)
  have "agree (target (ri_payload r)) st (row (target (ri_payload r)) (domain_db db'))"
    using closing_agrees [OF d(1) typed _ hook] i pending by (simp add: item_in_step_def)
  with inv r def hook st items' f show ?thesis by (rule written_in_step)
qed

lemma closing_call_one:
  assumes "closing_call reg db db'"
  shows "db' = db \<or> one_closed reg db db'"
  using assms
proof cases
  case (call_approve env i rid nt actor)
  then obtain ctx where c: "approve_check env reg rid actor db = Inr ctx"
      and m: "approve_commit env i nt actor ctx db = Inr db'"
    by (auto simp: approve_def and_then_eq_Inr)
  note ctx = approve_checkD [OF c]
  have final: "is_final_step (dc_def ctx) (ri_currentStep (dc_request ctx))" by (rule always_final [OF ctx(4)])
  from m obtain na where
      "items db' = modify_row ri_id (ri_id (dc_request ctx)) (approve_item (ev_now env) ctx na nt) (items db)"
      "td_onApprove (dc_def ctx) (ri_payload (dc_request ctx)) (ri_id (dc_request ctx)) (ac_sub actor)
              (ev_now env) (domain_db db) = Inr (domain_db db')"
    using final by (elim approve_commit_shape) auto
  then have "one_closed reg db db'"
    unfolding one_closed_def
    by (intro exI [of _ rid] exI [of _ "dc_request ctx"] exI [of _ "dc_def ctx"]
        exI [of _ "ri_id (dc_request ctx)"] exI [of _ "ac_sub actor"] exI [of _ "ev_now env"] exI [of _ Approved]
        exI [of _ "approve_item (ev_now env) ctx na nt"])
      (use final ctx in \<open>auto simp: closes_def\<close>)
  then show ?thesis ..
next
  case (call_reject env i rid nt actor)
  then obtain ctx where c: "approve_check env reg rid actor db = Inr ctx"
      and m: "reject_commit env i nt actor ctx db = Inr db'"
    by (auto simp: reject_def and_then_eq_Inr reject_check_is_approve_check)
  have "one_closed reg db db'"
    unfolding one_closed_def
    by (intro exI [of _ rid] exI [of _ "dc_request ctx"] exI [of _ "dc_def ctx"]
        exI [of _ "ri_id (dc_request ctx)"] exI [of _ "ac_sub actor"] exI [of _ "ev_now env"] exI [of _ Rejected]
        exI [of _ "reject_item (ev_now env) nt"])
      (use reject_commit_shape [OF m] approve_checkD [OF c] in \<open>auto simp: closes_def\<close>)
  then show ?thesis ..
next
  case (call_cancel env rid actor)
  then obtain r def where r: "find_row ri_id rid (items db) = Some r" "is_open (ri_status r)"
        "registry_get reg (ri_type r) = Inr def" and m: "cancel_commit env actor (r, def) db = Inr db'"
    by (auto simp: cancel_def and_then_eq_Inr cancel_check_Inr)
  have "one_closed reg db db'"
    unfolding one_closed_def
    by (intro exI [of _ rid] exI [of _ r] exI [of _ def] exI [of _ "ri_id r"] exI [of _ "ac_sub actor"]
        exI [of _ "ev_now env"] exI [of _ Cancelled] exI [of _ "cancel_item (ev_now env)"])
      (use cancel_commit_shape [OF m] r find_row_Some [OF r(1)] in \<open>auto simp: closes_def\<close>)
  then show ?thesis ..
next
  case (call_expire env rid)
  then obtain found where f: "expire_check reg rid db = Inr found"
      and m: "(case found of None \<Rightarrow> Inr db | Some ctx \<Rightarrow> expire_commit env ctx db) = Inr db'"
    by (auto simp: expire_def and_then_eq_Inr)
  show ?thesis
  proof (cases found)
    case None
    with m show ?thesis by simp
  next
    case (Some ctx)
    with f obtain r def where r: "find_row ri_id rid (items db) = Some r" "is_open (ri_status r)"
          "registry_get reg (ri_type r) = Inr def" and c: "ctx = (r, def)"
      by (auto simp: expire_check_Some)
    have e: "expire_commit env (r, def) db = Inr db'" using m Some c by simp
    have "one_closed reg db db'"
      unfolding one_closed_def
      by (intro exI [of _ rid] exI [of _ r] exI [of _ def] exI [of _ "ri_id r"] exI [of _ "[]"]
          exI [of _ "ev_now env"] exI [of _ Expired] exI [of _ "expire_item (ev_now env)"])
        (use expire_commit_shape [OF e] r find_row_Some [OF r(1)] in \<open>auto simp: closes_def\<close>)
    then show ?thesis ..
  qed
qed

lemma closing_call_in_step: "in_step db \<Longrightarrow> closing_call reg db db' \<Longrightarrow> in_step db'"
  using closing_call_one [of db db'] closing_in_step by blast

text \<open>What a closing call does to the domain tables, for invariants of the provider's own.\<close>

lemma closing_call_domain:
  assumes inv: "in_step db" and call: "closing_call reg db db'"
  shows "domain_db db' = domain_db db \<or>
    (\<exists>def p rid u now st. def \<in> set reg \<and> typed (td_type def) p \<and>
       closes def p rid u now st (domain_db db) = Inr (domain_db db'))"
  using closing_call_one [OF call]
proof
  assume "one_closed reg db db'"
  then obtain k r def rid u now st where r: "find_row ri_id k (items db) = Some r"
      and def: "registry_get reg (ri_type r) = Inr def"
      and hook: "closes def (ri_payload r) rid u now st (domain_db db) = Inr (domain_db db')"
    unfolding one_closed_def by metis
  have "def \<in> set reg" "td_type def = ri_type r" using def by (auto dest!: registry_get_Inr find_row_Some)
  moreover have "typed (ri_type r) (ri_payload r)"
    using inv find_row_Some [OF r] by (auto simp: in_step_def item_in_step_def)
  ultimately show ?thesis using hook by metis
qed simp

lemma expiry_tick_in_step: "in_step db \<Longrightarrow> in_step (request_expiry_tick env reg db)"
proof -
  have "in_step db \<Longrightarrow> in_step (foldl (\<lambda>db' rid. expire_or_skip env reg rid db') db rids)" for rids db
  proof (induction rids arbitrary: db)
    case (Cons rid rids)
    have "in_step (expire_or_skip env reg rid db)"
      using Cons.prems by (auto simp: expire_or_skip_def intro: closing_call_in_step call_expire split: sum.splits)
    then show ?case using Cons.IH by simp
  qed simp
  then show "in_step db \<Longrightarrow> in_step (request_expiry_tick env reg db)" by (simp add: request_expiry_tick_def)
qed

lemma submit_in_step:
  assumes inv: "in_step db" and run: "submit env reg i ty p actor opts db = Inr (r, db')"
    and fresh: "find_row ri_id i (items db) = None" "\<forall>q \<in> set (items db). target (ri_payload q) \<noteq> target p"
    and typed: "typed ty p" and pending: "agree (target p) Pending (row (target p) (domain_db db))"
  shows "in_step db'"
  using run
proof (rule submit_shape)
  fix def d'
  assume def: "registry_get reg ty = Inr def" and items': "items db' = items db @ [r]" and d': "domain_db db' = d'"
    and hook: "run_hook (map_option (\<lambda>h x d. h p (ac_sub actor) (ev_now env) d) (td_onSubmit def))
       () (domain_db db) = Inr d'"
    and r: "ri_id r = i" "ri_type r = ty" "ri_status r = Pending" "ri_payload r = p"
  have "def \<in> set reg" using def by (auto dest!: registry_get_Inr find_row_Some)
  then have same: "domain_db db' = domain_db db" using hook no_submit_hook d' by simp
  show "in_step db'"
    using inv fresh r typed pending
    unfolding in_step_def items' same
    by (auto simp: item_table.wf_insert item_in_step_def)
qed

lemma breach_in_step: "in_step db \<Longrightarrow> in_step (sla_breach_row now q db)"
proof (cases "ri_slaDeadline q")
  case (Some t)
  assume inv: "in_step db"
  have same: "ri_id (breach_item now r) = ri_id r" "ri_type (breach_item now r) = ri_type r"
    "ri_payload (breach_item now r) = ri_payload r" "ri_status (breach_item now r) = ri_status r" for r
    by (simp_all add: breach_item_def)
  have map: "map (\<lambda>r. target (ri_payload r)) (update_where (\<lambda>r. ri_id r = ri_id q) (breach_item now) (items db)) =
      map (\<lambda>r. target (ri_payload r)) (items db)"
    by (rule map_key_update_where) (simp add: same)
  show ?thesis
    using inv Some unfolding in_step_def sla_breach_row_def
    by (auto simp: map item_in_step_def same modify_row_def set_update_where keys_distinct_update_where)
qed (simp add: sla_breach_row_def)

text \<open>A write of the domain tables by their own service, as long as the rows still agree.\<close>

lemma domain_write_in_step:
  assumes "in_step db" and "items db' = items db"
    and "\<And>r. r \<in> set (items db) \<Longrightarrow> item_in_step (domain_db db) r \<Longrightarrow> item_in_step (domain_db db') r"
  shows "in_step db'"
  using assms by (simp add: in_step_def)

end

end
