(* ===== verification/HookRaces.thy ===== *)
theory HookRaces
  imports RequestHooks RequestRaces
begin

text \<open>
  The agreement of the engine's record and the domain row when decisions run late. A module whose hooks
  leave an agreeing row agreeing whatever the request's status was, not only a pending one, keeps the two
  records together however checks and transactions of decisions interleave: the hooks are its guard.
\<close>

section \<open>A request read earlier\<close>

definition still_filed :: "'p request_item list \<Rightarrow> 'p request_item \<Rightarrow> bool" where
  "still_filed t q \<longleftrightarrow> (\<exists>r. find_row ri_id (ri_id q) t = Some r \<and> filed r = filed q)"

lemma still_filed_keeps: "keeps_filed t t' \<Longrightarrow> still_filed t q \<Longrightarrow> still_filed t' q"
  unfolding keeps_filed_def still_filed_def by metis

lemma found_still_filed: "find_row ri_id k t = Some q \<Longrightarrow> still_filed t q"
  by (auto simp: still_filed_def dest: find_row_Some)

text \<open>What is known of a call in flight: its check passed, and the request it read is still on file.\<close>

definition flight_fits :: "('p, 'd) registry \<Rightarrow> 'p request_item list \<Rightarrow> ('p, 'd) flight \<Rightarrow> bool" where
  "flight_fits reg t f \<longleftrightarrow> flight_checked reg f \<and> still_filed t (flight_request f)"

lemma flight_fits_keeps: "keeps_filed t t' \<Longrightarrow> flight_fits reg t f \<Longrightarrow> flight_fits reg t' f"
  by (simp add: flight_fits_def still_filed_keeps)

lemma begun_fits:
  assumes step: "race_step reg (db, fl) (db, fl')" and fits: "\<forall>f \<in> set fl. flight_fits reg (items db) f"
  shows "\<forall>f \<in> set fl'. flight_fits reg (items db) f"
proof -
  have "\<forall>f \<in> set fl'. flight_checked reg f"
    using flights_checked_step [OF step] fits by (simp add: flight_fits_def)
  moreover have "\<forall>f \<in> set fl'. still_filed (items db) (flight_request f)"
    using step
  proof cases
    case (race_begin_approve env rid actor ctx nt)
    with fits show ?thesis
      by (auto simp: flight_fits_def intro: found_still_filed [OF approve_checkD(1)])
  next
    case (race_begin_reject env rid actor ctx nt)
    with fits show ?thesis
      by (auto simp: flight_fits_def reject_check_is_approve_check intro: found_still_filed [OF approve_checkD(1)])
  qed (use fits in \<open>auto simp: flight_fits_def cancel_check_Inr expire_check_Some
        dest: set_remove1_subset [THEN subsetD] intro: found_still_filed\<close>)
  ultimately show ?thesis by (simp add: flight_fits_def)
qed

section \<open>The guard is in the hooks\<close>

locale late_request_hooks = request_hooks reg typed target row agree
  for reg :: "('p, 'd) registry" and typed :: "string \<Rightarrow> 'p \<Rightarrow> bool" and target :: "'p \<Rightarrow> 'k"
    and row :: "'k \<Rightarrow> 'd \<Rightarrow> 's" and agree :: "'k \<Rightarrow> request_status \<Rightarrow> 's \<Rightarrow> bool" +
  assumes late_agrees:
    "def \<in> set reg \<Longrightarrow> typed (td_type def) p \<Longrightarrow> agree (target p) s (row (target p) d) \<Longrightarrow>
     closes def p rid u now st d = Inr d' \<Longrightarrow> agree (target p) st (row (target p) d')"
begin

text \<open>A transaction run late writes one row over and runs the hook of the status it writes.\<close>

lemma late_commit:
  assumes m: "commit_flight env j f db = Inr db'" and fits: "flight_fits reg (items db) f"
  obtains r def u now st g where
    "find_row ri_id (ri_id (flight_request f)) (items db) = Some r" "filed r = filed (flight_request f)"
    "registry_get reg (ri_type r) = Inr def"
    "closes def (ri_payload r) (ri_id r) u now st (domain_db db) = Inr (domain_db db')" "st \<noteq> In_review"
    "items db' = modify_row ri_id (ri_id (flight_request f)) g (items db)"
    "\<And>q. filed (g q) = filed q" "\<And>q. ri_status (g q) = st"
proof -
  obtain r where r: "find_row ri_id (ri_id (flight_request f)) (items db) = Some r" "filed r = filed (flight_request f)"
    using fits by (auto simp: flight_fits_def still_filed_def)
  have same: "ri_type r = ri_type (flight_request f)" "ri_payload r = ri_payload (flight_request f)"
      "ri_id r = ri_id (flight_request f)"
    using r(2) by (simp_all add: filed_def)
  have chk: "flight_checked reg f" using fits by (simp add: flight_fits_def)
  show ?thesis
  proof (cases f)
    case (Approving ctx nt actor)
    obtain env0 db0 where c: "approve_check env0 reg (ri_id (dc_request ctx)) actor db0 = Inr ctx"
      using chk Approving by auto
    note def = approve_checkD(4) [OF c]
    have final: "is_final_step (dc_def ctx) n" for n by (rule always_final [OF def])
    from m Approving have "approve_commit env j nt actor ctx db = Inr db'" by simp
    then show ?thesis
    proof (rule approve_commit_shape)
      fix na
      assume i: "items db' = modify_row ri_id (ri_id (dc_request ctx)) (approve_item (ev_now env) ctx na nt) (items db)"
        and hook: "if is_final_step (dc_def ctx) (ri_currentStep (dc_request ctx))
          then td_onApprove (dc_def ctx) (ri_payload (dc_request ctx)) (ri_id (dc_request ctx)) (ac_sub actor)
            (ev_now env) (domain_db db) = Inr (domain_db db')
          else run_hook (map_option (\<lambda>h x d. h (ri_payload (dc_request ctx)) (ri_id (dc_request ctx))
            (ri_currentStep (dc_request ctx)) (ri_currentStep (dc_request ctx) + 1) na (ac_sub actor)
            (ev_now env) d) (td_onStepApproved (dc_def ctx))) () (domain_db db) = Inr (domain_db db')"
      show ?thesis
        by (rule that [OF r, of "dc_def ctx" "ac_sub actor" "ev_now env" Approved
              "approve_item (ev_now env) ctx na nt"])
          (use def same hook final i Approving in \<open>auto simp: closes_def\<close>)
    qed
  next
    case (Rejecting ctx nt actor)
    obtain env0 db0 where c: "approve_check env0 reg (ri_id (dc_request ctx)) actor db0 = Inr ctx"
      using chk Rejecting by auto
    from m Rejecting have "reject_commit env j nt actor ctx db = Inr db'" by simp
    from reject_commit_shape [OF this] show ?thesis
      by (intro that [OF r, of "dc_def ctx" "ac_sub actor" "ev_now env" Rejected "reject_item (ev_now env) nt"])
        (use approve_checkD(4) [OF c] same Rejecting in \<open>auto simp: closes_def\<close>)
  next
    case (Cancelling c actor)
    from m Cancelling have "cancel_commit env actor c db = Inr db'" by simp
    from cancel_commit_shape [OF this] show ?thesis
      by (intro that [OF r, of "snd c" "ac_sub actor" "ev_now env" Cancelled "cancel_item (ev_now env)"])
        (use chk same Cancelling in \<open>auto simp: closes_def\<close>)
  next
    case (Expiring c)
    from m Expiring have "expire_commit env c db = Inr db'" by simp
    from expire_commit_shape [OF this] show ?thesis
      by (intro that [OF r, of "snd c" "[]" "ev_now env" Expired "expire_item (ev_now env)"])
        (use chk same Expiring in \<open>auto simp: closes_def\<close>)
  qed
qed

lemma late_commit_in_step:
  assumes inv: "in_step db" and m: "commit_flight env j f db = Inr db'" and fits: "flight_fits reg (items db) f"
  shows "in_step db'"
  using m fits
proof (rule late_commit)
  fix r def u now st g
  assume a: "find_row ri_id (ri_id (flight_request f)) (items db) = Some r" "registry_get reg (ri_type r) = Inr def"
    and hook: "closes def (ri_payload r) (ri_id r) u now st (domain_db db) = Inr (domain_db db')"
    and rest: "st \<noteq> In_review" "items db' = modify_row ri_id (ri_id (flight_request f)) g (items db)"
      "\<And>q. filed (g q) = filed q" "\<And>q. ri_status (g q) = st"
  have i: "item_in_step (domain_db db) r" using inv find_row_Some [OF a(1)] by (simp add: in_step_def)
  have d: "def \<in> set reg" "td_type def = ri_type r" using a(2) by (auto dest!: registry_get_Inr find_row_Some)
  have "agree (target (ri_payload r)) st (row (target (ri_payload r)) (domain_db db'))"
    using late_agrees [OF d(1) _ _ hook] i d(2) by (auto simp: item_in_step_def)
  with inv a hook rest show ?thesis by (rule written_in_step)
qed

text \<open>The domain tables after such a transaction, for invariants of the provider's own.\<close>

lemma late_commit_domain:
  assumes inv: "in_step db" and m: "commit_flight env j f db = Inr db'" and fits: "flight_fits reg (items db) f"
  shows "\<exists>def p rid u now st. def \<in> set reg \<and> typed (td_type def) p \<and>
    closes def p rid u now st (domain_db db) = Inr (domain_db db')"
  using m fits
proof (rule late_commit)
  fix r def u now st g
  assume a: "find_row ri_id (ri_id (flight_request f)) (items db) = Some r" "registry_get reg (ri_type r) = Inr def"
    and hook: "closes def (ri_payload r) (ri_id r) u now st (domain_db db) = Inr (domain_db db')"
  have i: "item_in_step (domain_db db) r" using inv find_row_Some [OF a(1)] by (simp add: in_step_def)
  have d: "def \<in> set reg" "td_type def = ri_type r" using a(2) by (auto dest!: registry_get_Inr find_row_Some)
  with hook i show ?thesis by (metis item_in_step_def)
qed

end

end
