(* ===== verification/WorkforceData.thy ===== *)
theory WorkforceData
  imports Leave
begin

text \<open>
  The tables of the workforce schema (\<^verbatim>\<open>db/schema/workforce.ts\<close>) that the leave balance and the
  request types read and write, and the audit log the request types append to. Ids and people are
  strings; instants are milliseconds.
\<close>

datatype leave_type = Annual | Sick | Unpaid | Parental | Other_leave

datatype review_status = Review_pending | Review_approved | Review_rejected | Review_cancelled

text \<open>Overtime has no cancelled state.\<close>

datatype overtime_status = Overtime_pending | Overtime_approved | Overtime_rejected

datatype justification_kind = J_late | J_early | J_forgot_card | J_missing_checkout

record leave_row =
  lr_id :: string
  lr_employeeId :: string
  lr_leaveType :: leave_type
  lr_window :: leave_window
  lr_reason :: "string option"
  lr_workingDays :: "rat option"
  lr_documentStorageKey :: "string option"
  lr_status :: review_status
  lr_reviewerId :: "string option"
  lr_reviewedAt :: "int option"
  lr_requestId :: "string option"

record wfh_row =
  wr_id :: string
  wr_employeeId :: string
  wr_startDate :: iso_date
  wr_endDate :: iso_date
  wr_workingDays :: int
  wr_reason :: "string option"
  wr_status :: review_status
  wr_reviewerId :: "string option"
  wr_reviewedAt :: "int option"
  wr_requestId :: "string option"

record overtime_row =
  or_id :: string
  or_employeeId :: string
  or_workDate :: iso_date
  or_hours :: rat
  or_reason :: string
  or_status :: overtime_status
  or_reviewerId :: "string option"
  or_reviewedAt :: "int option"
  or_requestId :: "string option"

record justification_row =
  jr_id :: string
  jr_employeeId :: string
  jr_startDate :: iso_date
  jr_endDate :: iso_date
  jr_kind :: justification_kind
  jr_workingDays :: rat
  jr_reason :: "string option"
  jr_status :: review_status
  jr_reviewerId :: "string option"
  jr_reviewedAt :: "int option"
  jr_requestId :: "string option"

record holiday_row =
  hd_id :: string
  hd_date :: iso_date
  hd_name :: string
  hd_region :: string

record entitlement_row =
  en_employeeId :: string
  en_leaveType :: leave_type
  en_year :: int
  en_grantedDays :: rat
  en_carriedOverDays :: rat
  en_carriedOverExpiresOn :: "iso_date option"
  en_note :: "string option"
  en_updatedAt :: int

record policy_row =
  po_leaveType :: leave_type
  po_accrualMethod :: leave_accrual_method
  po_carryOverMaxDays :: rat
  po_carryOverExpiryMonths :: "int option"
  po_note :: "string option"

text \<open>A month is closed when a row exists; a month is its year and number.\<close>

record month_close_row =
  cl_month :: "int \<times> int"
  cl_closedBy :: string
  cl_closedAt :: int
  cl_note :: "string option"

text \<open>An entry of the audit log; a sweep has no actor.\<close>

record audit_entry =
  au_actorId :: "string option"
  au_action :: string
  au_resourceId :: string

record workforce_db =
  leave_requests :: "leave_row list"
  wfh_requests :: "wfh_row list"
  overtime_entries :: "overtime_row list"
  justifications :: "justification_row list"
  holidays :: "holiday_row list"
  entitlements :: "entitlement_row list"
  policies :: "policy_row list"
  month_closes :: "month_close_row list"
  audit_log :: "audit_entry list"

definition empty_workforce :: workforce_db where
  "empty_workforce =
     \<lparr>leave_requests = [], wfh_requests = [], overtime_entries = [], justifications = [],
      holidays = [], entitlements = [], policies = [], month_closes = [], audit_log = []\<rparr>"

text \<open>The unique key of an entitlement, \<^verbatim>\<open>uq_leave_entitlement\<close>.\<close>

definition en_key :: "entitlement_row \<Rightarrow> string \<times> leave_type \<times> int" where
  "en_key g = (en_employeeId g, en_leaveType g, en_year g)"

end
