(* ===== verification/LeaveBalance.thy ===== *)
theory LeaveBalance
  imports WorkforceData
begin

text \<open>
  \<^verbatim>\<open>libs/modules/workforce/src/application/leave-balance.service.ts\<close>: policies, holidays,
  entitlements, the derived balance, the check made at submit, and the yearly carry-over run.
  The clock is an argument (\<open>now\<close> in milliseconds, \<open>as_of\<close> a date).
\<close>

section \<open>Policies and holidays\<close>

record leave_policy =
  accrualMethod :: leave_accrual_method
  carryOverMaxDays :: rat
  carryOverExpiryMonths :: "int option"

definition DEFAULT_POLICY :: leave_policy where
  "DEFAULT_POLICY =
     \<lparr>accrualMethod = Annual_grant, carryOverMaxDays = 0, carryOverExpiryMonths = None\<rparr>"

definition policy_of_row :: "policy_row \<Rightarrow> leave_policy" where
  "policy_of_row r = \<lparr>accrualMethod = po_accrualMethod r, carryOverMaxDays = po_carryOverMaxDays r,
     carryOverExpiryMonths = po_carryOverExpiryMonths r\<rparr>"

text \<open>The map of \<^verbatim>\<open>policies()\<close>; \<open>policy_for\<close> is its lookup with the default.\<close>

definition leave_policies :: "workforce_db \<Rightarrow> leave_type \<Rightarrow> leave_policy option" where
  "leave_policies db t = map_option policy_of_row (find_row po_leaveType t (policies db))"

definition policy_for :: "workforce_db \<Rightarrow> leave_type \<Rightarrow> leave_policy" where
  "policy_for db t = (case leave_policies db t of None \<Rightarrow> DEFAULT_POLICY | Some p \<Rightarrow> p)"

record policy_listing =
  pl_leaveType :: leave_type
  pl_policy :: leave_policy
  pl_note :: "string option"
  pl_isDefault :: bool

definition list_policies :: "workforce_db \<Rightarrow> policy_listing list" where
  "list_policies db =
     map (\<lambda>t. case find_row po_leaveType t (policies db) of
            Some row \<Rightarrow> \<lparr>pl_leaveType = t, pl_policy = policy_of_row row, pl_note = po_note row,
                          pl_isDefault = False\<rparr>
          | None \<Rightarrow> \<lparr>pl_leaveType = t, pl_policy = DEFAULT_POLICY, pl_note = None,
                      pl_isDefault = True\<rparr>)
       [Annual, Sick, Unpaid, Parental, Other_leave]"

definition holidays_between :: "iso_date \<Rightarrow> iso_date \<Rightarrow> workforce_db \<Rightarrow> iso_date set" where
  "holidays_between s e db =
     set (map hd_date (filter (\<lambda>h. hd_date h \<ge> s \<and> hd_date h \<le> e) (holidays db)))"

definition leave_cost_for :: "leave_window \<Rightarrow> workforce_db \<Rightarrow> rat" where
  "leave_cost_for w db = leave_window_cost w (holidays_between (startDate w) (endDate w) db)"

text \<open>Insert, or rename the holiday of that date and region (\<^verbatim>\<open>onConflictDoUpdate\<close>).\<close>

definition add_holiday ::
    "string \<Rightarrow> iso_date \<Rightarrow> string \<Rightarrow> string option \<Rightarrow> workforce_db \<Rightarrow> string \<times> workforce_db" where
  "add_holiday new_id date name region db =
     (let reg = (case region of None \<Rightarrow> ''ALL'' | Some r \<Rightarrow> r)
      in case find (\<lambda>h. hd_date h = date \<and> hd_region h = reg) (holidays db) of
           Some h \<Rightarrow>
             (hd_id h, db\<lparr>holidays := update_where (\<lambda>h. hd_date h = date \<and> hd_region h = reg)
                             (\<lambda>h. h\<lparr>hd_name := name\<rparr>) (holidays db)\<rparr>)
         | None \<Rightarrow>
             (new_id, db\<lparr>holidays := holidays db @
                [\<lparr>hd_id = new_id, hd_date = date, hd_name = name, hd_region = reg\<rparr>]\<rparr>))"

definition remove_holiday :: "string \<Rightarrow> workforce_db \<Rightarrow> bool \<times> workforce_db" where
  "remove_holiday hid db =
     (filter (\<lambda>h. hd_id h = hid) (holidays db) \<noteq> [],
      db\<lparr>holidays := filter (\<lambda>h. hd_id h \<noteq> hid) (holidays db)\<rparr>)"

section \<open>Balances\<close>

definition start_in_year :: "int \<Rightarrow> leave_row \<Rightarrow> bool" where
  "start_in_year year r \<longleftrightarrow>
     startDate (lr_window r) \<ge> Iso year 1 1 \<and> startDate (lr_window r) \<le> Iso year 12 31"

text \<open>Rows without a frozen cost are null and drop out of the sum.\<close>

definition consumed_days :: "string \<Rightarrow> leave_type \<Rightarrow> int \<Rightarrow> workforce_db \<Rightarrow> rat" where
  "consumed_days emp t year db =
     sum_list (map (\<lambda>r. case lr_workingDays r of None \<Rightarrow> 0 | Some n \<Rightarrow> n)
       (filter (\<lambda>r. lr_employeeId r = emp \<and> lr_leaveType r = t \<and> start_in_year year r \<and>
                    lr_status r \<in> {Review_pending, Review_approved})
          (leave_requests db)))"

record leave_balance =
  lb_leaveType :: leave_type
  lb_year :: int
  lb_grantedDays :: rat
  lb_accruedDays :: rat
  lb_carriedOverDays :: rat
  lb_carriedOverExpiresOn :: "iso_date option"
  lb_carriedOverAvailable :: bool
  lb_consumedDays :: rat
  lb_availableDays :: rat
  lb_remainingDays :: rat

definition balance_of_grant ::
    "string \<Rightarrow> int \<Rightarrow> iso_date \<Rightarrow> workforce_db \<Rightarrow> entitlement_row \<Rightarrow> leave_balance" where
  "balance_of_grant emp year as_of db g =
     (let consumed = consumed_days emp (en_leaveType g) year db;
          granted = en_grantedDays g;
          carried = en_carriedOverDays g;
          policy = policy_for db (en_leaveType g);
          accrued = accrued_days granted (accrualMethod policy) year as_of;
          carried_available = carried_over_still_available (en_carriedOverExpiresOn g) as_of
      in \<lparr>lb_leaveType = en_leaveType g, lb_year = year, lb_grantedDays = granted,
          lb_accruedDays = accrued, lb_carriedOverDays = carried,
          lb_carriedOverExpiresOn = en_carriedOverExpiresOn g,
          lb_carriedOverAvailable = carried_available, lb_consumedDays = consumed,
          lb_availableDays = round_days (accrued + (if carried_available then carried else 0) - consumed),
          lb_remainingDays = round_days (granted + carried - consumed)\<rparr>)"

definition list_balances ::
    "string \<Rightarrow> int \<Rightarrow> iso_date \<Rightarrow> workforce_db \<Rightarrow> leave_balance list" where
  "list_balances emp year as_of db =
     map (balance_of_grant emp year as_of db)
       (filter (\<lambda>g. en_employeeId g = emp \<and> en_year g = year) (entitlements db))"

section \<open>Entitlements and the submit check\<close>

definition set_entitlement ::
    "string \<Rightarrow> leave_type \<Rightarrow> int \<Rightarrow> rat \<Rightarrow> rat option \<Rightarrow> string option \<Rightarrow> int \<Rightarrow>
     workforce_db \<Rightarrow> workforce_db" where
  "set_entitlement emp t year granted carried note now db =
     (let c = (case carried of None \<Rightarrow> 0 | Some x \<Rightarrow> x)
      in case find_row en_key (emp, t, year) (entitlements db) of
           None \<Rightarrow> db\<lparr>entitlements := entitlements db @
             [\<lparr>en_employeeId = emp, en_leaveType = t, en_year = year, en_grantedDays = granted,
               en_carriedOverDays = c, en_carriedOverExpiresOn = None, en_note = note,
               en_updatedAt = now\<rparr>]\<rparr>
         | Some _ \<Rightarrow> db\<lparr>entitlements := modify_row en_key (emp, t, year)
             (\<lambda>g. g\<lparr>en_grantedDays := granted, en_carriedOverDays := c, en_note := note,
                    en_updatedAt := now\<rparr>) (entitlements db)\<rparr>)"

definition available_days :: "entitlement_row \<Rightarrow> iso_date \<Rightarrow> workforce_db \<Rightarrow> rat" where
  "available_days g as_of db =
     (let accrued = accrued_days (en_grantedDays g) (accrualMethod (policy_for db (en_leaveType g)))
                      (en_year g) as_of;
          carried = (if carried_over_still_available (en_carriedOverExpiresOn g) as_of
                     then en_carriedOverDays g else 0)
      in round_days (accrued + carried
           - consumed_days (en_employeeId g) (en_leaveType g) (en_year g) db))"

definition assert_sufficient_balance ::
    "string \<Rightarrow> leave_type \<Rightarrow> int \<Rightarrow> rat \<Rightarrow> iso_date \<Rightarrow> workforce_db \<Rightarrow> unit result" where
  "assert_sufficient_balance emp t year requested as_of db =
     (if requested \<le> 0 then Inl (PreconditionFailedException ''LEAVE_NO_WORKING_DAYS'')
      else case find_row en_key (emp, t, year) (entitlements db) of
        None \<Rightarrow> Inr ()
      | Some g \<Rightarrow>
          if requested > available_days g as_of db
          then Inl (PreconditionFailedException ''LEAVE_INSUFFICIENT_BALANCE'')
          else Inr ())"

section \<open>The carry-over run\<close>

record carry_result =
  cr_employeeId :: string
  cr_leaveType :: leave_type
  cr_days :: rat
  cr_expiresOn :: "iso_date option"

record carry_report =
  applied :: "carry_result list"
  skippedNoTargetRow :: "(string \<times> leave_type \<times> rat) list"

text \<open>The amount one entitlement of the closing year brings forward; nothing when not positive.\<close>

definition carry_days :: "workforce_db \<Rightarrow> entitlement_row \<Rightarrow> rat" where
  "carry_days db prior =
     (let policy = policy_for db (en_leaveType prior);
          consumed = consumed_days (en_employeeId prior) (en_leaveType prior) (en_year prior) db;
          closing = round_days (en_grantedDays prior + en_carriedOverDays prior - consumed)
      in if carryOverMaxDays policy \<le> 0 then 0
         else carry_over_amount closing (carryOverMaxDays policy))"

definition carry_step ::
    "int \<Rightarrow> int \<Rightarrow> (string \<times> leave_type) set \<Rightarrow> carry_report \<times> workforce_db \<Rightarrow> entitlement_row \<Rightarrow>
     carry_report \<times> workforce_db" where
  "carry_step year now target_keys st prior =
     (case st of (rep, db) \<Rightarrow>
        let policy = policy_for db (en_leaveType prior);
            days = carry_days db prior
        in if days \<le> 0 then (rep, db)
           else if (en_employeeId prior, en_leaveType prior) \<notin> target_keys then
             (rep\<lparr>skippedNoTargetRow := skippedNoTargetRow rep @
                [(en_employeeId prior, en_leaveType prior, days)]\<rparr>, db)
           else
             let expires_on = carry_over_expiry_date year (carryOverExpiryMonths policy)
             in (rep\<lparr>applied := applied rep @
                   [\<lparr>cr_employeeId = en_employeeId prior, cr_leaveType = en_leaveType prior,
                     cr_days = days, cr_expiresOn = expires_on\<rparr>]\<rparr>,
                 db\<lparr>entitlements := modify_row en_key (en_employeeId prior, en_leaveType prior, year)
                   (\<lambda>g. g\<lparr>en_carriedOverDays := days, en_carriedOverExpiresOn := expires_on,
                          en_updatedAt := now\<rparr>) (entitlements db)\<rparr>))"

definition run_carry_over :: "int \<Rightarrow> int \<Rightarrow> workforce_db \<Rightarrow> carry_report \<times> workforce_db" where
  "run_carry_over year now db =
     (let previous = year - 1;
          prior_grants = filter (\<lambda>g. en_year g = previous) (entitlements db);
          target_grants = filter (\<lambda>g. en_year g = year) (entitlements db);
          target_keys = set (map (\<lambda>g. (en_employeeId g, en_leaveType g)) target_grants)
      in foldl (carry_step year now target_keys)
           (\<lparr>applied = [], skippedNoTargetRow = []\<rparr>, db) prior_grants)"

section \<open>Lemmas\<close>

interpretation ent: keyed_table en_key "find_row en_key" "modify_row en_key" "keys_distinct en_key"
  by (rule keyed_list_table)

lemma js_round_diff: "js_round (x - of_int n) = js_round x - n"
  unfolding js_round_def by (metis diff_add_eq floor_diff_of_int)

lemma round_days_diff: "two_decimals r \<Longrightarrow> round_days (x - r) = round_days x - r"
  unfolding round_days_def two_decimals_def left_diff_distrib
  by (metis (no_types, lifting) diff_divide_distrib js_round_diff nonzero_mult_div_cancel_right
      of_int_diff zero_neq_numeral)

lemma carry_days_bounds:
  assumes "0 < carry_days db prior" and "two_decimals (carryOverMaxDays (policy_for db (en_leaveType prior)))"
  shows "carry_days db prior \<le> carryOverMaxDays (policy_for db (en_leaveType prior))"
  using assms carry_over_amount_bounds [of "carryOverMaxDays (policy_for db (en_leaveType prior))"]
  by (auto simp: carry_days_def Let_def split: if_splits)

lemma consumed_days_append:
  "consumed_days emp t year (db\<lparr>leave_requests := leave_requests db @ [r]\<rparr>) =
     consumed_days emp t year db +
     (if lr_employeeId r = emp \<and> lr_leaveType r = t \<and> start_in_year year r \<and>
         lr_status r \<in> {Review_pending, Review_approved}
      then (case lr_workingDays r of None \<Rightarrow> 0 | Some n \<Rightarrow> n) else 0)"
  by (auto simp: consumed_days_def)

lemma policy_for_cong: "policies db = policies db' \<Longrightarrow> policy_for db t = policy_for db' t"
  by (simp add: policy_for_def leave_policies_def)

text \<open>
  A request that passed the check and was filed as pending leaves a balance that is not negative.
\<close>

lemma balance_after_filing:
  assumes ok: "d \<le> available_days g as_of db"
    and r: "lr_employeeId r = en_employeeId g" "lr_leaveType r = en_leaveType g" "start_in_year (en_year g) r"
      "lr_status r = Review_pending" "lr_workingDays r = Some d" and d: "two_decimals d"
  shows "0 \<le> available_days g as_of (db\<lparr>leave_requests := leave_requests db @ [r]\<rparr>)"
proof -
  define x where "x = accrued_days (en_grantedDays g) (accrualMethod (policy_for db (en_leaveType g))) (en_year g) as_of
      + (if carried_over_still_available (en_carriedOverExpiresOn g) as_of
         then en_carriedOverDays g else 0) - consumed_days (en_employeeId g) (en_leaveType g) (en_year g) db"
  have "d \<le> round_days x"
    using ok by (simp add: available_days_def Let_def x_def)
  moreover have "available_days g as_of (db\<lparr>leave_requests := leave_requests db @ [r]\<rparr>) = round_days (x - d)"
    unfolding available_days_def Let_def consumed_days_append x_def
    by (simp add: r policy_for_cong [of "db\<lparr>leave_requests := leave_requests db @ [r]\<rparr>" db]
        diff_diff_eq)
  ultimately show ?thesis using d by (simp add: round_days_diff)
qed

lemma sufficient_available:
  assumes "assert_sufficient_balance emp t year d as_of db = Inr ()"
    and "find_row en_key (emp, t, year) (entitlements db) = Some g"
  shows "d \<le> available_days g as_of db"
  using assms by (auto simp: assert_sufficient_balance_def split: if_splits)

subsection \<open>The carry-over run is idempotent\<close>

text \<open>What a step writes, as a function of the tables a run does not touch.\<close>

definition carry_write ::
    "int \<Rightarrow> int \<Rightarrow> (string \<times> leave_type) set \<Rightarrow> workforce_db \<Rightarrow> entitlement_row \<Rightarrow>
     entitlement_row \<Rightarrow> entitlement_row" where
  "carry_write year now keys db prior g =
     (if 0 < carry_days db prior \<and> (en_employeeId prior, en_leaveType prior) \<in> keys \<and>
         en_key g = (en_employeeId prior, en_leaveType prior, year)
      then g\<lparr>en_carriedOverDays := carry_days db prior,
             en_carriedOverExpiresOn := carry_over_expiry_date year
               (carryOverExpiryMonths (policy_for db (en_leaveType prior))),
             en_updatedAt := now\<rparr>
      else g)"

lemma en_key_carry_write [simp]: "en_key (carry_write y now ks db p g) = en_key g"
  by (simp add: carry_write_def en_key_def)

lemma en_year_carry_write [simp]: "en_year (carry_write y now ks db p g) = en_year g"
  by (simp add: carry_write_def)

lemma carry_write_other_year: "en_year g \<noteq> y \<Longrightarrow> carry_write y now ks db p g = g"
  by (auto simp: carry_write_def en_key_def)

lemma carry_days_entitlements [simp]:
  "carry_days (db\<lparr>entitlements := es\<rparr>) p = carry_days db p"
  by (simp add: carry_days_def policy_for_def leave_policies_def consumed_days_def)

lemma policy_for_entitlements [simp]: "policy_for (db\<lparr>entitlements := es\<rparr>) t = policy_for db t"
  by (simp add: policy_for_def leave_policies_def)

lemma carry_write_entitlements [simp]:
  "carry_write y now ks (db\<lparr>entitlements := es\<rparr>) p = carry_write y now ks db p"
  by (simp add: carry_write_def fun_eq_iff)

definition carry_hits ::
    "int \<Rightarrow> (string \<times> leave_type) set \<Rightarrow> workforce_db \<Rightarrow> entitlement_row \<Rightarrow> entitlement_row \<Rightarrow> bool" where
  "carry_hits year keys db prior g \<longleftrightarrow>
     0 < carry_days db prior \<and> (en_employeeId prior, en_leaveType prior) \<in> keys \<and>
     en_key g = (en_employeeId prior, en_leaveType prior, year)"

lemma carry_write_miss: "\<not> carry_hits y ks db p g \<Longrightarrow> carry_write y now ks db p g = g"
  by (auto simp: carry_write_def carry_hits_def)

lemma carry_write_hit:
  "carry_hits y ks db p g \<Longrightarrow> carry_write y now ks db p g =
     g\<lparr>en_carriedOverDays := carry_days db p,
       en_carriedOverExpiresOn := carry_over_expiry_date y
         (carryOverExpiryMonths (policy_for db (en_leaveType p))),
       en_updatedAt := now\<rparr>"
  by (auto simp: carry_write_def carry_hits_def)

lemma carry_write_overwritten:
  "(carry_write y now ks db q h)\<lparr>en_carriedOverDays := a, en_carriedOverExpiresOn := b, en_updatedAt := c\<rparr>
     = h\<lparr>en_carriedOverDays := a, en_carriedOverExpiresOn := b, en_updatedAt := c\<rparr>"
  by (simp add: carry_write_def)

lemma carry_step_db:
  "snd (carry_step y now ks (rep, db) p) =
     db\<lparr>entitlements := map (carry_write y now ks db p) (entitlements db)\<rparr>"
proof (cases "0 < carry_days db p \<and> (en_employeeId p, en_leaveType p) \<in> ks")
  case True
  then show ?thesis
    by (auto simp: carry_step_def Let_def carry_write_def modify_row_def update_where_def)
next
  case False
  then have "map (carry_write y now ks db p) (entitlements db) = entitlements db"
    by (intro map_idI) (auto simp: carry_write_def)
  with False show ?thesis by (auto simp: carry_step_def Let_def)
qed

lemma carry_step_report:
  "fst (carry_step y now ks (rep, db\<lparr>entitlements := es\<rparr>) p) = fst (carry_step y now ks (rep, db) p)"
  by (simp add: carry_step_def Let_def)

lemma carry_fold_db:
  "snd (foldl (carry_step y now ks) (rep, db) ps) =
     db\<lparr>entitlements := map (\<lambda>g. foldl (\<lambda>g p. carry_write y now ks db p g) g ps) (entitlements db)\<rparr>"
proof (induction ps arbitrary: rep db)
  case Nil
  then show ?case by simp
next
  case (Cons p ps)
  obtain rep' db' where st: "carry_step y now ks (rep, db) p = (rep', db')" by fastforce
  with carry_step_db [of y now ks rep db p]
  have "db' = db\<lparr>entitlements := map (carry_write y now ks db p) (entitlements db)\<rparr>" by simp
  with st Cons.IH [of rep' db'] show ?case by (simp add: o_def)
qed

lemma carry_fold_report:
  "fst (foldl (carry_step y now ks) (rep, db\<lparr>entitlements := es\<rparr>) ps) =
     fst (foldl (carry_step y now ks) (rep, db) ps)"
proof (induction ps arbitrary: rep db es)
  case Nil
  then show ?case by simp
next
  case (Cons p ps)
  obtain rep1 db1 where 1: "carry_step y now ks (rep, db) p = (rep1, db1)" by fastforce
  obtain rep2 db2 where 2: "carry_step y now ks (rep, db\<lparr>entitlements := es\<rparr>) p = (rep2, db2)"
    by fastforce
  have "rep2 = rep1" using 1 2 carry_step_report [where y = y and now = now and ks = ks and rep = rep and db = db and es = es and p = p] by simp
  moreover have "db1 = db\<lparr>entitlements := entitlements db1\<rparr>"
    using 1 carry_step_db [of y now ks rep db p] by auto
  moreover have "db2 = db\<lparr>entitlements := entitlements db2\<rparr>"
    using 2 carry_step_db [of y now ks rep "db\<lparr>entitlements := es\<rparr>" p] by auto
  ultimately show ?case
    using 1 2 Cons.IH [where rep = rep1 and db = db and es = "entitlements db1"]
      Cons.IH [where rep = rep1 and db = db and es = "entitlements db2"] by simp
qed

lemma carry_hits_cong: "en_key g = en_key h \<Longrightarrow> carry_hits y ks db p g = carry_hits y ks db p h"
  by (simp add: carry_hits_def)

definition carry_all ::
    "int \<Rightarrow> int \<Rightarrow> (string \<times> leave_type) set \<Rightarrow> workforce_db \<Rightarrow> entitlement_row list \<Rightarrow>
     entitlement_row \<Rightarrow> entitlement_row" where
  "carry_all y now ks db ps g = foldl (\<lambda>g p. carry_write y now ks db p g) g ps"

lemma carry_all_simps [simp]:
  "carry_all y now ks db [] g = g"
  "carry_all y now ks db (ps @ [p]) g = carry_write y now ks db p (carry_all y now ks db ps g)"
  by (simp_all add: carry_all_def)

lemma en_key_carry_all [simp]: "en_key (carry_all y now ks db ps g) = en_key g"
  by (induction ps rule: rev_induct) simp_all

lemma en_year_carry_all [simp]: "en_year (carry_all y now ks db ps g) = en_year g"
  by (induction ps rule: rev_induct) simp_all

lemma carry_all_other_year: "en_year g \<noteq> y \<Longrightarrow> carry_all y now ks db ps g = g"
  by (induction ps rule: rev_induct) (simp_all add: carry_write_other_year)

lemma carry_all_overwritten:
  "(carry_all y now ks db ps h)\<lparr>en_carriedOverDays := a, en_carriedOverExpiresOn := b, en_updatedAt := c\<rparr>
     = h\<lparr>en_carriedOverDays := a, en_carriedOverExpiresOn := b, en_updatedAt := c\<rparr>"
  by (induction ps rule: rev_induct) (simp_all add: carry_write_overwritten)

lemma carry_all_idem:
  "carry_all y now ks db ps (carry_all y now ks db ps g) = carry_all y now ks db ps g"
proof (induction ps arbitrary: g rule: rev_induct)
  case Nil
  then show ?case by simp
next
  case (snoc p ps)
  let ?A = "carry_all y now ks db ps" and ?W = "carry_write y now ks db p"
  show ?case
  proof (cases "carry_hits y ks db p g")
    case True
    then have "carry_hits y ks db p (?A (?W (?A g)))" and "carry_hits y ks db p (?A g)"
      by (simp_all add: carry_hits_def)
    then show ?thesis by (simp add: carry_write_hit carry_all_overwritten)
  next
    case False
    then have "?W h = h" if "en_key h = en_key g" for h
      using that carry_hits_cong carry_write_miss by metis
    with snoc show ?thesis by simp
  qed
qed

lemma run_carry_over_twice:
  "run_carry_over year now (snd (run_carry_over year now db)) = run_carry_over year now db"
proof -
  define es where "es = entitlements db"
  define ks where "ks = set (map (\<lambda>g. (en_employeeId g, en_leaveType g)) (filter (\<lambda>g. en_year g = year) es))"
  define ps where "ps = filter (\<lambda>g. en_year g = year - 1) es"
  define F where "F = carry_all year now ks db ps"
  define db' where "db' = snd (run_carry_over year now db)"
  have run1: "run_carry_over year now db =
      foldl (carry_step year now ks) (\<lparr>applied = [], skippedNoTargetRow = []\<rparr>, db) ps"
    by (simp add: run_carry_over_def Let_def ks_def ps_def es_def)
  have db': "db' = db\<lparr>entitlements := map F es\<rparr>"
    unfolding db'_def run1 carry_fold_db F_def es_def carry_all_def ..
  have F_key: "en_key (F g) = en_key g" and F_year: "en_year (F g) = en_year g"
    and F_other: "en_year g \<noteq> year \<Longrightarrow> F g = g" for g
    by (simp_all add: F_def carry_all_other_year)
  have "filter (\<lambda>g. en_year g = year - 1) (map F es) = ps"
    unfolding ps_def by (induction es) (auto simp: F_year F_other)
  moreover have "map (\<lambda>g. (en_employeeId g, en_leaveType g)) (filter (\<lambda>g. en_year g = year) (map F es)) =
      map (\<lambda>g. (en_employeeId g, en_leaveType g)) (filter (\<lambda>g. en_year g = year) es)"
    using F_key unfolding en_key_def by (induction es) (auto simp: F_year)
  ultimately have run2: "run_carry_over year now db' =
      foldl (carry_step year now ks) (\<lparr>applied = [], skippedNoTargetRow = []\<rparr>, db') ps"
    unfolding run_carry_over_def Let_def db' ks_def by simp
  have "fst (run_carry_over year now db') = fst (run_carry_over year now db)"
    unfolding run1 run2 unfolding db' by (rule carry_fold_report)
  moreover have "snd (run_carry_over year now db') = db'"
    unfolding run2 carry_fold_db by (simp add: db' carry_all_def [symmetric] carry_all_idem F_def o_def)
  ultimately show ?thesis
    unfolding db'_def by (simp add: prod_eq_iff)
qed

end
