(* ===== verification/WorkforceTypes.thy ===== *)
theory WorkforceTypes
  imports HookRaces LeaveBalance
begin

text \<open>
  The four request types of the workforce module that keep a domain row in step with the engine:
  \<^verbatim>\<open>leave-request.type-def.ts\<close>, \<^verbatim>\<open>wfh-request.type-def.ts\<close>, \<^verbatim>\<open>overtime.type-def.ts\<close> and
  \<^verbatim>\<open>attendance-justification.type-def.ts\<close> under \<^verbatim>\<open>libs/modules/workforce/src/application\<close>, and the
  month lock their hooks consult (\<^verbatim>\<open>domain/attendance-month-lock.ts\<close>).

  A hook runs in the engine's transaction, so the advisory locks it takes only order transactions;
  the model runs transactions one at a time and keeps no lock. The \<^verbatim>\<open>before\<close>/\<^verbatim>\<open>after\<close> documents of an
  audit entry are prose for a reader and are left out: the entry keeps who, what and which row.

  The theory interprets \<open>late_request_hooks\<close> on these types: each hook leaves its row agreeing with the
  status the engine gives the request, whenever its transaction runs, and touches no other row.
\<close>

section \<open>The month lock\<close>

text \<open>A month is a pair of year and month number; \<^verbatim>\<open>YYYY-MM\<close> strings sort as the pairs do.\<close>

function months_from :: "int \<Rightarrow> int \<Rightarrow> int \<Rightarrow> int \<Rightarrow> (int \<times> int) list" where
  "months_from y m ey em =
     (if y < ey \<or> (y = ey \<and> m \<le> em)
      then (y, m) # (if m + 1 > 12 then months_from (y + 1) 1 ey em else months_from y (m + 1) ey em)
      else [])"
  by pat_completeness auto
termination
  by (relation "measures [\<lambda>(y, m, ey, em). nat (ey + 1 - y), \<lambda>(y, m, ey, em). nat (13 - m)]") auto

declare months_from.simps [simp del]

definition months_of_range :: "iso_date \<Rightarrow> iso_date \<Rightarrow> (int \<times> int) list" where
  "months_of_range s e = sort (remdups (months_from (iyear s) (imonth s) (iyear e) (imonth e)))"

definition assert_months_open :: "iso_date \<Rightarrow> iso_date \<Rightarrow> workforce_db \<Rightarrow> unit result" where
  "assert_months_open s e db =
     (if list_ex (\<lambda>month. month \<in> set (map cl_month (month_closes db))) (months_of_range s e)
      then Inl (PreconditionFailedException ''ATTENDANCE_MONTH_CLOSED'')
      else Inr ())"

definition month_of :: "iso_date \<Rightarrow> int \<times> int" where
  "month_of d = (iyear d, imonth d)"

lemma months_step:
  fixes y m y' m' ey em :: int
  assumes "(y' = y \<and> m' = m + 1) \<or> (y' = y + 1 \<and> m' = 1 \<and> m = 12)" and "1 \<le> m" and "m \<le> 12"
    and "y < ey \<or> (y = ey \<and> m \<le> em)"
  shows "insert (y, m) {q. (y', m') \<le> q \<and> q \<le> (ey, em) \<and> 1 \<le> snd q \<and> snd q \<le> 12} =
    {q. (y, m) \<le> q \<and> q \<le> (ey, em) \<and> 1 \<le> snd q \<and> snd q \<le> 12}"
proof (rule set_eqI)
  fix q :: "int \<times> int"
  obtain a b where q: "q = (a, b)" by fastforce
  show "q \<in> insert (y, m) {q. (y', m') \<le> q \<and> q \<le> (ey, em) \<and> 1 \<le> snd q \<and> snd q \<le> 12} \<longleftrightarrow>
      q \<in> {q. (y, m) \<le> q \<and> q \<le> (ey, em) \<and> 1 \<le> snd q \<and> snd q \<le> 12}"
    using assms unfolding q by simp arith
qed

lemma set_months_from:
  "1 \<le> m \<Longrightarrow> m \<le> 12 \<Longrightarrow> em \<le> 12 \<Longrightarrow>
   set (months_from y m ey em) = {q. (y, m) \<le> q \<and> q \<le> (ey, em) \<and> 1 \<le> snd q \<and> snd q \<le> 12}"
proof (induction y m ey em rule: months_from.induct)
  case (1 y m ey em)
  show ?case
  proof (cases "y < ey \<or> (y = ey \<and> m \<le> em)")
    case False
    then show ?thesis by (subst months_from.simps) (auto simp: less_eq_prod_def)
  next
    case True
    show ?thesis
    proof (cases "m + 1 > 12")
      case t: True
      then have m: "m = 12" using 1 by simp
      have IH: "set (months_from (y + 1) 1 ey em) =
          {q. (y + 1, 1) \<le> q \<and> q \<le> (ey, em) \<and> 1 \<le> snd q \<and> snd q \<le> 12}"
        using 1 True t by simp
      have "months_from y m ey em = (y, m) # months_from (y + 1) 1 ey em"
        by (subst months_from.simps) (use True m in simp)
      then have "set (months_from y m ey em) =
          insert (y, m) {q. (y + 1, 1) \<le> q \<and> q \<le> (ey, em) \<and> 1 \<le> snd q \<and> snd q \<le> 12}"
        using IH by simp
      also have "\<dots> = {q. (y, m) \<le> q \<and> q \<le> (ey, em) \<and> 1 \<le> snd q \<and> snd q \<le> 12}"
        by (rule months_step) (use True m in auto)
      finally show ?thesis .
    next
      case f: False
      have IH: "set (months_from y (m + 1) ey em) =
          {q. (y, m + 1) \<le> q \<and> q \<le> (ey, em) \<and> 1 \<le> snd q \<and> snd q \<le> 12}"
        using 1 True f by simp
      have "months_from y m ey em = (y, m) # months_from y (m + 1) ey em"
        by (subst months_from.simps) (use True f in simp)
      then have "set (months_from y m ey em) =
          insert (y, m) {q. (y, m + 1) \<le> q \<and> q \<le> (ey, em) \<and> 1 \<le> snd q \<and> snd q \<le> 12}"
        using IH by simp
      also have "\<dots> = {q. (y, m) \<le> q \<and> q \<le> (ey, em) \<and> 1 \<le> snd q \<and> snd q \<le> 12}"
        by (rule months_step) (use True f 1 in auto)
      finally show ?thesis .
    qed
  qed
qed

lemma set_months_of_range:
  "valid_date s \<Longrightarrow> valid_date e \<Longrightarrow>
   set (months_of_range s e) = {q. month_of s \<le> q \<and> q \<le> month_of e \<and> 1 \<le> snd q \<and> snd q \<le> 12}"
  by (cases s; cases e) (simp add: months_of_range_def month_of_def set_months_from)

lemma assert_months_open_iff:
  "assert_months_open s e db = Inr u \<longleftrightarrow> (\<forall>month \<in> set (months_of_range s e). month \<notin> cl_month ` set (month_closes db))"
  by (auto simp: assert_months_open_def list_ex_iff)

section \<open>Payloads\<close>

record leave_payload =
  lp_leaveRequestId :: string
  lp_employeeId :: string
  lp_leaveType :: leave_type
  lp_startDate :: iso_date
  lp_endDate :: iso_date
  lp_startPortion :: leave_day_portion
  lp_endPortion :: leave_day_portion
  lp_workingDays :: rat
  lp_reason :: "string option"

record wfh_payload =
  wp_wfhRequestId :: string
  wp_employeeId :: string
  wp_startDate :: iso_date
  wp_endDate :: iso_date
  wp_workingDays :: int
  wp_reason :: "string option"

record overtime_payload =
  op_overtimeId :: string
  op_employeeId :: string
  op_workDate :: iso_date
  op_hours :: rat
  op_reason :: string

record justification_payload =
  jp_justificationId :: string
  jp_employeeId :: string
  jp_startDate :: iso_date
  jp_endDate :: iso_date
  jp_kind :: justification_kind
  jp_workingDays :: rat
  jp_reason :: "string option"

text \<open>The engine stores a payload without its type; the tag is the type it was filed under.\<close>

datatype workforce_payload =
    Leave_payload leave_payload
  | Wfh_payload wfh_payload
  | Overtime_payload overtime_payload
  | Justification_payload justification_payload

definition record_audit :: "string option \<Rightarrow> string \<Rightarrow> string \<Rightarrow> workforce_db \<Rightarrow> workforce_db" where
  "record_audit who action resourceId db =
     db\<lparr>audit_log := audit_log db @ [\<lparr>au_actorId = who, au_action = action, au_resourceId = resourceId\<rparr>]\<rparr>"

section \<open>Leave\<close>

definition leave_assert_pending :: "string \<Rightarrow> workforce_db \<Rightarrow> unit result" where
  "leave_assert_pending rid db =
     (case find_row lr_id rid (leave_requests db) of
        None \<Rightarrow> Inl (ThrownError ''leave request is not pending'')
      | Some row \<Rightarrow>
          if lr_status row \<noteq> Review_pending then Inl (ThrownError ''leave request is not pending'') else Inr ())"

definition leave_set_status ::
    "string \<Rightarrow> review_status \<Rightarrow> (string \<times> int) option \<Rightarrow> workforce_db \<Rightarrow> workforce_db" where
  "leave_set_status rid status review db =
     db\<lparr>leave_requests := modify_row lr_id rid
          (\<lambda>row. case review of
             None \<Rightarrow> row\<lparr>lr_status := status\<rparr>
           | Some (reviewer, now) \<Rightarrow>
               row\<lparr>lr_status := status, lr_reviewerId := Some reviewer, lr_reviewedAt := Some now\<rparr>)
          (leave_requests db)\<rparr>"

definition leave_on_approve :: "leave_payload \<Rightarrow> string \<Rightarrow> string \<Rightarrow> int \<Rightarrow> workforce_db \<Rightarrow> workforce_db result" where
  "leave_on_approve payload requestId userId now db =
     and_then (leave_assert_pending (lp_leaveRequestId payload) db) (\<lambda>_.
     and_then (assert_months_open (lp_startDate payload) (lp_endDate payload) db) (\<lambda>_.
       Inr (record_audit (Some userId) ''leave.approved'' (lp_leaveRequestId payload)
              (leave_set_status (lp_leaveRequestId payload) Review_approved (Some (userId, now)) db))))"

definition leave_on_reject :: "leave_payload \<Rightarrow> string \<Rightarrow> string \<Rightarrow> int \<Rightarrow> workforce_db \<Rightarrow> workforce_db result" where
  "leave_on_reject payload requestId userId now db =
     and_then (leave_assert_pending (lp_leaveRequestId payload) db) (\<lambda>_.
     and_then (assert_months_open (lp_startDate payload) (lp_endDate payload) db) (\<lambda>_.
       Inr (record_audit (Some userId) ''leave.rejected'' (lp_leaveRequestId payload)
              (leave_set_status (lp_leaveRequestId payload) Review_rejected (Some (userId, now)) db))))"

definition leave_on_cancel :: "leave_payload \<Rightarrow> string \<Rightarrow> string \<Rightarrow> int \<Rightarrow> workforce_db \<Rightarrow> workforce_db result" where
  "leave_on_cancel payload requestId userId now db =
     and_then (leave_assert_pending (lp_leaveRequestId payload) db) (\<lambda>_.
     and_then (assert_months_open (lp_startDate payload) (lp_endDate payload) db) (\<lambda>_.
       Inr (record_audit (Some userId) ''leave.cancelled'' (lp_leaveRequestId payload)
              (leave_set_status (lp_leaveRequestId payload) Review_cancelled None db))))"

definition leave_on_expire :: "leave_payload \<Rightarrow> string \<Rightarrow> int \<Rightarrow> workforce_db \<Rightarrow> workforce_db result" where
  "leave_on_expire payload requestId now db =
     Inr (record_audit None ''leave.cancelled'' (lp_leaveRequestId payload)
            (leave_set_status (lp_leaveRequestId payload) Review_cancelled None db))"

section \<open>Work from home\<close>

definition wfh_assert_pending :: "string \<Rightarrow> workforce_db \<Rightarrow> unit result" where
  "wfh_assert_pending rid db =
     (case find_row wr_id rid (wfh_requests db) of
        None \<Rightarrow> Inl (ThrownError ''WFH request is not pending'')
      | Some row \<Rightarrow>
          if wr_status row \<noteq> Review_pending then Inl (ThrownError ''WFH request is not pending'') else Inr ())"

definition wfh_set_status ::
    "string \<Rightarrow> review_status \<Rightarrow> (string \<times> int) option \<Rightarrow> workforce_db \<Rightarrow> workforce_db" where
  "wfh_set_status rid status review db =
     db\<lparr>wfh_requests := modify_row wr_id rid
          (\<lambda>row. case review of
             None \<Rightarrow> row\<lparr>wr_status := status\<rparr>
           | Some (reviewer, now) \<Rightarrow>
               row\<lparr>wr_status := status, wr_reviewerId := Some reviewer, wr_reviewedAt := Some now\<rparr>)
          (wfh_requests db)\<rparr>"

definition wfh_on_approve :: "wfh_payload \<Rightarrow> string \<Rightarrow> string \<Rightarrow> int \<Rightarrow> workforce_db \<Rightarrow> workforce_db result" where
  "wfh_on_approve payload requestId userId now db =
     and_then (wfh_assert_pending (wp_wfhRequestId payload) db) (\<lambda>_.
     and_then (assert_months_open (wp_startDate payload) (wp_endDate payload) db) (\<lambda>_.
       Inr (record_audit (Some userId) ''wfh.approved'' (wp_wfhRequestId payload)
              (wfh_set_status (wp_wfhRequestId payload) Review_approved (Some (userId, now)) db))))"

definition wfh_on_reject :: "wfh_payload \<Rightarrow> string \<Rightarrow> string \<Rightarrow> int \<Rightarrow> workforce_db \<Rightarrow> workforce_db result" where
  "wfh_on_reject payload requestId userId now db =
     and_then (wfh_assert_pending (wp_wfhRequestId payload) db) (\<lambda>_.
     and_then (assert_months_open (wp_startDate payload) (wp_endDate payload) db) (\<lambda>_.
       Inr (record_audit (Some userId) ''wfh.rejected'' (wp_wfhRequestId payload)
              (wfh_set_status (wp_wfhRequestId payload) Review_rejected (Some (userId, now)) db))))"

definition wfh_on_cancel :: "wfh_payload \<Rightarrow> string \<Rightarrow> string \<Rightarrow> int \<Rightarrow> workforce_db \<Rightarrow> workforce_db result" where
  "wfh_on_cancel payload requestId userId now db =
     and_then (wfh_assert_pending (wp_wfhRequestId payload) db) (\<lambda>_.
     and_then (assert_months_open (wp_startDate payload) (wp_endDate payload) db) (\<lambda>_.
       Inr (record_audit (Some userId) ''wfh.cancelled'' (wp_wfhRequestId payload)
              (wfh_set_status (wp_wfhRequestId payload) Review_cancelled None db))))"

definition wfh_on_expire :: "wfh_payload \<Rightarrow> string \<Rightarrow> int \<Rightarrow> workforce_db \<Rightarrow> workforce_db result" where
  "wfh_on_expire payload requestId now db =
     Inr (record_audit None ''wfh.cancelled'' (wp_wfhRequestId payload)
            (wfh_set_status (wp_wfhRequestId payload) Review_cancelled None db))"

section \<open>Attendance justifications\<close>

definition justification_assert_pending :: "string \<Rightarrow> workforce_db \<Rightarrow> unit result" where
  "justification_assert_pending rid db =
     (case find_row jr_id rid (justifications db) of
        None \<Rightarrow> Inl (ThrownError ''justification is not pending'')
      | Some row \<Rightarrow>
          if jr_status row \<noteq> Review_pending then Inl (ThrownError ''justification is not pending'') else Inr ())"

definition justification_set_status ::
    "string \<Rightarrow> review_status \<Rightarrow> (string \<times> int) option \<Rightarrow> workforce_db \<Rightarrow> workforce_db" where
  "justification_set_status rid status review db =
     db\<lparr>justifications := modify_row jr_id rid
          (\<lambda>row. case review of
             None \<Rightarrow> row\<lparr>jr_status := status\<rparr>
           | Some (reviewer, now) \<Rightarrow>
               row\<lparr>jr_status := status, jr_reviewerId := Some reviewer, jr_reviewedAt := Some now\<rparr>)
          (justifications db)\<rparr>"

definition justification_on_approve :: "justification_payload \<Rightarrow> string \<Rightarrow> string \<Rightarrow> int \<Rightarrow> workforce_db \<Rightarrow> workforce_db result" where
  "justification_on_approve payload requestId userId now db =
     and_then (justification_assert_pending (jp_justificationId payload) db) (\<lambda>_.
     and_then (assert_months_open (jp_startDate payload) (jp_endDate payload) db) (\<lambda>_.
       Inr (record_audit (Some userId) ''attendance_justification.approved'' (jp_justificationId payload)
              (justification_set_status (jp_justificationId payload) Review_approved (Some (userId, now)) db))))"

definition justification_on_reject :: "justification_payload \<Rightarrow> string \<Rightarrow> string \<Rightarrow> int \<Rightarrow> workforce_db \<Rightarrow> workforce_db result" where
  "justification_on_reject payload requestId userId now db =
     and_then (justification_assert_pending (jp_justificationId payload) db) (\<lambda>_.
     and_then (assert_months_open (jp_startDate payload) (jp_endDate payload) db) (\<lambda>_.
       Inr (record_audit (Some userId) ''attendance_justification.rejected'' (jp_justificationId payload)
              (justification_set_status (jp_justificationId payload) Review_rejected (Some (userId, now)) db))))"

definition justification_on_cancel :: "justification_payload \<Rightarrow> string \<Rightarrow> string \<Rightarrow> int \<Rightarrow> workforce_db \<Rightarrow> workforce_db result" where
  "justification_on_cancel payload requestId userId now db =
     and_then (justification_assert_pending (jp_justificationId payload) db) (\<lambda>_.
     and_then (assert_months_open (jp_startDate payload) (jp_endDate payload) db) (\<lambda>_.
       Inr (record_audit (Some userId) ''attendance_justification.cancelled'' (jp_justificationId payload)
              (justification_set_status (jp_justificationId payload) Review_cancelled None db))))"

definition justification_on_expire :: "justification_payload \<Rightarrow> string \<Rightarrow> int \<Rightarrow> workforce_db \<Rightarrow> workforce_db result" where
  "justification_on_expire payload requestId now db =
     Inr (record_audit None ''attendance_justification.cancelled'' (jp_justificationId payload)
            (justification_set_status (jp_justificationId payload) Review_cancelled None db))"

section \<open>Overtime\<close>

text \<open>No pending check, no month check and no cancellation hook.\<close>

definition overtime_set_status ::
    "string \<Rightarrow> overtime_status \<Rightarrow> (string \<times> int) option \<Rightarrow> workforce_db \<Rightarrow> workforce_db" where
  "overtime_set_status rid status review db =
     db\<lparr>overtime_entries := modify_row or_id rid
          (\<lambda>row. case review of
             None \<Rightarrow> row\<lparr>or_status := status\<rparr>
           | Some (reviewer, now) \<Rightarrow>
               row\<lparr>or_status := status, or_reviewerId := Some reviewer, or_reviewedAt := Some now\<rparr>)
          (overtime_entries db)\<rparr>"

definition overtime_on_approve :: "overtime_payload \<Rightarrow> string \<Rightarrow> string \<Rightarrow> int \<Rightarrow> workforce_db \<Rightarrow> workforce_db result" where
  "overtime_on_approve payload requestId userId now db =
     Inr (record_audit (Some userId) ''overtime.approved'' (op_overtimeId payload)
            (overtime_set_status (op_overtimeId payload) Overtime_approved (Some (userId, now)) db))"

definition overtime_on_reject :: "overtime_payload \<Rightarrow> string \<Rightarrow> string \<Rightarrow> int \<Rightarrow> workforce_db \<Rightarrow> workforce_db result" where
  "overtime_on_reject payload requestId userId now db =
     Inr (record_audit (Some userId) ''overtime.rejected'' (op_overtimeId payload)
            (overtime_set_status (op_overtimeId payload) Overtime_rejected (Some (userId, now)) db))"

definition overtime_on_expire :: "overtime_payload \<Rightarrow> string \<Rightarrow> int \<Rightarrow> workforce_db \<Rightarrow> workforce_db result" where
  "overtime_on_expire payload requestId now db =
     Inr (record_audit None ''overtime.rejected'' (op_overtimeId payload)
            (overtime_set_status (op_overtimeId payload) Overtime_rejected None db))"

section \<open>The type definitions\<close>

text \<open>
  A hook given a payload of another type finds no row of its own; the engine never does that, since
  a request keeps the type it was filed under.
\<close>

definition foreign_payload :: "workforce_db result" where
  "foreign_payload = Inl (ThrownError ''row is not pending'')"

fun on_leave ::
    "(leave_payload \<Rightarrow> string \<Rightarrow> string \<Rightarrow> int \<Rightarrow> workforce_db \<Rightarrow> workforce_db result) \<Rightarrow>
     (workforce_payload, workforce_db) decision_hook" where
  "on_leave hook (Leave_payload p) = hook p"
| "on_leave hook _ = (\<lambda>requestId u now d. foreign_payload)"

fun on_wfh ::
    "(wfh_payload \<Rightarrow> string \<Rightarrow> string \<Rightarrow> int \<Rightarrow> workforce_db \<Rightarrow> workforce_db result) \<Rightarrow>
     (workforce_payload, workforce_db) decision_hook" where
  "on_wfh hook (Wfh_payload p) = hook p"
| "on_wfh hook _ = (\<lambda>requestId u now d. foreign_payload)"

fun on_overtime ::
    "(overtime_payload \<Rightarrow> string \<Rightarrow> string \<Rightarrow> int \<Rightarrow> workforce_db \<Rightarrow> workforce_db result) \<Rightarrow>
     (workforce_payload, workforce_db) decision_hook" where
  "on_overtime hook (Overtime_payload p) = hook p"
| "on_overtime hook _ = (\<lambda>requestId u now d. foreign_payload)"

fun on_justification ::
    "(justification_payload \<Rightarrow> string \<Rightarrow> string \<Rightarrow> int \<Rightarrow> workforce_db \<Rightarrow> workforce_db result) \<Rightarrow>
     (workforce_payload, workforce_db) decision_hook" where
  "on_justification hook (Justification_payload p) = hook p"
| "on_justification hook _ = (\<lambda>requestId u now d. foreign_payload)"

definition leave_type_def :: "(workforce_payload, workforce_db) type_def" where
  "leave_type_def =
     \<lparr>td_type = ''leave_request'', td_requiredApprovalPermission = ''workforce.leave.review'',
      td_allowSelfApproval = False, td_defaultExpiryHours = Some 72, td_slaHours = Some 48,
      td_approvalSteps = None, td_onSubmit = None,
      td_onApprove = on_leave leave_on_approve, td_onStepApproved = None,
      td_onReject = Some (on_leave leave_on_reject), td_onCancel = Some (on_leave leave_on_cancel),
      td_onExpire = Some (\<lambda>p rid now d. case p of
        Leave_payload q \<Rightarrow> leave_on_expire q rid now d | _ \<Rightarrow> foreign_payload)\<rparr>"

definition wfh_type :: "(workforce_payload, workforce_db) type_def" where
  "wfh_type =
     \<lparr>td_type = ''wfh_request'', td_requiredApprovalPermission = ''workforce.wfh.review'',
      td_allowSelfApproval = False, td_defaultExpiryHours = Some 72, td_slaHours = Some 48,
      td_approvalSteps = None, td_onSubmit = None,
      td_onApprove = on_wfh wfh_on_approve, td_onStepApproved = None,
      td_onReject = Some (on_wfh wfh_on_reject), td_onCancel = Some (on_wfh wfh_on_cancel),
      td_onExpire = Some (\<lambda>p rid now d. case p of
        Wfh_payload q \<Rightarrow> wfh_on_expire q rid now d | _ \<Rightarrow> foreign_payload)\<rparr>"

definition overtime_type :: "(workforce_payload, workforce_db) type_def" where
  "overtime_type =
     \<lparr>td_type = ''overtime'', td_requiredApprovalPermission = ''workforce.overtime.review'',
      td_allowSelfApproval = False, td_defaultExpiryHours = Some 72, td_slaHours = Some 48,
      td_approvalSteps = None, td_onSubmit = None,
      td_onApprove = on_overtime overtime_on_approve, td_onStepApproved = None,
      td_onReject = Some (on_overtime overtime_on_reject), td_onCancel = None,
      td_onExpire = Some (\<lambda>p rid now d. case p of
        Overtime_payload q \<Rightarrow> overtime_on_expire q rid now d | _ \<Rightarrow> foreign_payload)\<rparr>"

definition justification_type :: "(workforce_payload, workforce_db) type_def" where
  "justification_type =
     \<lparr>td_type = ''attendance_justification'', td_requiredApprovalPermission = ''workforce.attendance.review'',
      td_allowSelfApproval = False, td_defaultExpiryHours = Some 72, td_slaHours = Some 48,
      td_approvalSteps = None, td_onSubmit = None,
      td_onApprove = on_justification justification_on_approve, td_onStepApproved = None,
      td_onReject = Some (on_justification justification_on_reject), td_onCancel = Some (on_justification justification_on_cancel),
      td_onExpire = Some (\<lambda>p rid now d. case p of
        Justification_payload q \<Rightarrow> justification_on_expire q rid now d | _ \<Rightarrow> foreign_payload)\<rparr>"

definition workforce_registry :: "(workforce_payload, workforce_db) registry" where
  "workforce_registry =
     register justification_type (register overtime_type (register wfh_type (register leave_type_def [])))"

section \<open>The hooks keep their rows in step\<close>

datatype domain_key = Leave_key string | Wfh_key string | Overtime_key string | Justification_key string

fun target :: "workforce_payload \<Rightarrow> domain_key" where
  "target (Leave_payload p) = Leave_key (lp_leaveRequestId p)"
| "target (Wfh_payload p) = Wfh_key (wp_wfhRequestId p)"
| "target (Overtime_payload p) = Overtime_key (op_overtimeId p)"
| "target (Justification_payload p) = Justification_key (jp_justificationId p)"

fun typed_payload :: "string \<Rightarrow> workforce_payload \<Rightarrow> bool" where
  "typed_payload t (Leave_payload p) \<longleftrightarrow> t = ''leave_request''"
| "typed_payload t (Wfh_payload p) \<longleftrightarrow> t = ''wfh_request''"
| "typed_payload t (Overtime_payload p) \<longleftrightarrow> t = ''overtime''"
| "typed_payload t (Justification_payload p) \<longleftrightarrow> t = ''attendance_justification''"

fun overtime_as_review :: "overtime_status \<Rightarrow> review_status" where
  "overtime_as_review Overtime_pending = Review_pending"
| "overtime_as_review Overtime_approved = Review_approved"
| "overtime_as_review Overtime_rejected = Review_rejected"

fun row_state :: "domain_key \<Rightarrow> workforce_db \<Rightarrow> review_status option" where
  "row_state (Leave_key i) db = map_option lr_status (find_row lr_id i (leave_requests db))"
| "row_state (Wfh_key i) db = map_option wr_status (find_row wr_id i (wfh_requests db))"
| "row_state (Overtime_key i) db =
     map_option (\<lambda>r. overtime_as_review (or_status r)) (find_row or_id i (overtime_entries db))"
| "row_state (Justification_key i) db = map_option jr_status (find_row jr_id i (justifications db))"

text \<open>
  Which row status is right for a request. Approved leave may be cancelled later by the service, and
  an overtime entry has no cancelled status: it stays pending behind a cancelled request and is
  rejected by an expired one.
\<close>

fun is_overtime :: "domain_key \<Rightarrow> bool" where
  "is_overtime (Overtime_key i) = True"
| "is_overtime _ = False"

fun is_leave :: "domain_key \<Rightarrow> bool" where
  "is_leave (Leave_key i) = True"
| "is_leave _ = False"

fun agrees :: "domain_key \<Rightarrow> request_status \<Rightarrow> review_status option \<Rightarrow> bool" where
  "agrees k Pending s \<longleftrightarrow> s = Some Review_pending"
| "agrees k In_review s \<longleftrightarrow> s = Some Review_pending"
| "agrees k Approved s \<longleftrightarrow> s = Some Review_approved \<or> (is_leave k \<and> s = Some Review_cancelled)"
| "agrees k Rejected s \<longleftrightarrow> s = Some Review_rejected"
| "agrees k Cancelled s \<longleftrightarrow> (if is_overtime k then s \<noteq> None else s = Some Review_cancelled)"
| "agrees k Expired s \<longleftrightarrow> s = Some (if is_overtime k then Review_rejected else Review_cancelled)"

interpretation leave_table: keyed_table lr_id "find_row lr_id" "modify_row lr_id" "keys_distinct lr_id"
  by (rule keyed_list_table)

interpretation wfh_table: keyed_table wr_id "find_row wr_id" "modify_row wr_id" "keys_distinct wr_id"
  by (rule keyed_list_table)

interpretation overtime_table: keyed_table or_id "find_row or_id" "modify_row or_id" "keys_distinct or_id"
  by (rule keyed_list_table)

interpretation justification_table: keyed_table jr_id "find_row jr_id" "modify_row jr_id" "keys_distinct jr_id"
  by (rule keyed_list_table)

lemma row_state_audit [simp]: "row_state k (record_audit who a i db) = row_state k db"
  by (cases k) (simp_all add: record_audit_def)

lemma row_state_leave_set [simp]:
  "row_state k (leave_set_status i st review db) =
     (if k = Leave_key i \<and> row_state k db \<noteq> None then Some st else row_state k db)"
  by (cases k; cases review)
    (auto simp: leave_set_status_def leave_table.lookup_modify split: prod.splits)

lemma row_state_wfh_set [simp]:
  "row_state k (wfh_set_status i st review db) =
     (if k = Wfh_key i \<and> row_state k db \<noteq> None then Some st else row_state k db)"
  by (cases k; cases review)
    (auto simp: wfh_set_status_def wfh_table.lookup_modify split: prod.splits)

lemma row_state_justification_set [simp]:
  "row_state k (justification_set_status i st review db) =
     (if k = Justification_key i \<and> row_state k db \<noteq> None then Some st else row_state k db)"
  by (cases k; cases review)
    (auto simp: justification_set_status_def justification_table.lookup_modify split: prod.splits)

lemma row_state_overtime_set [simp]:
  "row_state k (overtime_set_status i st review db) =
     (if k = Overtime_key i \<and> row_state k db \<noteq> None then Some (overtime_as_review st) else row_state k db)"
  by (cases k; cases review)
    (auto simp: overtime_set_status_def overtime_table.lookup_modify split: prod.splits)

declare row_state.simps [simp del]

lemma assert_pending_iff [simp]:
  "leave_assert_pending i db = Inr u \<longleftrightarrow> row_state (Leave_key i) db = Some Review_pending"
  "wfh_assert_pending i db = Inr u \<longleftrightarrow> row_state (Wfh_key i) db = Some Review_pending"
  "justification_assert_pending i db = Inr u \<longleftrightarrow> row_state (Justification_key i) db = Some Review_pending"
  by (auto simp: leave_assert_pending_def wfh_assert_pending_def justification_assert_pending_def
      row_state.simps split: option.splits)

lemma leave_hook_Inr:
  "leave_on_approve p rid u now d = Inr d' \<Longrightarrow> row_state k d' =
     (if k = Leave_key (lp_leaveRequestId p) \<and> row_state k d \<noteq> None then Some Review_approved else row_state k d)"
  "leave_on_reject p rid u now d = Inr d' \<Longrightarrow> row_state k d' =
     (if k = Leave_key (lp_leaveRequestId p) \<and> row_state k d \<noteq> None then Some Review_rejected else row_state k d)"
  "leave_on_cancel p rid u now d = Inr d' \<Longrightarrow> row_state k d' =
     (if k = Leave_key (lp_leaveRequestId p) \<and> row_state k d \<noteq> None then Some Review_cancelled else row_state k d)"
  "leave_on_expire p rid now d = Inr d' \<Longrightarrow> row_state k d' =
     (if k = Leave_key (lp_leaveRequestId p) \<and> row_state k d \<noteq> None then Some Review_cancelled else row_state k d)"
  by (auto simp: leave_on_approve_def leave_on_reject_def leave_on_cancel_def leave_on_expire_def
      and_then_eq_Inr)

lemma wfh_hook_Inr:
  "wfh_on_approve p rid u now d = Inr d' \<Longrightarrow> row_state k d' =
     (if k = Wfh_key (wp_wfhRequestId p) \<and> row_state k d \<noteq> None then Some Review_approved else row_state k d)"
  "wfh_on_reject p rid u now d = Inr d' \<Longrightarrow> row_state k d' =
     (if k = Wfh_key (wp_wfhRequestId p) \<and> row_state k d \<noteq> None then Some Review_rejected else row_state k d)"
  "wfh_on_cancel p rid u now d = Inr d' \<Longrightarrow> row_state k d' =
     (if k = Wfh_key (wp_wfhRequestId p) \<and> row_state k d \<noteq> None then Some Review_cancelled else row_state k d)"
  "wfh_on_expire p rid now d = Inr d' \<Longrightarrow> row_state k d' =
     (if k = Wfh_key (wp_wfhRequestId p) \<and> row_state k d \<noteq> None then Some Review_cancelled else row_state k d)"
  by (auto simp: wfh_on_approve_def wfh_on_reject_def wfh_on_cancel_def wfh_on_expire_def
      and_then_eq_Inr)

lemma justification_hook_Inr:
  "justification_on_approve p rid u now d = Inr d' \<Longrightarrow> row_state k d' =
     (if k = Justification_key (jp_justificationId p) \<and> row_state k d \<noteq> None then Some Review_approved else row_state k d)"
  "justification_on_reject p rid u now d = Inr d' \<Longrightarrow> row_state k d' =
     (if k = Justification_key (jp_justificationId p) \<and> row_state k d \<noteq> None then Some Review_rejected else row_state k d)"
  "justification_on_cancel p rid u now d = Inr d' \<Longrightarrow> row_state k d' =
     (if k = Justification_key (jp_justificationId p) \<and> row_state k d \<noteq> None then Some Review_cancelled else row_state k d)"
  "justification_on_expire p rid now d = Inr d' \<Longrightarrow> row_state k d' =
     (if k = Justification_key (jp_justificationId p) \<and> row_state k d \<noteq> None then Some Review_cancelled
      else row_state k d)"
  by (auto simp: justification_on_approve_def justification_on_reject_def justification_on_cancel_def
      justification_on_expire_def and_then_eq_Inr)

lemma overtime_hook_Inr:
  "overtime_on_approve p rid u now d = Inr d' \<Longrightarrow> row_state k d' =
     (if k = Overtime_key (op_overtimeId p) \<and> row_state k d \<noteq> None then Some Review_approved else row_state k d)"
  "overtime_on_reject p rid u now d = Inr d' \<Longrightarrow> row_state k d' =
     (if k = Overtime_key (op_overtimeId p) \<and> row_state k d \<noteq> None then Some Review_rejected else row_state k d)"
  "overtime_on_expire p rid now d = Inr d' \<Longrightarrow> row_state k d' =
     (if k = Overtime_key (op_overtimeId p) \<and> row_state k d \<noteq> None then Some Review_rejected else row_state k d)"
  by (auto simp: overtime_on_approve_def overtime_on_reject_def overtime_on_expire_def)

lemma set_workforce_registry:
  "set workforce_registry = {leave_type_def, wfh_type, overtime_type, justification_type}"
  by (auto simp: workforce_registry_def register_def registry_has_def leave_type_def_def wfh_type_def
      overtime_type_def justification_type_def)

lemma type_names [simp]:
  "td_type leave_type_def = ''leave_request''" "td_type wfh_type = ''wfh_request''"
  "td_type overtime_type = ''overtime''" "td_type justification_type = ''attendance_justification''"
  by (simp_all add: leave_type_def_def wfh_type_def overtime_type_def justification_type_def)

text \<open>Closing a request, seen at the rows: the target changes as the status asks, nothing else does.\<close>

definition closed_state :: "domain_key \<Rightarrow> request_status \<Rightarrow> review_status option \<Rightarrow> review_status option" where
  "closed_state k st s =
     (case st of
        Approved \<Rightarrow> Some Review_approved
      | Rejected \<Rightarrow> Some Review_rejected
      | Cancelled \<Rightarrow> if is_overtime k then s else Some Review_cancelled
      | _ \<Rightarrow> Some (if is_overtime k then Review_rejected else Review_cancelled))"

lemma closes_rows:
  assumes def: "def \<in> set workforce_registry" and ty: "typed_payload (td_type def) p"
    and run: "closes def p rid u now st d = Inr d'"
  shows "row_state k d' =
    (if k = target p \<and> row_state k d \<noteq> None then closed_state k st (row_state k d) else row_state k d)"
proof -
  have st: "st \<noteq> Pending" "st \<noteq> In_review" using run by (auto simp: closes_def)
  consider q where "p = Leave_payload q" "def = leave_type_def"
    | q where "p = Wfh_payload q" "def = wfh_type"
    | q where "p = Overtime_payload q" "def = overtime_type"
    | q where "p = Justification_payload q" "def = justification_type"
    using def ty by (cases p) (auto simp: set_workforce_registry)
  then show ?thesis
  proof cases
    case 1
    with run st show ?thesis
      by (cases st) (auto simp: closes_def leave_type_def_def closed_state_def dest!: leave_hook_Inr [where k = k])
  next
    case 2
    with run st show ?thesis
      by (cases st) (auto simp: closes_def wfh_type_def closed_state_def dest!: wfh_hook_Inr [where k = k])
  next
    case 3
    with run st show ?thesis
      by (cases st) (auto simp: closes_def overtime_type_def closed_state_def dest!: overtime_hook_Inr [where k = k])
  next
    case 4
    with run st show ?thesis
      by (cases st)
        (auto simp: closes_def justification_type_def closed_state_def dest!: justification_hook_Inr [where k = k])
  qed
qed

interpretation hooks: late_request_hooks workforce_registry typed_payload target row_state agrees
proof unfold_locales
  fix def :: "(workforce_payload, workforce_db) type_def"
  assume "def \<in> set workforce_registry"
  then show "td_approvalSteps def = None" "td_onSubmit def = None"
    by (auto simp: set_workforce_registry leave_type_def_def wfh_type_def overtime_type_def justification_type_def)
next
  fix def :: "(workforce_payload, workforce_db) type_def" and p s rid u now st d d'
  assume def: "def \<in> set workforce_registry" "typed_payload (td_type def) p"
    and before: "agrees (target p) s (row_state (target p) d)"
    and run: "closes def p rid u now st d = Inr d'"
  have st: "st \<noteq> Pending" "st \<noteq> In_review" using run by (auto simp: closes_def)
  have "row_state (target p) d \<noteq> None" using before by (cases s) (auto split: if_splits)
  with st closes_rows [OF def run, of "target p"]
  show "agrees (target p) st (row_state (target p) d')"
    by (cases st; cases "is_overtime (target p)") (auto simp: closed_state_def)
  then show "agrees (target p) st (row_state (target p) d')" .
next
  fix def :: "(workforce_payload, workforce_db) type_def" and p rid u now st d d' k
  assume "def \<in> set workforce_registry" "typed_payload (td_type def) p"
    "closes def p rid u now st d = Inr d'" "k \<noteq> target p"
  then show "row_state k d' = row_state k d" by (simp add: closes_rows)
qed

end
