(* ===== verification/Workforce.thy ===== *)
theory Workforce
  imports WorkforceTypes
begin

text \<open>
  The self-service half of the workforce module,
  \<^verbatim>\<open>libs/modules/workforce/src/application/workforce.service.ts\<close> with the queries it uses of
  \<^verbatim>\<open>infrastructure/persistence/workforce.drizzle-repository.ts\<close>: filing, deciding and cancelling
  leave, work from home and overtime, on top of the request engine.

  Filing is several transactions one after the other (insert the row, submit to the engine, link the
  two), so a failure in a later one leaves what the earlier ones wrote: a filing operation returns
  its answer and the state it leaves. Deciding and cancelling are one transaction and return a result.
  A per-employee advisory lock orders the insert transactions; the model runs them one at a time.
\<close>

type_synonym platform = "(workforce_payload, workforce_db) engine_db"

definition set_domain :: "platform \<Rightarrow> workforce_db \<Rightarrow> platform" where
  "set_domain db d = db\<lparr>domain_db := d\<rparr>"

definition assert_owner_or_approver :: "request_env \<Rightarrow> string \<Rightarrow> actor \<Rightarrow> unit result" where
  "assert_owner_or_approver env ownerId actor =
     (if ownerId = ac_sub actor then Inr ()
      else if ev_check env (ac_sub actor) ''workforce.approve'' then Inr ()
      else Inl (PermissionDeniedException ''FORBIDDEN''))"

text \<open>The engine calls of this module expire a request after 72 hours.\<close>

definition review_window :: "int \<Rightarrow> string option \<Rightarrow> submit_options" where
  "review_window now assigneeId =
     \<lparr>so_expiresAt = Some (now + 72 * MS_PER_HOUR), so_priority = None, so_assigneeId = assigneeId\<rparr>"

definition is_live :: "review_status \<Rightarrow> bool" where
  "is_live s \<longleftrightarrow> s \<in> {Review_pending, Review_approved}"

section \<open>Filing leave\<close>

record leave_input =
  li_leaveType :: leave_type
  li_startDate :: iso_date
  li_endDate :: iso_date
  li_startPortion :: "leave_day_portion option"
  li_endPortion :: "leave_day_portion option"
  li_reason :: "string option"

definition input_window :: "leave_input \<Rightarrow> leave_window" where
  "input_window input =
     \<lparr>startDate = li_startDate input, endDate = li_endDate input,
      startPortion = (case li_startPortion input of None \<Rightarrow> Full_day | Some p \<Rightarrow> p),
      endPortion = (case li_endPortion input of None \<Rightarrow> Full_day | Some p \<Rightarrow> p)\<rparr>"

definition overlapping_leave_candidates :: "string \<Rightarrow> iso_date \<Rightarrow> iso_date \<Rightarrow> workforce_db \<Rightarrow> leave_window list" where
  "overlapping_leave_candidates employeeId s e db =
     map lr_window
       (filter (\<lambda>r. lr_employeeId r = employeeId \<and> is_live (lr_status r) \<and>
                    startDate (lr_window r) \<le> e \<and> endDate (lr_window r) \<ge> s) (leave_requests db))"

definition overlapping_wfh_windows :: "string \<Rightarrow> iso_date \<Rightarrow> iso_date \<Rightarrow> workforce_db \<Rightarrow> (iso_date \<times> iso_date) list" where
  "overlapping_wfh_windows employeeId s e db =
     map (\<lambda>r. (wr_startDate r, wr_endDate r))
       (filter (\<lambda>r. wr_employeeId r = employeeId \<and> is_live (wr_status r) \<and>
                    wr_startDate r \<le> e \<and> wr_endDate r \<ge> s) (wfh_requests db))"

text \<open>What is checked before anything is written; the answer is the cost of the window in days.\<close>

definition quote_leave :: "leave_input \<Rightarrow> actor \<Rightarrow> workforce_db \<Rightarrow> rat result" where
  "quote_leave input actor db =
     (let window = input_window input
      in and_then (assert_months_open (li_startDate input) (li_endDate input) db) (\<lambda>_.
         case leave_window_violation window of
           Some violation \<Rightarrow> Inl (PreconditionFailedException ''LEAVE_INVALID_WINDOW'')
         | None \<Rightarrow>
             let workingDays = leave_cost_for window db
             in and_then (assert_sufficient_balance (ac_sub actor) (li_leaveType input)
                            (iyear (li_startDate input)) workingDays (li_endDate input) db)
                  (\<lambda>_. Inr workingDays)))"

definition new_leave_row :: "string \<Rightarrow> leave_input \<Rightarrow> actor \<Rightarrow> rat \<Rightarrow> leave_row" where
  "new_leave_row leave_id input actor workingDays =
     \<lparr>lr_id = leave_id, lr_employeeId = ac_sub actor, lr_leaveType = li_leaveType input,
      lr_window = input_window input, lr_reason = li_reason input, lr_workingDays = Some workingDays,
      lr_documentStorageKey = None, lr_status = Review_pending, lr_reviewerId = None,
      lr_reviewedAt = None, lr_requestId = None\<rparr>"

text \<open>The transaction under the employee's window lock.\<close>

definition insert_leave :: "string \<Rightarrow> leave_input \<Rightarrow> actor \<Rightarrow> rat \<Rightarrow> workforce_db \<Rightarrow> (leave_row \<times> workforce_db) result" where
  "insert_leave leave_id input actor workingDays db =
     (let candidates = overlapping_leave_candidates (ac_sub actor) (li_startDate input) (li_endDate input) db
      in if list_ex (\<lambda>existing. leave_windows_overlap (input_window input) existing) candidates
         then Inl (ConflictException ''LEAVE_OVERLAPPING'')
         else if overlapping_wfh_windows (ac_sub actor) (li_startDate input) (li_endDate input) db \<noteq> []
         then Inl (ConflictException ''LEAVE_OVERLAPPING'')
         else let row = new_leave_row leave_id input actor workingDays
              in Inr (row, db\<lparr>leave_requests := leave_requests db @ [row]\<rparr>))"

definition leave_request_payload :: "leave_row \<Rightarrow> actor \<Rightarrow> rat \<Rightarrow> workforce_payload" where
  "leave_request_payload row actor workingDays =
     Leave_payload
       \<lparr>lp_leaveRequestId = lr_id row, lp_employeeId = ac_sub actor, lp_leaveType = lr_leaveType row,
        lp_startDate = startDate (lr_window row), lp_endDate = endDate (lr_window row),
        lp_startPortion = startPortion (lr_window row), lp_endPortion = endPortion (lr_window row),
        lp_workingDays = workingDays, lp_reason = lr_reason row\<rparr>"

definition set_leave_request_id :: "string \<Rightarrow> string \<Rightarrow> workforce_db \<Rightarrow> workforce_db" where
  "set_leave_request_id leaveId requestId db =
     db\<lparr>leave_requests := modify_row lr_id leaveId (\<lambda>r. r\<lparr>lr_requestId := Some requestId\<rparr>) (leave_requests db)\<rparr>"

definition create_leave ::
    "request_env \<Rightarrow> string \<Rightarrow> string \<Rightarrow> leave_input \<Rightarrow> actor \<Rightarrow> platform \<Rightarrow> leave_row result \<times> platform" where
  "create_leave env leave_id item_id input actor db =
     (case quote_leave input actor (domain_db db) of
        Inl e \<Rightarrow> (Inl e, db)
      | Inr workingDays \<Rightarrow>
          (case insert_leave leave_id input actor workingDays (domain_db db) of
             Inl e \<Rightarrow> (Inl e, db)
           | Inr (row, d1) \<Rightarrow>
               let db1 = set_domain db d1
               in case submit env workforce_registry item_id ''leave_request''
                         (leave_request_payload row actor workingDays) actor
                         (review_window (ev_now env) None) db1 of
                    Inl e \<Rightarrow> (Inl e, db1)
                  | Inr (item, db2) \<Rightarrow>
                      (Inr (row\<lparr>lr_requestId := Some (ri_id item)\<rparr>),
                       set_domain db2
                         (record_audit (Some (ac_sub actor)) ''leave.requested'' (lr_id row)
                           (set_leave_request_id (lr_id row) (ri_id item) (domain_db db2))))))"

section \<open>Deciding and cancelling leave\<close>

definition get_leave :: "string \<Rightarrow> platform \<Rightarrow> leave_row result" where
  "get_leave lid db =
     (case find_row lr_id lid (leave_requests (domain_db db)) of
        None \<Rightarrow> Inl (NotFoundException ''LEAVE_REQUEST_NOT_FOUND'')
      | Some l \<Rightarrow> Inr l)"

definition repo_set_leave_status ::
    "string \<Rightarrow> review_status \<Rightarrow> string option \<Rightarrow> int \<Rightarrow> workforce_db \<Rightarrow> workforce_db" where
  "repo_set_leave_status lid status reviewerId now db =
     (let reviewed = (status = Review_approved \<or> status = Review_rejected)
      in db\<lparr>leave_requests := modify_row lr_id lid
           (\<lambda>r. r\<lparr>lr_status := status,
                  lr_reviewerId := (if reviewed then reviewerId else None),
                  lr_reviewedAt := (if reviewed then Some now else None)\<rparr>) (leave_requests db)\<rparr>)"

definition review_leave ::
    "request_env \<Rightarrow> string \<Rightarrow> string \<Rightarrow> bool \<Rightarrow> actor \<Rightarrow> platform \<Rightarrow> platform result" where
  "review_leave env approval_id lid decision_yes actor db =
     and_then (get_leave lid db) (\<lambda>l.
     and_then (assert_months_open (startDate (lr_window l)) (endDate (lr_window l)) (domain_db db)) (\<lambda>_.
       if lr_status l \<noteq> Review_pending
       then Inl (PreconditionFailedException ''LEAVE_REQUEST_NOT_PENDING'')
       else case lr_requestId l of
              Some rid \<Rightarrow>
                if decision_yes then approve env workforce_registry approval_id rid None actor db
                else reject env workforce_registry approval_id rid None actor db
            | None \<Rightarrow>
                let status = (if decision_yes then Review_approved else Review_rejected)
                in Inr (set_domain db
                     (record_audit (Some (ac_sub actor))
                        (if decision_yes then ''leave.approved'' else ''leave.rejected'') lid
                        (repo_set_leave_status lid status (Some (ac_sub actor)) (ev_now env) (domain_db db))))))"

definition cancel_leave :: "request_env \<Rightarrow> string \<Rightarrow> actor \<Rightarrow> platform \<Rightarrow> platform result" where
  "cancel_leave env lid actor db =
     and_then (get_leave lid db) (\<lambda>l.
     and_then (assert_owner_or_approver env (lr_employeeId l) actor) (\<lambda>_.
     and_then (assert_months_open (startDate (lr_window l)) (endDate (lr_window l)) (domain_db db)) (\<lambda>_.
       let cancelled = repo_set_leave_status lid Review_cancelled None (ev_now env) (domain_db db)
       in if lr_requestId l \<noteq> None \<and> lr_status l = Review_pending
          then cancel env workforce_registry (the (lr_requestId l)) actor db
          else if lr_requestId l \<noteq> None \<and> lr_status l = Review_approved
          then Inr (set_domain db (record_audit (Some (ac_sub actor)) ''leave.cancelled'' lid cancelled))
          else if lr_status l \<noteq> Review_pending \<and> lr_status l \<noteq> Review_approved
          then Inl (PreconditionFailedException ''LEAVE_REQUEST_NOT_PENDING'')
          else Inr (set_domain db cancelled))))"

section \<open>Work from home\<close>

record wfh_input =
  wi_startDate :: iso_date
  wi_endDate :: iso_date
  wi_reason :: "string option"

definition assert_wfh_window_shape :: "int \<Rightarrow> iso_date \<Rightarrow> iso_date \<Rightarrow> unit result" where
  "assert_wfh_window_shape now s e =
     (let today_local = to_iso_date (now + 7 * 3600000)
      in if s < today_local then Inl (PreconditionFailedException ''WFH_WINDOW_PAST'')
         else let spanMs = parse_iso_date e - parse_iso_date s
              in if spanMs > 92 * 86400000 then Inl (PreconditionFailedException ''WFH_WINDOW_TOO_LONG'')
                 else Inr ())"

text \<open>\<open>managers\<close> is the manager column of the employees table.\<close>

definition manager_of :: "request_env \<Rightarrow> (string \<Rightarrow> string option) \<Rightarrow> string \<Rightarrow> string \<Rightarrow> string option" where
  "manager_of env managers employeeId permission =
     (case managers employeeId of
        None \<Rightarrow> None
      | Some managerId \<Rightarrow>
          if managerId = employeeId then None
          else case ev_employee env managerId of
                 None \<Rightarrow> None
               | Some Employee_offboarded \<Rightarrow> None
               | Some _ \<Rightarrow> if ev_check env managerId permission then Some managerId else None)"

definition wfh_working_days :: "iso_date \<Rightarrow> iso_date \<Rightarrow> workforce_db \<Rightarrow> iso_date list" where
  "wfh_working_days s e db = working_dates_in_range s e (holidays_between s e db)"

definition new_wfh_row :: "string \<Rightarrow> wfh_input \<Rightarrow> actor \<Rightarrow> int \<Rightarrow> wfh_row" where
  "new_wfh_row wfh_id input actor days =
     \<lparr>wr_id = wfh_id, wr_employeeId = ac_sub actor, wr_startDate = wi_startDate input,
      wr_endDate = wi_endDate input, wr_workingDays = days, wr_reason = wi_reason input,
      wr_status = Review_pending, wr_reviewerId = None, wr_reviewedAt = None, wr_requestId = None\<rparr>"

definition insert_wfh :: "string \<Rightarrow> wfh_input \<Rightarrow> actor \<Rightarrow> int \<Rightarrow> workforce_db \<Rightarrow> (wfh_row \<times> workforce_db) result" where
  "insert_wfh wfh_id input actor days db =
     (if overlapping_leave_candidates (ac_sub actor) (wi_startDate input) (wi_endDate input) db \<noteq> [] \<or>
         overlapping_wfh_windows (ac_sub actor) (wi_startDate input) (wi_endDate input) db \<noteq> []
      then Inl (ConflictException ''WFH_OVERLAPPING'')
      else let row = new_wfh_row wfh_id input actor days
           in Inr (row, db\<lparr>wfh_requests := wfh_requests db @ [row]\<rparr>))"

definition wfh_request_payload :: "wfh_row \<Rightarrow> actor \<Rightarrow> workforce_payload" where
  "wfh_request_payload row actor =
     Wfh_payload
       \<lparr>wp_wfhRequestId = wr_id row, wp_employeeId = ac_sub actor, wp_startDate = wr_startDate row,
        wp_endDate = wr_endDate row, wp_workingDays = wr_workingDays row, wp_reason = wr_reason row\<rparr>"

definition set_wfh_request_id :: "string \<Rightarrow> string \<Rightarrow> workforce_db \<Rightarrow> workforce_db" where
  "set_wfh_request_id wid requestId db =
     db\<lparr>wfh_requests := modify_row wr_id wid (\<lambda>r. r\<lparr>wr_requestId := Some requestId\<rparr>) (wfh_requests db)\<rparr>"

definition quote_wfh :: "int \<Rightarrow> wfh_input \<Rightarrow> workforce_db \<Rightarrow> int result" where
  "quote_wfh now input db =
     and_then (assert_months_open (wi_startDate input) (wi_endDate input) db) (\<lambda>_.
     and_then (assert_wfh_window_shape now (wi_startDate input) (wi_endDate input)) (\<lambda>_.
       let workingDays = wfh_working_days (wi_startDate input) (wi_endDate input) db
       in if length workingDays = 0 then Inl (PreconditionFailedException ''WFH_WINDOW_EMPTY'')
          else Inr (int (length workingDays))))"

definition create_wfh ::
    "request_env \<Rightarrow> (string \<Rightarrow> string option) \<Rightarrow> string \<Rightarrow> string \<Rightarrow> wfh_input \<Rightarrow> actor \<Rightarrow> platform \<Rightarrow>
     wfh_row result \<times> platform" where
  "create_wfh env managers wfh_id item_id input actor db =
     (case quote_wfh (ev_now env) input (domain_db db) of
        Inl e \<Rightarrow> (Inl e, db)
      | Inr days \<Rightarrow>
          (case insert_wfh wfh_id input actor days (domain_db db) of
             Inl e \<Rightarrow> (Inl e, db)
           | Inr (row, d1) \<Rightarrow>
               let db1 = set_domain db d1
               in case submit env workforce_registry item_id ''wfh_request'' (wfh_request_payload row actor) actor
                         (review_window (ev_now env)
                           (manager_of env managers (ac_sub actor) ''workforce.wfh.review'')) db1 of
                    Inl e \<Rightarrow> (Inl e, db1)
                  | Inr (item, db2) \<Rightarrow>
                      (Inr (row\<lparr>wr_requestId := Some (ri_id item)\<rparr>),
                       set_domain db2
                         (record_audit (Some (ac_sub actor)) ''wfh.requested'' (wr_id row)
                           (set_wfh_request_id (wr_id row) (ri_id item) (domain_db db2))))))"

definition get_wfh :: "string \<Rightarrow> platform \<Rightarrow> wfh_row result" where
  "get_wfh wid db =
     (case find_row wr_id wid (wfh_requests (domain_db db)) of
        None \<Rightarrow> Inl (NotFoundException ''WFH_REQUEST_NOT_FOUND'')
      | Some w \<Rightarrow> Inr w)"

definition review_wfh ::
    "request_env \<Rightarrow> string \<Rightarrow> string \<Rightarrow> bool \<Rightarrow> actor \<Rightarrow> platform \<Rightarrow> platform result" where
  "review_wfh env approval_id wid decision_yes actor db =
     and_then (get_wfh wid db) (\<lambda>w.
     and_then (assert_months_open (wr_startDate w) (wr_endDate w) (domain_db db)) (\<lambda>_.
       if wr_status w \<noteq> Review_pending
       then Inl (PreconditionFailedException ''WFH_REQUEST_NOT_PENDING'')
       else case wr_requestId w of
              None \<Rightarrow> Inl (PreconditionFailedException ''WFH_REQUEST_NOT_PENDING'')
            | Some rid \<Rightarrow>
                if decision_yes then approve env workforce_registry approval_id rid None actor db
                else reject env workforce_registry approval_id rid None actor db))"

definition repo_set_wfh_status ::
    "string \<Rightarrow> review_status \<Rightarrow> string option \<Rightarrow> int \<Rightarrow> workforce_db \<Rightarrow> workforce_db" where
  "repo_set_wfh_status wid status reviewerId now db =
     (let reviewed = (status = Review_approved \<or> status = Review_rejected)
      in db\<lparr>wfh_requests := modify_row wr_id wid
           (\<lambda>r. r\<lparr>wr_status := status,
                  wr_reviewerId := (if reviewed then reviewerId else None),
                  wr_reviewedAt := (if reviewed then Some now else None)\<rparr>) (wfh_requests db)\<rparr>)"

definition cancel_wfh :: "request_env \<Rightarrow> string \<Rightarrow> actor \<Rightarrow> platform \<Rightarrow> platform result" where
  "cancel_wfh env wid actor db =
     and_then (get_wfh wid db) (\<lambda>w.
     and_then (assert_owner_or_approver env (wr_employeeId w) actor) (\<lambda>_.
     and_then (assert_months_open (wr_startDate w) (wr_endDate w) (domain_db db)) (\<lambda>_.
       case wr_requestId w of
         Some rid \<Rightarrow> cancel env workforce_registry rid actor db
       | None \<Rightarrow>
           if wr_status w \<noteq> Review_pending
           then Inl (PreconditionFailedException ''WFH_REQUEST_NOT_PENDING'')
           else Inr (set_domain db (record_audit (Some (ac_sub actor)) ''wfh.cancelled'' wid
                  (repo_set_wfh_status wid Review_cancelled None (ev_now env) (domain_db db)))))))"

section \<open>Overtime\<close>

record overtime_input =
  oi_workDate :: iso_date
  oi_hours :: rat
  oi_reason :: string

definition new_overtime_row :: "string \<Rightarrow> overtime_input \<Rightarrow> actor \<Rightarrow> overtime_row" where
  "new_overtime_row entry_id input actor =
     \<lparr>or_id = entry_id, or_employeeId = ac_sub actor, or_workDate = oi_workDate input,
      or_hours = oi_hours input, or_reason = oi_reason input, or_status = Overtime_pending,
      or_reviewerId = None, or_reviewedAt = None, or_requestId = None\<rparr>"

definition set_overtime_request_id :: "string \<Rightarrow> string \<Rightarrow> workforce_db \<Rightarrow> workforce_db" where
  "set_overtime_request_id oid requestId db =
     db\<lparr>overtime_entries := modify_row or_id oid (\<lambda>r. r\<lparr>or_requestId := Some requestId\<rparr>) (overtime_entries db)\<rparr>"

definition create_overtime ::
    "request_env \<Rightarrow> string \<Rightarrow> string \<Rightarrow> overtime_input \<Rightarrow> actor \<Rightarrow> platform \<Rightarrow> overtime_row result \<times> platform" where
  "create_overtime env entry_id item_id input actor db =
     (let row = new_overtime_row entry_id input actor;
          d = domain_db db;
          db1 = set_domain db (d\<lparr>overtime_entries := overtime_entries d @ [row]\<rparr>);
          payload = Overtime_payload
            \<lparr>op_overtimeId = or_id row, op_employeeId = ac_sub actor, op_workDate = or_workDate row,
             op_hours = oi_hours input, op_reason = or_reason row\<rparr>
      in case submit env workforce_registry item_id ''overtime'' payload actor
                (review_window (ev_now env) None) db1 of
           Inl e \<Rightarrow> (Inl e, db1)
         | Inr (item, db2) \<Rightarrow>
             (Inr (row\<lparr>or_requestId := Some (ri_id item)\<rparr>),
              set_domain db2 (set_overtime_request_id (or_id row) (ri_id item) (domain_db db2))))"

definition get_overtime :: "string \<Rightarrow> platform \<Rightarrow> overtime_row result" where
  "get_overtime oid db =
     (case find_row or_id oid (overtime_entries (domain_db db)) of
        None \<Rightarrow> Inl (NotFoundException ''OVERTIME_NOT_FOUND'')
      | Some ov \<Rightarrow> Inr ov)"

definition repo_set_overtime_status ::
    "string \<Rightarrow> overtime_status \<Rightarrow> string option \<Rightarrow> int \<Rightarrow> workforce_db \<Rightarrow> workforce_db" where
  "repo_set_overtime_status oid status reviewerId now db =
     (let reviewed = (status = Overtime_approved \<or> status = Overtime_rejected)
      in db\<lparr>overtime_entries := modify_row or_id oid
           (\<lambda>r. r\<lparr>or_status := status,
                  or_reviewerId := (if reviewed then reviewerId else None),
                  or_reviewedAt := (if reviewed then Some now else None)\<rparr>) (overtime_entries db)\<rparr>)"

definition review_overtime ::
    "request_env \<Rightarrow> string \<Rightarrow> string \<Rightarrow> bool \<Rightarrow> actor \<Rightarrow> platform \<Rightarrow> platform result" where
  "review_overtime env approval_id oid decision_yes actor db =
     and_then (get_overtime oid db) (\<lambda>ov.
       if or_status ov \<noteq> Overtime_pending then Inl (PreconditionFailedException ''PRECONDITION_FAILED'')
       else case or_requestId ov of
              Some rid \<Rightarrow>
                if decision_yes then approve env workforce_registry approval_id rid None actor db
                else reject env workforce_registry approval_id rid None actor db
            | None \<Rightarrow>
                let status = (if decision_yes then Overtime_approved else Overtime_rejected)
                in Inr (set_domain db
                     (record_audit (Some (ac_sub actor))
                        (if decision_yes then ''overtime.approved'' else ''overtime.rejected'') oid
                        (repo_set_overtime_status oid status (Some (ac_sub actor)) (ev_now env) (domain_db db)))))"

end
