(* ===== verification/Justifications.thy ===== *)
theory Justifications
  imports Workforce
begin

text \<open>
  The writing half of \<^verbatim>\<open>libs/modules/workforce/src/application/attendance.service.ts\<close>: closing
  and reopening a month, and the attendance justifications, which are requests to the engine like
  leave and work from home.
\<close>

section \<open>Month close\<close>

definition month_string :: "int \<times> int \<Rightarrow> string" where
  "month_string month = pad 4 (fst month) @ ''-'' @ pad 2 (snd month)"

definition get_month_close :: "int \<times> int \<Rightarrow> workforce_db \<Rightarrow> month_close_row option" where
  "get_month_close month db = find_row cl_month month (month_closes db)"

text \<open>The insert under the month's lock: a row that appeared since the check is a conflict.\<close>

definition close_month_commit :: "int \<Rightarrow> int \<times> int \<Rightarrow> actor \<Rightarrow> string option \<Rightarrow> workforce_db \<Rightarrow> workforce_db result" where
  "close_month_commit now month actor note_text db =
     (if find_row cl_month month (month_closes db) \<noteq> None
      then Inl (ConflictException ''ATTENDANCE_MONTH_CLOSED'')
      else Inr (record_audit (Some (ac_sub actor)) ''attendance_month.closed'' (month_string month)
             (db\<lparr>month_closes := month_closes db @
                [\<lparr>cl_month = month, cl_closedBy = ac_sub actor, cl_closedAt = now, cl_note = note_text\<rparr>]\<rparr>)))"

definition close_month :: "int \<Rightarrow> int \<times> int \<Rightarrow> actor \<Rightarrow> string option \<Rightarrow> platform \<Rightarrow> platform result" where
  "close_month now month actor note_text db =
     (if get_month_close month (domain_db db) \<noteq> None
      then Inl (ConflictException ''ATTENDANCE_MONTH_CLOSED'')
      else and_then (close_month_commit now month actor note_text (domain_db db)) (\<lambda>d. Inr (set_domain db d)))"

definition reopen_month :: "int \<times> int \<Rightarrow> actor \<Rightarrow> platform \<Rightarrow> platform result" where
  "reopen_month month actor db =
     (if get_month_close month (domain_db db) = None
      then Inl (PreconditionFailedException ''ATTENDANCE_MONTH_NOT_CLOSED'')
      else
        let d = domain_db db
        in Inr (set_domain db
             (record_audit (Some (ac_sub actor)) ''attendance_month.reopened'' (month_string month)
               (d\<lparr>month_closes := filter (\<lambda>c. cl_month c \<noteq> month) (month_closes d)\<rparr>))))"

section \<open>Justifications\<close>

record justification_input =
  ji_startDate :: iso_date
  ji_endDate :: iso_date
  ji_kind :: justification_kind
  ji_reason :: "string option"

definition preview_justification :: "iso_date \<Rightarrow> iso_date \<Rightarrow> workforce_db \<Rightarrow> iso_date list" where
  "preview_justification s e db = working_dates_in_range s e (holidays_between s e db)"

definition new_justification_row :: "string \<Rightarrow> justification_input \<Rightarrow> actor \<Rightarrow> rat \<Rightarrow> justification_row" where
  "new_justification_row jid input actor workingDays =
     \<lparr>jr_id = jid, jr_employeeId = ac_sub actor, jr_startDate = ji_startDate input, jr_endDate = ji_endDate input,
      jr_kind = ji_kind input, jr_workingDays = workingDays, jr_reason = ji_reason input,
      jr_status = Review_pending, jr_reviewerId = None, jr_reviewedAt = None, jr_requestId = None\<rparr>"

definition justification_request_payload :: "justification_row \<Rightarrow> actor \<Rightarrow> rat \<Rightarrow> workforce_payload" where
  "justification_request_payload row actor workingDays =
     Justification_payload
       \<lparr>jp_justificationId = jr_id row, jp_employeeId = ac_sub actor, jp_startDate = jr_startDate row,
        jp_endDate = jr_endDate row, jp_kind = jr_kind row, jp_workingDays = workingDays, jp_reason = jr_reason row\<rparr>"

definition set_justification_request_id :: "string \<Rightarrow> string \<Rightarrow> workforce_db \<Rightarrow> workforce_db" where
  "set_justification_request_id jid requestId db =
     db\<lparr>justifications := modify_row jr_id jid (\<lambda>r. r\<lparr>jr_requestId := Some requestId\<rparr>) (justifications db)\<rparr>"

definition quote_justification :: "justification_input \<Rightarrow> workforce_db \<Rightarrow> rat result" where
  "quote_justification input db =
     (let workingDays = preview_justification (ji_startDate input) (ji_endDate input) db
      in if workingDays = [] then Inl (PreconditionFailedException ''WFH_WINDOW_EMPTY'')
         else and_then (assert_months_open (ji_startDate input) (ji_endDate input) db)
                (\<lambda>_. Inr (of_nat (length workingDays))))"

definition create_justification ::
    "request_env \<Rightarrow> string \<Rightarrow> string \<Rightarrow> justification_input \<Rightarrow> actor \<Rightarrow> platform \<Rightarrow> justification_row result \<times> platform" where
  "create_justification env jid item_id input actor db =
     (case quote_justification input (domain_db db) of
        Inl e \<Rightarrow> (Inl e, db)
      | Inr workingDays \<Rightarrow>
          let row = new_justification_row jid input actor workingDays;
              d = domain_db db;
              db1 = set_domain db (d\<lparr>justifications := justifications d @ [row]\<rparr>)
          in case submit env workforce_registry item_id ''attendance_justification''
                    (justification_request_payload row actor workingDays) actor (review_window (ev_now env) None) db1 of
               Inl e \<Rightarrow> (Inl e, db1)
             | Inr (item, db2) \<Rightarrow>
                 (Inr (row\<lparr>jr_requestId := Some (ri_id item)\<rparr>),
                  set_domain db2 (record_audit (Some (ac_sub actor)) ''attendance_justification.requested'' (jr_id row)
                    (set_justification_request_id (jr_id row) (ri_id item) (domain_db db2)))))"

definition get_justification :: "string \<Rightarrow> platform \<Rightarrow> justification_row result" where
  "get_justification jid db =
     (case find_row jr_id jid (justifications (domain_db db)) of
        None \<Rightarrow> Inl (NotFoundException ''ATTENDANCE_JUSTIFICATION_NOT_FOUND'')
      | Some row \<Rightarrow> Inr row)"

text \<open>The code asserts that the row is linked (\<^verbatim>\<open>row.requestId!\<close>); an absent id reads as no request.\<close>

definition review_justification ::
    "request_env \<Rightarrow> string \<Rightarrow> string \<Rightarrow> bool \<Rightarrow> actor \<Rightarrow> platform \<Rightarrow> platform result" where
  "review_justification env approval_id jid decision_yes actor db =
     and_then (get_justification jid db) (\<lambda>row.
       if jr_status row \<noteq> Review_pending
       then Inl (PreconditionFailedException ''ATTENDANCE_JUSTIFICATION_NOT_PENDING'')
       else and_then (assert_months_open (jr_startDate row) (jr_endDate row) (domain_db db)) (\<lambda>_.
         case jr_requestId row of
           None \<Rightarrow> Inl (NotFoundException ''REQUEST_NOT_FOUND'')
         | Some rid \<Rightarrow>
             if decision_yes then approve env workforce_registry approval_id rid None actor db
             else reject env workforce_registry approval_id rid None actor db))"

definition cancel_justification :: "request_env \<Rightarrow> string \<Rightarrow> actor \<Rightarrow> platform \<Rightarrow> platform result" where
  "cancel_justification env jid actor db =
     and_then (get_justification jid db) (\<lambda>row.
       if jr_employeeId row \<noteq> ac_sub actor then Inl (PermissionDeniedException ''FORBIDDEN'')
       else if jr_status row \<noteq> Review_pending
       then Inl (PreconditionFailedException ''ATTENDANCE_JUSTIFICATION_NOT_PENDING'')
       else case jr_requestId row of
              None \<Rightarrow> Inl (PreconditionFailedException ''ATTENDANCE_JUSTIFICATION_NOT_PENDING'')
            | Some rid \<Rightarrow>
                and_then (assert_months_open (jr_startDate row) (jr_endDate row) (domain_db db)) (\<lambda>_.
                  cancel env workforce_registry rid actor db))"

definition REPORT_ROW_LIMIT :: nat where "REPORT_ROW_LIMIT = 200"

definition list_justifications ::
    "request_env \<Rightarrow> string option \<Rightarrow> review_status option \<Rightarrow> actor \<Rightarrow> platform \<Rightarrow> justification_row list result" where
  "list_justifications env employeeId status actor db =
     and_then (narrow_filter (ev_check env) employeeId (ac_sub actor) ''workforce.attendance.read'') (\<lambda>owner.
       Inr (take REPORT_ROW_LIMIT (rev (sort_key (\<lambda>j. (jr_startDate j, jr_id j))
         (filter (\<lambda>j. (case owner of None \<Rightarrow> True | Some u \<Rightarrow> jr_employeeId j = u) \<and>
                      (case status of None \<Rightarrow> True | Some st \<Rightarrow> jr_status j = st))
            (justifications (domain_db db)))))))"

end
