(* ===== verification/WorkforceSafety.thy ===== *)
theory WorkforceSafety
  imports Justifications RequestSafety
begin

text \<open>
  The workforce module and the request engine as one transition system: filing, deciding and
  cancelling through the module's own operations, deciding, cancelling and expiring through the
  generic request routes, and the administrators' writes of holidays, entitlements, policies and
  month closes. Two invariants: the engine's record and the domain row of a request agree, and
  nobody holds two live commitments for the same half-day.
\<close>

section \<open>The system\<close>

definition leave_fresh :: "string \<Rightarrow> string \<Rightarrow> platform \<Rightarrow> bool" where
  "leave_fresh lid iid db \<longleftrightarrow>
     find_row lr_id lid (leave_requests (domain_db db)) = None \<and> find_row ri_id iid (items db) = None"

definition wfh_fresh :: "string \<Rightarrow> string \<Rightarrow> platform \<Rightarrow> bool" where
  "wfh_fresh wid iid db \<longleftrightarrow>
     find_row wr_id wid (wfh_requests (domain_db db)) = None \<and> find_row ri_id iid (items db) = None"

definition overtime_fresh :: "string \<Rightarrow> string \<Rightarrow> platform \<Rightarrow> bool" where
  "overtime_fresh oid iid db \<longleftrightarrow>
     find_row or_id oid (overtime_entries (domain_db db)) = None \<and> find_row ri_id iid (items db) = None"

definition justification_fresh :: "string \<Rightarrow> string \<Rightarrow> platform \<Rightarrow> bool" where
  "justification_fresh jid iid db \<longleftrightarrow>
     find_row jr_id jid (justifications (domain_db db)) = None \<and> find_row ri_id iid (items db) = None"

inductive workforce_step :: "platform \<Rightarrow> platform \<Rightarrow> bool" where
  ws_create_leave:
    "create_leave env lid iid input actor db = (res, db') \<Longrightarrow> leave_fresh lid iid db \<Longrightarrow>
     valid_date (li_startDate input) \<Longrightarrow> valid_date (li_endDate input) \<Longrightarrow> workforce_step db db'"
| ws_create_wfh:
    "create_wfh env managers wid iid winput actor db = (wres, db') \<Longrightarrow> wfh_fresh wid iid db \<Longrightarrow>
     workforce_step db db'"
| ws_create_overtime:
    "create_overtime env oid iid oinput actor db = (ores, db') \<Longrightarrow> overtime_fresh oid iid db \<Longrightarrow>
     workforce_step db db'"
| ws_create_justification:
    "create_justification env jid iid jinput actor db = (jres, db') \<Longrightarrow> justification_fresh jid iid db \<Longrightarrow>
     workforce_step db db'"
| ws_review_justification: "review_justification env aid jid yes actor db = Inr db' \<Longrightarrow> workforce_step db db'"
| ws_cancel_justification: "cancel_justification env jid actor db = Inr db' \<Longrightarrow> workforce_step db db'"
| ws_close_month: "close_month now month actor mnote db = Inr db' \<Longrightarrow> workforce_step db db'"
| ws_reopen_month: "reopen_month month actor db = Inr db' \<Longrightarrow> workforce_step db db'"
| ws_review_leave: "review_leave env aid lid yes actor db = Inr db' \<Longrightarrow> workforce_step db db'"
| ws_review_wfh: "review_wfh env aid wid yes actor db = Inr db' \<Longrightarrow> workforce_step db db'"
| ws_review_overtime: "review_overtime env aid oid yes actor db = Inr db' \<Longrightarrow> workforce_step db db'"
| ws_cancel_leave: "cancel_leave env lid actor db = Inr db' \<Longrightarrow> workforce_step db db'"
| ws_cancel_wfh: "cancel_wfh env wid actor db = Inr db' \<Longrightarrow> workforce_step db db'"
| ws_engine: "closing_call workforce_registry db db' \<Longrightarrow> workforce_step db db'"
| ws_breach: "workforce_step db (sla_breach_row now item db)"
| ws_calendar:
    "leave_requests d = leave_requests (domain_db db) \<Longrightarrow> wfh_requests d = wfh_requests (domain_db db) \<Longrightarrow>
     overtime_entries d = overtime_entries (domain_db db) \<Longrightarrow> justifications d = justifications (domain_db db) \<Longrightarrow>
     workforce_step db (set_domain db d)"

definition workforce_init :: "platform \<Rightarrow> bool" where
  "workforce_init db \<longleftrightarrow> items db = [] \<and>
     leave_requests (domain_db db) = [] \<and> wfh_requests (domain_db db) = [] \<and>
     overtime_entries (domain_db db) = [] \<and> justifications (domain_db db) = []"

inductive workforce_reachable :: "platform \<Rightarrow> bool" where
  wf_init: "workforce_init db \<Longrightarrow> workforce_reachable db"
| wf_step: "workforce_reachable db \<Longrightarrow> workforce_step db db' \<Longrightarrow> workforce_reachable db'"

section \<open>Commitments\<close>

text \<open>The live leave and the live days at home: whose, under which row, and when.\<close>

definition live_leave :: "workforce_db \<Rightarrow> (string \<times> string \<times> leave_window) set" where
  "live_leave d = (\<lambda>r. (lr_id r, lr_employeeId r, lr_window r)) ` {r \<in> set (leave_requests d). is_live (lr_status r)}"

definition live_wfh :: "workforce_db \<Rightarrow> (string \<times> string \<times> iso_date \<times> iso_date) set" where
  "live_wfh d = (\<lambda>r. (wr_id r, wr_employeeId r, wr_startDate r, wr_endDate r)) `
     {r \<in> set (wfh_requests d). is_live (wr_status r)}"

definition share_half :: "leave_window \<Rightarrow> leave_window \<Rightarrow> bool" where
  "share_half a b \<longleftrightarrow> (\<exists>day h. valid_date day \<and> h \<in> set (halves_on a day) \<and> h \<in> set (halves_on b day))"

fun leave_apart :: "string \<times> string \<times> leave_window \<Rightarrow> string \<times> string \<times> leave_window \<Rightarrow> bool" where
  "leave_apart (i, u, w) (j, v, x) \<longleftrightarrow> (i \<noteq> j \<and> u = v \<longrightarrow> \<not> share_half w x)"

fun wfh_apart :: "string \<times> string \<times> iso_date \<times> iso_date \<Rightarrow> string \<times> string \<times> iso_date \<times> iso_date \<Rightarrow> bool" where
  "wfh_apart (i, u, s, e) (j, v, t, f) \<longleftrightarrow> (i \<noteq> j \<and> u = v \<longrightarrow> \<not> (s \<le> f \<and> t \<le> e))"

fun kinds_apart :: "string \<times> string \<times> leave_window \<Rightarrow> string \<times> string \<times> iso_date \<times> iso_date \<Rightarrow> bool" where
  "kinds_apart (i, u, w) (j, v, t, f) \<longleftrightarrow> (u = v \<longrightarrow> \<not> (startDate w \<le> f \<and> t \<le> endDate w))"

fun legal_leave :: "string \<times> string \<times> leave_window \<Rightarrow> bool" where
  "legal_leave (i, u, w) \<longleftrightarrow> valid_window w"

definition booked_once :: "workforce_db \<Rightarrow> bool" where
  "booked_once d \<longleftrightarrow>
     keys_distinct lr_id (leave_requests d) \<and> keys_distinct wr_id (wfh_requests d) \<and>
     (\<forall>p \<in> live_leave d. legal_leave p) \<and>
     (\<forall>p \<in> live_leave d. \<forall>q \<in> live_leave d. leave_apart p q) \<and>
     (\<forall>p \<in> live_wfh d. \<forall>q \<in> live_wfh d. wfh_apart p q) \<and>
     (\<forall>p \<in> live_leave d. \<forall>q \<in> live_wfh d. kinds_apart p q)"

text \<open>A write that takes commitments away, or none, and renames no row.\<close>

definition frees :: "workforce_db \<Rightarrow> workforce_db \<Rightarrow> bool" where
  "frees d d' \<longleftrightarrow>
     map lr_id (leave_requests d') = map lr_id (leave_requests d) \<and>
     map wr_id (wfh_requests d') = map wr_id (wfh_requests d) \<and>
     live_leave d' \<subseteq> live_leave d \<and> live_wfh d' \<subseteq> live_wfh d"

lemma booked_once_frees:
  assumes b: "booked_once d" and f: "frees d d'"
  shows "booked_once d'"
proof -
  have sub: "live_leave d' \<subseteq> live_leave d" "live_wfh d' \<subseteq> live_wfh d"
    and keys: "keys_distinct lr_id (leave_requests d') = keys_distinct lr_id (leave_requests d)"
      "keys_distinct wr_id (wfh_requests d') = keys_distinct wr_id (wfh_requests d)"
    using f by (auto simp: frees_def keys_distinct_def)
  show ?thesis
    using b sub unfolding booked_once_def keys by (meson subsetD)
qed

lemma frees_refl [simp]: "frees d d"
  by (simp add: frees_def)

lemma frees_same:
  "leave_requests d' = leave_requests d \<Longrightarrow> wfh_requests d' = wfh_requests d \<Longrightarrow> frees d d'"
  by (simp add: frees_def live_leave_def live_wfh_def)

lemma frees_trans: "frees a b \<Longrightarrow> frees b c \<Longrightarrow> frees a c"
  by (auto simp: frees_def)

lemma frees_audit [simp]: "frees d (record_audit who a i d') = frees d d'"
  by (simp add: frees_def live_leave_def live_wfh_def record_audit_def)

text \<open>Changing one leave row: no row that was not live may come to life.\<close>

lemma frees_leave_row:
  assumes f: "\<And>r. lr_id (f r) = lr_id r" "\<And>r. lr_employeeId (f r) = lr_employeeId r"
      "\<And>r. lr_window (f r) = lr_window r"
    and live: "\<And>r. r \<in> set (leave_requests d) \<Longrightarrow> lr_id r = i \<Longrightarrow> is_live (lr_status (f r)) \<Longrightarrow> is_live (lr_status r)"
  shows "frees d (d\<lparr>leave_requests := modify_row lr_id i f (leave_requests d)\<rparr>)"
proof -
  have "live_leave (d\<lparr>leave_requests := modify_row lr_id i f (leave_requests d)\<rparr>) \<subseteq> live_leave d"
  proof
    fix x assume "x \<in> live_leave (d\<lparr>leave_requests := modify_row lr_id i f (leave_requests d)\<rparr>)"
    then obtain r where r: "r \<in> set (leave_requests d)"
        "is_live (lr_status (if lr_id r = i then f r else r))"
        "x = (lr_id r, lr_employeeId r, lr_window r)"
      using f by (auto simp: live_leave_def modify_row_def set_update_where)
    then have "is_live (lr_status r)" using live [of r] by (auto split: if_splits)
    with r show "x \<in> live_leave d" by (auto simp: live_leave_def)
  qed
  then show ?thesis
    by (simp add: frees_def live_wfh_def modify_row_def map_key_update_where f)
qed

lemma frees_wfh_row:
  assumes f: "\<And>r. wr_id (f r) = wr_id r" "\<And>r. wr_employeeId (f r) = wr_employeeId r"
      "\<And>r. wr_startDate (f r) = wr_startDate r" "\<And>r. wr_endDate (f r) = wr_endDate r"
    and live: "\<And>r. r \<in> set (wfh_requests d) \<Longrightarrow> wr_id r = i \<Longrightarrow> is_live (wr_status (f r)) \<Longrightarrow> is_live (wr_status r)"
  shows "frees d (d\<lparr>wfh_requests := modify_row wr_id i f (wfh_requests d)\<rparr>)"
proof -
  have "live_wfh (d\<lparr>wfh_requests := modify_row wr_id i f (wfh_requests d)\<rparr>) \<subseteq> live_wfh d"
  proof
    fix x assume "x \<in> live_wfh (d\<lparr>wfh_requests := modify_row wr_id i f (wfh_requests d)\<rparr>)"
    then obtain r where r: "r \<in> set (wfh_requests d)"
        "is_live (wr_status (if wr_id r = i then f r else r))"
        "x = (wr_id r, wr_employeeId r, wr_startDate r, wr_endDate r)"
      using f by (auto simp: live_wfh_def modify_row_def set_update_where)
    then have "is_live (wr_status r)" using live [of r] by (auto split: if_splits)
    with r show "x \<in> live_wfh d" by (auto simp: live_wfh_def)
  qed
  then show ?thesis
    by (simp add: frees_def live_leave_def modify_row_def map_key_update_where f)
qed

lemma is_live_simps [simp]:
  "is_live Review_pending" "is_live Review_approved" "\<not> is_live Review_rejected" "\<not> is_live Review_cancelled"
  by (simp_all add: is_live_def)

lemma pending_row_only:
  assumes "keys_distinct lr_id (leave_requests d)" and "row_state (Leave_key i) d = Some Review_pending"
    and "r \<in> set (leave_requests d)" and "lr_id r = i"
  shows "lr_status r = Review_pending"
  using assms leave_table.lookup_member [OF assms(1,3)] by (simp add: row_state.simps)

lemma pending_wfh_only:
  assumes "keys_distinct wr_id (wfh_requests d)" and "row_state (Wfh_key i) d = Some Review_pending"
    and "r \<in> set (wfh_requests d)" and "wr_id r = i"
  shows "wr_status r = Review_pending"
  using assms wfh_table.lookup_member [OF assms(1,3)] by (simp add: row_state.simps)

text \<open>The hooks only ever free commitments.\<close>

lemma leave_set_frees:
  "keys_distinct lr_id (leave_requests d) \<Longrightarrow> row_state (Leave_key i) d = Some Review_pending \<or> \<not> is_live st \<Longrightarrow>
   frees d (leave_set_status i st review d)"
  unfolding leave_set_status_def
  by (rule frees_leave_row) (auto split: option.splits simp: pending_row_only)

lemma wfh_set_frees:
  "keys_distinct wr_id (wfh_requests d) \<Longrightarrow> row_state (Wfh_key i) d = Some Review_pending \<or> \<not> is_live st \<Longrightarrow>
   frees d (wfh_set_status i st review d)"
  unfolding wfh_set_status_def
  by (rule frees_wfh_row) (auto split: option.splits simp: pending_wfh_only)

lemma set_frees_simps [simp]:
  "keys_distinct lr_id (leave_requests d) \<Longrightarrow> frees d (leave_set_status i Review_cancelled review d)"
  "keys_distinct lr_id (leave_requests d) \<Longrightarrow> frees d (leave_set_status i Review_rejected review d)"
  "keys_distinct lr_id (leave_requests d) \<Longrightarrow> row_state (Leave_key i) d = Some Review_pending \<Longrightarrow>
   frees d (leave_set_status i Review_approved review d)"
  "keys_distinct wr_id (wfh_requests d) \<Longrightarrow> frees d (wfh_set_status i Review_cancelled review d)"
  "keys_distinct wr_id (wfh_requests d) \<Longrightarrow> frees d (wfh_set_status i Review_rejected review d)"
  "keys_distinct wr_id (wfh_requests d) \<Longrightarrow> row_state (Wfh_key i) d = Some Review_pending \<Longrightarrow>
   frees d (wfh_set_status i Review_approved review d)"
  by (simp_all add: leave_set_frees wfh_set_frees)

lemma justification_set_frees [simp]: "frees d (justification_set_status i st review d)"
  by (rule frees_same) (simp_all add: justification_set_status_def)

lemma overtime_set_frees [simp]: "frees d (overtime_set_status i st review d)"
  by (rule frees_same) (simp_all add: overtime_set_status_def)

lemma closes_frees:
  assumes d: "booked_once d" and def: "def \<in> set workforce_registry" and ty: "typed_payload (td_type def) p"
    and run: "closes def p rid u now st d = Inr d'"
  shows "frees d d'"
proof -
  have keys: "keys_distinct lr_id (leave_requests d)" "keys_distinct wr_id (wfh_requests d)"
    using d by (auto simp: booked_once_def)
  have st: "st \<noteq> Pending" "st \<noteq> In_review" using run by (auto simp: closes_def)
  consider q where "p = Leave_payload q" "def = leave_type_def"
    | q where "p = Wfh_payload q" "def = wfh_type"
    | q where "p = Overtime_payload q" "def = overtime_type"
    | q where "p = Justification_payload q" "def = justification_type"
    using def ty by (cases p) (auto simp: set_workforce_registry)
  then show ?thesis
  proof cases
    case 1
    with run st keys show ?thesis
      by (cases st)
        (auto simp: closes_def leave_type_def_def leave_on_approve_def leave_on_reject_def leave_on_cancel_def
          leave_on_expire_def and_then_eq_Inr)
  next
    case 2
    with run st keys show ?thesis
      by (cases st)
        (auto simp: closes_def wfh_type_def wfh_on_approve_def wfh_on_reject_def wfh_on_cancel_def
          wfh_on_expire_def and_then_eq_Inr)
  next
    case 3
    with run st show ?thesis
      by (cases st)
        (auto simp: closes_def overtime_type_def overtime_on_approve_def overtime_on_reject_def overtime_on_expire_def)
  next
    case 4
    with run st show ?thesis
      by (cases st)
        (auto simp: closes_def justification_type_def justification_on_approve_def justification_on_reject_def
          justification_on_cancel_def justification_on_expire_def and_then_eq_Inr)
  qed
qed

section \<open>The link from a row to its request\<close>

fun row_link :: "domain_key \<Rightarrow> workforce_db \<Rightarrow> string option option" where
  "row_link (Leave_key i) db = map_option lr_requestId (find_row lr_id i (leave_requests db))"
| "row_link (Wfh_key i) db = map_option wr_requestId (find_row wr_id i (wfh_requests db))"
| "row_link (Overtime_key i) db = map_option or_requestId (find_row or_id i (overtime_entries db))"
| "row_link (Justification_key i) db = map_option jr_requestId (find_row jr_id i (justifications db))"

definition linked :: "platform \<Rightarrow> bool" where
  "linked db \<longleftrightarrow>
     (\<forall>r \<in> set (items db). row_link (target (ri_payload r)) (domain_db db) = Some (Some (ri_id r)))"

lemma row_link_set [simp]:
  "row_link k (record_audit who a i db) = row_link k db"
  "row_link k (leave_set_status i st review db) = row_link k db"
  "row_link k (wfh_set_status i st review db) = row_link k db"
  "row_link k (overtime_set_status i ost review db) = row_link k db"
  "row_link k (justification_set_status i st review db) = row_link k db"
  by (cases k; cases review; auto simp: record_audit_def leave_set_status_def wfh_set_status_def
      overtime_set_status_def justification_set_status_def leave_table.lookup_modify wfh_table.lookup_modify
      overtime_table.lookup_modify justification_table.lookup_modify option.map_comp comp_def
      split: prod.splits)+

lemma closes_link:
  assumes def: "def \<in> set workforce_registry" and ty: "typed_payload (td_type def) p"
    and run: "closes def p rid u now st d = Inr d'"
  shows "row_link k d' = row_link k d"
proof -
  have st: "st \<noteq> Pending" "st \<noteq> In_review" using run by (auto simp: closes_def)
  consider q where "p = Leave_payload q" "def = leave_type_def"
    | q where "p = Wfh_payload q" "def = wfh_type"
    | q where "p = Overtime_payload q" "def = overtime_type"
    | q where "p = Justification_payload q" "def = justification_type"
    using def ty by (cases p) (auto simp: set_workforce_registry)
  then show ?thesis
    using run st
    by cases (cases st; auto simp: closes_def leave_type_def_def leave_on_approve_def leave_on_reject_def
        leave_on_cancel_def leave_on_expire_def wfh_type_def wfh_on_approve_def wfh_on_reject_def
        wfh_on_cancel_def wfh_on_expire_def overtime_type_def overtime_on_approve_def overtime_on_reject_def
        overtime_on_expire_def justification_type_def justification_on_approve_def justification_on_reject_def
        justification_on_cancel_def justification_on_expire_def and_then_eq_Inr)+
qed

section \<open>The invariant\<close>

definition workforce_inv :: "platform \<Rightarrow> bool" where
  "workforce_inv db \<longleftrightarrow> hooks.in_step db \<and> linked db \<and> booked_once (domain_db db)"

lemma workforce_inv_init: "workforce_init db \<Longrightarrow> workforce_inv db"
  by (simp add: workforce_init_def workforce_inv_def hooks.in_step_def linked_def booked_once_def
      keys_distinct_def live_leave_def live_wfh_def)

lemma modify_filed:
  assumes "\<forall>q. filed (f q) = filed q"
  shows "r' \<in> set (modify_row ri_id k f t) \<Longrightarrow> \<exists>r \<in> set t. filed r' = filed r"
  using assms by (auto simp: modify_row_def set_update_where split: if_splits)

lemma workforce_inv_closing:
  assumes inv: "workforce_inv db" and call: "closing_call workforce_registry db db'"
  shows "workforce_inv db'"
proof -
  have i: "hooks.in_step db" "linked db" "booked_once (domain_db db)"
    using inv by (auto simp: workforce_inv_def)
  have dom: "domain_db db' = domain_db db \<or>
    (\<exists>def p rid u now st. def \<in> set workforce_registry \<and> typed_payload (td_type def) p \<and>
       closes def p rid u now st (domain_db db) = Inr (domain_db db'))"
    by (rule hooks.closing_call_domain [OF i(1) call])
  have frees: "frees (domain_db db) (domain_db db')" and link: "row_link k (domain_db db') = row_link k (domain_db db)" for k
    using dom closes_frees [OF i(3)] closes_link by (metis frees_refl)+
  have filed: "\<exists>r \<in> set (items db). filed r' = filed r" if "r' \<in> set (items db')" for r'
    using hooks.closing_call_one [OF call] that modify_filed unfolding one_closed_def by metis
  have "linked db'"
    unfolding linked_def
  proof
    fix r' assume "r' \<in> set (items db')"
    then obtain r where "r \<in> set (items db)" "filed r' = filed r" using filed by blast
    then show "row_link (target (ri_payload r')) (domain_db db') = Some (Some (ri_id r'))"
      using i(2) by (simp add: linked_def link filed_def)
  qed
  then show ?thesis
    using hooks.closing_call_in_step [OF i(1) call] booked_once_frees [OF i(3) frees]
    by (simp add: workforce_inv_def)
qed

text \<open>A write of the module's own: the rows requests point at keep their state and their link.\<close>

lemma workforce_inv_domain:
  assumes inv: "workforce_inv db"
    and agree: "\<And>r. r \<in> set (items db) \<Longrightarrow> agrees (target (ri_payload r)) (ri_status r)
         (row_state (target (ri_payload r)) (domain_db db)) \<Longrightarrow>
       agrees (target (ri_payload r)) (ri_status r) (row_state (target (ri_payload r)) d)"
    and link: "\<And>r. r \<in> set (items db) \<Longrightarrow>
       row_link (target (ri_payload r)) d = row_link (target (ri_payload r)) (domain_db db)"
    and booked: "booked_once d"
  shows "workforce_inv (set_domain db d)"
proof -
  have i: "hooks.in_step db" "linked db" using inv by (auto simp: workforce_inv_def)
  have "hooks.in_step (set_domain db d)"
    by (rule hooks.domain_write_in_step [OF i(1)])
      (use agree in \<open>auto simp: set_domain_def hooks.item_in_step_def\<close>)
  moreover have "linked (set_domain db d)"
    using i(2) link by (auto simp: linked_def set_domain_def)
  ultimately show ?thesis using booked by (simp add: workforce_inv_def set_domain_def)
qed

section \<open>Inserting a commitment\<close>

lemma share_half_sym: "share_half a b = share_half b a"
  by (auto simp: share_half_def)

lemma share_half_dates: "share_half a b \<Longrightarrow> startDate a \<le> endDate b \<and> startDate b \<le> endDate a"
proof -
  assume "share_half a b"
  then obtain day h where "h \<in> set (halves_on a day)" "h \<in> set (halves_on b day)"
    by (auto simp: share_half_def)
  then have "halves_on a day \<noteq> []" "halves_on b day \<noteq> []" by auto
  then have "startDate a \<le> day" "day \<le> endDate a" "startDate b \<le> day" "day \<le> endDate b"
    by (auto simp: halves_on_Nil_iff not_less)
  then show ?thesis by (meson order_trans)
qed

lemma live_leave_insert:
  "is_live (lr_status r) \<Longrightarrow> live_leave (d\<lparr>leave_requests := leave_requests d @ [r]\<rparr>) =
     insert (lr_id r, lr_employeeId r, lr_window r) (live_leave d)"
  by (auto simp: live_leave_def)

lemma live_wfh_insert:
  "is_live (wr_status r) \<Longrightarrow> live_wfh (d\<lparr>wfh_requests := wfh_requests d @ [r]\<rparr>) =
     insert (wr_id r, wr_employeeId r, wr_startDate r, wr_endDate r) (live_wfh d)"
  by (auto simp: live_wfh_def)

lemma no_leave_candidates:
  assumes "(j, u, x) \<in> live_leave d" and "startDate x \<le> e" and "s \<le> endDate x"
  shows "x \<in> set (overlapping_leave_candidates u s e d)"
  using assms by (auto simp: live_leave_def overlapping_leave_candidates_def)

lemma no_wfh_windows:
  assumes "(j, u, t, f) \<in> live_wfh d" and "t \<le> e" and "s \<le> f"
  shows "(t, f) \<in> set (overlapping_wfh_windows u s e d)"
  using assms by (force simp: live_wfh_def overlapping_wfh_windows_def)

lemma insert_leave_shape:
  "insert_leave lid input actor wd d = Inr (row, d1) \<Longrightarrow>
   row = new_leave_row lid input actor wd \<and> d1 = d\<lparr>leave_requests := leave_requests d @ [row]\<rparr> \<and>
   (\<forall>x \<in> set (overlapping_leave_candidates (ac_sub actor) (li_startDate input) (li_endDate input) d).
      \<not> leave_windows_overlap (input_window input) x) \<and>
   overlapping_wfh_windows (ac_sub actor) (li_startDate input) (li_endDate input) d = []"
  by (auto simp: insert_leave_def Let_def list_ex_iff split: if_splits)

lemma insert_wfh_shape:
  "insert_wfh wid input actor wd d = Inr (row, d1) \<Longrightarrow>
   row = new_wfh_row wid input actor wd \<and> d1 = d\<lparr>wfh_requests := wfh_requests d @ [row]\<rparr> \<and>
   overlapping_leave_candidates (ac_sub actor) (wi_startDate input) (wi_endDate input) d = [] \<and>
   overlapping_wfh_windows (ac_sub actor) (wi_startDate input) (wi_endDate input) d = []"
  by (auto simp: insert_wfh_def Let_def split: if_splits)

lemma booked_once_insert_leave:
  assumes b: "booked_once d" and ins: "insert_leave lid input actor wd d = Inr (row, d1)"
    and fresh: "find_row lr_id lid (leave_requests d) = None"
    and valid: "valid_date (li_startDate input)" "valid_date (li_endDate input)"
  shows "booked_once d1"
proof -
  let ?u = "ac_sub actor" and ?w = "input_window input"
  note sh = insert_leave_shape [OF ins]
  have row: "lr_id row = lid" "lr_employeeId row = ?u" "lr_window row = ?w" "lr_status row = Review_pending"
    using sh by (simp_all add: new_leave_row_def)
  have dates: "startDate ?w = li_startDate input" "endDate ?w = li_endDate input"
    by (simp_all add: input_window_def)
  have vw: "valid_window ?w" using valid by (simp add: valid_window_def dates)
  have d1: "d1 = d\<lparr>leave_requests := leave_requests d @ [row]\<rparr>" using sh by simp
  have LL: "live_leave d1 = insert (lid, ?u, ?w) (live_leave d)"
    unfolding d1 by (subst live_leave_insert) (simp_all add: row)
  have WW: "live_wfh d1 = live_wfh d" unfolding d1 by (simp add: live_wfh_def)
  have apart: "\<not> share_half ?w x" if "(j, ?u, x) \<in> live_leave d" for j x
  proof
    assume sharing: "share_half ?w x"
    have "valid_window x" using b that by (force simp: booked_once_def)
    moreover have "x \<in> set (overlapping_leave_candidates ?u (li_startDate input) (li_endDate input) d)"
      using no_leave_candidates [OF that] share_half_dates [OF sharing] by (simp add: dates)
    ultimately show False
      using sh sharing leave_windows_overlap_iff [OF vw, of x] by (auto simp: share_half_def)
  qed
  have kinds: "kinds_apart (lid, ?u, ?w) q" if "q \<in> live_wfh d" for q
  proof -
    obtain j v t f where q: "q = (j, v, t, f)" by (cases q)
    show ?thesis
      using no_wfh_windows [of j ?u t f d "li_endDate input" "li_startDate input"] that sh
      unfolding q by (auto simp: dates)
  qed
  have leaves: "leave_apart (lid, ?u, ?w) q \<and> leave_apart q (lid, ?u, ?w)" if "q \<in> live_leave d" for q
  proof -
    obtain j v x where q: "q = (j, v, x)" by (cases q)
    show ?thesis using apart [of j x] that share_half_sym [of ?w x] unfolding q by auto
  qed
  have keys: "keys_distinct lr_id (leave_requests d1)"
    using b fresh by (simp add: d1 booked_once_def leave_table.wf_insert row)
  show ?thesis
    unfolding booked_once_def LL WW
    using b keys kinds leaves vw by (auto simp: booked_once_def d1)
qed

lemma booked_once_insert_wfh:
  assumes b: "booked_once d" and ins: "insert_wfh wid input actor wd d = Inr (row, d1)"
    and fresh: "find_row wr_id wid (wfh_requests d) = None"
  shows "booked_once d1"
proof -
  let ?u = "ac_sub actor" and ?s = "wi_startDate input" and ?e = "wi_endDate input"
  note sh = insert_wfh_shape [OF ins]
  have row: "wr_id row = wid" "wr_employeeId row = ?u" "wr_startDate row = ?s" "wr_endDate row = ?e"
    "wr_status row = Review_pending"
    using sh by (simp_all add: new_wfh_row_def)
  have d1: "d1 = d\<lparr>wfh_requests := wfh_requests d @ [row]\<rparr>" using sh by simp
  have WW: "live_wfh d1 = insert (wid, ?u, ?s, ?e) (live_wfh d)"
    unfolding d1 by (subst live_wfh_insert) (simp_all add: row)
  have LL: "live_leave d1 = live_leave d" unfolding d1 by (simp add: live_leave_def)
  have apart: "wfh_apart (wid, ?u, ?s, ?e) q \<and> wfh_apart q (wid, ?u, ?s, ?e)" if "q \<in> live_wfh d" for q
  proof -
    obtain j v t f where q: "q = (j, v, t, f)" by (cases q)
    show ?thesis
      using no_wfh_windows [of j ?u t f d ?e ?s] that sh unfolding q by auto
  qed
  have kinds: "kinds_apart q (wid, ?u, ?s, ?e)" if "q \<in> live_leave d" for q
  proof -
    obtain j v x where q: "q = (j, v, x)" by (cases q)
    show ?thesis
      using no_leave_candidates [of j ?u x d ?e ?s] that sh unfolding q by auto
  qed
  have keys: "keys_distinct wr_id (wfh_requests d1)"
    using b fresh by (simp add: d1 booked_once_def wfh_table.wf_insert row)
  show ?thesis
    unfolding booked_once_def LL WW
    using b keys kinds apart by (auto simp: booked_once_def d1)
qed

section \<open>Filing\<close>

lemma target_free:
  assumes "workforce_inv db" and "row_link k (domain_db db) = None" and "r \<in> set (items db)"
  shows "target (ri_payload r) \<noteq> k"
  using assms by (auto simp: workforce_inv_def linked_def)

lemma filing_inserted:
  assumes inv: "workforce_inv db" and new: "row_link k (domain_db db) = None"
    and frame: "\<And>j. j \<noteq> k \<Longrightarrow> row_state j d1 = row_state j (domain_db db)"
      "\<And>j. j \<noteq> k \<Longrightarrow> row_link j d1 = row_link j (domain_db db)"
    and booked: "booked_once d1"
  shows "workforce_inv (set_domain db d1)"
  using target_free [OF inv new] by (intro workforce_inv_domain [OF inv _ _ booked]) (auto simp: frame)

lemma filing_submitted:
  assumes inv: "workforce_inv db" and new: "row_link (target p) (domain_db db) = None"
    and frame: "\<And>j. j \<noteq> target p \<Longrightarrow> row_state j d1 = row_state j (domain_db db)"
      "\<And>j. j \<noteq> target p \<Longrightarrow> row_link j d1 = row_link j (domain_db db)"
    and pending: "row_state (target p) d1 = Some Review_pending" and booked: "booked_once d1"
    and run: "submit env workforce_registry iid ty p actor opts (set_domain db d1) = Inr (r, db2)"
    and fresh: "find_row ri_id iid (items db) = None" and typed: "typed_payload ty p"
    and frame2: "\<And>j. row_state j d2 = row_state j (domain_db db2)"
      "\<And>j. j \<noteq> target p \<Longrightarrow> row_link j d2 = row_link j (domain_db db2)"
    and link: "row_link (target p) (domain_db db2) \<noteq> None \<Longrightarrow> row_link (target p) d2 = Some (Some (ri_id r))"
    and booked2: "booked_once (domain_db db2) \<Longrightarrow> booked_once d2"
    and known: "row_link (target p) d1 \<noteq> None"
  shows "workforce_inv (set_domain db2 d2)"
proof -
  have inv1: "workforce_inv (set_domain db d1)"
    by (rule filing_inserted [OF inv new frame booked])
  have in2: "hooks.in_step db2"
    by (rule hooks.submit_in_step [OF _ run])
      (use inv1 fresh typed pending target_free [OF inv new] in \<open>auto simp: workforce_inv_def set_domain_def\<close>)
  have "items db2 = items db @ [r] \<and> domain_db db2 = d1 \<and> ri_payload r = p"
    using run
  proof (rule submit_shape)
    fix def d'
    assume "registry_get workforce_registry ty = Inr def" and 1: "items db2 = items (set_domain db d1) @ [r]"
        "domain_db db2 = d'" "ri_payload r = p"
      and hook: "run_hook (map_option (\<lambda>h x d. h p (ac_sub actor) (ev_now env) d) (td_onSubmit def)) ()
          (domain_db (set_domain db d1)) = Inr d'"
    then have "def \<in> set workforce_registry" by (auto dest!: registry_get_Inr find_row_Some)
    then show ?thesis
      using 1 hook hooks.no_submit_hook by (simp add: set_domain_def)
  qed
  then have shape: "items db2 = items db @ [r]" "domain_db db2 = d1" "ri_payload r = p" by auto
  have "hooks.in_step (set_domain db2 d2)"
    by (rule hooks.domain_write_in_step [OF in2]) (auto simp: set_domain_def hooks.item_in_step_def frame2)
  moreover have "linked (set_domain db2 d2)"
    unfolding linked_def
  proof
    fix q assume "q \<in> set (items (set_domain db2 d2))"
    then consider "q \<in> set (items db)" | "q = r" by (auto simp: set_domain_def shape)
    then show "row_link (target (ri_payload q)) (domain_db (set_domain db2 d2)) = Some (Some (ri_id q))"
    proof cases
      case 1
      then have "target (ri_payload q) \<noteq> target p" by (rule target_free [OF inv new])
      then show ?thesis
        using inv 1 by (simp add: set_domain_def frame2 shape frame workforce_inv_def linked_def)
    next
      case 2
      then show ?thesis using link known by (simp add: set_domain_def shape)
    qed
  qed
  ultimately show ?thesis
    using booked booked2 by (simp add: workforce_inv_def set_domain_def shape)
qed

text \<open>Linking a row to its request changes nothing else.\<close>

lemma row_state_links [simp]:
  "row_state k (set_leave_request_id i rid d) = row_state k d"
  "row_state k (set_wfh_request_id i rid d) = row_state k d"
  "row_state k (set_overtime_request_id i rid d) = row_state k d"
  by (cases k; simp add: row_state.simps set_leave_request_id_def set_wfh_request_id_def
      set_overtime_request_id_def leave_table.lookup_modify wfh_table.lookup_modify
      overtime_table.lookup_modify option.map_comp comp_def)+

lemma row_link_links:
  "row_link k (set_leave_request_id i rid d) =
     (if k = Leave_key i \<and> row_link k d \<noteq> None then Some (Some rid) else row_link k d)"
  "row_link k (set_wfh_request_id i rid d) =
     (if k = Wfh_key i \<and> row_link k d \<noteq> None then Some (Some rid) else row_link k d)"
  "row_link k (set_overtime_request_id i rid d) =
     (if k = Overtime_key i \<and> row_link k d \<noteq> None then Some (Some rid) else row_link k d)"
  by (cases k; auto simp: set_leave_request_id_def set_wfh_request_id_def set_overtime_request_id_def
      leave_table.lookup_modify wfh_table.lookup_modify overtime_table.lookup_modify)+

lemma justification_links [simp]:
  "row_state k (set_justification_request_id i rid d) = row_state k d"
  "frees d (set_justification_request_id i rid d)"
  by (cases k; simp add: row_state.simps set_justification_request_id_def justification_table.lookup_modify
      option.map_comp comp_def) (rule frees_same, simp_all add: set_justification_request_id_def)

lemma justification_row_link:
  "row_link k (set_justification_request_id i rid d) =
     (if k = Justification_key i \<and> row_link k d \<noteq> None then Some (Some rid) else row_link k d)"
  by (cases k; auto simp: set_justification_request_id_def justification_table.lookup_modify)

lemma frees_links [simp]:
  "frees d (set_leave_request_id i rid d)"
  "frees d (set_wfh_request_id i rid d)"
  "frees d (set_overtime_request_id i rid d)"
  unfolding set_leave_request_id_def set_wfh_request_id_def
  by (rule frees_leave_row, simp_all) (rule frees_wfh_row, simp_all,
      rule frees_same, simp_all add: set_overtime_request_id_def)

section \<open>Every step keeps the invariant\<close>

declare row_link.simps [simp del]

lemma inserted_rows:
  "j \<noteq> Leave_key (lr_id row) \<Longrightarrow>
     row_state j (d\<lparr>leave_requests := leave_requests d @ [row]\<rparr>) = row_state j d \<and>
     row_link j (d\<lparr>leave_requests := leave_requests d @ [row]\<rparr>) = row_link j d"
  "j \<noteq> Wfh_key (wr_id w) \<Longrightarrow>
     row_state j (d\<lparr>wfh_requests := wfh_requests d @ [w]\<rparr>) = row_state j d \<and>
     row_link j (d\<lparr>wfh_requests := wfh_requests d @ [w]\<rparr>) = row_link j d"
  "j \<noteq> Overtime_key (or_id ov) \<Longrightarrow>
     row_state j (d\<lparr>overtime_entries := overtime_entries d @ [ov]\<rparr>) = row_state j d \<and>
     row_link j (d\<lparr>overtime_entries := overtime_entries d @ [ov]\<rparr>) = row_link j d"
  by (cases j; auto simp: row_state.simps row_link.simps find_row_append split: option.splits)+

lemma create_leave_inv:
  assumes inv: "workforce_inv db" and run: "create_leave env lid iid input actor db = (res, db')"
    and fresh: "leave_fresh lid iid db" and valid: "valid_date (li_startDate input)" "valid_date (li_endDate input)"
  shows "workforce_inv db'"
proof (cases "quote_leave input actor (domain_db db)")
  case (Inl e)
  with run inv show ?thesis by (simp add: create_leave_def)
next
  case quote: (Inr wd)
  show ?thesis
  proof (cases "insert_leave lid input actor wd (domain_db db)")
    case (Inl e)
    with run inv quote show ?thesis by (simp add: create_leave_def)
  next
    case (Inr x)
    obtain row d1 where x: "x = (row, d1)" by (cases x)
    note ins = Inr [unfolded x]
    note sh = insert_leave_shape [OF ins]
    have row: "lr_id row = lid" "lr_status row = Review_pending"
      using sh by (simp_all add: new_leave_row_def)
    have d1: "d1 = (domain_db db)\<lparr>leave_requests := leave_requests (domain_db db) @ [row]\<rparr>" using sh by simp
    have none: "find_row lr_id lid (leave_requests (domain_db db)) = None" "find_row ri_id iid (items db) = None"
      using fresh by (auto simp: leave_fresh_def)
    have new: "row_link (Leave_key lid) (domain_db db) = None" using none by (simp add: row_link.simps)
    have frame: "row_state j d1 = row_state j (domain_db db)" "row_link j d1 = row_link j (domain_db db)"
      if "j \<noteq> Leave_key lid" for j
      using inserted_rows(1) [of j row "domain_db db"] that by (simp_all add: d1 row)
    have booked: "booked_once d1"
      using booked_once_insert_leave [OF _ ins none(1) valid] inv by (simp add: workforce_inv_def)
    have known: "row_link (Leave_key lid) d1 \<noteq> None" "row_state (Leave_key lid) d1 = Some Review_pending"
      using none by (simp_all add: d1 row find_row_append row_state.simps row_link.simps)
    let ?p = "leave_request_payload row actor wd"
    let ?sub = "submit env workforce_registry iid ''leave_request'' ?p actor (review_window (ev_now env) None)
        (set_domain db d1)"
    have tp: "target ?p = Leave_key lid" "typed_payload ''leave_request'' ?p"
      by (simp_all add: leave_request_payload_def row)
    show ?thesis
    proof (cases ?sub)
      case (Inl e)
      then have "db' = set_domain db d1" using run quote ins by (simp add: create_leave_def Let_def)
      then show ?thesis using filing_inserted [OF inv new frame booked] by simp
    next
      case sub: (Inr y)
      obtain item db2 where y: "y = (item, db2)" by (cases y)
      have db': "db' = set_domain db2 (record_audit (Some (ac_sub actor)) ''leave.requested'' (lr_id row)
          (set_leave_request_id (lr_id row) (ri_id item) (domain_db db2)))"
        using run quote ins sub y by (simp add: create_leave_def Let_def)
      show ?thesis
        unfolding db'
        by (rule filing_submitted [OF inv _ _ _ _ booked sub [unfolded y] none(2) tp(2), unfolded tp(1)])
          (auto simp: new frame known row row_link_links elim!: booked_once_frees)
    qed
  qed
qed

lemma create_wfh_inv:
  assumes inv: "workforce_inv db" and run: "create_wfh env managers wid iid input actor db = (res, db')"
    and fresh: "wfh_fresh wid iid db"
  shows "workforce_inv db'"
proof (cases "quote_wfh (ev_now env) input (domain_db db)")
  case (Inl e)
  with run inv show ?thesis by (simp add: create_wfh_def)
next
  case quote: (Inr wd)
  show ?thesis
  proof (cases "insert_wfh wid input actor wd (domain_db db)")
    case (Inl e)
    with run inv quote show ?thesis by (simp add: create_wfh_def)
  next
    case (Inr x)
    obtain row d1 where x: "x = (row, d1)" by (cases x)
    note ins = Inr [unfolded x]
    note sh = insert_wfh_shape [OF ins]
    have row: "wr_id row = wid" "wr_status row = Review_pending"
      using sh by (simp_all add: new_wfh_row_def)
    have d1: "d1 = (domain_db db)\<lparr>wfh_requests := wfh_requests (domain_db db) @ [row]\<rparr>" using sh by simp
    have none: "find_row wr_id wid (wfh_requests (domain_db db)) = None" "find_row ri_id iid (items db) = None"
      using fresh by (auto simp: wfh_fresh_def)
    have new: "row_link (Wfh_key wid) (domain_db db) = None" using none by (simp add: row_link.simps)
    have frame: "row_state j d1 = row_state j (domain_db db)" "row_link j d1 = row_link j (domain_db db)"
      if "j \<noteq> Wfh_key wid" for j
      using inserted_rows(2) [of j row "domain_db db"] that by (simp_all add: d1 row)
    have booked: "booked_once d1"
      using booked_once_insert_wfh [OF _ ins none(1)] inv by (simp add: workforce_inv_def)
    have known: "row_link (Wfh_key wid) d1 \<noteq> None" "row_state (Wfh_key wid) d1 = Some Review_pending"
      using none by (simp_all add: d1 row find_row_append row_state.simps row_link.simps)
    let ?p = "wfh_request_payload row actor"
    let ?sub = "submit env workforce_registry iid ''wfh_request'' ?p actor
        (review_window (ev_now env) (manager_of env managers (ac_sub actor) ''workforce.wfh.review''))
        (set_domain db d1)"
    have tp: "target ?p = Wfh_key wid" "typed_payload ''wfh_request'' ?p"
      by (simp_all add: wfh_request_payload_def row)
    show ?thesis
    proof (cases ?sub)
      case (Inl e)
      then have "db' = set_domain db d1" using run quote ins by (simp add: create_wfh_def Let_def)
      then show ?thesis using filing_inserted [OF inv new frame booked] by simp
    next
      case sub: (Inr y)
      obtain item db2 where y: "y = (item, db2)" by (cases y)
      have db': "db' = set_domain db2 (record_audit (Some (ac_sub actor)) ''wfh.requested'' (wr_id row)
          (set_wfh_request_id (wr_id row) (ri_id item) (domain_db db2)))"
        using run quote ins sub y by (simp add: create_wfh_def Let_def)
      show ?thesis
        unfolding db'
        by (rule filing_submitted [OF inv _ _ _ _ booked sub [unfolded y] none(2) tp(2), unfolded tp(1)])
          (auto simp: new frame known row row_link_links elim!: booked_once_frees)
    qed
  qed
qed

lemma create_overtime_inv:
  assumes inv: "workforce_inv db" and run: "create_overtime env oid iid input actor db = (res, db')"
    and fresh: "overtime_fresh oid iid db"
  shows "workforce_inv db'"
proof -
  define row where "row = new_overtime_row oid input actor"
  define d1 where "d1 = (domain_db db)\<lparr>overtime_entries := overtime_entries (domain_db db) @ [row]\<rparr>"
  have rid: "or_id row = oid" "or_status row = Overtime_pending" by (simp_all add: row_def new_overtime_row_def)
  have none: "find_row or_id oid (overtime_entries (domain_db db)) = None" "find_row ri_id iid (items db) = None"
    using fresh by (auto simp: overtime_fresh_def)
  have new: "row_link (Overtime_key oid) (domain_db db) = None" using none by (simp add: row_link.simps)
  have frame: "row_state j d1 = row_state j (domain_db db)" "row_link j d1 = row_link j (domain_db db)"
    if "j \<noteq> Overtime_key oid" for j
    using inserted_rows(3) [of j row "domain_db db"] that by (simp_all add: d1_def rid)
  have booked: "booked_once d1"
    using inv frees_same [of d1 "domain_db db"]
    by (auto simp: workforce_inv_def d1_def elim!: booked_once_frees)
  have known: "row_link (Overtime_key oid) d1 \<noteq> None" "row_state (Overtime_key oid) d1 = Some Review_pending"
    using none by (simp_all add: d1_def rid find_row_append row_state.simps row_link.simps)
  let ?p = "Overtime_payload \<lparr>op_overtimeId = or_id row, op_employeeId = ac_sub actor, op_workDate = or_workDate row,
      op_hours = oi_hours input, op_reason = or_reason row\<rparr>"
  let ?sub = "submit env workforce_registry iid ''overtime'' ?p actor (review_window (ev_now env) None)
      (set_domain db d1)"
  have tp: "target ?p = Overtime_key oid" "typed_payload ''overtime'' ?p" by (simp_all add: rid)
  show ?thesis
  proof (cases ?sub)
    case (Inl e)
    then have "db' = set_domain db d1" using run by (simp add: create_overtime_def Let_def row_def d1_def)
    then show ?thesis using filing_inserted [OF inv new frame booked] by simp
  next
    case sub: (Inr y)
    obtain item db2 where y: "y = (item, db2)" by (cases y)
    have db': "db' = set_domain db2 (set_overtime_request_id (or_id row) (ri_id item) (domain_db db2))"
      using run sub y by (simp add: create_overtime_def Let_def row_def d1_def)
    show ?thesis
      unfolding db'
      by (rule filing_submitted [OF inv _ _ _ _ booked sub [unfolded y] none(2) tp(2), unfolded tp(1)])
        (auto simp: new frame known rid row_link_links elim!: booked_once_frees)
  qed
qed

lemma row_state_repo_leave:
  "row_state k (repo_set_leave_status i st u now d) =
     (if k = Leave_key i \<and> row_state k d \<noteq> None then Some st else row_state k d)"
  by (cases k) (auto simp: row_state.simps repo_set_leave_status_def leave_table.lookup_modify Let_def)

lemma row_state_repo_wfh:
  "row_state k (repo_set_wfh_status i st u now d) =
     (if k = Wfh_key i \<and> row_state k d \<noteq> None then Some st else row_state k d)"
  by (cases k) (auto simp: row_state.simps repo_set_wfh_status_def wfh_table.lookup_modify Let_def)

lemma row_state_repo_overtime:
  "row_state k (repo_set_overtime_status i st u now d) =
     (if k = Overtime_key i \<and> row_state k d \<noteq> None then Some (overtime_as_review st) else row_state k d)"
  by (cases k) (auto simp: row_state.simps repo_set_overtime_status_def overtime_table.lookup_modify Let_def)

lemma row_link_repo [simp]:
  "row_link k (repo_set_leave_status i st u now d) = row_link k d"
  "row_link k (repo_set_wfh_status i st u now d) = row_link k d"
  "row_link k (repo_set_overtime_status i ost u now d) = row_link k d"
  by (cases k; auto simp: row_link.simps repo_set_leave_status_def repo_set_wfh_status_def
      repo_set_overtime_status_def leave_table.lookup_modify wfh_table.lookup_modify
      overtime_table.lookup_modify option.map_comp comp_def Let_def)+

lemma repo_leave_frees:
  assumes "booked_once d" and "find_row lr_id i (leave_requests d) = Some l"
    and "is_live st \<longrightarrow> is_live (lr_status l)"
  shows "frees d (repo_set_leave_status i st u now d)"
  unfolding repo_set_leave_status_def Let_def
proof (rule frees_leave_row)
  fix r assume r: "r \<in> set (leave_requests d)" "lr_id r = i"
  have "r = l"
    using leave_table.lookup_member [of "leave_requests d" r] assms(1,2) r by (simp add: booked_once_def)
  then show "is_live (lr_status (r\<lparr>lr_status := st,
        lr_reviewerId := if st = Review_approved \<or> st = Review_rejected then u else None,
        lr_reviewedAt := if st = Review_approved \<or> st = Review_rejected then Some now else None\<rparr>)) \<Longrightarrow>
      is_live (lr_status r)"
    using assms(3) by simp
qed simp_all

lemma repo_wfh_frees: "\<not> is_live st \<Longrightarrow> frees d (repo_set_wfh_status i st u now d)"
  unfolding repo_set_wfh_status_def Let_def by (rule frees_wfh_row) simp_all

lemma repo_overtime_frees [simp]: "frees d (repo_set_overtime_status i st u now d)"
  by (rule frees_same) (simp_all add: repo_set_overtime_status_def Let_def)

lemma unlinked_target:
  assumes "workforce_inv db" and "row_link k (domain_db db) = Some None" and "r \<in> set (items db)"
  shows "target (ri_payload r) \<noteq> k"
  using assms by (auto simp: workforce_inv_def linked_def)

lemma review_leave_inv:
  assumes inv: "workforce_inv db" and run: "review_leave env aid lid yes actor db = Inr db'"
  shows "workforce_inv db'"
proof -
  obtain l where l: "find_row lr_id lid (leave_requests (domain_db db)) = Some l"
      and pending: "lr_status l = Review_pending"
      and rest: "(case lr_requestId l of
          Some rid \<Rightarrow> if yes then approve env workforce_registry aid rid None actor db
            else reject env workforce_registry aid rid None actor db
        | None \<Rightarrow> Inr (set_domain db (record_audit (Some (ac_sub actor))
            (if yes then ''leave.approved'' else ''leave.rejected'') lid
            (repo_set_leave_status lid (if yes then Review_approved else Review_rejected)
               (Some (ac_sub actor)) (ev_now env) (domain_db db))))) = Inr db'"
    using run
    by (auto simp: review_leave_def get_leave_def and_then_eq_Inr Let_def split: option.splits if_splits)
  show ?thesis
  proof (cases "lr_requestId l")
    case (Some rid)
    then have "closing_call workforce_registry db db'"
      using rest by (auto split: if_splits intro: closing_call.intros)
    then show ?thesis by (rule workforce_inv_closing [OF inv])
  next
    case None
    let ?d = "repo_set_leave_status lid (if yes then Review_approved else Review_rejected)
               (Some (ac_sub actor)) (ev_now env) (domain_db db)"
    have unlinked: "row_link (Leave_key lid) (domain_db db) = Some None" using l None by (simp add: row_link.simps)
    have "booked_once ?d"
      by (rule booked_once_frees [OF _ repo_leave_frees [OF _ l]])
        (use inv pending in \<open>auto simp: workforce_inv_def\<close>)
    then have "booked_once (record_audit (Some (ac_sub actor))
            (if yes then ''leave.approved'' else ''leave.rejected'') lid ?d)"
      by (rule booked_once_frees) simp
    then show ?thesis
      using rest None unlinked_target [OF inv unlinked]
      by (auto simp: row_state_repo_leave intro!: workforce_inv_domain [OF inv])
  qed
qed

lemma review_wfh_inv:
  assumes inv: "workforce_inv db" and run: "review_wfh env aid wid yes actor db = Inr db'"
  shows "workforce_inv db'"
proof -
  have "closing_call workforce_registry db db'"
    using run
    by (auto simp: review_wfh_def and_then_eq_Inr split: option.splits if_splits intro: closing_call.intros)
  then show ?thesis by (rule workforce_inv_closing [OF inv])
qed

lemma review_overtime_inv:
  assumes inv: "workforce_inv db" and run: "review_overtime env aid oid yes actor db = Inr db'"
  shows "workforce_inv db'"
proof -
  obtain ov where ov: "find_row or_id oid (overtime_entries (domain_db db)) = Some ov"
      and rest: "(case or_requestId ov of
          Some rid \<Rightarrow> if yes then approve env workforce_registry aid rid None actor db
            else reject env workforce_registry aid rid None actor db
        | None \<Rightarrow> Inr (set_domain db (record_audit (Some (ac_sub actor))
            (if yes then ''overtime.approved'' else ''overtime.rejected'') oid
            (repo_set_overtime_status oid (if yes then Overtime_approved else Overtime_rejected)
               (Some (ac_sub actor)) (ev_now env) (domain_db db))))) = Inr db'"
    using run
    by (auto simp: review_overtime_def get_overtime_def and_then_eq_Inr Let_def split: option.splits if_splits)
  show ?thesis
  proof (cases "or_requestId ov")
    case (Some rid)
    then have "closing_call workforce_registry db db'"
      using rest by (auto split: if_splits intro: closing_call.intros)
    then show ?thesis by (rule workforce_inv_closing [OF inv])
  next
    case None
    let ?d = "record_audit (Some (ac_sub actor)) (if yes then ''overtime.approved'' else ''overtime.rejected'') oid
       (repo_set_overtime_status oid (if yes then Overtime_approved else Overtime_rejected)
               (Some (ac_sub actor)) (ev_now env) (domain_db db))"
    have unlinked: "row_link (Overtime_key oid) (domain_db db) = Some None" using ov None by (simp add: row_link.simps)
    have "booked_once ?d"
      by (rule booked_once_frees [of "domain_db db"]) (use inv in \<open>auto simp: workforce_inv_def\<close>)
    then show ?thesis
      using rest None unlinked_target [OF inv unlinked]
      by (auto simp: row_state_repo_overtime intro!: workforce_inv_domain [OF inv])
  qed
qed

lemma cancel_leave_inv:
  assumes inv: "workforce_inv db" and run: "cancel_leave env lid actor db = Inr db'"
  shows "workforce_inv db'"
proof -
  obtain l where l: "find_row lr_id lid (leave_requests (domain_db db)) = Some l"
    using run by (auto simp: cancel_leave_def get_leave_def and_then_eq_Inr split: option.splits)
  let ?c = "repo_set_leave_status lid Review_cancelled None (ev_now env) (domain_db db)"
  have "booked_once ?c"
    by (rule booked_once_frees [OF _ repo_leave_frees [OF _ l]]) (use inv in \<open>auto simp: workforce_inv_def\<close>)
  then have booked: "booked_once ?c" "booked_once (record_audit (Some (ac_sub actor)) ''leave.cancelled'' lid ?c)"
    using booked_once_frees [of ?c "record_audit (Some (ac_sub actor)) ''leave.cancelled'' lid ?c"] by auto
  consider "lr_requestId l \<noteq> None" "lr_status l = Review_pending"
      "cancel env workforce_registry (the (lr_requestId l)) actor db = Inr db'"
    | "lr_status l = Review_approved"
      "db' = set_domain db (record_audit (Some (ac_sub actor)) ''leave.cancelled'' lid ?c)"
    | "lr_requestId l = None" "db' = set_domain db ?c"
    using run l
    by (auto simp: cancel_leave_def get_leave_def and_then_eq_Inr Let_def split: if_splits)
  then show ?thesis
  proof cases
    case 1
    then show ?thesis by (intro workforce_inv_closing [OF inv] call_cancel)
  next
    case 2
    have state: "row_state (Leave_key lid) (domain_db db) = Some Review_approved"
      using l 2 by (simp add: row_state.simps)
    show ?thesis
      unfolding 2(2)
    proof (rule workforce_inv_domain [OF inv _ _ booked(2)])
      fix r assume a: "agrees (target (ri_payload r)) (ri_status r) (row_state (target (ri_payload r)) (domain_db db))"
      show "agrees (target (ri_payload r)) (ri_status r)
          (row_state (target (ri_payload r)) (record_audit (Some (ac_sub actor)) ''leave.cancelled'' lid ?c))"
        using a state by (cases "ri_status r") (auto simp: row_state_repo_leave split: if_splits)
    qed simp
  next
    case 3
    have unlinked: "row_link (Leave_key lid) (domain_db db) = Some None" using l 3 by (simp add: row_link.simps)
    show ?thesis
      using unlinked_target [OF inv unlinked] booked(1)
      by (auto simp: 3(2) row_state_repo_leave intro!: workforce_inv_domain [OF inv])
  qed
qed

lemma cancel_wfh_inv:
  assumes inv: "workforce_inv db" and run: "cancel_wfh env wid actor db = Inr db'"
  shows "workforce_inv db'"
proof -
  obtain w where w: "find_row wr_id wid (wfh_requests (domain_db db)) = Some w"
    using run by (auto simp: cancel_wfh_def get_wfh_def and_then_eq_Inr split: option.splits)
  let ?c = "record_audit (Some (ac_sub actor)) ''wfh.cancelled'' wid
      (repo_set_wfh_status wid Review_cancelled None (ev_now env) (domain_db db))"
  have booked: "booked_once ?c"
    by (rule booked_once_frees [of "domain_db db"]) (use inv in \<open>auto simp: workforce_inv_def repo_wfh_frees\<close>)
  show ?thesis
  proof (cases "wr_requestId w")
    case (Some rid)
    then have "cancel env workforce_registry rid actor db = Inr db'"
      using run w by (simp add: cancel_wfh_def get_wfh_def and_then_eq_Inr)
    then show ?thesis by (intro workforce_inv_closing [OF inv] call_cancel)
  next
    case None
    then have db': "db' = set_domain db ?c"
      using run w by (auto simp: cancel_wfh_def get_wfh_def and_then_eq_Inr split: if_splits)
    have unlinked: "row_link (Wfh_key wid) (domain_db db) = Some None" using w None by (simp add: row_link.simps)
    show ?thesis
      using unlinked_target [OF inv unlinked] booked
      by (auto simp: db' row_state_repo_wfh intro!: workforce_inv_domain [OF inv])
  qed
qed

lemma breach_inv: "workforce_inv db \<Longrightarrow> workforce_inv (sla_breach_row now q db)"
proof -
  assume inv: "workforce_inv db"
  have dom: "domain_db (sla_breach_row now q db) = domain_db db"
    by (simp add: sla_breach_row_def split: option.split)
  have "linked (sla_breach_row now q db)"
    using inv
    by (auto simp: workforce_inv_def linked_def sla_breach_row_def modify_row_def set_update_where breach_item_def
        split: option.split)
  then show ?thesis
    using inv hooks.breach_in_step by (simp add: workforce_inv_def dom)
qed

lemma calendar_inv:
  assumes inv: "workforce_inv db" and same: "leave_requests d = leave_requests (domain_db db)"
      "wfh_requests d = wfh_requests (domain_db db)" "overtime_entries d = overtime_entries (domain_db db)"
      "justifications d = justifications (domain_db db)"
  shows "workforce_inv (set_domain db d)"
proof -
  have state: "row_state k d = row_state k (domain_db db)" "row_link k d = row_link k (domain_db db)" for k
    by (cases k; simp add: row_state.simps row_link.simps same)+
  have "booked_once d"
    using inv booked_once_frees [OF _ frees_same [OF same(1,2)]] by (simp add: workforce_inv_def)
  then show ?thesis
    by (intro workforce_inv_domain [OF inv]) (simp_all add: state)
qed

lemma create_justification_inv:
  assumes inv: "workforce_inv db" and run: "create_justification env jid iid input actor db = (res, db')"
    and fresh: "justification_fresh jid iid db"
  shows "workforce_inv db'"
proof (cases "quote_justification input (domain_db db)")
  case (Inl e)
  then show ?thesis using run inv by (simp add: create_justification_def)
next
  case quote: (Inr days)
  define row where "row = new_justification_row jid input actor days"
  define d1 where "d1 = (domain_db db)\<lparr>justifications := justifications (domain_db db) @ [row]\<rparr>"
  have rid: "jr_id row = jid" "jr_status row = Review_pending" by (simp_all add: row_def new_justification_row_def)
  have none: "find_row jr_id jid (justifications (domain_db db)) = None" "find_row ri_id iid (items db) = None"
    using fresh by (auto simp: justification_fresh_def)
  have new: "row_link (Justification_key jid) (domain_db db) = None" using none by (simp add: row_link.simps)
  have frame: "row_state j d1 = row_state j (domain_db db)" "row_link j d1 = row_link j (domain_db db)"
    if "j \<noteq> Justification_key jid" for j
    using that by (cases j; simp add: d1_def rid find_row_append row_state.simps row_link.simps split: option.split)+
  have booked: "booked_once d1"
    using inv frees_same [of d1 "domain_db db"]
    by (auto simp: workforce_inv_def d1_def elim!: booked_once_frees)
  have known: "row_link (Justification_key jid) d1 \<noteq> None" "row_state (Justification_key jid) d1 = Some Review_pending"
    using none by (simp_all add: d1_def rid find_row_append row_state.simps row_link.simps)
  let ?p = "justification_request_payload row actor days"
  let ?sub = "submit env workforce_registry iid ''attendance_justification'' ?p actor (review_window (ev_now env) None)
      (set_domain db d1)"
  have tp: "target ?p = Justification_key jid" "typed_payload ''attendance_justification'' ?p"
    by (simp_all add: justification_request_payload_def rid)
  show ?thesis
  proof (cases ?sub)
    case (Inl e)
    then have "db' = set_domain db d1" using run quote by (simp add: create_justification_def Let_def row_def d1_def)
    then show ?thesis using filing_inserted [OF inv new frame booked] by simp
  next
    case sub: (Inr y)
    obtain item db2 where y: "y = (item, db2)" by (cases y)
    have db': "db' = set_domain db2 (record_audit (Some (ac_sub actor)) ''attendance_justification.requested'' (jr_id row)
          (set_justification_request_id (jr_id row) (ri_id item) (domain_db db2)))"
      using run quote sub y by (simp add: create_justification_def Let_def row_def d1_def)
    show ?thesis
      unfolding db'
      by (rule filing_submitted [OF inv _ _ _ _ booked sub [unfolded y] none(2) tp(2), unfolded tp(1)])
        (auto simp: new frame known rid justification_row_link elim!: booked_once_frees)
  qed
qed

lemma review_justification_inv:
  assumes inv: "workforce_inv db" and run: "review_justification env aid jid yes actor db = Inr db'"
  shows "workforce_inv db'"
proof -
  have "closing_call workforce_registry db db'"
    using run
    by (auto simp: review_justification_def and_then_eq_Inr split: option.splits if_splits intro: closing_call.intros)
  then show ?thesis by (rule workforce_inv_closing [OF inv])
qed

lemma cancel_justification_inv:
  assumes inv: "workforce_inv db" and run: "cancel_justification env jid actor db = Inr db'"
  shows "workforce_inv db'"
proof -
  have "closing_call workforce_registry db db'"
    using run
    by (auto simp: cancel_justification_def and_then_eq_Inr split: option.splits if_splits intro: closing_call.intros)
  then show ?thesis by (rule workforce_inv_closing [OF inv])
qed

lemma month_ops_same:
  "close_month now month actor n db = Inr db' \<or> reopen_month month actor db = Inr db' \<Longrightarrow>
   \<exists>d. db' = set_domain db d \<and> leave_requests d = leave_requests (domain_db db) \<and>
     wfh_requests d = wfh_requests (domain_db db) \<and> overtime_entries d = overtime_entries (domain_db db) \<and>
     justifications d = justifications (domain_db db)"
  by (auto simp: close_month_def close_month_commit_def reopen_month_def Let_def and_then_eq_Inr record_audit_def
      split: if_splits)

lemma workforce_inv_step:
  assumes step: "workforce_step db db'" and inv: "workforce_inv db"
  shows "workforce_inv db'"
  using step
proof cases
  case ws_create_leave
  from inv this show ?thesis by (rule create_leave_inv)
next
  case ws_create_wfh
  from inv this show ?thesis by (rule create_wfh_inv)
next
  case ws_create_overtime
  from inv this show ?thesis by (rule create_overtime_inv)
next
  case ws_create_justification
  from inv this show ?thesis by (rule create_justification_inv)
next
  case ws_review_justification
  from inv this show ?thesis by (rule review_justification_inv)
next
  case ws_cancel_justification
  from inv this show ?thesis by (rule cancel_justification_inv)
next
  case ws_close_month
  with month_ops_same inv show ?thesis by (metis calendar_inv)
next
  case ws_reopen_month
  with month_ops_same inv show ?thesis by (metis calendar_inv)
next
  case ws_review_leave
  from inv this show ?thesis by (rule review_leave_inv)
next
  case ws_review_wfh
  from inv this show ?thesis by (rule review_wfh_inv)
next
  case ws_review_overtime
  from inv this show ?thesis by (rule review_overtime_inv)
next
  case ws_cancel_leave
  from inv this show ?thesis by (rule cancel_leave_inv)
next
  case ws_cancel_wfh
  from inv this show ?thesis by (rule cancel_wfh_inv)
next
  case ws_engine
  from inv this show ?thesis by (rule workforce_inv_closing)
next
  case (ws_breach now q)
  with inv show ?thesis by (simp add: breach_inv)
next
  case (ws_calendar d)
  with inv show ?thesis by (simp add: calendar_inv)
qed

lemma workforce_inv_reachable: "workforce_reachable db \<Longrightarrow> workforce_inv db"
  by (induction rule: workforce_reachable.induct) (auto intro: workforce_inv_init workforce_inv_step)

section \<open>Decisions in two halves\<close>

text \<open>
  The module's operations one after another, and beside them the engine's decisions split into check
  and transaction: a decision checked at one moment commits, or is refused by its hook, at any later one.
\<close>

inductive workforce_race :: "(workforce_payload, workforce_db) race_state \<Rightarrow>
    (workforce_payload, workforce_db) race_state \<Rightarrow> bool" where
  wr_call: "workforce_step db db' \<Longrightarrow> workforce_race (db, fl) (db', fl)"
| wr_begin: "race_step workforce_registry (db, fl) (db, fl') \<Longrightarrow> workforce_race (db, fl) (db, fl')"
| wr_commit:
    "f \<in> set fl \<Longrightarrow> commit_flight env i f db = Inr db' \<Longrightarrow> workforce_race (db, fl) (db', remove1 f fl)"

inductive workforce_raced :: "(workforce_payload, workforce_db) race_state \<Rightarrow> bool" where
  wr_init: "workforce_init db \<Longrightarrow> workforce_raced (db, [])"
| wr_next: "workforce_raced s \<Longrightarrow> workforce_race s s' \<Longrightarrow> workforce_raced s'"

lemma raced_of_calls: "workforce_reachable db \<Longrightarrow> workforce_raced (db, [])"
  by (induction rule: workforce_reachable.induct) (auto intro: wr_init wr_next wr_call)

text \<open>No operation loses a request or changes what was filed.\<close>

lemma submit_keeps_filed: "submit env reg i ty p actor opts db = Inr (r, db') \<Longrightarrow> keeps_filed (items db) (items db')"
  by (erule submit_shape) (auto simp: keeps_filed_def find_row_append split: option.splits)

lemma closing_keeps_filed:
  assumes "closing_call reg db db'"
  shows "keeps_filed (items db) (items db')"
proof -
  have "engine_step reg db db'"
    using assms by (cases rule: closing_call.cases) (auto intro: engine_step.intros)
  then obtain c where "change_ok reg db c" "items db' = changed_items c (items db)"
    by (rule engine_step_change)
  then show ?thesis by (simp add: keeps_filed_change)
qed

lemma closing_or_same:
  "review_leave env aid lid yes actor db = Inr db' \<Longrightarrow>
     closing_call workforce_registry db db' \<or> items db' = items db"
  "review_overtime env aid lid yes actor db = Inr db' \<Longrightarrow>
     closing_call workforce_registry db db' \<or> items db' = items db"
  "cancel_leave env lid actor db = Inr db' \<Longrightarrow>
     closing_call workforce_registry db db' \<or> items db' = items db"
  "cancel_wfh env lid actor db = Inr db' \<Longrightarrow>
     closing_call workforce_registry db db' \<or> items db' = items db"
  by (auto simp: review_leave_def review_overtime_def cancel_leave_def cancel_wfh_def get_leave_def get_overtime_def
      get_wfh_def and_then_eq_Inr Let_def set_domain_def split: option.splits if_splits intro: closing_call.intros)

lemma closing_only:
  "review_wfh env aid wid yes actor db = Inr db' \<Longrightarrow> closing_call workforce_registry db db'"
  "review_justification env aid jid yes actor db = Inr db' \<Longrightarrow> closing_call workforce_registry db db'"
  "cancel_justification env jid actor db = Inr db' \<Longrightarrow> closing_call workforce_registry db db'"
  by (auto simp: review_wfh_def review_justification_def cancel_justification_def and_then_eq_Inr
      split: option.splits if_splits intro: closing_call.intros)

lemma set_domain_items [simp]: "items (set_domain db d) = items db"
  by (simp add: set_domain_def)

lemma create_keeps_filed:
  "create_leave env lid iid input actor db = (res, db') \<Longrightarrow> keeps_filed (items db) (items db')"
  "create_wfh env managers wid iid winput actor db = (wres, db') \<Longrightarrow> keeps_filed (items db) (items db')"
  "create_overtime env oid iid oinput actor db = (ores, db') \<Longrightarrow> keeps_filed (items db) (items db')"
  "create_justification env jid iid jinput actor db = (jres, db') \<Longrightarrow> keeps_filed (items db) (items db')"
  by (auto simp: create_leave_def create_wfh_def create_overtime_def create_justification_def Let_def
      split: sum.splits prod.splits dest!: submit_keeps_filed)

lemma workforce_keeps_filed:
  assumes step: "workforce_step db db'"
  shows "keeps_filed (items db) (items db')"
  using step
proof cases
  case (ws_breach now q)
  then show ?thesis by (auto simp: sla_breach_row_def intro: keeps_filed_modify split: option.split)
next
  case ws_close_month
  with month_ops_same show ?thesis by (metis keeps_filed_refl set_domain_items)
next
  case ws_reopen_month
  with month_ops_same show ?thesis by (metis keeps_filed_refl set_domain_items)
qed (auto dest: create_keeps_filed closing_keeps_filed closing_or_same closing_only)

text \<open>A decision that commits late keeps the invariant too.\<close>

lemma workforce_inv_commit:
  assumes inv: "workforce_inv db" and m: "commit_flight env j f db = Inr db'"
    and fits: "flight_fits workforce_registry (items db) f"
  shows "workforce_inv db'"
proof -
  have i: "hooks.in_step db" "linked db" "booked_once (domain_db db)"
    using inv by (auto simp: workforce_inv_def)
  obtain def p rid u now st where c: "def \<in> set workforce_registry" "typed_payload (td_type def) p"
      "closes def p rid u now st (domain_db db) = Inr (domain_db db')"
    using hooks.late_commit_domain [OF i(1) m fits] by blast
  have frees: "frees (domain_db db) (domain_db db')" by (rule closes_frees [OF i(3) c])
  have link: "row_link k (domain_db db') = row_link k (domain_db db)" for k by (rule closes_link [OF c])
  have "linked db'"
    unfolding linked_def
  proof
    fix r' assume "r' \<in> set (items db')"
    then obtain r where "r \<in> set (items db)" "filed r' = filed r"
      using commit_keeps [OF m] by (auto simp: log_kept_def same_filings_def)
    then show "row_link (target (ri_payload r')) (domain_db db') = Some (Some (ri_id r'))"
      using i(2) by (simp add: linked_def link filed_def)
  qed
  then show ?thesis
    using hooks.late_commit_in_step [OF i(1) m fits] booked_once_frees [OF i(3) frees]
    by (simp add: workforce_inv_def)
qed

lemma workforce_raced_inv:
  "workforce_raced s \<Longrightarrow>
     workforce_inv (fst s) \<and> (\<forall>f \<in> set (snd s). flight_fits workforce_registry (items (fst s)) f)"
proof (induction rule: workforce_raced.induct)
  case (wr_init db)
  then show ?case by (simp add: workforce_inv_init)
next
  case (wr_next s s')
  from wr_next(2) show ?case
  proof cases
    case (wr_call db db' fl)
    have "workforce_inv db" using wr_next.IH wr_call(1) by simp
    then have "workforce_inv db'" by (rule workforce_inv_step [OF wr_call(3)])
    moreover have "\<forall>f \<in> set fl. flight_fits workforce_registry (items db') f"
      using wr_next.IH wr_call(1)
        flight_fits_keeps [OF workforce_keeps_filed [OF wr_call(3)], of workforce_registry] by simp
    ultimately show ?thesis using wr_call(2) by simp
  next
    case (wr_begin db fl fl')
    then show ?thesis using wr_next.IH begun_fits [OF wr_begin(3)] by simp
  next
    case (wr_commit f fl env i db db')
    have fits: "flight_fits workforce_registry (items db) f" using wr_next.IH wr_commit by simp
    have keep: "keeps_filed (items db) (items db')" using commit_keeps [OF wr_commit(4)] by (simp add: log_kept_def)
    have "\<forall>f' \<in> set (remove1 f fl). flight_fits workforce_registry (items db') f'"
      using wr_next.IH wr_commit(1) flight_fits_keeps [OF keep] by (auto dest: set_remove1_subset [THEN subsetD])
    then show ?thesis
      using workforce_inv_commit [OF _ wr_commit(4) fits] wr_next.IH wr_commit(1,2) by simp
  qed
qed

end
