(* ===== verification/WorkforceProperties.thy ===== *)
theory WorkforceProperties
  imports WorkforceSafety
begin

text \<open>
  The properties of the workforce module on top of the request engine: the two records of a request
  agree, nobody is booked twice, a filing is covered by the balance, and what concurrent calls can
  still break. A small calendar and staff give the concrete inputs.
\<close>

section \<open>A small company\<close>

definition wx_actor :: "string \<Rightarrow> actor" where
  "wx_actor u = \<lparr>ac_sub = u, ac_email = u @ ''@example''\<rparr>"

text \<open>Mai reviews; everybody is employed; nobody has delegated.\<close>

definition wx_env :: "int \<Rightarrow> request_env" where
  "wx_env now =
     \<lparr>ev_now = now, ev_check = (\<lambda>u p. u = ''mai'' \<or> (u = ''quan'' \<and> p = ''workforce.approve'')),
      ev_holders = (\<lambda>p. [''mai'']), ev_delegation = (\<lambda>u. None), ev_employee = (\<lambda>u. Some Employee_active)\<rparr>"

definition wx_grant :: entitlement_row where
  "wx_grant =
     \<lparr>en_employeeId = ''an'', en_leaveType = Annual, en_year = 2026, en_grantedDays = 3,
      en_carriedOverDays = 0, en_carriedOverExpiresOn = None, en_note = None, en_updatedAt = 0\<rparr>"

definition wx_empty :: platform where
  "wx_empty =
     \<lparr>items = [], approvals = [], comments = [], outbox = [], subscriptions = [], deliveries = [],
      domain_db = empty_workforce\<lparr>entitlements := [wx_grant]\<rparr>\<rparr>"

text \<open>Two working days each: Monday and Tuesday, Wednesday and Thursday.\<close>

definition wx_input :: "int \<Rightarrow> int \<Rightarrow> leave_input" where
  "wx_input d1 d2 =
     \<lparr>li_leaveType = Annual, li_startDate = Iso 2026 6 d1, li_endDate = Iso 2026 6 d2,
      li_startPortion = None, li_endPortion = None, li_reason = None\<rparr>"

definition wx_filed :: platform where
  "wx_filed = snd (create_leave (wx_env 1) ''L1'' ''R1'' (wx_input 1 2) (wx_actor ''an'') wx_empty)"

lemma wx_init: "workforce_init wx_empty"
  by (simp add: workforce_init_def wx_empty_def empty_workforce_def)

lemma wx_create:
  "create_leave (wx_env 1) ''L1'' ''R1'' (wx_input 1 2) (wx_actor ''an'') wx_empty =
     (Inr (hd (leave_requests (domain_db wx_filed))), wx_filed)"
  by code_simp

lemma wx_filed_reachable: "workforce_reachable wx_filed"
  by (rule wf_step [OF wf_init [OF wx_init] ws_create_leave [OF wx_create]])
    (simp_all add: leave_fresh_def wx_empty_def empty_workforce_def wx_input_def days_in_month_def
       month_start_def leap_def)

lemma wx_filed_rows:
  "map (\<lambda>r. (lr_id r, lr_employeeId r, lr_status r)) (leave_requests (domain_db wx_filed)) = [(''L1'', ''an'', Review_pending)]"
  "map (\<lambda>r. (ri_id r, ri_type r, ri_status r)) (items wx_filed) = [(''R1'', ''leave_request'', Pending)]"
  "map (\<lambda>r. target (ri_payload r)) (items wx_filed) = [Leave_key ''L1'']"
  by code_simp+

section \<open>Two records of one request\<close>

text \<open>C5. The engine's record of a request and the domain row behind it never disagree, whichever door
  the calls come through and however late a decision's transaction runs after its check: a pending
  request has a pending row, an approved one an approved row (or, for leave, one the employee cancelled
  later), a rejected one a rejected row, a cancelled or expired one a cancelled row. Overtime has no
  cancelled status: an expired request has a rejected entry, and the cancellation of one, which runs no
  hook, says nothing of its entry. (The module's own operations run one at a time; the decisions the
  engine takes are split into check and transaction.)\<close>

theorem request_and_row_agree:
  assumes "workforce_raced s" and "r \<in> set (items (fst s))"
  shows "agrees (target (ri_payload r)) (ri_status r) (row_state (target (ri_payload r)) (domain_db (fst s))) \<and>
    row_link (target (ri_payload r)) (domain_db (fst s)) = Some (Some (ri_id r))"
  using workforce_raced_inv [OF assms(1)] assms(2)
  by (auto simp: workforce_inv_def hooks.in_step_def hooks.item_in_step_def linked_def)

lemma wx_item: "hd (items wx_filed) \<in> set (items wx_filed)"
  using wx_filed_rows(2) by (cases "items wx_filed") auto

lemma wx_item_fields:
  "target (ri_payload (hd (items wx_filed))) = Leave_key ''L1''" "ri_status (hd (items wx_filed)) = Pending"
  "ri_id (hd (items wx_filed)) = ''R1''"
  using wx_filed_rows by (cases "items wx_filed"; auto)+

theorem request_and_row_agree_witness:
  "row_state (Leave_key ''L1'') (domain_db wx_filed) = Some Review_pending \<and>
   row_link (Leave_key ''L1'') (domain_db wx_filed) = Some (Some ''R1'')"
  using request_and_row_agree [OF raced_of_calls [OF wx_filed_reachable], of "hd (items wx_filed)"] wx_item
  by (simp add: wx_item_fields)

section \<open>Commitments\<close>

text \<open>C7. Nobody is booked twice, however late the engine's decisions commit: two live leave requests of
  one person never take the same half of the same day, and a live request to work from home shares no
  date with the person's live leave or with another live request to work from home. (The check of a
  filing and its insert are one step, as the employee's window lock makes them.)\<close>

theorem nobody_is_booked_twice:
  assumes "workforce_raced s" and "d = domain_db (fst s)"
  shows "(\<forall>r \<in> set (leave_requests d). \<forall>q \<in> set (leave_requests d).
      is_live (lr_status r) \<and> is_live (lr_status q) \<and> lr_employeeId r = lr_employeeId q \<and> lr_id r \<noteq> lr_id q \<longrightarrow>
      \<not> (\<exists>day h. valid_date day \<and> h \<in> set (halves_on (lr_window r) day) \<and> h \<in> set (halves_on (lr_window q) day))) \<and>
    (\<forall>r \<in> set (leave_requests d). \<forall>w \<in> set (wfh_requests d).
      is_live (lr_status r) \<and> is_live (wr_status w) \<and> lr_employeeId r = wr_employeeId w \<longrightarrow>
      \<not> (startDate (lr_window r) \<le> wr_endDate w \<and> wr_startDate w \<le> endDate (lr_window r))) \<and>
    (\<forall>w \<in> set (wfh_requests d). \<forall>v \<in> set (wfh_requests d).
      is_live (wr_status w) \<and> is_live (wr_status v) \<and> wr_employeeId w = wr_employeeId v \<and> wr_id w \<noteq> wr_id v \<longrightarrow>
      \<not> (wr_startDate w \<le> wr_endDate v \<and> wr_startDate v \<le> wr_endDate w))"
proof -
  have b: "booked_once d"
    using workforce_raced_inv [OF assms(1)] assms(2) by (simp add: workforce_inv_def)
  have leave: "(lr_id r, lr_employeeId r, lr_window r) \<in> live_leave d"
    if "r \<in> set (leave_requests d)" "is_live (lr_status r)" for r
    using that by (auto simp: live_leave_def)
  have wfh: "(wr_id w, wr_employeeId w, wr_startDate w, wr_endDate w) \<in> live_wfh d"
    if "w \<in> set (wfh_requests d)" "is_live (wr_status w)" for w
    using that by (auto simp: live_wfh_def)
  have apart: "\<forall>p \<in> live_leave d. \<forall>q \<in> live_leave d. leave_apart p q"
      "\<forall>p \<in> live_leave d. \<forall>q \<in> live_wfh d. kinds_apart p q"
      "\<forall>p \<in> live_wfh d. \<forall>q \<in> live_wfh d. wfh_apart p q"
    using b by (auto simp only: booked_once_def)
  show ?thesis
  proof (intro conjI ballI impI)
    fix r q assume "r \<in> set (leave_requests d)" "q \<in> set (leave_requests d)"
      and a: "is_live (lr_status r) \<and> is_live (lr_status q) \<and> lr_employeeId r = lr_employeeId q \<and> lr_id r \<noteq> lr_id q"
    then have "leave_apart (lr_id r, lr_employeeId r, lr_window r) (lr_id q, lr_employeeId q, lr_window q)"
      using apart(1) leave by blast
    with a show "\<not> (\<exists>day h. valid_date day \<and> h \<in> set (halves_on (lr_window r) day) \<and> h \<in> set (halves_on (lr_window q) day))"
      by (simp add: share_half_def)
  next
    fix r w assume "r \<in> set (leave_requests d)" "w \<in> set (wfh_requests d)"
      and a: "is_live (lr_status r) \<and> is_live (wr_status w) \<and> lr_employeeId r = wr_employeeId w"
    then have "kinds_apart (lr_id r, lr_employeeId r, lr_window r)
        (wr_id w, wr_employeeId w, wr_startDate w, wr_endDate w)"
      using apart(2) leave wfh by blast
    with a show "\<not> (startDate (lr_window r) \<le> wr_endDate w \<and> wr_startDate w \<le> endDate (lr_window r))" by simp
  next
    fix w v assume "w \<in> set (wfh_requests d)" "v \<in> set (wfh_requests d)"
      and a: "is_live (wr_status w) \<and> is_live (wr_status v) \<and> wr_employeeId w = wr_employeeId v \<and> wr_id w \<noteq> wr_id v"
    then have "wfh_apart (wr_id w, wr_employeeId w, wr_startDate w, wr_endDate w)
        (wr_id v, wr_employeeId v, wr_startDate v, wr_endDate v)"
      using apart(3) wfh by blast
    with a show "\<not> (wr_startDate w \<le> wr_endDate v \<and> wr_startDate v \<le> wr_endDate w)" by simp
  qed
qed

text \<open>A second filing for the Tuesday is refused; one for the two days after it is live beside the first.\<close>

definition wx_second :: platform where
  "wx_second = snd (create_leave (wx_env 2) ''L2'' ''R2'' (wx_input 3 3) (wx_actor ''an'') wx_filed)"

lemma wx_second_create:
  "create_leave (wx_env 2) ''L2'' ''R2'' (wx_input 3 3) (wx_actor ''an'') wx_filed =
     (Inr (last (leave_requests (domain_db wx_second))), wx_second)"
  by code_simp

lemma wx_second_fresh: "leave_fresh ''L2'' ''R2'' wx_filed"
  unfolding leave_fresh_def by (intro conjI; code_simp)

lemma wx_second_reachable: "workforce_reachable wx_second"
  by (rule wf_step [OF wx_filed_reachable ws_create_leave [OF wx_second_create wx_second_fresh]])
    (simp_all add: wx_input_def days_in_month_def month_start_def leap_def)

theorem nobody_is_booked_twice_witness:
  "map lr_id (leave_requests (domain_db wx_second)) = [''L1'', ''L2''] \<and>
   \<not> (\<exists>day h. valid_date day \<and> h \<in> set (halves_on (lr_window (leave_requests (domain_db wx_second) ! 0)) day) \<and>
        h \<in> set (halves_on (lr_window (leave_requests (domain_db wx_second) ! 1)) day))"
proof -
  let ?t = "leave_requests (domain_db wx_second)"
  have f: "map lr_id ?t = [''L1'', ''L2'']" "lr_employeeId (?t ! 0) = lr_employeeId (?t ! 1)"
    "lr_status (?t ! 0) = Review_pending" "lr_status (?t ! 1) = Review_pending"
    by code_simp+
  then have "?t ! 0 \<in> set ?t" "?t ! 1 \<in> set ?t" "lr_id (?t ! 0) \<noteq> lr_id (?t ! 1)"
    by (cases ?t; cases "tl ?t"; auto)+
  with nobody_is_booked_twice [OF raced_of_calls [OF wx_second_reachable] refl] f show ?thesis by simp
qed

section \<open>Balances\<close>

lemma leave_cost_two_decimals: "two_decimals (leave_window_cost w hs)"
proof -
  obtain n :: nat where "leave_window_cost w hs = of_nat n * HALF_DAY"
    by (auto simp: leave_window_cost_def Let_def)
  then have "leave_window_cost w hs * 100 = of_int (int n * 50)" by (simp add: HALF_DAY_def)
  then show ?thesis unfolding two_decimals_def by (simp only: floor_of_int)
qed

lemma consumed_link:
  assumes "\<And>r. lr_employeeId (f r) = lr_employeeId r" "\<And>r. lr_leaveType (f r) = lr_leaveType r"
    "\<And>r. lr_window (f r) = lr_window r" "\<And>r. lr_status (f r) = lr_status r"
    "\<And>r. lr_workingDays (f r) = lr_workingDays r"
  shows "consumed_days emp t y (d\<lparr>leave_requests := modify_row lr_id i f (leave_requests d)\<rparr>) = consumed_days emp t y d"
proof -
  have "map (\<lambda>r. case lr_workingDays r of None \<Rightarrow> 0 | Some n \<Rightarrow> n)
      (filter (\<lambda>r. lr_employeeId r = emp \<and> lr_leaveType r = t \<and> start_in_year y r \<and>
         lr_status r \<in> {Review_pending, Review_approved}) (update_where (\<lambda>r. lr_id r = i) f rs)) =
    map (\<lambda>r. case lr_workingDays r of None \<Rightarrow> 0 | Some n \<Rightarrow> n)
      (filter (\<lambda>r. lr_employeeId r = emp \<and> lr_leaveType r = t \<and> start_in_year y r \<and>
         lr_status r \<in> {Review_pending, Review_approved}) rs)" for rs
    by (induction rs) (simp_all add: assms start_in_year_def)
  then show ?thesis by (simp add: consumed_days_def modify_row_def)
qed

lemma available_linked:
  "available_days g e (record_audit who a i (set_leave_request_id l rid d)) = available_days g e d"
proof -
  have "consumed_days emp t y (record_audit who a i (set_leave_request_id l rid d)) = consumed_days emp t y d" for emp t y
    using consumed_link [where f = "\<lambda>r. r\<lparr>lr_requestId := Some rid\<rparr>" and emp = emp and t = t and y = y and d = d and i = l]
    by (simp add: consumed_days_def record_audit_def set_leave_request_id_def)
  moreover have "policy_for (record_audit who a i (set_leave_request_id l rid d)) t = policy_for d t" for t
    by (rule policy_for_cong) (simp add: record_audit_def set_leave_request_id_def)
  ultimately show ?thesis by (simp add: available_days_def)
qed

lemma submit_domain:
  assumes "submit env workforce_registry iid ty p actor opts db = Inr (r, db2)"
  shows "domain_db db2 = domain_db db"
  using assms
proof (rule submit_shape)
  fix def d'
  assume "registry_get workforce_registry ty = Inr def" "domain_db db2 = d'"
    and "run_hook (map_option (\<lambda>h x d. h p (ac_sub actor) (ev_now env) d) (td_onSubmit def)) () (domain_db db) = Inr d'"
  moreover from this(1) have "def \<in> set workforce_registry" by (auto dest!: registry_get_Inr find_row_Some)
  ultimately show ?thesis using hooks.no_submit_hook by simp
qed

lemma new_leave_in_year:
  assumes "valid_date (li_startDate input)"
  shows "start_in_year (iyear (li_startDate input)) (new_leave_row lid input actor wd)"
proof -
  obtain y m dd where d: "li_startDate input = Iso y m dd" by (cases "li_startDate input")
  have "dd \<le> 31" "1 \<le> m" "m \<le> 12" "1 \<le> dd"
    using assms d by (auto simp: days_in_month_def month_start_def split: if_splits)
  then show ?thesis
    using d by (auto simp: start_in_year_def new_leave_row_def input_window_def less_eq_iso_date.simps)
qed

lemma quoted_leave:
  assumes "quote_leave input actor d = Inr wd"
  shows "assert_sufficient_balance (ac_sub actor) (li_leaveType input) (iyear (li_startDate input)) wd
      (li_endDate input) d = Inr ()" "wd = leave_cost_for (input_window input) d" "two_decimals wd"
  using assms leave_cost_two_decimals
  by (auto simp: quote_leave_def and_then_eq_Inr Let_def leave_cost_for_def split: option.splits)




text \<open>In particular for a filing nothing interrupts, up to the end of the call.\<close>

theorem undisturbed_leave_is_covered:
  assumes run: "create_leave env lid iid input actor db = (Inr row, db')"
    and g: "find_row en_key (ac_sub actor, li_leaveType input, iyear (li_startDate input))
      (entitlements (domain_db db)) = Some g"
    and valid: "valid_date (li_startDate input)"
  shows "0 \<le> available_days g (li_endDate input) (domain_db db')"
proof -
  obtain wd where quote: "quote_leave input actor (domain_db db) = Inr wd"
    using run by (auto simp: create_leave_def split: sum.splits)
  then obtain r0 d1 where ins: "insert_leave lid input actor wd (domain_db db) = Inr (r0, d1)"
    using run by (auto simp: create_leave_def split: sum.splits)
  obtain item db2 where sub: "submit env workforce_registry iid ''leave_request''
      (leave_request_payload r0 actor wd) actor (review_window (ev_now env) None) (set_domain db d1) = Inr (item, db2)"
    and db': "db' = set_domain db2 (record_audit (Some (ac_sub actor)) ''leave.requested'' (lr_id r0)
          (set_leave_request_id (lr_id r0) (ri_id item) (domain_db db2)))"
    using run quote ins by (auto simp: create_leave_def Let_def split: sum.splits)
  have dom: "domain_db db2 = d1" using submit_domain [OF sub] by (simp add: set_domain_def)
  have key: "en_employeeId g = ac_sub actor" "en_leaveType g = li_leaveType input"
      "en_year g = iyear (li_startDate input)"
    using find_row_Some [OF g] by (simp_all add: en_key_def)
  note q = quoted_leave [OF quote] and sh = insert_leave_shape [OF ins]
  have "0 \<le> available_days g (li_endDate input) ((domain_db db)\<lparr>leave_requests := leave_requests (domain_db db) @ [r0]\<rparr>)"
    by (rule balance_after_filing [OF sufficient_available [OF q(1) g]])
      (use sh q(3) new_leave_in_year [OF valid] in \<open>simp_all add: key new_leave_row_def\<close>)
  then show ?thesis
    using sh by (simp add: db' set_domain_def available_linked dom)
qed

text \<open>The cover does not survive two filings at the same instant: the balance is read before the
  employee's window lock is taken, so two requests of two days each, quoted against a grant of three,
  are both inserted and leave the balance a day short.\<close>

theorem simultaneous_filings_overdraw:
  "\<exists>d w1 w2 r1 d1 r2 d2.
     quote_leave (wx_input 1 2) (wx_actor ''an'') d = Inr w1 \<and>
     quote_leave (wx_input 3 4) (wx_actor ''an'') d = Inr w2 \<and>
     insert_leave ''L1'' (wx_input 1 2) (wx_actor ''an'') w1 d = Inr (r1, d1) \<and>
     insert_leave ''L2'' (wx_input 3 4) (wx_actor ''an'') w2 d1 = Inr (r2, d2) \<and>
     available_days wx_grant (Iso 2026 6 4) d2 = -1"
proof -
  let ?d = "domain_db wx_empty"
  let ?i1 = "insert_leave ''L1'' (wx_input 1 2) (wx_actor ''an'') 2 ?d"
  let ?i2 = "insert_leave ''L2'' (wx_input 3 4) (wx_actor ''an'') 2 (snd (projr ?i1))"
  have "quote_leave (wx_input 1 2) (wx_actor ''an'') ?d = Inr 2"
    "quote_leave (wx_input 3 4) (wx_actor ''an'') ?d = Inr 2"
    "?i1 = Inr (fst (projr ?i1), snd (projr ?i1))" "?i2 = Inr (fst (projr ?i2), snd (projr ?i2))"
    "available_days wx_grant (Iso 2026 6 4) (snd (projr ?i2)) = -1"
    by code_simp+
  then show ?thesis by blast
qed

section \<open>Decisions that come too late\<close>

lemma hooks_refuse:
  assumes def: "def \<in> set workforce_registry" and ty: "typed_payload (td_type def) p"
    and guarded: "\<not> is_overtime (target p)" and row: "row_state (target p) d \<noteq> Some Review_pending"
    and st: "st = Approved \<or> st = Rejected \<or> st = Cancelled"
  shows "\<exists>e. closes def p rid u now st d = Inl e"
proof (cases "closes def p rid u now st d")
  case (Inr d')
  consider q where "p = Leave_payload q" "def = leave_type_def"
    | q where "p = Wfh_payload q" "def = wfh_type"
    | q where "p = Justification_payload q" "def = justification_type"
    using def ty guarded by (cases p) (auto simp: set_workforce_registry)
  then show ?thesis
    using Inr st row
    by cases (auto simp: closes_def leave_type_def_def leave_on_approve_def leave_on_reject_def leave_on_cancel_def
        wfh_type_def wfh_on_approve_def wfh_on_reject_def wfh_on_cancel_def justification_type_def
        justification_on_approve_def justification_on_reject_def justification_on_cancel_def and_then_eq_Inr)
qed auto

text \<open>A decision checked before another one committed is refused when its turn comes: for leave, work
  from home and justifications, an approval, rejection or cancellation of a request that has been
  closed in the meantime is rolled back, because the domain row is no longer pending.\<close>

theorem late_decision_is_rolled_back:
  assumes "workforce_reachable db" and "find_row ri_id rid (items db) = Some r" and "\<not> is_open (ri_status r)"
    and "\<not> is_overtime (target (ri_payload r))" and "registry_get workforce_registry (ri_type r) = Inr (dc_def ctx)"
    and "filed (dc_request ctx) = filed r"
  shows "(\<exists>e. approve_commit env i note actor ctx db = Inl e) \<and>
    (\<exists>e. reject_commit env i note actor ctx db = Inl e) \<and>
    (\<exists>e. cancel_commit env actor (dc_request ctx, dc_def ctx) db = Inl e)"
proof -
  have same: "ri_payload (dc_request ctx) = ri_payload r" "ri_type (dc_request ctx) = ri_type r"
    using assms(6) by (auto simp: filed_def)
  have inv: "hooks.in_step db" using workforce_inv_reachable [OF assms(1)] by (simp add: workforce_inv_def)
  have mem: "r \<in> set (items db)" using find_row_Some [OF assms(2)] by simp
  have def: "dc_def ctx \<in> set workforce_registry" "td_type (dc_def ctx) = ri_type r"
    using assms(5) by (auto dest!: registry_get_Inr find_row_Some)
  have typed: "typed_payload (td_type (dc_def ctx)) (ri_payload r)"
    and agree: "agrees (target (ri_payload r)) (ri_status r) (row_state (target (ri_payload r)) (domain_db db))"
    using inv mem def by (auto simp: hooks.in_step_def hooks.item_in_step_def)
  have row: "row_state (target (ri_payload r)) (domain_db db) \<noteq> Some Review_pending"
    using agree assms(3,4) by (cases "ri_status r") auto
  have refuse: "\<exists>e. closes (dc_def ctx) (ri_payload r) q u now st (domain_db db) = Inl e"
    if "st = Approved \<or> st = Rejected \<or> st = Cancelled" for q u now st
    by (rule hooks_refuse [OF def(1) typed assms(4) row that])
  have final: "is_final_step (dc_def ctx) n" for n by (rule hooks.always_final [OF assms(5)])
  obtain e1 where "td_onApprove (dc_def ctx) (ri_payload r) (ri_id (dc_request ctx)) (ac_sub actor) (ev_now env)
      (domain_db db) = Inl e1"
    using refuse [of Approved "ri_id (dc_request ctx)" "ac_sub actor" "ev_now env"] by (auto simp: closes_def)
  then have "approve_commit env i note actor ctx db = Inl e1"
    by (simp add: approve_commit_def next_assignee_def Let_def final same)
  moreover obtain e2 where "run_hook (map_option (\<lambda>h x d. h (ri_payload r) (ri_id (dc_request ctx)) (ac_sub actor)
      (ev_now env) d) (td_onReject (dc_def ctx))) () (domain_db db) = Inl e2"
    using refuse [of Rejected "ri_id (dc_request ctx)" "ac_sub actor" "ev_now env"] by (auto simp: closes_def)
  then have "reject_commit env i note actor ctx db = Inl e2"
    by (cases "td_onReject (dc_def ctx)") (simp_all add: reject_commit_def Let_def same)
  moreover obtain e3 where "run_hook (map_option (\<lambda>h x d. h (ri_payload r) (ri_id (dc_request ctx)) (ac_sub actor)
      (ev_now env) d) (td_onCancel (dc_def ctx))) () (domain_db db) = Inl e3"
    using refuse [of Cancelled "ri_id (dc_request ctx)" "ac_sub actor" "ev_now env"] by (auto simp: closes_def)
  then have "cancel_commit env actor (dc_request ctx, dc_def ctx) db = Inl e3"
    by (cases "td_onCancel (dc_def ctx)") (simp_all add: cancel_commit_def Let_def same)
  ultimately show ?thesis by blast
qed

text \<open>Mai approves the filed leave; a second check of hers was made before that.\<close>

definition wx_ctx :: "(workforce_payload, workforce_db) decision_context" where
  "wx_ctx = projr (approve_check (wx_env 2) workforce_registry ''R1'' (wx_actor ''mai'') wx_filed)"

definition wx_approved :: platform where
  "wx_approved = projr (approve (wx_env 3) workforce_registry ''A1'' ''R1'' None (wx_actor ''mai'') wx_filed)"

lemma wx_approve: "approve (wx_env 3) workforce_registry ''A1'' ''R1'' None (wx_actor ''mai'') wx_filed = Inr wx_approved"
  by code_simp

lemma wx_approved_reachable: "workforce_reachable wx_approved"
  by (rule wf_step [OF wx_filed_reachable ws_engine [OF call_approve [OF wx_approve]]])

lemma wx_approved_item:
  "find_row ri_id ''R1'' (items wx_approved) = Some (hd (items wx_approved))"
  "ri_status (hd (items wx_approved)) = Approved"
  "is_overtime (target (ri_payload (hd (items wx_approved)))) = False"
  "filed (dc_request wx_ctx) = filed (hd (items wx_approved))"
  "ri_type (hd (items wx_approved)) = ''leave_request''"
  by code_simp+

lemma wx_ctx_type: "dc_def wx_ctx = leave_type_def"
proof -
  have "isl (approve_check (wx_env 2) workforce_registry ''R1'' (wx_actor ''mai'') wx_filed) = False" by code_simp
  then have "approve_check (wx_env 2) workforce_registry ''R1'' (wx_actor ''mai'') wx_filed = Inr wx_ctx"
    unfolding wx_ctx_def by (simp add: sum.collapse(2))
  note c = approve_checkD [OF this]
  have "ri_type (dc_request wx_ctx) = ''leave_request''" by code_simp
  then show ?thesis
    using c(4) by (simp add: registry_get_def workforce_registry_def register_def registry_has_def)
qed

theorem late_decision_is_rolled_back_witness:
  "\<exists>e. reject_commit (wx_env 4) ''A2'' None (wx_actor ''mai'') wx_ctx wx_approved = Inl e"
  using late_decision_is_rolled_back [OF wx_approved_reachable wx_approved_item(1), of wx_ctx "wx_env 4" "''A2''" None
      "wx_actor ''mai''"] wx_approved_item
  by (simp add: wx_ctx_type registry_get_def workforce_registry_def register_def registry_has_def)

text \<open>The expiry sweep is the one late call that is not refused: its hook does not look at the row, so
  a request checked as overdue and approved before the sweep's transaction runs ends up expired with
  its approval on record, and the approved leave is cancelled.\<close>

theorem expiry_undoes_an_approval:
  "\<exists>db1 ctx db2 db3.
     workforce_reachable db1 \<and> expire_check workforce_registry ''R1'' db1 = Inr (Some ctx) \<and>
     approve (wx_env 3) workforce_registry ''A1'' ''R1'' None (wx_actor ''mai'') db1 = Inr db2 \<and>
     row_state (Leave_key ''L1'') (domain_db db2) = Some Review_approved \<and>
     expire_commit (wx_env 4) ctx db2 = Inr db3 \<and>
     row_state (Leave_key ''L1'') (domain_db db3) = Some Review_cancelled \<and>
     map ri_status (items db3) = [Expired] \<and> map ap_decision (approvals db3) = [Decision_approved]"
proof -
  let ?c = "expire_check workforce_registry ''R1'' wx_filed"
  let ?ctx = "the (projr ?c)" and ?db3 = "projr (expire_commit (wx_env 4) (the (projr ?c)) wx_approved)"
  have c: "?c = Inr (Some ?ctx)"
  proof -
    have "isl ?c = False" "projr ?c = None \<longleftrightarrow> False" by code_simp+
    then show ?thesis by (metis option.collapse sum.collapse(2))
  qed
  have "isl (expire_commit (wx_env 4) ?ctx wx_approved) = False" by code_simp
  then have m: "expire_commit (wx_env 4) ?ctx wx_approved = Inr ?db3" by (metis sum.collapse(2))
  have "row_state (Leave_key ''L1'') (domain_db wx_approved) = Some Review_approved"
    "row_state (Leave_key ''L1'') (domain_db ?db3) = Some Review_cancelled"
    "map ri_status (items ?db3) = [Expired]" "map ap_decision (approvals ?db3) = [Decision_approved]"
    by code_simp+
  with m c wx_approve wx_filed_reachable show ?thesis
    by (intro exI [of _ wx_filed] exI [of _ ?ctx] exI [of _ wx_approved] exI [of _ ?db3] conjI)
qed

text \<open>Cancelling an overtime request closes the request and leaves the overtime entry pending for good:
  the type has no cancellation hook, and the entry's request accepts no further decision.\<close>

theorem cancelled_overtime_stays_pending:
  assumes "workforce_reachable db" and "find_row ri_id rid (items db) = Some r"
    and "ri_type r = ''overtime''" and "cancel env workforce_registry rid actor db = Inr db'"
  shows "row_state (target (ri_payload r)) (domain_db db') = Some Review_pending \<and>
    (\<forall>env' i note actor'. \<exists>e. approve env' workforce_registry i rid note actor' db' = Inl e) \<and>
    (\<forall>env' i note actor'. \<exists>e. reject env' workforce_registry i rid note actor' db' = Inl e)"
proof -
  obtain q def where q: "find_row ri_id rid (items db) = Some q" "is_open (ri_status q)"
        "registry_get workforce_registry (ri_type q) = Inr def" and m: "cancel_commit env actor (q, def) db = Inr db'"
    using assms(4) by (auto simp: cancel_def and_then_eq_Inr cancel_check_Inr)
  have qr: "q = r" using q(1) assms(2) by simp
  have def: "def = overtime_type"
    using q(3) assms(3) qr by (simp add: registry_get_def workforce_registry_def register_def registry_has_def)
  note sh = cancel_commit_shape [OF m]
  have same: "domain_db db' = domain_db db" using sh(4) by (simp add: def overtime_type_def)
  have mem: "r \<in> set (items db)" "ri_id r = rid" using find_row_Some [OF assms(2)] by auto
  have "agrees (target (ri_payload r)) (ri_status r) (row_state (target (ri_payload r)) (domain_db db))"
    using workforce_inv_reachable [OF assms(1)] mem
    by (auto simp: workforce_inv_def hooks.in_step_def hooks.item_in_step_def)
  then have pending: "row_state (target (ri_payload r)) (domain_db db') = Some Review_pending"
    using q(2) qr by (auto simp: is_open_def same)
  have "find_row ri_id rid (items db') = Some (cancel_item (ev_now env) r)"
    using sh(1) q(1) qr mem by (simp add: item_table.lookup_modify)
  then have check: "approve_check env' workforce_registry rid actor' db' =
      Inl (PreconditionFailedException ''REQUEST_NOT_PENDING'')" for env' actor'
    by (simp add: approve_check_def get_or_fail_def assert_approvable_def)
  show ?thesis
    using pending check by (simp add: approve_def reject_def reject_check_is_approve_check)
qed

text \<open>An files two hours of overtime and withdraws the request the next moment.\<close>

definition wx_hours :: overtime_input where
  "wx_hours = \<lparr>oi_workDate = Iso 2026 6 1, oi_hours = 2, oi_reason = ''release''\<rparr>"

definition wx_overtime :: platform where
  "wx_overtime = snd (create_overtime (wx_env 1) ''O1'' ''R1'' wx_hours (wx_actor ''an'') wx_empty)"

definition wx_withdrawn :: platform where
  "wx_withdrawn = projr (cancel (wx_env 2) workforce_registry ''R1'' (wx_actor ''an'') wx_overtime)"

lemma wx_overtime_create:
  "create_overtime (wx_env 1) ''O1'' ''R1'' wx_hours (wx_actor ''an'') wx_empty =
     (Inr (hd (overtime_entries (domain_db wx_overtime))), wx_overtime)"
  by code_simp

lemma wx_overtime_reachable: "workforce_reachable wx_overtime"
  by (rule wf_step [OF wf_init [OF wx_init] ws_create_overtime [OF wx_overtime_create]])
    (simp add: overtime_fresh_def wx_empty_def empty_workforce_def)

lemma wx_overtime_item:
  "find_row ri_id ''R1'' (items wx_overtime) = Some (hd (items wx_overtime))"
  "ri_type (hd (items wx_overtime)) = ''overtime''"
  "target (ri_payload (hd (items wx_overtime))) = Overtime_key ''O1''"
  by code_simp+

lemma wx_withdraw: "cancel (wx_env 2) workforce_registry ''R1'' (wx_actor ''an'') wx_overtime = Inr wx_withdrawn"
  by code_simp

theorem cancelled_overtime_stays_pending_witness:
  "row_state (Overtime_key ''O1'') (domain_db wx_withdrawn) = Some Review_pending"
  using cancelled_overtime_stays_pending [OF wx_overtime_reachable wx_overtime_item(1,2) wx_withdraw] wx_overtime_item(3)
  by simp

end
