(* ===== verification/LeaveProperties.thy ===== *)
theory LeaveProperties
  imports LeaveBalance Authz
begin

text \<open>
  The properties of the calendar, of leave windows and balances, of the office calendar marks, and of
  the permission service, each shown on a concrete input.
\<close>

section \<open>Dates and leave windows\<close>




text \<open>Counting the halves of each working day, which is how the code prices a leave window, agrees on every
  window of several days with the rule the policy states: whole working days, less half a day for a
  part-day end that falls on a working day.\<close>

theorem leave_cost_two_ways:
  assumes "valid_window w" and "startDate w < endDate w"
  shows "leave_window_cost w hs = subtracted_cost w hs"
  using assms by (rule counting_halves_agrees)

definition lx_window :: leave_window where
  "lx_window = \<lparr>startDate = Iso 2026 6 4, endDate = Iso 2026 6 8, startPortion = Afternoon, endPortion = Full_day\<rparr>"

lemma lx_window_valid: "valid_window lx_window" "startDate lx_window < endDate lx_window"
  by (simp_all add: valid_window_def lx_window_def days_in_month_def month_start_def leap_def)

theorem leave_cost_two_ways_witness:
  "leave_window_cost lx_window {} = subtracted_cost lx_window {} \<and> leave_window_cost lx_window {} = 5 / 2"
  using leave_cost_two_ways [OF lx_window_valid, of "{}"] by (intro conjI) (assumption, code_simp)

text \<open>The overlap test of two windows holds exactly when some half-day belongs to both; two colleagues sharing a
  day as morning and afternoon do not overlap.\<close>

theorem overlap_is_a_shared_half:
  assumes "valid_window a" and "valid_window b"
  shows "leave_windows_overlap a b \<longleftrightarrow>
    (\<exists>d h. valid_date d \<and> h \<in> set (halves_on a d) \<and> h \<in> set (halves_on b d))"
  using assms by (rule leave_windows_overlap_iff)

definition lx_morning :: leave_window where
  "lx_morning = \<lparr>startDate = Iso 2026 6 4, endDate = Iso 2026 6 4, startPortion = Morning, endPortion = Morning\<rparr>"

theorem overlap_is_a_shared_half_witness:
  "\<not> leave_windows_overlap lx_window lx_morning \<and>
   \<not> (\<exists>d h. valid_date d \<and> h \<in> set (halves_on lx_window d) \<and> h \<in> set (halves_on lx_morning d))"
proof -
  have "valid_window lx_morning"
    by (simp add: valid_window_def lx_morning_def days_in_month_def month_start_def leap_def)
  moreover have "\<not> leave_windows_overlap lx_window lx_morning" by code_simp
  ultimately show ?thesis using overlap_is_a_shared_half [OF lx_window_valid(1), of lx_morning] by blast
qed

section \<open>Balances\<close>

text \<open>A filing that passed the balance check and is stored as pending with its frozen cost leaves the
  available balance at zero or above, half-days and monthly accrual included.\<close>

theorem passed_check_is_covered:
  assumes "assert_sufficient_balance emp t year d as_of db = Inr ()"
    and "find_row en_key (emp, t, year) (entitlements db) = Some g"
    and "lr_employeeId r = emp" and "lr_leaveType r = t" and "start_in_year year r"
    and "lr_status r = Review_pending" and "lr_workingDays r = Some d" and "two_decimals d"
  shows "0 \<le> available_days g as_of (db\<lparr>leave_requests := leave_requests db @ [r]\<rparr>)"
proof -
  have "en_employeeId g = emp" "en_leaveType g = t" "en_year g = year"
    using find_row_Some [OF assms(2)] by (simp_all add: en_key_def)
  with assms show ?thesis by (intro balance_after_filing [OF sufficient_available]) simp_all
qed

definition lx_grant :: "int \<Rightarrow> entitlement_row" where
  "lx_grant y =
     \<lparr>en_employeeId = ''an'', en_leaveType = Annual, en_year = y, en_grantedDays = 12,
      en_carriedOverDays = 1, en_carriedOverExpiresOn = None, en_note = None, en_updatedAt = 0\<rparr>"

definition lx_db :: workforce_db where
  "lx_db = empty_workforce\<lparr>entitlements := [lx_grant 2025, lx_grant 2026]\<rparr>"

definition lx_row :: leave_row where
  "lx_row = \<lparr>lr_id = ''L1'', lr_employeeId = ''an'', lr_leaveType = Annual, lr_window = lx_window,
     lr_reason = None, lr_workingDays = Some (5 / 2), lr_documentStorageKey = None,
     lr_status = Review_pending, lr_reviewerId = None, lr_reviewedAt = None, lr_requestId = None\<rparr>"

theorem passed_check_is_covered_witness:
  "0 \<le> available_days (lx_grant 2026) (Iso 2026 6 1) (lx_db\<lparr>leave_requests := leave_requests lx_db @ [lx_row]\<rparr>)"
proof (rule passed_check_is_covered)
  show "assert_sufficient_balance ''an'' Annual 2026 (5 / 2) (Iso 2026 6 1) lx_db = Inr ()"
    by code_simp
  show "find_row en_key (''an'', Annual, 2026) (entitlements lx_db) = Some (lx_grant 2026)"
    by (simp add: lx_db_def lx_grant_def en_key_def find_row_def)
  show "start_in_year 2026 lx_row" by (simp add: start_in_year_def lx_row_def lx_window_def)
  show "two_decimals (5 / 2)" by (simp add: two_decimals_def)
qed (simp_all add: lx_row_def)

text \<open>The carry-over run is idempotent: a second run, even after an interrupted report, applies the same amounts
  to the same rows and reports the same results.\<close>

theorem carry_over_is_idempotent:
  "run_carry_over year now (snd (run_carry_over year now db)) = run_carry_over year now db"
  by (rule run_carry_over_twice)

section \<open>The office calendar\<close>

text \<open>Every leave mark of the office calendar stands on a working day inside the asked range and carries the
  portion that an approved window of that employee has on that day, and no employee has two marks on
  one day.\<close>

theorem calendar_marks_are_justified:
  assumes "valid_date f" and "valid_date t"
    and "\<forall>w \<in> set ws. valid_date (pto_startDate w) \<and> valid_date (pto_endDate w)"
  shows "(\<forall>m \<in> set (pto_marks_in_range ws f t). mark_ok ws f t m) \<and>
    keys_distinct mark_key (pto_marks_in_range ws f t)"
  using pto_marks_ok [OF assms] keys_distinct_pto_marks by blast

definition lx_pto :: pto_window where
  "lx_pto = \<lparr>pto_employeeId = ''an'', pto_startDate = Iso 2026 6 4, pto_endDate = Iso 2026 6 8,
     pto_startPortion = Full_day, pto_endPortion = Morning\<rparr>"

theorem calendar_marks_are_justified_witness:
  "mark_ok [lx_pto] (Iso 2026 6 5) (Iso 2026 6 30) (hd (pto_marks_in_range [lx_pto] (Iso 2026 6 5) (Iso 2026 6 30)))"
proof -
  have "pto_marks_in_range [lx_pto] (Iso 2026 6 5) (Iso 2026 6 30) \<noteq> [] \<longleftrightarrow> True" by code_simp
  then show ?thesis
    using calendar_marks_are_justified [of "Iso 2026 6 5" "Iso 2026 6 30" "[lx_pto]"]
    by (simp add: lx_pto_def days_in_month_def month_start_def leap_def)
qed

section \<open>The permission service\<close>

text \<open>The reverse lookup answers the same question as the check: the people the engine notifies as
  holders of a permission are exactly those for whom the permission check without a resource succeeds,
  wildcards, scopes and expiry of the assignment included.\<close>

theorem holders_agree_with_check:
  "u \<in> set (global_holders_of True db now p) \<longleftrightarrow> authz_check None True db now u p None None"
  by (rule holders_iff_check)

end
