(* ===== verification/AttendanceDay.thy ===== *)
theory AttendanceDay
  imports Leave
begin

text \<open>
  One working day of attendance, \<^verbatim>\<open>libs/modules/workforce/src/domain/attendance-day.ts\<close>: the
  ladder from holidays, leave, work from home, justifications and door swipes to a status, the minutes
  worked and the flags of the day.

  The code keeps a time of day as an \<^verbatim>\<open>HH:MM\<close> string and compares the strings. Here it is its
  hour and minute, ordered field by field, which is the order of the strings (\<open>js_less_clock\<close>).
\<close>

section \<open>Times of day\<close>

datatype clock = Hm (hour: int) (minute: int)

instantiation clock :: linorder
begin

fun less_eq_clock :: "clock \<Rightarrow> clock \<Rightarrow> bool" where
  "less_eq_clock (Hm h m) (Hm h' m') \<longleftrightarrow> h < h' \<or> h = h' \<and> m \<le> m'"

fun less_clock :: "clock \<Rightarrow> clock \<Rightarrow> bool" where
  "less_clock (Hm h m) (Hm h' m') \<longleftrightarrow> h < h' \<or> h = h' \<and> m < m'"

instance
proof
  fix x y z :: clock
  show "x < y \<longleftrightarrow> x \<le> y \<and> \<not> y \<le> x" by (cases x; cases y) auto
  show "x \<le> x" by (cases x) simp
  show "x \<le> y \<Longrightarrow> y \<le> z \<Longrightarrow> x \<le> z" by (cases x; cases y; cases z) auto
  show "x \<le> y \<Longrightarrow> y \<le> x \<Longrightarrow> x = y" by (cases x; cases y) auto
  show "x \<le> y \<or> y \<le> x" by (cases x; cases y) auto
qed

end

fun valid_clock :: "clock \<Rightarrow> bool" where
  "valid_clock (Hm h m) \<longleftrightarrow> 0 \<le> h \<and> h \<le> 23 \<and> 0 \<le> m \<and> m \<le> 59"

fun clock_string :: "clock \<Rightarrow> string" where
  "clock_string (Hm h m) = pad 2 h @ '':'' @ pad 2 m"

definition minutes_of :: "clock \<Rightarrow> int" where
  "minutes_of t = hour t * 60 + minute t"

lemma js_less_clock:
  assumes "valid_clock a" and "valid_clock b"
  shows "js_less (clock_string a) (clock_string b) \<longleftrightarrow> a < b"
proof (cases a; cases b)
  fix h m h' m'
  assume ab: "a = Hm h m" "b = Hm h' m'"
  have "js_less (pad 2 m @ []) (pad 2 m' @ []) \<longleftrightarrow> m < m'"
    using assms ab by (subst js_less_pad) auto
  with assms ab show ?thesis by (simp add: js_less_pad)
qed

lemma minutes_of_less_iff: "valid_clock a \<Longrightarrow> valid_clock b \<Longrightarrow> minutes_of a < minutes_of b \<longleftrightarrow> a < b"
  by (cases a; cases b) (auto simp: minutes_of_def)

lemma minutes_of_le_iff: "valid_clock a \<Longrightarrow> valid_clock b \<Longrightarrow> minutes_of a \<le> minutes_of b \<longleftrightarrow> a \<le> b"
  using minutes_of_less_iff [of b a] by (simp add: linorder_not_less [symmetric])

section \<open>The ladder\<close>

definition DAY_START :: clock where "DAY_START = Hm 8 0"
definition DAY_END :: clock where "DAY_END = Hm 17 0"
definition LUNCH_START :: clock where "LUNCH_START = Hm 12 0"
definition LUNCH_END :: clock where "LUNCH_END = Hm 13 0"
definition FULL_DAY_MINUTES :: int where "FULL_DAY_MINUTES = 480"
definition HALF_DAY_MINUTES :: int where "HALF_DAY_MINUTES = 240"

lemmas day_constants = DAY_START_def DAY_END_def LUNCH_START_def LUNCH_END_def FULL_DAY_MINUTES_def HALF_DAY_MINUTES_def

datatype attendance_status = Day_holiday | Day_leave | Day_wfh | Day_office | Day_absent

datatype day_flag = Flag_late | Flag_early | Flag_missing_checkout | Flag_absent | Flag_unsynced

record attendance_day_inputs =
  ai_date :: iso_date
  ai_unsynced :: bool
  ai_holiday :: bool
  ai_leave :: "leave_day_portion option"
  ai_wfh :: bool
  ai_justified :: bool
  ai_firstIn :: "clock option"
  ai_lastOut :: "clock option"
  ai_swipeCount :: nat

record attendance_day =
  ad_date :: iso_date
  ad_status :: attendance_status
  ad_workedMinutes :: int
  ad_lateMinutes :: "int option"
  ad_earlyMinutes :: "int option"
  ad_flags :: "day_flag list"

definition overlap_minutes :: "int \<Rightarrow> int \<Rightarrow> int \<Rightarrow> int \<Rightarrow> int" where
  "overlap_minutes aStart aEnd bStart bEnd = max 0 (min aEnd bEnd - max aStart bStart)"

definition day_cap :: "leave_day_portion option \<Rightarrow> int" where
  "day_cap leave = (if leave = None then FULL_DAY_MINUTES else HALF_DAY_MINUTES)"

definition start_threshold :: "leave_day_portion option \<Rightarrow> int" where
  "start_threshold leave = minutes_of (if leave = Some Morning then LUNCH_END else DAY_START)"

definition end_threshold :: "leave_day_portion option \<Rightarrow> int" where
  "end_threshold leave = minutes_of (if leave = Some Afternoon then LUNCH_START else DAY_END)"

definition worked_span :: "int \<Rightarrow> int \<Rightarrow> int" where
  "worked_span firstIn lastOut =
     max 0 (lastOut - firstIn - overlap_minutes firstIn lastOut (minutes_of LUNCH_START) (minutes_of LUNCH_END))"

text \<open>A day nobody is expected in the office for.\<close>

definition excused_day :: "iso_date \<Rightarrow> attendance_status \<Rightarrow> int \<Rightarrow> attendance_day" where
  "excused_day date status worked =
     \<lparr>ad_date = date, ad_status = status, ad_workedMinutes = worked, ad_lateMinutes = None,
      ad_earlyMinutes = None, ad_flags = []\<rparr>"

definition compute_attendance_day :: "attendance_day_inputs \<Rightarrow> attendance_day" where
  "compute_attendance_day input =
     (if ai_holiday input then excused_day (ai_date input) Day_holiday 0
      else if ai_leave input = Some Full_day then excused_day (ai_date input) Day_leave 0
      else if ai_wfh input then excused_day (ai_date input) Day_wfh FULL_DAY_MINUTES
      else
        let cap = day_cap (ai_leave input);
            startThreshold = start_threshold (ai_leave input);
            endThreshold = end_threshold (ai_leave input);
            unsynced = (if ai_unsynced input then [Flag_unsynced] else [])
        in if ai_swipeCount input = 0 then
             \<lparr>ad_date = ai_date input,
              ad_status = if ai_justified input then Day_office else Day_absent,
              ad_workedMinutes = if ai_justified input then cap else 0,
              ad_lateMinutes = None, ad_earlyMinutes = None,
              ad_flags = (if ai_justified input then [] else [Flag_absent]) @ unsynced\<rparr>
           else if ai_swipeCount input = 1 \<or> ai_lastOut input = None then
             \<lparr>ad_date = ai_date input, ad_status = Day_office,
              ad_workedMinutes = if ai_justified input then cap else 0,
              ad_lateMinutes = (case ai_firstIn input of
                  Some t \<Rightarrow> if minutes_of t > startThreshold then Some (minutes_of t - startThreshold) else None
                | None \<Rightarrow> None),
              ad_earlyMinutes = None,
              ad_flags = (if ai_justified input then [] else [Flag_missing_checkout]) @ unsynced\<rparr>
           else
             let firstIn = minutes_of (case ai_firstIn input of Some t \<Rightarrow> t | None \<Rightarrow> DAY_START);
                 lastOut = minutes_of (case ai_lastOut input of Some t \<Rightarrow> t | None \<Rightarrow> DAY_END);
                 span = worked_span firstIn lastOut;
                 late = (if firstIn > startThreshold then Some (firstIn - startThreshold) else None);
                 early = (if lastOut < endThreshold then Some (endThreshold - lastOut) else None);
                 flags = (if late \<noteq> None then [Flag_late] else []) @
                         (if early \<noteq> None then [Flag_early] else []) @ unsynced
             in \<lparr>ad_date = ai_date input, ad_status = Day_office,
                 ad_workedMinutes = if ai_justified input then cap else min cap span,
                 ad_lateMinutes = late, ad_earlyMinutes = early,
                 ad_flags = if ai_justified input then unsynced else flags\<rparr>)"

section \<open>What a day credits and flags\<close>

text \<open>The minutes between two instants that are not lunch.\<close>

definition minutes_at_work :: "int \<Rightarrow> int \<Rightarrow> int set" where
  "minutes_at_work a b = {t. a \<le> t \<and> t < b \<and> \<not> (minutes_of LUNCH_START \<le> t \<and> t < minutes_of LUNCH_END)}"

lemma worked_span_eq_card: "worked_span a b = int (card (minutes_at_work a b))"
proof -
  have "minutes_at_work a b = {a ..< min b 720} \<union> {max a 780 ..< b}"
    by (auto simp: minutes_at_work_def minutes_of_def day_constants)
  moreover have "card ({a ..< min b 720} \<union> {max a 780 ..< b}) = nat (min b 720 - a) + nat (b - max a 780)"
    by (subst card_Un_disjoint) auto
  ultimately show ?thesis
    by (simp add: worked_span_def overlap_minutes_def minutes_of_def day_constants max_def min_def)
qed

lemma compute_date [simp]: "ad_date (compute_attendance_day i) = ai_date i"
  by (simp add: compute_attendance_day_def excused_day_def Let_def)

lemma worked_bounds: "0 \<le> ad_workedMinutes (compute_attendance_day i) \<and> ad_workedMinutes (compute_attendance_day i) \<le> 480"
  by (auto simp: compute_attendance_day_def excused_day_def Let_def day_cap_def day_constants worked_span_def)

lemma justified_clears_flags:
  "ai_justified i \<Longrightarrow> set (ad_flags (compute_attendance_day i)) \<subseteq> {Flag_unsynced}"
  by (auto simp: compute_attendance_day_def excused_day_def Let_def)

end
