(* ===== verification/Attendance.thy ===== *)
theory Attendance
  imports AttendanceDay LeaveBalance Requests
begin

text \<open>
  The derived month of \<^verbatim>\<open>libs/modules/workforce/src/application/attendance.service.ts\<close>: who is
  on the roster, which door swipes, leave, work from home and justifications reach a day, the scope
  of a viewer, the summary counts and the morning sweep. Nothing of it is stored.

  The \<^verbatim>\<open>Map\<close>s and \<^verbatim>\<open>Set\<close>s the code builds are keyed lists and sets. The map of leave days holds one
  entry per person and date, each computed from the same two arguments; here it is the function
  that computes the entry.
\<close>

section \<open>Tables read\<close>

datatype contract_status = Contract_draft | Contract_active | Contract_expired | Contract_terminated

record employee_row =
  ep_id :: string
  ep_name :: string
  ep_department :: "string option"
  ep_status :: employee_status
  ep_managerId :: "string option"

record contract_row =
  ec_employeeId :: string
  ec_startDate :: iso_date
  ec_endDate :: "iso_date option"
  ec_status :: contract_status

record door_card =
  dc_id :: string
  dc_employeeId :: string

record door_event =
  dv_cardId :: "string option"
  dv_allow :: bool
  dv_deviceTs :: int
  dv_timeSynced :: bool
  dv_receivedAt :: int

record attendance_tables =
  at_employees :: "employee_row list"
  at_contracts :: "contract_row list"
  at_cards :: "door_card list"
  at_events :: "door_event list"
  at_work :: workforce_db

section \<open>The month as instants\<close>

definition HCM_UTC_OFFSET :: int where "HCM_UTC_OFFSET = 7 * MS_PER_HOUR"

definition month_instant_bounds :: "int \<times> int \<Rightarrow> int \<times> int" where
  "month_instant_bounds ym =
     (case ym of (y, m) \<Rightarrow>
        let next_month = to_iso_date (date_utc y m 1)
        in (parse_iso_date (Iso y m 1) - HCM_UTC_OFFSET,
            parse_iso_date (Iso (iyear next_month) (imonth next_month) 1) - HCM_UTC_OFFSET))"

text \<open>The local date and time the query converts an event's instant to.\<close>

definition hcm_date :: "int \<Rightarrow> iso_date" where
  "hcm_date ts = to_iso_date (ts + HCM_UTC_OFFSET)"

definition hcm_time :: "int \<Rightarrow> clock" where
  "hcm_time ts =
     (let ms = (ts + HCM_UTC_OFFSET) mod MS_PER_DAY
      in Hm (ms div MS_PER_HOUR) (ms mod MS_PER_HOUR div 60000))"

definition event_ts :: "door_event \<Rightarrow> int" where
  "event_ts e = (if dv_timeSynced e then dv_deviceTs e else dv_receivedAt e)"

record swipe =
  sw_employeeId :: string
  sw_date :: iso_date
  sw_time :: clock
  sw_timeSynced :: bool

definition month_swipes :: "attendance_tables \<Rightarrow> int \<times> int \<Rightarrow> swipe list" where
  "month_swipes db ym =
     (case month_instant_bounds ym of (monthStart, monthEnd) \<Rightarrow>
        concat (map (\<lambda>e.
          map (\<lambda>c. \<lparr>sw_employeeId = dc_employeeId c, sw_date = hcm_date (event_ts e),
                    sw_time = hcm_time (event_ts e), sw_timeSynced = dv_timeSynced e\<rparr>)
            (filter (\<lambda>c. dv_cardId e = Some (dc_id c)) (at_cards db)))
          (filter (\<lambda>e. dv_allow e \<and> monthStart \<le> event_ts e \<and> event_ts e < monthEnd) (at_events db))))"

section \<open>The roster\<close>

record employment_window =
  ew_employeeId :: string
  ew_start :: iso_date
  ew_end :: "iso_date option"

definition employment_step :: "employment_window list \<Rightarrow> contract_row \<Rightarrow> employment_window list" where
  "employment_step windows row =
     (case find_row ew_employeeId (ec_employeeId row) windows of
        None \<Rightarrow> windows @ [\<lparr>ew_employeeId = ec_employeeId row, ew_start = ec_startDate row, ew_end = ec_endDate row\<rparr>]
      | Some w \<Rightarrow> modify_row ew_employeeId (ec_employeeId row)
          (\<lambda>w. w\<lparr>ew_start := (if ec_startDate row < ew_start w then ec_startDate row else ew_start w),
                 ew_end := (case (ew_end w, ec_endDate row) of
                     (Some a, Some b) \<Rightarrow> Some (if a > b then a else b)
                   | _ \<Rightarrow> None)\<rparr>) windows)"

definition employment_windows :: "contract_row list \<Rightarrow> employment_window list" where
  "employment_windows rows = foldl employment_step [] rows"

definition employment_by_employee :: "attendance_tables \<Rightarrow> string list \<Rightarrow> employment_window list" where
  "employment_by_employee db ids =
     (if ids = [] then []
      else employment_windows
        (filter (\<lambda>c. ec_employeeId c \<in> set ids \<and>
                     ec_status c \<in> {Contract_active, Contract_expired, Contract_terminated}) (at_contracts db)))"

text \<open>An open end compares as \<^verbatim>\<open>'9999-12-31'\<close>.\<close>

definition end_or_max :: "iso_date option \<Rightarrow> iso_date" where
  "end_or_max e = (case e of None \<Rightarrow> Iso 9999 12 31 | Some d \<Rightarrow> d)"

definition roster_for_month :: "attendance_tables \<Rightarrow> int \<times> int \<Rightarrow> employee_row list" where
  "roster_for_month db ym =
     (let d_from = Iso (fst ym) (snd ym) 1; d_to = last_day_of ym;
          rows = sort_key (\<lambda>r. (ep_name r, ep_id r)) (at_employees db);
          contracts = employment_by_employee db (map ep_id rows)
      in filter (\<lambda>r. if ep_status r \<noteq> Employee_offboarded then True
             else case find_row ew_employeeId (ep_id r) contracts of
                    None \<Rightarrow> False
                  | Some w \<Rightarrow> ew_start w \<le> d_to \<and> end_or_max (ew_end w) \<ge> d_from) rows)"

definition scoped_employees ::
    "(string \<Rightarrow> string \<Rightarrow> bool) \<Rightarrow> attendance_tables \<Rightarrow> actor \<Rightarrow> int \<times> int \<Rightarrow> string option \<Rightarrow> employee_row list result" where
  "scoped_employees may db actor ym employeeId =
     (let pick = (\<lambda>rows. case employeeId of None \<Rightarrow> rows | Some u \<Rightarrow> filter (\<lambda>r. ep_id r = u) rows)
      in if may (ac_sub actor) ''workforce.attendance.read'' then Inr (pick (roster_for_month db ym))
         else
           let team = filter (\<lambda>r. ep_managerId r = Some (ac_sub actor)) (at_employees db);
               mine = filter (\<lambda>r. ep_id r = ac_sub actor) (at_employees db);
               allowed = mine @ team
           in if (case employeeId of None \<Rightarrow> False | Some u \<Rightarrow> \<not> list_ex (\<lambda>e. ep_id e = u) allowed)
              then Inl (PermissionDeniedException ''FORBIDDEN'')
              else Inr (pick allowed))"

section \<open>The days of a month\<close>

text \<open>One entry per employee and date that was swiped: how often, first and last.\<close>

record swipe_entry =
  se_key :: "string \<times> iso_date"
  se_count :: nat
  se_first :: clock
  se_last :: clock
  se_unsynced :: bool

definition count_swipe :: "swipe \<Rightarrow> swipe_entry \<Rightarrow> swipe_entry" where
  "count_swipe s e =
     e\<lparr>se_count := se_count e + 1,
       se_first := (if sw_time s < se_first e then sw_time s else se_first e),
       se_last := (if sw_time s > se_last e then sw_time s else se_last e),
       se_unsynced := (if \<not> sw_timeSynced s then True else se_unsynced e)\<rparr>"

definition swipe_step :: "string set \<Rightarrow> swipe_entry list \<Rightarrow> swipe \<Rightarrow> swipe_entry list" where
  "swipe_step ids idx s =
     (if sw_employeeId s \<notin> ids then idx
      else let key = (sw_employeeId s, sw_date s)
           in case find_row se_key key idx of
                None \<Rightarrow> idx @ [count_swipe s \<lparr>se_key = key, se_count = 0, se_first = sw_time s,
                                              se_last = sw_time s, se_unsynced = False\<rparr>]
              | Some _ \<Rightarrow> modify_row se_key key (count_swipe s) idx)"

definition swipe_index :: "string set \<Rightarrow> swipe list \<Rightarrow> swipe_entry list" where
  "swipe_index ids swipes = foldl (swipe_step ids) [] swipes"

definition leave_window_of :: "leave_row \<Rightarrow> pto_window" where
  "leave_window_of r =
     \<lparr>pto_employeeId = lr_employeeId r, pto_startDate = startDate (lr_window r),
      pto_endDate = endDate (lr_window r), pto_startPortion = startPortion (lr_window r),
      pto_endPortion = endPortion (lr_window r)\<rparr>"

fun covering_leave :: "leave_day_portion option \<Rightarrow> pto_window list \<Rightarrow> iso_date \<Rightarrow> leave_day_portion option" where
  "covering_leave widest [] date = widest"
| "covering_leave widest (w # ws) date =
     (case portion_on w date of
        Some Full_day \<Rightarrow> Some Full_day
      | Some portion \<Rightarrow> covering_leave (Some portion) ws date
      | None \<Rightarrow> covering_leave widest ws date)"

definition leave_day :: "leave_row list \<Rightarrow> string \<Rightarrow> iso_date \<Rightarrow> (leave_day_portion \<times> leave_type) option" where
  "leave_day rows person date =
     (case covering_leave None (map leave_window_of (filter (\<lambda>l. lr_employeeId l = person) rows)) date of
        None \<Rightarrow> None
      | Some portion \<Rightarrow>
          Some (portion,
            case find (\<lambda>l. lr_employeeId l = person \<and> portion_on (leave_window_of l) date = Some portion) rows of
              None \<Rightarrow> Other_leave
            | Some l \<Rightarrow> lr_leaveType l))"

definition wfh_day :: "wfh_row list \<Rightarrow> string \<Rightarrow> iso_date \<Rightarrow> bool" where
  "wfh_day rows person date =
     list_ex (\<lambda>w. wr_employeeId w = person \<and> wr_startDate w \<le> date \<and> wr_endDate w \<ge> date) rows"

type_synonym day_keys = "(string \<times> iso_date) set"

definition justification_step ::
    "string set \<Rightarrow> iso_date \<Rightarrow> iso_date \<Rightarrow> iso_date set \<Rightarrow> day_keys \<times> day_keys \<Rightarrow> justification_row \<Rightarrow> day_keys \<times> day_keys" where
  "justification_step ids d_from d_to holidays_set st j =
     (case st of (justified, waiting) \<Rightarrow>
        if jr_employeeId j \<notin> ids then st
        else
          let keys = set (map (\<lambda>date. (jr_employeeId j, date))
                (working_dates_in_range (if jr_startDate j > d_from then jr_startDate j else d_from)
                   (if jr_endDate j < d_to then jr_endDate j else d_to) holidays_set))
          in if jr_status j = Review_approved then (justified \<union> keys, waiting) else (justified, waiting \<union> keys))"

definition justified_days ::
    "string set \<Rightarrow> iso_date \<Rightarrow> iso_date \<Rightarrow> iso_date set \<Rightarrow> justification_row list \<Rightarrow> day_keys \<times> day_keys" where
  "justified_days ids d_from d_to holidays_set js =
     (case foldl (justification_step ids d_from d_to holidays_set) ({}, {}) js of
        (justified, waiting) \<Rightarrow> (justified, waiting - justified))"

record day_entry =
  de_day :: attendance_day
  de_leaveType :: "leave_type option"
  de_leavePortion :: "leave_day_portion option"
  de_pendingJustification :: bool

record employee_month =
  em_id :: string
  em_name :: string
  em_department :: "string option"
  em_status :: employee_status
  em_days :: "day_entry list"

text \<open>The rows the month reads, with the filters of the five queries.\<close>

definition month_leave :: "workforce_db \<Rightarrow> iso_date \<Rightarrow> iso_date \<Rightarrow> leave_row list" where
  "month_leave db d_from d_to =
     filter (\<lambda>l. lr_status l = Review_approved \<and> startDate (lr_window l) \<le> d_to \<and> endDate (lr_window l) \<ge> d_from)
       (leave_requests db)"

definition month_wfh :: "workforce_db \<Rightarrow> iso_date \<Rightarrow> iso_date \<Rightarrow> wfh_row list" where
  "month_wfh db d_from d_to =
     filter (\<lambda>w. wr_status w = Review_approved \<and> wr_startDate w \<le> d_to \<and> wr_endDate w \<ge> d_from) (wfh_requests db)"

definition month_justifications :: "workforce_db \<Rightarrow> iso_date \<Rightarrow> iso_date \<Rightarrow> justification_row list" where
  "month_justifications db d_from d_to =
     filter (\<lambda>j. jr_status j \<in> {Review_pending, Review_approved} \<and> jr_startDate j \<le> d_to \<and> jr_endDate j \<ge> d_from)
       (justifications db)"

definition compute_day ::
    "iso_date set \<Rightarrow> swipe_entry list \<Rightarrow> leave_row list \<Rightarrow> wfh_row list \<Rightarrow> day_keys \<times> day_keys \<Rightarrow>
     string \<Rightarrow> iso_date \<Rightarrow> day_entry" where
  "compute_day holidays_set idx leaves wfhs keys person date =
     (let key = (person, date);
          swipes = find_row se_key key idx;
          leave = leave_day leaves person date
      in \<lparr>de_day = compute_attendance_day
            \<lparr>ai_date = date,
             ai_unsynced = (case swipes of None \<Rightarrow> False | Some e \<Rightarrow> se_unsynced e),
             ai_holiday = (date \<in> holidays_set),
             ai_leave = map_option fst leave,
             ai_wfh = wfh_day wfhs person date,
             ai_justified = (key \<in> fst keys),
             ai_firstIn = (case swipes of None \<Rightarrow> None | Some e \<Rightarrow> if se_count e \<ge> 1 then Some (se_first e) else None),
             ai_lastOut = (case swipes of None \<Rightarrow> None | Some e \<Rightarrow> if se_count e \<ge> 2 then Some (se_last e) else None),
             ai_swipeCount = (case swipes of None \<Rightarrow> 0 | Some e \<Rightarrow> se_count e)\<rparr>,
          de_leaveType = map_option snd leave,
          de_leavePortion = map_option fst leave,
          de_pendingJustification = (key \<in> snd keys)\<rparr>)"

definition compute_month :: "attendance_tables \<Rightarrow> int \<times> int \<Rightarrow> employee_month list" where
  "compute_month db ym =
     (let people = roster_for_month db ym;
          d_from = Iso (fst ym) (snd ym) 1; d_to = last_day_of ym;
          holidays_set = holidays_between d_from d_to (at_work db);
          leaves = month_leave (at_work db) d_from d_to;
          wfhs = month_wfh (at_work db) d_from d_to;
          workingDays = working_dates_in_range d_from d_to holidays_set;
          ids = set (map ep_id people);
          idx = swipe_index ids (month_swipes db ym);
          keys = justified_days ids d_from d_to holidays_set (month_justifications (at_work db) d_from d_to);
          employment = employment_by_employee db (map ep_id people)
      in map (\<lambda>person.
           \<lparr>em_id = ep_id person, em_name = ep_name person, em_department = ep_department person,
            em_status = ep_status person,
            em_days = map (compute_day holidays_set idx leaves wfhs keys (ep_id person))
              (filter (\<lambda>date. case find_row ew_employeeId (ep_id person) employment of
                          None \<Rightarrow> True
                        | Some w \<Rightarrow> date \<ge> ew_start w \<and> date \<le> end_or_max (ew_end w)) workingDays)\<rparr>)
         people)"

definition compute_month_for ::
    "(string \<Rightarrow> string \<Rightarrow> bool) \<Rightarrow> attendance_tables \<Rightarrow> int \<times> int \<Rightarrow> actor \<Rightarrow> string option \<Rightarrow> employee_month list result" where
  "compute_month_for may db ym actor employeeId =
     and_then (scoped_employees may db actor ym employeeId) (\<lambda>allowed.
       Inr (filter (\<lambda>e. em_id e \<in> set (map ep_id allowed)) (compute_month db ym)))"

section \<open>The summary and the morning sweep\<close>

record month_counts =
  mc_office :: rat
  mc_wfh :: rat
  mc_annual :: rat
  mc_sick :: rat
  mc_unpaid :: rat
  mc_parental :: rat
  mc_other :: rat
  mc_absences :: rat
  mc_late :: nat
  mc_early :: nat
  mc_minutes :: int

definition no_counts :: month_counts where
  "no_counts = \<lparr>mc_office = 0, mc_wfh = 0, mc_annual = 0, mc_sick = 0, mc_unpaid = 0, mc_parental = 0,
     mc_other = 0, mc_absences = 0, mc_late = 0, mc_early = 0, mc_minutes = 0\<rparr>"

fun add_leave_column :: "leave_type \<Rightarrow> rat \<Rightarrow> month_counts \<Rightarrow> month_counts" where
  "add_leave_column Annual x c = c\<lparr>mc_annual := mc_annual c + x\<rparr>"
| "add_leave_column Sick x c = c\<lparr>mc_sick := mc_sick c + x\<rparr>"
| "add_leave_column Unpaid x c = c\<lparr>mc_unpaid := mc_unpaid c + x\<rparr>"
| "add_leave_column Parental x c = c\<lparr>mc_parental := mc_parental c + x\<rparr>"
| "add_leave_column Other_leave x c = c\<lparr>mc_other := mc_other c + x\<rparr>"

definition count_day :: "month_counts \<Rightarrow> day_entry \<Rightarrow> month_counts" where
  "count_day c0 day =
     (let portion = de_leavePortion day;
          whole = (if portion = Some Morning \<or> portion = Some Afternoon then 1 / 2 else 1);
          status = ad_status (de_day day);
          c1 = (if status = Day_wfh then c0\<lparr>mc_wfh := mc_wfh c0 + whole\<rparr>
                else if status = Day_absent then c0\<lparr>mc_absences := mc_absences c0 + whole\<rparr>
                else if status = Day_office then c0\<lparr>mc_office := mc_office c0 + whole\<rparr> else c0);
          c2 = (case de_leaveType day of None \<Rightarrow> c1 | Some t \<Rightarrow> add_leave_column t whole c1)
      in c2\<lparr>mc_late := mc_late c2 + (if Flag_late \<in> set (ad_flags (de_day day)) then 1 else 0),
            mc_early := mc_early c2 + (if Flag_early \<in> set (ad_flags (de_day day)) then 1 else 0),
            mc_minutes := mc_minutes c2 + ad_workedMinutes (de_day day)\<rparr>)"

definition summary_counts :: "employee_month \<Rightarrow> month_counts" where
  "summary_counts person = foldl count_day no_counts (em_days person)"

definition unresolved_flags_for :: "attendance_tables \<Rightarrow> iso_date \<Rightarrow> (string \<times> string \<times> day_flag list) list" where
  "unresolved_flags_for db date =
     concat (map (\<lambda>person.
       if em_status person = Employee_offboarded then []
       else case find (\<lambda>d. ad_date (de_day d) = date) (em_days person) of
              None \<Rightarrow> []
            | Some day \<Rightarrow>
                if ad_flags (de_day day) = [] \<or> de_pendingJustification day then []
                else [(em_id person, em_name person, ad_flags (de_day day))])
       (compute_month db (iyear date, imonth date)))"

text \<open>At most ten steps back; \<open>holiday\<close> answers whether a date is in the calendar.\<close>

fun step_back :: "nat \<Rightarrow> (iso_date \<Rightarrow> bool) \<Rightarrow> iso_date \<Rightarrow> iso_date" where
  "step_back 0 holiday date = date"
| "step_back (Suc i) holiday date =
     (let prev = to_iso_date (parse_iso_date date - MS_PER_DAY);
          weekday = utc_day (parse_iso_date prev)
      in if weekday = 0 \<or> weekday = 6 then step_back i holiday prev
         else if \<not> holiday prev then prev
         else step_back i holiday prev)"

definition previous_working_day :: "int \<Rightarrow> (iso_date \<Rightarrow> bool) \<Rightarrow> iso_date" where
  "previous_working_day now holiday = step_back 10 holiday (hcm_date now)"

end
