(* ===== verification/AttendanceProperties.thy ===== *)
theory AttendanceProperties
  imports Attendance
begin

text \<open>
  The derived attendance month against a declarative reading of the tables: what reaches a day, which
  events belong to a month, how the summary adds up, and which day the morning sweep looks at.
\<close>

section \<open>Local dates and months\<close>

lemma hcm_date_eq: "hcm_date ts = iso_of_day ((ts + HCM_UTC_OFFSET) div MS_PER_DAY)"
  by (simp add: hcm_date_def to_iso_date_def)

lemma valid_hcm_date [simp]: "valid_date (hcm_date ts)"
  by (simp add: hcm_date_eq)

lemma valid_hcm_time: "valid_clock (hcm_time ts)"
proof -
  define ms where "ms = (ts + HCM_UTC_OFFSET) mod 86400000"
  have "0 \<le> ms" "ms < 86400000" by (simp_all add: ms_def)
  then have "0 \<le> ms div 3600000" "ms div 3600000 < 24" by (simp_all add: div_less_iff_less_mult pos_imp_zdiv_nonneg_iff)
  moreover have "0 \<le> ms mod 3600000" "ms mod 3600000 < 3600000" by simp_all
  then have "0 \<le> ms mod 3600000 div 60000" "ms mod 3600000 div 60000 < 60"
    by (simp_all add: div_less_iff_less_mult pos_imp_zdiv_nonneg_iff)
  ultimately show ?thesis
    by (simp add: hcm_time_def Let_def MS_PER_DAY_def MS_PER_HOUR_def ms_def)
qed

definition in_month :: "int \<times> int \<Rightarrow> iso_date \<Rightarrow> bool" where
  "in_month ym d \<longleftrightarrow> iyear d = fst ym \<and> imonth d = snd ym"

definition real_month :: "int \<times> int \<Rightarrow> bool" where
  "real_month ym \<longleftrightarrow> 1 \<le> snd ym \<and> snd ym \<le> 12 \<and> 100 \<le> fst ym"

lemma next_month_first:
  assumes "real_month (y, m)"
  defines "N \<equiv> Iso (if m = 12 then y + 1 else y) (if m = 12 then 1 else m + 1) 1"
  shows "to_iso_date (date_utc y m 1) = N" and "valid_date N" and "valid_date (Iso y m 1)"
    and "valid_date d \<Longrightarrow> in_month (y, m) d \<longleftrightarrow> Iso y m 1 \<le> d \<and> d < N"
proof -
  have m: "1 \<le> m" "m \<le> 12" "\<not> (0 \<le> y \<and> y \<le> 99)" using assms(1) by (auto simp: real_month_def)
  have first: "valid_date (Iso a b 1)" if "1 \<le> b" "b \<le> 12" for a b
    using that days_in_month_pos [of "b - 1" "leap a"] by simp
  have "1 \<le> (if m = 12 then 1 else m + 1)" "(if m = 12 then 1 else m + 1) \<le> 12" using m by auto
  then show "valid_date N" unfolding N_def by (rule first)
  show "valid_date (Iso y m 1)" using m(1,2) by (rule first)
  have "m div 12 = (if m = 12 then 1 else 0)" "m mod 12 = (if m = 12 then 0 else m)" using m by auto
  then have "make_day y m 1 = day_of N"
    unfolding make_day_norm [of y m 1] N_def by (cases "m = 12") (simp_all del: day_of.simps)
  then show "to_iso_date (date_utc y m 1) = N"
    using m(3) \<open>valid_date N\<close> by (simp only: date_utc_def if_False to_iso_date_of_day iso_of_day_of)
  show "in_month (y, m) d \<longleftrightarrow> Iso y m 1 \<le> d \<and> d < N" if "valid_date d"
    using that m by (cases d) (auto simp: in_month_def N_def)
qed

text \<open>The instants of a month are those whose local date lies in it, December included.\<close>

lemma month_instants:
  assumes "real_month ym"
  shows "(case month_instant_bounds ym of (lo, hi) \<Rightarrow> lo \<le> ts \<and> ts < hi) \<longleftrightarrow> in_month ym (hcm_date ts)"
proof -
  obtain y m where ym: "ym = (y, m)" by fastforce
  define N where "N = Iso (if m = 12 then y + 1 else y) (if m = 12 then 1 else m + 1) 1"
  note n = next_month_first [of y m, folded N_def]
  define n0 where "n0 = (ts + HCM_UTC_OFFSET) div MS_PER_DAY"
  have D: "hcm_date ts = iso_of_day n0" by (simp add: hcm_date_eq n0_def)
  have N1: "Iso (iyear N) (imonth N) 1 = N" by (simp add: N_def)
  have "in_month (y, m) (hcm_date ts) \<longleftrightarrow> Iso y m 1 \<le> iso_of_day n0 \<and> iso_of_day n0 < N"
    using n(4) assms ym by (simp add: D)
  also have "\<dots> \<longleftrightarrow> day_of (Iso y m 1) \<le> n0 \<and> n0 < day_of N"
    using n(2,3) assms ym day_of_le_iff [of "Iso y m 1" "iso_of_day n0"] day_of_less_iff [of "iso_of_day n0" N]
    by simp
  also have "\<dots> \<longleftrightarrow> day_of (Iso y m 1) * MS_PER_DAY - HCM_UTC_OFFSET \<le> ts \<and> ts < day_of N * MS_PER_DAY - HCM_UTC_OFFSET"
  proof -
    have "MS_PER_DAY * n0 \<le> ts + HCM_UTC_OFFSET" "ts + HCM_UTC_OFFSET < MS_PER_DAY * n0 + MS_PER_DAY"
      using div_bounds [of MS_PER_DAY "ts + HCM_UTC_OFFSET"] by (simp_all add: n0_def MS_PER_DAY_def)
    then show ?thesis by (auto simp: MS_PER_DAY_def)
  qed
  finally show ?thesis
    using n(1) assms by (simp add: ym month_instant_bounds_def parse_iso_date_def N1 Let_def del: day_of.simps)
qed

section \<open>What the loops compute\<close>

subsection \<open>Swipes\<close>

definition swipes_of :: "swipe list \<Rightarrow> string \<times> iso_date \<Rightarrow> swipe list" where
  "swipes_of ss k = filter (\<lambda>s. (sw_employeeId s, sw_date s) = k) ss"

definition swipe_summary :: "swipe list \<Rightarrow> string \<times> iso_date \<Rightarrow> swipe_entry option" where
  "swipe_summary ss k =
     (if swipes_of ss k = [] then None
      else Some \<lparr>se_key = k, se_count = length (swipes_of ss k), se_first = Min (sw_time ` set (swipes_of ss k)),
                 se_last = Max (sw_time ` set (swipes_of ss k)),
                 se_unsynced = (\<exists>s \<in> set (swipes_of ss k). \<not> sw_timeSynced s)\<rparr>)"

interpretation swipe_table: keyed_table se_key "find_row se_key" "modify_row se_key" "keys_distinct se_key"
  by (rule keyed_list_table)

lemma find_swipe_step:
  "find_row se_key k (swipe_step ids idx s) =
     (if sw_employeeId s \<notin> ids \<or> k \<noteq> (sw_employeeId s, sw_date s) then find_row se_key k idx
      else Some (count_swipe s (case find_row se_key k idx of
          None \<Rightarrow> \<lparr>se_key = k, se_count = 0, se_first = sw_time s, se_last = sw_time s, se_unsynced = False\<rparr>
        | Some e \<Rightarrow> e)))"
proof (cases "find_row se_key (sw_employeeId s, sw_date s) idx")
  case None
  then show ?thesis
    by (auto simp: swipe_step_def Let_def find_row_append count_swipe_def split: option.splits)
next
  case (Some e)
  have "se_key (count_swipe s r) = se_key r" for r by (simp add: count_swipe_def)
  then show ?thesis
    by (cases "k = (sw_employeeId s, sw_date s)") (simp_all add: swipe_step_def Let_def Some swipe_table.lookup_modify)
qed

lemma min_strict: "min a b = (if a < b then a else b)" for a b :: clock
  unfolding min_def using linear [of a b] by (auto simp: less_le_not_le intro: antisym)

lemma max_strict: "max a b = (if a > b then a else b)" for a b :: clock
  unfolding max_def using linear [of a b] by (auto simp: less_le_not_le intro: antisym)

lemma swipe_summary_snoc:
  "swipe_summary (ss @ [s]) k =
     (if k \<noteq> (sw_employeeId s, sw_date s) then swipe_summary ss k
      else Some (count_swipe s (case swipe_summary ss k of
          None \<Rightarrow> \<lparr>se_key = k, se_count = 0, se_first = sw_time s, se_last = sw_time s, se_unsynced = False\<rparr>
        | Some e \<Rightarrow> e)))"
proof (cases "k = (sw_employeeId s, sw_date s)")
  case False
  then show ?thesis by (simp add: swipe_summary_def swipes_of_def)
next
  case True
  then have split: "swipes_of (ss @ [s]) k = swipes_of ss k @ [s]" by (simp add: swipes_of_def)
  show ?thesis
  proof (cases "swipes_of ss k = []")
    case nil: True
    with True split show ?thesis by (simp add: swipe_summary_def count_swipe_def)
  next
    case False
    define T where "T = sw_time ` set (swipes_of ss k)"
    have "finite T" "T \<noteq> {}" using False by (auto simp: T_def)
    then have "Min (insert (sw_time s) T) = (if sw_time s < Min T then sw_time s else Min T)"
      "Max (insert (sw_time s) T) = (if sw_time s > Max T then sw_time s else Max T)"
      by (simp_all add: min_strict max_strict)
    with True split False show ?thesis
      by (simp add: swipe_summary_def count_swipe_def T_def [symmetric] del: Min_gr_iff Max_less_iff Min_ge_iff Max_le_iff)
  qed
qed

lemma find_swipe_index:
  "find_row se_key k (swipe_index ids ss) = (if fst k \<in> ids then swipe_summary ss k else None)"
proof (induction ss rule: rev_induct)
  case Nil
  then show ?case by (simp add: swipe_index_def swipe_summary_def swipes_of_def)
next
  case (snoc s ss)
  have "swipe_index ids (ss @ [s]) = swipe_step ids (swipe_index ids ss) s" by (simp add: swipe_index_def)
  with snoc show ?case by (auto simp: find_swipe_step swipe_summary_snoc)
qed

subsection \<open>Leave\<close>

definition leave_parts :: "leave_row list \<Rightarrow> string \<Rightarrow> iso_date \<Rightarrow> leave_day_portion list" where
  "leave_parts rows person date =
     List.map_filter (\<lambda>l. portion_on (leave_window_of l) date) (filter (\<lambda>l. lr_employeeId l = person) rows)"

lemma covering_leave_eq:
  "covering_leave widest ws date =
     (let ps = List.map_filter (\<lambda>w. portion_on w date) ws
      in if Full_day \<in> set ps then Some Full_day else if ps = [] then widest else Some (last ps))"
proof (induction widest ws date rule: covering_leave.induct)
  case (2 widest w ws date)
  then show ?case
  proof (cases "portion_on w date")
    case (Some p)
    with 2 show ?thesis by (cases p) (auto simp: Let_def map_filter_simps)
  qed (simp add: map_filter_simps Let_def)
qed (simp add: map_filter_simps Let_def)

lemma leave_day_portion:
  "map_option fst (leave_day rows person date) =
     (let ps = leave_parts rows person date
      in if Full_day \<in> set ps then Some Full_day else if ps = [] then None else Some (last ps))"
proof -
  have "List.map_filter (\<lambda>w. portion_on w date) (map leave_window_of (filter (\<lambda>l. lr_employeeId l = person) rows)) =
      leave_parts rows person date"
    unfolding leave_parts_def by (induction rows) (auto simp: map_filter_simps split: option.splits)
  then show ?thesis
    by (auto simp: leave_day_def covering_leave_eq Let_def split: option.splits)
qed

subsection \<open>Justifications\<close>

lemma justification_step_mem:
  assumes "valid_date f" "valid_date t" "valid_date (jr_startDate j)" "valid_date (jr_endDate j)"
    and "valid_date d" "f \<le> d" "d \<le> t" "iso_weekday d \<in> set WORKING_WEEKDAYS" "d \<notin> hs"
  shows "(p, d) \<in> fst (justification_step ids f t hs st j) \<longleftrightarrow>
      (p, d) \<in> fst st \<or> p \<in> ids \<and> jr_employeeId j = p \<and> jr_status j = Review_approved \<and>
        jr_startDate j \<le> d \<and> d \<le> jr_endDate j"
    and "(p, d) \<in> snd (justification_step ids f t hs st j) \<longleftrightarrow>
      (p, d) \<in> snd st \<or> p \<in> ids \<and> jr_employeeId j = p \<and> jr_status j \<noteq> Review_approved \<and>
        jr_startDate j \<le> d \<and> d \<le> jr_endDate j"
proof -
  define a b where "a = (if jr_startDate j > f then jr_startDate j else f)"
    and "b = (if jr_endDate j < t then jr_endDate j else t)"
  have "valid_date a" "valid_date b" using assms(1-4) by (simp_all add: a_def b_def)
  then have "d \<in> set (working_dates_in_range a b hs) \<longleftrightarrow> jr_startDate j \<le> d \<and> d \<le> jr_endDate j"
    using assms(5-9) by (auto simp: set_working_dates_in_range a_def b_def WORKING_WEEKDAYS_def)
  then show "(p, d) \<in> fst (justification_step ids f t hs st j) \<longleftrightarrow>
      (p, d) \<in> fst st \<or> p \<in> ids \<and> jr_employeeId j = p \<and> jr_status j = Review_approved \<and>
        jr_startDate j \<le> d \<and> d \<le> jr_endDate j"
    and "(p, d) \<in> snd (justification_step ids f t hs st j) \<longleftrightarrow>
      (p, d) \<in> snd st \<or> p \<in> ids \<and> jr_employeeId j = p \<and> jr_status j \<noteq> Review_approved \<and>
        jr_startDate j \<le> d \<and> d \<le> jr_endDate j"
    unfolding justification_step_def a_def [symmetric] b_def [symmetric] Let_def
    by (cases st; auto)+
qed

lemma justification_fold_mem:
  assumes "valid_date f" "valid_date t" "\<forall>j \<in> set js. valid_date (jr_startDate j) \<and> valid_date (jr_endDate j)"
    and "valid_date d" "f \<le> d" "d \<le> t" "iso_weekday d \<in> set WORKING_WEEKDAYS" "d \<notin> hs"
  shows "((p, d) \<in> fst (foldl (justification_step ids f t hs) st js) \<longleftrightarrow>
      (p, d) \<in> fst st \<or> p \<in> ids \<and> (\<exists>j \<in> set js. jr_employeeId j = p \<and> jr_status j = Review_approved \<and>
        jr_startDate j \<le> d \<and> d \<le> jr_endDate j)) \<and>
    ((p, d) \<in> snd (foldl (justification_step ids f t hs) st js) \<longleftrightarrow>
      (p, d) \<in> snd st \<or> p \<in> ids \<and> (\<exists>j \<in> set js. jr_employeeId j = p \<and> jr_status j \<noteq> Review_approved \<and>
        jr_startDate j \<le> d \<and> d \<le> jr_endDate j))"
  using assms(3)
proof (induction js arbitrary: st)
  case (Cons j js)
  then have "valid_date (jr_startDate j)" "valid_date (jr_endDate j)" by auto
  note step = justification_step_mem [OF assms(1,2) this assms(4-8)]
  show ?case using Cons by (auto simp: step)
qed simp

section \<open>A day reads its own rows\<close>

text \<open>Every credited swipe of the event log, whatever the month.\<close>

definition all_swipes :: "attendance_tables \<Rightarrow> swipe list" where
  "all_swipes db =
     concat (map (\<lambda>e.
       map (\<lambda>c. \<lparr>sw_employeeId = dc_employeeId c, sw_date = hcm_date (event_ts e),
                 sw_time = hcm_time (event_ts e), sw_timeSynced = dv_timeSynced e\<rparr>)
         (filter (\<lambda>c. dv_cardId e = Some (dc_id c)) (at_cards db)))
       (filter dv_allow (at_events db)))"

definition approved_leave :: "attendance_tables \<Rightarrow> leave_row list" where
  "approved_leave db = filter (\<lambda>l. lr_status l = Review_approved) (leave_requests (at_work db))"

definition explained :: "review_status \<Rightarrow> attendance_tables \<Rightarrow> string \<Rightarrow> iso_date \<Rightarrow> bool" where
  "explained st db p d \<longleftrightarrow>
     (\<exists>j \<in> set (justifications (at_work db)). jr_employeeId j = p \<and> jr_status j = st \<and>
        jr_startDate j \<le> d \<and> d \<le> jr_endDate j)"

definition day_inputs :: "attendance_tables \<Rightarrow> string \<Rightarrow> iso_date \<Rightarrow> attendance_day_inputs" where
  "day_inputs db p d =
     (let ss = swipes_of (all_swipes db) (p, d); ps = leave_parts (approved_leave db) p d
      in \<lparr>ai_date = d, ai_unsynced = (\<exists>s \<in> set ss. \<not> sw_timeSynced s), ai_holiday = False,
          ai_leave = (if Full_day \<in> set ps then Some Full_day else if ps = [] then None else Some (last ps)),
          ai_wfh = (\<exists>w \<in> set (wfh_requests (at_work db)). wr_status w = Review_approved \<and>
             wr_employeeId w = p \<and> wr_startDate w \<le> d \<and> d \<le> wr_endDate w),
          ai_justified = explained Review_approved db p d,
          ai_firstIn = (if ss = [] then None else Some (Min (sw_time ` set ss))),
          ai_lastOut = (if length ss < 2 then None else Some (Max (sw_time ` set ss))),
          ai_swipeCount = length ss\<rparr>)"

lemma filter_concat_map:
  "filter P (concat (map f (filter Q xs))) = concat (map (filter P \<circ> f) (filter Q xs))"
  by (induction xs) auto

lemma swipes_of_month:
  assumes "real_month ym" and "in_month ym d"
  shows "swipes_of (month_swipes db ym) (p, d) = swipes_of (all_swipes db) (p, d)"
proof -
  obtain lo hi where b: "month_instant_bounds ym = (lo, hi)" by fastforce
  have inm: "lo \<le> ts \<and> ts < hi \<longleftrightarrow> in_month ym (hcm_date ts)" for ts
    using month_instants [OF assms(1), of ts] by (simp add: b)
  define row where "row e c = \<lparr>sw_employeeId = dc_employeeId c, sw_date = hcm_date (event_ts e),
      sw_time = hcm_time (event_ts e), sw_timeSynced = dv_timeSynced e\<rparr>" for e :: door_event and c :: door_card
  define hits where "hits e = filter (\<lambda>s. (sw_employeeId s, sw_date s) = (p, d))
      (map (row e) (filter (\<lambda>c. dv_cardId e = Some (dc_id c)) (at_cards db)))" for e
  have none: "hits e = []" if "\<not> in_month ym (hcm_date (event_ts e))" for e
    using that assms(2) by (auto simp: hits_def row_def filter_empty_conv)
  have "concat (map hits (filter (\<lambda>e. dv_allow e \<and> lo \<le> event_ts e \<and> event_ts e < hi) es)) =
      concat (map hits (filter dv_allow es))" for es
    by (induction es) (auto simp: inm none)
  from this [of "at_events db"] show ?thesis
    unfolding swipes_of_def month_swipes_def all_swipes_def b prod.case filter_concat_map comp_def
      hits_def [abs_def] row_def [abs_def] by this
qed

lemma leave_parts_month:
  assumes "f \<le> d" and "d \<le> t"
  shows "leave_parts (month_leave (at_work db) f t) p d = leave_parts (approved_leave db) p d"
proof -
  have "portion_on (leave_window_of l) d = None" if "\<not> (startDate (lr_window l) \<le> t \<and> endDate (lr_window l) \<ge> f)" for l
    using that assms by (auto simp: portion_on_def leave_window_of_def)
  then have "List.map_filter (\<lambda>l. portion_on (leave_window_of l) d) (filter (\<lambda>l. lr_employeeId l = p) (filter
        (\<lambda>l. lr_status l = Review_approved \<and> startDate (lr_window l) \<le> t \<and> endDate (lr_window l) \<ge> f) ls)) =
      List.map_filter (\<lambda>l. portion_on (leave_window_of l) d) (filter (\<lambda>l. lr_employeeId l = p)
        (filter (\<lambda>l. lr_status l = Review_approved) ls))" for ls
    by (induction ls) (auto simp: map_filter_simps split: option.splits)
  then show ?thesis
    unfolding leave_parts_def month_leave_def approved_leave_def by this
qed

text \<open>Every day of the derived month reads its own rows and nothing else: the swipes whose local date it is
  (none is lost at the ends of a month), the approved windows that cover it and the justifications of
  that employee.\<close>

lemma compute_day_reads:
  assumes ym: "real_month ym" and d: "in_month ym d" "valid_date d" "iso_weekday d \<in> set WORKING_WEEKDAYS"
    and js: "\<forall>j \<in> set (justifications (at_work db)). valid_date (jr_startDate j) \<and> valid_date (jr_endDate j)"
  defines "f \<equiv> Iso (fst ym) (snd ym) 1" and "t \<equiv> last_day_of ym"
  assumes le: "f \<le> d" "d \<le> t" "valid_date f" "valid_date t" and nh: "d \<notin> hs" and p: "p \<in> ids"
  defines "x \<equiv> compute_day hs (swipe_index ids (month_swipes db ym)) (month_leave (at_work db) f t)
      (month_wfh (at_work db) f t) (justified_days ids f t hs (month_justifications (at_work db) f t)) p d"
  shows "de_day x = compute_attendance_day (day_inputs db p d)"
    and "de_pendingJustification x \<longleftrightarrow> explained Review_pending db p d \<and> \<not> explained Review_approved db p d"
proof -
  define mj where "mj = month_justifications (at_work db) f t"
  define ks where "ks = foldl (justification_step ids f t hs) ({}, {}) mj"
  have "\<forall>j \<in> set mj. valid_date (jr_startDate j) \<and> valid_date (jr_endDate j)"
    using js by (simp add: mj_def month_justifications_def)
  note fold = justification_fold_mem [OF le(3,4) this d(2) le(1,2) d(3) nh, where st = "({}, {})" and ids = ids and p = p]
  have cover: "f \<le> jr_endDate j \<and> jr_startDate j \<le> t" if "jr_startDate j \<le> d" "d \<le> jr_endDate j" for j
    using that le by (meson order_trans)
  have mj: "j \<in> set mj \<longleftrightarrow> j \<in> set (justifications (at_work db)) \<and> jr_status j \<in> {Review_pending, Review_approved} \<and>
      jr_startDate j \<le> t \<and> f \<le> jr_endDate j" for j
    by (simp add: mj_def month_justifications_def)
  have e1: "(\<exists>j \<in> set mj. jr_employeeId j = p \<and> jr_status j = Review_approved \<and> jr_startDate j \<le> d \<and> d \<le> jr_endDate j)
      \<longleftrightarrow> explained Review_approved db p d"
    unfolding explained_def using mj cover by blast
  have e2: "(\<exists>j \<in> set mj. jr_employeeId j = p \<and> jr_status j \<noteq> Review_approved \<and> jr_startDate j \<le> d \<and> d \<le> jr_endDate j)
      \<longleftrightarrow> explained Review_pending db p d"
    unfolding explained_def using mj cover by fastforce
  have k1: "(p, d) \<in> fst ks \<longleftrightarrow> explained Review_approved db p d"
    using fold p unfolding ks_def e1 e2 by simp
  have k2: "(p, d) \<in> snd ks \<longleftrightarrow> explained Review_pending db p d"
    using fold p unfolding ks_def e1 e2 by simp
  have keys: "justified_days ids f t hs mj = (fst ks, snd ks - fst ks)"
    by (simp add: justified_days_def ks_def case_prod_unfold)
  have wfh: "wfh_day (month_wfh (at_work db) f t) p d \<longleftrightarrow>
      (\<exists>w \<in> set (wfh_requests (at_work db)). wr_status w = Review_approved \<and> wr_employeeId w = p \<and>
         wr_startDate w \<le> d \<and> d \<le> wr_endDate w)"
    using le by (auto simp: wfh_day_def month_wfh_def list_ex_iff intro: order_trans)
  show "de_day x = compute_attendance_day (day_inputs db p d)"
    unfolding x_def mj_def [symmetric] compute_day_def Let_def keys find_swipe_index
    using p nh le
    by (simp add: day_inputs_def Let_def k1 wfh leave_day_portion leave_parts_month swipe_summary_def
        swipes_of_month [OF ym d(1)] not_less Suc_le_eq)
  show "de_pendingJustification x \<longleftrightarrow> explained Review_pending db p d \<and> \<not> explained Review_approved db p d"
    unfolding x_def mj_def [symmetric] compute_day_def Let_def keys by (simp add: k1 k2)
qed

lemma month_bounds_dates:
  assumes "real_month ym"
  shows "valid_date (Iso (fst ym) (snd ym) 1)" and "valid_date (last_day_of ym)"
    and "valid_date d \<Longrightarrow> Iso (fst ym) (snd ym) 1 \<le> d \<Longrightarrow> d \<le> last_day_of ym \<Longrightarrow> in_month ym d"
proof -
  obtain y m where ym: "ym = (y, m)" by fastforce
  have m: "1 \<le> m" "m \<le> 12" "\<not> (0 \<le> y \<and> y \<le> 99)" using assms by (auto simp: real_month_def ym)
  have last: "last_day_of (y, m) = Iso y m (days_in_month (leap y) (m - 1))" using m by (rule last_day_of_eq)
  have "1 \<le> days_in_month (leap y) (m - 1)" using days_in_month_pos [of "m - 1" "leap y"] m by simp
  then show "valid_date (Iso (fst ym) (snd ym) 1)" "valid_date (last_day_of ym)" using m by (simp_all add: last ym)
  show "in_month ym d" if "valid_date d" "Iso (fst ym) (snd ym) 1 \<le> d" "d \<le> last_day_of ym"
    using that by (cases d) (auto simp: last ym in_month_def)
qed

text \<open>C38. The attendance month, built from five queries and several indexes, is what one would read off the tables
  day by day: each listed day lies in the month and its status, minutes and flags come from the swipes
  whose local date it is (wherever in the event log they are), the approved windows covering it and the
  approved justifications of that employee; it is waiting only for a pending one that nothing approved
  outranks.\<close>

theorem month_reads_day_by_day:
  assumes "real_month ym"
    and "\<forall>j \<in> set (justifications (at_work db)). valid_date (jr_startDate j) \<and> valid_date (jr_endDate j)"
    and "e \<in> set (compute_month db ym)" and "x \<in> set (em_days e)"
  shows "in_month ym (ad_date (de_day x)) \<and>
    de_day x = compute_attendance_day (day_inputs db (em_id e) (ad_date (de_day x))) \<and>
    (de_pendingJustification x \<longleftrightarrow>
       explained Review_pending db (em_id e) (ad_date (de_day x)) \<and>
       \<not> explained Review_approved db (em_id e) (ad_date (de_day x)))"
proof -
  define f t where "f = Iso (fst ym) (snd ym) 1" and "t = last_day_of ym"
  define hs where "hs = holidays_between f t (at_work db)"
  define ids where "ids = set (map ep_id (roster_for_month db ym))"
  define cd where "cd p d = compute_day hs (swipe_index ids (month_swipes db ym)) (month_leave (at_work db) f t)
      (month_wfh (at_work db) f t) (justified_days ids f t hs (month_justifications (at_work db) f t)) p d" for p d
  note bounds = month_bounds_dates [OF assms(1), folded f_def t_def]
  obtain d where d: "d \<in> set (working_dates_in_range f t hs)" and x: "x = cd (em_id e) d" and p: "em_id e \<in> ids"
    using assms(3,4) by (auto simp: compute_month_def Let_def f_def t_def hs_def ids_def cd_def)
  from d have dd: "valid_date d" "f \<le> d" "d \<le> t" "iso_weekday d \<in> set WORKING_WEEKDAYS" "d \<notin> hs"
    using bounds(1,2) by (auto simp: set_working_dates_in_range WORKING_WEEKDAYS_def)
  have im: "in_month ym d" using bounds(3) dd by simp
  note reads = compute_day_reads [OF assms(1) im dd(1,4) assms(2), folded f_def t_def,
      OF dd(2,3) bounds(1,2) dd(5) p, folded cd_def, folded x]
  have "ad_date (de_day x) = d" unfolding reads(1) by (simp add: day_inputs_def Let_def)
  then show ?thesis using reads im by simp
qed

text \<open>June 2026: An badges in at 08:20 and out at 17:05 on the first, a Monday; another event falls on the
  last minute of May in local time. Mai manages An.\<close>

definition ax_db :: attendance_tables where
  "ax_db =
     \<lparr>at_employees = [\<lparr>ep_id = ''an'', ep_name = ''An'', ep_department = None, ep_status = Employee_active, ep_managerId = Some ''mai''\<rparr>],
      at_contracts = [], at_cards = [\<lparr>dc_id = ''c1'', dc_employeeId = ''an''\<rparr>],
      at_events = map (\<lambda>t. \<lparr>dv_cardId = Some ''c1'', dv_allow = True, dv_deviceTs = t, dv_timeSynced = True, dv_receivedAt = t\<rparr>)
        [parse_iso_date (Iso 2026 6 1) + 4800000, parse_iso_date (Iso 2026 6 1) + 36300000,
         parse_iso_date (Iso 2026 5 31) + 61140000],
      at_work = empty_workforce\<rparr>"

lemma compute_day_date [simp]: "ad_date (de_day (compute_day hs idx ls ws ks p d)) = d"
  by (simp add: compute_day_def Let_def)

lemma month_lists_day:
  assumes "r \<in> set (roster_for_month db ym)"
    and "find_row ew_employeeId (ep_id r) (employment_by_employee db (map ep_id (roster_for_month db ym))) = None"
    and "d \<in> set (working_dates_in_range (Iso (fst ym) (snd ym) 1) (last_day_of ym)
        (holidays_between (Iso (fst ym) (snd ym) 1) (last_day_of ym) (at_work db)))"
  obtains e x where "e \<in> set (compute_month db ym)" and "em_id e = ep_id r" and "x \<in> set (em_days e)"
    and "ad_date (de_day x) = d"
proof -
  have "\<exists>e \<in> set (compute_month db ym). em_id e = ep_id r \<and> (\<exists>x \<in> set (em_days e). ad_date (de_day x) = d)"
    unfolding compute_month_def Let_def set_map
    by (rule bexI [OF _ imageI [OF assms(1)]]) (use assms(2,3) in simp)
  with that show ?thesis by blast
qed

lemma ax_month:
  obtains e x where "e \<in> set (compute_month ax_db (2026, 6))" and "em_id e = ''an''" and "x \<in> set (em_days e)"
    and "ad_date (de_day x) = Iso 2026 6 1"
proof (rule month_lists_day [of "hd (at_employees ax_db)" ax_db "(2026, 6)" "Iso 2026 6 1"])
  show r: "hd (at_employees ax_db) \<in> set (roster_for_month ax_db (2026, 6))"
    by (simp add: roster_for_month_def ax_db_def Let_def)
  show "find_row ew_employeeId (ep_id (hd (at_employees ax_db)))
      (employment_by_employee ax_db (map ep_id (roster_for_month ax_db (2026, 6)))) = None"
    by (simp add: employment_by_employee_def employment_windows_def ax_db_def)
  have "last_day_of (2026, 6) = Iso 2026 6 30"
    by (subst last_day_of_eq) (simp_all add: days_in_month_def month_start_def leap_def)
  moreover have "iso_weekday (Iso 2026 6 1) = 1" by code_simp
  moreover have "holidays_between a b (at_work ax_db) = {}" for a b
    by (simp add: holidays_between_def ax_db_def empty_workforce_def)
  ultimately show "Iso 2026 6 1 \<in> set (working_dates_in_range (Iso (fst (2026, 6)) (snd (2026, 6)) 1) (last_day_of (2026, 6))
      (holidays_between (Iso (fst (2026, 6)) (snd (2026, 6)) 1) (last_day_of (2026, 6)) (at_work ax_db)))"
    by (simp add: set_working_dates_in_range days_in_month_def month_start_def leap_def)
qed (simp add: ax_db_def)

lemma ax_days: "day_of (Iso 2026 6 1) = 20605" "day_of (Iso 2026 5 31) = 20604" "day_of (Iso 2026 5 28) = 20601"
  by code_simp+

lemma ax_dates: "iso_of_day 20605 = Iso 2026 6 1" "iso_of_day 20604 = Iso 2026 5 31"
  using iso_of_day_of [of "Iso 2026 6 1"] iso_of_day_of [of "Iso 2026 5 31"]
  by (simp_all add: ax_days days_in_month_def month_start_def leap_def del: day_of.simps iso_of_day_of)

lemma ax_times:
  "hcm_date (parse_iso_date (Iso 2026 6 1) + 4800000) = Iso 2026 6 1"
  "hcm_date (parse_iso_date (Iso 2026 6 1) + 36300000) = Iso 2026 6 1"
  "hcm_date (parse_iso_date (Iso 2026 5 31) + 61140000) = Iso 2026 5 31"
  "hcm_time (parse_iso_date (Iso 2026 6 1) + 4800000) = Hm 8 20"
  "hcm_time (parse_iso_date (Iso 2026 6 1) + 36300000) = Hm 17 5"
  unfolding hcm_date_eq hcm_time_def parse_iso_date_def ax_days
  by (simp_all add: HCM_UTC_OFFSET_def MS_PER_DAY_def MS_PER_HOUR_def ax_dates)

lemma ax_swipes:
  "swipes_of (all_swipes ax_db) (''an'', Iso 2026 6 1) =
     [\<lparr>sw_employeeId = ''an'', sw_date = Iso 2026 6 1, sw_time = Hm 8 20, sw_timeSynced = True\<rparr>,
      \<lparr>sw_employeeId = ''an'', sw_date = Iso 2026 6 1, sw_time = Hm 17 5, sw_timeSynced = True\<rparr>]"
  unfolding swipes_of_def all_swipes_def ax_db_def by (simp add: event_ts_def ax_times)

lemma ax_first_day:
  "compute_attendance_day (day_inputs ax_db ''an'' (Iso 2026 6 1)) =
     \<lparr>ad_date = Iso 2026 6 1, ad_status = Day_office, ad_workedMinutes = 465, ad_lateMinutes = Some 20,
      ad_earlyMinutes = None, ad_flags = [Flag_late]\<rparr>"
proof -
  have "at_work ax_db = empty_workforce" by (simp add: ax_db_def)
  moreover have "Hm 8 20 \<le> Hm 17 5" by simp
  ultimately have "day_inputs ax_db ''an'' (Iso 2026 6 1) =
      \<lparr>ai_date = Iso 2026 6 1, ai_unsynced = False, ai_holiday = False, ai_leave = None, ai_wfh = False,
       ai_justified = False, ai_firstIn = Some (Hm 8 20), ai_lastOut = Some (Hm 17 5), ai_swipeCount = 2\<rparr>"
    by (simp add: day_inputs_def ax_swipes approved_leave_def leave_parts_def explained_def empty_workforce_def
        map_filter_simps min_def max_def)
  then show ?thesis by code_simp
qed

theorem month_reads_day_by_day_witness:
  "\<exists>e \<in> set (compute_month ax_db (2026, 6)). \<exists>x \<in> set (em_days e).
     de_day x = \<lparr>ad_date = Iso 2026 6 1, ad_status = Day_office, ad_workedMinutes = 465, ad_lateMinutes = Some 20,
       ad_earlyMinutes = None, ad_flags = [Flag_late]\<rparr>"
proof -
  obtain e x where e: "e \<in> set (compute_month ax_db (2026, 6))" "em_id e = ''an''" "x \<in> set (em_days e)"
      "ad_date (de_day x) = Iso 2026 6 1"
    by (rule ax_month)
  have "real_month (2026, 6)" by (simp add: real_month_def)
  moreover have "justifications (at_work ax_db) = []" by (simp add: ax_db_def empty_workforce_def)
  ultimately have "de_day x = compute_attendance_day (day_inputs ax_db ''an'' (Iso 2026 6 1))"
    using month_reads_day_by_day [of "(2026, 6)" ax_db e x] e by simp
  with e show ?thesis unfolding ax_first_day by blast
qed

section \<open>The summary\<close>

definition total_days :: "month_counts \<Rightarrow> rat" where
  "total_days c = mc_office c + mc_wfh c + mc_annual c + mc_sick c + mc_unpaid c + mc_parental c + mc_other c +
     mc_absences c"

definition regular_entry :: "day_entry \<Rightarrow> bool" where
  "regular_entry x \<longleftrightarrow>
     (de_leaveType x = None \<longleftrightarrow> de_leavePortion x = None) \<and>
     (de_leavePortion x = Some Full_day \<longleftrightarrow> ad_status (de_day x) = Day_leave) \<and>
     ad_status (de_day x) \<noteq> Day_holiday"

lemma status_of_day:
  "\<not> ai_holiday i \<Longrightarrow> ad_status (compute_attendance_day i) \<noteq> Day_holiday"
  "\<not> ai_holiday i \<Longrightarrow> ad_status (compute_attendance_day i) = Day_leave \<longleftrightarrow> ai_leave i = Some Full_day"
  by (auto simp: compute_attendance_day_def excused_day_def Let_def)

lemma regular_compute_day: "d \<notin> hs \<Longrightarrow> regular_entry (compute_day hs idx ls ws ks p d)"
  by (auto simp: regular_entry_def compute_day_def Let_def status_of_day)

lemma total_add_leave: "total_days (add_leave_column t x c) = total_days c + x"
  by (cases t) (simp_all add: total_days_def)

lemma total_count_day: "regular_entry x \<Longrightarrow> total_days (count_day c x) = total_days c + 1"
proof -
  assume r: "regular_entry x"
  define w :: rat where "w = (if de_leavePortion x = Some Morning \<or> de_leavePortion x = Some Afternoon then 1 / 2 else 1)"
  define c1 where "c1 = (if ad_status (de_day x) = Day_wfh then c\<lparr>mc_wfh := mc_wfh c + w\<rparr>
      else if ad_status (de_day x) = Day_absent then c\<lparr>mc_absences := mc_absences c + w\<rparr>
      else if ad_status (de_day x) = Day_office then c\<lparr>mc_office := mc_office c + w\<rparr> else c)"
  define c2 where "c2 = (case de_leaveType x of None \<Rightarrow> c1 | Some t \<Rightarrow> add_leave_column t w c1)"
  have "total_days (count_day c x) = total_days c2"
    unfolding count_day_def Let_def w_def [symmetric] c1_def [symmetric] c2_def [symmetric]
    by (simp add: total_days_def)
  also have "\<dots> = total_days c1 + (if de_leaveType x = None then 0 else w)"
    by (simp add: c2_def total_add_leave split: option.split)
  also have "total_days c1 = total_days c + (if ad_status (de_day x) = Day_leave then 0 else w)"
    using r by (cases "ad_status (de_day x)") (simp_all add: c1_def total_days_def regular_entry_def)
  finally show ?thesis
    using r by (cases "de_leavePortion x") (auto simp: w_def regular_entry_def split: leave_day_portion.splits if_splits
        intro: leave_day_portion.exhaust)
qed

lemma total_fold: "\<forall>x \<in> set xs. regular_entry x \<Longrightarrow> total_days (foldl count_day c xs) = total_days c + of_nat (length xs)"
  by (induction xs arbitrary: c) (simp_all add: total_count_day)

lemma minutes_fold: "mc_minutes (foldl count_day c xs) = mc_minutes c + (\<Sum>x\<leftarrow>xs. ad_workedMinutes (de_day x))"
proof (induction xs arbitrary: c)
  case (Cons x xs)
  have "mc_minutes (add_leave_column t w c') = mc_minutes c'" for t w c' by (cases t) simp_all
  then have "mc_minutes (count_day c x) = mc_minutes c + ad_workedMinutes (de_day x)"
    by (auto simp: count_day_def Let_def split: option.split)
  with Cons show ?case by simp
qed simp

text \<open>The monthly summary adds up: for every employee the office, home, leave and absence columns, half days
  counted as halves, sum to the number of days listed, and the minutes are those of the days.\<close>

theorem summary_adds_up:
  assumes "real_month ym" and "e \<in> set (compute_month db ym)"
  shows "total_days (summary_counts e) = of_nat (length (em_days e)) \<and>
    mc_minutes (summary_counts e) = (\<Sum>x\<leftarrow>em_days e. ad_workedMinutes (de_day x))"
proof -
  have "regular_entry x" if "x \<in> set (em_days e)" for x
    using that assms month_bounds_dates(1,2) [OF assms(1)]
    by (auto simp: compute_month_def Let_def set_working_dates_in_range intro!: regular_compute_day)
  then show ?thesis
    by (simp add: summary_counts_def total_fold minutes_fold) (simp add: total_days_def no_counts_def)
qed

theorem summary_adds_up_witness:
  "\<exists>e \<in> set (compute_month ax_db (2026, 6)). em_days e \<noteq> [] \<and> total_days (summary_counts e) = of_nat (length (em_days e))"
proof -
  obtain e x where e: "e \<in> set (compute_month ax_db (2026, 6))" "x \<in> set (em_days e)"
    using ax_month by metis
  then have "em_days e \<noteq> []" by auto
  with e summary_adds_up [of "(2026, 6)" e ax_db] show ?thesis by (auto simp: real_month_def)
qed

text \<open>Two half days of leave on one day, which the overlap rule allows, do not make a day of leave: the derivation
  keeps only the later window, so a day taken off as a morning and an afternoon, both approved, counts
  as half a day of absence and raises the absence flag.\<close>

theorem two_half_days_count_as_absence:
  fixes d :: iso_date
  defines "half portion i \<equiv> \<lparr>lr_id = i, lr_employeeId = ''an'', lr_leaveType = Annual,
      lr_window = \<lparr>startDate = d, endDate = d, startPortion = portion, endPortion = portion\<rparr>, lr_reason = None,
      lr_workingDays = Some (1 / 2), lr_documentStorageKey = None, lr_status = Review_approved,
      lr_reviewerId = None, lr_reviewedAt = None, lr_requestId = None\<rparr>"
  defines "x \<equiv> compute_day {} [] [half Morning ''L1'', half Afternoon ''L2''] [] ({}, {}) ''an'' d"
  shows "ad_status (de_day x) = Day_absent \<and> ad_flags (de_day x) = [Flag_absent] \<and>
    de_leavePortion x = Some Afternoon \<and> mc_absences (count_day no_counts x) = 1 / 2 \<and> mc_annual (count_day no_counts x) = 1 / 2"
proof -
  have "leave_day [half Morning ''L1'', half Afternoon ''L2''] ''an'' d = Some (Afternoon, Annual)"
    by (simp add: leave_day_def leave_window_of_def portion_on_def half_def)
  then show ?thesis
    by (simp add: x_def compute_day_def compute_attendance_day_def Let_def wfh_day_def count_day_def no_counts_def)
qed

section \<open>The working minutes of a day\<close>

text \<open>An office day with two or more swipes and no approved justification credits exactly the minutes between the
  first and the last swipe that are not lunch, up to the length of the day (eight hours, or four beside a
  half day of leave), and its late and early flags are raised by the thresholds of the half that is
  worked.\<close>

theorem office_day_is_measured:
  assumes "\<not> ai_holiday i" and "ai_leave i \<noteq> Some Full_day" and "\<not> ai_wfh i" and "\<not> ai_justified i"
    and "2 \<le> ai_swipeCount i" and "ai_firstIn i = Some a" and "ai_lastOut i = Some b"
  shows "ad_workedMinutes (compute_attendance_day i) =
      min (day_cap (ai_leave i)) (int (card (minutes_at_work (minutes_of a) (minutes_of b)))) \<and>
    (Flag_late \<in> set (ad_flags (compute_attendance_day i)) \<longleftrightarrow> start_threshold (ai_leave i) < minutes_of a) \<and>
    (Flag_early \<in> set (ad_flags (compute_attendance_day i)) \<longleftrightarrow> minutes_of b < end_threshold (ai_leave i))"
  using assms by (auto simp: compute_attendance_day_def Let_def worked_span_eq_card)

theorem office_day_is_measured_witness:
  "ad_workedMinutes (compute_attendance_day
     \<lparr>ai_date = Iso 2026 6 1, ai_unsynced = False, ai_holiday = False, ai_leave = Some Morning, ai_wfh = False,
      ai_justified = False, ai_firstIn = Some (Hm 13 10), ai_lastOut = Some (Hm 16 0), ai_swipeCount = 2\<rparr>) =
   min 240 (int (card (minutes_at_work 790 960)))"
  using office_day_is_measured [of "\<lparr>ai_date = Iso 2026 6 1, ai_unsynced = False, ai_holiday = False,
      ai_leave = Some Morning, ai_wfh = False, ai_justified = False, ai_firstIn = Some (Hm 13 10),
      ai_lastOut = Some (Hm 16 0), ai_swipeCount = 2\<rparr>" "Hm 13 10" "Hm 16 0"]
  by (simp add: minutes_of_def day_cap_def day_constants)

section \<open>Who sees whom\<close>

text \<open>Without the attendance permission a viewer sees themself and their direct reports only, and asking for
  anybody else is refused rather than narrowed.\<close>

theorem month_shows_own_team_only:
  assumes "\<not> may (ac_sub actor) ''workforce.attendance.read''"
    and "compute_month_for may db ym actor employeeId = Inr es" and "e \<in> set es"
  shows "(em_id e = ac_sub actor \<or>
      (\<exists>r \<in> set (at_employees db). ep_id r = em_id e \<and> ep_managerId r = Some (ac_sub actor))) \<and>
    (case employeeId of None \<Rightarrow> True | Some u \<Rightarrow> em_id e = u)"
  using assms
  by (auto simp: compute_month_for_def and_then_eq_Inr scoped_employees_def Let_def split: if_splits option.splits)

definition ax_mai :: actor where
  "ax_mai = \<lparr>ac_sub = ''mai'', ac_email = ''mai''\<rparr>"

theorem month_shows_own_team_only_witness:
  "\<exists>e \<in> set (projr (compute_month_for (\<lambda>u p. False) ax_db (2026, 6) ax_mai None)).
     em_id e = ''mai'' \<or> (\<exists>r \<in> set (at_employees ax_db). ep_id r = em_id e \<and> ep_managerId r = Some ''mai'')"
proof -
  let ?m = "compute_month_for (\<lambda>u p. False) ax_db (2026, 6) ax_mai None"
  have m: "?m = Inr (filter (\<lambda>e. em_id e \<in> {''an''}) (compute_month ax_db (2026, 6)))"
    by (simp add: compute_month_for_def scoped_employees_def ax_db_def ax_mai_def)
  obtain e where "e \<in> set (compute_month ax_db (2026, 6))" "em_id e = ''an''" using ax_month by metis
  with m have e: "e \<in> set (projr ?m)" by simp
  with m month_shows_own_team_only [of "\<lambda>u p. False" ax_mai ax_db "(2026, 6)" None "projr ?m" e]
  show ?thesis by (auto simp: ax_mai_def)
qed

section \<open>The day the sweep reports\<close>

definition working_day :: "(iso_date \<Rightarrow> bool) \<Rightarrow> iso_date \<Rightarrow> bool" where
  "working_day holiday d \<longleftrightarrow> iso_weekday d \<in> set WORKING_WEEKDAYS \<and> \<not> holiday d"

lemma utc_day_range: "0 \<le> utc_day t" "utc_day t \<le> 6"
  using pos_mod_bound [of 7 "t div MS_PER_DAY + 4"] by (simp_all add: utc_day_def)

lemma step_back_stops:
  "1 \<le> k \<Longrightarrow> k \<le> n \<Longrightarrow> working_day holiday (iso_of_day (t - int k)) \<Longrightarrow>
   \<forall>j. 1 \<le> j \<and> j < k \<longrightarrow> \<not> working_day holiday (iso_of_day (t - int j)) \<Longrightarrow>
   step_back n holiday (iso_of_day t) = iso_of_day (t - int k)"
proof (induction n arbitrary: t k)
  case (Suc n)
  have prev: "to_iso_date (parse_iso_date (iso_of_day t) - MS_PER_DAY) = iso_of_day (t - 1)"
    using to_iso_date_of_day [of "t - 1"] by (simp add: parse_iso_date_def left_diff_distrib)
  have work: "working_day holiday (iso_of_day (t - 1)) \<longleftrightarrow>
      \<not> (utc_day (parse_iso_date (iso_of_day (t - 1))) = 0 \<or> utc_day (parse_iso_date (iso_of_day (t - 1))) = 6) \<and>
      \<not> holiday (iso_of_day (t - 1))"
    using utc_day_range [of "parse_iso_date (iso_of_day (t - 1))"]
    by (auto simp: working_day_def iso_weekday_def Let_def WORKING_WEEKDAYS_def)
  show ?case
  proof (cases "k = 1")
    case True
    with Suc.prems(3) work show ?thesis by (simp add: prev Let_def)
  next
    case False
    define k' where "k' = k - 1"
    have k: "k = Suc k'" and k': "1 \<le> k'" "k' \<le> n" using False Suc.prems(1,2) by (simp_all add: k'_def)
    have "\<not> working_day holiday (iso_of_day (t - int 1))" using Suc.prems(4) False Suc.prems(1) by auto
    then have "step_back (Suc n) holiday (iso_of_day t) = step_back n holiday (iso_of_day (t - 1))"
      using work by (auto simp: prev Let_def)
    also have "\<dots> = iso_of_day (t - 1 - int k')"
    proof (rule Suc.IH [OF k'])
      show "working_day holiday (iso_of_day (t - 1 - int k'))" using Suc.prems(3) by (simp add: k algebra_simps)
      show "\<forall>j. 1 \<le> j \<and> j < k' \<longrightarrow> \<not> working_day holiday (iso_of_day (t - 1 - int j))"
      proof (intro allI impI)
        fix j assume "1 \<le> j \<and> j < k'"
        then show "\<not> working_day holiday (iso_of_day (t - 1 - int j))"
          using Suc.prems(4) [rule_format, of "Suc j"] by (simp add: k algebra_simps)
      qed
    qed
    finally show ?thesis by (simp add: k algebra_simps)
  qed
qed simp

text \<open>The morning sweep reports the most recent working day: when one of the last ten days was one, the loop ends
  on it, and every day between it and today was a weekend or a holiday.\<close>

theorem sweep_reports_last_working_day:
  assumes "\<exists>k. 1 \<le> k \<and> k \<le> 10 \<and> working_day holiday (add_days (hcm_date now) (- int k))"
  defines "d \<equiv> previous_working_day now holiday"
  shows "working_day holiday d \<and> d < hcm_date now \<and>
    \<not> (\<exists>d'. valid_date d' \<and> d < d' \<and> d' < hcm_date now \<and> working_day holiday d')"
proof -
  define t where "t = day_of (hcm_date now)"
  have today: "hcm_date now = iso_of_day t" by (simp add: t_def)
  have W: "add_days (hcm_date now) (- int k) = iso_of_day (t - int k)" for k by (simp add: add_days_eq t_def)
  define k where "k = (LEAST k. 1 \<le> k \<and> working_day holiday (iso_of_day (t - int k)))"
  obtain k0 where k0: "1 \<le> k0" "k0 \<le> 10" "working_day holiday (iso_of_day (t - int k0))" using assms(1) W by auto
  have k: "1 \<le> k" "working_day holiday (iso_of_day (t - int k))"
    unfolding k_def by (metis (mono_tags, lifting) LeastI k0(1,3))+
  have k10: "k \<le> 10" unfolding k_def by (rule order_trans [OF Least_le k0(2)]) (use k0(1,3) in simp)
  have least: "\<not> working_day holiday (iso_of_day (t - int j))" if "1 \<le> j" "j < k" for j
    using not_less_Least [OF that(2) [unfolded k_def]] that(1) by simp
  have d: "d = iso_of_day (t - int k)"
    unfolding d_def previous_working_day_def today using k k10 least by (intro step_back_stops) auto
  have "False" if v: "valid_date d'" and lt: "d < d'" "d' < hcm_date now" and w: "working_day holiday d'" for d'
  proof -
    define n where "n = day_of d'"
    have d': "d' = iso_of_day n" using v by (simp add: n_def)
    have "t - int k < n" "n < t" using lt unfolding d today d' by simp_all
    then have "1 \<le> nat (t - n)" "nat (t - n) < k" by auto
    from least [OF this] w show False using \<open>n < t\<close> by (simp add: d')
  qed
  then show ?thesis using k by (auto simp: d today)
qed

theorem sweep_reports_last_working_day_witness:
  "working_day (\<lambda>d. d = Iso 2026 5 29) (previous_working_day (parse_iso_date (Iso 2026 6 1)) (\<lambda>d. d = Iso 2026 5 29)) \<and>
   previous_working_day (parse_iso_date (Iso 2026 6 1)) (\<lambda>d. d = Iso 2026 5 29) < Iso 2026 6 1"
proof -
  have today: "hcm_date (parse_iso_date (Iso 2026 6 1)) = Iso 2026 6 1"
    unfolding hcm_date_eq parse_iso_date_def ax_days
    by (simp add: HCM_UTC_OFFSET_def MS_PER_DAY_def MS_PER_HOUR_def ax_dates)
  have "iso_of_day 20601 = Iso 2026 5 28"
    using iso_of_day_of [of "Iso 2026 5 28"]
    by (simp add: ax_days days_in_month_def month_start_def leap_def del: day_of.simps iso_of_day_of)
  moreover have "valid_date (Iso 2026 6 1)" by (simp add: days_in_month_def month_start_def leap_def)
  ultimately have "add_days (Iso 2026 6 1) (- int 4) = Iso 2026 5 28"
    unfolding add_days_eq [OF \<open>valid_date (Iso 2026 6 1)\<close>] ax_days by simp
  moreover have "iso_weekday (Iso 2026 5 28) = 4" by code_simp
  ultimately have "working_day (\<lambda>d. d = Iso 2026 5 29) (add_days (Iso 2026 6 1) (- int 4))"
    by (simp add: working_day_def WORKING_WEEKDAYS_def)
  then have "\<exists>k. 1 \<le> k \<and> k \<le> 10 \<and> working_day (\<lambda>d. d = Iso 2026 5 29) (add_days (Iso 2026 6 1) (- int k))"
    by (intro exI [of _ 4]) simp
  then show ?thesis
    using sweep_reports_last_working_day [where holiday = "\<lambda>d. d = Iso 2026 5 29" and now = "parse_iso_date (Iso 2026 6 1)"]
    unfolding today by blast
qed

end
