(* ===== verification/Outbox.thy ===== *)
theory Outbox
  imports Prelude
begin

text \<open>
  \<^verbatim>\<open>libs/platform/src/outbox/abstract-outbox-relay.ts\<close>: the relay every transactional outbox shares.
  A pass claims a batch of due rows under a lease (a short transaction that spends the attempt),
  delivers them with no transaction open, and finishes each in a transaction fenced by the lease
  token.

  A row is the record of the lease columns; the four outbox tables extend it with their own. The
  column that gates a retry (\<^verbatim>\<open>scheduled_at\<close> or \<^verbatim>\<open>next_attempt_at\<close>) is \<open>ob_due\<close>. What a
  subclass overrides is a record of functions, \<open>relay_cfg\<close>; \<open>'w\<close> holds the other tables it reads
  and its \<^verbatim>\<open>settle\<close> writes. The database's \<^verbatim>\<open>now()\<close> (the start of the transaction) and
  \<^verbatim>\<open>statement_timestamp()\<close> are arguments, in milliseconds, and so is the fresh lease token. A set of
  row ids stands for the rows that other transactions hold locked, which \<^verbatim>\<open>SKIP LOCKED\<close> passes over.
\<close>

section \<open>Rows and leases\<close>

datatype row_status = Pending | Sent | Delivered | Failed

record outbox_row =
  ob_id :: string
  ob_seq :: int
  ob_status :: row_status
  ob_attempts :: nat
  ob_lastError :: "string option"
  ob_leaseToken :: "nat option"
  ob_lockedUntil :: "int option"
  ob_due :: int
  ob_createdAt :: int
  ob_terminalAt :: "int option"

text \<open>The row as the claim hands it out: \<open>ob_attempts\<close> counts this attempt.\<close>

record 'z claimed =
  cl_row :: "'z outbox_row_scheme"
  cl_token :: nat
  cl_expires :: int

abbreviation cl_id :: "'z claimed \<Rightarrow> string" where
  "cl_id c \<equiv> ob_id (cl_row c)"

abbreviation cl_attempts :: "'z claimed \<Rightarrow> nat" where
  "cl_attempts c \<equiv> ob_attempts (cl_row c)"

text \<open>
  What \<^verbatim>\<open>deliver\<close> and the database may throw. A delay is a number of milliseconds, or \<open>None\<close> for a
  number that is not finite.
\<close>

datatype relay_error =
    NonRetryableError string
  | RetryAfterError string "int option"
  | is_DeferError: DeferError string "int option"
  | OtherError string

fun error_message :: "relay_error \<Rightarrow> string" where
  "error_message (NonRetryableError m) = m"
| "error_message (RetryAfterError m _) = m"
| "error_message (DeferError m _) = m"
| "error_message (OtherError m) = m"

definition MAX_RETRY_AFTER_MS :: int where "MAX_RETRY_AFTER_MS = 60 * 60000"
definition DEFAULT_LEASE_MS :: int where "DEFAULT_LEASE_MS = 2 * 60000"
definition MAX_BATCHES_PER_PASS :: nat where "MAX_BATCHES_PER_PASS = 50"
definition MAX_ATTEMPTS :: nat where "MAX_ATTEMPTS = 5"

definition not_leased :: "int \<Rightarrow> 'z outbox_row_scheme \<Rightarrow> bool" where
  "not_leased now r = (case ob_lockedUntil r of None \<Rightarrow> True | Some u \<Rightarrow> u \<le> now)"

text \<open>What a subclass provides.\<close>

record ('z, 'r, 'w) relay_cfg =
  rc_maxAttempts :: nat
  rc_batchSize :: nat
  rc_leaseMsFor :: "'z outbox_row_scheme \<Rightarrow> int"
  rc_reapFilter :: "'z outbox_row_scheme \<Rightarrow> bool"
  rc_beforeSelect :: "int \<Rightarrow> string set \<Rightarrow> 'z outbox_row_scheme list \<Rightarrow> 'z outbox_row_scheme list"
  rc_selectDue :: "'w \<Rightarrow> nat \<Rightarrow> int \<Rightarrow> string set \<Rightarrow> 'z outbox_row_scheme list \<Rightarrow> 'z outbox_row_scheme list"
  rc_settle :: "'z claimed \<Rightarrow> 'r \<Rightarrow> 'w \<Rightarrow> relay_error + 'w"
  rc_markSent :: "int \<Rightarrow> 'z claimed \<Rightarrow> 'r \<Rightarrow> 'z outbox_row_scheme list \<Rightarrow> 'z outbox_row_scheme list"
  rc_markFailed :: "int \<Rightarrow> 'z claimed \<Rightarrow> row_status \<Rightarrow> string \<Rightarrow> int \<Rightarrow> 'z outbox_row_scheme list \<Rightarrow>
    'z outbox_row_scheme list"

text \<open>The members of the base class a subclass may leave alone.\<close>

definition default_before_select :: "int \<Rightarrow> string set \<Rightarrow> 'a list \<Rightarrow> 'a list" where
  "default_before_select now locked rows = rows"

definition default_settle :: "'z claimed \<Rightarrow> 'r \<Rightarrow> 'w \<Rightarrow> relay_error + 'w" where
  "default_settle c res w = Inr w"

definition default_reap_filter :: "'z outbox_row_scheme \<Rightarrow> bool" where
  "default_reap_filter r = True"

text \<open>
  \<^verbatim>\<open>backoffDelayMs\<close>. An attempt count of 0 does not occur at a claimed row; the code's
  \<^verbatim>\<open>30000 * 2 ** -1\<close> is written out.
\<close>

definition backoff_delay_ms :: "nat \<Rightarrow> int" where
  "backoff_delay_ms newAttempts =
     (if newAttempts = 0 then 15000 else min (30000 * 2 ^ (newAttempts - 1)) (30 * 60000))"

section \<open>The statements\<close>

text \<open>\<^verbatim>\<open>reapAbandoned\<close>: dead-letter the rows whose attempts are spent and whose lease has lapsed.\<close>

definition abandoned :: "('z, 'r, 'w) relay_cfg \<Rightarrow> int \<Rightarrow> 'z outbox_row_scheme \<Rightarrow> bool" where
  "abandoned cfg now r \<longleftrightarrow>
     ob_status r = Pending \<and> rc_maxAttempts cfg \<le> ob_attempts r \<and> not_leased now r \<and> rc_reapFilter cfg r"

definition reap_abandoned ::
    "('z, 'r, 'w) relay_cfg \<Rightarrow> int \<Rightarrow> 'z outbox_row_scheme list \<Rightarrow> 'z outbox_row_scheme list" where
  "reap_abandoned cfg now rows =
     update_where (abandoned cfg now)
       (\<lambda>r. r\<lparr>ob_status := Failed, ob_lastError := Some ''abandoned'', ob_leaseToken := None,
              ob_lockedUntil := None, ob_terminalAt := Some now\<rparr>) rows"

text \<open>
  \<^verbatim>\<open>stampLeases\<close>: the rows with the new attempt counts, or the error when no row was touched. The
  statement runs at \<open>t1\<close>, after any wait of the transaction.
\<close>

definition stamp_leases ::
    "string list \<Rightarrow> nat \<Rightarrow> int \<Rightarrow> int \<Rightarrow> 'z outbox_row_scheme list \<Rightarrow>
     relay_error + 'z outbox_row_scheme list \<times> (string \<rightharpoonup> nat) \<times> int" where
  "stamp_leases ids token holdMs t1 rows =
     (let p = (\<lambda>r. ob_id r \<in> set ids);
          rows' = update_where p
            (\<lambda>r. r\<lparr>ob_attempts := ob_attempts r + 1, ob_leaseToken := Some token,
                   ob_lockedUntil := Some (t1 + holdMs)\<rparr>) rows;
          touched = filter p rows'
      in if touched = [] then Inl (OtherError ''lease stamp touched none of the claimed rows'')
         else Inr (rows', map_of (map (\<lambda>r. (ob_id r, ob_attempts r)) touched), t1 + holdMs))"

text \<open>\<^verbatim>\<open>claim\<close>: the claim transaction; an error rolls it back.\<close>

definition claim_row ::
    "(string \<rightharpoonup> nat) \<Rightarrow> nat \<Rightarrow> int \<Rightarrow> 'z outbox_row_scheme \<Rightarrow> 'z claimed" where
  "claim_row attempts token expires r =
     \<lparr>cl_row = r\<lparr>ob_attempts := (case attempts (ob_id r) of Some n \<Rightarrow> n | None \<Rightarrow> ob_attempts r + 1)\<rparr>,
      cl_token = token, cl_expires = expires\<rparr>"

definition claim ::
    "('z, 'r, 'w) relay_cfg \<Rightarrow> int \<Rightarrow> int \<Rightarrow> nat \<Rightarrow> string set \<Rightarrow> 'w \<Rightarrow> 'z outbox_row_scheme list \<Rightarrow>
     relay_error + 'z outbox_row_scheme list \<times> 'z claimed list" where
  "claim cfg now t1 token locked w rows =
     (let rows1 = reap_abandoned cfg now rows;
          rows2 = rc_beforeSelect cfg now locked rows1;
          due = rc_selectDue cfg w (rc_batchSize cfg) now locked rows2
      in if due = [] then Inr (rows2, [])
         else
           let holdMs = sum_list (map (rc_leaseMsFor cfg) due)
           in and_then (stamp_leases (map ob_id due) token holdMs t1 rows2) (\<lambda>(rows3, attempts, expires).
                Inr (rows3, map (claim_row attempts token expires) due)))"

text \<open>\<^verbatim>\<open>holdsLease\<close>, the fence; \<^verbatim>\<open>renewLease\<close>, whose \<open>None\<close> is a lost lease.\<close>

definition lease_matches :: "'z claimed \<Rightarrow> 'z outbox_row_scheme \<Rightarrow> bool" where
  "lease_matches c r \<longleftrightarrow> ob_id r = cl_id c \<and> ob_leaseToken r = Some (cl_token c)"

definition holds_lease :: "'z claimed \<Rightarrow> 'z outbox_row_scheme list \<Rightarrow> bool" where
  "holds_lease c rows = list_ex (lease_matches c) rows"

definition renew_lease ::
    "('z, 'r, 'w) relay_cfg \<Rightarrow> int \<Rightarrow> 'z claimed \<Rightarrow> 'z outbox_row_scheme list \<Rightarrow>
     ('z outbox_row_scheme list \<times> int) option" where
  "renew_lease cfg t1 c rows =
     (let until = t1 + rc_leaseMsFor cfg (cl_row c)
      in if holds_lease c rows
         then Some (update_where (lease_matches c) (\<lambda>r. r\<lparr>ob_lockedUntil := Some until\<rparr>) rows, until)
         else None)"

definition refund_attempt ::
    "'z claimed \<Rightarrow> 'z outbox_row_scheme list \<Rightarrow> 'z outbox_row_scheme list" where
  "refund_attempt c = update_where (\<lambda>r. ob_id r = cl_id c) (\<lambda>r. r\<lparr>ob_attempts := ob_attempts r - 1\<rparr>)"

definition release_lease ::
    "'z claimed \<Rightarrow> 'z outbox_row_scheme list \<Rightarrow> 'z outbox_row_scheme list" where
  "release_lease c = update_where (\<lambda>r. ob_id r = cl_id c)
     (\<lambda>r. r\<lparr>ob_leaseToken := None, ob_lockedUntil := None\<rparr>)"

text \<open>
  \<^verbatim>\<open>finish\<close>: the fenced transaction. \<open>Inr None\<close> is \<^verbatim>\<open>LEASE_LOST\<close>; an error of the work rolls the
  transaction back.
\<close>

definition finish ::
    "'z claimed \<Rightarrow> ('z outbox_row_scheme list \<Rightarrow> relay_error + 'z outbox_row_scheme list \<times> 'w) \<Rightarrow>
     'z outbox_row_scheme list \<Rightarrow> relay_error + ('z outbox_row_scheme list \<times> 'w) option" where
  "finish c work rows =
     (if \<not> holds_lease c rows then Inr None
      else and_then (work rows) (\<lambda>(rows', w). Inr (Some (release_lease c rows', w))))"

definition finish_sent ::
    "('z, 'r, 'w) relay_cfg \<Rightarrow> int \<Rightarrow> 'z claimed \<Rightarrow> 'r \<Rightarrow> 'z outbox_row_scheme list \<Rightarrow> 'w \<Rightarrow>
     relay_error + ('z outbox_row_scheme list \<times> 'w) option" where
  "finish_sent cfg now c res rows w =
     finish c (\<lambda>rows. and_then (rc_settle cfg c res w) (\<lambda>w'. Inr (rc_markSent cfg now c res rows, w'))) rows"

section \<open>Recording a failure\<close>

text \<open>
  \<^verbatim>\<open>fail\<close> and \<^verbatim>\<open>defer\<close>. The result is the new table, or \<open>None\<close> when the lease was lost.
\<close>

definition clamp_delay :: "int \<Rightarrow> int" where
  "clamp_delay d = min (max d 0) MAX_RETRY_AFTER_MS"

definition defer_delay :: "int option \<Rightarrow> int" where
  "defer_delay d = (case d of Some ms \<Rightarrow> clamp_delay ms | None \<Rightarrow> 5 * 60000)"

definition defer_row ::
    "('z, 'r, 'w) relay_cfg \<Rightarrow> int \<Rightarrow> 'z claimed \<Rightarrow> string \<Rightarrow> int option \<Rightarrow> 'z outbox_row_scheme list \<Rightarrow>
     relay_error + ('z outbox_row_scheme list \<times> unit) option" where
  "defer_row cfg now c message delay rows =
     finish c (\<lambda>rows.
       let rows1 = refund_attempt c rows;
           c' = c\<lparr>cl_row := (cl_row c)\<lparr>ob_attempts := cl_attempts c - 1\<rparr>\<rparr>
       in Inr (rc_markFailed cfg now c' Pending message (defer_delay delay) rows1, ())) rows"

definition failure_status :: "('z, 'r, 'w) relay_cfg \<Rightarrow> 'z claimed \<Rightarrow> relay_error \<Rightarrow> row_status" where
  "failure_status cfg c err =
     (let nonRetryable = (case err of NonRetryableError _ \<Rightarrow> True | _ \<Rightarrow> False)
      in if nonRetryable \<or> rc_maxAttempts cfg \<le> cl_attempts c then Failed else Pending)"

definition failure_delay :: "'z claimed \<Rightarrow> relay_error \<Rightarrow> int" where
  "failure_delay c err =
     (let hinted = (case err of RetryAfterError _ (Some ms) \<Rightarrow> clamp_delay ms | _ \<Rightarrow> 0)
      in max hinted (backoff_delay_ms (cl_attempts c)))"

definition fail_row ::
    "('z, 'r, 'w) relay_cfg \<Rightarrow> int \<Rightarrow> 'z claimed \<Rightarrow> relay_error \<Rightarrow> 'z outbox_row_scheme list \<Rightarrow>
     relay_error + ('z outbox_row_scheme list \<times> unit) option" where
  "fail_row cfg now c err rows =
     (case err of
        DeferError message delay \<Rightarrow> defer_row cfg now c message delay rows
      | _ \<Rightarrow> finish c (\<lambda>rows.
          Inr (rc_markFailed cfg now c (failure_status cfg c err) (error_message err) (failure_delay c err) rows, ()))
          rows)"

end
