(* ===== verification/OutboxRelays.thy ===== *)
theory OutboxRelays
  imports Outbox "HOL-Library.Product_Lexorder" "HOL-Library.List_Lexorder" "HOL-Library.Char_ord"
begin

text \<open>
  The relays built on \<^verbatim>\<open>AbstractOutboxRelay\<close>: notifications, e-mail
  (\<^verbatim>\<open>libs/modules/notifications/src/application\<close>), webhooks (\<^verbatim>\<open>libs/modules/webhooks\<close>) and Graph
  tasks (\<^verbatim>\<open>libs/modules/graph\<close>). Each is its row type (the lease columns and its own) and a
  \<open>relay_cfg\<close>. The external call of a relay (\<^verbatim>\<open>deliver\<close>) is an outcome the step relation of
  \<^verbatim>\<open>OutboxSafety\<close> chooses; what decides that outcome inside the code is modelled here.
\<close>

section \<open>What the relays share\<close>

definition seq_key :: "'z outbox_row_scheme \<Rightarrow> int \<times> string" where
  "seq_key r = (ob_seq r, ob_id r)"

text \<open>\<^verbatim>\<open>orderBy(seq, id).limit(n).for('update', skipLocked)\<close>: a locked row is passed over, not counted.\<close>

definition select_locked ::
    "('z outbox_row_scheme \<Rightarrow> bool) \<Rightarrow> nat \<Rightarrow> string set \<Rightarrow> 'z outbox_row_scheme list \<Rightarrow>
     'z outbox_row_scheme list" where
  "select_locked p n locked rows =
     take n (sort_key seq_key (filter (\<lambda>r. p r \<and> ob_id r \<notin> locked) rows))"

definition due_now :: "nat \<Rightarrow> int \<Rightarrow> 'z outbox_row_scheme \<Rightarrow> bool" where
  "due_now maxAttempts now r \<longleftrightarrow>
     ob_status r = Pending \<and> ob_attempts r < maxAttempts \<and> ob_due r \<le> now \<and> not_leased now r"

definition update_id :: "string \<Rightarrow> ('z outbox_row_scheme \<Rightarrow> 'z outbox_row_scheme) \<Rightarrow>
    'z outbox_row_scheme list \<Rightarrow> 'z outbox_row_scheme list" where
  "update_id i f = update_where (\<lambda>r. ob_id r = i) f"

definition terminal_at :: "row_status \<Rightarrow> int \<Rightarrow> int option" where
  "terminal_at st now = (if st = Failed then Some now else None)"

section \<open>Notifications\<close>

record notification_outbox_row = outbox_row +
  nb_recipientId :: string
  nb_actorId :: "string option"
  nb_type :: string
  nb_resourceId :: "string option"
  nb_idempotencyKey :: "string option"
  nb_dispatchedAt :: "int option"

type_synonym notification_claimed = "unit notification_outbox_row_ext claimed"

text \<open>The names \<^verbatim>\<open>renderNotification\<close> has a template for; any other throws.\<close>

definition NOTIFICATION_TEMPLATE_NAMES :: "string list" where
  "NOTIFICATION_TEMPLATE_NAMES =
     [''access_request.submitted'', ''access_request.approved'', ''asset.assigned'', ''asset.unassigned'',
      ''employee.offboarded'', ''contract.expiring_soon'', ''contract.expired'', ''review.due'',
      ''request.sla_breach'', ''attendance.flags_unresolved'', ''request.delegation_created'',
      ''request.step_ready'', ''request.submitted'', ''request.no_approver'', ''request.approved'',
      ''request.rejected'', ''door.low_battery'', ''door.terminal_offline'']"

record notification_preference =
  np_userId :: string
  np_type :: string
  np_inApp :: bool
  np_email :: bool

record in_app_notification =
  ia_id :: nat
  ia_recipientId :: string
  ia_actorId :: "string option"
  ia_type :: string
  ia_resourceId :: "string option"
  ia_sourceEventId :: "string option"

datatype email_key = NotificationEmail nat | OtherEmailKey string

text \<open>The values \<^verbatim>\<open>EmailSchedulerService.schedule\<close> inserts.\<close>

record queued_email =
  qe_to :: string
  qe_template :: string
  qe_idempotencyKey :: "email_key option"
  qe_recipientId :: "string option"

text \<open>
  The other tables of the notification relay. \<open>nw_nextId\<close> stands for the database's generator of
  primary keys; \<open>nw_emailOf\<close> is the employee's address (\<open>None\<close>: no such employee, \<open>Some []\<close>: none
  recorded).
\<close>

record notification_world =
  nw_prefs :: "notification_preference list"
  nw_inApp :: "in_app_notification list"
  nw_emails :: "queued_email list"
  nw_emailOf :: "string \<Rightarrow> string option"
  nw_nextId :: nat

datatype channel = InApp | Email

definition channel_enabled :: "channel \<Rightarrow> notification_preference \<Rightarrow> bool" where
  "channel_enabled ch p = (case ch of InApp \<Rightarrow> np_inApp p | Email \<Rightarrow> np_email p)"

definition find_for_check ::
    "string \<Rightarrow> string \<Rightarrow> notification_preference list \<Rightarrow> notification_preference list" where
  "find_for_check user type prefs = filter (\<lambda>p. np_userId p = user \<and> np_type p \<in> {type, ''*''}) prefs"

definition is_enabled :: "string \<Rightarrow> string \<Rightarrow> channel \<Rightarrow> notification_preference list \<Rightarrow> bool" where
  "is_enabled user type ch prefs =
     (let rows = find_for_check user type prefs
      in case find (\<lambda>p. np_type p = type) rows of
           Some specific \<Rightarrow> channel_enabled ch specific
         | None \<Rightarrow>
             (case find (\<lambda>p. np_type p = ''*'') rows of
                Some wildcard \<Rightarrow> channel_enabled ch wildcard
              | None \<Rightarrow> True))"

text \<open>\<^verbatim>\<open>EmailSchedulerService.schedule\<close>: insert, on conflict of a key that is not null do nothing.\<close>

definition schedule_email :: "queued_email \<Rightarrow> queued_email list \<Rightarrow> queued_email list" where
  "schedule_email e emails =
     (if qe_idempotencyKey e \<noteq> None \<and> qe_idempotencyKey e \<in> qe_idempotencyKey ` set emails
      then emails else emails @ [e])"

text \<open>\<^verbatim>\<open>NotificationsService.send\<close>: \<open>None\<close> when the source event was delivered before.\<close>

definition send_notification ::
    "in_app_notification \<Rightarrow> notification_world \<Rightarrow> (in_app_notification \<times> notification_world) option" where
  "send_notification input w =
     (if ia_sourceEventId input \<noteq> None \<and> ia_sourceEventId input \<in> ia_sourceEventId ` set (nw_inApp w)
      then None
      else let row = input\<lparr>ia_id := nw_nextId w\<rparr>
           in Some (row, w\<lparr>nw_inApp := nw_inApp w @ [row], nw_nextId := nw_nextId w + 1\<rparr>))"

definition cascade_to_email ::
    "notification_outbox_row \<Rightarrow> nat \<Rightarrow> notification_world \<Rightarrow> notification_world" where
  "cascade_to_email row notificationId w =
     (if \<not> is_enabled (nb_recipientId row) (nb_type row) Email (nw_prefs w) then w
      else case nw_emailOf w (nb_recipientId row) of
             None \<Rightarrow> w
           | Some addr \<Rightarrow>
               if addr = [] then w
               else w\<lparr>nw_emails := schedule_email
                        \<lparr>qe_to = addr, qe_template = ''notification'',
                         qe_idempotencyKey = Some (NotificationEmail notificationId),
                         qe_recipientId = Some (nb_recipientId row)\<rparr> (nw_emails w)\<rparr>)"

definition in_app_input :: "notification_outbox_row \<Rightarrow> in_app_notification" where
  "in_app_input row =
     \<lparr>ia_id = 0, ia_recipientId = nb_recipientId row, ia_actorId = nb_actorId row, ia_type = nb_type row,
      ia_resourceId = nb_resourceId row, ia_sourceEventId = Some (ob_id row)\<rparr>"

definition notification_settle ::
    "notification_claimed \<Rightarrow> unit \<Rightarrow> notification_world \<Rightarrow> relay_error + notification_world" where
  "notification_settle c res w =
     (let row = cl_row c
      in if \<not> is_enabled (nb_recipientId row) (nb_type row) InApp (nw_prefs w) then Inr w
         else if nb_type row \<notin> set NOTIFICATION_TEMPLATE_NAMES then Inl (OtherError ''fn is not a function'')
         else case send_notification (in_app_input row) w of
                None \<Rightarrow> Inr w
              | Some (n, w') \<Rightarrow> Inr (cascade_to_email row (ia_id n) w'))"

definition notification_mark_sent ::
    "int \<Rightarrow> notification_claimed \<Rightarrow> unit \<Rightarrow> notification_outbox_row list \<Rightarrow> notification_outbox_row list" where
  "notification_mark_sent now c res =
     update_id (cl_id c) (\<lambda>r. r\<lparr>ob_status := Sent, nb_dispatchedAt := Some now, ob_terminalAt := Some now\<rparr>)"

definition notification_mark_failed ::
    "int \<Rightarrow> notification_claimed \<Rightarrow> row_status \<Rightarrow> string \<Rightarrow> int \<Rightarrow> notification_outbox_row list \<Rightarrow>
     notification_outbox_row list" where
  "notification_mark_failed now c newStatus lastError delayMs =
     update_id (cl_id c) (\<lambda>r. r\<lparr>ob_status := newStatus, ob_lastError := Some lastError,
       ob_due := now + delayMs, ob_terminalAt := terminal_at newStatus now\<rparr>)"

definition notification_relay ::
    "(unit notification_outbox_row_ext, unit, notification_world) relay_cfg" where
  "notification_relay =
     \<lparr>rc_maxAttempts = MAX_ATTEMPTS, rc_batchSize = 10, rc_leaseMsFor = (\<lambda>_. 60000),
      rc_reapFilter = default_reap_filter, rc_beforeSelect = default_before_select,
      rc_selectDue = (\<lambda>w n now locked. select_locked (due_now MAX_ATTEMPTS now) n locked),
      rc_settle = notification_settle, rc_markSent = notification_mark_sent,
      rc_markFailed = notification_mark_failed\<rparr>"

section \<open>E-mail\<close>

record email_outbox_row = outbox_row +
  eb_to :: string
  eb_template :: string
  eb_idempotencyKey :: "email_key option"
  eb_recipientId :: "string option"
  eb_sentAt :: "int option"
  eb_messageId :: "string option"

type_synonym email_claimed = "unit email_outbox_row_ext claimed"

definition EMAIL_SEND_TIMEOUT_MS :: int where "EMAIL_SEND_TIMEOUT_MS = 30000"
definition EMAIL_LEASE_MARGIN_MS :: int where "EMAIL_LEASE_MARGIN_MS = 60000"

definition email_mark_sent ::
    "int \<Rightarrow> email_claimed \<Rightarrow> string option \<Rightarrow> email_outbox_row list \<Rightarrow> email_outbox_row list" where
  "email_mark_sent now c messageId =
     update_id (cl_id c) (\<lambda>r. r\<lparr>ob_status := Sent, eb_sentAt := Some now, eb_messageId := messageId,
       ob_terminalAt := Some now\<rparr>)"

definition email_mark_failed ::
    "int \<Rightarrow> email_claimed \<Rightarrow> row_status \<Rightarrow> string \<Rightarrow> int \<Rightarrow> email_outbox_row list \<Rightarrow> email_outbox_row list" where
  "email_mark_failed now c newStatus lastError delayMs =
     update_id (cl_id c) (\<lambda>r. r\<lparr>ob_status := newStatus, ob_lastError := Some lastError,
       ob_due := now + delayMs, ob_terminalAt := terminal_at newStatus now\<rparr>)"

definition email_relay :: "(unit email_outbox_row_ext, string option, unit) relay_cfg" where
  "email_relay =
     \<lparr>rc_maxAttempts = MAX_ATTEMPTS, rc_batchSize = 5,
      rc_leaseMsFor = (\<lambda>_. EMAIL_SEND_TIMEOUT_MS + EMAIL_LEASE_MARGIN_MS),
      rc_reapFilter = default_reap_filter, rc_beforeSelect = default_before_select,
      rc_selectDue = (\<lambda>w n now locked. select_locked (due_now MAX_ATTEMPTS now) n locked),
      rc_settle = default_settle, rc_markSent = email_mark_sent, rc_markFailed = email_mark_failed\<rparr>"

section \<open>Webhooks\<close>

record webhook_row = outbox_row +
  wr_subscriptionId :: string
  wr_eventType :: string
  wr_deliveredAt :: "int option"

type_synonym webhook_claimed = "unit webhook_row_ext claimed"

record subscription_row =
  sr_id :: string
  sr_url :: string
  sr_secret :: string
  sr_events :: "string list"
  sr_active :: bool

definition DEFAULT_EXPIRE_PER_CLAIM :: nat where "DEFAULT_EXPIRE_PER_CLAIM = 500"
definition RETRY_DELAYS_SECONDS :: "int list" where "RETRY_DELAYS_SECONDS = [60, 300, 900, 3600]"

text \<open>The age cutoff of a claim: \<^verbatim>\<open>now() - make_interval(hours => maxAgeHours)\<close>.\<close>

definition age_cutoff :: "int \<Rightarrow> int \<Rightarrow> int" where
  "age_cutoff maxAgeHours now = now - maxAgeHours * 3600000"

definition stale_delivery :: "int \<Rightarrow> int \<Rightarrow> webhook_row \<Rightarrow> bool" where
  "stale_delivery maxAgeHours now r \<longleftrightarrow>
     ob_status r = Pending \<and> ob_createdAt r < age_cutoff maxAgeHours now \<and> not_leased now r"

definition webhook_before_select :: "int \<Rightarrow> int \<Rightarrow> string set \<Rightarrow> webhook_row list \<Rightarrow> webhook_row list" where
  "webhook_before_select maxAgeHours now locked rows =
     (let stale = map ob_id
            (select_locked (stale_delivery maxAgeHours now) DEFAULT_EXPIRE_PER_CLAIM locked rows)
      in if stale = [] then rows
         else update_where (\<lambda>r. ob_id r \<in> set stale \<and> ob_status r = Pending)
           (\<lambda>r. r\<lparr>ob_status := Failed, ob_lastError := Some ''expired'', ob_terminalAt := Some now,
                  ob_leaseToken := None, ob_lockedUntil := None\<rparr>) rows)"

definition webhook_select_due ::
    "int \<Rightarrow> subscription_row list \<Rightarrow> nat \<Rightarrow> int \<Rightarrow> string set \<Rightarrow> webhook_row list \<Rightarrow> webhook_row list" where
  "webhook_select_due maxAgeHours subs n now locked =
     select_locked (\<lambda>r. due_now MAX_ATTEMPTS now r \<and> age_cutoff maxAgeHours now \<le> ob_createdAt r \<and>
       list_ex (\<lambda>s. sr_id s = wr_subscriptionId r \<and> sr_active s) subs) n locked"

definition webhook_mark_sent ::
    "int \<Rightarrow> webhook_claimed \<Rightarrow> unit \<Rightarrow> webhook_row list \<Rightarrow> webhook_row list" where
  "webhook_mark_sent now c res =
     update_id (cl_id c) (\<lambda>r. r\<lparr>ob_status := Delivered, wr_deliveredAt := Some now, ob_terminalAt := Some now\<rparr>)"

text \<open>An index below the list (no attempt yet, which a claimed row never has) reads as \<^verbatim>\<open>?? 3600\<close>.\<close>

definition webhook_retry_ms :: "nat \<Rightarrow> int" where
  "webhook_retry_ms attempts =
     (if attempts = 0 then 3600
      else RETRY_DELAYS_SECONDS ! min (attempts - 1) (length RETRY_DELAYS_SECONDS - 1)) * 1000"

definition webhook_mark_failed ::
    "int \<Rightarrow> webhook_claimed \<Rightarrow> row_status \<Rightarrow> string \<Rightarrow> int \<Rightarrow> webhook_row list \<Rightarrow> webhook_row list" where
  "webhook_mark_failed now c newStatus error delayMs =
     update_id (cl_id c) (\<lambda>r. r\<lparr>ob_status := newStatus, ob_lastError := Some (take 2000 error),
       ob_due := (if newStatus = Failed then now else now + webhook_retry_ms (cl_attempts c)),
       ob_terminalAt := terminal_at newStatus now\<rparr>)"

definition webhook_relay ::
    "int \<Rightarrow> (unit webhook_row_ext, unit, subscription_row list) relay_cfg" where
  "webhook_relay maxAgeHours =
     \<lparr>rc_maxAttempts = MAX_ATTEMPTS, rc_batchSize = 5, rc_leaseMsFor = (\<lambda>_. DEFAULT_LEASE_MS),
      rc_reapFilter = default_reap_filter, rc_beforeSelect = webhook_before_select maxAgeHours,
      rc_selectDue = webhook_select_due maxAgeHours, rc_settle = default_settle,
      rc_markSent = webhook_mark_sent, rc_markFailed = webhook_mark_failed\<rparr>"


section \<open>The subscriptions and the manual retry\<close>

text \<open>\<^verbatim>\<open>WebhooksService\<close>. Deleting a subscription deletes its deliveries (the foreign key cascades).\<close>

definition webhook_set_active ::
    "string \<Rightarrow> bool \<Rightarrow> subscription_row list \<Rightarrow> (subscription_row \<times> subscription_row list) result" where
  "webhook_set_active i active subs =
     (let subs' = modify_row sr_id i (\<lambda>s. s\<lparr>sr_active := active\<rparr>) subs
      in case find_row sr_id i subs' of
           None \<Rightarrow> Inl (NotFoundException ''WEBHOOK_NOT_FOUND'')
         | Some s \<Rightarrow> Inr (s, subs'))"

definition webhook_delete ::
    "string \<Rightarrow> subscription_row list \<Rightarrow> webhook_row list \<Rightarrow> subscription_row list \<times> webhook_row list" where
  "webhook_delete i subs rows =
     (filter (\<lambda>s. sr_id s \<noteq> i) subs, filter (\<lambda>r. wr_subscriptionId r \<noteq> i) rows)"

definition list_deliveries :: "string \<Rightarrow> webhook_row list \<Rightarrow> webhook_row list" where
  "list_deliveries subscriptionId rows =
     take 100 (List.rev (sort_key (\<lambda>r. (ob_createdAt r, ob_id r))
       (filter (\<lambda>r. wr_subscriptionId r = subscriptionId) rows)))"

definition retry_delivery :: "int \<Rightarrow> string \<Rightarrow> webhook_row list \<Rightarrow> (webhook_row \<times> webhook_row list) result" where
  "retry_delivery now i rows =
     (let rows' = update_id i (\<lambda>r. r\<lparr>ob_status := Pending, ob_due := now, ob_lastError := None\<rparr>) rows
      in case find_row ob_id i rows' of
           None \<Rightarrow> Inl (NotFoundException ''DELIVERY_NOT_FOUND'')
         | Some r \<Rightarrow> Inr (r, rows'))"

section \<open>Graph tasks\<close>

datatype graph_kind = ACCOUNT_RECONCILE | SHADOW_IT_SCAN | POSTURE_SYNC | OtherKind string

record graph_row = outbox_row +
  gr_kind :: graph_kind
  gr_employeeId :: "string option"
  gr_orderingKey :: "string option"
  gr_dedupeKey :: "graph_kind option"
  gr_sentAt :: "int option"

type_synonym graph_claimed = "unit graph_row_ext claimed"

definition GRAPH_CALL_TIMEOUT_MS :: int where "GRAPH_CALL_TIMEOUT_MS = 30000"
definition LEASE_MARGIN_MS :: int where "LEASE_MARGIN_MS = 60000"
definition MAX_SCAN_PAGES :: int where "MAX_SCAN_PAGES = 100"

fun graph_task_max_calls :: "graph_kind \<Rightarrow> int option" where
  "graph_task_max_calls ACCOUNT_RECONCILE = Some 3"
| "graph_task_max_calls SHADOW_IT_SCAN = Some MAX_SCAN_PAGES"
| "graph_task_max_calls POSTURE_SYNC = Some 2"
| "graph_task_max_calls (OtherKind _) = None"

definition graph_lease_ms :: "graph_kind \<Rightarrow> int" where
  "graph_lease_ms kind =
     (case graph_task_max_calls kind of Some n \<Rightarrow> n | None \<Rightarrow> 3) * GRAPH_CALL_TIMEOUT_MS + LEASE_MARGIN_MS"

fun dedupe_key_for :: "graph_kind \<Rightarrow> graph_kind option" where
  "dedupe_key_for SHADOW_IT_SCAN = Some SHADOW_IT_SCAN"
| "dedupe_key_for POSTURE_SYNC = Some POSTURE_SYNC"
| "dedupe_key_for _ = None"

definition ordering_key_for :: "graph_kind \<Rightarrow> string option \<Rightarrow> string option" where
  "ordering_key_for kind employeeId = (if kind = ACCOUNT_RECONCILE then employeeId else None)"

text \<open>
  \<^verbatim>\<open>GraphTaskQueue.enqueue\<close>: the conflict is the partial unique index on the dedupe key of pending
  rows. The id, the sequence number and the instant are the database's.
\<close>

definition graph_enqueue ::
    "graph_kind \<Rightarrow> string option \<Rightarrow> string \<Rightarrow> int \<Rightarrow> int \<Rightarrow> graph_row list \<Rightarrow> bool \<times> graph_row list" where
  "graph_enqueue kind employeeId newId seq now rows =
     (let dk = dedupe_key_for kind
      in if dk \<noteq> None \<and> list_ex (\<lambda>r. gr_dedupeKey r = dk \<and> ob_status r = Pending) rows then (False, rows)
         else (True, rows @ [\<lparr>ob_id = newId, ob_seq = seq, ob_status = Pending, ob_attempts = 0,
             ob_lastError = None, ob_leaseToken = None, ob_lockedUntil = None, ob_due = now,
             ob_createdAt = now, ob_terminalAt = None, gr_kind = kind, gr_employeeId = employeeId,
             gr_orderingKey = ordering_key_for kind employeeId, gr_dedupeKey = dk, gr_sentAt = None\<rparr>]))"

text \<open>The condition of \<^verbatim>\<open>selectDue\<close> on the other rows of the ordering key.\<close>

definition blocks_key :: "int \<Rightarrow> graph_row \<Rightarrow> graph_row \<Rightarrow> bool" where
  "blocks_key now r other \<longleftrightarrow>
     gr_orderingKey other = gr_orderingKey r \<and> ob_id other \<noteq> ob_id r \<and> ob_status other = Pending \<and>
     (ob_seq other < ob_seq r \<or> ob_leaseToken other \<noteq> None \<and> \<not> not_leased now other)"

definition graph_select_due ::
    "graph_kind list \<Rightarrow> bool \<Rightarrow> nat \<Rightarrow> int \<Rightarrow> string set \<Rightarrow> graph_row list \<Rightarrow> graph_row list" where
  "graph_select_due kinds enabled n now locked rows =
     (if \<not> enabled then []
      else select_locked (\<lambda>r. gr_kind r \<in> set kinds \<and> due_now MAX_ATTEMPTS now r \<and>
             (gr_orderingKey r = None \<or> \<not> list_ex (blocks_key now r) rows)) n locked rows)"

definition graph_mark_sent :: "int \<Rightarrow> graph_claimed \<Rightarrow> unit \<Rightarrow> graph_row list \<Rightarrow> graph_row list" where
  "graph_mark_sent now c res =
     update_id (cl_id c) (\<lambda>r. r\<lparr>ob_status := Sent, gr_sentAt := Some now, ob_lastError := None,
       ob_terminalAt := Some now\<rparr>)"

definition graph_mark_failed ::
    "int \<Rightarrow> graph_claimed \<Rightarrow> row_status \<Rightarrow> string \<Rightarrow> int \<Rightarrow> graph_row list \<Rightarrow> graph_row list" where
  "graph_mark_failed now c newStatus error delayMs =
     update_id (cl_id c) (\<lambda>r. r\<lparr>ob_status := newStatus, ob_lastError := Some (take 2000 error),
       ob_due := now + delayMs, ob_terminalAt := terminal_at newStatus now\<rparr>)"

text \<open>The two concrete relays differ in their kinds and their batch; the other table is the switch.\<close>

definition graph_relay :: "graph_kind list \<Rightarrow> nat \<Rightarrow> (unit graph_row_ext, unit, bool) relay_cfg" where
  "graph_relay kinds batch =
     \<lparr>rc_maxAttempts = MAX_ATTEMPTS, rc_batchSize = batch, rc_leaseMsFor = (\<lambda>r. graph_lease_ms (gr_kind r)),
      rc_reapFilter = (\<lambda>r. gr_kind r \<in> set kinds), rc_beforeSelect = default_before_select,
      rc_selectDue = graph_select_due kinds, rc_settle = default_settle,
      rc_markSent = graph_mark_sent, rc_markFailed = graph_mark_failed\<rparr>"

definition graph_account_relay :: "(unit graph_row_ext, unit, bool) relay_cfg" where
  "graph_account_relay = graph_relay [ACCOUNT_RECONCILE] 3"

definition graph_scan_relay :: "(unit graph_row_ext, unit, bool) relay_cfg" where
  "graph_scan_relay = graph_relay [SHADOW_IT_SCAN, POSTURE_SYNC] 1"


end
