(* ===== verification/OutboxLeases.thy ===== *)
theory OutboxLeases
  imports OutboxRelays
begin

text \<open>
  What the base class relies on from a subclass, as a locale: \<^verbatim>\<open>selectDue\<close> yields due rows of the
  table that nobody holds, \<^verbatim>\<open>beforeSelect\<close> and the two status writes touch only what they may. From
  these laws follows what each transaction of a pass does to a row. The locale is interpreted on
  every relay.
\<close>

section \<open>What a write may do to a row\<close>

text \<open>The identity of a row and its place in the queue.\<close>

definition same_row :: "'z outbox_row_scheme \<Rightarrow> 'z outbox_row_scheme \<Rightarrow> bool" where
  "same_row r r' \<longleftrightarrow> ob_id r' = ob_id r \<and> ob_seq r' = ob_seq r \<and> ob_createdAt r' = ob_createdAt r"

definition same_lease :: "'z outbox_row_scheme \<Rightarrow> 'z outbox_row_scheme \<Rightarrow> bool" where
  "same_lease r r' \<longleftrightarrow> same_row r r' \<and> ob_attempts r' = ob_attempts r \<and>
     ob_leaseToken r' = ob_leaseToken r \<and> ob_lockedUntil r' = ob_lockedUntil r"

definition settled :: "row_status \<Rightarrow> bool" where
  "settled st \<longleftrightarrow> st = Sent \<or> st = Delivered"

definition over_age :: "int option \<Rightarrow> int \<Rightarrow> 'z outbox_row_scheme \<Rightarrow> bool" where
  "over_age maxAge now r = (case maxAge of None \<Rightarrow> False | Some ms \<Rightarrow> ob_createdAt r < now - ms)"

text \<open>Dead-lettered or expired at a claim: an unleased pending row becomes failed.\<close>

definition retired :: "int \<Rightarrow> 'z outbox_row_scheme \<Rightarrow> 'z outbox_row_scheme \<Rightarrow> bool" where
  "retired now r r' \<longleftrightarrow> ob_status r = Pending \<and> not_leased now r \<and> same_row r r' \<and>
     ob_attempts r' = ob_attempts r \<and> ob_status r' = Failed \<and> ob_leaseToken r' = None \<and>
     ob_lockedUntil r' = None \<and> ob_terminalAt r' = Some now"

definition leased :: "nat \<Rightarrow> int \<Rightarrow> 'z outbox_row_scheme \<Rightarrow> 'z outbox_row_scheme \<Rightarrow> bool" where
  "leased token until r r' \<longleftrightarrow> same_row r r' \<and> ob_status r' = ob_status r \<and>
     ob_attempts r' = ob_attempts r + 1 \<and> ob_leaseToken r' = Some token \<and>
     ob_lockedUntil r' = Some until \<and> ob_terminalAt r' = ob_terminalAt r"

text \<open>What a claim may do to a row: nothing, retire it, or lease it.\<close>

definition claim_effect ::
    "int option \<Rightarrow> int \<Rightarrow> nat \<Rightarrow> int \<Rightarrow> 'z outbox_row_scheme \<Rightarrow> 'z outbox_row_scheme \<Rightarrow> bool" where
  "claim_effect max_age now token until r r' \<longleftrightarrow>
     r' = r \<or>
     retired now r r' \<and> (MAX_ATTEMPTS \<le> ob_attempts r \<or> over_age max_age now r) \<or>
     leased token until r r' \<and> due_now MAX_ATTEMPTS now r \<and> \<not> over_age max_age now r"

text \<open>The finishing transactions: the row the fence matched is released, any other row is left alone.\<close>

definition sent_effect ::
    "int \<Rightarrow> 'z claimed \<Rightarrow> 'z outbox_row_scheme \<Rightarrow> 'z outbox_row_scheme \<Rightarrow> bool" where
  "sent_effect now c r r' \<longleftrightarrow>
     (if lease_matches c r
      then same_row r r' \<and> ob_leaseToken r' = None \<and> ob_lockedUntil r' = None \<and>
        ob_attempts r' = ob_attempts r \<and> settled (ob_status r') \<and> ob_terminalAt r' = Some now
      else r' = r)"

definition fail_effect ::
    "('z, 'r, 'w) relay_cfg \<Rightarrow> int \<Rightarrow> 'z claimed \<Rightarrow> relay_error \<Rightarrow> 'z outbox_row_scheme \<Rightarrow>
     'z outbox_row_scheme \<Rightarrow> bool" where
  "fail_effect cfg now c err r r' \<longleftrightarrow>
     (if lease_matches c r
      then same_row r r' \<and> ob_leaseToken r' = None \<and> ob_lockedUntil r' = None \<and>
        (if is_DeferError err
         then ob_attempts r' = ob_attempts r - 1 \<and> ob_status r' = Pending \<and> ob_terminalAt r' = None
         else ob_attempts r' = ob_attempts r \<and> ob_status r' = failure_status cfg c err \<and>
           ob_terminalAt r' = terminal_at (failure_status cfg c err) now)
      else r' = r)"

named_theorems row_change

lemmas [row_change] = same_row_def same_lease_def retired_def leased_def

lemma claim_effect_same: "claim_effect max_age now token until r r' \<Longrightarrow> same_row r r'"
  unfolding claim_effect_def by (elim disjE conjE) (simp_all add: row_change)

lemma list_all2_mono_in:
  "list_all2 P xs ys \<Longrightarrow> (\<And>x y. x \<in> set xs \<Longrightarrow> P x y \<Longrightarrow> Q x y) \<Longrightarrow> list_all2 Q xs ys"
  by (induction rule: list_all2_induct) auto

lemma list_all2_right: "list_all2 P xs ys \<Longrightarrow> y \<in> set ys \<Longrightarrow> \<exists>x \<in> set xs. P x y"
  by (induction rule: list_all2_induct) auto

lemma list_all2_left: "list_all2 P xs ys \<Longrightarrow> x \<in> set xs \<Longrightarrow> \<exists>y \<in> set ys. P x y"
  by (induction rule: list_all2_induct) auto

lemma list_all2_map_eq: "list_all2 P xs ys \<Longrightarrow> (\<And>x y. P x y \<Longrightarrow> f y = f x) \<Longrightarrow> map f ys = map f xs"
  by (induction rule: list_all2_induct) auto

lemma list_all2_update_where:
  "list_all2 (\<lambda>r r'. r' = (if p r then f r else r)) rows (update_where p f rows)"
  by (induction rows) auto

lemma list_all2_then:
  "list_all2 P xs ys \<Longrightarrow> list_all2 Q ys zs \<Longrightarrow> (\<And>x y z. P x y \<Longrightarrow> Q y z \<Longrightarrow> R x z) \<Longrightarrow> list_all2 R xs zs"
  by (blast intro: list_all2_trans)

section \<open>The contract of a relay\<close>

locale outbox_relay =
  fixes cfg :: "('z, 'r, 'w) relay_cfg"
    and max_age :: "int option"
  assumes max_attempts: "rc_maxAttempts cfg = MAX_ATTEMPTS"
    and lease_positive: "0 < rc_leaseMsFor cfg r"
    and before_select:
      "distinct (map ob_id rows) \<Longrightarrow>
       list_all2 (\<lambda>r r'. r' = r \<or> retired now r r' \<and> over_age max_age now r) rows
         (rc_beforeSelect cfg now locked rows)"
    and select_due:
      "r \<in> set (rc_selectDue cfg w n now locked rows) \<Longrightarrow>
       r \<in> set rows \<and> due_now MAX_ATTEMPTS now r \<and> ob_id r \<notin> locked \<and> \<not> over_age max_age now r"
    and select_distinct:
      "distinct (map ob_id rows) \<Longrightarrow> distinct (map ob_id (rc_selectDue cfg w n now locked rows))"
    and select_limit: "List.length (rc_selectDue cfg w n now locked rows) \<le> n"
    and mark_sent:
      "list_all2 (\<lambda>r r'. if ob_id r = cl_id c
          then same_lease r r' \<and> settled (ob_status r') \<and> ob_terminalAt r' = Some now else r' = r)
         rows (rc_markSent cfg now c res rows)"
    and mark_failed:
      "list_all2 (\<lambda>r r'. if ob_id r = cl_id c
          then same_lease r r' \<and> ob_status r' = st \<and> ob_terminalAt r' = terminal_at st now else r' = r)
         rows (rc_markFailed cfg now c st msg d rows)"
begin

lemma reaped:
  "list_all2 (\<lambda>r r'. r' = r \<or> retired now r r' \<and> MAX_ATTEMPTS \<le> ob_attempts r) rows
     (reap_abandoned cfg now rows)"
  unfolding reap_abandoned_def
  by (rule list_all2_mono [OF list_all2_update_where])
     (auto simp: abandoned_def max_attempts row_change split: if_splits)

lemma reaped_none_left:
  "r \<in> set (reap_abandoned cfg now rows) \<Longrightarrow> \<not> abandoned cfg now r"
  by (auto simp: reap_abandoned_def set_update_where abandoned_def)

lemma prepared:
  assumes "distinct (map ob_id rows)"
  shows "list_all2 (\<lambda>r r'. r' = r \<or> retired now r r' \<and> (MAX_ATTEMPTS \<le> ob_attempts r \<or> over_age max_age now r))
     rows (rc_beforeSelect cfg now locked (reap_abandoned cfg now rows))"
proof -
  have ids: "map ob_id (reap_abandoned cfg now rows) = map ob_id rows"
    by (rule list_all2_map_eq [OF reaped]) (auto simp: row_change)
  then have "distinct (map ob_id (reap_abandoned cfg now rows))"
    using assms by simp
  then show ?thesis
    by (intro list_all2_then [OF reaped before_select]) (auto simp: row_change)
qed

text \<open>The claim transaction, row by row, and the batch it hands out.\<close>

lemma claim_idle:
  assumes "claim cfg now t1 token locked w rows = Inr (rows', [])"
  shows "rows' = rc_beforeSelect cfg now locked (reap_abandoned cfg now rows)"
  using assms by (auto simp: claim_def Let_def result_simps split: if_splits)

lemma claim_batch:
  assumes claim: "claim cfg now t1 token locked w rows = Inr (rows', batch)"
    and ids: "distinct (map ob_id rows)"
  obtains rows2 due where
    "rows2 = rc_beforeSelect cfg now locked (reap_abandoned cfg now rows)"
    "due = rc_selectDue cfg w (rc_batchSize cfg) now locked rows2"
    "map ob_id rows2 = map ob_id rows"
    "rows' = (if due = [] then rows2 else update_where (\<lambda>r. ob_id r \<in> ob_id ` set due)
       (\<lambda>r. r\<lparr>ob_attempts := ob_attempts r + 1, ob_leaseToken := Some token,
              ob_lockedUntil := Some (t1 + sum_list (map (rc_leaseMsFor cfg) due))\<rparr>) rows2)"
    "batch = map (\<lambda>r. \<lparr>cl_row = r\<lparr>ob_attempts := ob_attempts r + 1\<rparr>, cl_token = token,
       cl_expires = t1 + sum_list (map (rc_leaseMsFor cfg) due)\<rparr>) due"
proof -
  define rows2 where "rows2 = rc_beforeSelect cfg now locked (reap_abandoned cfg now rows)"
  define due where "due = rc_selectDue cfg w (rc_batchSize cfg) now locked rows2"
  define hold where "hold = sum_list (map (rc_leaseMsFor cfg) due)"
  define stamp :: "'z outbox_row_scheme \<Rightarrow> 'z outbox_row_scheme" where
    "stamp = (\<lambda>r. r\<lparr>ob_attempts := ob_attempts r + 1, ob_leaseToken := Some token, ob_lockedUntil := Some (t1 + hold)\<rparr>)"
  define touched where "touched = filter (\<lambda>r. ob_id r \<in> ob_id ` set due)
    (update_where (\<lambda>r. ob_id r \<in> ob_id ` set due) stamp rows2)"
  have same: "map ob_id rows2 = map ob_id rows"
    unfolding rows2_def by (rule list_all2_map_eq [OF prepared [OF ids]]) (auto simp: row_change)
  have member: "r \<in> set rows2" if "r \<in> set due" for r
    using select_due [of r w "rc_batchSize cfg" now locked rows2] that by (simp add: due_def)
  have in_touched: "stamp r \<in> set touched" if "r \<in> set due" for r
    using that member by (force simp: touched_def set_update_where stamp_def)
  have "distinct (map ob_id touched)"
    using ids same unfolding touched_def
    by (metis (no_types, lifting) distinct_map_filter map_key_update_where stamp_def outbox_row.select_convs(1)
        outbox_row.surjective outbox_row.update_convs)
  then have "distinct (map fst (map (\<lambda>r. (ob_id r, ob_attempts r)) touched))"
    by (simp add: comp_def)
  moreover have "(ob_id r, ob_attempts r + 1) \<in> set (map (\<lambda>r. (ob_id r, ob_attempts r)) touched)"
    if "r \<in> set due" for r
    using imageI [OF in_touched [OF that], of "\<lambda>r. (ob_id r, ob_attempts r)"] by (simp add: stamp_def)
  ultimately have attempts: "map_of (map (\<lambda>r. (ob_id r, ob_attempts r)) touched) (ob_id r) = Some (ob_attempts r + 1)"
    if "r \<in> set due" for r
    using that by (intro map_of_is_SomeI)
  have rows': "rows' = (if due = [] then rows2 else update_where (\<lambda>r. ob_id r \<in> ob_id ` set due) stamp rows2)"
    using claim by (auto simp: claim_def Let_def stamp_leases_def result_simps rows2_def due_def
      hold_def stamp_def split: if_splits)
  have batch: "batch = map (claim_row (map_of (map (\<lambda>r. (ob_id r, ob_attempts r)) touched)) token (t1 + hold)) due"
    using claim by (auto simp: claim_def Let_def stamp_leases_def result_simps rows2_def due_def
      hold_def stamp_def touched_def split: if_splits)
  show thesis
    by (rule that [OF rows2_def due_def same])
      (use rows' batch attempts in \<open>auto simp: stamp_def hold_def claim_row_def cong: map_cong\<close>)
qed

lemma claim_effects:
  assumes claim: "claim cfg now t1 token locked w rows = Inr (rows', batch)"
    and ids: "distinct (map ob_id rows)"
  obtains until where
    "batch \<noteq> [] \<longrightarrow> t1 < until"
    "list_all2 (claim_effect max_age now token until) rows rows'"
    "distinct (map cl_id batch)"
    "List.length batch \<le> rc_batchSize cfg"
    "\<forall>c \<in> set batch. cl_token c = token \<and> cl_expires c = until \<and>
       \<not> over_age max_age now (cl_row c) \<and> ob_status (cl_row c) = Pending \<and>
       (\<exists>r' \<in> set rows'. ob_id r' = cl_id c \<and> ob_leaseToken r' = Some token \<and>
          ob_lockedUntil r' = Some until \<and> ob_attempts r' = cl_attempts c)"
proof -
  obtain rows2 due where rows2: "rows2 = rc_beforeSelect cfg now locked (reap_abandoned cfg now rows)"
    and due: "due = rc_selectDue cfg w (rc_batchSize cfg) now locked rows2"
    and same: "map ob_id rows2 = map ob_id rows"
    and rows': "rows' = (if due = [] then rows2 else update_where (\<lambda>r. ob_id r \<in> ob_id ` set due)
       (\<lambda>r. r\<lparr>ob_attempts := ob_attempts r + 1, ob_leaseToken := Some token,
              ob_lockedUntil := Some (t1 + sum_list (map (rc_leaseMsFor cfg) due))\<rparr>) rows2)"
    and batch: "batch = map (\<lambda>r. \<lparr>cl_row = r\<lparr>ob_attempts := ob_attempts r + 1\<rparr>, cl_token = token,
       cl_expires = t1 + sum_list (map (rc_leaseMsFor cfg) due)\<rparr>) due"
    by (rule claim_batch [OF claim ids])
  define until where "until = t1 + sum_list (map (rc_leaseMsFor cfg) due)"
  define stamp :: "'z outbox_row_scheme \<Rightarrow> 'z outbox_row_scheme" where
    "stamp = (\<lambda>r. r\<lparr>ob_attempts := ob_attempts r + 1, ob_leaseToken := Some token, ob_lockedUntil := Some until\<rparr>)"
  have is_due: "r \<in> set rows2" "due_now MAX_ATTEMPTS now r" "\<not> over_age max_age now r" if "r \<in> set due" for r
    using select_due [of r w "rc_batchSize cfg" now locked rows2] that by (auto simp: due)
  have unique: "r = r2" if "r \<in> set due" "r2 \<in> set rows2" "ob_id r = ob_id r2" for r r2
    using that is_due(1) ids same by (metis distinct_map inj_on_eq_iff)
  have stamp_due: "r \<in> set due" if "ob_id r \<in> ob_id ` set due" "r \<in> set rows2" for r
    using that unique by (metis imageE)
  have stamped: "list_all2 (\<lambda>r r'. r' = r \<or> (r \<in> set due \<and> r' = stamp r)) rows2 rows'"
    unfolding rows' until_def [symmetric] stamp_def [symmetric]
  proof (cases "due = []")
    case False
    have "list_all2 (\<lambda>r r'. r' = r \<or> (r \<in> set due \<and> r' = stamp r)) rows2
        (update_where (\<lambda>r. ob_id r \<in> ob_id ` set due) stamp rows2)"
      by (rule list_all2_mono_in [OF list_all2_update_where]) (metis stamp_due)
    with False show "list_all2 (\<lambda>r r'. r' = r \<or> (r \<in> set due \<and> r' = stamp r)) rows2
        (if due = [] then rows2 else update_where (\<lambda>r. ob_id r \<in> ob_id ` set due) stamp rows2)"
      by simp
  qed (simp add: list.rel_refl)
  show thesis
  proof (rule that [of until])
    show "batch \<noteq> [] \<longrightarrow> t1 < until"
      unfolding until_def batch using lease_positive
      by (cases due) (auto intro!: add_pos_nonneg sum_list_nonneg simp: less_imp_le)
  next
    show "list_all2 (claim_effect max_age now token until) rows rows'"
    proof (rule list_all2_then [OF prepared [OF ids] stamped [unfolded rows2]])
      fix r r2 r'
      assume r2: "r2 = r \<or> retired now r r2 \<and> (MAX_ATTEMPTS \<le> ob_attempts r \<or> over_age max_age now r)"
        and r': "r' = r2 \<or> r2 \<in> set due \<and> r' = stamp r2"
      show "claim_effect max_age now token until r r'"
      proof (cases "r' = r2")
        case False
        then have "r2 \<in> set due" and stamp: "r' = stamp r2" using r' by auto
        then have "due_now MAX_ATTEMPTS now r2" "\<not> over_age max_age now r2" by (simp_all add: is_due)
        moreover from this have "r2 = r" using r2 by (auto simp: retired_def due_now_def)
        ultimately show ?thesis by (simp add: claim_effect_def stamp stamp_def leased_def same_row_def)
      qed (use r2 in \<open>auto simp: claim_effect_def\<close>)
    qed
  next
    show "distinct (map cl_id batch)"
      using select_distinct [of rows2] ids same by (simp add: batch due comp_def)
    show "List.length batch \<le> rc_batchSize cfg"
      by (simp add: batch due select_limit)
  next
   show "\<forall>c \<in> set batch. cl_token c = token \<and> cl_expires c = until \<and>
       \<not> over_age max_age now (cl_row c) \<and> ob_status (cl_row c) = Pending \<and>
       (\<exists>r' \<in> set rows'. ob_id r' = cl_id c \<and> ob_leaseToken r' = Some token \<and>
          ob_lockedUntil r' = Some until \<and> ob_attempts r' = cl_attempts c)"
   proof
    fix c assume "c \<in> set batch"
    then obtain r where r: "r \<in> set due" and c: "c = \<lparr>cl_row = r\<lparr>ob_attempts := ob_attempts r + 1\<rparr>, cl_token = token,
       cl_expires = until\<rparr>"
      by (auto simp: batch until_def)
    have "stamp r \<in> set rows'"
      using r is_due(1) [OF r] unfolding rows' until_def [symmetric] stamp_def [symmetric]
      by (auto simp: set_update_where)
    with c show "cl_token c = token \<and> cl_expires c = until \<and>
       \<not> over_age max_age now (cl_row c) \<and> ob_status (cl_row c) = Pending \<and>
       (\<exists>r' \<in> set rows'. ob_id r' = cl_id c \<and> ob_leaseToken r' = Some token \<and>
          ob_lockedUntil r' = Some until \<and> ob_attempts r' = cl_attempts c)"
      using is_due [OF r]
      by (auto simp: stamp_def over_age_def due_now_def split: option.splits intro!: bexI [of _ "stamp r"])
   qed
  qed
qed

text \<open>The other transactions of a pass.\<close>

lemma renew_effects:
  assumes "renew_lease cfg t1 c rows = Some (rows', until)"
  shows "t1 < until"
    and "list_all2 (\<lambda>r r'. r' = (if lease_matches c r then r\<lparr>ob_lockedUntil := Some until\<rparr> else r)) rows rows'"
  using assms lease_positive [of "cl_row c"] list_all2_update_where
  by (auto simp: renew_lease_def Let_def split: if_splits)

lemma finish_effects:
  assumes fin: "finish c work rows = Inr (Some (rows', w'))"
    and ids: "distinct (map ob_id rows)"
    and work: "\<And>rows1 w1. work rows = Inr (rows1, w1) \<Longrightarrow>
       list_all2 (\<lambda>r r'. if ob_id r = cl_id c
          then same_row r r' \<and> Q (ob_attempts r) (ob_attempts r') (ob_status r') (ob_terminalAt r')
          else r' = r) rows rows1"
  shows "list_all2 (\<lambda>r r'. if lease_matches c r
          then same_row r r' \<and> ob_leaseToken r' = None \<and> ob_lockedUntil r' = None \<and>
            Q (ob_attempts r) (ob_attempts r') (ob_status r') (ob_terminalAt r')
          else r' = r) rows rows'"
    and "\<exists>r \<in> set rows. lease_matches c r"
proof -
  obtain rows1 where held: "holds_lease c rows" and did: "work rows = Inr (rows1, w')"
    and rows': "rows' = release_lease c rows1"
    using fin by (auto simp: finish_def result_simps split: if_splits)
  then show "\<exists>r \<in> set rows. lease_matches c r"
    by (auto simp: holds_lease_def list_ex_iff)
  then have same: "lease_matches c r \<longleftrightarrow> ob_id r = cl_id c" if "r \<in> set rows" for r
    using ids that by (metis distinct_map inj_on_eq_iff lease_matches_def)
  have "list_all2 (\<lambda>r r'. if ob_id r = cl_id c
          then same_row r r' \<and> ob_leaseToken r' = None \<and> ob_lockedUntil r' = None \<and>
            Q (ob_attempts r) (ob_attempts r') (ob_status r') (ob_terminalAt r')
          else r' = r) rows rows'"
    unfolding rows' release_lease_def
    by (rule list_all2_then [OF work [OF did] list_all2_update_where])
       (auto simp: row_change split: if_splits)
  then show "list_all2 (\<lambda>r r'. if lease_matches c r
          then same_row r r' \<and> ob_leaseToken r' = None \<and> ob_lockedUntil r' = None \<and>
            Q (ob_attempts r) (ob_attempts r') (ob_status r') (ob_terminalAt r')
          else r' = r) rows rows'"
    by (rule list_all2_mono_in) (simp add: same)
qed

lemma sent_effects:
  assumes fin: "finish_sent cfg now c res rows w = Inr (Some (rows', w'))"
    and ids: "distinct (map ob_id rows)"
  shows "list_all2 (sent_effect now c) rows rows'"
    and "\<exists>r \<in> set rows. lease_matches c r"
    and "rc_settle cfg c res w = Inr w'"
proof -
  note fx = finish_effects [OF fin [unfolded finish_sent_def] ids,
      where Q = "\<lambda>a a' st t. a' = a \<and> settled st \<and> t = Some now"]
  have *: "list_all2 (\<lambda>r r'. if ob_id r = cl_id c
        then same_row r r' \<and> ob_attempts r' = ob_attempts r \<and> settled (ob_status r') \<and> ob_terminalAt r' = Some now
        else r' = r) rows rows1"
    if "and_then (rc_settle cfg c res w) (\<lambda>w'. Inr (rc_markSent cfg now c res rows, w')) = Inr (rows1, w1)"
    for rows1 w1
    using that by (auto simp: result_simps same_lease_def intro!: list_all2_mono [OF mark_sent] split: if_splits)
  show "list_all2 (sent_effect now c) rows rows'"
    unfolding sent_effect_def conj_assoc by (rule fx(1)) (rule *)
  show "\<exists>r \<in> set rows. lease_matches c r"
    by (rule fx(2)) (rule *)
  show "rc_settle cfg c res w = Inr w'"
    using fin by (auto simp: finish_sent_def finish_def result_simps split: if_splits)
qed

text \<open>The outcome of a recorded failure: the new status, and whether the attempt was refunded.\<close>

lemma fail_effects:
  assumes fin: "fail_row cfg now c err rows = Inr (Some (rows', u))"
    and ids: "distinct (map ob_id rows)"
  shows "list_all2 (fail_effect cfg now c err) rows rows'"
    and "\<exists>r \<in> set rows. lease_matches c r"
proof -
  have *: "list_all2 (\<lambda>r r'. if ob_id r = cl_id c
        then same_row r r' \<and> ob_attempts r' = ob_attempts r \<and> ob_status r' = st \<and> ob_terminalAt r' = terminal_at st now
        else r' = r) rows (rc_markFailed cfg now c st msg d rows)" for st msg d rows
    by (rule list_all2_mono [OF mark_failed]) (auto simp: same_lease_def split: if_splits)
  have deferred: "list_all2 (\<lambda>r r'. if ob_id r = cl_id c
        then same_row r r' \<and> ob_attempts r' = ob_attempts r - 1 \<and> ob_status r' = Pending \<and> ob_terminalAt r' = None
        else r' = r) rows
        (rc_markFailed cfg now (c\<lparr>cl_row := (cl_row c)\<lparr>ob_attempts := cl_attempts c - 1\<rparr>\<rparr>) Pending msg d
          (refund_attempt c rows))" for msg d
    unfolding refund_attempt_def
    by (rule list_all2_then [OF list_all2_update_where mark_failed])
       (auto simp: row_change terminal_at_def split: if_splits)
  have both: "list_all2 (\<lambda>r r'. if lease_matches c r
          then same_row r r' \<and> ob_leaseToken r' = None \<and> ob_lockedUntil r' = None \<and>
            Q (ob_attempts r) (ob_attempts r') (ob_status r') (ob_terminalAt r')
          else r' = r) rows rows' \<and> (\<exists>r \<in> set rows. lease_matches c r)"
    if "finish c (\<lambda>rows. Inr (g rows, ())) rows = Inr (Some (rows', u))"
      and "list_all2 (\<lambda>r r'. if ob_id r = cl_id c
          then same_row r r' \<and> Q (ob_attempts r) (ob_attempts r') (ob_status r') (ob_terminalAt r')
          else r' = r) rows (g rows)" for g Q
    using finish_effects [OF that(1) ids, where Q = Q] that(2) by blast
  have "list_all2 (fail_effect cfg now c err) rows rows' \<and> (\<exists>r \<in> set rows. lease_matches c r)"
  proof (cases "is_DeferError err")
    case True
    then obtain m d where err: "err = DeferError m d" by (cases err) auto
    have fin': "finish c (\<lambda>rows. Inr (rc_markFailed cfg now
        (c\<lparr>cl_row := (cl_row c)\<lparr>ob_attempts := cl_attempts c - 1\<rparr>\<rparr>) Pending m (defer_delay d)
        (refund_attempt c rows), ())) rows = Inr (Some (rows', u))"
      using fin by (simp add: err fail_row_def defer_row_def Let_def)
    have "fail_effect cfg now c err = (\<lambda>r r'. if lease_matches c r
        then same_row r r' \<and> ob_leaseToken r' = None \<and> ob_lockedUntil r' = None \<and>
          ob_attempts r' = ob_attempts r - 1 \<and> ob_status r' = Pending \<and> ob_terminalAt r' = None
        else r' = r)"
      by (simp add: fun_eq_iff fail_effect_def True)
    then show ?thesis
      using both [OF fin', where Q = "\<lambda>a a' st t. a' = a - 1 \<and> st = Pending \<and> t = None", OF deferred] by (simp only:)
  next
    case False
    then have fin': "finish c (\<lambda>rows. Inr (rc_markFailed cfg now c (failure_status cfg c err) (error_message err)
        (failure_delay c err) rows, ())) rows = Inr (Some (rows', u))"
      using fin by (cases err) (simp_all add: fail_row_def)
    have "fail_effect cfg now c err = (\<lambda>r r'. if lease_matches c r
        then same_row r r' \<and> ob_leaseToken r' = None \<and> ob_lockedUntil r' = None \<and>
          ob_attempts r' = ob_attempts r \<and> ob_status r' = failure_status cfg c err \<and> ob_terminalAt r' = terminal_at (failure_status cfg c err) now
        else r' = r)"
      by (simp add: fun_eq_iff fail_effect_def False)
    then show ?thesis
      using both [OF fin', where Q = "\<lambda>a a' st t. a' = a \<and> st = failure_status cfg c err \<and> t = terminal_at (failure_status cfg c err) now", OF *] by (simp only:)
  qed
  then show "list_all2 (fail_effect cfg now c err) rows rows'" and "\<exists>r \<in> set rows. lease_matches c r"
    by simp_all
qed

end

section \<open>The relays keep the contract\<close>

lemma select_locked_member:
  "r \<in> set (select_locked p n locked rows) \<Longrightarrow> r \<in> set rows \<and> p r \<and> ob_id r \<notin> locked"
  unfolding select_locked_def by (drule in_set_takeD) auto

lemma select_locked_distinct:
  "distinct (map ob_id rows) \<Longrightarrow> distinct (map ob_id (select_locked p n locked rows))"
  by (simp add: select_locked_def take_map [symmetric] distinct_map inj_on_def)

lemma select_locked_limit: "List.length (select_locked p n locked rows) \<le> n"
  by (simp add: select_locked_def)

lemmas select_locked_rules = select_locked_member select_locked_distinct select_locked_limit

lemma update_id_change:
  "(\<And>r. P r (f r)) \<Longrightarrow> list_all2 (\<lambda>r r'. if ob_id r = i then P r r' else r' = r) rows (update_id i f rows)"
  unfolding update_id_def by (rule list_all2_mono [OF list_all2_update_where]) (auto split: if_splits)

lemmas relay_marks =
  notification_mark_sent_def notification_mark_failed_def email_mark_sent_def email_mark_failed_def
  webhook_mark_sent_def webhook_mark_failed_def graph_mark_sent_def graph_mark_failed_def

lemmas relay_constants = MAX_ATTEMPTS_def DEFAULT_LEASE_MS_def EMAIL_SEND_TIMEOUT_MS_def
  EMAIL_LEASE_MARGIN_MS_def GRAPH_CALL_TIMEOUT_MS_def LEASE_MARGIN_MS_def MAX_SCAN_PAGES_def

lemma default_before_unchanged:
  "list_all2 (\<lambda>r r'. r' = r \<or> P r r') rows (default_before_select now locked rows)"
  by (simp add: default_before_select_def list.rel_refl)

lemma graph_lease_positive: "0 < graph_lease_ms k"
  by (cases k) (simp_all add: graph_lease_ms_def relay_constants)

interpretation notification_contract: outbox_relay notification_relay None
  by (unfold_locales; unfold notification_relay_def relay_cfg.select_convs relay_marks;
      (rule default_before_unchanged update_id_change)?;
      (auto simp: relay_constants row_change settled_def over_age_def dest!: select_locked_member
         intro: select_locked_distinct select_locked_limit split: if_splits)?)

interpretation email_contract: outbox_relay email_relay None
  by (unfold_locales; unfold email_relay_def relay_cfg.select_convs relay_marks;
      (rule default_before_unchanged update_id_change)?;
      (auto simp: relay_constants row_change settled_def over_age_def dest!: select_locked_member
         intro: select_locked_distinct select_locked_limit split: if_splits)?)

lemma webhook_expires:
  assumes ids: "distinct (map ob_id rows)"
  shows "list_all2 (\<lambda>r r'. r' = r \<or> retired now r r' \<and> over_age (Some (h * 3600000)) now r) rows
     (webhook_before_select h now locked rows)"
proof -
  define stale where "stale = select_locked (stale_delivery h now) DEFAULT_EXPIRE_PER_CLAIM locked rows"
  have is_stale: "stale_delivery h now r" if r: "r \<in> set rows" "ob_id r \<in> ob_id ` set stale" for r
  proof -
    obtain q where q: "q \<in> set stale" "ob_id q = ob_id r" using r(2) by (metis imageE)
    then have "q \<in> set rows" "stale_delivery h now q"
      by (auto simp: stale_def dest: select_locked_member)
    with q r ids show ?thesis by (metis distinct_map inj_on_eq_iff)
  qed
  have "list_all2 (\<lambda>r r'. r' = r \<or> retired now r r' \<and> over_age (Some (h * 3600000)) now r) rows
    (update_where (\<lambda>r. ob_id r \<in> ob_id ` set stale \<and> ob_status r = Pending)
       (\<lambda>r. r\<lparr>ob_status := Failed, ob_lastError := Some ''expired'', ob_terminalAt := Some now,
              ob_leaseToken := None, ob_lockedUntil := None\<rparr>) rows)"
    by (rule list_all2_mono_in [OF list_all2_update_where])
       (auto simp: retired_def same_row_def over_age_def stale_delivery_def age_cutoff_def
          dest: is_stale split: if_splits)
  then show ?thesis
    by (simp add: webhook_before_select_def Let_def stale_def list.rel_refl)
qed

interpretation webhook_contract: outbox_relay "webhook_relay h" "Some (h * 3600000)" for h
  by (unfold_locales; unfold webhook_relay_def relay_cfg.select_convs relay_marks;
      (rule default_before_unchanged update_id_change webhook_expires)?;
      (auto simp: relay_constants row_change settled_def over_age_def webhook_select_due_def age_cutoff_def dest!: select_locked_member
         intro: select_locked_distinct select_locked_limit split: if_splits)?)

interpretation graph_contract: outbox_relay "graph_relay kinds batch" None for kinds batch
  by (unfold_locales; unfold graph_relay_def relay_cfg.select_convs relay_marks;
      (rule default_before_unchanged update_id_change)?;
      (auto simp: relay_constants row_change settled_def over_age_def graph_select_due_def graph_lease_positive dest!: select_locked_member
         intro: select_locked_distinct select_locked_limit split: if_splits)?)

end
