(* ===== verification/OutboxSafety.thy ===== *)
theory OutboxSafety
  imports OutboxLeases
begin

text \<open>
  Several relay processes over one outbox table. A process is where \<^verbatim>\<open>runOncePass\<close> and \<^verbatim>\<open>handle\<close>
  stand: between two of its transactions anything may happen, the clock advances, other processes
  claim, a process dies, rows are added by the business transactions, removed by retention or a
  cascade, and, where somebody may ask for a retry by hand, put back to pending. The outcome of \<^verbatim>\<open>deliver\<close> is chosen by the environment.

  The ghost lists record what happened: each start of a delivery, each refunded attempt, each
  committed transition to sent.
\<close>

section \<open>The system\<close>

text \<open>
  The number is the batches the pass may still claim (\<^verbatim>\<open>MAX_BATCHES_PER_PASS\<close>); the list is the rest
  of the batch in hand.
\<close>

datatype ('z, 'r) phase =
    Idle
  | Claiming nat
  | Renewing nat "'z claimed" "'z claimed list"
  | Delivering nat "'z claimed" "'z claimed list"
  | Finishing nat "'z claimed" "'z claimed list" 'r
  | Failing nat "'z claimed" "'z claimed list" relay_error

record ('z, 'r, 'w) outbox_system =
  os_clock :: int
  os_rows :: "'z outbox_row_scheme list"
  os_world :: 'w
  os_phase :: "nat \<Rightarrow> ('z, 'r) phase"
  os_ids :: "string set"
  os_tokens :: "nat set"
  os_calls :: "(string \<times> nat) list"
  os_refunds :: "string list"
  os_sent :: "string list"

text \<open>Which relay each process runs, and what the surroundings may do.\<close>

record ('z, 'r, 'w) deployment =
  dp_relay :: "nat \<Rightarrow> ('z, 'r, 'w) relay_cfg"
  dp_initial :: "'w \<Rightarrow> bool"
  dp_world :: "'w \<Rightarrow> 'w \<Rightarrow> bool"
  dp_admits :: "'z outbox_row_scheme list \<Rightarrow> 'z outbox_row_scheme \<Rightarrow> bool"
  dp_throws :: "relay_error \<Rightarrow> bool"
  dp_resets :: "int \<Rightarrow> 'z outbox_row_scheme list \<Rightarrow> 'z outbox_row_scheme list \<Rightarrow> bool"

text \<open>Put back to pending by hand: the attempts spent, a lease and the terminal instant stay.\<close>

definition revived :: "'z outbox_row_scheme \<Rightarrow> 'z outbox_row_scheme \<Rightarrow> bool" where
  "revived r r' \<longleftrightarrow> same_lease r r' \<and> ob_status r' = Pending \<and> ob_terminalAt r' = ob_terminalAt r"

definition untouched :: "('z, 'r, 'w) deployment \<Rightarrow> bool" where
  "untouched D \<longleftrightarrow> (\<forall>now rows rows'. \<not> dp_resets D now rows rows')"

definition next_phase :: "nat \<Rightarrow> 'z claimed list \<Rightarrow> ('z, 'r) phase" where
  "next_phase n cs = (case cs of [] \<Rightarrow> Claiming n | c # rest \<Rightarrow> Renewing n c rest)"

fun in_hand :: "('z, 'r) phase \<Rightarrow> 'z claimed list" where
  "in_hand Idle = []"
| "in_hand (Claiming n) = []"
| "in_hand (Renewing n c cs) = c # cs"
| "in_hand (Delivering n c cs) = c # cs"
| "in_hand (Finishing n c cs r) = c # cs"
| "in_hand (Failing n c cs e) = c # cs"

text \<open>The claimed rows whose delivery has not begun.\<close>

fun uncalled :: "('z, 'r) phase \<Rightarrow> 'z claimed list" where
  "uncalled Idle = []"
| "uncalled (Claiming n) = []"
| "uncalled (Renewing n c cs) = c # cs"
| "uncalled (Delivering n c cs) = cs"
| "uncalled (Finishing n c cs r) = cs"
| "uncalled (Failing n c cs e) = cs"

definition fresh_row :: "'z outbox_row_scheme \<Rightarrow> bool" where
  "fresh_row r \<longleftrightarrow> ob_status r = Pending \<and> ob_attempts r = 0 \<and> ob_leaseToken r = None \<and>
     ob_lockedUntil r = None \<and> ob_terminalAt r = None"

definition initial_system :: "int \<Rightarrow> 'w \<Rightarrow> ('z, 'r, 'w) outbox_system" where
  "initial_system t w = \<lparr>os_clock = t, os_rows = [], os_world = w, os_phase = (\<lambda>_. Idle), os_ids = {},
     os_tokens = {}, os_calls = [], os_refunds = [], os_sent = []\<rparr>"

inductive relay_step ::
    "('z, 'r, 'w) deployment \<Rightarrow> ('z, 'r, 'w) outbox_system \<Rightarrow> ('z, 'r, 'w) outbox_system \<Rightarrow> bool"
  for D :: "('z, 'r, 'w) deployment" where
  tick: "os_clock s \<le> t \<Longrightarrow> relay_step D s (s\<lparr>os_clock := t\<rparr>)"
| other_tables: "dp_world D (os_world s) w \<Longrightarrow> relay_step D s (s\<lparr>os_world := w\<rparr>)"
| enqueue: "fresh_row r \<Longrightarrow> ob_id r \<notin> os_ids s \<Longrightarrow> dp_admits D (os_rows s) r \<Longrightarrow>
    relay_step D s (s\<lparr>os_rows := os_rows s @ [r], os_ids := insert (ob_id r) (os_ids s)\<rparr>)"
| remove: "relay_step D s (s\<lparr>os_rows := filter keep (os_rows s)\<rparr>)"
| reset_by_hand: "now \<le> os_clock s \<Longrightarrow> dp_resets D now (os_rows s) rows \<Longrightarrow>
    relay_step D s (s\<lparr>os_rows := rows\<rparr>)"
| crash: "relay_step D s (s\<lparr>os_phase := (os_phase s)(p := Idle)\<rparr>)"
| begin_pass: "os_phase s p = Idle \<Longrightarrow>
    relay_step D s (s\<lparr>os_phase := (os_phase s)(p := Claiming MAX_BATCHES_PER_PASS)\<rparr>)"
| end_pass: "os_phase s p = Claiming 0 \<Longrightarrow> relay_step D s (s\<lparr>os_phase := (os_phase s)(p := Idle)\<rparr>)"
| claim_batch: "os_phase s p = Claiming (Suc n) \<Longrightarrow> now \<le> os_clock s \<Longrightarrow> token \<notin> os_tokens s \<Longrightarrow>
    claim (dp_relay D p) now (os_clock s) token locked (os_world s) (os_rows s) = Inr (rows, batch) \<Longrightarrow>
    relay_step D s (s\<lparr>os_rows := rows, os_tokens := insert token (os_tokens s),
      os_phase := (os_phase s)(p := (if batch = [] then Idle else next_phase n batch))\<rparr>)"
| claim_throws: "os_phase s p = Claiming (Suc n) \<Longrightarrow>
    relay_step D s (s\<lparr>os_phase := (os_phase s)(p := Idle)\<rparr>)"
| renew: "os_phase s p = Renewing n c cs \<Longrightarrow>
    renew_lease (dp_relay D p) (os_clock s) c (os_rows s) = Some (rows, until) \<Longrightarrow>
    relay_step D s (s\<lparr>os_rows := rows, os_calls := (cl_id c, cl_token c) # os_calls s,
      os_phase := (os_phase s)(p := Delivering n (c\<lparr>cl_expires := until\<rparr>) cs)\<rparr>)"
| renew_skips: "os_phase s p = Renewing n c cs \<Longrightarrow>
    relay_step D s (s\<lparr>os_phase := (os_phase s)(p := next_phase n cs)\<rparr>)"
| delivered: "os_phase s p = Delivering n c cs \<Longrightarrow>
    relay_step D s (s\<lparr>os_phase := (os_phase s)(p := Finishing n c cs res)\<rparr>)"
| delivery_throws: "os_phase s p = Delivering n c cs \<Longrightarrow> dp_throws D err \<Longrightarrow>
    relay_step D s (s\<lparr>os_phase := (os_phase s)(p := Failing n c cs err)\<rparr>)"
| finish_commits: "os_phase s p = Finishing n c cs res \<Longrightarrow> now \<le> os_clock s \<Longrightarrow>
    finish_sent (dp_relay D p) now c res (os_rows s) (os_world s) = Inr (Some (rows, w)) \<Longrightarrow>
    relay_step D s (s\<lparr>os_rows := rows, os_world := w, os_sent := cl_id c # os_sent s,
      os_phase := (os_phase s)(p := next_phase n cs)\<rparr>)"
| finish_lost: "os_phase s p = Finishing n c cs res \<Longrightarrow> \<not> holds_lease c (os_rows s) \<Longrightarrow>
    relay_step D s (s\<lparr>os_phase := (os_phase s)(p := next_phase n cs)\<rparr>)"
| finish_throws: "os_phase s p = Finishing n c cs res \<Longrightarrow>
    relay_step D s (s\<lparr>os_phase := (os_phase s)(p := Failing n c cs (OtherError msg))\<rparr>)"
| failure_commits: "os_phase s p = Failing n c cs err \<Longrightarrow> now \<le> os_clock s \<Longrightarrow>
    fail_row (dp_relay D p) now c err (os_rows s) = Inr (Some (rows, u)) \<Longrightarrow>
    relay_step D s (s\<lparr>os_rows := rows,
      os_refunds := (if is_DeferError err then cl_id c # os_refunds s else os_refunds s),
      os_phase := (os_phase s)(p := next_phase n cs)\<rparr>)"
| failure_skips: "os_phase s p = Failing n c cs err \<Longrightarrow>
    relay_step D s (s\<lparr>os_phase := (os_phase s)(p := next_phase n cs)\<rparr>)"

inductive outbox_reachable ::
    "('z, 'r, 'w) deployment \<Rightarrow> ('z, 'r, 'w) outbox_system \<Rightarrow> bool"
  for D :: "('z, 'r, 'w) deployment" where
  start: "dp_initial D w \<Longrightarrow> outbox_reachable D (initial_system t w)"
| step: "outbox_reachable D s \<Longrightarrow> relay_step D s s' \<Longrightarrow> outbox_reachable D s'"

lemma in_hand_next [simp]: "in_hand (next_phase n cs) = cs"
  by (simp add: next_phase_def split: list.splits)

lemma uncalled_next [simp]: "uncalled (next_phase n cs) = cs"
  by (simp add: next_phase_def split: list.splits)

lemma uncalled_in_hand: "set (uncalled ph) \<subseteq> set (in_hand ph)"
  by (cases ph) auto

section \<open>The invariant\<close>

definition calls_of :: "('z, 'r, 'w) outbox_system \<Rightarrow> string \<Rightarrow> nat" where
  "calls_of s i = List.length (filter (\<lambda>x. fst x = i) (os_calls s))"

definition refunds_of :: "('z, 'r, 'w) outbox_system \<Rightarrow> string \<Rightarrow> nat" where
  "refunds_of s i = count_list (os_refunds s) i"

text \<open>A claimed row whose delivery under this lease has not begun has an attempt to spare.\<close>

definition spare :: "(string \<times> nat) list \<Rightarrow> 'z outbox_row_scheme \<Rightarrow> nat" where
  "spare calls r = (case ob_leaseToken r of None \<Rightarrow> 0 | Some t \<Rightarrow> if (ob_id r, t) \<in> set calls then 0 else 1)"

definition row_ok ::
    "('z, 'r, 'w) deployment \<Rightarrow> int option \<Rightarrow> ('z, 'r, 'w) outbox_system \<Rightarrow> 'z outbox_row_scheme \<Rightarrow> bool" where
  "row_ok D max_age s r \<longleftrightarrow>
     ob_id r \<in> os_ids s \<and>
     ob_attempts r \<le> MAX_ATTEMPTS \<and>
     (\<forall>t. ob_leaseToken r = Some t \<longrightarrow> ob_status r = Pending \<and> t \<in> os_tokens s) \<and>
     (ob_leaseToken r = None \<longrightarrow> ob_lockedUntil r = None) \<and>
     (settled (ob_status r) \<longrightarrow> ob_id r \<in> set (os_sent s)) \<and>
     (ob_terminalAt r = None \<longrightarrow> ob_status r = Pending) \<and>
     (untouched D \<longrightarrow> (ob_id r \<in> set (os_sent s) \<longrightarrow> settled (ob_status r)) \<and>
        (ob_status r = Pending \<longrightarrow> ob_terminalAt r = None)) \<and>
     calls_of s (ob_id r) + spare (os_calls s) r \<le> ob_attempts r + refunds_of s (ob_id r) \<and>
     (ob_status r = Failed \<longrightarrow> MAX_ATTEMPTS \<le> ob_attempts r \<or> (\<exists>t \<le> os_clock s. over_age max_age t r) \<or>
        (\<exists>m. dp_throws D (NonRetryableError m)))"

text \<open>A claim in hand: it still holds the row, or its lease has run out.\<close>

definition claim_ok :: "('z, 'r, 'w) outbox_system \<Rightarrow> 'z claimed \<Rightarrow> bool" where
  "claim_ok s c \<longleftrightarrow> cl_token c \<in> os_tokens s \<and> cl_id c \<in> os_ids s \<and>
     (\<forall>r \<in> set (os_rows s). ob_id r = cl_id c \<longrightarrow>
        (if ob_leaseToken r = Some (cl_token c)
         then ob_lockedUntil r = Some (cl_expires c) \<and> ob_attempts r = cl_attempts c
         else cl_expires c \<le> os_clock s))"

fun phase_ok :: "('z, 'r, 'w) deployment \<Rightarrow> ('z, 'r) phase \<Rightarrow> bool" where
  "phase_ok D (Failing n c cs e) = (dp_throws D e \<or> (\<exists>m. e = OtherError m))"
| "phase_ok D _ = True"

definition process_ok ::
    "('z, 'r, 'w) deployment \<Rightarrow> ('z, 'r, 'w) outbox_system \<Rightarrow> ('z, 'r) phase \<Rightarrow> bool" where
  "process_ok D s ph \<longleftrightarrow> distinct (map cl_id (in_hand ph)) \<and> (\<forall>c \<in> set (in_hand ph). claim_ok s c) \<and>
     (\<forall>c \<in> set (uncalled ph). (cl_id c, cl_token c) \<notin> set (os_calls s)) \<and> phase_ok D ph"

definition apart :: "int \<Rightarrow> 'z claimed \<Rightarrow> 'z claimed \<Rightarrow> bool" where
  "apart now c c' \<longleftrightarrow> cl_token c \<noteq> cl_token c' \<and>
     (cl_id c = cl_id c' \<longrightarrow> cl_expires c \<le> now \<or> cl_expires c' \<le> now)"

definition outbox_inv ::
    "('z, 'r, 'w) deployment \<Rightarrow> int option \<Rightarrow> ('z, 'r, 'w) outbox_system \<Rightarrow> bool" where
  "outbox_inv D max_age s \<longleftrightarrow>
     distinct (map ob_id (os_rows s)) \<and>
     (\<forall>r \<in> set (os_rows s). row_ok D max_age s r) \<and>
     (\<forall>p. process_ok D s (os_phase s p)) \<and>
     (\<forall>p q. p \<noteq> q \<longrightarrow> (\<forall>c \<in> set (in_hand (os_phase s p)). \<forall>c' \<in> set (in_hand (os_phase s q)).
        apart (os_clock s) c c')) \<and>
     (untouched D \<longrightarrow> distinct (os_sent s)) \<and> set (os_sent s) \<subseteq> os_ids s \<and> fst ` set (os_calls s) \<subseteq> os_ids s \<and>
     snd ` set (os_calls s) \<subseteq> os_tokens s"

lemma outbox_inv_rules:
  assumes "outbox_inv D max_age s"
  shows "distinct (map ob_id (os_rows s))"
    and "r \<in> set (os_rows s) \<Longrightarrow> row_ok D max_age s r"
    and "process_ok D s (os_phase s p)"
    and "c \<in> set (in_hand (os_phase s p)) \<Longrightarrow> claim_ok s c"
    and "p \<noteq> q \<Longrightarrow> c \<in> set (in_hand (os_phase s p)) \<Longrightarrow> c' \<in> set (in_hand (os_phase s q)) \<Longrightarrow>
      apart (os_clock s) c c'"
    and "distinct (map cl_id (in_hand (os_phase s p)))"
    and "snd ` set (os_calls s) \<subseteq> os_tokens s"
  using assms by (auto simp: outbox_inv_def process_ok_def)

subsection \<open>Steps that move one process\<close>

lemma outbox_inv_phase:
  assumes inv: "outbox_inv D max_age s"
    and hand: "set (in_hand ph) \<subseteq> set (in_hand (os_phase s p))" "distinct (map cl_id (in_hand ph))"
    and uncalled: "set (uncalled ph) \<subseteq> set (uncalled (os_phase s p))"
    and ph: "phase_ok D ph"
  shows "outbox_inv D max_age (s\<lparr>os_phase := (os_phase s)(p := ph)\<rparr>)"
proof -
  have rows: "row_ok D max_age (s\<lparr>os_phase := f\<rparr>) = row_ok D max_age s" for f
    by (simp add: fun_eq_iff row_ok_def calls_of_def refunds_of_def)
  have claims: "claim_ok (s\<lparr>os_phase := f\<rparr>) = claim_ok s" for f
    by (simp add: fun_eq_iff claim_ok_def)
  have procs: "process_ok D (s\<lparr>os_phase := f\<rparr>) = process_ok D s" for f
    by (simp add: fun_eq_iff process_ok_def claims)
  have "process_ok D s ph"
    using outbox_inv_rules(3) [OF inv, of p] hand uncalled ph by (auto simp: process_ok_def)
  moreover have "apart (os_clock s) c c'"
    if "q \<noteq> q'" "c \<in> set (in_hand (((os_phase s)(p := ph)) q))" "c' \<in> set (in_hand (((os_phase s)(p := ph)) q'))"
    for q q' c c'
    using that hand(1) by (intro outbox_inv_rules(5) [OF inv, of q q']) (auto split: if_splits)
  ultimately show ?thesis
    using inv unfolding outbox_inv_def by (simp add: rows procs)
qed

lemma outbox_inv_tick:
  fixes s :: "('z, 'r, 'w) outbox_system"
  assumes inv: "outbox_inv D max_age s" and t: "os_clock s \<le> t"
  shows "outbox_inv D max_age (s\<lparr>os_clock := t\<rparr>)"
proof -
  have "row_ok D max_age (s\<lparr>os_clock := t\<rparr>) r" if "row_ok D max_age s r" for r
    using that t unfolding row_ok_def calls_of_def refunds_of_def
    by (simp; meson order_trans)
  moreover have "process_ok D (s\<lparr>os_clock := t\<rparr>) ph" if "process_ok D s ph" for ph
    using that t by (fastforce simp: process_ok_def claim_ok_def split: if_splits)
  moreover have "apart t c c'" if "apart (os_clock s) c c'" for c c' :: "'z claimed"
    using that t by (auto simp: apart_def)
  ultimately show ?thesis
    using inv by (auto simp: outbox_inv_def)
qed

lemma outbox_inv_world: "outbox_inv D max_age s \<Longrightarrow> outbox_inv D max_age (s\<lparr>os_world := w\<rparr>)"
  by (simp add: outbox_inv_def row_ok_def process_ok_def claim_ok_def calls_of_def refunds_of_def)

lemma outbox_inv_remove:
  assumes inv: "outbox_inv D max_age s"
  shows "outbox_inv D max_age (s\<lparr>os_rows := filter keep (os_rows s)\<rparr>)"
proof -
  let ?s = "s\<lparr>os_rows := filter keep (os_rows s)\<rparr>"
  have "row_ok D max_age ?s r" if "r \<in> set (os_rows ?s)" for r
    using outbox_inv_rules(2) [OF inv, of r] that by (simp add: row_ok_def calls_of_def refunds_of_def)
  moreover have "claim_ok ?s c" if "claim_ok s c" for c
    using that by (auto simp: claim_ok_def)
  then have "process_ok D ?s ph" if "process_ok D s ph" for ph
    using that by (simp add: process_ok_def)
  moreover have "distinct (map ob_id (os_rows ?s))"
    using outbox_inv_rules(1) [OF inv] by (simp add: distinct_map_filter)
  ultimately show ?thesis using inv by (simp add: outbox_inv_def)
qed

lemma outbox_inv_enqueue:
  assumes inv: "outbox_inv D max_age s" and r: "fresh_row r" "ob_id r \<notin> os_ids s"
  shows "outbox_inv D max_age (s\<lparr>os_rows := os_rows s @ [r], os_ids := insert (ob_id r) (os_ids s)\<rparr>)"
proof -
  let ?s = "s\<lparr>os_rows := os_rows s @ [r], os_ids := insert (ob_id r) (os_ids s)\<rparr>"
  have old: "ob_id q \<noteq> ob_id r" if "q \<in> set (os_rows s)" for q
    using outbox_inv_rules(2) [OF inv that] r by (auto simp: row_ok_def)
  have none: "calls_of s (ob_id r) = 0" "ob_id r \<notin> set (os_sent s)"
    using inv r(2) by (auto simp: outbox_inv_def calls_of_def filter_empty_conv)
  have "row_ok D max_age ?s r"
    using r(1) none by (simp add: row_ok_def fresh_row_def settled_def spare_def calls_of_def refunds_of_def)
  moreover have "row_ok D max_age ?s q" if "q \<in> set (os_rows s)" for q
    using outbox_inv_rules(2) [OF inv that] by (simp add: row_ok_def calls_of_def refunds_of_def)
  moreover have "process_ok D ?s ph" if "process_ok D s ph" for ph
    using that r(2) unfolding process_ok_def claim_ok_def by auto
  moreover have "distinct (map ob_id (os_rows ?s))"
    using outbox_inv_rules(1) [OF inv] by (force dest: old)
  ultimately show ?thesis
    using inv by (auto simp: outbox_inv_def)
qed

subsection \<open>Steps that change the table\<close>

text \<open>A row whose holder has let go of it is released; every other row stays as it is.\<close>

lemma outbox_inv_release:
  assumes inv: "outbox_inv D max_age s"
    and free: "\<And>p c'. c' \<in> set (in_hand (os_phase s p)) \<Longrightarrow> cl_id c' = cl_id c \<Longrightarrow> cl_token c' \<noteq> cl_token c"
    and held: "\<exists>r \<in> set (os_rows s). lease_matches c r"
    and change: "list_all2 (\<lambda>r r'. if lease_matches c r then E r r' else r' = r) (os_rows s) rows'"
    and E: "\<And>r r'. E r r' \<Longrightarrow> same_row r r' \<and> ob_leaseToken r' = None"
    and s': "s' = s\<lparr>os_rows := rows', os_world := w, os_refunds := rf, os_sent := snt\<rparr>"
    and new: "\<And>r r'. r \<in> set (os_rows s) \<Longrightarrow> lease_matches c r \<Longrightarrow> E r r' \<Longrightarrow> row_ok D max_age s' r'"
    and others: "\<And>i. i \<noteq> cl_id c \<Longrightarrow> count_list rf i = refunds_of s i \<and> (i \<in> set snt \<longleftrightarrow> i \<in> set (os_sent s))"
    and snt: "untouched D \<longrightarrow> distinct snt" "set snt \<subseteq> os_ids s"
  shows "outbox_inv D max_age s'"
proof -
  have ids: "map ob_id rows' = map ob_id (os_rows s)"
    by (rule list_all2_map_eq [OF change]) (auto dest!: E simp: same_row_def split: if_splits)
  have only: "lease_matches c r" if "r \<in> set (os_rows s)" "ob_id r = cl_id c" for r
    using held that outbox_inv_rules(1) [OF inv]
    by (metis distinct_map inj_on_eq_iff lease_matches_def)
  have "row_ok D max_age s' r'" if r': "r' \<in> set rows'" for r'
  proof -
    obtain r where r: "r \<in> set (os_rows s)" and e: "if lease_matches c r then E r r' else r' = r"
      using list_all2_right [OF change r'] by blast
    show ?thesis
    proof (cases "lease_matches c r")
      case True
      with new r e show ?thesis by simp
    next
      case False
      then have "ob_id r \<noteq> cl_id c" using only r by blast
      with e False others show ?thesis
        using outbox_inv_rules(2) [OF inv r] by (simp add: row_ok_def s' calls_of_def refunds_of_def)
    qed
  qed
  moreover have "process_ok D s' (os_phase s p)" for p
  proof -
    have "claim_ok s' c'" if c': "c' \<in> set (in_hand (os_phase s p))" for c'
    proof -
      have ok: "claim_ok s c'" by (rule outbox_inv_rules(4) [OF inv c'])
      have "if ob_leaseToken r' = Some (cl_token c')
          then ob_lockedUntil r' = Some (cl_expires c') \<and> ob_attempts r' = cl_attempts c'
          else cl_expires c' \<le> os_clock s" if r': "r' \<in> set rows'" "ob_id r' = cl_id c'" for r'
      proof -
        obtain r where r: "r \<in> set (os_rows s)" and e: "if lease_matches c r then E r r' else r' = r"
          using list_all2_right [OF change r'(1)] by blast
        show ?thesis
        proof (cases "lease_matches c r")
          case True
          with e have "ob_id r = ob_id r'" "ob_leaseToken r' = None"
            by (auto dest!: E simp: same_row_def)
          with True r'(2) have "cl_id c' = cl_id c" by (simp add: lease_matches_def)
          with free [OF c'] True have "ob_leaseToken r \<noteq> Some (cl_token c')"
            by (auto simp: lease_matches_def)
          with ok r r'(2) \<open>ob_id r = ob_id r'\<close> \<open>ob_leaseToken r' = None\<close> show ?thesis
            by (auto simp: claim_ok_def)
        next
          case False
          with e ok r r'(2) show ?thesis by (auto simp: claim_ok_def)
        qed
      qed
      with ok show ?thesis by (auto simp: claim_ok_def s')
    qed
    with outbox_inv_rules(3) [OF inv, of p] show ?thesis by (simp add: process_ok_def s')
  qed
  ultimately show ?thesis
    using inv snt ids by (simp add: outbox_inv_def s')
qed

text \<open>Letting go of the row at the head of the hand.\<close>

lemma head_dropped:
  assumes inv: "outbox_inv D max_age s" and hand: "in_hand (os_phase s p) = c # cs"
    and c': "c' \<in> set (in_hand (((os_phase s)(p := next_phase n cs)) q))" and same: "cl_id c' = cl_id c"
  shows "cl_token c' \<noteq> cl_token c"
proof (cases "q = p")
  case True
  then have "cl_id c \<in> cl_id ` set cs"
    using c' same by (metis fun_upd_same imageI in_hand_next)
  then show ?thesis
    using outbox_inv_rules(6) [OF inv, of p] hand by simp
next
  case False
  then show ?thesis
    using c' hand outbox_inv_rules(5) [OF inv, of p q c c'] by (auto simp: apart_def)
qed

lemma count_list_distinct: "distinct xs \<Longrightarrow> count_list xs x = (if x \<in> set xs then 1 else 0)"
  by (induction xs) auto

lemma failure_status_cases: "failure_status cfg c err = Failed \<or> failure_status cfg c err = Pending"
  by (simp add: failure_status_def Let_def)

lemma failure_status_Failed:
  "failure_status cfg c err = Failed \<Longrightarrow> (\<exists>m. err = NonRetryableError m) \<or> rc_maxAttempts cfg \<le> cl_attempts c"
  by (cases err) (auto simp: failure_status_def Let_def split: if_splits)

locale outbox_deployment =
  fixes D :: "('z, 'r, 'w) deployment"
    and max_age :: "int option"
  assumes contract: "outbox_relay (dp_relay D p) max_age"
    and resets: "dp_resets D now rows rows' \<Longrightarrow> list_all2 (\<lambda>r r'. r' = r \<or> revived r r') rows rows'"
begin

lemma reset_keeps:
  assumes inv: "outbox_inv D max_age s" and reset: "dp_resets D now (os_rows s) rows"
  shows "outbox_inv D max_age (s\<lparr>os_rows := rows\<rparr>)"
proof -
  note change = resets [OF reset]
  have touched: "\<not> untouched D" using reset by (auto simp: untouched_def)
  have ids: "map ob_id rows = map ob_id (os_rows s)"
    by (rule list_all2_map_eq [OF change]) (auto simp: revived_def row_change)
  have origin: "\<exists>r \<in> set (os_rows s). same_lease r r' \<and> (r' = r \<or> revived r r')" if "r' \<in> set rows" for r'
    using list_all2_right [OF change that] by (auto simp: revived_def row_change)
  have "row_ok D max_age (s\<lparr>os_rows := rows\<rparr>) r'" if r': "r' \<in> set rows" for r'
  proof -
    obtain r where r: "r \<in> set (os_rows s)" "r' = r \<or> revived r r'" using origin [OF r'] by blast
    have ok: "row_ok D max_age s r" by (rule outbox_inv_rules(2) [OF inv r(1)])
    show ?thesis
      using r(2)
    proof
      assume "r' = r"
      then show ?thesis using ok by (simp add: row_ok_def calls_of_def refunds_of_def)
    next
      assume "revived r r'"
      then have same: "ob_id r' = ob_id r" "ob_attempts r' = ob_attempts r" "ob_leaseToken r' = ob_leaseToken r"
          "ob_lockedUntil r' = ob_lockedUntil r" "ob_status r' = Pending"
        by (simp_all add: revived_def row_change)
      then have "spare (os_calls s) r' = spare (os_calls s) r"
        by (cases "ob_leaseToken r") (simp_all add: spare_def)
      then show ?thesis
        using ok touched same by (auto simp: row_ok_def settled_def calls_of_def refunds_of_def)
    qed
  qed
  moreover have "claim_ok (s\<lparr>os_rows := rows\<rparr>) c" if "claim_ok s c" for c
    using that origin by (fastforce simp: claim_ok_def row_change split: if_splits)
  then have "process_ok D (s\<lparr>os_rows := rows\<rparr>) ph" if "process_ok D s ph" for ph
    using that by (simp add: process_ok_def)
  ultimately show ?thesis
    using inv ids by (simp add: outbox_inv_def)
qed

lemma renew_keeps:
  assumes inv: "outbox_inv D max_age s" and ph: "os_phase s p = Renewing n c cs"
    and renew: "renew_lease (dp_relay D p) (os_clock s) c (os_rows s) = Some (rows, until)"
  shows "outbox_inv D max_age (s\<lparr>os_rows := rows, os_calls := (cl_id c, cl_token c) # os_calls s,
      os_phase := (os_phase s)(p := Delivering n (c\<lparr>cl_expires := until\<rparr>) cs)\<rparr>)"
    (is "outbox_inv D max_age ?s")
proof -
  have rows: "list_all2 (\<lambda>r r'. r' = (if lease_matches c r then r\<lparr>ob_lockedUntil := Some until\<rparr> else r))
      (os_rows s) rows"
    by (rule outbox_relay.renew_effects(2) [OF contract renew])
  have ids: "map ob_id rows = map ob_id (os_rows s)"
    by (rule list_all2_map_eq [OF rows]) simp
  obtain h where h: "h \<in> set (os_rows s)" "lease_matches c h"
    using renew by (auto simp: renew_lease_def Let_def holds_lease_def list_ex_iff split: if_splits)
  have only: "lease_matches c r" if "r \<in> set (os_rows s)" "ob_id r = cl_id c" for r
    using h that outbox_inv_rules(1) [OF inv] by (metis distinct_map inj_on_eq_iff lease_matches_def)
  have c: "c \<in> set (in_hand (os_phase s p))" "c \<in> set (uncalled (os_phase s p))" by (simp_all add: ph)
  then have new_call: "(cl_id c, cl_token c) \<notin> set (os_calls s)"
    using outbox_inv_rules(3) [OF inv, of p] by (simp add: process_ok_def)
  have c_ok: "claim_ok s c" by (rule outbox_inv_rules(4) [OF inv c(1)])
  have row: "row_ok D max_age ?s r'" if r': "r' \<in> set rows" for r'
  proof -
    obtain r where r: "r \<in> set (os_rows s)"
      and e: "r' = (if lease_matches c r then r\<lparr>ob_lockedUntil := Some until\<rparr> else r)"
      using list_all2_right [OF rows r'] by blast
    have ok: "row_ok D max_age s r" by (rule outbox_inv_rules(2) [OF inv r])
    show ?thesis
    proof (cases "lease_matches c r")
      case True
      with ok e new_call show ?thesis
        by (auto simp: row_ok_def lease_matches_def spare_def calls_of_def refunds_of_def over_age_def)
    next
      case False
      then have "ob_id r \<noteq> cl_id c" using only r by blast
      with False ok e show ?thesis
        by (auto simp: row_ok_def spare_def calls_of_def refunds_of_def split: option.splits)
    qed
  qed
  have lapsed: "cl_token c' \<noteq> cl_token c" "cl_id c' = cl_id c \<Longrightarrow> cl_expires c' \<le> os_clock s"
    if "q \<noteq> p" "c' \<in> set (in_hand (os_phase s q))" for q c'
  proof -
    show differ: "cl_token c' \<noteq> cl_token c"
      using outbox_inv_rules(5) [OF inv that c(1)] by (simp add: apart_def)
    assume "cl_id c' = cl_id c"
    with h differ show "cl_expires c' \<le> os_clock s"
      using outbox_inv_rules(4) [OF inv that(2)] by (auto simp: claim_ok_def lease_matches_def split: if_splits)
  qed
  have keeps: "claim_ok ?s c'" if "claim_ok s c'" "cl_id c' \<noteq> cl_id c \<or> cl_token c' \<noteq> cl_token c" for c'
    using that by (auto simp: claim_ok_def lease_matches_def dest!: list_all2_right [OF rows] split: if_splits)
  have head: "claim_ok ?s (c\<lparr>cl_expires := until\<rparr>)"
  proof -
    have "ob_leaseToken r' = Some (cl_token c) \<and> ob_lockedUntil r' = Some until \<and> ob_attempts r' = cl_attempts c"
      if r': "r' \<in> set rows" "ob_id r' = cl_id c" for r'
    proof -
      obtain r where r: "r \<in> set (os_rows s)"
        and e: "r' = (if lease_matches c r then r\<lparr>ob_lockedUntil := Some until\<rparr> else r)"
        using list_all2_right [OF rows r'(1)] by blast
      then have "lease_matches c r" using only r'(2) by (simp split: if_splits)
      with e c_ok r show ?thesis by (auto simp: claim_ok_def lease_matches_def)
    qed
    with c_ok show ?thesis by (simp add: claim_ok_def)
  qed
  have procs: "process_ok D ?s (os_phase ?s q)" for q
  proof (cases "q = p")
    case True
    have "cl_id c' \<noteq> cl_id c" if "c' \<in> set cs" for c'
      using outbox_inv_rules(6) [OF inv, of p] that ph by simp (metis imageI)
    then show ?thesis
      using True outbox_inv_rules(3) [OF inv, of p] head
      by (auto simp: process_ok_def ph intro!: keeps)
  next
    case False
    then show ?thesis
      using outbox_inv_rules(3) [OF inv, of q] lapsed(1) [OF False] uncalled_in_hand [of "os_phase s q"]
      by (auto simp: process_ok_def intro!: keeps)
  qed
  have apart: "apart (os_clock s) d d'" if "q \<noteq> q'" "d \<in> set (in_hand (os_phase ?s q))"
      "d' \<in> set (in_hand (os_phase ?s q'))" for q q' d d'
  proof -
    have old: "apart (os_clock s) e e'" if "e \<in> set (in_hand (os_phase s q))" "e' \<in> set (in_hand (os_phase s q'))" for e e'
      using outbox_inv_rules(5) [OF inv \<open>q \<noteq> q'\<close>] that by blast
    consider "q \<noteq> p" "q' \<noteq> p" | "q = p" | "q' = p" using that(1) by blast
    then show ?thesis
    proof cases
      case 1
      then show ?thesis using that old by simp
    next
      case 2
      then show ?thesis using that old ph lapsed [of q' d'] by (auto simp: apart_def)
    next
      case 3
      then show ?thesis using that old ph lapsed [of q d] by (auto simp: apart_def)
    qed
  qed
  show ?thesis
    unfolding outbox_inv_def using inv row procs apart c_ok ids
    by (auto simp: outbox_inv_def claim_ok_def)
qed

lemma claim_keeps:
  assumes inv: "outbox_inv D max_age s" and ph: "os_phase s p = Claiming (Suc n)"
    and now: "now \<le> os_clock s" and token: "token \<notin> os_tokens s"
    and claim: "claim (dp_relay D p) now (os_clock s) token locked (os_world s) (os_rows s) = Inr (rows, batch)"
  shows "outbox_inv D max_age (s\<lparr>os_rows := rows, os_tokens := insert token (os_tokens s),
      os_phase := (os_phase s)(p := (if batch = [] then Idle else next_phase n batch))\<rparr>)"
    (is "outbox_inv D max_age ?s")
proof -
  obtain until where until: "batch \<noteq> [] \<longrightarrow> os_clock s < until"
    and change: "list_all2 (claim_effect max_age now token until) (os_rows s) rows"
    and ids_batch: "distinct (map cl_id batch)" and "List.length batch \<le> rc_batchSize (dp_relay D p)"
    and "\<forall>c \<in> set batch. cl_token c = token \<and> cl_expires c = until \<and>
       \<not> over_age max_age now (cl_row c) \<and> ob_status (cl_row c) = Pending \<and>
       (\<exists>r' \<in> set rows. ob_id r' = cl_id c \<and> ob_leaseToken r' = Some token \<and>
          ob_lockedUntil r' = Some until \<and> ob_attempts r' = cl_attempts c)"
    by (rule outbox_relay.claim_effects [OF contract claim outbox_inv_rules(1) [OF inv]])
  note batch = bspec [OF this(5)]
  have ids: "map ob_id rows = map ob_id (os_rows s)"
    by (rule list_all2_map_eq [OF change]) (drule claim_effect_same, simp add: same_row_def)
  have fresh: "ob_leaseToken r \<noteq> Some token" if "r \<in> set (os_rows s)" for r
    using outbox_inv_rules(2) [OF inv that] token by (auto simp: row_ok_def)
  have uncalled: "(i, token) \<notin> set (os_calls s)" for i
    using outbox_inv_rules(7) [OF inv] token by (metis imageI snd_conv subsetD)
  have unique: "r = r'" if "r \<in> set rows" "r' \<in> set rows" "ob_id r = ob_id r'" for r r'
    using that ids outbox_inv_rules(1) [OF inv] by (metis distinct_map inj_on_eq_iff)
  have row: "row_ok D max_age ?s r'" if r': "r' \<in> set rows" for r'
  proof -
    obtain r where r: "r \<in> set (os_rows s)" and e: "claim_effect max_age now token until r r'"
      using list_all2_right [OF change r'] by blast
    have ok: "row_ok D max_age s r" by (rule outbox_inv_rules(2) [OF inv r])
    from e consider "r' = r"
      | "retired now r r'" "MAX_ATTEMPTS \<le> ob_attempts r \<or> over_age max_age now r"
      | "leased token until r r'" "due_now MAX_ATTEMPTS now r"
      by (auto simp: claim_effect_def)
    then show ?thesis
    proof cases
      case 1
      then show ?thesis using ok by (auto simp: row_ok_def calls_of_def refunds_of_def)
    next
      case 2
      moreover from this have "over_age max_age now r' = over_age max_age now r"
        by (simp add: over_age_def row_change split: option.splits)
      ultimately show ?thesis
        using ok now by (auto simp: row_ok_def row_change settled_def spare_def calls_of_def refunds_of_def)
    next
      case 3
      then show ?thesis
        using ok uncalled
        by (auto simp: row_ok_def row_change due_now_def settled_def spare_def calls_of_def refunds_of_def
            split: option.splits)
    qed
  qed
  text \<open>A row this claim retires or leases is one nobody holds any more.\<close>
  have lapsed: "cl_expires c' \<le> os_clock s"
    if "claim_ok s c'" "r \<in> set (os_rows s)" "ob_id r = cl_id c'" "not_leased now r" for c' r
    using that now by (auto simp: claim_ok_def not_leased_def split: if_splits option.splits)
  have keeps: "claim_ok ?s c'" if c': "claim_ok s c'" for c'
  proof -
    have "if ob_leaseToken r' = Some (cl_token c')
        then ob_lockedUntil r' = Some (cl_expires c') \<and> ob_attempts r' = cl_attempts c'
        else cl_expires c' \<le> os_clock s" if r': "r' \<in> set rows" "ob_id r' = cl_id c'" for r'
    proof -
      obtain r where r: "r \<in> set (os_rows s)" and e: "claim_effect max_age now token until r r'"
        using list_all2_right [OF change r'(1)] by blast
      show ?thesis
      proof (cases "r' = r")
        case True
        with c' r r'(2) show ?thesis by (auto simp: claim_ok_def)
      next
        case False
        with e have "not_leased now r" "ob_id r = ob_id r'" "ob_leaseToken r' = None \<or> ob_leaseToken r' = Some token"
          by (auto simp: claim_effect_def row_change due_now_def)
        with lapsed [OF c' r] r'(2) c' token show ?thesis by (auto simp: claim_ok_def)
      qed
    qed
    with c' show ?thesis by (auto simp: claim_ok_def)
  qed
  have mine: "claim_ok ?s c" if c: "c \<in> set batch" for c
  proof -
    obtain r' where r': "r' \<in> set rows" "ob_id r' = cl_id c" "ob_leaseToken r' = Some token"
        "ob_lockedUntil r' = Some until" "ob_attempts r' = cl_attempts c"
      using batch [OF c] by blast
    then have "cl_id c \<in> os_ids s" using row [OF r'(1)] by (simp add: row_ok_def)
    with r' batch [OF c] show ?thesis by (auto simp: claim_ok_def dest: unique)
  qed
  have hand: "in_hand (os_phase ?s q) = (if q = p then batch else in_hand (os_phase s q))"
    "uncalled (os_phase ?s q) = (if q = p then batch else uncalled (os_phase s q))" for q
    by simp_all
  have procs: "process_ok D ?s (os_phase ?s q)" for q
    using outbox_inv_rules(3) [OF inv, of q] keeps mine ids_batch uncalled batch
    by (auto simp: process_ok_def hand next_phase_def split: list.splits)
  have new_apart: "apart (os_clock s) c c' \<and> apart (os_clock s) c' c" if c: "c \<in> set batch" and c': "claim_ok s c'" for c c'
  proof -
    obtain r' where r': "r' \<in> set rows" "ob_id r' = cl_id c" "ob_leaseToken r' = Some token"
      using batch [OF c] by blast
    obtain r where r: "r \<in> set (os_rows s)" "claim_effect max_age now token until r r'"
      using list_all2_right [OF change r'(1)] by blast
    then have "not_leased now r" "ob_id r = ob_id r'"
      using fresh [OF r(1)] r'(3) by (auto simp: claim_effect_def row_change due_now_def)
    then have "cl_id c = cl_id c' \<Longrightarrow> cl_expires c' \<le> os_clock s"
      using lapsed [OF c' r(1)] r'(2) by simp
    moreover have "cl_token c' \<noteq> cl_token c"
      using batch [OF c] c' token by (auto simp: claim_ok_def)
    ultimately show ?thesis by (auto simp: apart_def)
  qed
  have apart: "apart (os_clock s) d d'" if "q \<noteq> q'" "d \<in> set (in_hand (os_phase ?s q))"
      "d' \<in> set (in_hand (os_phase ?s q'))" for q q' d d'
    using that outbox_inv_rules(5) [OF inv, of q q' d d'] outbox_inv_rules(4) [OF inv] new_apart
    by (auto simp: hand split: if_splits)
  show ?thesis
    unfolding outbox_inv_def using inv row procs apart ids
    by (auto simp: outbox_inv_def hand)
qed

text \<open>Dropping the head of the hand, then releasing its row.\<close>

lemma drop_head:
  assumes inv: "outbox_inv D max_age s" and ph: "in_hand (os_phase s p) = c # cs"
    "set cs \<subseteq> set (uncalled (os_phase s p))"
  shows "outbox_inv D max_age (s\<lparr>os_phase := (os_phase s)(p := next_phase n cs)\<rparr>)"
  using outbox_inv_rules(6) [OF inv, of p] ph
  by (intro outbox_inv_phase [OF inv]) (auto simp: next_phase_def split: list.splits)

lemma finish_keeps:
  assumes inv: "outbox_inv D max_age s" and ph: "os_phase s p = Finishing n c cs res"
    and now: "now \<le> os_clock s"
    and finish: "finish_sent (dp_relay D p) now c res (os_rows s) (os_world s) = Inr (Some (rows, w))"
  shows "outbox_inv D max_age (s\<lparr>os_rows := rows, os_world := w, os_sent := cl_id c # os_sent s,
      os_phase := (os_phase s)(p := next_phase n cs)\<rparr>)"
proof -
  note ids = outbox_inv_rules(1) [OF inv]
  let ?s = "s\<lparr>os_phase := (os_phase s)(p := next_phase n cs)\<rparr>"
  have hand: "in_hand (os_phase s p) = c # cs" by (simp add: ph)
  have inv': "outbox_inv D max_age ?s"
    by (rule drop_head [OF inv hand]) (simp add: ph)
  note change = outbox_relay.sent_effects(1) [OF contract finish ids]
  obtain h where h: "h \<in> set (os_rows s)" "lease_matches c h"
    using outbox_relay.sent_effects(2) [OF contract finish ids] by blast
  then have unsent: "untouched D \<longrightarrow> cl_id c \<notin> set (os_sent s)" "cl_id c \<in> os_ids s"
    using outbox_inv_rules(2) [OF inv h(1)] by (auto simp: row_ok_def lease_matches_def settled_def)
  have "outbox_inv D max_age (?s\<lparr>os_rows := rows, os_world := w, os_refunds := os_refunds s,
      os_sent := cl_id c # os_sent s\<rparr>)"
  proof (rule outbox_inv_release [OF inv', where c = c and w = w and rf = "os_refunds s" and snt = "cl_id c # os_sent s"])
    show "list_all2 (\<lambda>r r'. if lease_matches c r
        then same_row r r' \<and> ob_leaseToken r' = None \<and> ob_lockedUntil r' = None \<and>
          ob_attempts r' = ob_attempts r \<and> settled (ob_status r') \<and> ob_terminalAt r' = Some now
        else r' = r) (os_rows ?s) rows"
      using change by (simp add: sent_effect_def [abs_def])
  next
    fix r r' assume "r \<in> set (os_rows ?s)" "lease_matches c r"
      "same_row r r' \<and> ob_leaseToken r' = None \<and> ob_lockedUntil r' = None \<and>
          ob_attempts r' = ob_attempts r \<and> settled (ob_status r') \<and> ob_terminalAt r' = Some now"
    then show "row_ok D max_age (?s\<lparr>os_rows := rows, os_world := w, os_refunds := os_refunds s,
      os_sent := cl_id c # os_sent s\<rparr>) r'"
      using outbox_inv_rules(2) [OF inv, of r]
      by (auto simp: row_ok_def same_row_def lease_matches_def settled_def spare_def calls_of_def refunds_of_def)
  qed (use h unsent inv head_dropped [OF inv hand] in \<open>auto simp: refunds_of_def outbox_inv_def\<close>)
  then show ?thesis by (cases s) simp
qed

lemma failure_keeps:
  assumes inv: "outbox_inv D max_age s" and ph: "os_phase s p = Failing n c cs err"
    and now: "now \<le> os_clock s"
    and failed: "fail_row (dp_relay D p) now c err (os_rows s) = Inr (Some (rows, u))"
  shows "outbox_inv D max_age (s\<lparr>os_rows := rows,
      os_refunds := (if is_DeferError err then cl_id c # os_refunds s else os_refunds s),
      os_phase := (os_phase s)(p := next_phase n cs)\<rparr>)"
proof -
  note ids = outbox_inv_rules(1) [OF inv]
  let ?s = "s\<lparr>os_phase := (os_phase s)(p := next_phase n cs)\<rparr>"
  let ?rf = "if is_DeferError err then cl_id c # os_refunds s else os_refunds s"
  have hand: "in_hand (os_phase s p) = c # cs" by (simp add: ph)
  have inv': "outbox_inv D max_age ?s"
    by (rule drop_head [OF inv hand]) (simp add: ph)
  have c_ok: "claim_ok s c" by (rule outbox_inv_rules(4) [OF inv, of _ p]) (simp add: hand)
  have err: "dp_throws D err \<or> (\<exists>m. err = OtherError m)"
    using outbox_inv_rules(3) [OF inv, of p] by (simp add: process_ok_def ph)
  note change = outbox_relay.fail_effects(1) [OF contract failed ids]
  obtain h where h: "h \<in> set (os_rows s)" "lease_matches c h"
    using outbox_relay.fail_effects(2) [OF contract failed ids] by blast
  have "outbox_inv D max_age (?s\<lparr>os_rows := rows, os_world := os_world s, os_refunds := ?rf, os_sent := os_sent s\<rparr>)"
  proof (rule outbox_inv_release [OF inv', where c = c and w = "os_world s" and rf = ?rf and snt = "os_sent s" and E = "\<lambda>r r'. lease_matches c r \<and> fail_effect (dp_relay D p) now c err r r'"])
    show "list_all2 (\<lambda>r r'. if lease_matches c r then lease_matches c r \<and> fail_effect (dp_relay D p) now c err r r' else r' = r)
        (os_rows ?s) rows"
      by (simp, rule list_all2_mono [OF change]) (auto simp: fail_effect_def)
  next
    fix r r' assume r: "r \<in> set (os_rows ?s)" "lease_matches c r"
      "lease_matches c r \<and> fail_effect (dp_relay D p) now c err r r'"
    then have same: "ob_attempts r = cl_attempts c" "ob_id r = cl_id c"
      using c_ok by (auto simp: claim_ok_def lease_matches_def)
    have ok: "row_ok D max_age s r"
      using r(1) by (simp add: outbox_inv_rules(2) [OF inv])
    have pending: "ob_status r = Pending" "untouched D \<longrightarrow> ob_id r \<notin> set (os_sent s)"
      using ok r(2) by (auto simp: row_ok_def lease_matches_def settled_def)
    show "row_ok D max_age (?s\<lparr>os_rows := rows, os_world := os_world s, os_refunds := ?rf,
        os_sent := os_sent s\<rparr>) r'"
    proof (cases "is_DeferError err")
      case True
      with r have "same_row r r'" "ob_leaseToken r' = None" "ob_lockedUntil r' = None" "ob_status r' = Pending"
        "ob_terminalAt r' = None" "ob_attempts r' = ob_attempts r - 1"
        by (simp_all add: fail_effect_def)
      then show ?thesis
        using ok pending True same
        by (auto simp: row_ok_def same_row_def settled_def spare_def calls_of_def refunds_of_def)
    next
      case False
      with r have eff: "same_row r r'" "ob_leaseToken r' = None" "ob_lockedUntil r' = None"
        "ob_status r' = failure_status (dp_relay D p) c err"
        "ob_terminalAt r' = terminal_at (failure_status (dp_relay D p) c err) now" "ob_attempts r' = ob_attempts r"
        by (simp_all add: fail_effect_def)
      have "ob_status r' = Failed \<Longrightarrow> MAX_ATTEMPTS \<le> ob_attempts r \<or> (\<exists>m. dp_throws D (NonRetryableError m))"
        using failure_status_Failed [of "dp_relay D p" c err] err eff(4) same(1)
          outbox_relay.max_attempts [OF contract, of p] by auto
      moreover have "ob_status r' = Failed \<or> ob_status r' = Pending"
        using failure_status_cases [of "dp_relay D p" c err] eff(4) by simp
      ultimately show ?thesis
        using ok pending False eff
        by (auto simp: row_ok_def same_row_def settled_def spare_def calls_of_def refunds_of_def terminal_at_def)
    qed
  qed (use h inv head_dropped [OF inv hand] in \<open>auto simp: refunds_of_def outbox_inv_def fail_effect_def\<close>)
  then show ?thesis by (cases s) simp
qed

theorem step_keeps:
  assumes "relay_step D s s'" and inv: "outbox_inv D max_age s"
  shows "outbox_inv D max_age s'"
  using assms(1)
proof cases
  case (tick t)
  then show ?thesis using outbox_inv_tick [OF inv] by simp
next
  case (other_tables w)
  then show ?thesis using outbox_inv_world [OF inv] by simp
next
  case (enqueue r)
  then show ?thesis using outbox_inv_enqueue [OF inv] by simp
next
  case (remove keep)
  then show ?thesis using outbox_inv_remove [OF inv] by simp
next
  case (reset_by_hand now rows)
  then show ?thesis using reset_keeps [OF inv] by simp
next
  case (claim_batch p n now token locked rows batch)
  then show ?thesis using claim_keeps [OF inv] by simp
next
  case (renew p n c cs rows until)
  then show ?thesis using renew_keeps [OF inv] by simp
next
  case (finish_commits p n c cs res now rows w)
  then show ?thesis using finish_keeps [OF inv] by simp
next
  case (failure_commits p n c cs err now rows u)
  then show ?thesis using failure_keeps [OF inv] by simp
next
  case (crash p)
  show ?thesis unfolding crash(1) by (rule outbox_inv_phase [OF inv]) simp_all
next
  case (begin_pass p)
  show ?thesis unfolding begin_pass(1) by (rule outbox_inv_phase [OF inv]) simp_all
next
  case (end_pass p)
  show ?thesis unfolding end_pass(1) by (rule outbox_inv_phase [OF inv]) simp_all
next
  case (claim_throws p n)
  show ?thesis unfolding claim_throws(1) by (rule outbox_inv_phase [OF inv]) simp_all
next
  case (renew_skips p n c cs)
  then show ?thesis using drop_head [OF inv, of p c cs n] by auto
next
  case (finish_lost p n c cs res)
  then show ?thesis using drop_head [OF inv, of p c cs n] by auto
next
  case (failure_skips p n c cs err)
  then show ?thesis using drop_head [OF inv, of p c cs n] by auto
next
  case (delivered p n c cs res)
  then show ?thesis
    using outbox_inv_rules(6) [OF inv, of p] unfolding delivered(1)
    by (intro outbox_inv_phase [OF inv]) auto
next
  case (delivery_throws p n c cs err)
  then show ?thesis
    using outbox_inv_rules(6) [OF inv, of p] unfolding delivery_throws(1)
    by (intro outbox_inv_phase [OF inv]) auto
next
  case (finish_throws p n c cs res msg)
  then show ?thesis
    using outbox_inv_rules(6) [OF inv, of p] unfolding finish_throws(1)
    by (intro outbox_inv_phase [OF inv]) auto
qed

lemma reachable_inv: "outbox_reachable D s \<Longrightarrow> outbox_inv D max_age s"
proof (induction rule: outbox_reachable.induct)
  case (start w t)
  then show ?case by (simp add: initial_system_def outbox_inv_def process_ok_def)
next
  case (step s s')
  then show ?case by (simp add: step_keeps)
qed

text \<open>The row of a step, before and after.\<close>

lemma row_unchanged: "distinct (map ob_id rows) \<Longrightarrow> r \<in> set rows \<Longrightarrow> r' \<in> set rows \<Longrightarrow> ob_id r' = ob_id r \<Longrightarrow> r' = r"
  by (metis distinct_map inj_on_eq_iff)

lemma step_row:
  assumes step: "relay_step D s s'" and inv: "outbox_inv D max_age s"
    and r: "r \<in> set (os_rows s)" and r': "r' \<in> set (os_rows s')" and same: "ob_id r' = ob_id r"
  shows "r' = r
    \<or> (\<exists>now token until. claim_effect max_age now token until r r' \<and> token \<notin> os_tokens s \<and> now \<le> os_clock s)
    \<or> (\<exists>c until. lease_matches c r \<and> r' = r\<lparr>ob_lockedUntil := Some until\<rparr>)
    \<or> (\<exists>now c. lease_matches c r \<and> sent_effect now c r r')
    \<or> (\<exists>now c err p. lease_matches c r \<and> ob_attempts r = cl_attempts c \<and> fail_effect (dp_relay D p) now c err r r')
    \<or> (\<exists>now \<le> os_clock s. revived r r' \<and> dp_resets D now (os_rows s) (os_rows s'))"
proof -
  note ids = outbox_inv_rules(1) [OF inv]
  have keep: "r' = r" if "os_rows s' = os_rows s"
    using r r' same ids that by (simp add: row_unchanged)
  have pair: "P r r'" if "list_all2 P (os_rows s) (os_rows s')" "\<And>x y. P x y \<Longrightarrow> ob_id y = ob_id x" for P
    using list_all2_right [OF that(1) r'] that(2) r same ids by (metis distinct_map inj_on_eq_iff)
  show ?thesis
    using step
  proof cases
    case (enqueue q)
    then have "r' \<noteq> q" using same outbox_inv_rules(2) [OF inv r] by (auto simp: row_ok_def)
    then show ?thesis using enqueue r r' same ids by (auto dest: row_unchanged)
  next
    case (remove k)
    then show ?thesis using r r' same ids by (auto dest: row_unchanged)
  next
    case (reset_by_hand now rows)
    have "list_all2 (\<lambda>r r'. r' = r \<or> revived r r') (os_rows s) (os_rows s')"
      using resets [OF reset_by_hand(3)] by (simp add: reset_by_hand(1))
    then have "r' = r \<or> revived r r'" by (rule pair) (auto simp: revived_def row_change)
    with reset_by_hand show ?thesis by auto
  next
    case (claim_batch p n now token locked rows batch)
    obtain until where "list_all2 (claim_effect max_age now token until) (os_rows s) rows"
      by (rule outbox_relay.claim_effects [OF contract claim_batch(5) ids])
    then have "list_all2 (claim_effect max_age now token until) (os_rows s) (os_rows s')"
      by (simp add: claim_batch(1))
    from pair [OF this] have "claim_effect max_age now token until r r'"
      using claim_effect_same by (metis same_row_def)
    with claim_batch(3,4) show ?thesis by blast
  next
    case (renew p n c cs rows until)
    have "list_all2 (\<lambda>r r'. r' = (if lease_matches c r then r\<lparr>ob_lockedUntil := Some until\<rparr> else r)) (os_rows s) (os_rows s')"
      using outbox_relay.renew_effects(2) [OF contract renew(3)] by (simp add: renew(1))
    from pair [OF this] show ?thesis by (auto split: if_splits)
  next
    case (finish_commits p n c cs res now rows w)
    have "list_all2 (sent_effect now c) (os_rows s) (os_rows s')"
      using outbox_relay.sent_effects(1) [OF contract finish_commits(4) ids] by (simp add: finish_commits(1))
    then have eff: "sent_effect now c r r'"
      by (rule pair) (auto simp: sent_effect_def same_row_def split: if_splits)
    then show ?thesis by (cases "lease_matches c r") (auto simp: sent_effect_def)
  next
    case (failure_commits p n c cs err now rows u)
    have "list_all2 (fail_effect (dp_relay D p) now c err) (os_rows s) (os_rows s')"
      using outbox_relay.fail_effects(1) [OF contract failure_commits(4) ids] by (simp add: failure_commits(1))
    then have eff: "fail_effect (dp_relay D p) now c err r r'"
      by (rule pair) (auto simp: fail_effect_def same_row_def split: if_splits)
    have "claim_ok s c"
      by (rule outbox_inv_rules(4) [OF inv, of _ p]) (simp add: failure_commits)
    with r have "ob_attempts r = cl_attempts c" if "lease_matches c r"
      using that by (simp add: claim_ok_def lease_matches_def)
    moreover have "r' = r" if "\<not> lease_matches c r"
      using eff that by (simp add: fail_effect_def)
    ultimately show ?thesis using eff by blast
  qed (use keep in simp_all)
qed

end

section \<open>The life of a row\<close>

text \<open>
  The abstract machine an outbox row follows: it waits with the attempts it has spent, it is held
  under a token, it is done, or it is dead.
\<close>

datatype row_life = Waiting nat | Held nat nat | Done | Dead

fun life_of :: "row_status \<Rightarrow> nat \<Rightarrow> nat option \<Rightarrow> row_life" where
  "life_of Pending n None = Waiting n"
| "life_of Pending n (Some t) = Held n t"
| "life_of Sent _ _ = Done"
| "life_of Delivered _ _ = Done"
| "life_of Failed _ _ = Dead"

definition life :: "'z outbox_row_scheme \<Rightarrow> row_life" where
  "life r = life_of (ob_status r) (ob_attempts r) (ob_leaseToken r)"

inductive life_step :: "row_life \<Rightarrow> row_life \<Rightarrow> bool" where
  stay: "life_step l l"
| claimed: "n < MAX_ATTEMPTS \<Longrightarrow> life_step (Waiting n) (Held (n + 1) t)"
| reclaimed: "n < MAX_ATTEMPTS \<Longrightarrow> t \<noteq> t' \<Longrightarrow> life_step (Held n t) (Held (n + 1) t')"
| sent: "life_step (Held n t) Done"
| dead_lettered: "life_step (Held n t) Dead"
| retired: "life_step (Waiting n) Dead"
| retry: "n < MAX_ATTEMPTS \<Longrightarrow> life_step (Held n t) (Waiting n)"
| deferred: "life_step (Held n t) (Waiting (n - 1))"

inductive_cases life_step_from_Done: "life_step Done l"
inductive_cases life_step_from_Dead: "life_step Dead l"

context outbox_deployment
begin

lemma life_refines:
  assumes reach: "outbox_reachable D s" and step: "relay_step D s s'"
    and r: "r \<in> set (os_rows s)" and r': "r' \<in> set (os_rows s')" and same: "ob_id r' = ob_id r"
  shows "life_step (life r) (life r') \<or>
    (life r \<in> {Done, Dead} \<and> life r' = Waiting (ob_attempts r) \<and>
     (\<exists>now \<le> os_clock s. dp_resets D now (os_rows s) (os_rows s')))"
proof -
  have inv: "outbox_inv D max_age s" by (rule reachable_inv [OF reach])
  have ok: "row_ok D max_age s r" by (rule outbox_inv_rules(2) [OF inv r])
  have pending: "life r = Held (ob_attempts r) (cl_token c)" if "lease_matches c r" for c
    using ok that by (simp add: life_def row_ok_def lease_matches_def)
  from step_row [OF step inv r r' same] consider
    "r' = r"
    | now token until where "claim_effect max_age now token until r r'" "token \<notin> os_tokens s"
    | c until where "lease_matches c r" "r' = r\<lparr>ob_lockedUntil := Some until\<rparr>"
    | now c where "lease_matches c r" "sent_effect now c r r'"
    | now c err p where "lease_matches c r" "ob_attempts r = cl_attempts c" "fail_effect (dp_relay D p) now c err r r'"
    | now where "now \<le> os_clock s" "revived r r'" "dp_resets D now (os_rows s) (os_rows s')"
    by blast
  then show ?thesis
  proof cases
    case 6
    show ?thesis
    proof (cases "ob_status r = Pending")
      case True
      then have "life r' = life r" using 6(2) by (simp add: revived_def row_change life_def)
      then show ?thesis by (simp add: life_step.stay)
    next
      case False
      then have "ob_leaseToken r = None" using ok by (auto simp: row_ok_def)
      then have "life r' = Waiting (ob_attempts r)" using 6(2) by (simp add: revived_def row_change life_def)
      moreover have "life r \<in> {Done, Dead}" using False by (cases "ob_status r") (simp_all add: life_def)
      ultimately show ?thesis using 6 by blast
    qed
  next
    case 1
    then show ?thesis by (simp add: life_step.stay)
  next
    case 2
    from 2(1) consider "r' = r" | "retired now r r'" | "leased token until r r'" "due_now MAX_ATTEMPTS now r"
      by (auto simp: claim_effect_def)
    then show ?thesis
    proof cases
      case 1
      then show ?thesis by (simp add: life_step.stay)
    next
      case 2
      then show ?thesis
        by (cases "ob_leaseToken r") (auto simp: retired_def life_def intro: life_step.intros)
    next
      case 3
      then have r': "life r' = Held (ob_attempts r + 1) token" "ob_attempts r < MAX_ATTEMPTS" "ob_status r = Pending"
        by (simp_all add: leased_def due_now_def life_def)
      show ?thesis
      proof (cases "ob_leaseToken r")
        case None
        then show ?thesis
          using r' life_step.claimed [of "ob_attempts r" token] by (simp add: life_def)
      next
        case (Some t)
        then have "t \<noteq> token" using ok 2(2) by (auto simp: row_ok_def)
        then show ?thesis using r' Some life_step.reclaimed by (simp add: life_def)
      qed
    qed
  next
    case 3
    then show ?thesis by (simp add: life_def life_step.stay)
  next
    case 4
    then have "life r' = Done" by (auto simp: sent_effect_def settled_def life_def)
    then show ?thesis using pending [OF 4(1)] by (simp add: life_step.sent)
  next
    case 5
    show ?thesis
    proof (cases "is_DeferError err")
      case True
      then have "life r' = Waiting (ob_attempts r - 1)" using 5 by (simp add: fail_effect_def life_def)
      then show ?thesis 
        using pending [OF 5(1)] life_step.deferred [of "ob_attempts r" "cl_token c"] by simp
    next
      case False
      then have r': "ob_attempts r' = ob_attempts r" "ob_leaseToken r' = None" "ob_status r' = failure_status (dp_relay D p) c err"
        using 5 by (simp_all add: fail_effect_def)
      show ?thesis
      proof (cases "failure_status (dp_relay D p) c err = Failed")
        case True
        then show ?thesis using r' pending [OF 5(1)] by (simp add: life_def life_step.dead_lettered)
      next
        case False
        then have "life r' = Waiting (ob_attempts r)" "cl_attempts c < MAX_ATTEMPTS"
          using r' outbox_relay.max_attempts [OF contract, of p]
          by (auto simp: life_def failure_status_def Let_def split: if_splits)
        then show ?thesis using pending [OF 5(1)] 5(2) by (simp add: life_step.retry)
      qed
    qed
  qed
qed

lemma holder_is_alone:
  assumes reach: "outbox_reachable D s"
    and c: "c \<in> set (in_hand (os_phase s p))" and live: "os_clock s < cl_expires c"
  shows "(\<forall>q d. d \<in> set (in_hand (os_phase s q)) \<and> cl_id d = cl_id c \<and> os_clock s < cl_expires d \<longrightarrow> q = p \<and> d = c)
    \<and> (\<forall>r \<in> set (os_rows s). ob_id r = cl_id c \<longrightarrow> lease_matches c r \<and> ob_attempts r = cl_attempts c)"
proof (intro conjI allI impI ballI)
  note inv = reachable_inv [OF reach]
  fix q d assume d: "d \<in> set (in_hand (os_phase s q)) \<and> cl_id d = cl_id c \<and> os_clock s < cl_expires d"
  show "q = p"
    using outbox_inv_rules(5) [OF inv, of q p d c] d c live by (auto simp: apart_def)
  then show "d = c"
    using outbox_inv_rules(6) [OF inv, of p] d c by (metis distinct_map inj_on_eq_iff)
next
  fix r assume "r \<in> set (os_rows s)" "ob_id r = cl_id c"
  with outbox_inv_rules(4) [OF reachable_inv [OF reach] c] live
  show "lease_matches c r" "ob_attempts r = cl_attempts c"
    by (auto simp: claim_ok_def lease_matches_def split: if_splits)
qed

lemma deliveries_bounded:
  assumes reach: "outbox_reachable D s" and r: "r \<in> set (os_rows s)"
  shows "ob_attempts r \<le> MAX_ATTEMPTS \<and> calls_of s (ob_id r) \<le> ob_attempts r + refunds_of s (ob_id r) \<and>
    (untouched D \<longrightarrow> count_list (os_sent s) (ob_id r) = (if settled (ob_status r) then 1 else 0))"
proof -
  have inv: "outbox_inv D max_age s" by (rule reachable_inv [OF reach])
  then have d: "untouched D \<Longrightarrow> distinct (os_sent s)" by (simp add: outbox_inv_def)
  have ok: "row_ok D max_age s r" by (rule outbox_inv_rules(2) [OF inv r])
  then have "untouched D \<Longrightarrow> ob_id r \<in> set (os_sent s) \<longleftrightarrow> settled (ob_status r)" by (auto simp: row_ok_def)
  then have "untouched D \<longrightarrow> count_list (os_sent s) (ob_id r) = (if settled (ob_status r) then 1 else 0)"
    using count_list_distinct [OF d, of "ob_id r"] by simp
  then show ?thesis using ok by (simp add: row_ok_def)
qed

end

section \<open>A pass ends\<close>

text \<open>
  The transactions a process still has before it in its pass, when a claim hands out at most \<open>b\<close> rows: a
  row takes a renewal, a delivery, a finish and at most one recorded failure.
\<close>

fun pass_measure :: "nat \<Rightarrow> ('z, 'r) phase \<Rightarrow> nat" where
  "pass_measure b Idle = 0"
| "pass_measure b (Claiming n) = n * (4 * b + 2) + 1"
| "pass_measure b (Renewing n c cs) = n * (4 * b + 2) + 4 * List.length cs + 5"
| "pass_measure b (Delivering n c cs) = n * (4 * b + 2) + 4 * List.length cs + 4"
| "pass_measure b (Finishing n c cs r) = n * (4 * b + 2) + 4 * List.length cs + 3"
| "pass_measure b (Failing n c cs e) = n * (4 * b + 2) + 4 * List.length cs + 2"

lemma pass_measure_pos: "ph \<noteq> Idle \<Longrightarrow> 0 < pass_measure b ph"
  by (cases ph) simp_all

lemma pass_measure_next: "pass_measure b (next_phase n cs) = n * (4 * b + 2) + 4 * List.length cs + 1"
  by (simp add: next_phase_def split: list.splits)

context outbox_deployment
begin

lemma pass_moves_on:
  assumes reach: "outbox_reachable D s" and step: "relay_step D s s'"
    and moved: "os_phase s' p \<noteq> os_phase s p" and mid: "os_phase s p \<noteq> Idle"
  shows "pass_measure (rc_batchSize (dp_relay D p)) (os_phase s' p) <
    pass_measure (rc_batchSize (dp_relay D p)) (os_phase s p)"
proof -
  have len: "List.length batch \<le> rc_batchSize (dp_relay D p)"
    if "claim (dp_relay D p) now (os_clock s) token locked (os_world s) (os_rows s) = Inr (rows, batch)"
    for now token locked rows batch
    by (rule outbox_relay.claim_effects [OF contract that outbox_inv_rules(1) [OF reachable_inv [OF reach]]])
  from step moved mid show ?thesis
    by cases
      (auto simp: pass_measure_next pass_measure_pos split: if_splits dest!: len)
qed

end

section \<open>The relays as deployed\<close>

text \<open>
  Every process runs the one relay of its table; on the Graph table a process is an account or a scan
  relay. What surrounds each: the delivery of a notification never throws, a webhook delivery throws
  plain errors only, e-mail and Graph calls may throw anything; preferences and addresses,
  subscriptions and the Graph switch change at will. An administrator may retry any webhook delivery by
  hand (\<^verbatim>\<open>WebhooksService.retryDelivery\<close>); nothing else rewrites a row of an outbox.
\<close>

definition notification_deployment ::
    "(unit notification_outbox_row_ext, unit, notification_world) deployment" where
  "notification_deployment =
     \<lparr>dp_relay = (\<lambda>_. notification_relay), dp_initial = (\<lambda>w. nw_inApp w = [] \<and> nw_emails w = []),
      dp_world = (\<lambda>w w'. nw_inApp w' = nw_inApp w \<and> nw_emails w' = nw_emails w \<and> nw_nextId w' = nw_nextId w),
      dp_admits = (\<lambda>_ _. True), dp_throws = (\<lambda>_. False), dp_resets = (\<lambda>_ _ _. False)\<rparr>"

definition email_deployment :: "(unit email_outbox_row_ext, string option, unit) deployment" where
  "email_deployment =
     \<lparr>dp_relay = (\<lambda>_. email_relay), dp_initial = (\<lambda>_. True), dp_world = (\<lambda>_ _. True), dp_admits = (\<lambda>_ _. True), dp_throws = (\<lambda>_. True), dp_resets = (\<lambda>_ _ _. False)\<rparr>"

definition webhook_deployment :: "int \<Rightarrow> (unit webhook_row_ext, unit, subscription_row list) deployment" where
  "webhook_deployment h =
     \<lparr>dp_relay = (\<lambda>_. webhook_relay h), dp_initial = (\<lambda>_. True), dp_world = (\<lambda>_ _. True), dp_admits = (\<lambda>_ _. True),
      dp_throws = (\<lambda>e. \<exists>m. e = OtherError m),
      dp_resets = (\<lambda>now rows rows'. \<exists>i r. retry_delivery now i rows = Inr (r, rows'))\<rparr>"

definition graph_deployment ::
    "(nat \<Rightarrow> bool) \<Rightarrow> (graph_row list \<Rightarrow> graph_row \<Rightarrow> bool) \<Rightarrow> (unit graph_row_ext, unit, bool) deployment" where
  "graph_deployment account admits =
     \<lparr>dp_relay = (\<lambda>p. if account p then graph_account_relay else graph_scan_relay), dp_initial = (\<lambda>_. True), dp_world = (\<lambda>_ _. True),
      dp_admits = admits, dp_throws = (\<lambda>_. True), dp_resets = (\<lambda>_ _ _. False)\<rparr>"

lemma retry_revives:
  assumes "retry_delivery now i rows = Inr (r, rows')"
  shows "list_all2 (\<lambda>r r'. r' = r \<or> revived r r') rows rows'"
proof -
  have "rows' = update_id i (\<lambda>r. r\<lparr>ob_status := Pending, ob_due := now, ob_lastError := None\<rparr>) rows"
    using assms by (auto simp: retry_delivery_def Let_def split: option.splits)
  then show ?thesis
    unfolding update_id_def
    by (auto simp: revived_def row_change intro!: list_all2_mono [OF list_all2_update_where] split: if_splits)
qed

interpretation notifications: outbox_deployment notification_deployment None
  by (rule outbox_deployment.intro)
     (simp_all add: notification_deployment_def notification_contract.outbox_relay_axioms)

interpretation emails: outbox_deployment email_deployment None
  by (rule outbox_deployment.intro) (simp_all add: email_deployment_def email_contract.outbox_relay_axioms)

interpretation webhooks: outbox_deployment "webhook_deployment h" "Some (h * 3600000)" for h
  by (rule outbox_deployment.intro)
     (auto simp: webhook_deployment_def webhook_contract.outbox_relay_axioms dest: retry_revives)

interpretation graph: outbox_deployment "graph_deployment account admits" None for account admits
  by (rule outbox_deployment.intro)
     (simp_all add: graph_deployment_def graph_account_relay_def graph_scan_relay_def graph_contract.outbox_relay_axioms)

lemma no_resets [simp]:
  "\<not> dp_resets notification_deployment now nrows nrows'" "\<not> dp_resets email_deployment now erows erows'"
  "\<not> dp_resets (graph_deployment account admits) now rows rows'"
  by (simp_all add: notification_deployment_def email_deployment_def graph_deployment_def)

lemma untouched_deployments [simp]:
  "untouched notification_deployment" "untouched email_deployment" "untouched (graph_deployment account admits)"
  by (simp_all add: untouched_def notification_deployment_def email_deployment_def graph_deployment_def)

end
