(* ===== verification/OutboxGraph.thy ===== *)
theory OutboxGraph
  imports OutboxSafety
begin

text \<open>
  The order of Graph tasks: two tasks of one ordering key (one employee) are never held at once, as
  long as rows become visible in the order of their sequence numbers.
\<close>

definition task_ident :: "graph_row \<Rightarrow> string \<times> int \<times> string option" where
  "task_ident r = (ob_id r, ob_seq r, gr_orderingKey r)"

lemma task_ident_update_where:
  "(\<And>r. task_ident (f r) = task_ident r) \<Longrightarrow> map task_ident (update_where p f rows) = map task_ident rows"
  by (rule map_key_update_where)

lemmas graph_ops = graph_relay_def reap_abandoned_def default_before_select_def renew_lease_def finish_sent_def
  finish_def fail_row_def defer_row_def refund_attempt_def release_lease_def graph_mark_sent_def
  graph_mark_failed_def update_id_def

lemma graph_claim_ident:
  assumes "claim (graph_relay kinds n) now t1 token locked w rows = Inr (rows', batch)"
    and "distinct (map ob_id rows)"
  shows "map task_ident rows' = map task_ident rows"
proof (rule graph_contract.claim_batch [OF assms])
  fix rows2 due
  assume "rows2 = rc_beforeSelect (graph_relay kinds n) now locked (reap_abandoned (graph_relay kinds n) now rows)"
    and "rows' = (if due = [] then rows2 else update_where (\<lambda>r. ob_id r \<in> ob_id ` set due)
       (\<lambda>r. r\<lparr>ob_attempts := ob_attempts r + 1, ob_leaseToken := Some token,
              ob_lockedUntil := Some (t1 + sum_list (map (rc_leaseMsFor (graph_relay kinds n)) due))\<rparr>) rows2)"
  then show ?thesis
    by (simp add: graph_ops task_ident_def task_ident_update_where)
qed

lemma graph_write_ident:
  "renew_lease (graph_relay kinds n) t c rows = Some (rows', u) \<Longrightarrow> map task_ident rows' = map task_ident rows"
  "finish_sent (graph_relay kinds n) now c res rows w = Inr (Some (rows', w')) \<Longrightarrow> map task_ident rows' = map task_ident rows"
  "fail_row (graph_relay kinds n) now c err rows = Inr (Some (rows', x)) \<Longrightarrow> map task_ident rows' = map task_ident rows"
  by (auto simp: graph_ops result_simps task_ident_def task_ident_update_where Let_def split: if_splits relay_error.splits)

text \<open>A row that becomes leased had no earlier pending row of its key.\<close>

lemma graph_claim_first:
  assumes claim: "claim (graph_relay kinds n) now t1 token locked w rows = Inr (rows', batch)"
    and ids: "distinct (map ob_id rows)"
    and r': "r' \<in> set rows'" "ob_leaseToken r' = Some token" and fresh: "\<forall>r \<in> set rows. ob_leaseToken r \<noteq> Some token"
    and other: "q \<in> set rows'" "ob_status q = Pending" "gr_orderingKey q = gr_orderingKey r'" "gr_orderingKey r' \<noteq> None"
      "ob_id q \<noteq> ob_id r'"
  shows "\<not> ob_seq q < ob_seq r'"
proof (rule graph_contract.claim_batch [OF claim ids])
  fix rows2 due
  assume rows2: "rows2 = rc_beforeSelect (graph_relay kinds n) now locked (reap_abandoned (graph_relay kinds n) now rows)"
    and due: "due = rc_selectDue (graph_relay kinds n) w (rc_batchSize (graph_relay kinds n)) now locked rows2"
    and same: "map ob_id rows2 = map ob_id rows"
    and rows': "rows' = (if due = [] then rows2 else update_where (\<lambda>r. ob_id r \<in> ob_id ` set due)
       (\<lambda>r. r\<lparr>ob_attempts := ob_attempts r + 1, ob_leaseToken := Some token,
              ob_lockedUntil := Some (t1 + sum_list (map (rc_leaseMsFor (graph_relay kinds n)) due))\<rparr>) rows2)"
  let ?stamp = "\<lambda>r. r\<lparr>ob_attempts := ob_attempts r + 1, ob_leaseToken := Some token,
              ob_lockedUntil := Some (t1 + sum_list (map (rc_leaseMsFor (graph_relay kinds n)) due))\<rparr>"
  have unstamped: "ob_leaseToken r \<noteq> Some token" if "r \<in> set rows2" for r
    using that fresh by (auto simp: rows2 graph_ops set_update_where)
  obtain r where r: "r \<in> set rows2" "r' = (if ob_id r \<in> ob_id ` set due then ?stamp r else r)"
    using r'(1) by (auto simp: rows' set_update_where split: if_splits)
  then have "ob_id r \<in> ob_id ` set due" and r_same: "task_ident r' = task_ident r"
    using r'(2) unstamped [OF r(1)] by (auto simp: task_ident_def split: if_splits)
  then obtain d where "d \<in> set due" "ob_id d = ob_id r" by (metis imageE)
  moreover from this have "d \<in> set rows2"
    by (auto simp: due graph_relay_def graph_select_due_def dest: select_locked_member split: if_splits)
  ultimately have "r \<in> set due" using r(1) ids same by (metis distinct_map inj_on_eq_iff)
  then have free: "gr_orderingKey r = None \<or> \<not> list_ex (blocks_key now r) rows2"
    by (auto simp: due graph_relay_def graph_select_due_def dest: select_locked_member split: if_splits)
  obtain p where p: "p \<in> set rows2" "q = (if ob_id p \<in> ob_id ` set due then ?stamp p else p)"
    using other(1) by (auto simp: rows' set_update_where split: if_splits)
  then have "task_ident q = task_ident p" "ob_status p = Pending"
    using other(2) by (auto simp: task_ident_def split: if_splits)
  with free p(1) r_same other(3-5) show ?thesis
    by (auto simp: task_ident_def blocks_key_def list_ex_iff)
qed

section \<open>One task of a key at a time\<close>

definition in_order :: "graph_row list \<Rightarrow> graph_row \<Rightarrow> bool" where
  "in_order rows r \<longleftrightarrow> (\<forall>q \<in> set rows. ob_seq q < ob_seq r)"

definition first_of_key :: "graph_row list \<Rightarrow> graph_row \<Rightarrow> bool" where
  "first_of_key rows r \<longleftrightarrow>
     (\<forall>q \<in> set rows. ob_status q = Pending \<longrightarrow> gr_orderingKey q = gr_orderingKey r \<longrightarrow>
        ob_id q \<noteq> ob_id r \<longrightarrow> \<not> ob_seq q < ob_seq r)"

definition order_inv :: "graph_row list \<Rightarrow> bool" where
  "order_inv rows \<longleftrightarrow> distinct (map ob_seq rows) \<and>
     (\<forall>r \<in> set rows. ob_leaseToken r \<noteq> None \<longrightarrow> gr_orderingKey r \<noteq> None \<longrightarrow> first_of_key rows r)"

lemma graph_deployment_relay:
  "dp_relay (graph_deployment account admits) p =
     graph_relay (if account p then [ACCOUNT_RECONCILE] else [SHADOW_IT_SCAN, POSTURE_SYNC]) (if account p then 3 else 1)"
  by (simp add: graph_deployment_def graph_account_relay_def graph_scan_relay_def)

lemma pending_before:
  assumes "outbox_reachable (graph_deployment account admits) s" and "relay_step (graph_deployment account admits) s s'"
    and "q \<in> set (os_rows s)" and "q' \<in> set (os_rows s')" and "ob_id q' = ob_id q" and "ob_status q' = Pending"
  shows "ob_status q = Pending"
proof -
  have "life q' \<noteq> Done" "life q' \<noteq> Dead"
    using assms(6) by (cases "ob_leaseToken q'"; simp add: life_def)+
  then have "life q \<noteq> Done" "life q \<noteq> Dead"
    using graph.life_refines [OF assms(1-5)] by (auto elim: life_step_from_Done life_step_from_Dead)
  then show ?thesis by (cases "ob_status q") (auto simp: life_def)
qed

lemma order_inv_write:
  assumes reach: "outbox_reachable (graph_deployment account admits) s"
    and step: "relay_step (graph_deployment account admits) s s'"
    and inv: "order_inv (os_rows s)" and ident: "map task_ident (os_rows s') = map task_ident (os_rows s)"
    and held: "\<And>r r'. r \<in> set (os_rows s) \<Longrightarrow> r' \<in> set (os_rows s') \<Longrightarrow> task_ident r' = task_ident r \<Longrightarrow>
      ob_leaseToken r' \<noteq> None \<Longrightarrow> gr_orderingKey r' \<noteq> None \<Longrightarrow> ob_leaseToken r \<noteq> None \<or> first_of_key (os_rows s') r'"
  shows "order_inv (os_rows s')"
proof -
  have old: "\<exists>r \<in> set (os_rows s). task_ident r' = task_ident r" if "r' \<in> set (os_rows s')" for r'
  proof -
    have "task_ident r' \<in> set (map task_ident (os_rows s))" using that by (simp add: ident [symmetric])
    then show ?thesis by auto
  qed
  have "map ob_seq rows = map (\<lambda>(i, sq, k). sq) (map task_ident rows)" for rows
    by (simp add: task_ident_def)
  then have "map ob_seq (os_rows s') = map ob_seq (os_rows s)" by (simp only: ident)
  moreover have "first_of_key (os_rows s') r'"
    if r': "r' \<in> set (os_rows s')" "ob_leaseToken r' \<noteq> None" "gr_orderingKey r' \<noteq> None" for r'
  proof -
    obtain r where r: "r \<in> set (os_rows s)" "task_ident r' = task_ident r" using old [OF r'(1)] by blast
    show ?thesis
    proof (cases "ob_leaseToken r = None")
      case True
      then show ?thesis using held [OF r(1) r'(1) r(2) r'(2,3)] by blast
    next
      case False
      then have first: "first_of_key (os_rows s) r"
        using inv r r'(3) by (simp add: order_inv_def task_ident_def)
      show ?thesis
        unfolding first_of_key_def
      proof (intro ballI impI)
        fix q' assume q': "q' \<in> set (os_rows s')" "ob_status q' = Pending" "gr_orderingKey q' = gr_orderingKey r'"
          "ob_id q' \<noteq> ob_id r'"
        obtain q where q: "q \<in> set (os_rows s)" "task_ident q' = task_ident q" using old [OF q'(1)] by blast
        moreover from this have "ob_status q = Pending"
          using pending_before [OF reach step q(1) q'(1)] q'(2) by (simp add: task_ident_def)
        ultimately show "\<not> ob_seq q' < ob_seq r'"
          using first r(2) q'(3,4) by (simp add: first_of_key_def task_ident_def)
      qed
    qed
  qed
  ultimately show ?thesis using inv by (simp add: order_inv_def)
qed

theorem order_inv_step:
  assumes reach: "outbox_reachable (graph_deployment account in_order) s"
    and step: "relay_step (graph_deployment account in_order) s s'" and inv: "order_inv (os_rows s)"
  shows "order_inv (os_rows s')"
proof -
  note ids = outbox_inv_rules(1) [OF graph.reachable_inv [OF reach]]
  show ?thesis
    using step
  proof cases
    case (enqueue r)
    then have "\<forall>q \<in> set (os_rows s). ob_seq q < ob_seq r" "ob_leaseToken r = None"
      by (auto simp: graph_deployment_def in_order_def fresh_row_def)
    then show ?thesis
      using inv enqueue(1) by (fastforce simp: order_inv_def first_of_key_def)
  next
    case (remove k)
    then show ?thesis using inv by (auto simp: order_inv_def first_of_key_def distinct_map_filter)
  next
    case (claim_batch p n now token locked rows batch)
    note claim = claim_batch(5) [unfolded graph_deployment_relay]
    have fresh: "\<forall>r \<in> set (os_rows s). ob_leaseToken r \<noteq> Some token"
      using outbox_inv_rules(2) [OF graph.reachable_inv [OF reach]] claim_batch(4) by (auto simp: row_ok_def)
    obtain until where until: "list_all2 (claim_effect None now token until) (os_rows s) rows"
      by (rule graph_contract.claim_effects [OF claim ids])
    show ?thesis
    proof (rule order_inv_write [OF reach step inv])
      show "map task_ident (os_rows s') = map task_ident (os_rows s)"
        using graph_claim_ident [OF claim ids] by (simp add: claim_batch(1))
      fix r r' assume r: "r \<in> set (os_rows s)" "r' \<in> set (os_rows s')" "task_ident r' = task_ident r"
        "ob_leaseToken r' \<noteq> None" "gr_orderingKey r' \<noteq> None"
      have r'_in: "r' \<in> set rows" using r(2) by (simp add: claim_batch(1))
      obtain r0 where r0: "r0 \<in> set (os_rows s)" "claim_effect None now token until r0 r'"
        using list_all2_right [OF until r'_in] by blast
      then have "ob_id r0 = ob_id r'" using claim_effect_same by (metis same_row_def)
      then have "r0 = r" using r0(1) r(1,3) ids by (metis distinct_map inj_on_eq_iff task_ident_def prod.inject)
      then have "ob_leaseToken r \<noteq> None \<or> ob_leaseToken r' = Some token"
        using r0(2) r(4) by (auto simp: claim_effect_def row_change)
      then show "ob_leaseToken r \<noteq> None \<or> first_of_key (os_rows s') r'"
        using graph_claim_first [OF claim ids r'_in _ fresh] r(5)
        by (auto simp: first_of_key_def claim_batch(1))
    qed
  next
    case (renew p n c cs rows until)
    note renewed = renew(3) [unfolded graph_deployment_relay]
    show ?thesis
    proof (rule order_inv_write [OF reach step inv])
      show "map task_ident (os_rows s') = map task_ident (os_rows s)"
        using graph_write_ident(1) [OF renewed] by (simp add: renew(1))
      fix r r' assume r: "r \<in> set (os_rows s)" "r' \<in> set (os_rows s')" "task_ident r' = task_ident r" "ob_leaseToken r' \<noteq> None"
      have "r' \<in> set rows" using r(2) by (simp add: renew(1))
      from list_all2_right [OF graph_contract.renew_effects(2) [OF renewed] this]
      obtain r0 where "r0 \<in> set (os_rows s)" "ob_id r' = ob_id r0" "ob_leaseToken r' = ob_leaseToken r0"
        by (auto split: if_splits)
      then show "ob_leaseToken r \<noteq> None \<or> first_of_key (os_rows s') r'"
        using r ids by (metis distinct_map inj_on_eq_iff task_ident_def prod.inject)
    qed
  next
    case (finish_commits p n c cs res now rows w)
    note fin = finish_commits(4) [unfolded graph_deployment_relay]
    show ?thesis
    proof (rule order_inv_write [OF reach step inv])
      show "map task_ident (os_rows s') = map task_ident (os_rows s)"
        using graph_write_ident(2) [OF fin] by (simp add: finish_commits(1))
      fix r r' assume r: "r \<in> set (os_rows s)" "r' \<in> set (os_rows s')" "task_ident r' = task_ident r" "ob_leaseToken r' \<noteq> None"
      have "r' \<in> set rows" using r(2) by (simp add: finish_commits(1))
      from list_all2_right [OF graph_contract.sent_effects(1) [OF fin ids] this]
      obtain r0 where "r0 \<in> set (os_rows s)" "ob_id r' = ob_id r0" "ob_leaseToken r' = ob_leaseToken r0"
        using r(4) by (auto simp: sent_effect_def split: if_splits)
      then show "ob_leaseToken r \<noteq> None \<or> first_of_key (os_rows s') r'"
        using r ids by (metis distinct_map inj_on_eq_iff task_ident_def prod.inject)
    qed
  next
    case (failure_commits p n c cs err now rows u)
    note failed = failure_commits(4) [unfolded graph_deployment_relay]
    show ?thesis
    proof (rule order_inv_write [OF reach step inv])
      show "map task_ident (os_rows s') = map task_ident (os_rows s)"
        using graph_write_ident(3) [OF failed] by (simp add: failure_commits(1))
      fix r r' assume r: "r \<in> set (os_rows s)" "r' \<in> set (os_rows s')" "task_ident r' = task_ident r" "ob_leaseToken r' \<noteq> None"
      have "r' \<in> set rows" using r(2) by (simp add: failure_commits(1))
      from list_all2_right [OF graph_contract.fail_effects(1) [OF failed ids] this]
      obtain r0 where "r0 \<in> set (os_rows s)" "ob_id r' = ob_id r0" "ob_leaseToken r' = ob_leaseToken r0"
        using r(4) by (auto simp: fail_effect_def split: if_splits)
      then show "ob_leaseToken r \<noteq> None \<or> first_of_key (os_rows s') r'"
        using r ids by (metis distinct_map inj_on_eq_iff task_ident_def prod.inject)
    qed
  qed (use inv in simp_all)
qed

lemma order_inv_reachable:
  "outbox_reachable (graph_deployment account in_order) s \<Longrightarrow> order_inv (os_rows s)"
proof (induction rule: outbox_reachable.induct)
  case (start w t)
  then show ?case by (simp add: initial_system_def order_inv_def)
next
  case (step s s')
  then show ?case using order_inv_step by blast
qed

lemma one_holder_per_key:
  assumes reach: "outbox_reachable (graph_deployment account in_order) s"
    and r: "r \<in> set (os_rows s)" "ob_leaseToken r \<noteq> None" and q: "q \<in> set (os_rows s)" "ob_leaseToken q \<noteq> None"
    and key: "gr_orderingKey r = gr_orderingKey q" "gr_orderingKey r \<noteq> None"
  shows "r = q"
proof (rule ccontr)
  note inv = graph.reachable_inv [OF reach] and order = order_inv_reachable [OF reach]
  assume "r \<noteq> q"
  then have "ob_id r \<noteq> ob_id q" "ob_seq r \<noteq> ob_seq q"
    using r q outbox_inv_rules(1) [OF inv] order by (metis distinct_map inj_on_eq_iff order_inv_def)+
  moreover have "ob_status r = Pending" "ob_status q = Pending"
    using outbox_inv_rules(2) [OF inv] r q by (auto simp: row_ok_def)
  moreover have "first_of_key (os_rows s) r" "first_of_key (os_rows s) q"
    using order r q key by (auto simp: order_inv_def)
  ultimately have "\<not> ob_seq q < ob_seq r" "\<not> ob_seq r < ob_seq q"
    using r(1) q(1) key(1) by (auto simp: first_of_key_def)
  with \<open>ob_seq r \<noteq> ob_seq q\<close> show False by simp
qed


end
