(* ===== verification/RelayQueue.thy ===== *)
theory RelayQueue
  imports Prelude
begin

text \<open>
  How calls of \<^verbatim>\<open>relay()\<close> share passes: the fields \<^verbatim>\<open>inFlight\<close> and \<^verbatim>\<open>queued\<close> of
  \<^verbatim>\<open>AbstractOutboxRelay\<close> and the \<^verbatim>\<open>finally\<close> block of \<^verbatim>\<open>runOncePass\<close>
  (\<^verbatim>\<open>libs/platform/src/outbox/abstract-outbox-relay.ts\<close>).

  A promise is a number. \<open>rq_after\<close> holds the promises made by \<^verbatim>\<open>inFlight.then(() => runOnce())\<close>: such
  a promise starts its pass when the one it follows is fulfilled, and is rejected, without running
  anything, when that one is rejected. A pass that ends settles its promise in the same step as its
  \<^verbatim>\<open>finally\<close> block; the reactions to it run as steps of their own.
\<close>

section \<open>The two fields\<close>

record relay_queue =
  rq_next :: nat
  rq_inFlight :: "nat option"
  rq_queued :: "nat option"
  rq_after :: "nat \<Rightarrow> nat option"
  rq_started :: "nat set"
  rq_settled :: "nat \<Rightarrow> bool option"

definition idle_queue :: relay_queue where
  "idle_queue = \<lparr>rq_next = 0, rq_inFlight = None, rq_queued = None, rq_after = (\<lambda>_. None),
     rq_started = {}, rq_settled = (\<lambda>_. None)\<rparr>"

text \<open>\<^verbatim>\<open>relay()\<close>: the promise the caller awaits.\<close>

definition relay_call :: "relay_queue \<Rightarrow> nat \<times> relay_queue" where
  "relay_call q =
     (case rq_inFlight q of
        Some i \<Rightarrow>
          (case rq_queued q of
             Some w \<Rightarrow> (w, q)
           | None \<Rightarrow>
               (rq_next q, q\<lparr>rq_next := rq_next q + 1, rq_queued := Some (rq_next q),
                  rq_after := (rq_after q)(rq_next q := Some i)\<rparr>))
      | None \<Rightarrow>
          (rq_next q, q\<lparr>rq_next := rq_next q + 1, rq_inFlight := Some (rq_next q),
             rq_started := insert (rq_next q) (rq_started q)\<rparr>))"

definition running :: "relay_queue \<Rightarrow> nat \<Rightarrow> bool" where
  "running q p \<longleftrightarrow> p \<in> rq_started q \<and> rq_settled q p = None"

text \<open>The \<^verbatim>\<open>finally\<close> block of a pass, and its promise settling with \<open>ok\<close>.\<close>

definition pass_ends :: "nat \<Rightarrow> bool \<Rightarrow> relay_queue \<Rightarrow> relay_queue" where
  "pass_ends p ok q =
     q\<lparr>rq_inFlight := rq_queued q, rq_queued := None, rq_settled := (rq_settled q)(p := Some ok)\<rparr>"

text \<open>The reaction of a queued promise to the one it follows.\<close>

definition waiting_on :: "relay_queue \<Rightarrow> nat \<Rightarrow> nat \<Rightarrow> bool" where
  "waiting_on q w p \<longleftrightarrow> rq_after q w = Some p \<and> w \<notin> rq_started q \<and> rq_settled q w = None"

definition react :: "nat \<Rightarrow> bool \<Rightarrow> relay_queue \<Rightarrow> relay_queue" where
  "react w fulfilled q =
     (if fulfilled then q\<lparr>rq_started := insert w (rq_started q)\<rparr>
      else q\<lparr>rq_settled := (rq_settled q)(w := Some False)\<rparr>)"

inductive queue_step :: "relay_queue \<Rightarrow> relay_queue \<Rightarrow> bool" where
  call: "queue_step q (snd (relay_call q))"
| ends: "running q p \<Longrightarrow> queue_step q (pass_ends p ok q)"
| reacts: "waiting_on q w p \<Longrightarrow> rq_settled q p = Some ok \<Longrightarrow> queue_step q (react w ok q)"

inductive queue_reachable :: "relay_queue \<Rightarrow> bool" where
  start: "queue_reachable idle_queue"
| step: "queue_reachable q \<Longrightarrow> queue_step q q' \<Longrightarrow> queue_reachable q'"

section \<open>The invariant\<close>

text \<open>A running pass is the one in flight; a queued promise follows it; a promise that has neither run nor
  been rejected is queued behind the pass in flight, or is in flight itself.\<close>

definition queue_inv :: "relay_queue \<Rightarrow> bool" where
  "queue_inv q \<longleftrightarrow>
     (\<forall>p. p \<in> rq_started q \<longrightarrow> rq_settled q p = None \<longrightarrow> rq_inFlight q = Some p) \<and>
     (\<forall>w. rq_queued q = Some w \<longrightarrow> w \<notin> rq_started q) \<and>
     (\<forall>w. rq_queued q = Some w \<longrightarrow> rq_inFlight q \<noteq> None \<and> rq_after q w = rq_inFlight q) \<and>
     (\<forall>w p. rq_after q w = Some p \<longrightarrow> w \<notin> rq_started q \<longrightarrow> rq_settled q w = None \<longrightarrow>
        rq_queued q = Some w \<and> rq_inFlight q = Some p \<or> rq_inFlight q = Some w \<and> rq_settled q p \<noteq> None) \<and>
     (\<forall>i. rq_inFlight q = Some i \<longrightarrow> rq_settled q i \<noteq> Some True) \<and>
     (\<forall>p. rq_settled q p = Some True \<longrightarrow> p \<in> rq_started q) \<and>
     (\<forall>p. p \<in> rq_started q \<or> rq_settled q p \<noteq> None \<or> rq_after q p \<noteq> None \<or> rq_inFlight q = Some p \<or>
        rq_queued q = Some p \<longrightarrow> p < rq_next q) \<and>
     (\<forall>p < rq_next q. p \<in> rq_started q \<or> rq_after q p \<noteq> None)"

lemma queue_invD:
  assumes "queue_inv q"
  shows "p \<in> rq_started q \<Longrightarrow> rq_settled q p = None \<Longrightarrow> rq_inFlight q = Some p"
    and "rq_queued q = Some w \<Longrightarrow> w \<notin> rq_started q"
    and "rq_queued q = Some w \<Longrightarrow> rq_inFlight q \<noteq> None \<and> rq_after q w = rq_inFlight q"
    and "rq_after q w = Some p \<Longrightarrow> w \<notin> rq_started q \<Longrightarrow> rq_settled q w = None \<Longrightarrow>
        rq_queued q = Some w \<and> rq_inFlight q = Some p \<or> rq_inFlight q = Some w \<and> rq_settled q p \<noteq> None"
    and "rq_inFlight q = Some i \<Longrightarrow> rq_settled q i \<noteq> Some True"
    and "rq_settled q p = Some True \<Longrightarrow> p \<in> rq_started q"
    and "p \<in> rq_started q \<or> rq_settled q p \<noteq> None \<or> rq_after q p \<noteq> None \<or> rq_inFlight q = Some p \<or>
        rq_queued q = Some p \<Longrightarrow> p < rq_next q"
    and "p < rq_next q \<Longrightarrow> p \<in> rq_started q \<or> rq_after q p \<noteq> None"
  using assms unfolding queue_inv_def by blast+

lemma queue_invI:
  assumes "\<And>p. p \<in> rq_started q \<Longrightarrow> rq_settled q p = None \<Longrightarrow> rq_inFlight q = Some p"
    and "\<And>w. rq_queued q = Some w \<Longrightarrow> w \<notin> rq_started q"
    and "\<And>w. rq_queued q = Some w \<Longrightarrow> rq_inFlight q \<noteq> None \<and> rq_after q w = rq_inFlight q"
    and "\<And>w p. rq_after q w = Some p \<Longrightarrow> w \<notin> rq_started q \<Longrightarrow> rq_settled q w = None \<Longrightarrow>
        rq_queued q = Some w \<and> rq_inFlight q = Some p \<or> rq_inFlight q = Some w \<and> rq_settled q p \<noteq> None"
    and "\<And>i. rq_inFlight q = Some i \<Longrightarrow> rq_settled q i \<noteq> Some True"
    and "\<And>p. rq_settled q p = Some True \<Longrightarrow> p \<in> rq_started q"
    and "\<And>p. p \<in> rq_started q \<or> rq_settled q p \<noteq> None \<or> rq_after q p \<noteq> None \<or> rq_inFlight q = Some p \<or>
        rq_queued q = Some p \<Longrightarrow> p < rq_next q"
    and "\<And>p. p < rq_next q \<Longrightarrow> p \<in> rq_started q \<or> rq_after q p \<noteq> None"
  shows "queue_inv q"
  unfolding queue_inv_def by (intro conjI; intro allI impI; (rule assms; assumption))

lemma queue_inv_idle: "queue_inv idle_queue"
  by (simp add: queue_inv_def idle_queue_def)

lemma queue_inv_call:
  assumes inv: "queue_inv q"
  shows "queue_inv (snd (relay_call q))"
proof -
  note I = queue_invD [OF inv]
  have new: "rq_next q \<notin> rq_started q" "rq_settled q (rq_next q) = None" "rq_after q (rq_next q) = None"
    "rq_queued q \<noteq> Some (rq_next q)" "rq_inFlight q \<noteq> Some (rq_next q)"
    using I(7) [of "rq_next q"] by (simp_all only: less_irrefl) blast+
  show ?thesis
  proof (cases "rq_inFlight q")
    case None
    then have idle: "rq_queued q = None" "\<And>p. p \<in> rq_started q \<Longrightarrow> rq_settled q p \<noteq> None"
      "\<And>w p. rq_after q w = Some p \<Longrightarrow> w \<in> rq_started q \<or> rq_settled q w \<noteq> None"
      using I(1,3,4) by (metis option.exhaust option.distinct(1))+
    let ?n = "rq_next q"
    let ?q = "q\<lparr>rq_next := ?n + 1, rq_inFlight := Some ?n, rq_started := insert ?n (rq_started q)\<rparr>"
    have "queue_inv ?q"
    proof (rule queue_invI)
      fix p assume *: "p \<in> rq_started ?q" "rq_settled ?q p = None"
      show "rq_inFlight ?q = Some p"
        using * idle(2) [of p] by auto
    next
      fix v assume *: "rq_queued ?q = Some v"
      show "v \<notin> rq_started ?q"
        using * idle(1) by simp
    next
      fix v assume *: "rq_queued ?q = Some v"
      show "rq_inFlight ?q \<noteq> None \<and> rq_after ?q v = rq_inFlight ?q"
        using * idle(1) by simp
    next
      fix v u assume *: "rq_after ?q v = Some u" "v \<notin> rq_started ?q" "rq_settled ?q v = None"
      show "rq_queued ?q = Some v \<and> rq_inFlight ?q = Some u \<or> rq_inFlight ?q = Some v \<and> rq_settled ?q u \<noteq> None"
        using * idle(3) [of v u] by auto
    next
      fix v assume *: "rq_inFlight ?q = Some v"
      show "rq_settled ?q v \<noteq> Some True"
        using * new(2) by simp
    next
      fix v assume *: "rq_settled ?q v = Some True"
      show "v \<in> rq_started ?q"
        using * I(6) [of v] by simp
    next
      fix v assume *: "v \<in> rq_started ?q \<or> rq_settled ?q v \<noteq> None \<or> rq_after ?q v \<noteq> None \<or> rq_inFlight ?q = Some v \<or> rq_queued ?q = Some v"
      show "v < rq_next ?q"
        using * idle(1) I(7) [of v] by (cases "v = ?n") auto
    next
      fix v assume *: "v < rq_next ?q"
      show "v \<in> rq_started ?q \<or> rq_after ?q v \<noteq> None"
        using * I(8) [of v] by (auto simp: less_Suc_eq)
    qed
    then show ?thesis by (simp add: relay_call_def None)
  next
    case (Some i)
    show ?thesis
    proof (cases "rq_queued q")
      case None
      let ?n = "rq_next q"
      let ?q = "q\<lparr>rq_next := ?n + 1, rq_queued := Some ?n, rq_after := (rq_after q)(?n := Some i)\<rparr>"
      have "queue_inv ?q"
    proof (rule queue_invI)
      fix p assume *: "p \<in> rq_started ?q" "rq_settled ?q p = None"
      show "rq_inFlight ?q = Some p"
        using * I(1) [of p] by simp
    next
      fix v assume *: "rq_queued ?q = Some v"
      show "v \<notin> rq_started ?q"
        using * new(1) by simp
    next
      fix v assume *: "rq_queued ?q = Some v"
      show "rq_inFlight ?q \<noteq> None \<and> rq_after ?q v = rq_inFlight ?q"
        using * Some by simp
    next
      fix v u assume *: "rq_after ?q v = Some u" "v \<notin> rq_started ?q" "rq_settled ?q v = None"
      show "rq_queued ?q = Some v \<and> rq_inFlight ?q = Some u \<or> rq_inFlight ?q = Some v \<and> rq_settled ?q u \<noteq> None"
        using * I(4) [of v u] Some None by (auto split: if_splits)
    next
      fix v assume *: "rq_inFlight ?q = Some v"
      show "rq_settled ?q v \<noteq> Some True"
        using * I(5) [of v] by simp
    next
      fix v assume *: "rq_settled ?q v = Some True"
      show "v \<in> rq_started ?q"
        using * I(6) [of v] by simp
    next
      fix v assume *: "v \<in> rq_started ?q \<or> rq_settled ?q v \<noteq> None \<or> rq_after ?q v \<noteq> None \<or> rq_inFlight ?q = Some v \<or> rq_queued ?q = Some v"
      show "v < rq_next ?q"
        using * I(7) [of v] by (cases "v = ?n") auto
    next
      fix v assume *: "v < rq_next ?q"
      show "v \<in> rq_started ?q \<or> rq_after ?q v \<noteq> None"
        using * I(8) [of v] by (auto simp: less_Suc_eq)
    qed
      then show ?thesis by (simp add: relay_call_def Some None)
    qed (use Some inv in \<open>simp add: relay_call_def\<close>)
  qed
qed

lemma queue_inv_ends:
  assumes inv: "queue_inv q" and run: "running q p"
  shows "queue_inv (pass_ends p ok q)"
proof -
  note I = queue_invD [OF inv]
  have p: "p \<in> rq_started q" "rq_settled q p = None" "rq_inFlight q = Some p"
    using run I(1) by (auto simp: running_def)
  have queued: "rq_settled q w \<noteq> Some True" if "rq_queued q = Some w" for w
    using that I(2,6) by blast
  have only: "v = p" if "v \<in> rq_started q" "rq_settled q v = None" for v
    using I(1) [of v] that p(3) by simp
  have "queue_inv (pass_ends p ok q)"
    proof (rule queue_invI)
      fix v assume *: "v \<in> rq_started (pass_ends p ok q)" "rq_settled (pass_ends p ok q) v = None"
      then show "rq_inFlight (pass_ends p ok q) = Some v"
        using only [of v] by (simp add: pass_ends_def split: if_splits)
    next
      fix v assume *: "rq_queued (pass_ends p ok q) = Some v"
      show "v \<notin> rq_started (pass_ends p ok q)"
        using * by (simp add: pass_ends_def)
    next
      fix v assume *: "rq_queued (pass_ends p ok q) = Some v"
      show "rq_inFlight (pass_ends p ok q) \<noteq> None \<and> rq_after (pass_ends p ok q) v = rq_inFlight (pass_ends p ok q)"
        using * by (simp add: pass_ends_def)
    next
      fix v u assume *: "rq_after (pass_ends p ok q) v = Some u" "v \<notin> rq_started (pass_ends p ok q)" "rq_settled (pass_ends p ok q) v = None"
      show "rq_queued (pass_ends p ok q) = Some v \<and> rq_inFlight (pass_ends p ok q) = Some u \<or> rq_inFlight (pass_ends p ok q) = Some v \<and> rq_settled (pass_ends p ok q) u \<noteq> None"
        using * I(4) [of v u] p by (auto simp: pass_ends_def split: if_splits)
    next
      fix v assume *: "rq_inFlight (pass_ends p ok q) = Some v"
      show "rq_settled (pass_ends p ok q) v \<noteq> Some True"
        using * queued [of v] I(2) [of v] p(1) by (auto simp: pass_ends_def)
    next
      fix v assume *: "rq_settled (pass_ends p ok q) v = Some True"
      show "v \<in> rq_started (pass_ends p ok q)"
        using * I(6) [of v] p(1) by (auto simp: pass_ends_def split: if_splits)
    next
      fix v assume *: "v \<in> rq_started (pass_ends p ok q) \<or> rq_settled (pass_ends p ok q) v \<noteq> None \<or> rq_after (pass_ends p ok q) v \<noteq> None \<or> rq_inFlight (pass_ends p ok q) = Some v \<or> rq_queued (pass_ends p ok q) = Some v"
      show "v < rq_next (pass_ends p ok q)"
        using * I(7) [of v] p by (auto simp: pass_ends_def split: if_splits)
    next
      fix v assume *: "v < rq_next (pass_ends p ok q)"
      show "v \<in> rq_started (pass_ends p ok q) \<or> rq_after (pass_ends p ok q) v \<noteq> None"
        using * I(8) [of v] by (simp add: pass_ends_def)
    qed
  then show ?thesis .
qed

lemma queue_inv_reacts:
  assumes inv: "queue_inv q" and w: "waiting_on q w p" and ok: "rq_settled q p = Some ok"
  shows "queue_inv (react w ok q)"
proof -
  note I = queue_invD [OF inv]
  have w: "rq_after q w = Some p" "w \<notin> rq_started q" "rq_settled q w = None" "rq_inFlight q = Some w \<or> rq_inFlight q = Some p"
    "rq_queued q \<noteq> Some w \<or> ok = False"
    using w ok I(3) [of w] I(4) [of w p] I(5) [of p] by (auto simp: waiting_on_def)
  have w_next: "w < rq_next q" using w(1) I(7) [of w] by simp
  show ?thesis
  proof (cases ok)
    case True
    then have flight: "rq_inFlight q = Some w" "rq_queued q \<noteq> Some w"
      using w ok I(5) [of p] True by auto
    let ?q = "q\<lparr>rq_started := insert w (rq_started q)\<rparr>"
    have "queue_inv ?q"
    proof (rule queue_invI)
      fix p assume *: "p \<in> rq_started ?q" "rq_settled ?q p = None"
      show "rq_inFlight ?q = Some p"
        using * I(1) [of p] flight(1) by auto
    next
      fix v assume *: "rq_queued ?q = Some v"
      show "v \<notin> rq_started ?q"
        using * I(2) [of v] flight(2) by auto
    next
      fix v assume *: "rq_queued ?q = Some v"
      show "rq_inFlight ?q \<noteq> None \<and> rq_after ?q v = rq_inFlight ?q"
        using * I(3) [of v] by simp
    next
      fix v u assume *: "rq_after ?q v = Some u" "v \<notin> rq_started ?q" "rq_settled ?q v = None"
      show "rq_queued ?q = Some v \<and> rq_inFlight ?q = Some u \<or> rq_inFlight ?q = Some v \<and> rq_settled ?q u \<noteq> None"
        using * I(4) [of v u] by simp
    next
      fix v assume *: "rq_inFlight ?q = Some v"
      show "rq_settled ?q v \<noteq> Some True"
        using * I(5) [of v] by simp
    next
      fix v assume *: "rq_settled ?q v = Some True"
      show "v \<in> rq_started ?q"
        using * I(6) [of v] by simp
    next
      fix v assume *: "v \<in> rq_started ?q \<or> rq_settled ?q v \<noteq> None \<or> rq_after ?q v \<noteq> None \<or> rq_inFlight ?q = Some v \<or> rq_queued ?q = Some v"
      show "v < rq_next ?q"
        using * I(7) [of v] w_next by auto
    next
      fix v assume *: "v < rq_next ?q"
      show "v \<in> rq_started ?q \<or> rq_after ?q v \<noteq> None"
        using * I(8) [of v] by auto
    qed
    then show ?thesis by (simp add: react_def True)
  next
    case False
    let ?q = "q\<lparr>rq_settled := (rq_settled q)(w := Some False)\<rparr>"
    have "queue_inv ?q"
    proof (rule queue_invI)
      fix p assume *: "p \<in> rq_started ?q" "rq_settled ?q p = None"
      show "rq_inFlight ?q = Some p"
        using * I(1) [of p] by (simp split: if_splits)
    next
      fix v assume *: "rq_queued ?q = Some v"
      show "v \<notin> rq_started ?q"
        using * I(2) [of v] by simp
    next
      fix v assume *: "rq_queued ?q = Some v"
      show "rq_inFlight ?q \<noteq> None \<and> rq_after ?q v = rq_inFlight ?q"
        using * I(3) [of v] by simp
    next
      fix v u assume *: "rq_after ?q v = Some u" "v \<notin> rq_started ?q" "rq_settled ?q v = None"
      show "rq_queued ?q = Some v \<and> rq_inFlight ?q = Some u \<or> rq_inFlight ?q = Some v \<and> rq_settled ?q u \<noteq> None"
        using * I(4) [of v u] by (auto split: if_splits)
    next
      fix v assume *: "rq_inFlight ?q = Some v"
      show "rq_settled ?q v \<noteq> Some True"
        using * I(5) [of v] by simp
    next
      fix v assume *: "rq_settled ?q v = Some True"
      show "v \<in> rq_started ?q"
        using * I(6) [of v] by (simp split: if_splits)
    next
      fix v assume *: "v \<in> rq_started ?q \<or> rq_settled ?q v \<noteq> None \<or> rq_after ?q v \<noteq> None \<or> rq_inFlight ?q = Some v \<or> rq_queued ?q = Some v"
      show "v < rq_next ?q"
        using * I(7) [of v] w_next by (cases "v = w") auto
    next
      fix v assume *: "v < rq_next ?q"
      show "v \<in> rq_started ?q \<or> rq_after ?q v \<noteq> None"
        using * I(8) [of v] by simp
    qed
    then show ?thesis by (simp add: react_def False)
  qed
qed

lemma queue_inv_step: "queue_step q q' \<Longrightarrow> queue_inv q \<Longrightarrow> queue_inv q'"
  by (induction rule: queue_step.induct) (simp_all add: queue_inv_call queue_inv_ends queue_inv_reacts)

lemma queue_reachable_inv: "queue_reachable q \<Longrightarrow> queue_inv q"
  by (induction rule: queue_reachable.induct) (auto intro: queue_inv_idle queue_inv_step)

lemma follows_earlier: "queue_reachable q \<Longrightarrow> rq_after q w = Some p \<Longrightarrow> p < w"
proof (induction arbitrary: w p rule: queue_reachable.induct)
  case start
  then show ?case by (simp add: idle_queue_def)
next
  case (step q q')
  from step.hyps(2) show ?case
  proof cases
    case call
    then show ?thesis
      using step.IH [of w p] step.prems queue_invD(7) [OF queue_reachable_inv [OF step.hyps(1)], of p]
      by (auto simp: relay_call_def split: option.splits if_splits)
  qed (use step.IH [of w p] step.prems in \<open>auto simp: pass_ends_def react_def split: if_splits\<close>)
qed

section \<open>A relay none of whose passes throw\<close>

definition quiet :: "relay_queue \<Rightarrow> bool" where
  "quiet q \<longleftrightarrow> (\<forall>p. \<not> running q p) \<and> (\<forall>w p. waiting_on q w p \<longrightarrow> rq_settled q p = None)"

text \<open>Nothing is left waiting: when no step is due, every promise has been resolved by a pass of its own.\<close>

lemma quiet_all_resolved:
  assumes reach: "queue_reachable q" and ok: "\<And>p. rq_settled q p \<noteq> Some False" and quiet: "quiet q"
    and p: "p < rq_next q"
  shows "p \<in> rq_started q \<and> rq_settled q p = Some True"
proof -
  note I = queue_invD [OF queue_reachable_inv [OF reach]]
  have done_started: "rq_settled q v = Some True" if "v \<in> rq_started q" for v
    using that quiet ok [of v] by (cases "rq_settled q v") (auto simp: quiet_def running_def)
  have waits: "\<exists>u. waiting_on q v u \<and> rq_queued q = Some v \<and> rq_inFlight q = Some u" if v: "v \<notin> rq_started q" "v < rq_next q" for v
  proof -
    obtain u where u: "rq_after q v = Some u" using I(8) [OF v(2)] v(1) by auto
    moreover have "rq_settled q v = None"
      using ok [of v] I(6) [of v] v(1) by (cases "rq_settled q v") auto
    ultimately have "waiting_on q v u" using v(1) by (simp add: waiting_on_def)
    then show ?thesis
      using I(4) [OF u v(1)] quiet by (auto simp: waiting_on_def quiet_def)
  qed
  have "p \<in> rq_started q"
  proof (rule ccontr)
    assume "p \<notin> rq_started q"
    then obtain u where u: "waiting_on q p u" "rq_queued q = Some p" "rq_inFlight q = Some u"
      using waits p by blast
    then have "rq_settled q u = None" using quiet by (auto simp: quiet_def)
    then have "u \<notin> rq_started q" using quiet by (auto simp: quiet_def running_def)
    moreover have "u < rq_next q" using I(7) [of u] u(3) by simp
    ultimately have "rq_queued q = Some u" using waits by blast
    then show False
      using u follows_earlier [OF reach, of p u] by (simp add: waiting_on_def)
  qed
  then show ?thesis using done_started by simp
qed

section \<open>A pass that throws while a caller is queued\<close>

definition wedged :: "relay_queue \<Rightarrow> bool" where
  "wedged q \<longleftrightarrow> rq_inFlight q \<noteq> None \<and> (\<forall>p. \<not> running q p) \<and>
     (\<forall>i. rq_inFlight q = Some i \<longrightarrow> rq_settled q i \<noteq> Some True) \<and>
     (\<forall>w p. waiting_on q w p \<longrightarrow> rq_settled q p \<noteq> Some True)"

lemma wedged_step:
  assumes "queue_step q q'" and "wedged q"
  shows "wedged q' \<and> rq_started q' = rq_started q"
  using assms(1)
proof cases
  case call
  then show ?thesis
    using assms(2) by (auto simp: wedged_def relay_call_def running_def waiting_on_def split: option.splits if_splits)
next
  case (ends p ok)
  then show ?thesis using assms(2) by (simp add: wedged_def)
next
  case (reacts w p ok)
  then have "ok = False" using assms(2) by (auto simp: wedged_def)
  then show ?thesis
    using reacts assms(2)
    by (auto simp: wedged_def react_def running_def waiting_on_def split: if_splits)
qed

lemma wedged_steps: "queue_step\<^sup>*\<^sup>* q q' \<Longrightarrow> wedged q \<Longrightarrow> wedged q' \<and> rq_started q' = rq_started q"
  by (induction rule: rtranclp_induct) (auto dest: wedged_step)

lemma failed_pass_wedges:
  assumes reach: "queue_reachable q" and run: "running q p" and queued: "rq_queued q = Some w"
  shows "wedged (pass_ends p False q)"
proof -
  note I = queue_invD [OF queue_reachable_inv [OF reach]]
  have p: "rq_inFlight q = Some p" "\<And>v. running q v \<Longrightarrow> v = p"
    using I(1) [of p] I(1) run unfolding running_def by (simp, metis option.inject)
  have "rq_settled q w \<noteq> Some True" using I(2,6) queued by blast
  moreover have "rq_settled q u \<noteq> Some True" if "waiting_on q v u" for v u
    using that I(4) [of v u] I(5) [of u] p(1) run by (auto simp: waiting_on_def running_def)
  moreover have "rq_settled q v \<noteq> None" if "v \<in> rq_started q" "v \<noteq> p" for v
    using that p(2) [of v] by (auto simp: running_def)
  ultimately show ?thesis
    using queued p unfolding wedged_def pass_ends_def
    by (auto simp: running_def waiting_on_def split: if_splits)
qed

end
