(* ===== verification/OutboxProperties.thy ===== *)
theory OutboxProperties
  imports OutboxGraph RelayQueue
begin

text \<open>
  The claims on the outbox relays: sharing of passes, leases, the life of a row, the delivery of
  notifications, manual retries of webhooks, and the order of Graph tasks.
\<close>

section \<open>Sharing of passes\<close>

lemma call_starts_later:
  assumes "queue_reachable q"
  shows "fst (relay_call q) \<notin> rq_started q"
  using queue_invD(2,7) [OF queue_reachable_inv [OF assms]]
  by (fastforce simp: relay_call_def split: option.splits)

text \<open>C13. A caller of \<^verbatim>\<open>relay()\<close> never shares the pass already in flight: the promise it gets is that of
  the pass its own call starts, when the relay was idle, and otherwise one whose pass has not started.
  One pass runs at a time. As long as no pass throws, once nothing is left to do every promise handed
  out has been resolved by a pass that ran.\<close>

theorem every_call_gets_a_later_pass:
  assumes "queue_reachable q" and "relay_call q = (p, q')"
  shows "p \<notin> rq_started q \<and> (rq_inFlight q = None \<longrightarrow> running q' p) \<and>
    (\<forall>a b. running q' a \<and> running q' b \<longrightarrow> a = b) \<and>
    ((\<forall>v. rq_settled q v \<noteq> Some False) \<and> quiet q \<longrightarrow>
      (\<forall>v < rq_next q. v \<in> rq_started q \<and> rq_settled q v = Some True))"
proof -
  note I = queue_invD [OF queue_reachable_inv [OF assms(1)]]
  have q': "q' = snd (relay_call q)" using assms(2) by simp
  have inv': "queue_inv q'"
    unfolding q' by (rule queue_inv_call [OF queue_reachable_inv [OF assms(1)]])
  have fresh: "rq_settled q (rq_next q) = None"
    using I(7) [of "rq_next q"] by (simp only: less_irrefl) blast
  have "p \<notin> rq_started q"
    using call_starts_later [OF assms(1)] assms(2) by simp
  moreover have "rq_inFlight q = None \<longrightarrow> running q' p"
  proof
    assume "rq_inFlight q = None"
    with fresh have "running (snd (relay_call q)) (fst (relay_call q))"
      by (simp add: relay_call_def running_def)
    with assms(2) show "running q' p" by simp
  qed
  moreover have "running q' a \<and> running q' b \<longrightarrow> a = b" for a b
    using queue_invD(1) [OF inv', of a] queue_invD(1) [OF inv', of b] by (auto simp: running_def)
  ultimately show ?thesis
    using quiet_all_resolved [OF assms(1)] by blast
qed

definition one_call :: relay_queue where
  "one_call = \<lparr>rq_next = 1, rq_inFlight = Some 0, rq_queued = None, rq_after = (\<lambda>_. None),
     rq_started = {0}, rq_settled = (\<lambda>_. None)\<rparr>"

definition two_calls :: relay_queue where
  "two_calls = \<lparr>rq_next = 2, rq_inFlight = Some 0, rq_queued = Some 1, rq_after = (\<lambda>_. None)(1 := Some 0),
     rq_started = {0}, rq_settled = (\<lambda>_. None)\<rparr>"

lemma calls:
  "relay_call idle_queue = (0, one_call)"
  "relay_call one_call = (1, two_calls)"
  "relay_call two_calls = (1, two_calls)"
  by (simp_all add: relay_call_def idle_queue_def one_call_def two_calls_def)

lemma two_calls_reachable: "queue_reachable two_calls"
  using queue_reachable.step [OF queue_reachable.step [OF queue_reachable.start queue_step.call] queue_step.call]
  by (simp add: calls)

theorem every_call_gets_a_later_pass_witness:
  "relay_call two_calls = (1, two_calls) \<and> 1 \<notin> rq_started two_calls"
  using conjunct1 [OF every_call_gets_a_later_pass [OF two_calls_reachable calls(3)]] calls(3)
  by simp

text \<open>One pass that throws (its claim lost the database connection) while a caller is queued
  behind it stops the relay for good: the queued promise is rejected without running a pass, stays in
  \<^verbatim>\<open>inFlight\<close>, and whatever is called afterwards no pass ever starts again.\<close>

theorem failed_pass_stops_the_relay:
  assumes "queue_reachable q" and "running q p" and "rq_queued q = Some w"
    and "queue_step\<^sup>*\<^sup>* (pass_ends p False q) later"
  shows "rq_started later = rq_started q \<and> rq_inFlight later \<noteq> None \<and>
    fst (relay_call later) \<notin> rq_started later"
proof -
  note later = wedged_steps [OF assms(4) failed_pass_wedges [OF assms(1-3)]]
  have "queue_reachable (pass_ends p False q)"
    using assms(1,2) by (blast intro: queue_reachable.step queue_step.ends)
  with assms(4) have "queue_reachable later"
    by (induction rule: rtranclp_induct) (auto intro: queue_reachable.step)
  then have "fst (relay_call later) \<notin> rq_started later"
    using call_starts_later by blast
  with later show ?thesis by (simp add: wedged_def pass_ends_def)
qed

theorem failed_pass_stops_the_relay_witness:
  "rq_started (pass_ends 0 False two_calls) = rq_started two_calls \<and>
   rq_inFlight (pass_ends 0 False two_calls) \<noteq> None"
proof -
  have "running two_calls 0" "rq_queued two_calls = Some 1"
    by (simp_all add: two_calls_def running_def)
  from failed_pass_stops_the_relay [OF two_calls_reachable this rtranclp.rtrancl_refl]
  show ?thesis by simp
qed

section \<open>Leases\<close>

text \<open>A run of two e-mail relays: the first claims a row and stalls, its lease lapses, the second takes over.\<close>

definition mail_1 :: email_outbox_row where
  "mail_1 = \<lparr>ob_id = ''m1'', ob_seq = 1, ob_status = Pending, ob_attempts = 0, ob_lastError = None,
     ob_leaseToken = None, ob_lockedUntil = None, ob_due = 0, ob_createdAt = 0, ob_terminalAt = None,
     eb_to = ''a@x'', eb_template = ''notification'', eb_idempotencyKey = None, eb_recipientId = None,
     eb_sentAt = None, eb_messageId = None\<rparr>"

definition mail_held :: "nat \<Rightarrow> nat \<Rightarrow> int \<Rightarrow> email_outbox_row" where
  "mail_held n token until = mail_1\<lparr>ob_attempts := n, ob_leaseToken := Some token, ob_lockedUntil := Some until\<rparr>"

definition grant_1 :: email_claimed where
  "grant_1 = \<lparr>cl_row = mail_1\<lparr>ob_attempts := 1\<rparr>, cl_token = 1, cl_expires = 90000\<rparr>"

definition grant_2 :: email_claimed where
  "grant_2 = \<lparr>cl_row = (mail_held 1 1 90000)\<lparr>ob_attempts := 2\<rparr>, cl_token = 2, cl_expires = 180000\<rparr>"

definition mail_system ::
    "int \<Rightarrow> email_outbox_row list \<Rightarrow> (nat \<Rightarrow> (unit email_outbox_row_ext, string option) phase) \<Rightarrow> nat set \<Rightarrow>
     (string \<times> nat) list \<Rightarrow> (unit email_outbox_row_ext, string option, unit) outbox_system" where
  "mail_system t rows ph tokens calls =
     \<lparr>os_clock = t, os_rows = rows, os_world = (), os_phase = ph, os_ids = {''m1''}, os_tokens = tokens,
      os_calls = calls, os_refunds = [], os_sent = []\<rparr>"

lemma mail_claims:
  "claim email_relay 0 0 1 {} () [mail_1] = Inr ([mail_held 1 1 90000], [grant_1])"
  "claim email_relay 90000 90000 2 {} () [mail_held 1 1 90000] = Inr ([mail_held 2 2 180000], [grant_2])"
  "renew_lease email_relay 0 grant_1 [mail_held 1 1 90000] = Some ([mail_held 1 1 90000], 90000)"
  "renew_lease email_relay 90000 grant_2 [mail_held 2 2 180000] = Some ([mail_held 2 2 180000], 180000)"
  by code_simp+

lemma mail_step:
  assumes "outbox_reachable email_deployment s" and "relay_step email_deployment s s'" and "s' = s''"
  shows "outbox_reachable email_deployment s''"
  using assms outbox_reachable.step by blast

lemma mail_run_1:
  "outbox_reachable email_deployment
     (mail_system 0 [mail_held 1 1 90000] ((\<lambda>_. Idle)(0 := Delivering 49 grant_1 [])) {1} [(''m1'', 1)])"
proof -
  have relay: "dp_relay email_deployment p = email_relay" for p by (simp add: email_deployment_def)
  have "outbox_reachable email_deployment (mail_system 0 [mail_1] (\<lambda>_. Idle) {} [])"
    by (rule mail_step [OF outbox_reachable.start relay_step.enqueue [where r = mail_1]])
       (simp_all add: email_deployment_def initial_system_def fresh_row_def mail_1_def mail_system_def)
  from mail_step [OF this relay_step.begin_pass [where p = 0]]
  have "outbox_reachable email_deployment (mail_system 0 [mail_1] ((\<lambda>_. Idle)(0 := Claiming 50)) {} [])"
    by (simp add: mail_system_def MAX_BATCHES_PER_PASS_def)
  from mail_step [OF this relay_step.claim_batch [where p = 0 and n = 49 and now = 0 and token = 1 and locked = "{}"
      and rows = "[mail_held 1 1 90000]" and batch = "[grant_1]"]]
  have "outbox_reachable email_deployment
     (mail_system 0 [mail_held 1 1 90000] ((\<lambda>_. Idle)(0 := Renewing 49 grant_1 [])) {1} [])"
    using mail_claims(1) by (simp add: mail_system_def relay next_phase_def)
  from mail_step [OF this relay_step.renew [where p = 0 and n = 49 and c = grant_1 and cs = "[]"
      and rows = "[mail_held 1 1 90000]" and until = 90000]]
  show ?thesis
    using mail_claims(3) by (simp add: mail_system_def relay grant_1_def mail_1_def)
qed

text \<open>The stalled relay and its successor, both in the middle of a delivery of the same row.\<close>

definition mail_takeover :: "(unit email_outbox_row_ext, string option, unit) outbox_system" where
  "mail_takeover = mail_system 90000 [mail_held 2 2 180000]
     ((\<lambda>_. Idle)(0 := Delivering 49 grant_1 [], 1 := Delivering 49 grant_2 [])) {2, 1} [(''m1'', 2), (''m1'', 1)]"

lemma mail_run_2: "outbox_reachable email_deployment mail_takeover"
proof -
  have relay: "dp_relay email_deployment p = email_relay" for p by (simp add: email_deployment_def)
  let ?p = "(\<lambda>_. Idle)(0 := Delivering 49 grant_1 [])"
  from mail_step [OF mail_run_1 relay_step.tick [where t = 90000]]
  have "outbox_reachable email_deployment (mail_system 90000 [mail_held 1 1 90000] ?p {1} [(''m1'', 1)])"
    by (simp add: mail_system_def)
  from mail_step [OF this relay_step.begin_pass [where p = 1]]
  have "outbox_reachable email_deployment
      (mail_system 90000 [mail_held 1 1 90000] (?p(1 := Claiming 50)) {1} [(''m1'', 1)])"
    by (simp add: mail_system_def MAX_BATCHES_PER_PASS_def)
  from mail_step [OF this relay_step.claim_batch [where p = 1 and n = 49 and now = 90000 and token = 2
      and locked = "{}" and rows = "[mail_held 2 2 180000]" and batch = "[grant_2]"]]
  have "outbox_reachable email_deployment
      (mail_system 90000 [mail_held 2 2 180000] (?p(1 := Renewing 49 grant_2 [])) {2, 1} [(''m1'', 1)])"
    using mail_claims(2) by (simp add: mail_system_def relay next_phase_def)
  from mail_step [OF this relay_step.renew [where p = 1 and n = 49 and c = grant_2 and cs = "[]"
      and rows = "[mail_held 2 2 180000]" and until = 180000]]
  show ?thesis
    using mail_claims(4)
    by (simp add: mail_system_def mail_takeover_def relay grant_2_def mail_held_def mail_1_def)
qed

text \<open>C9. While a relay's lease on an e-mail has not run out, no other process has a live lease on that
  e-mail, whatever has crashed or stalled in between, and the row still carries this relay's token, so
  the fence of its finish will let it through.\<close>

theorem email_has_one_live_sender:
  assumes "outbox_reachable email_deployment s"
    and "c \<in> set (in_hand (os_phase s p))" and "os_clock s < cl_expires c"
  shows "(\<forall>q d. d \<in> set (in_hand (os_phase s q)) \<and> cl_id d = cl_id c \<and> os_clock s < cl_expires d \<longrightarrow> q = p \<and> d = c)
    \<and> (\<forall>r \<in> set (os_rows s). ob_id r = cl_id c \<longrightarrow> holds_lease c (os_rows s) \<and> ob_attempts r = cl_attempts c)"
  using emails.holder_is_alone [OF assms] by (auto simp: holds_lease_def list_ex_iff)

theorem email_has_one_live_sender_witness:
  "grant_2 \<in> set (in_hand (os_phase mail_takeover 1)) \<and> grant_1 \<in> set (in_hand (os_phase mail_takeover 0)) \<and>
   cl_id grant_1 = cl_id grant_2 \<and> \<not> os_clock mail_takeover < cl_expires grant_1 \<and>
   holds_lease grant_2 (os_rows mail_takeover)"
proof -
  have hand: "grant_2 \<in> set (in_hand (os_phase mail_takeover 1))" "grant_1 \<in> set (in_hand (os_phase mail_takeover 0))"
    by (simp_all add: mail_takeover_def mail_system_def)
  have ids: "cl_id grant_1 = cl_id grant_2" "os_clock mail_takeover < cl_expires grant_2"
    "mail_held 2 2 180000 \<in> set (os_rows mail_takeover)" "ob_id (mail_held 2 2 180000) = cl_id grant_2"
    by (simp_all add: mail_takeover_def mail_system_def grant_1_def grant_2_def mail_held_def mail_1_def)
  note claim = email_has_one_live_sender [OF mail_run_2 hand(1) ids(2)]
  have "\<not> os_clock mail_takeover < cl_expires grant_1"
    using conjunct1 [OF claim, rule_format, of grant_1 0] hand(2) ids(1) by auto
  then show ?thesis using conjunct2 [OF claim] hand ids by blast
qed

text \<open>C15. A relay's pass ends: each of its transactions and deliveries brings it closer to the end, so between
  its start and its end an e-mail relay takes at most \<open>50 * 22 + 1\<close> steps, whatever the
  other processes do and however long the queue is.\<close>

theorem email_pass_ends:
  assumes "outbox_reachable email_deployment s" and "relay_step email_deployment s s'"
    and "os_phase s' p \<noteq> os_phase s p"
  shows "if os_phase s p = Idle then os_phase s' p = Claiming MAX_BATCHES_PER_PASS \<and>
      pass_measure 5 (os_phase s' p) = 50 * 22 + 1
    else pass_measure 5 (os_phase s' p) < pass_measure 5 (os_phase s p)"
proof (cases "os_phase s p = Idle")
  case True
  from assms(2,3) True show ?thesis
    by cases (auto simp: MAX_BATCHES_PER_PASS_def split: if_splits)
next
  case False
  have "rc_batchSize (dp_relay email_deployment p) = 5"
    by (simp add: email_deployment_def email_relay_def)
  then show ?thesis
    using emails.pass_moves_on [OF assms(1-3) False] False by simp
qed

theorem email_pass_ends_witness:
  "pass_measure 5 (os_phase (mail_takeover\<lparr>os_phase := (os_phase mail_takeover)(1 := Finishing 49 grant_2 [] None)\<rparr>) 1)
   < pass_measure 5 (os_phase mail_takeover 1)"
proof -
  have phase: "os_phase mail_takeover 1 = Delivering 49 grant_2 []"
    by (simp add: mail_takeover_def mail_system_def)
  from email_pass_ends [OF mail_run_2 relay_step.delivered [OF phase, where res = None], of 1] phase
  show ?thesis by simp
qed

section \<open>The life of a webhook delivery\<close>

text \<open>A delivery created more than a day before the clock, which the first claim expires.\<close>

definition hook_1 :: webhook_row where
  "hook_1 = \<lparr>ob_id = ''d1'', ob_seq = 1, ob_status = Pending, ob_attempts = 0, ob_lastError = None,
     ob_leaseToken = None, ob_lockedUntil = None, ob_due = 0, ob_createdAt = 0, ob_terminalAt = None,
     wr_subscriptionId = ''s1'', wr_eventType = ''request.approved'', wr_deliveredAt = None\<rparr>"

definition hook_expired :: webhook_row where
  "hook_expired = hook_1\<lparr>ob_status := Failed, ob_lastError := Some ''expired'', ob_terminalAt := Some 90000000\<rparr>"

definition hook_system ::
    "webhook_row \<Rightarrow> (nat \<Rightarrow> (unit webhook_row_ext, unit) phase) \<Rightarrow> nat set \<Rightarrow>
     (unit webhook_row_ext, unit, subscription_row list) outbox_system" where
  "hook_system r ph tokens =
     \<lparr>os_clock = 90000000, os_rows = [r], os_world = [], os_phase = ph, os_ids = {''d1''}, os_tokens = tokens,
      os_calls = [], os_refunds = [], os_sent = []\<rparr>"

lemma hook_claim: "claim (webhook_relay 24) 90000000 90000000 1 {} [] [hook_1] = Inr ([hook_expired], [])"
  by code_simp

lemma hook_step:
  assumes "outbox_reachable (webhook_deployment h) s" and "relay_step (webhook_deployment h) s s'" and "s' = s''"
  shows "outbox_reachable (webhook_deployment h) s''"
  using assms outbox_reachable.step by blast

lemma hook_run:
  "outbox_reachable (webhook_deployment 24) (hook_system hook_1 ((\<lambda>_. Idle)(0 := Claiming 50)) {})"
  "relay_step (webhook_deployment 24) (hook_system hook_1 ((\<lambda>_. Idle)(0 := Claiming 50)) {})
     (hook_system hook_expired (\<lambda>_. Idle) {1})"
proof -
  have "outbox_reachable (webhook_deployment 24) (hook_system hook_1 (\<lambda>_. Idle) {})"
    by (rule hook_step [OF outbox_reachable.start [where t = 90000000] relay_step.enqueue [where r = hook_1]])
       (simp_all add: webhook_deployment_def initial_system_def fresh_row_def hook_1_def hook_system_def)
  from hook_step [OF this relay_step.begin_pass [where p = 0]]
  show "outbox_reachable (webhook_deployment 24) (hook_system hook_1 ((\<lambda>_. Idle)(0 := Claiming 50)) {})"
    by (simp add: hook_system_def MAX_BATCHES_PER_PASS_def)
  show "relay_step (webhook_deployment 24) (hook_system hook_1 ((\<lambda>_. Idle)(0 := Claiming 50)) {})
     (hook_system hook_expired (\<lambda>_. Idle) {1})"
    using relay_step.claim_batch [of "hook_system hook_1 ((\<lambda>_. Idle)(0 := Claiming 50)) {}" 0 49 90000000 1
        "webhook_deployment 24" "{}" "[hook_expired]" "[]"] hook_claim
    by (simp add: fun_upd_idem hook_system_def webhook_deployment_def)
qed

lemma hook_expired_reachable: "outbox_reachable (webhook_deployment 24) (hook_system hook_expired (\<lambda>_. Idle) {1})"
  by (rule outbox_reachable.step [OF hook_run])

text \<open>C10. Under any interleaving of relays, crashes, expiry and retries by hand a webhook delivery follows
  its abstract life: it waits with the attempts it has spent, is held under a token that a later claim
  replaces only by a fresh one, and goes back to waiting only while attempts are left (or one attempt
  back, when it was deferred). A delivered or failed row changes no more, unless somebody retries that
  delivery by hand, which puts it back to waiting with the attempts it had spent.\<close>

theorem webhook_row_life:
  assumes "outbox_reachable (webhook_deployment h) s" and "relay_step (webhook_deployment h) s s'"
    and "r \<in> set (os_rows s)" and "r' \<in> set (os_rows s')" and "ob_id r' = ob_id r"
  shows "life_step (life r) (life r') \<or>
    (life r \<in> {Done, Dead} \<and> life r' = Waiting (ob_attempts r) \<and>
     (\<exists>now \<le> os_clock s. retry_delivery now (ob_id r) (os_rows s) = Inr (r', os_rows s')))"
proof (cases "life_step (life r) (life r')")
  case False
  with webhooks.life_refines [OF assms] obtain now where l: "life r \<in> {Done, Dead}" "life r' = Waiting (ob_attempts r)"
      and now: "now \<le> os_clock s" "dp_resets (webhook_deployment h) now (os_rows s) (os_rows s')"
    by blast
  obtain i q where retry: "retry_delivery now i (os_rows s) = Inr (q, os_rows s')"
    using now(2) by (auto simp: webhook_deployment_def)
  have ids: "distinct (map ob_id (os_rows s))" by (rule outbox_inv_rules(1) [OF webhooks.reachable_inv [OF assms(1)]])
  let ?f = "\<lambda>r :: webhook_row. r\<lparr>ob_status := Pending, ob_due := now, ob_lastError := None\<rparr>"
  have rows: "os_rows s' = update_id i ?f (os_rows s)" and q: "find_row ob_id i (os_rows s') = Some q"
    using retry by (auto simp: retry_delivery_def Let_def split: option.splits)
  obtain x where x: "x \<in> set (os_rows s)" "r' = (if ob_id x = i then ?f x else x)"
    using assms(4) rows by (auto simp: update_id_def set_update_where)
  then have "x = r" using ids assms(3,5) by (metis (no_types, lifting) distinct_map inj_on_eq_iff outbox_row.select_convs(1)
        outbox_row.surjective outbox_row.update_convs)
  then have i: "ob_id r = i" using x l by (auto split: if_splits)
  have "map ob_id (os_rows s') = map ob_id (os_rows s)"
    by (simp add: rows update_id_def map_key_update_where)
  then have "q = r'"
    using ids find_row_Some [OF q] assms(4,5) i by (metis distinct_map inj_on_eq_iff)
  then show ?thesis using l now(1) retry i by blast
qed simp

text \<open>The delivery expires at a claim; a minute later somebody retries it.\<close>

definition hook_retried :: webhook_row where
  "hook_retried = hook_expired\<lparr>ob_status := Pending, ob_due := 90000000, ob_lastError := None\<rparr>"

lemma hook_retry:
  "relay_step (webhook_deployment 24) (hook_system hook_expired (\<lambda>_. Idle) {1}) (hook_system hook_retried (\<lambda>_. Idle) {1})"
proof -
  have "dp_resets (webhook_deployment 24) 90000000 [hook_expired] [hook_retried]"
    by (simp add: webhook_deployment_def, rule exI [of _ "''d1''"])
      (simp add: retry_delivery_def update_id_def hook_retried_def hook_expired_def hook_1_def)
  then show ?thesis
    using relay_step.reset_by_hand [of 90000000 "hook_system hook_expired (\<lambda>_. Idle) {1}" "webhook_deployment 24" "[hook_retried]"]
    by (simp add: hook_system_def)
qed

theorem webhook_row_life_witness:
  "life_step (life hook_1) (life hook_expired) \<and> life hook_1 = Waiting 0 \<and> life hook_expired = Dead \<and>
   life hook_retried = Waiting 0 \<and>
   (\<exists>now \<le> 90000000. retry_delivery now ''d1'' [hook_expired] = Inr (hook_retried, [hook_retried]))"
proof -
  have l: "life hook_1 = Waiting 0" "life hook_expired = Dead" "life hook_retried = Waiting 0"
    and i: "ob_id hook_1 = ''d1''" "ob_id hook_expired = ''d1''" "ob_id hook_retried = ''d1''"
    by (simp_all add: life_def hook_retried_def hook_expired_def hook_1_def)
  have "life_step (life hook_1) (life hook_expired)"
    using webhook_row_life [OF hook_run, of hook_1 hook_expired] l i by (simp add: hook_system_def)
  moreover have "\<not> life_step Dead (Waiting 0)" by (auto elim: life_step_from_Dead)
  then have "\<exists>now \<le> 90000000. retry_delivery now ''d1'' [hook_expired] = Inr (hook_retried, [hook_retried])"
    using webhook_row_life [OF hook_expired_reachable hook_retry, of hook_expired hook_retried] l i
    by (simp add: hook_system_def)
  ultimately show ?thesis using l by simp
qed

context outbox_relay
begin

lemma claim_leaves_no_abandoned:
  assumes claim: "claim cfg now t1 token locked w rows = Inr (rows', batch)" and ids: "distinct (map ob_id rows)"
    and r': "r' \<in> set rows'" "ob_leaseToken r' \<noteq> Some token"
  shows "\<not> abandoned cfg now r'"
proof (rule claim_batch [OF claim ids])
  fix rows2 due
  assume rows2: "rows2 = rc_beforeSelect cfg now locked (reap_abandoned cfg now rows)"
    and rows': "rows' = (if due = [] then rows2 else update_where (\<lambda>r. ob_id r \<in> ob_id ` set due)
       (\<lambda>r. r\<lparr>ob_attempts := ob_attempts r + 1, ob_leaseToken := Some token,
              ob_lockedUntil := Some (t1 + sum_list (map (rc_leaseMsFor cfg) due))\<rparr>) rows2)"
  have "r' \<in> set rows2"
    using r' by (auto simp: rows' set_update_where split: if_splits)
  moreover have "map ob_id (reap_abandoned cfg now rows) = map ob_id rows"
    by (rule list_all2_map_eq [OF reaped]) (auto simp: row_change)
  then have "distinct (map ob_id (reap_abandoned cfg now rows))"
    using ids by simp
  ultimately obtain r where r: "r \<in> set (reap_abandoned cfg now rows)" "r' = r \<or> retired now r r'"
    using list_all2_right [OF before_select] unfolding rows2 by blast
  then show ?thesis
    using reaped_none_left [OF r(1)] by (auto simp: abandoned_def retired_def)
qed

end

text \<open>The manual retry of a webhook delivery is lost. A delivery fails only once its attempts are spent or
  it is over age, and the retry resets neither; so the next claim never hands the retried delivery to
  a relay, and when its attempts are spent fails it again at once.\<close>

theorem manual_retry_never_sends:
  assumes reach: "outbox_reachable (webhook_deployment h) s"
    and r: "r \<in> set (os_rows s)" "ob_status r = Failed"
    and retry: "retry_delivery now (ob_id r) (os_rows s) = Inr (r1, rows1)"
    and claim: "claim (webhook_relay h) t t1 token locked subs rows1 = Inr (rows2, batch)" and t: "os_clock s \<le> t"
  shows "ob_status r1 = Pending \<and> ob_id r \<notin> cl_id ` set batch \<and>
    (MAX_ATTEMPTS \<le> ob_attempts r \<longrightarrow> (\<exists>r2 \<in> set rows2. ob_id r2 = ob_id r \<and> ob_status r2 = Failed))"
proof -
  note inv = webhooks.reachable_inv [OF reach]
  note ids = outbox_inv_rules(1) [OF inv]
  have ok: "row_ok (webhook_deployment h) (Some (h * 3600000)) s r" by (rule outbox_inv_rules(2) [OF inv r(1)])
  let ?reset = "\<lambda>r. r\<lparr>ob_status := Pending, ob_due := now, ob_lastError := None\<rparr>"
  have rows1: "rows1 = update_id (ob_id r) ?reset (os_rows s)"
    using retry by (auto simp: retry_delivery_def Let_def split: option.splits)
  have ids1: "map ob_id rows1 = map ob_id (os_rows s)"
    by (simp add: rows1 update_id_def map_key_update_where)
  have in1: "?reset r \<in> set rows1"
    using r(1) by (auto simp: rows1 update_id_def set_update_where)
  have only: "q = ?reset r" if "q \<in> set rows1" "ob_id q = ob_id r" for q
    using that in1 ids1 ids by (metis (no_types, lifting) distinct_map inj_on_eq_iff outbox_row.select_convs(1)
        outbox_row.surjective outbox_row.update_convs)
  have r1: "r1 = ?reset r"
  proof -
    have "r1 \<in> set rows1 \<and> ob_id r1 = ob_id r"
      using retry rows1 by (auto simp: retry_delivery_def Let_def dest: find_row_Some split: option.splits)
    then show ?thesis using only by blast
  qed
  have unheld: "ob_leaseToken r = None" "ob_lockedUntil r = None"
    using ok r(2) by (auto simp: row_ok_def)
  have "\<not> dp_throws (webhook_deployment h) (NonRetryableError m)" for m
    by (simp add: webhook_deployment_def)
  then have spent: "MAX_ATTEMPTS \<le> ob_attempts r \<or> over_age (Some (h * 3600000)) t r"
    using ok r(2) t by (auto simp: row_ok_def over_age_def)
  obtain until where change: "list_all2 (claim_effect (Some (h * 3600000)) t token until) rows1 rows2"
    and batch: "\<forall>c \<in> set batch. cl_token c = token \<and> cl_expires c = until \<and>
       \<not> over_age (Some (h * 3600000)) t (cl_row c) \<and> ob_status (cl_row c) = Pending \<and>
       (\<exists>r' \<in> set rows2. ob_id r' = cl_id c \<and> ob_leaseToken r' = Some token \<and>
          ob_lockedUntil r' = Some until \<and> ob_attempts r' = cl_attempts c)"
    by (rule webhook_contract.claim_effects [OF claim]) (simp add: ids1 ids, blast)
  have effect: "ob_leaseToken r2 = None \<and> (r2 = ?reset r \<or> retired t (?reset r) r2)"
    if r2: "r2 \<in> set rows2" "ob_id r2 = ob_id r" for r2
  proof -
    obtain q where q: "q \<in> set rows1" "claim_effect (Some (h * 3600000)) t token until q r2"
      using list_all2_right [OF change r2(1)] by blast
    then have "q = ?reset r" using only r2(2) claim_effect_same by (metis same_row_def)
    with q(2) spent unheld show ?thesis
      by (auto simp: claim_effect_def due_now_def retired_def over_age_def)
  qed
  obtain r2 where r2: "r2 \<in> set rows2" "claim_effect (Some (h * 3600000)) t token until (?reset r) r2"
    using list_all2_left [OF change in1] by blast
  then have r2_id: "ob_id r2 = ob_id r"
    using claim_effect_same [OF r2(2)] by (simp add: same_row_def)
  have "ob_status r2 = Failed" if "MAX_ATTEMPTS \<le> ob_attempts r"
    using effect [OF r2(1) r2_id] webhook_contract.claim_leaves_no_abandoned [OF claim, of r2] that unheld r2(1) ids ids1
    by (auto simp: retired_def abandoned_def webhook_relay_def default_reap_filter_def MAX_ATTEMPTS_def not_leased_def)
  moreover have "ob_id r \<notin> cl_id ` set batch"
  proof
    assume "ob_id r \<in> cl_id ` set batch"
    then obtain c where "c \<in> set batch" "cl_id c = ob_id r" by auto
    then obtain r' where "r' \<in> set rows2" "ob_id r' = ob_id r" "ob_leaseToken r' = Some token"
      using bspec [OF batch] by metis
    then show False using effect by simp
  qed
  ultimately show ?thesis using r2(1) r2_id by (auto simp: r1)
qed

theorem manual_retry_never_sends_witness:
  "retry_delivery 90000001 ''d1'' [hook_expired] = Inr (hook_expired\<lparr>ob_status := Pending, ob_due := 90000001,
     ob_lastError := None\<rparr>, [hook_expired\<lparr>ob_status := Pending, ob_due := 90000001, ob_lastError := None\<rparr>]) \<and>
   ''d1'' \<notin> cl_id ` set (snd (projr (claim (webhook_relay 24) 90000002 90000002 2 {} []
     [hook_expired\<lparr>ob_status := Pending, ob_due := 90000001, ob_lastError := None\<rparr>])))"
proof -
  let ?r = "hook_expired\<lparr>ob_status := Pending, ob_due := 90000001, ob_lastError := None\<rparr>"
  have "ob_id hook_expired = ''d1''" "ob_status hook_expired = Failed"
    by (simp_all add: hook_expired_def hook_1_def)
  then have retry: "retry_delivery 90000001 (ob_id hook_expired) [hook_expired] = Inr (?r, [?r])"
    by (simp add: retry_delivery_def update_id_def)
  have claim: "claim (webhook_relay 24) 90000002 90000002 2 {} [] [?r] =
      Inr ([?r\<lparr>ob_status := Failed, ob_lastError := Some ''expired'', ob_terminalAt := Some 90000002\<rparr>], [])"
    by code_simp
  have "ob_id hook_expired \<notin> cl_id ` set []"
    using manual_retry_never_sends [OF hook_expired_reachable, of hook_expired 90000001 ?r "[?r]", OF _ _ _ claim]
      retry \<open>ob_status hook_expired = Failed\<close> by (simp add: hook_system_def)
  then show ?thesis using retry claim \<open>ob_id hook_expired = ''d1''\<close> by simp
qed

section \<open>Graph tasks\<close>

definition task :: "string \<Rightarrow> int \<Rightarrow> graph_row" where
  "task i sq = \<lparr>ob_id = i, ob_seq = sq, ob_status = Pending, ob_attempts = 0, ob_lastError = None,
     ob_leaseToken = None, ob_lockedUntil = None, ob_due = 0, ob_createdAt = 0, ob_terminalAt = None,
     gr_kind = ACCOUNT_RECONCILE, gr_employeeId = Some ''e1'', gr_orderingKey = Some ''e1'',
     gr_dedupeKey = None, gr_sentAt = None\<rparr>"

definition task_held :: "string \<Rightarrow> int \<Rightarrow> nat \<Rightarrow> int \<Rightarrow> graph_row" where
  "task_held i sq token until =
     (task i sq)\<lparr>ob_attempts := 1, ob_leaseToken := Some token, ob_lockedUntil := Some until\<rparr>"

definition task_grant :: "string \<Rightarrow> int \<Rightarrow> nat \<Rightarrow> int \<Rightarrow> graph_claimed" where
  "task_grant i sq token until =
     \<lparr>cl_row = (task i sq)\<lparr>ob_attempts := 1\<rparr>, cl_token = token, cl_expires = until\<rparr>"

definition task_system ::
    "int \<Rightarrow> graph_row list \<Rightarrow> (nat \<Rightarrow> (unit graph_row_ext, unit) phase) \<Rightarrow> string set \<Rightarrow> nat set \<Rightarrow>
     (string \<times> nat) list \<Rightarrow> (unit graph_row_ext, unit, bool) outbox_system" where
  "task_system t rows ph ids tokens calls =
     \<lparr>os_clock = t, os_rows = rows, os_world = True, os_phase = ph, os_ids = ids, os_tokens = tokens,
      os_calls = calls, os_refunds = [], os_sent = []\<rparr>"

lemma task_claims:
  "claim graph_account_relay 0 0 1 {} True [task ''a'' 1, task ''b'' 2] =
     Inr ([task_held ''a'' 1 1 150000, task ''b'' 2], [task_grant ''a'' 1 1 150000])"
  "claim graph_account_relay 0 0 1 {} True [task ''b'' 2] =
     Inr ([task_held ''b'' 2 1 150000], [task_grant ''b'' 2 1 150000])"
  "claim graph_account_relay 150000 150000 2 {} True [task_held ''b'' 2 1 150000, task ''a'' 1] =
     Inr ([task_held ''b'' 2 1 150000, task_held ''a'' 1 2 300000], [task_grant ''a'' 1 2 300000])"
  "renew_lease graph_account_relay 150000 (task_grant ''b'' 2 1 150000)
     [task_held ''b'' 2 1 150000, task_held ''a'' 1 2 300000] =
     Some ([task_held ''b'' 2 1 300000, task_held ''a'' 1 2 300000], 300000)"
  "renew_lease graph_account_relay 150000 (task_grant ''a'' 1 2 300000)
     [task_held ''b'' 2 1 300000, task_held ''a'' 1 2 300000] =
     Some ([task_held ''b'' 2 1 300000, task_held ''a'' 1 2 300000], 300000)"
  by code_simp+

lemma task_step:
  assumes "outbox_reachable (graph_deployment (\<lambda>_. True) admits) s"
    and "relay_step (graph_deployment (\<lambda>_. True) admits) s s'" and "s' = s''"
  shows "outbox_reachable (graph_deployment (\<lambda>_. True) admits) s''"
  using assms outbox_reachable.step by blast

lemma task_fields:
  "fresh_row (task i sq)" "ob_id (task i sq) = i" "ob_seq (task i sq) = sq"
  "dp_admits (graph_deployment account admits) = admits" "dp_initial (graph_deployment account admits) w"
  by (simp_all add: fresh_row_def task_def graph_deployment_def)

text \<open>Two tasks of one employee, the first of them claimed.\<close>

definition tasks_claimed :: "(unit graph_row_ext, unit, bool) outbox_system" where
  "tasks_claimed = task_system 0 [task_held ''a'' 1 1 150000, task ''b'' 2]
     ((\<lambda>_. Idle)(0 := Renewing 49 (task_grant ''a'' 1 1 150000) [])) {''b'', ''a''} {1} []"

lemma task_run: "outbox_reachable (graph_deployment (\<lambda>_. True) in_order) tasks_claimed"
proof -
  let ?D = "graph_deployment (\<lambda>_. True) in_order"
  have relay: "dp_relay ?D p = graph_account_relay" for p by (simp add: graph_deployment_def)
  have "outbox_reachable ?D (task_system 0 [task ''a'' 1] (\<lambda>_. Idle) {''a''} {} [])"
    by (rule task_step [OF outbox_reachable.start [where w = True] relay_step.enqueue [where r = "task ''a'' 1"]])
       (simp_all add: initial_system_def task_fields task_system_def in_order_def)
  from task_step [OF this relay_step.enqueue [where r = "task ''b'' 2"]]
  have "outbox_reachable ?D (task_system 0 [task ''a'' 1, task ''b'' 2] (\<lambda>_. Idle) {''b'', ''a''} {} [])"
    by (simp add: task_fields task_system_def in_order_def)
  from task_step [OF this relay_step.begin_pass [where p = 0]]
  have "outbox_reachable ?D (task_system 0 [task ''a'' 1, task ''b'' 2] ((\<lambda>_. Idle)(0 := Claiming 50)) {''b'', ''a''} {} [])"
    by (simp add: task_system_def MAX_BATCHES_PER_PASS_def)
  from task_step [OF this relay_step.claim_batch [where p = 0 and n = 49 and now = 0 and token = 1 and locked = "{}"
      and rows = "[task_held ''a'' 1 1 150000, task ''b'' 2]" and batch = "[task_grant ''a'' 1 1 150000]"]]
  show ?thesis
    using task_claims(1) by (simp add: task_system_def tasks_claimed_def relay next_phase_def)
qed

text \<open>C12. Two tasks for one employee are never carried out at once, provided rows become visible in the order of
  their sequence numbers: while a relay holds a live lease on a task, no other row of the same
  ordering key is leased, and no process still has a live lease on one.\<close>

theorem one_task_per_person:
  assumes reach: "outbox_reachable (graph_deployment account in_order) s"
    and c: "c \<in> set (in_hand (os_phase s p))" "os_clock s < cl_expires c"
    and r: "r \<in> set (os_rows s)" "ob_id r = cl_id c" "gr_orderingKey r \<noteq> None"
    and other: "q \<in> set (os_rows s)" "gr_orderingKey q = gr_orderingKey r" "ob_id q \<noteq> ob_id r"
  shows "ob_leaseToken q = None \<and> (\<forall>p' d. d \<in> set (in_hand (os_phase s p')) \<and> cl_id d = ob_id q \<longrightarrow> cl_expires d \<le> os_clock s)"
proof -
  have held: "ob_leaseToken r \<noteq> None"
    using conjunct2 [OF graph.holder_is_alone [OF reach c]] r by (auto simp: lease_matches_def)
  have free: "ob_leaseToken q = None"
    using one_holder_per_key [OF reach r(1) held other(1)] other r(3) by (cases "ob_leaseToken q") auto
  moreover have "cl_expires d \<le> os_clock s" if "d \<in> set (in_hand (os_phase s p'))" "cl_id d = ob_id q" for p' d
  proof (rule ccontr)
    assume "\<not> cl_expires d \<le> os_clock s"
    then have "os_clock s < cl_expires d" by simp
    from conjunct2 [OF graph.holder_is_alone [OF reach that(1) this]] other(1) that(2) free show False
      by (auto simp: lease_matches_def)
  qed
  ultimately show ?thesis by blast
qed

theorem one_task_per_person_witness:
  "task_grant ''a'' 1 1 150000 \<in> set (in_hand (os_phase tasks_claimed 0)) \<and>
   task ''b'' 2 \<in> set (os_rows tasks_claimed) \<and> ob_leaseToken (task ''b'' 2) = None"
proof -
  have hyps: "task_grant ''a'' 1 1 150000 \<in> set (in_hand (os_phase tasks_claimed 0))"
    "os_clock tasks_claimed < cl_expires (task_grant ''a'' 1 1 150000)"
    "task_held ''a'' 1 1 150000 \<in> set (os_rows tasks_claimed)"
    "ob_id (task_held ''a'' 1 1 150000) = cl_id (task_grant ''a'' 1 1 150000)"
    "gr_orderingKey (task_held ''a'' 1 1 150000) \<noteq> None" "task ''b'' 2 \<in> set (os_rows tasks_claimed)"
    "gr_orderingKey (task ''b'' 2) = gr_orderingKey (task_held ''a'' 1 1 150000)"
    "ob_id (task ''b'' 2) \<noteq> ob_id (task_held ''a'' 1 1 150000)"
    by (simp_all add: tasks_claimed_def task_system_def task_grant_def task_held_def task_def)
  show ?thesis
    using conjunct1 [OF one_task_per_person [OF task_run hyps]] hyps(1,6) by blast
qed

text \<open>
  Without that proviso the order breaks. A transaction that drew the smaller number commits late;
  the claim does not see a conflict because the other task's lease has just lapsed; and renewing that
  lease asks for the token alone, not for a lease that still runs. Both tasks of the employee are then
  being delivered, both under live leases.
\<close>

theorem late_commit_overlaps_tasks:
  "outbox_reachable (graph_deployment (\<lambda>_. True) (\<lambda>_ _. True))
     (task_system 150000 [task_held ''b'' 2 1 300000, task_held ''a'' 1 2 300000]
       ((\<lambda>_. Idle)(0 := Delivering 49 (task_grant ''b'' 2 1 300000) [], 1 := Delivering 49 (task_grant ''a'' 1 2 300000) []))
       {''a'', ''b''} {2, 1} [(''a'', 2), (''b'', 1)]) \<and>
   gr_orderingKey (task ''a'' 1) = gr_orderingKey (task ''b'' 2)"
proof -
  let ?D = "graph_deployment (\<lambda>_. True) (\<lambda>_ _. True)"
  have relay: "dp_relay ?D p = graph_account_relay" for p by (simp add: graph_deployment_def)
  have "outbox_reachable ?D (task_system 0 [task ''b'' 2] (\<lambda>_. Idle) {''b''} {} [])"
    by (rule task_step [OF outbox_reachable.start [where w = True] relay_step.enqueue [where r = "task ''b'' 2"]])
       (simp_all add: initial_system_def task_fields task_system_def)
  from task_step [OF this relay_step.begin_pass [where p = 0]]
  have "outbox_reachable ?D (task_system 0 [task ''b'' 2] ((\<lambda>_. Idle)(0 := Claiming 50)) {''b''} {} [])"
    by (simp add: task_system_def MAX_BATCHES_PER_PASS_def)
  from task_step [OF this relay_step.claim_batch [where p = 0 and n = 49 and now = 0 and token = 1 and locked = "{}"
      and rows = "[task_held ''b'' 2 1 150000]" and batch = "[task_grant ''b'' 2 1 150000]"]]
  have "outbox_reachable ?D (task_system 0 [task_held ''b'' 2 1 150000]
      ((\<lambda>_. Idle)(0 := Renewing 49 (task_grant ''b'' 2 1 150000) [])) {''b''} {1} [])"
    using task_claims(2) by (simp add: task_system_def relay next_phase_def)
  from task_step [OF task_step [OF this relay_step.tick [where t = 150000] refl] relay_step.enqueue [where r = "task ''a'' 1"]]
  have "outbox_reachable ?D (task_system 150000 [task_held ''b'' 2 1 150000, task ''a'' 1]
      ((\<lambda>_. Idle)(0 := Renewing 49 (task_grant ''b'' 2 1 150000) [])) {''a'', ''b''} {1} [])"
    by (simp add: task_fields task_system_def)
  from task_step [OF this relay_step.begin_pass [where p = 1]]
  have "outbox_reachable ?D (task_system 150000 [task_held ''b'' 2 1 150000, task ''a'' 1]
      ((\<lambda>_. Idle)(0 := Renewing 49 (task_grant ''b'' 2 1 150000) [], 1 := Claiming 50)) {''a'', ''b''} {1} [])"
    by (simp add: task_system_def MAX_BATCHES_PER_PASS_def)
  from task_step [OF this relay_step.claim_batch [where p = 1 and n = 49 and now = 150000 and token = 2 and locked = "{}"
      and rows = "[task_held ''b'' 2 1 150000, task_held ''a'' 1 2 300000]" and batch = "[task_grant ''a'' 1 2 300000]"]]
  have "outbox_reachable ?D (task_system 150000 [task_held ''b'' 2 1 150000, task_held ''a'' 1 2 300000]
      ((\<lambda>_. Idle)(0 := Renewing 49 (task_grant ''b'' 2 1 150000) [], 1 := Renewing 49 (task_grant ''a'' 1 2 300000) []))
      {''a'', ''b''} {2, 1} [])"
    using task_claims(3) by (simp add: task_system_def relay next_phase_def)
  from task_step [OF this relay_step.renew [where p = 0 and n = 49 and c = "task_grant ''b'' 2 1 150000" and cs = "[]"
      and rows = "[task_held ''b'' 2 1 300000, task_held ''a'' 1 2 300000]" and until = 300000]]
  have "outbox_reachable ?D (task_system 150000 [task_held ''b'' 2 1 300000, task_held ''a'' 1 2 300000]
      ((\<lambda>_. Idle)(0 := Delivering 49 (task_grant ''b'' 2 1 300000) [], 1 := Renewing 49 (task_grant ''a'' 1 2 300000) []))
      {''a'', ''b''} {2, 1} [(''b'', 1)])"
    using task_claims(4) by (simp add: task_system_def relay fun_upd_twist task_grant_def task_def)
  from task_step [OF this relay_step.renew [where p = 1 and n = 49 and c = "task_grant ''a'' 1 2 300000" and cs = "[]"
      and rows = "[task_held ''b'' 2 1 300000, task_held ''a'' 1 2 300000]" and until = 300000]]
  show ?thesis
    using task_claims(5) by (simp add: task_system_def relay task_grant_def task_def)
qed

section \<open>Notifications\<close>

text \<open>What settling a row adds to the other tables.\<close>

lemma cascade_cases:
  "cascade_to_email row k w = w \<or>
   (\<exists>e. cascade_to_email row k w = w\<lparr>nw_emails := schedule_email e (nw_emails w)\<rparr> \<and>
      qe_idempotencyKey e = Some (NotificationEmail k) \<and> qe_recipientId e = Some (nb_recipientId row))"
proof (cases "nw_emailOf w (nb_recipientId row)")
  case (Some addr)
  let ?e = "\<lparr>qe_to = addr, qe_template = ''notification'', qe_idempotencyKey = Some (NotificationEmail k),
    qe_recipientId = Some (nb_recipientId row)\<rparr>"
  have "cascade_to_email row k w = w \<or>
      cascade_to_email row k w = w\<lparr>nw_emails := schedule_email ?e (nw_emails w)\<rparr>"
    by (simp add: cascade_to_email_def Some)
  then show ?thesis by (elim disjE) (simp, intro disjI2 exI [of _ ?e], simp)
qed (simp add: cascade_to_email_def)

definition settles_to ::
    "notification_claimed \<Rightarrow> notification_world \<Rightarrow> notification_world \<Rightarrow> in_app_notification \<Rightarrow> queued_email list \<Rightarrow> bool" where
  "settles_to c w w' n added \<longleftrightarrow>
     ia_sourceEventId n = Some (cl_id c) \<and> Some (cl_id c) \<notin> ia_sourceEventId ` set (nw_inApp w) \<and>
     ia_id n = nw_nextId w \<and> nw_inApp w' = nw_inApp w @ [n] \<and> nw_nextId w' = nw_nextId w + 1 \<and>
     (added = [] \<and> nw_emails w' = nw_emails w \<or>
      (\<exists>e. added = [e] \<and> nw_emails w' = schedule_email e (nw_emails w) \<and>
        qe_idempotencyKey e = Some (NotificationEmail (ia_id n)) \<and> qe_recipientId e = Some (ia_recipientId n)))"

lemma notification_settle_cases:
  assumes "notification_settle c u w = Inr w'"
  shows "w' = w \<or> (\<exists>n added. settles_to c w w' n added)"
proof (cases "send_notification (in_app_input (cl_row c)) w")
  case None
  then show ?thesis using assms by (simp add: notification_settle_def Let_def split: if_splits)
next
  case (Some nw)
  let ?n = "(in_app_input (cl_row c))\<lparr>ia_id := nw_nextId w\<rparr>"
  let ?w = "w\<lparr>nw_inApp := nw_inApp w @ [?n], nw_nextId := nw_nextId w + 1\<rparr>"
  have new: "Some (cl_id c) \<notin> ia_sourceEventId ` set (nw_inApp w)" and nw: "nw = (?n, ?w)"
    using Some by (auto simp: send_notification_def in_app_input_def Let_def split: if_splits)
  then have "w' = w \<or> w' = cascade_to_email (cl_row c) (nw_nextId w) ?w"
    using assms Some by (simp add: notification_settle_def Let_def split: if_splits)
  then show ?thesis
    using cascade_cases [of "cl_row c" "nw_nextId w" ?w]
  proof (elim disjE exE conjE)
    fix e assume "w' = cascade_to_email (cl_row c) (nw_nextId w) ?w"
      "cascade_to_email (cl_row c) (nw_nextId w) ?w = ?w\<lparr>nw_emails := schedule_email e (nw_emails ?w)\<rparr>"
      "qe_idempotencyKey e = Some (NotificationEmail (nw_nextId w))" "qe_recipientId e = Some (nb_recipientId (cl_row c))"
    then have "settles_to c w w' ?n [e]"
      using new by (simp add: settles_to_def in_app_input_def)
    then show ?thesis by blast
  next
    assume "w' = cascade_to_email (cl_row c) (nw_nextId w) ?w" "cascade_to_email (cl_row c) (nw_nextId w) ?w = ?w"
    then have "settles_to c w w' ?n []"
      using new by (simp add: settles_to_def in_app_input_def)
    then show ?thesis by blast
  qed simp_all
qed

definition world_inv :: "string list \<Rightarrow> notification_world \<Rightarrow> bool" where
  "world_inv sent w \<longleftrightarrow>
     distinct (map ia_sourceEventId (nw_inApp w)) \<and> distinct (map ia_id (nw_inApp w)) \<and>
     (\<forall>n \<in> set (nw_inApp w). ia_id n < nw_nextId w \<and> ia_sourceEventId n \<in> Some ` set sent) \<and>
     distinct (map qe_idempotencyKey (nw_emails w)) \<and>
     (\<forall>e \<in> set (nw_emails w). (qe_idempotencyKey e, qe_recipientId e) \<in>
        (\<lambda>n. (Some (NotificationEmail (ia_id n)), Some (ia_recipientId n))) ` set (nw_inApp w))"

lemma world_inv_settle:
  assumes inv: "world_inv sent w" and settle: "settles_to c w w' n added"
  shows "world_inv (cl_id c # sent) w'"
proof -
  have id: "nw_nextId w \<notin> ia_id ` set (nw_inApp w)"
    using inv by (auto simp: world_inv_def)
  have "qe_idempotencyKey e \<noteq> Some (NotificationEmail (nw_nextId w))" if "e \<in> set (nw_emails w)" for e
  proof
    assume "qe_idempotencyKey e = Some (NotificationEmail (nw_nextId w))"
    moreover have "(qe_idempotencyKey e, qe_recipientId e) \<in>
        (\<lambda>n. (Some (NotificationEmail (ia_id n)), Some (ia_recipientId n))) ` set (nw_inApp w)"
      using inv that unfolding world_inv_def by blast
    ultimately have "(Some (NotificationEmail (nw_nextId w)), qe_recipientId e) \<in>
        (\<lambda>n. (Some (NotificationEmail (ia_id n)), Some (ia_recipientId n))) ` set (nw_inApp w)" by simp
    then show False using id by auto
  qed
  then have "Some (NotificationEmail (nw_nextId w)) \<notin> qe_idempotencyKey ` set (nw_emails w)"
    by (metis imageE)
  moreover have "ia_id n = nw_nextId w" using settle by (simp add: settles_to_def)
  moreover have "distinct (map qe_idempotencyKey (nw_emails w))" using inv by (simp add: world_inv_def)
  moreover have "added = [] \<and> nw_emails w' = nw_emails w \<or>
      (\<exists>e. added = [e] \<and> nw_emails w' = schedule_email e (nw_emails w) \<and>
        qe_idempotencyKey e = Some (NotificationEmail (ia_id n)) \<and> qe_recipientId e = Some (ia_recipientId n))"
    using settle unfolding settles_to_def by blast
  ultimately have "nw_emails w' = nw_emails w @ added \<and> distinct (map qe_idempotencyKey (nw_emails w @ added))"
    by (elim disjE exE conjE) (simp_all add: schedule_email_def)
  then show ?thesis
    using inv settle id unfolding world_inv_def settles_to_def
    by (auto simp: less_Suc_eq)
qed

lemma world_inv_more: "world_inv sent w \<Longrightarrow> world_inv (i # sent) w"
  by (auto simp: world_inv_def)

lemma notification_inv_step:
  assumes "relay_step notification_deployment s s'" and inv: "world_inv (os_sent s) (os_world s)"
  shows "world_inv (os_sent s') (os_world s')"
  using assms(1)
proof cases
  case (other_tables w)
  then show ?thesis using inv by (simp add: world_inv_def notification_deployment_def)
next
  case (finish_commits p n c cs res now rows w)
  then have "finish_sent notification_relay now c res (os_rows s) (os_world s) = Inr (Some (rows, w))"
    by (simp add: notification_deployment_def)
  then have "notification_settle c res (os_world s) = Inr w"
    by (auto simp: finish_sent_def finish_def result_simps notification_relay_def split: if_splits)
  from notification_settle_cases [OF this] show ?thesis
    using inv world_inv_settle [OF inv] by (auto simp: finish_commits(1) world_inv_more)
qed (use inv in simp_all)

lemma notification_inv_reachable: "outbox_reachable notification_deployment s \<Longrightarrow> world_inv (os_sent s) (os_world s)"
proof (induction rule: outbox_reachable.induct)
  case (start w t)
  then show ?case by (simp add: initial_system_def world_inv_def notification_deployment_def)
next
  case (step s s')
  then show ?case using notification_inv_step by blast
qed

text \<open>C11. However often a notification row is claimed, retried or taken over, it reaches its recipient at most
  once: no two in-app notifications come from one row, each comes from a row whose transition to sent
  committed exactly once, and each queued e-mail belongs to one in-app notification, carries its
  recipient, and is the only one for it.\<close>

theorem notification_delivered_once:
  assumes reach: "outbox_reachable notification_deployment s" and n: "n \<in> set (nw_inApp (os_world s))"
  shows "(\<exists>i. ia_sourceEventId n = Some i \<and> count_list (os_sent s) i = 1 \<and>
      (\<forall>r \<in> set (os_rows s). ob_id r = i \<longrightarrow> ob_status r = Sent \<or> ob_status r = Delivered)) \<and>
    count_list (map ia_sourceEventId (nw_inApp (os_world s))) (ia_sourceEventId n) = 1 \<and>
    distinct (map qe_idempotencyKey (nw_emails (os_world s))) \<and>
    (\<forall>e \<in> set (nw_emails (os_world s)). \<exists>m \<in> set (nw_inApp (os_world s)).
       qe_idempotencyKey e = Some (NotificationEmail (ia_id m)) \<and> qe_recipientId e = Some (ia_recipientId m))"
proof -
  note inv = notification_inv_reachable [OF reach, unfolded world_inv_def]
  have outbox: "outbox_inv notification_deployment None s" by (rule notifications.reachable_inv [OF reach])
  then have "distinct (os_sent s)" by (simp add: outbox_inv_def)
  moreover obtain i where i: "i \<in> set (os_sent s)" "ia_sourceEventId n = Some i" using inv n by blast
  ultimately have "count_list (os_sent s) i = 1" by (simp add: count_list_distinct)
  moreover have "ob_status r = Sent \<or> ob_status r = Delivered" if "r \<in> set (os_rows s)" "ob_id r = i" for r
    using outbox_inv_rules(2) [OF outbox that(1)] i(1) that(2) by (simp add: row_ok_def settled_def)
  moreover have "\<exists>m \<in> set (nw_inApp (os_world s)).
       qe_idempotencyKey e = Some (NotificationEmail (ia_id m)) \<and> qe_recipientId e = Some (ia_recipientId m)"
    if "e \<in> set (nw_emails (os_world s))" for e
    using inv that by (auto dest!: bspec)
  moreover have "count_list (map ia_sourceEventId (nw_inApp (os_world s))) (ia_sourceEventId n) = 1"
    using inv n by (simp add: count_list_distinct)
  ultimately show ?thesis
    using inv i(2) by auto
qed

text \<open>A run in which one row is delivered on both channels.\<close>

definition note_1 :: notification_outbox_row where
  "note_1 = \<lparr>ob_id = ''n1'', ob_seq = 1, ob_status = Pending, ob_attempts = 0, ob_lastError = None,
     ob_leaseToken = None, ob_lockedUntil = None, ob_due = 0, ob_createdAt = 0, ob_terminalAt = None,
     nb_recipientId = ''e1'', nb_actorId = None, nb_type = ''request.approved'', nb_resourceId = None,
     nb_idempotencyKey = None, nb_dispatchedAt = None\<rparr>"

definition note_held :: notification_outbox_row where
  "note_held = note_1\<lparr>ob_attempts := 1, ob_leaseToken := Some 1, ob_lockedUntil := Some 60000\<rparr>"

definition note_sent :: notification_outbox_row where
  "note_sent = note_1\<lparr>ob_attempts := 1, ob_status := Sent, nb_dispatchedAt := Some 0, ob_terminalAt := Some 0\<rparr>"

definition note_grant :: notification_claimed where
  "note_grant = \<lparr>cl_row = note_1\<lparr>ob_attempts := 1\<rparr>, cl_token = 1, cl_expires = 60000\<rparr>"

definition note_world :: "notification_preference list \<Rightarrow> notification_world" where
  "note_world prefs = \<lparr>nw_prefs = prefs, nw_inApp = [], nw_emails = [], nw_emailOf = (\<lambda>_. Some ''a@x''), nw_nextId = 0\<rparr>"

definition note_in_app :: in_app_notification where
  "note_in_app = \<lparr>ia_id = 0, ia_recipientId = ''e1'', ia_actorId = None, ia_type = ''request.approved'',
     ia_resourceId = None, ia_sourceEventId = Some ''n1''\<rparr>"

definition note_world_sent :: notification_world where
  "note_world_sent = \<lparr>nw_prefs = [], nw_inApp = [note_in_app],
     nw_emails = [\<lparr>qe_to = ''a@x'', qe_template = ''notification'', qe_idempotencyKey = Some (NotificationEmail 0),
       qe_recipientId = Some ''e1''\<rparr>], nw_emailOf = (\<lambda>_. Some ''a@x''), nw_nextId = 1\<rparr>"

definition note_system ::
    "notification_outbox_row \<Rightarrow> notification_world \<Rightarrow> (unit notification_outbox_row_ext, unit) phase \<Rightarrow> nat set \<Rightarrow>
     (string \<times> nat) list \<Rightarrow> string list \<Rightarrow> (unit notification_outbox_row_ext, unit, notification_world) outbox_system" where
  "note_system r w ph tokens calls sent =
     \<lparr>os_clock = 0, os_rows = [r], os_world = w, os_phase = (\<lambda>_. Idle)(0 := ph), os_ids = {''n1''},
      os_tokens = tokens, os_calls = calls, os_refunds = [], os_sent = sent\<rparr>"

lemma note_claim: "claim notification_relay 0 0 1 {} (note_world []) [note_1] = Inr ([note_held], [note_grant])"
  by code_simp

lemma note_renew: "renew_lease notification_relay 0 note_grant [note_held] = Some ([note_held], 60000)"
  by code_simp

lemma note_finish:
  "finish_sent notification_relay 0 note_grant () [note_held] (note_world []) = Inr (Some ([note_sent], note_world_sent))"
  by (simp add: finish_sent_def finish_def holds_lease_def lease_matches_def notification_relay_def
      notification_settle_def is_enabled_def find_for_check_def note_world_def note_world_sent_def note_grant_def
      note_held_def note_sent_def note_1_def note_in_app_def send_notification_def in_app_input_def
      cascade_to_email_def schedule_email_def notification_mark_sent_def update_id_def release_lease_def
      NOTIFICATION_TEMPLATE_NAMES_def Let_def)

lemma note_step:
  assumes "outbox_reachable notification_deployment s" and "relay_step notification_deployment s s'" and "s' = s''"
  shows "outbox_reachable notification_deployment s''"
  using assms outbox_reachable.step by blast

lemma note_run:
  "outbox_reachable notification_deployment (note_system note_sent note_world_sent (Claiming 49) {1} [(''n1'', 1)] [''n1''])"
proof -
  have relay: "dp_relay notification_deployment p = notification_relay" for p by (simp add: notification_deployment_def)
  have "outbox_reachable notification_deployment (note_system note_1 (note_world []) Idle {} [] [])"
    by (rule note_step [OF outbox_reachable.start [where w = "note_world []"] relay_step.enqueue [where r = note_1]])
       (simp_all add: notification_deployment_def initial_system_def fresh_row_def note_1_def note_system_def
          note_world_def fun_upd_idem)
  from note_step [OF this relay_step.begin_pass [where p = 0]]
  have "outbox_reachable notification_deployment (note_system note_1 (note_world []) (Claiming 50) {} [] [])"
    by (simp add: note_system_def MAX_BATCHES_PER_PASS_def)
  from note_step [OF this relay_step.claim_batch [where p = 0 and n = 49 and now = 0 and token = 1 and locked = "{}"
      and rows = "[note_held]" and batch = "[note_grant]"]]
  have "outbox_reachable notification_deployment (note_system note_held (note_world []) (Renewing 49 note_grant []) {1} [] [])"
    using note_claim by (simp add: note_system_def relay next_phase_def)
  from note_step [OF this relay_step.renew [where p = 0 and n = 49 and c = note_grant and cs = "[]"
      and rows = "[note_held]" and until = 60000]]
  have "outbox_reachable notification_deployment
      (note_system note_held (note_world []) (Delivering 49 note_grant []) {1} [(''n1'', 1)] [])"
    using note_renew by (simp add: note_system_def relay note_grant_def note_1_def)
  from note_step [OF this relay_step.delivered [where p = 0 and n = 49 and c = note_grant and cs = "[]" and res = "()"]]
  have "outbox_reachable notification_deployment
      (note_system note_held (note_world []) (Finishing 49 note_grant [] ()) {1} [(''n1'', 1)] [])"
    by (simp add: note_system_def)
  from note_step [OF this relay_step.finish_commits [where p = 0 and n = 49 and c = note_grant and cs = "[]"
      and res = "()" and now = 0 and rows = "[note_sent]" and w = note_world_sent]]
  show ?thesis
    using note_finish by (simp add: note_system_def relay next_phase_def, simp add: note_grant_def note_1_def)
qed

theorem notification_delivered_once_witness:
  "count_list (map ia_sourceEventId (nw_inApp note_world_sent)) (Some ''n1'') = 1 \<and>
   distinct (map qe_idempotencyKey (nw_emails note_world_sent))"
  using notification_delivered_once [OF note_run, of note_in_app]
  by (simp add: note_system_def note_world_sent_def note_in_app_def)

lemma update_where_hit: "r \<in> set rows \<Longrightarrow> p r \<Longrightarrow> f r \<in> set (update_where p f rows)"
  by (auto simp: set_update_where image_iff)

text \<open>Switching off the in-app channel also silences the e-mail: a row whose recipient has muted in-app
  notifications of its type but asked for e-mail goes to sent with nothing delivered on either
  channel.\<close>

theorem in_app_mute_silences_email:
  assumes "\<not> is_enabled (nb_recipientId (cl_row c)) (nb_type (cl_row c)) InApp (nw_prefs w)"
    and "is_enabled (nb_recipientId (cl_row c)) (nb_type (cl_row c)) Email (nw_prefs w)"
    and "holds_lease c rows"
  shows "\<exists>rows'. finish_sent notification_relay now c () rows w = Inr (Some (rows', w)) \<and>
    (\<exists>r \<in> set rows'. ob_id r = cl_id c \<and> ob_status r = Sent)"
proof -
  obtain r where r: "r \<in> set rows" "lease_matches c r" using assms(3) by (auto simp: holds_lease_def list_ex_iff)
  let ?rows = "release_lease c (notification_mark_sent now c () rows)"
  have "finish_sent notification_relay now c () rows w = Inr (Some (?rows, w))"
    using assms(1,3) by (simp add: finish_sent_def finish_def notification_relay_def notification_settle_def)
  moreover have "\<exists>q \<in> set ?rows. ob_id q = cl_id c \<and> ob_status q = Sent"
  proof -
    let ?q = "r\<lparr>ob_status := Sent, nb_dispatchedAt := Some now, ob_terminalAt := Some now\<rparr>"
    have "ob_id r = cl_id c" using r(2) by (simp add: lease_matches_def)
    then have "?q \<in> set (notification_mark_sent now c () rows)"
      using update_where_hit [OF r(1), of "\<lambda>r. ob_id r = cl_id c"]
      by (simp add: notification_mark_sent_def update_id_def)
    from update_where_hit [OF this, of "\<lambda>r. ob_id r = cl_id c" "\<lambda>r. r\<lparr>ob_leaseToken := None, ob_lockedUntil := None\<rparr>"]
    show ?thesis
      using \<open>ob_id r = cl_id c\<close> unfolding release_lease_def by (intro bexI) simp_all
  qed
  ultimately show ?thesis by blast
qed

theorem in_app_mute_silences_email_witness:
  "\<exists>rows'. finish_sent notification_relay 0 note_grant () [note_held]
     (note_world [\<lparr>np_userId = ''e1'', np_type = ''request.approved'', np_inApp = False, np_email = True\<rparr>]) =
     Inr (Some (rows', note_world [\<lparr>np_userId = ''e1'', np_type = ''request.approved'', np_inApp = False, np_email = True\<rparr>]))"
proof -
  let ?w = "note_world [\<lparr>np_userId = ''e1'', np_type = ''request.approved'', np_inApp = False, np_email = True\<rparr>]"
  have "\<not> is_enabled (nb_recipientId (cl_row note_grant)) (nb_type (cl_row note_grant)) InApp (nw_prefs ?w)"
    "is_enabled (nb_recipientId (cl_row note_grant)) (nb_type (cl_row note_grant)) Email (nw_prefs ?w)"
    "holds_lease note_grant [note_held]"
    by (simp_all add: is_enabled_def find_for_check_def channel_enabled_def note_world_def note_grant_def note_1_def
        note_held_def holds_lease_def lease_matches_def)
  from in_app_mute_silences_email [OF this, of 0] show ?thesis by blast
qed

section \<open>Attempts\<close>

text \<open>C14. Nobody calls Microsoft Graph for one task without end: a task's row never counts more than five
  attempts, its delivery has been started at most once for each attempt spent and once for each
  refunded (a scan that found its lock held), and it goes to sent at most once, exactly when its row
  says so.\<close>

theorem graph_attempts_bounded:
  assumes "outbox_reachable (graph_deployment account admits) s" and "r \<in> set (os_rows s)"
  shows "ob_attempts r \<le> 5 \<and> calls_of s (ob_id r) \<le> ob_attempts r + refunds_of s (ob_id r) \<and>
    count_list (os_sent s) (ob_id r) = (if ob_status r = Sent \<or> ob_status r = Delivered then 1 else 0)"
  using graph.deliveries_bounded [OF assms] by (simp add: MAX_ATTEMPTS_def settled_def)

theorem graph_attempts_bounded_witness:
  "ob_attempts (task_held ''a'' 1 1 150000) \<le> 5 \<and> task_held ''a'' 1 1 150000 \<in> set (os_rows tasks_claimed) \<and>
   count_list (os_sent tasks_claimed) ''a'' = 0"
proof -
  have row: "task_held ''a'' 1 1 150000 \<in> set (os_rows tasks_claimed)" "ob_id (task_held ''a'' 1 1 150000) = ''a''"
    "ob_status (task_held ''a'' 1 1 150000) = Pending"
    by (simp_all add: tasks_claimed_def task_system_def task_held_def task_def)
  from graph_attempts_bounded [OF task_run row(1)] row show ?thesis by simp
qed

end
