(* ===== verification/AccessRequests.thy ===== *)
theory AccessRequests
  imports RequestRaces WorkforceData
begin

text \<open>
  Privileged access: \<^verbatim>\<open>access-request.service.ts\<close>, \<^verbatim>\<open>access-request.type-def.ts\<close> and
  \<^verbatim>\<open>access-request.drizzle-repository.ts\<close> under \<^verbatim>\<open>libs/modules/access-requests/src\<close>.

  A submission is three transactions: the domain row, the engine's request, the link from the row to
  the request. A row without a link is decided by the service itself, the path kept for rows older
  than the engine. The state of the module is the \<open>domain_db\<close> of the engine's database.

  Grant ids are numbers handed out by the table. The notice the step hook writes carries the key
  \<^verbatim>\<open>ar_step<n>_notify:<request>\<close>, a prefix no other writer uses, so the rows are kept beside the module's
  tables and the unique index on the key is checked among them.
\<close>

section \<open>Rows\<close>

datatype access_status = Access_pending | Access_approved | Access_rejected | Access_expired | Access_revoked

datatype access_type = Local_admin | Pim_role | App_admin | Vpn | Other_access

record access_request =
  ar_id :: string
  ar_requesterId :: string
  ar_accessType :: access_type
  ar_target :: string
  ar_justification :: string
  ar_durationHours :: int
  ar_status :: access_status
  ar_reviewerId :: "string option"
  ar_reviewNote :: "string option"
  ar_reviewedAt :: "int option"
  ar_createdAt :: int
  ar_updatedAt :: int
  ar_requestId :: "string option"

record access_grant =
  gr_id :: nat
  gr_requestId :: string
  gr_granteeId :: string
  gr_accessType :: access_type
  gr_target :: string
  gr_grantedAt :: int
  gr_expiresAt :: int
  gr_revokedAt :: "int option"

record access_notice =
  an_recipientId :: string
  an_resourceName :: string
  an_requesterName :: string
  an_resourceId :: string
  an_completedStep :: int

record access_payload =
  apl_accessRequestId :: string
  apl_requesterId :: string
  apl_accessType :: access_type
  apl_target :: string
  apl_justification :: string
  apl_durationHours :: int

record access_input =
  ai_accessType :: access_type
  ai_target :: string
  ai_justification :: string
  ai_durationHours :: int

record access_db =
  acc_requests :: "access_request list"
  acc_grants :: "access_grant list"
  acc_notices :: "access_notice list"
  acc_audit :: "audit_entry list"
  acc_nextGrant :: nat

definition access_audit :: "string option \<Rightarrow> string \<Rightarrow> string \<Rightarrow> access_db \<Rightarrow> access_db" where
  "access_audit who action resourceId d =
     d\<lparr>acc_audit := acc_audit d @ [\<lparr>au_actorId = who, au_action = action, au_resourceId = resourceId\<rparr>]\<rparr>"

section \<open>The repository\<close>

definition create_access_row :: "int \<Rightarrow> string \<Rightarrow> access_input \<Rightarrow> string \<Rightarrow> access_request" where
  "create_access_row now i input requesterId =
     \<lparr>ar_id = i, ar_requesterId = requesterId, ar_accessType = ai_accessType input, ar_target = ai_target input,
      ar_justification = ai_justification input, ar_durationHours = ai_durationHours input,
      ar_status = Access_pending, ar_reviewerId = None, ar_reviewNote = None, ar_reviewedAt = None,
      ar_createdAt = now, ar_updatedAt = now, ar_requestId = None\<rparr>"

definition insert_access_row :: "access_request \<Rightarrow> access_db \<Rightarrow> access_db" where
  "insert_access_row row d = d\<lparr>acc_requests := acc_requests d @ [row]\<rparr>"

definition set_access_row :: "string \<Rightarrow> (access_request \<Rightarrow> access_request) \<Rightarrow> access_db \<Rightarrow> access_db" where
  "set_access_row i f d = d\<lparr>acc_requests := modify_row ar_id i f (acc_requests d)\<rparr>"

definition insert_grant ::
    "int \<Rightarrow> string \<Rightarrow> string \<Rightarrow> access_type \<Rightarrow> string \<Rightarrow> int \<Rightarrow> access_db \<Rightarrow> access_db" where
  "insert_grant now requestId granteeId ty target hours d =
     d\<lparr>acc_grants := acc_grants d @
          [\<lparr>gr_id = acc_nextGrant d, gr_requestId = requestId, gr_granteeId = granteeId, gr_accessType = ty,
            gr_target = target, gr_grantedAt = now, gr_expiresAt = now + hours * MS_PER_HOUR,
            gr_revokedAt = None\<rparr>],
       acc_nextGrant := acc_nextGrant d + 1\<rparr>"

definition list_active_grants :: "int \<Rightarrow> string \<Rightarrow> access_db \<Rightarrow> access_grant list" where
  "list_active_grants now granteeId d =
     rev (sort_key (\<lambda>g. (gr_grantedAt g, gr_id g))
       (filter (\<lambda>g. gr_granteeId g = granteeId \<and> gr_revokedAt g = None \<and> gr_expiresAt g > now) (acc_grants d)))"

section \<open>The request type\<close>

definition access_on_step_approved ::
    "access_payload \<Rightarrow> string \<Rightarrow> int \<Rightarrow> int \<Rightarrow> string option \<Rightarrow> string \<Rightarrow> int \<Rightarrow> access_db \<Rightarrow> access_db result" where
  "access_on_step_approved payload requestId completedStep nextStep nextAssigneeId approverId now d =
     Inr (if list_ex (\<lambda>n. an_resourceId n = requestId \<and> an_completedStep n = completedStep) (acc_notices d) then d
          else d\<lparr>acc_notices := acc_notices d @
                 [\<lparr>an_recipientId = apl_requesterId payload, an_resourceName = apl_target payload,
                   an_requesterName = apl_requesterId payload, an_resourceId = requestId,
                   an_completedStep = completedStep\<rparr>]\<rparr>)"

definition access_on_approve :: "access_payload \<Rightarrow> string \<Rightarrow> string \<Rightarrow> int \<Rightarrow> access_db \<Rightarrow> access_db result" where
  "access_on_approve payload requestId approverId now d =
     Inr (insert_grant now (apl_accessRequestId payload) (apl_requesterId payload) (apl_accessType payload)
            (apl_target payload) (apl_durationHours payload)
            (set_access_row (apl_accessRequestId payload)
               (\<lambda>r. r\<lparr>ar_status := Access_approved, ar_reviewerId := Some approverId,
                      ar_reviewedAt := Some now, ar_updatedAt := now\<rparr>) d))"

definition access_on_reject :: "access_payload \<Rightarrow> string \<Rightarrow> string \<Rightarrow> int \<Rightarrow> access_db \<Rightarrow> access_db result" where
  "access_on_reject payload requestId approverId now d =
     Inr (set_access_row (apl_accessRequestId payload)
            (\<lambda>r. r\<lparr>ar_status := Access_rejected, ar_reviewerId := Some approverId,
                   ar_reviewedAt := Some now, ar_updatedAt := now\<rparr>) d)"

definition access_on_expire :: "access_payload \<Rightarrow> string \<Rightarrow> int \<Rightarrow> access_db \<Rightarrow> access_db result" where
  "access_on_expire payload requestId now d =
     Inr (set_access_row (apl_accessRequestId payload)
            (\<lambda>r. r\<lparr>ar_status := Access_expired, ar_updatedAt := now\<rparr>) d)"

definition access_type_def :: "(access_payload, access_db) type_def" where
  "access_type_def =
     \<lparr>td_type = ''access_request'', td_requiredApprovalPermission = ''access_request.approve'',
      td_allowSelfApproval = False, td_defaultExpiryHours = Some 168, td_slaHours = Some 72,
      td_approvalSteps = Some
        [\<lparr>sp_step = 1, sp_requiredPermission = ''access_request.approve'', sp_resolverFn = None\<rparr>,
         \<lparr>sp_step = 2, sp_requiredPermission = ''access_request.security_approve'', sp_resolverFn = None\<rparr>],
      td_onSubmit = None, td_onApprove = access_on_approve,
      td_onStepApproved = Some access_on_step_approved, td_onReject = Some access_on_reject,
      td_onCancel = None, td_onExpire = Some access_on_expire\<rparr>"

definition access_registry :: "(access_payload, access_db) registry" where
  "access_registry = register access_type_def []"

section \<open>The service\<close>

type_synonym access_state = "(access_payload, access_db) engine_db"

definition access_payload_of :: "access_request \<Rightarrow> access_payload" where
  "access_payload_of row =
     \<lparr>apl_accessRequestId = ar_id row, apl_requesterId = ar_requesterId row, apl_accessType = ar_accessType row,
      apl_target = ar_target row, apl_justification = ar_justification row,
      apl_durationHours = ar_durationHours row\<rparr>"

definition file_access ::
    "request_env \<Rightarrow> string \<Rightarrow> access_request \<Rightarrow> actor \<Rightarrow> access_state \<Rightarrow>
     (access_payload request_item \<times> access_state) result" where
  "file_access env i row actor db =
     submit env access_registry i ''access_request'' (access_payload_of row) actor
       \<lparr>so_expiresAt = Some (ev_now env + 168 * MS_PER_HOUR), so_priority = None, so_assigneeId = None\<rparr> db"

definition link_access :: "string \<Rightarrow> string \<Rightarrow> actor \<Rightarrow> access_db \<Rightarrow> access_db" where
  "link_access i engineId actor d =
     access_audit (Some (ac_sub actor)) ''access_request.submitted'' i
       (set_access_row i (\<lambda>r. r\<lparr>ar_requestId := Some engineId\<rparr>) d)"

text \<open>The state is returned beside the result: an engine that throws leaves the row behind.\<close>

definition submit_access ::
    "request_env \<Rightarrow> string \<Rightarrow> string \<Rightarrow> access_input \<Rightarrow> actor \<Rightarrow> access_state \<Rightarrow>
     access_request result \<times> access_state" where
  "submit_access env i engineId input actor db =
     (let row = create_access_row (ev_now env) i input (ac_sub actor);
          db1 = db\<lparr>domain_db := insert_access_row row (domain_db db)\<rparr>
      in case file_access env engineId row actor db1 of
           Inl e \<Rightarrow> (Inl e, db1)
         | Inr (item, db2) \<Rightarrow>
             (Inr (row\<lparr>ar_requestId := Some (ri_id item)\<rparr>),
              db2\<lparr>domain_db := link_access i (ri_id item) actor (domain_db db2)\<rparr>))"

definition read_access :: "string \<Rightarrow> access_db \<Rightarrow> access_request result" where
  "read_access i d =
     (case find_row ar_id i (acc_requests d) of
        None \<Rightarrow> Inl (NotFoundException ''ACCESS_REQUEST_NOT_FOUND'')
      | Some r \<Rightarrow> Inr r)"

definition get_access :: "request_env \<Rightarrow> string \<Rightarrow> actor \<Rightarrow> access_db \<Rightarrow> access_request result" where
  "get_access env i actor d =
     and_then (read_access i d) (\<lambda>r.
     and_then (assert_party (ev_check env) [Some (ar_requesterId r)] (ac_sub actor) ''access_request.read'')
       (\<lambda>_. Inr r))"

definition list_access ::
    "request_env \<Rightarrow> string option \<Rightarrow> access_status option \<Rightarrow> nat \<Rightarrow> nat \<Rightarrow> actor \<Rightarrow> access_db \<Rightarrow>
     (access_request list \<times> nat) result" where
  "list_access env requester status limit offset actor d =
     and_then (narrow_filter (ev_check env) requester (ac_sub actor) ''access_request.read'') (\<lambda>owner.
       let found = filter (\<lambda>r. (case owner of None \<Rightarrow> True | Some u \<Rightarrow> ar_requesterId r = u) \<and>
                               (case status of None \<Rightarrow> True | Some s \<Rightarrow> ar_status r = s)) (acc_requests d)
       in Inr (take limit (drop offset (rev (sort_key (\<lambda>r. (ar_createdAt r, ar_id r)) found))), length found))"

definition assert_access_pending :: "access_request \<Rightarrow> unit result" where
  "assert_access_pending r =
     (if ar_status r \<noteq> Access_pending then Inl (PreconditionFailedException ''ACCESS_REQUEST_NOT_PENDING'')
      else Inr ())"

text \<open>What a decision reads before it chooses its path.\<close>

definition decide_read :: "string \<Rightarrow> access_db \<Rightarrow> access_request result" where
  "decide_read i d =
     and_then (read_access i d) (\<lambda>r. and_then (assert_access_pending r) (\<lambda>_. Inr r))"

definition legacy_approve :: "int \<Rightarrow> access_request \<Rightarrow> string option \<Rightarrow> actor \<Rightarrow> access_db \<Rightarrow> access_db" where
  "legacy_approve now row nte actor d =
     access_audit (Some (ac_sub actor)) ''access_request.approved'' (ar_id row)
       (insert_grant now (ar_id row) (ar_requesterId row) (ar_accessType row) (ar_target row) (ar_durationHours row)
          (set_access_row (ar_id row)
             (\<lambda>r. r\<lparr>ar_status := Access_approved, ar_reviewerId := Some (ac_sub actor), ar_reviewNote := nte,
                    ar_reviewedAt := Some now, ar_updatedAt := now\<rparr>) d))"

definition legacy_reject :: "int \<Rightarrow> access_request \<Rightarrow> string option \<Rightarrow> actor \<Rightarrow> access_db \<Rightarrow> access_db" where
  "legacy_reject now row nte actor d =
     access_audit (Some (ac_sub actor)) ''access_request.rejected'' (ar_id row)
       (set_access_row (ar_id row)
          (\<lambda>r. r\<lparr>ar_status := Access_rejected, ar_reviewerId := Some (ac_sub actor), ar_reviewNote := nte,
                 ar_reviewedAt := Some now, ar_updatedAt := now\<rparr>) d)"

definition approve_access ::
    "request_env \<Rightarrow> string \<Rightarrow> string \<Rightarrow> string option \<Rightarrow> actor \<Rightarrow> access_state \<Rightarrow>
     (access_request \<times> access_state) result" where
  "approve_access env approvalId i nte actor db =
     and_then (decide_read i (domain_db db)) (\<lambda>row.
     and_then (case ar_requestId row of
                 Some q \<Rightarrow> approve env access_registry approvalId q nte actor db
               | None \<Rightarrow> Inr (db\<lparr>domain_db := legacy_approve (ev_now env) row nte actor (domain_db db)\<rparr>))
       (\<lambda>db'. and_then (read_access i (domain_db db')) (\<lambda>r. Inr (r, db'))))"

definition reject_access ::
    "request_env \<Rightarrow> string \<Rightarrow> string \<Rightarrow> string option \<Rightarrow> actor \<Rightarrow> access_state \<Rightarrow>
     (access_request \<times> access_state) result" where
  "reject_access env approvalId i nte actor db =
     and_then (decide_read i (domain_db db)) (\<lambda>row.
     and_then (case ar_requestId row of
                 Some q \<Rightarrow> reject env access_registry approvalId q nte actor db
               | None \<Rightarrow> Inr (db\<lparr>domain_db := legacy_reject (ev_now env) row nte actor (domain_db db)\<rparr>))
       (\<lambda>db'. and_then (read_access i (domain_db db')) (\<lambda>r. Inr (r, db'))))"

definition set_grant_revoked :: "int \<Rightarrow> nat \<Rightarrow> access_db \<Rightarrow> access_db" where
  "set_grant_revoked now i d =
     d\<lparr>acc_grants := modify_row gr_id i (\<lambda>g. g\<lparr>gr_revokedAt := Some now\<rparr>) (acc_grants d)\<rparr>"

definition revoke_grant :: "int \<Rightarrow> (nat \<Rightarrow> string) \<Rightarrow> nat \<Rightarrow> actor \<Rightarrow> access_db \<Rightarrow> access_db result" where
  "revoke_grant now showId i actor d =
     (case find_row gr_id i (acc_grants d) of
        None \<Rightarrow> Inl (NotFoundException ''ACCESS_GRANT_NOT_FOUND'')
      | Some g \<Rightarrow>
          if gr_revokedAt g \<noteq> None then Inl (PreconditionFailedException ''ACCESS_GRANT_NOT_ACTIVE'')
          else Inr (access_audit (Some (ac_sub actor)) ''access_grant.revoked'' (showId i)
                      (set_grant_revoked now i d)))"

end
