(* ===== verification/AccessSafety.thy ===== *)
theory AccessSafety
  imports AccessRequests
begin

text \<open>
  The access module and the engine as one transition system. A submission and a decision on an
  unlinked row are broken at their awaits, engine decisions are split into check and transaction, and
  every caller may stop anywhere. The invariant says what stands behind each grant.
\<close>

section \<open>Steps\<close>

datatype access_call =
    Filing access_request actor
  | Linking string string actor
  | Legacy_approving access_request "string option" actor
  | Legacy_rejecting access_request "string option" actor

record access_world =
  aw_race :: "(access_payload, access_db) race_state"
  aw_calls :: "access_call list"

abbreviation aw_db :: "access_world \<Rightarrow> access_state" where "aw_db w \<equiv> fst (aw_race w)"

abbreviation aw_tables :: "access_world \<Rightarrow> access_db" where "aw_tables w \<equiv> domain_db (fst (aw_race w))"

definition put_tables :: "access_db \<Rightarrow> access_world \<Rightarrow> access_world" where
  "put_tables d w = w\<lparr>aw_race := ((aw_db w)\<lparr>domain_db := d\<rparr>, snd (aw_race w))\<rparr>"

definition put_db :: "access_state \<Rightarrow> access_world \<Rightarrow> access_world" where
  "put_db db w = w\<lparr>aw_race := (db, snd (aw_race w))\<rparr>"

definition start_call :: "access_call \<Rightarrow> access_world \<Rightarrow> access_world" where
  "start_call c w = w\<lparr>aw_calls := aw_calls w @ [c]\<rparr>"

definition end_call :: "access_call \<Rightarrow> access_world \<Rightarrow> access_world" where
  "end_call c w = w\<lparr>aw_calls := remove1 c (aw_calls w)\<rparr>"

inductive access_step :: "access_world \<Rightarrow> access_world \<Rightarrow> bool" where
  as_create:
    "find_row ar_id i (acc_requests (aw_tables w)) = None \<Longrightarrow> row = create_access_row now i input (ac_sub actor) \<Longrightarrow>
     access_step w (start_call (Filing row actor) (put_tables (insert_access_row row (aw_tables w)) w))"
| as_file:
    "Filing row actor \<in> set (aw_calls w) \<Longrightarrow> file_access env i row actor (aw_db w) = Inr (item, db') \<Longrightarrow>
     find_row ri_id i (items (aw_db w)) = None \<Longrightarrow> \<forall>a \<in> set (approvals (aw_db w)). ap_requestId a \<noteq> i \<Longrightarrow>
     access_step w (start_call (Linking (ar_id row) (ri_id item) actor)
                     (end_call (Filing row actor) (put_db db' w)))"
| as_link:
    "Linking i q actor \<in> set (aw_calls w) \<Longrightarrow>
     access_step w (end_call (Linking i q actor) (put_tables (link_access i q actor (aw_tables w)) w))"
| as_read_approve:
    "decide_read i (aw_tables w) = Inr row \<Longrightarrow> ar_requestId row = None \<Longrightarrow>
     access_step w (start_call (Legacy_approving row nte actor) w)"
| as_read_reject:
    "decide_read i (aw_tables w) = Inr row \<Longrightarrow> ar_requestId row = None \<Longrightarrow>
     access_step w (start_call (Legacy_rejecting row nte actor) w)"
| as_legacy_approve:
    "Legacy_approving row nte actor \<in> set (aw_calls w) \<Longrightarrow>
     access_step w (end_call (Legacy_approving row nte actor)
                     (put_tables (legacy_approve now row nte actor (aw_tables w)) w))"
| as_legacy_reject:
    "Legacy_rejecting row nte actor \<in> set (aw_calls w) \<Longrightarrow>
     access_step w (end_call (Legacy_rejecting row nte actor)
                     (put_tables (legacy_reject now row nte actor (aw_tables w)) w))"
| as_fail: "c \<in> set (aw_calls w) \<Longrightarrow> access_step w (end_call c w)"
| as_begin:
    "race_step access_registry (aw_race w) (aw_db w, fl') \<Longrightarrow>
     access_step w (w\<lparr>aw_race := (aw_db w, fl')\<rparr>)"
| as_commit:
    "f \<in> set (snd (aw_race w)) \<Longrightarrow> commit_flight env i f (aw_db w) = Inr db' \<Longrightarrow>
     access_step w (w\<lparr>aw_race := (db', remove1 f (snd (aw_race w)))\<rparr>)"
| as_breach: "access_step w (put_db (sla_breach_row now item (aw_db w)) w)"
| as_revoke:
    "revoke_grant now showId i actor (aw_tables w) = Inr d' \<Longrightarrow> access_step w (put_tables d' w)"

definition access_init :: "access_world \<Rightarrow> bool" where
  "access_init w \<longleftrightarrow>
     engine_init (aw_db w) \<and> snd (aw_race w) = [] \<and> aw_calls w = [] \<and> acc_grants (aw_tables w) = []"

inductive access_reachable :: "access_world \<Rightarrow> bool" where
  access_start: "access_init w \<Longrightarrow> access_reachable w"
| access_next: "access_reachable w \<Longrightarrow> access_step w w' \<Longrightarrow> access_reachable w'"

lemma world_simps [simp]:
  "aw_race (put_tables d w) = ((aw_db w)\<lparr>domain_db := d\<rparr>, snd (aw_race w))"
  "aw_race (put_db db w) = (db, snd (aw_race w))"
  "aw_race (start_call c w) = aw_race w" "aw_race (end_call c w) = aw_race w"
  "aw_calls (put_tables d w) = aw_calls w" "aw_calls (put_db db w) = aw_calls w"
  "aw_calls (start_call c w) = aw_calls w @ [c]" "aw_calls (end_call c w) = remove1 c (aw_calls w)"
  by (simp_all add: put_tables_def put_db_def start_call_def end_call_def)

section \<open>The engine does not notice the module\<close>

lemma race_write: "race_step reg (db, fl) (db\<lparr>domain_db := d\<rparr>, fl)"
  by (rule race_call, rule step_other) simp_all

lemma race_stays: "race_step reg (db, fl) (db, fl)"
  by (rule race_call, rule step_other) simp_all

lemma access_step_races: "access_step w w' \<Longrightarrow> race_step access_registry (aw_race w) (aw_race w')"
proof (induction rule: access_step.induct)
  case (as_create i w row now input actor)
  then show ?case by (cases "aw_race w") (simp add: race_write)
next
  case (as_file row actor w env i item db')
  have "engine_step access_registry (aw_db w) db'"
    using as_file(2-4) unfolding file_access_def by (rule step_submit)
  then show ?case by (cases "aw_race w") (simp add: race_call)
next
  case (as_commit f w env i db')
  then show ?case by (cases "aw_race w") (auto intro: race_commit)
next
  case (as_breach w now item)
  then show ?case by (cases "aw_race w") (auto intro: race_call step_breach)
next
  case (as_begin w fl')
  then show ?case by simp
qed (metis (no_types) world_simps prod.collapse race_write race_stays)+

lemma access_reachable_races: "access_reachable w \<Longrightarrow> race_reachable access_registry (aw_race w)"
proof (induction rule: access_reachable.induct)
  case (access_start w)
  then show ?case by (cases "aw_race w") (simp add: access_init_def race_init)
next
  case (access_next w w')
  then show ?case using access_step_races race_next by blast
qed

section \<open>What stands behind a grant\<close>

text \<open>What was asked for never changes; only status, review and link of a row do.\<close>

definition asked :: "access_request \<Rightarrow> string \<times> string \<times> access_type \<times> string \<times> int" where
  "asked r = (ar_id r, ar_requesterId r, ar_accessType r, ar_target r, ar_durationHours r)"

definition asked_in :: "access_payload \<Rightarrow> string \<times> string \<times> access_type \<times> string \<times> int" where
  "asked_in p =
     (apl_accessRequestId p, apl_requesterId p, apl_accessType p, apl_target p, apl_durationHours p)"

definition granted :: "access_grant \<Rightarrow> int \<Rightarrow> string \<times> string \<times> access_type \<times> string \<times> int" where
  "granted g hours = (gr_requestId g, gr_granteeId g, gr_accessType g, gr_target g, hours)"

definition is_asked :: "access_db \<Rightarrow> string \<times> string \<times> access_type \<times> string \<times> int \<Rightarrow> bool" where
  "is_asked d a \<longleftrightarrow> a \<in> asked ` set (acc_requests d)"

definition by_two_approvals :: "access_state \<Rightarrow> access_grant \<Rightarrow> bool" where
  "by_two_approvals db g \<longleftrightarrow>
     (\<exists>r. find_row ri_id (ri_id r) (items db) = Some r \<and> apl_accessRequestId (ri_payload r) = gr_requestId g \<and>
        ri_requesterId r = gr_granteeId g \<and> recorded (approvals db) (ri_id r) 1 \<and>
        recorded (approvals db) (ri_id r) 2)"

definition by_unlinked_path :: "access_db \<Rightarrow> access_grant \<Rightarrow> bool" where
  "by_unlinked_path d g \<longleftrightarrow>
     (\<exists>e \<in> set (acc_audit d). au_action e = ''access_request.approved'' \<and> au_resourceId e = gr_requestId g)"

definition grant_ok :: "access_state \<Rightarrow> access_grant \<Rightarrow> bool" where
  "grant_ok db g \<longleftrightarrow>
     (\<exists>hours. is_asked (domain_db db) (granted g hours) \<and> gr_expiresAt g = gr_grantedAt g + hours * MS_PER_HOUR) \<and>
     (by_two_approvals db g \<or> by_unlinked_path (domain_db db) g)"

definition item_backed :: "access_db \<Rightarrow> access_payload request_item \<Rightarrow> bool" where
  "item_backed d r \<longleftrightarrow>
     ri_type r = ''access_request'' \<and> ri_requesterId r = apl_requesterId (ri_payload r) \<and>
     is_asked d (asked_in (ri_payload r))"

fun call_ok :: "access_db \<Rightarrow> access_call \<Rightarrow> bool" where
  "call_ok d (Filing row actor) = (is_asked d (asked row) \<and> ar_requesterId row = ac_sub actor)"
| "call_ok d (Linking i q actor) = True"
| "call_ok d (Legacy_approving row nte actor) = is_asked d (asked row)"
| "call_ok d (Legacy_rejecting row nte actor) = is_asked d (asked row)"

definition access_inv :: "access_world \<Rightarrow> bool" where
  "access_inv w \<longleftrightarrow>
     (\<forall>r \<in> set (items (aw_db w)). item_backed (aw_tables w) r) \<and>
     (\<forall>g \<in> set (acc_grants (aw_tables w)). grant_ok (aw_db w) g) \<and>
     (\<forall>c \<in> set (aw_calls w). call_ok (aw_tables w) c)"

text \<open>Nothing a step does takes evidence away.\<close>

definition tables_kept :: "access_db \<Rightarrow> access_db \<Rightarrow> bool" where
  "tables_kept d d' \<longleftrightarrow>
     asked ` set (acc_requests d) \<subseteq> asked ` set (acc_requests d') \<and> set (acc_audit d) \<subseteq> set (acc_audit d')"

lemma tables_kept_refl [simp]: "tables_kept d d"
  by (simp add: tables_kept_def)

lemma is_asked_mono: "tables_kept d d' \<Longrightarrow> is_asked d a \<Longrightarrow> is_asked d' a"
  by (auto simp: tables_kept_def is_asked_def)

lemma call_ok_mono: "tables_kept d d' \<Longrightarrow> call_ok d c \<Longrightarrow> call_ok d' c"
  by (cases c) (auto intro: is_asked_mono)

lemma by_two_mono:
  assumes items': "keeps_filed (items db) (items db')" and aps': "set (approvals db) \<subseteq> set (approvals db')"
    and two: "by_two_approvals db g"
  shows "by_two_approvals db' g"
proof -
  obtain r where r: "find_row ri_id (ri_id r) (items db) = Some r" "apl_accessRequestId (ri_payload r) = gr_requestId g"
      "ri_requesterId r = gr_granteeId g" "recorded (approvals db) (ri_id r) 1" "recorded (approvals db) (ri_id r) 2"
    using two by (auto simp: by_two_approvals_def)
  obtain r' where r': "find_row ri_id (ri_id r) (items db') = Some r'" "filed r' = filed r"
    using items' r(1) unfolding keeps_filed_def by blast
  have "ri_id r' = ri_id r" "ri_payload r' = ri_payload r" "ri_requesterId r' = ri_requesterId r"
    using r'(2) by (simp_all add: filed_def)
  then show ?thesis
    using r r'(1) aps' recorded_mono [of "approvals db" "approvals db'"]
    unfolding by_two_approvals_def by (intro exI [of _ r']) simp
qed

lemma unlinked_mono: "tables_kept d d' \<Longrightarrow> by_unlinked_path d g \<Longrightarrow> by_unlinked_path d' g"
  by (auto simp: tables_kept_def by_unlinked_path_def)

lemma grant_ok_mono:
  "log_kept db db' \<Longrightarrow> tables_kept (domain_db db) (domain_db db') \<Longrightarrow> grant_ok db g \<Longrightarrow> grant_ok db' g"
  unfolding grant_ok_def log_kept_def using by_two_mono unlinked_mono is_asked_mono by blast

lemma item_backed_mono:
  assumes log: "log_kept db db'" and tab: "tables_kept d d'"
    and all: "\<forall>r \<in> set (items db). item_backed d r"
  shows "\<forall>r \<in> set (items db'). item_backed d' r"
proof
  fix r' assume "r' \<in> set (items db')"
  then obtain r where r: "r \<in> set (items db)" "filed r' = filed r"
    using log by (auto simp: log_kept_def same_filings_def)
  then have "ri_type r' = ri_type r" "ri_payload r' = ri_payload r" "ri_requesterId r' = ri_requesterId r"
    by (simp_all add: filed_def)
  then show "item_backed d' r'" using r(1) all is_asked_mono [OF tab] by (auto simp: item_backed_def)
qed

text \<open>A step that keeps the evidence and only adds grants that are in order keeps the invariant.\<close>

lemma access_inv_step:
  assumes inv: "access_inv w" and log: "log_kept (aw_db w) (aw_db w')"
    and tab: "tables_kept (aw_tables w) (aw_tables w')"
    and grants: "\<And>g. g \<in> set (acc_grants (aw_tables w')) \<Longrightarrow>
        (\<exists>g0 \<in> set (acc_grants (aw_tables w)). g = g0\<lparr>gr_revokedAt := gr_revokedAt g\<rparr>) \<or> grant_ok (aw_db w') g"
    and calls: "\<And>c. c \<in> set (aw_calls w') \<Longrightarrow> c \<in> set (aw_calls w) \<or> call_ok (aw_tables w') c"
  shows "access_inv w'"
proof -
  have same: "grant_ok db (g\<lparr>gr_revokedAt := x\<rparr>) = grant_ok db g" for db g x
    by (simp add: grant_ok_def granted_def by_two_approvals_def by_unlinked_path_def)
  have "grant_ok (aw_db w') g" if "g \<in> set (acc_grants (aw_tables w'))" for g
    using grants [OF that]
  proof
    assume "\<exists>g0 \<in> set (acc_grants (aw_tables w)). g = g0\<lparr>gr_revokedAt := gr_revokedAt g\<rparr>"
    then obtain g0 where g0: "g0 \<in> set (acc_grants (aw_tables w))" "g = g0\<lparr>gr_revokedAt := gr_revokedAt g\<rparr>" ..
    have "grant_ok (aw_db w) g0" using inv g0(1) by (simp add: access_inv_def)
    then have "grant_ok (aw_db w') g0" by (rule grant_ok_mono [OF log tab])
    then show ?thesis by (subst g0(2)) (simp only: same)
  qed
  moreover have "call_ok (aw_tables w') c" if "c \<in> set (aw_calls w')" for c
    using calls [OF that] inv call_ok_mono [OF tab] unfolding access_inv_def by blast
  ultimately show ?thesis
    using inv item_backed_mono [OF log tab] by (simp add: access_inv_def)
qed

section \<open>Every step keeps the invariant\<close>

lemma kept_set_row:
  assumes "\<And>r. asked (f r) = asked r"
  shows "tables_kept d (set_access_row i f d)"
proof -
  have "map asked (modify_row ar_id i f (acc_requests d)) = map asked (acc_requests d)"
    unfolding modify_row_def by (rule map_key_update_where) (rule assms)
  then have "asked ` set (modify_row ar_id i f (acc_requests d)) = asked ` set (acc_requests d)"
    by (metis list.set_map)
  then show ?thesis by (simp add: tables_kept_def set_access_row_def)
qed

lemma kept_audit: "tables_kept d d' \<Longrightarrow> tables_kept d (access_audit who act i d')"
  by (auto simp: tables_kept_def access_audit_def)

lemma kept_insert_grant: "tables_kept d d' \<Longrightarrow> tables_kept d (insert_grant now i u ty t h d')"
  by (auto simp: tables_kept_def insert_grant_def)

lemma kept_insert_row: "tables_kept d (insert_access_row row d)"
  by (auto simp: tables_kept_def insert_access_row_def)

lemma table_simps [simp]:
  "acc_grants (set_access_row i f d) = acc_grants d" "acc_grants (access_audit who act i d) = acc_grants d"
  "acc_grants (insert_access_row row d) = acc_grants d" "acc_audit (set_access_row i f d) = acc_audit d"
  "acc_audit (insert_grant now i u ty t h d) = acc_audit d"
  by (simp_all add: set_access_row_def access_audit_def insert_access_row_def insert_grant_def)

lemma is_asked_simps [simp]:
  "is_asked (access_audit who act i d) a = is_asked d a"
  "is_asked (insert_grant now i u ty t h d) a = is_asked d a"
  by (simp_all add: is_asked_def access_audit_def insert_grant_def)

lemma kept_legacy:
  "tables_kept d (legacy_approve now row nte actor d)"
  "tables_kept d (legacy_reject now row nte actor d)"
  "tables_kept d (link_access i q actor d)"
  unfolding legacy_approve_def legacy_reject_def link_access_def
  by (intro kept_audit kept_insert_grant kept_set_row, simp add: asked_def)+

lemma link_grants [simp]:
  "acc_grants (link_access i q actor d) = acc_grants d"
  "acc_grants (legacy_reject now row nte actor d) = acc_grants d"
  by (simp_all add: link_access_def legacy_reject_def)

lemma granted_new:
  assumes "is_asked d (i, u, ty, t, h)" and "g \<in> set (acc_grants (insert_grant now i u ty t h d'))"
  shows "g \<in> set (acc_grants d') \<or>
    (gr_requestId g = i \<and> gr_granteeId g = u \<and> gr_expiresAt g = gr_grantedAt g + h * MS_PER_HOUR \<and>
     is_asked d (granted g h))"
  using assms by (auto simp: insert_grant_def granted_def)

lemma legacy_grant:
  assumes "is_asked d (asked row)" and "g \<in> set (acc_grants (legacy_approve now row nte actor d))"
    and "domain_db db = legacy_approve now row nte actor d"
  shows "g \<in> set (acc_grants d) \<or> grant_ok db g"
proof -
  let ?d = "legacy_approve now row nte actor d"
  have a: "is_asked d (ar_id row, ar_requesterId row, ar_accessType row, ar_target row, ar_durationHours row)"
    using assms(1) by (simp add: asked_def)
  have "g \<in> set (acc_grants d) \<or>
      (gr_requestId g = ar_id row \<and> gr_expiresAt g = gr_grantedAt g + ar_durationHours row * MS_PER_HOUR \<and>
       is_asked d (granted g (ar_durationHours row)))"
    using granted_new [OF a] assms(2) by (fastforce simp: legacy_approve_def)
  moreover have "by_unlinked_path ?d g" if "gr_requestId g = ar_id row"
    using that by (auto simp: by_unlinked_path_def legacy_approve_def access_audit_def)
  ultimately show ?thesis
    using is_asked_mono [OF kept_legacy(1)] assms(3) unfolding grant_ok_def by metis
qed

lemma access_registry_get:
  "registry_get access_registry t = Inr def \<longleftrightarrow> t = ''access_request'' \<and> def = access_type_def"
  by (auto simp: access_registry_def register_def registry_has_def registry_get_def access_type_def_def)

lemma access_final: "is_final_step access_type_def n \<longleftrightarrow> n \<ge> 2"
  by (auto simp: is_final_step_def max_step_def access_type_def_def)

text \<open>What each hook does to the tables, in one place.\<close>

lemma access_hooks:
  "td_onApprove access_type_def p rid u now d = Inr d' \<Longrightarrow> tables_kept d d' \<and>
     (\<exists>d0. acc_grants d0 = acc_grants d \<and>
        acc_grants d' = acc_grants (insert_grant now (apl_accessRequestId p) (apl_requesterId p)
          (apl_accessType p) (apl_target p) (apl_durationHours p) d0))"
  "run_hook (map_option (\<lambda>h x d. h p rid n m a u now d) (td_onStepApproved access_type_def)) () d = Inr d' \<Longrightarrow>
     tables_kept d d' \<and> acc_grants d' = acc_grants d"
  "run_hook (map_option (\<lambda>h x d. h p rid u now d) (td_onReject access_type_def)) () d = Inr d' \<Longrightarrow>
     tables_kept d d' \<and> acc_grants d' = acc_grants d"
  "run_hook (map_option (\<lambda>h x d. h p rid u now d) (td_onCancel access_type_def)) () d = Inr d' \<Longrightarrow> d' = d"
  "run_hook (map_option (\<lambda>h x d. h p rid now d) (td_onExpire access_type_def)) () d = Inr d' \<Longrightarrow>
     tables_kept d d' \<and> acc_grants d' = acc_grants d"
proof -
  show "tables_kept d d' \<and>
     (\<exists>d0. acc_grants d0 = acc_grants d \<and>
        acc_grants d' = acc_grants (insert_grant now (apl_accessRequestId p) (apl_requesterId p)
          (apl_accessType p) (apl_target p) (apl_durationHours p) d0))"
    if "td_onApprove access_type_def p rid u now d = Inr d'"
    using that unfolding access_type_def_def type_def.simps access_on_approve_def
    by (auto intro!: kept_insert_grant kept_set_row exI [of _ "set_access_row (apl_accessRequestId p) f d" for f]
        simp: asked_def)
qed (auto simp: access_type_def_def access_on_step_approved_def access_on_reject_def access_on_expire_def
      tables_kept_def [of d "d\<lparr>acc_notices := x\<rparr>" for d x] asked_def intro!: kept_set_row)

lemma unchanged_grant: "g \<in> G \<Longrightarrow> \<exists>g0 \<in> G. g = g0\<lparr>gr_revokedAt := gr_revokedAt g\<rparr>"
  by (rule bexI [of _ g]) simp_all

lemma commit_tables:
  assumes inv: "access_inv w" and races: "races_earned access_registry (aw_race w)"
    and race: "race_inv access_registry (aw_race w)"
    and f: "f \<in> set (snd (aw_race w))" and m: "commit_flight env j f (aw_db w) = Inr db'"
  shows "tables_kept (aw_tables w) (domain_db db') \<and>
    (\<forall>g \<in> set (acc_grants (domain_db db')). g \<in> set (acc_grants (aw_tables w)) \<or> grant_ok db' g)"
proof -
  let ?d = "aw_tables w"
  have fok: "flight_ok access_registry (items (aw_db w)) f" "flight_earned access_registry (approvals (aw_db w)) f"
    using race races f by (auto simp: race_inv_def races_earned_def)
  have log: "log_kept (aw_db w) db'" by (rule commit_keeps [OF m])
  show ?thesis
  proof (cases f)
    case (Approving ctx nt actor)
    define r where "r = dc_request ctx"
    have seen: "seen (items (aw_db w)) r" and def: "dc_def ctx = access_type_def"
      and steps: "steps_earned (approvals (aw_db w)) r"
      using fok Approving by (auto simp: context_ok_def access_registry_get r_def)
    obtain r0 where r0: "find_row ri_id (ri_id r) (items (aw_db w)) = Some r0" "filed r0 = filed r"
      using seen by (auto simp: seen_def)
    have same: "ri_id r0 = ri_id r" "ri_payload r0 = ri_payload r" "ri_requesterId r0 = ri_requesterId r"
      using r0(2) by (simp_all add: filed_def)
    have backed: "item_backed ?d r0" using inv find_row_Some [OF r0(1)] by (simp add: access_inv_def)
    from m Approving have "approve_commit env j nt actor ctx (aw_db w) = Inr db'" by simp
    then show ?thesis
    proof (rule approve_commit_shape)
      fix na
      assume aps: "approvals db' = approvals (aw_db w) @ [approval_row (ev_now env) j ctx Decision_approved nt actor]"
        and hook: "if is_final_step (dc_def ctx) (ri_currentStep (dc_request ctx))
          then td_onApprove (dc_def ctx) (ri_payload (dc_request ctx)) (ri_id (dc_request ctx)) (ac_sub actor)
            (ev_now env) (domain_db (aw_db w)) = Inr (domain_db db')
          else run_hook (map_option (\<lambda>h x d. h (ri_payload (dc_request ctx)) (ri_id (dc_request ctx))
            (ri_currentStep (dc_request ctx)) (ri_currentStep (dc_request ctx) + 1) na (ac_sub actor)
            (ev_now env) d) (td_onStepApproved (dc_def ctx))) () (domain_db (aw_db w)) = Inr (domain_db db')"
      show ?thesis
      proof (cases "ri_currentStep r \<ge> 2")
        case False
        then show ?thesis using hook access_hooks(2) by (auto simp: def access_final r_def [symmetric])
      next
        case True
        let ?p = "ri_payload r"
        obtain d0 where tab: "tables_kept ?d (domain_db db')" and d0: "acc_grants d0 = acc_grants ?d"
          and new: "acc_grants (domain_db db') = acc_grants (insert_grant (ev_now env) (apl_accessRequestId ?p)
              (apl_requesterId ?p) (apl_accessType ?p) (apl_target ?p) (apl_durationHours ?p) d0)"
          using access_hooks(1) [of ?p "ri_id r" "ac_sub actor" "ev_now env" ?d "domain_db db'"] hook True
          by (auto simp: def access_final r_def [symmetric])
        have asked: "is_asked ?d (apl_accessRequestId ?p, apl_requesterId ?p, apl_accessType ?p, apl_target ?p,
            apl_durationHours ?p)" and req: "ri_requesterId r = apl_requesterId ?p"
          using backed same by (auto simp: item_backed_def asked_in_def)
        have earlier: "recorded (approvals db') (ri_id r) n" if "1 \<le> n" "n < ri_currentStep r" for n
          by (rule recorded_mono [of "approvals (aw_db w)"]) (use steps that in \<open>auto simp: steps_earned_def aps\<close>)
        have done1: "recorded (approvals db') (ri_id r) 1" using earlier True by simp
        have done2: "recorded (approvals db') (ri_id r) 2"
        proof (cases "ri_currentStep r = 2")
          case True
          then show ?thesis
            using recorded_approval_row [of "approvals (aw_db w)" "ev_now env" j ctx nt actor]
            by (simp add: aps r_def)
        next
          case False
          then show ?thesis using earlier True by simp
        qed
        obtain r1 where r1: "find_row ri_id (ri_id r) (items db') = Some r1" "filed r1 = filed r0"
          using log r0(1) unfolding log_kept_def keeps_filed_def by blast
        have same1: "ri_id r1 = ri_id r" "ri_payload r1 = ri_payload r" "ri_requesterId r1 = ri_requesterId r"
          using r1(2) same by (simp_all add: filed_def)
        have "by_two_approvals db' g" if "gr_requestId g = apl_accessRequestId ?p" "gr_granteeId g = apl_requesterId ?p" for g
          unfolding by_two_approvals_def
          by (rule exI [of _ r1]) (simp add: same1 r1(1) that req done1 done2)
        then have "g \<in> set (acc_grants ?d) \<or> grant_ok db' g" if "g \<in> set (acc_grants (domain_db db'))" for g
          using granted_new [OF asked that [unfolded new]] is_asked_mono [OF tab] d0
          unfolding grant_ok_def by metis
        then show ?thesis using tab by blast
      qed
    qed
  next
    case (Rejecting ctx nt actor)
    then have def: "dc_def ctx = access_type_def"
      using fok by (auto simp: context_ok_def access_registry_get)
    from m Rejecting have "reject_commit env j nt actor ctx (aw_db w) = Inr db'" by simp
    from reject_commit_shape(4) [OF this] show ?thesis using access_hooks(3) by (auto simp: def)
  next
    case (Cancelling c actor)
    from m Cancelling have commit: "cancel_commit env actor c (aw_db w) = Inr db'" by simp
    have def: "snd c = access_type_def" using fok(2) Cancelling by (auto simp: access_registry_get)
    have "domain_db db' = ?d" using cancel_commit_shape(4) [OF commit] unfolding def by (rule access_hooks(4))
    then show ?thesis by simp
  next
    case (Expiring c)
    from m Expiring have commit: "expire_commit env c (aw_db w) = Inr db'" by simp
    have def: "snd c = access_type_def" using fok(2) Expiring by (auto simp: access_registry_get)
    have "tables_kept ?d (domain_db db') \<and> acc_grants (domain_db db') = acc_grants ?d"
      using expire_commit_shape(4) [OF commit] unfolding def by (rule access_hooks(5))
    then show ?thesis by simp
  qed
qed

lemma submit_keeps:
  assumes "submit env reg i ty p actor opts db = Inr (r, db')" and "find_row ri_id i (items db) = None"
  shows "keeps_filed (items db) (items db') \<and> approvals db' = approvals db \<and> items db' = items db @ [r]"
  using assms(1)
  by (rule submit_shape) (use assms(2) in \<open>auto simp: keeps_filed_def find_row_append split: option.splits\<close>)

lemma file_access_Inr:
  assumes "file_access env i row actor db = Inr (item, db')" and "find_row ri_id i (items db) = None"
  shows "keeps_filed (items db) (items db')" "approvals db' = approvals db" "items db' = items db @ [item]"
    "domain_db db' = domain_db db" "ri_type item = ''access_request''" "ri_requesterId item = ac_sub actor"
    "ri_payload item = access_payload_of row"
proof -
  note s = assms(1) [unfolded file_access_def]
  show "keeps_filed (items db) (items db')" "approvals db' = approvals db" "items db' = items db @ [item]"
    using submit_keeps [OF s assms(2)] by auto
  show "domain_db db' = domain_db db" "ri_type item = ''access_request''" "ri_requesterId item = ac_sub actor"
    "ri_payload item = access_payload_of row"
    by (rule submit_shape [OF s]; auto simp: access_registry_get access_type_def_def)+
qed

lemma asked_payload [simp]: "asked_in (access_payload_of row) = asked row"
  by (simp add: asked_in_def access_payload_of_def asked_def)

lemma decide_read_asked: "decide_read i d = Inr row \<Longrightarrow> is_asked d (asked row)"
  by (auto simp: decide_read_def read_access_def is_asked_def and_then_eq_Inr dest!: find_row_Some
      split: option.splits)

lemma access_inv_file:
  assumes inv: "access_inv w" and c: "Filing row actor \<in> set (aw_calls w)"
    and filing: "file_access env i row actor (aw_db w) = Inr (item, db')"
    and fresh: "find_row ri_id i (items (aw_db w)) = None"
  shows "access_inv (start_call (Linking (ar_id row) (ri_id item) actor) (end_call (Filing row actor) (put_db db' w)))"
proof -
  note f = file_access_Inr [OF filing fresh]
  have asked: "is_asked (aw_tables w) (asked row)" and own: "ar_requesterId row = ac_sub actor"
    using inv c by (auto simp: access_inv_def)
  have "item_backed (aw_tables w) item"
    using asked own f(5,6,7) by (simp add: item_backed_def) (simp add: access_payload_of_def)
  moreover have "grant_ok db' g" if "grant_ok (aw_db w) g" for g
  proof -
    have "by_two_approvals (aw_db w) g \<Longrightarrow> by_two_approvals db' g"
      by (rule by_two_mono [OF f(1)]) (simp_all add: f(2))
    then show ?thesis using \<open>grant_ok (aw_db w) g\<close> by (auto simp: grant_ok_def f(4))
  qed
  ultimately show ?thesis
    using inv by (auto simp: access_inv_def f(3,4) dest: set_remove1_subset [THEN subsetD])
qed

lemma access_inv_keeps:
  assumes inv: "access_inv w" and reach: "access_reachable w" and step: "access_step w w'"
  shows "access_inv w'"
  using step
proof cases
  case (as_create i row now input actor)
  show ?thesis
    unfolding as_create(1)
  proof (rule access_inv_step [OF inv])
    show "c \<in> set (aw_calls w) \<or> call_ok (aw_tables (start_call (Filing row actor)
        (put_tables (insert_access_row row (aw_tables w)) w))) c"
      if "c \<in> set (aw_calls (start_call (Filing row actor) (put_tables (insert_access_row row (aw_tables w)) w)))" for c
      using that as_create(3)
      by (auto simp: is_asked_def insert_access_row_def create_access_row_def)
  qed (auto simp: kept_insert_row log_kept_def same_filings_def intro: unchanged_grant)
next
  case (as_file row actor env i item db')
  show ?thesis unfolding as_file(1) by (rule access_inv_file [OF inv as_file(2-4)])
next
  case (as_commit f env i db')
  have rr: "race_reachable access_registry (aw_race w)" by (rule access_reachable_races [OF reach])
  note t = commit_tables [OF inv races_earned_reachable [OF rr] race_inv_reachable [OF rr] as_commit(2,3)]
  show ?thesis
    unfolding as_commit(1)
  proof (rule access_inv_step [OF inv])
    fix g assume "g \<in> set (acc_grants (aw_tables (w\<lparr>aw_race := (db', remove1 f (snd (aw_race w)))\<rparr>)))"
    then have "g \<in> set (acc_grants (aw_tables w)) \<or> grant_ok db' g" using t by simp
    then show "(\<exists>g0 \<in> set (acc_grants (aw_tables w)). g = g0\<lparr>gr_revokedAt := gr_revokedAt g\<rparr>) \<or>
        grant_ok (aw_db (w\<lparr>aw_race := (db', remove1 f (snd (aw_race w)))\<rparr>)) g"
      using unchanged_grant by auto
  qed (use t commit_keeps [OF as_commit(3)] in auto)
next
  case (as_legacy_approve row nte actor now)
  have asked: "is_asked (aw_tables w) (asked row)" using inv as_legacy_approve(2) by (auto simp: access_inv_def)
  show ?thesis
    unfolding as_legacy_approve(1)
  proof (rule access_inv_step [OF inv])
    let ?w = "end_call (Legacy_approving row nte actor) (put_tables (legacy_approve now row nte actor (aw_tables w)) w)"
    fix g assume "g \<in> set (acc_grants (aw_tables ?w))"
    then have "g \<in> set (acc_grants (aw_tables w)) \<or> grant_ok (aw_db ?w) g"
      using legacy_grant [OF asked] by simp
    then show "(\<exists>g0 \<in> set (acc_grants (aw_tables w)). g = g0\<lparr>gr_revokedAt := gr_revokedAt g\<rparr>) \<or> grant_ok (aw_db ?w) g"
      using unchanged_grant by auto
  qed (auto simp: kept_legacy log_kept_def same_filings_def dest: set_remove1_subset [THEN subsetD])
next
  case (as_revoke now showId i actor d')
  then have d': "acc_grants d' = modify_row gr_id i (\<lambda>g. g\<lparr>gr_revokedAt := Some now\<rparr>) (acc_grants (aw_tables w))"
    "tables_kept (aw_tables w) d'"
    by (auto simp: revoke_grant_def set_grant_revoked_def access_audit_def tables_kept_def split: option.splits if_splits)
  show ?thesis
    unfolding as_revoke(1)
  proof (rule access_inv_step [OF inv])
    fix g assume "g \<in> set (acc_grants (aw_tables (put_tables d' w)))"
    then obtain g0 where "g0 \<in> set (acc_grants (aw_tables w))" "g = g0\<lparr>gr_revokedAt := gr_revokedAt g\<rparr>"
      by (auto simp: d' modify_row_def set_update_where)
    then show "(\<exists>g0 \<in> set (acc_grants (aw_tables w)). g = g0\<lparr>gr_revokedAt := gr_revokedAt g\<rparr>) \<or>
        grant_ok (aw_db (put_tables d' w)) g" by blast
  qed (auto simp: d' log_kept_def same_filings_def)
next
  case (as_breach now item)
  have "domain_db (sla_breach_row now item (aw_db w)) = aw_tables w"
    by (simp add: sla_breach_row_def split: option.splits)
  then show ?thesis
    unfolding as_breach(1)
    by (intro access_inv_step [OF inv]) (auto simp: breach_keeps intro: unchanged_grant)
next
  case (as_read_approve i row nte actor)
  then show ?thesis using inv decide_read_asked by (auto simp: access_inv_def)
next
  case (as_read_reject i row nte actor)
  then show ?thesis using inv decide_read_asked by (auto simp: access_inv_def)
next
  case (as_begin fl')
  then show ?thesis using inv by (simp add: access_inv_def)
next
  case (as_fail c)
  then show ?thesis using inv by (auto simp: access_inv_def dest: set_remove1_subset [THEN subsetD])
next
  case (as_link i q actor)
  show ?thesis
    unfolding as_link(1)
    by (rule access_inv_step [OF inv]) (auto simp: kept_legacy log_kept_def same_filings_def
        dest: set_remove1_subset [THEN subsetD] intro: unchanged_grant)
next
  case (as_legacy_reject row nte actor now)
  show ?thesis
    unfolding as_legacy_reject(1)
    by (rule access_inv_step [OF inv]) (auto simp: kept_legacy log_kept_def same_filings_def
        dest: set_remove1_subset [THEN subsetD] intro: unchanged_grant)
qed

lemma access_reachable_inv: "access_reachable w \<Longrightarrow> access_inv w"
proof (induction rule: access_reachable.induct)
  case (access_start w)
  then show ?case by (simp add: access_inv_def access_init_def engine_init_def)
qed (rule access_inv_keeps)

end
