(* ===== verification/AccessProperties.thy ===== *)
theory AccessProperties
  imports AccessSafety
begin

text \<open>
  Claims on privileged access: what stands behind a grant in every interleaving, and what the path
  without the engine lets through.
\<close>

section \<open>Claims\<close>

text \<open>C16. However submissions, decisions and revocations interleave, a grant gives what its request
  asked for, to the person who asked, for the hours asked; and behind it stand either approvals of both
  steps of an engine request that person filed, each made for somebody else, or a decision through the
  path for rows without an engine request.\<close>

theorem access_grant_is_earned:
  assumes "access_reachable w" and "g \<in> set (acc_grants (aw_tables w))"
  shows "(\<exists>row \<in> set (acc_requests (aw_tables w)).
      ar_id row = gr_requestId g \<and> ar_requesterId row = gr_granteeId g \<and> ar_accessType row = gr_accessType g \<and>
      ar_target row = gr_target g \<and> gr_expiresAt g = gr_grantedAt g + ar_durationHours row * MS_PER_HOUR) \<and>
    ((\<exists>r. find_row ri_id (ri_id r) (items (aw_db w)) = Some r \<and>
        apl_accessRequestId (ri_payload r) = gr_requestId g \<and> ri_requesterId r = gr_granteeId g \<and>
        (\<forall>n. n = 1 \<or> n = 2 \<longrightarrow>
          (\<exists>a \<in> set (approvals (aw_db w)). ap_requestId a = ri_id r \<and> ap_step a = n \<and>
             ap_decision a = Decision_approved \<and>
             (case ap_delegatedFromId a of None \<Rightarrow> ap_approverId a | Some u \<Rightarrow> u) \<noteq> gr_granteeId g))) \<or>
     (\<exists>e \<in> set (acc_audit (aw_tables w)).
        au_action e = ''access_request.approved'' \<and> au_resourceId e = gr_requestId g))"
proof -
  have ok: "grant_ok (aw_db w) g" using access_reachable_inv [OF assms(1)] assms(2) by (simp add: access_inv_def)
  have duties: "\<forall>a \<in> set (approvals (aw_db w)). duties_separated access_registry (items (aw_db w)) a"
    using race_inv_reachable [OF access_reachable_races [OF assms(1)]] by (simp add: race_inv_def)
  have two: "\<exists>a \<in> set (approvals (aw_db w)). ap_requestId a = ri_id r \<and> ap_step a = n \<and>
      ap_decision a = Decision_approved \<and> answered_for a \<noteq> ri_requesterId r"
    if found: "find_row ri_id (ri_id r) (items (aw_db w)) = Some r" and log: "recorded (approvals (aw_db w)) (ri_id r) n"
    for r n
  proof -
    obtain a where a: "a \<in> set (approvals (aw_db w))" "ap_requestId a = ri_id r" "ap_step a = n"
        "ap_decision a = Decision_approved"
      using log by (auto simp: recorded_def)
    then have "answered_for a \<noteq> ri_requesterId r"
      using duties found by (auto simp: duties_separated_def access_registry_get access_type_def_def)
    then show ?thesis using a by blast
  qed
  show ?thesis
    using ok two unfolding grant_ok_def is_asked_def by_two_approvals_def by_unlinked_path_def answered_for_def
    by (elim conjE exE) (intro conjI; fastforce simp: granted_def asked_def)
qed

text \<open>A pending row without an engine request is granted in one call to whoever asks: whatever the
  permission service would answer and whoever the caller is, the requester included, no step, no
  approval record and no check stand before the grant.\<close>

theorem unlinked_request_granted_by_anyone:
  assumes "find_row ar_id i (acc_requests (domain_db db)) = Some row" and "ar_status row = Access_pending"
    and "ar_requestId row = None"
  shows "\<exists>r' db'. approve_access env approvalId i nte actor db = Inr (r', db') \<and>
    ar_status r' = Access_approved \<and> items db' = items db \<and> approvals db' = approvals db \<and>
    (\<exists>g \<in> set (acc_grants (domain_db db')). gr_requestId g = i \<and> gr_granteeId g = ar_requesterId row \<and>
       gr_target g = ar_target row \<and> gr_revokedAt g = None \<and> gr_grantedAt g = ev_now env)"
proof -
  let ?d = "legacy_approve (ev_now env) row nte actor (domain_db db)"
  have i: "ar_id row = i" using find_row_Some [OF assms(1)] by simp
  let ?f = "\<lambda>r. r\<lparr>ar_status := Access_approved, ar_reviewerId := Some (ac_sub actor), ar_reviewNote := nte,
                  ar_reviewedAt := Some (ev_now env), ar_updatedAt := ev_now env\<rparr>"
  have "find_row ar_id i (acc_requests ?d) = Some (?f row)"
    using assms(1) find_row_update_where [of ar_id ?f i "\<lambda>r. ar_id r = i" "acc_requests (domain_db db)"]
    by (simp add: i legacy_approve_def insert_grant_def access_audit_def set_access_row_def modify_row_def)
  then have "approve_access env approvalId i nte actor db = Inr (?f row, db\<lparr>domain_db := ?d\<rparr>)"
    using assms by (simp add: approve_access_def decide_read_def read_access_def assert_access_pending_def)
  moreover have "\<exists>g \<in> set (acc_grants ?d). gr_requestId g = i \<and> gr_granteeId g = ar_requesterId row \<and>
      gr_target g = ar_target row \<and> gr_revokedAt g = None \<and> gr_grantedAt g = ev_now env"
    by (simp add: legacy_approve_def insert_grant_def i)
  ultimately show ?thesis
    by (intro exI [of _ "?f row"] exI [of _ "db\<lparr>domain_db := ?d\<rparr>"] conjI) simp_all
qed

section \<open>Witnesses\<close>

definition ax_actor :: "string \<Rightarrow> actor" where "ax_actor u = \<lparr>ac_sub = u, ac_email = u\<rparr>"

definition ax_env :: "int \<Rightarrow> request_env" where
  "ax_env now =
     \<lparr>ev_now = now, ev_check = (\<lambda>u p. u = ''bob'' \<or> u = ''carol''), ev_holders = (\<lambda>p. [''bob'', ''carol'']),
      ev_delegation = (\<lambda>u. None), ev_employee = (\<lambda>u. Some Employee_active)\<rparr>"

definition ax_input :: access_input where
  "ax_input = \<lparr>ai_accessType = Vpn, ai_target = ''vpn-1'', ai_justification = ''on call'', ai_durationHours = 8\<rparr>"

definition ax_empty :: access_world where
  "ax_empty =
     \<lparr>aw_race = (\<lparr>items = [], approvals = [], comments = [], outbox = [], subscriptions = [], deliveries = [],
        domain_db = \<lparr>acc_requests = [], acc_grants = [], acc_notices = [], acc_audit = [], acc_nextGrant = 0\<rparr>\<rparr>, []),
      aw_calls = []\<rparr>"

definition ax_row :: access_request where "ax_row = create_access_row 1 ''x1'' ax_input ''alice''"

definition ax_created :: access_world where
  "ax_created = start_call (Filing ax_row (ax_actor ''alice''))
     (put_tables (insert_access_row ax_row (aw_tables ax_empty)) ax_empty)"

definition ax_item :: "access_payload request_item" where
  "ax_item = fst (projr (file_access (ax_env 2) ''r1'' ax_row (ax_actor ''alice'') (aw_db ax_created)))"

definition ax_filed :: access_world where
  "ax_filed = start_call (Linking ''x1'' (ri_id ax_item) (ax_actor ''alice''))
     (end_call (Filing ax_row (ax_actor ''alice''))
       (put_db (snd (projr (file_access (ax_env 2) ''r1'' ax_row (ax_actor ''alice'') (aw_db ax_created)))) ax_created))"

definition ax_ctx :: "string \<Rightarrow> access_world \<Rightarrow> (access_payload, access_db) decision_context" where
  "ax_ctx u w = projr (approve_check (ax_env 3) access_registry ''r1'' (ax_actor u) (aw_db w))"

definition ax_commit :: "string \<Rightarrow> string \<Rightarrow> access_world \<Rightarrow> access_world" where
  "ax_commit a u w =
     w\<lparr>aw_race := (projr (approve_commit (ax_env 4) a None (ax_actor u) (ax_ctx u w) (aw_db w)), [])\<rparr>"

definition ax_first :: access_world where "ax_first = ax_commit ''a1'' ''bob'' ax_filed"

definition ax_granted :: access_world where "ax_granted = ax_commit ''a2'' ''carol'' ax_first"

lemma ax_approve_step:
  assumes reach: "access_reachable w" and idle: "snd (aw_race w) = []"
    and passes: "\<not> isl (approve_check (ax_env 3) access_registry ''r1'' (ax_actor u) (aw_db w))"
      "\<not> isl (approve_commit (ax_env 4) a None (ax_actor u) (ax_ctx u w) (aw_db w))"
  shows "access_reachable (ax_commit a u w)"
proof -
  have chk: "approve_check (ax_env 3) access_registry ''r1'' (ax_actor u) (aw_db w) = Inr (ax_ctx u w)"
    using passes(1) by (simp add: ax_ctx_def)
  have com: "approve_commit (ax_env 4) a None (ax_actor u) (ax_ctx u w) (aw_db w) = Inr (aw_db (ax_commit a u w))"
    using passes(2) by (simp add: ax_commit_def)
  let ?f = "Approving (ax_ctx u w) None (ax_actor u)"
  let ?w = "w\<lparr>aw_race := (aw_db w, [?f])\<rparr>"
  have "race_step access_registry (aw_race w) (aw_db w, [?f])"
    using race_begin_approve [OF chk, of "[]" None] idle by (cases "aw_race w") simp
  from access_next [OF reach as_begin [OF this]] have r: "access_reachable ?w" .
  have "access_step ?w (?w\<lparr>aw_race := (aw_db (ax_commit a u w), remove1 ?f (snd (aw_race ?w)))\<rparr>)"
    by (rule as_commit [where f = ?f and env = "ax_env 4" and i = a]) (use com in simp_all)
  from access_next [OF r this] show ?thesis by (simp add: ax_commit_def)
qed

lemma ax_created_reachable: "access_reachable ax_created"
proof (rule access_next [OF access_start])
  show "access_init ax_empty" by (simp add: access_init_def ax_empty_def engine_init_def)
  show "access_step ax_empty ax_created"
    unfolding ax_created_def
    by (rule as_create [where i = "''x1''" and now = 1 and input = ax_input])
      (simp_all add: ax_empty_def ax_row_def ax_actor_def)
qed

lemma ax_filing:
  "file_access (ax_env 2) ''r1'' ax_row (ax_actor ''alice'') (aw_db ax_created) =
     Inr (ax_item, snd (projr (file_access (ax_env 2) ''r1'' ax_row (ax_actor ''alice'') (aw_db ax_created))))"
proof -
  have "\<not> isl (file_access (ax_env 2) ''r1'' ax_row (ax_actor ''alice'') (aw_db ax_created))" by code_simp
  then show ?thesis by (simp add: ax_item_def)
qed

lemma ax_filed_reachable: "access_reachable ax_filed"
proof (rule access_next [OF ax_created_reachable])
  have "access_step ax_created (start_call (Linking (ar_id ax_row) (ri_id ax_item) (ax_actor ''alice''))
     (end_call (Filing ax_row (ax_actor ''alice''))
       (put_db (snd (projr (file_access (ax_env 2) ''r1'' ax_row (ax_actor ''alice'') (aw_db ax_created)))) ax_created)))"
    by (rule as_file [OF _ ax_filing]) (simp_all add: ax_created_def ax_empty_def)
  then show "access_step ax_created ax_filed"
    by (simp add: ax_filed_def ax_row_def create_access_row_def)
qed

lemma ax_checks:
  "\<not> isl (approve_check (ax_env 3) access_registry ''r1'' (ax_actor ''bob'') (aw_db ax_filed))"
  "\<not> isl (approve_commit (ax_env 4) ''a1'' None (ax_actor ''bob'') (ax_ctx ''bob'' ax_filed) (aw_db ax_filed))"
  "\<not> isl (approve_check (ax_env 3) access_registry ''r1'' (ax_actor ''carol'') (aw_db ax_first))"
  "\<not> isl (approve_commit (ax_env 4) ''a2'' None (ax_actor ''carol'') (ax_ctx ''carol'' ax_first) (aw_db ax_first))"
  by code_simp+

lemma ax_granted_reachable: "access_reachable ax_granted"
  unfolding ax_granted_def
proof (rule ax_approve_step)
  show "access_reachable ax_first"
    unfolding ax_first_def
    by (rule ax_approve_step [OF ax_filed_reachable _ ax_checks(1,2)])
      (simp add: ax_filed_def ax_created_def ax_empty_def)
qed (simp_all add: ax_checks, simp add: ax_first_def ax_commit_def)

theorem access_grant_is_earned_witness:
  "\<exists>a \<in> set (approvals (aw_db ax_granted)). ap_step a = 2 \<and> ap_approverId a \<noteq> ''alice''"
proof -
  have g: "map gr_granteeId (acc_grants (aw_tables ax_granted)) = [''alice'']"
    "acc_audit (aw_tables ax_granted) = []" "map ap_delegatedFromId (approvals (aw_db ax_granted)) = [None, None]"
    by code_simp+
  have del: "ap_delegatedFromId a = None" if "a \<in> set (approvals (aw_db ax_granted))" for a
  proof -
    have "ap_delegatedFromId a \<in> set (map ap_delegatedFromId (approvals (aw_db ax_granted)))" using that by simp
    then show ?thesis unfolding g(3) by simp
  qed
  obtain gr where gr: "acc_grants (aw_tables ax_granted) = [gr]" "gr_granteeId gr = ''alice''" using g(1) by auto
  from access_grant_is_earned [OF ax_granted_reachable, of gr] show ?thesis
    using gr g(2) del by fastforce
qed

theorem unlinked_request_granted_by_anyone_witness:
  "\<exists>g \<in> set (acc_grants (domain_db (snd (projr
      (approve_access (ax_env 2) ''a1'' ''x1'' None (ax_actor ''alice'') (aw_db ax_created)))))).
     gr_granteeId g = ''alice'' \<and> gr_revokedAt g = None"
proof -
  have row: "find_row ar_id ''x1'' (acc_requests (domain_db (aw_db ax_created))) = Some ax_row"
    "ar_status ax_row = Access_pending" "ar_requestId ax_row = None" "ar_requesterId ax_row = ''alice''"
    by (simp_all add: ax_created_def ax_empty_def insert_access_row_def ax_row_def create_access_row_def ax_actor_def)
  show ?thesis
    using unlinked_request_granted_by_anyone
      [OF row(1-3), of "ax_env 2" "''a1''" None "ax_actor ''alice''"] row(4)
    by auto
qed

end
