(* ===== verification/Search.thy ===== *)
theory Search
  imports Requests "HOL-Library.Sublist"
begin

text \<open>
  Free-text search over listings: \<^verbatim>\<open>libs/platform/src/database/search.ts\<close>, with the \<^verbatim>\<open>ILIKE\<close> of SQL it
  is written against (\<open>%\<close> any run, \<open>_\<close> any character, a backslash takes the next character as it is;
  a pattern that ends in a lone backslash is an error of the database and matches nothing here). Letters
  fold as ASCII letters do.
\<close>

definition lower_char :: "char \<Rightarrow> char" where
  "lower_char c =
     (let n = (of_char c :: nat) in if 65 \<le> n \<and> n \<le> 90 then char_of (n + 32) else c)"

abbreviation (input) any_run :: char where "any_run \<equiv> CHR ''%''"
abbreviation (input) any_one :: char where "any_one \<equiv> CHR ''_''"
abbreviation (input) escape_char :: char where "escape_char \<equiv> CHR 0x5C"

fun like :: "string \<Rightarrow> string \<Rightarrow> bool" where
  "like [] s = (s = [])"
| "like (c # p) s =
     (if c = any_run then
        (like p s \<or> (case s of [] \<Rightarrow> False | x # s' \<Rightarrow> like (c # p) s'))
      else if c = escape_char then
        (case p of [] \<Rightarrow> False | d # p' \<Rightarrow> (case s of [] \<Rightarrow> False | x # s' \<Rightarrow> x = d \<and> like p' s'))
      else (case s of [] \<Rightarrow> False | x # s' \<Rightarrow> (c = any_one \<or> x = c) \<and> like p s'))"

definition ilike :: "string \<Rightarrow> string \<Rightarrow> bool" where
  "ilike s pattern = like (map lower_char pattern) (map lower_char s)"

definition is_wildcard :: "char \<Rightarrow> bool" where
  "is_wildcard c \<longleftrightarrow> c = escape_char \<or> c = any_run \<or> c = any_one"

definition escape_term :: "string \<Rightarrow> string" where
  "escape_term t = concat (map (\<lambda>c. if is_wildcard c then [escape_char, c] else [c]) t)"

definition like_contains :: "string \<Rightarrow> string" where
  "like_contains t = any_run # escape_term t @ [any_run]"

text \<open>The columns of one row, \<open>None\<close> for a null; the absent condition lets every row through.\<close>

definition search_across :: "string option \<Rightarrow> string option list \<Rightarrow> bool" where
  "search_across t columns =
     (case t of
        None \<Rightarrow> True
      | Some u \<Rightarrow>
          if trim u = [] then True
          else if columns = [] then True
          else list_ex (\<lambda>c. case c of None \<Rightarrow> False | Some v \<Rightarrow> ilike v (like_contains (trim u))) columns)"

lemma like_any_run: "like (any_run # p) s \<longleftrightarrow> (\<exists>u v. s = u @ v \<and> like p v)"
proof (induction s)
  case (Cons x s)
  have "like (any_run # p) (x # s) \<longleftrightarrow> like p (x # s) \<or> like (any_run # p) s" by simp
  also have "\<dots> \<longleftrightarrow> (\<exists>u v. x # s = u @ v \<and> like p v)"
    unfolding Cons.IH by (auto simp: Cons_eq_append_conv)
  finally show ?case .
qed simp

lemma escape_Cons: "escape_term (c # t) = (if is_wildcard c then [escape_char, c] else [c]) @ escape_term t"
  by (simp add: escape_term_def)

lemma like_escape: "like (escape_term t @ p) s \<longleftrightarrow> (\<exists>v. s = t @ v \<and> like p v)"
proof (induction t arbitrary: s)
  case (Cons c t)
  then show ?case
    by (cases s) (auto simp: escape_Cons is_wildcard_def)
qed (simp add: escape_term_def)

lemma like_contains_sublist: "like (like_contains t) s \<longleftrightarrow> sublist t s"
proof -
  have rest: "like [any_run] v" for v by (subst like_any_run) auto
  have "like (like_contains t) s \<longleftrightarrow> (\<exists>u v. s = u @ v \<and> (\<exists>w. v = t @ w))"
    unfolding like_contains_def by (subst like_any_run) (simp only: like_escape rest simp_thms)
  then show ?thesis by (auto simp: sublist_def)
qed

lemma of_lower_char:
  "(of_char (lower_char c) :: nat) =
     (if 65 \<le> (of_char c :: nat) \<and> (of_char c :: nat) \<le> 90 then of_char c + 32 else of_char c)"
  by (simp add: lower_char_def Let_def)

lemma is_wildcard_code: "is_wildcard c \<longleftrightarrow> (of_char c :: nat) = 92 \<or> (of_char c :: nat) = 37 \<or> (of_char c :: nat) = 95"
proof -
  have "c = d \<longleftrightarrow> (of_char c :: nat) = of_char d" for d by simp
  from this [of escape_char] this [of any_run] this [of any_one] show ?thesis
    by (simp add: is_wildcard_def)
qed

lemma lower_wildcard [simp]: "is_wildcard (lower_char c) = is_wildcard c" "is_wildcard c \<Longrightarrow> lower_char c = c"
  by (auto simp: is_wildcard_code of_lower_char, auto simp: lower_char_def Let_def)

lemma lower_escape: "map lower_char (escape_term t) = escape_term (map lower_char t)"
  by (induction t) (simp_all add: escape_Cons escape_term_def, simp add: lower_char_def Let_def)

lemma ilike_contains: "ilike s (like_contains t) \<longleftrightarrow> sublist (map lower_char t) (map lower_char s)"
proof -
  have "map lower_char (like_contains t) = like_contains (map lower_char t)"
    by (simp add: like_contains_def lower_escape) (simp add: lower_char_def)
  then show ?thesis by (simp add: ilike_def like_contains_sublist)
qed

end
