(* ===== verification/Documents.thy ===== *)
theory Documents
  imports RequestHooks WorkforceData Search
begin

text \<open>
  Controlled documents: \<^verbatim>\<open>documents.service.ts\<close>, \<^verbatim>\<open>document-approval.type-def.ts\<close> and
  \<^verbatim>\<open>documents.drizzle-repository.ts\<close> under \<^verbatim>\<open>libs/modules/documents/src\<close>.

  Two unique indexes of the schema matter to the behaviour and are checked where a row is written: one
  version number per document, and one row per document that has been published and not superseded
  (migration 0015). A violated index throws, and the transaction leaves nothing behind. Names joined
  into views are left out.
\<close>

section \<open>Rows\<close>

datatype document_category = Isms_policy | Qms_procedure | Work_instruction | Hr_handbook | Contract_template

datatype version_status = Ver_draft | Ver_in_review | Ver_approved | Ver_published | Ver_superseded | Ver_rejected

record controlled_document =
  do_id :: string
  do_code :: string
  do_title :: string
  do_category :: document_category
  do_ownerId :: string
  do_retiredAt :: "int option"
  do_createdAt :: int
  do_updatedAt :: int

record document_version =
  dv_id :: string
  dv_documentId :: string
  dv_version :: int
  dv_body :: "string option"
  dv_storageKey :: "string option"
  dv_changeSummary :: "string option"
  dv_status :: version_status
  dv_requestId :: "string option"
  dv_approvedBy :: "string option"
  dv_approvedAt :: "int option"
  dv_publishedAt :: "int option"
  dv_reviewDueOn :: "string option"
  dv_supersededAt :: "int option"
  dv_createdAt :: int

record acknowledgement =
  ak_versionId :: string
  ak_employeeId :: string
  ak_acknowledgedAt :: int

record document_input =
  dc_code :: string
  dc_title :: string
  dc_category :: document_category
  dc_ownerId :: string
  dc_body :: "string option"

record document_filters =
  df_category :: "document_category option"
  df_ownerId :: "string option"
  df_includeRetired :: bool
  df_search :: "string option"

text \<open>An outstanding acknowledgement: document, code, title, category, version id and number, date.\<close>

type_synonym outstanding = "string \<times> string \<times> string \<times> document_category \<times> string \<times> int \<times> int option"

record document_payload =
  dp_documentId :: string
  dp_documentCode :: string
  dp_documentTitle :: string
  dp_versionId :: string
  dp_version :: int
  dp_changeSummary :: "string option"

record documents_db =
  doc_documents :: "controlled_document list"
  doc_versions :: "document_version list"
  doc_acks :: "acknowledgement list"
  doc_audit :: "audit_entry list"

definition doc_record :: "actor \<Rightarrow> string \<Rightarrow> string \<Rightarrow> documents_db \<Rightarrow> documents_db" where
  "doc_record actor action resourceId d =
     d\<lparr>doc_audit := doc_audit d @
       [\<lparr>au_actorId = Some (ac_sub actor), au_action = action, au_resourceId = resourceId\<rparr>]\<rparr>"

section \<open>The repository\<close>

definition ver_in_force :: "document_version \<Rightarrow> bool" where
  "ver_in_force v \<longleftrightarrow> dv_publishedAt v \<noteq> None \<and> dv_supersededAt v = None"

definition published_index_ok :: "document_version list \<Rightarrow> bool" where
  "published_index_ok vs = distinct (map dv_documentId (filter ver_in_force vs))"

definition set_version :: "string \<Rightarrow> (document_version \<Rightarrow> document_version) \<Rightarrow> documents_db \<Rightarrow>
    (document_version option \<times> documents_db) result" where
  "set_version i f d =
     (let vs = modify_row dv_id i f (doc_versions d)
      in if \<not> published_index_ok vs then Inl (ThrownError ''uq_document_published_version'')
         else Inr (find_row dv_id i vs, d\<lparr>doc_versions := vs\<rparr>))"

definition create_version ::
    "int \<Rightarrow> string \<Rightarrow> string \<Rightarrow> int \<Rightarrow> string option \<Rightarrow> string option \<Rightarrow> documents_db \<Rightarrow>
     (document_version \<times> documents_db) result" where
  "create_version now i documentId n body changeSummary d =
     (if \<exists>v \<in> set (doc_versions d). dv_documentId v = documentId \<and> dv_version v = n
      then Inl (ThrownError ''uq_document_version'')
      else let v = \<lparr>dv_id = i, dv_documentId = documentId, dv_version = n, dv_body = body, dv_storageKey = None,
                    dv_changeSummary = changeSummary, dv_status = Ver_draft, dv_requestId = None,
                    dv_approvedBy = None, dv_approvedAt = None, dv_publishedAt = None, dv_reviewDueOn = None,
                    dv_supersededAt = None, dv_createdAt = now\<rparr>
           in Inr (v, d\<lparr>doc_versions := doc_versions d @ [v]\<rparr>))"

definition max_version :: "string \<Rightarrow> documents_db \<Rightarrow> int" where
  "max_version documentId d =
     foldl max 0 (map dv_version (filter (\<lambda>v. dv_documentId v = documentId) (doc_versions d)))"

definition find_published :: "string \<Rightarrow> documents_db \<Rightarrow> document_version option" where
  "find_published documentId d =
     find (\<lambda>v. dv_documentId v = documentId \<and> dv_status v = Ver_published \<and> dv_supersededAt v = None)
       (doc_versions d)"

definition find_existing_ids :: "string list \<Rightarrow> documents_db \<Rightarrow> string list" where
  "find_existing_ids ids d = map do_id (filter (\<lambda>r. do_id r \<in> set ids) (doc_documents d))"

section \<open>Documents\<close>

definition create_document ::
    "int \<Rightarrow> string \<Rightarrow> string \<Rightarrow> document_input \<Rightarrow> actor \<Rightarrow> documents_db \<Rightarrow>
     (controlled_document \<times> documents_db) result" where
  "create_document now i vid input actor d =
     (if find_row do_code (dc_code input) (doc_documents d) \<noteq> None then Inl (ConflictException ''CONFLICT'')
      else let row = \<lparr>do_id = i, do_code = dc_code input, do_title = dc_title input,
                      do_category = dc_category input, do_ownerId = dc_ownerId input, do_retiredAt = None,
                      do_createdAt = now, do_updatedAt = now\<rparr>
           in and_then (create_version now vid i 1 (dc_body input) None
                          (d\<lparr>doc_documents := doc_documents d @ [row]\<rparr>))
                (\<lambda>(v, d'). Inr (row, doc_record actor ''document.created'' i d')))"

definition get_document :: "string \<Rightarrow> documents_db \<Rightarrow> controlled_document result" where
  "get_document i d =
     (case find_row do_id i (doc_documents d) of
        None \<Rightarrow> Inl (NotFoundException ''NOT_FOUND'')
      | Some row \<Rightarrow> Inr row)"

text \<open>The ids another module points at; absent and empty ids are skipped.\<close>

definition assert_exist :: "string option list \<Rightarrow> documents_db \<Rightarrow> unit result" where
  "assert_exist ids d =
     (let wanted = remdups (filter (\<lambda>i. i \<noteq> []) (List.map_filter id ids))
      in if filter (\<lambda>i. i \<notin> set (find_existing_ids wanted d)) wanted \<noteq> []
         then Inl (NotFoundException ''NOT_FOUND'') else Inr ())"

definition list_documents ::
    "document_filters \<Rightarrow> nat \<Rightarrow> nat \<Rightarrow> documents_db \<Rightarrow> controlled_document list \<times> nat" where
  "list_documents fs limit offset d =
     (let found = filter (\<lambda>r.
            (case df_category fs of None \<Rightarrow> True | Some c \<Rightarrow> do_category r = c) \<and>
            (case df_ownerId fs of None \<Rightarrow> True | Some u \<Rightarrow> do_ownerId r = u) \<and>
            (df_includeRetired fs \<or> do_retiredAt r = None) \<and>
            search_across (df_search fs) [Some (do_code r), Some (do_title r)]) (doc_documents d)
      in (take limit (drop offset (sort_key (\<lambda>r. (do_code r, do_id r)) found)), length found))"

definition list_versions :: "string \<Rightarrow> documents_db \<Rightarrow> document_version list result" where
  "list_versions documentId d =
     and_then (get_document documentId d) (\<lambda>_.
       Inr (sort_key (\<lambda>v. (- dv_version v, dv_id v))
              (filter (\<lambda>v. dv_documentId v = documentId) (doc_versions d))))"

definition retire_document :: "int \<Rightarrow> string \<Rightarrow> actor \<Rightarrow> documents_db \<Rightarrow> documents_db result" where
  "retire_document now i actor d =
     and_then (get_document i d) (\<lambda>row.
       if do_retiredAt row \<noteq> None then Inl (PreconditionFailedException ''PRECONDITION_FAILED'')
       else Inr (doc_record actor ''document.retired'' i
              (d\<lparr>doc_documents := modify_row do_id i
                  (\<lambda>r. r\<lparr>do_retiredAt := Some now, do_updatedAt := now\<rparr>) (doc_documents d)\<rparr>)))"

section \<open>Versions\<close>

definition must_get_version :: "string \<Rightarrow> documents_db \<Rightarrow> document_version result" where
  "must_get_version i d =
     (case find_row dv_id i (doc_versions d) of
        None \<Rightarrow> Inl (NotFoundException ''NOT_FOUND'')
      | Some v \<Rightarrow> Inr v)"

definition create_draft ::
    "int \<Rightarrow> string \<Rightarrow> string \<Rightarrow> string option \<Rightarrow> string option \<Rightarrow> actor \<Rightarrow> documents_db \<Rightarrow>
     (document_version \<times> documents_db) result" where
  "create_draft now i documentId body changeSummary actor d =
     and_then (get_document documentId d) (\<lambda>_.
     and_then (create_version now i documentId (max_version documentId d + 1) body changeSummary d)
       (\<lambda>(v, d'). Inr (v, doc_record actor ''document.draft_created'' (dv_id v) d')))"

text \<open>A field of the patch is \<open>None\<close> when absent, \<open>Some None\<close> when it is null.\<close>

definition patch_content ::
    "string option option \<Rightarrow> string option option \<Rightarrow> document_version \<Rightarrow> document_version" where
  "patch_content body changeSummary v =
     (let v1 = (case body of None \<Rightarrow> v | Some b \<Rightarrow> v\<lparr>dv_body := b\<rparr>)
      in case changeSummary of None \<Rightarrow> v1 | Some c \<Rightarrow> v1\<lparr>dv_changeSummary := c\<rparr>)"

definition update_draft ::
    "string \<Rightarrow> string option option \<Rightarrow> string option option \<Rightarrow> documents_db \<Rightarrow>
     (document_version \<times> documents_db) result" where
  "update_draft i body changeSummary d =
     (let vs = update_where (\<lambda>v. dv_id v = i \<and> dv_status v = Ver_draft) (patch_content body changeSummary)
                 (doc_versions d)
      in case find (\<lambda>v. dv_id v = i \<and> dv_status v = Ver_draft) vs of
           Some v \<Rightarrow> Inr (v, d\<lparr>doc_versions := vs\<rparr>)
         | None \<Rightarrow>
             (case find_row dv_id i (doc_versions d) of
                None \<Rightarrow> Inl (NotFoundException ''NOT_FOUND'')
              | Some v \<Rightarrow> Inl (PreconditionFailedException ''PRECONDITION_FAILED'')))"

section \<open>The request type\<close>

definition document_on_approve ::
    "document_payload \<Rightarrow> string \<Rightarrow> string \<Rightarrow> int \<Rightarrow> documents_db \<Rightarrow> documents_db result" where
  "document_on_approve payload requestId approverId now d =
     and_then (set_version (dp_versionId payload)
         (\<lambda>v. v\<lparr>dv_status := Ver_approved, dv_approvedBy := Some approverId, dv_approvedAt := Some now\<rparr>) d)
       (\<lambda>(v, d'). Inr d')"

definition document_on_reject ::
    "document_payload \<Rightarrow> string \<Rightarrow> string \<Rightarrow> int \<Rightarrow> documents_db \<Rightarrow> documents_db result" where
  "document_on_reject payload requestId approverId now d =
     and_then (set_version (dp_versionId payload) (\<lambda>v. v\<lparr>dv_status := Ver_rejected\<rparr>) d) (\<lambda>(v, d'). Inr d')"

definition document_type :: "(document_payload, documents_db) type_def" where
  "document_type =
     \<lparr>td_type = ''document_approval'', td_requiredApprovalPermission = ''documents.approve'',
      td_allowSelfApproval = False, td_defaultExpiryHours = Some 0, td_slaHours = Some 120,
      td_approvalSteps = None, td_onSubmit = None, td_onApprove = document_on_approve,
      td_onStepApproved = None, td_onReject = Some document_on_reject, td_onCancel = None, td_onExpire = None\<rparr>"

definition document_registry :: "(document_payload, documents_db) registry" where
  "document_registry = register document_type []"

type_synonym document_state = "(document_payload, documents_db) engine_db"

section \<open>Submission and publication\<close>

definition submittable :: "string \<Rightarrow> documents_db \<Rightarrow> (document_version \<times> controlled_document) result" where
  "submittable i d =
     and_then (must_get_version i d) (\<lambda>v.
       if dv_status v \<noteq> Ver_draft then Inl (PreconditionFailedException ''PRECONDITION_FAILED'')
       else and_then (get_document (dv_documentId v) d) (\<lambda>row. Inr (v, row)))"

definition document_payload_of :: "document_version \<Rightarrow> controlled_document \<Rightarrow> document_payload" where
  "document_payload_of v row =
     \<lparr>dp_documentId = do_id row, dp_documentCode = do_code row, dp_documentTitle = do_title row,
      dp_versionId = dv_id v, dp_version = dv_version v, dp_changeSummary = dv_changeSummary v\<rparr>"

definition file_version ::
    "request_env \<Rightarrow> string \<Rightarrow> document_version \<times> controlled_document \<Rightarrow> actor \<Rightarrow> document_state \<Rightarrow>
     (document_payload request_item \<times> document_state) result" where
  "file_version env engineId vd actor db =
     submit env document_registry engineId ''document_approval'' (document_payload_of (fst vd) (snd vd)) actor
       no_options db"

definition mark_in_review :: "string \<Rightarrow> string \<Rightarrow> documents_db \<Rightarrow> (document_version option \<times> documents_db) result" where
  "mark_in_review i engineId d =
     set_version i (\<lambda>v. v\<lparr>dv_status := Ver_in_review, dv_requestId := Some engineId\<rparr>) d"

text \<open>Two transactions: the state is returned beside the result.\<close>

definition submit_for_approval ::
    "request_env \<Rightarrow> string \<Rightarrow> string \<Rightarrow> actor \<Rightarrow> document_state \<Rightarrow>
     document_version option result \<times> document_state" where
  "submit_for_approval env engineId i actor db =
     (case submittable i (domain_db db) of
        Inl e \<Rightarrow> (Inl e, db)
      | Inr vd \<Rightarrow>
          (case file_version env engineId vd actor db of
             Inl e \<Rightarrow> (Inl e, db)
           | Inr (item, db1) \<Rightarrow>
               (case mark_in_review i (ri_id item) (domain_db db1) of
                  Inl e \<Rightarrow> (Inl e, db1)
                | Inr (v, d') \<Rightarrow> (Inr v, db1\<lparr>domain_db := d'\<rparr>))))"

text \<open>The two writes of a publication, given the version read as the one in force.\<close>

definition publish_replacing ::
    "int \<Rightarrow> document_version \<Rightarrow> document_version option \<Rightarrow> string option \<Rightarrow> actor \<Rightarrow> documents_db \<Rightarrow>
     (document_version option \<times> documents_db) result" where
  "publish_replacing now version found reviewDueOn actor d =
     and_then
       (case found of
          None \<Rightarrow> Inr d
        | Some current \<Rightarrow>
            if dv_id current = dv_id version then Inr d
            else and_then (set_version (dv_id current)
                     (\<lambda>v. v\<lparr>dv_status := Ver_superseded, dv_supersededAt := Some now\<rparr>) d) (\<lambda>(v, d'). Inr d'))
       (\<lambda>d1. and_then (set_version (dv_id version)
                (\<lambda>v. v\<lparr>dv_status := Ver_published, dv_publishedAt := Some now, dv_reviewDueOn := reviewDueOn\<rparr>) d1)
          (\<lambda>(v, d2). Inr (v, doc_record actor ''document.published'' (dv_id version) d2)))"

definition publish_commit ::
    "int \<Rightarrow> document_version \<Rightarrow> string option \<Rightarrow> actor \<Rightarrow> documents_db \<Rightarrow>
     (document_version option \<times> documents_db) result" where
  "publish_commit now version reviewDueOn actor d =
     publish_replacing now version (find_published (dv_documentId version) d) reviewDueOn actor d"

definition publishable :: "string \<Rightarrow> documents_db \<Rightarrow> document_version result" where
  "publishable i d =
     and_then (must_get_version i d) (\<lambda>version.
       if dv_status version \<noteq> Ver_approved then Inl (PreconditionFailedException ''PRECONDITION_FAILED'')
       else Inr version)"

definition publish ::
    "int \<Rightarrow> string \<Rightarrow> string option \<Rightarrow> actor \<Rightarrow> documents_db \<Rightarrow>
     (document_version option \<times> documents_db) result" where
  "publish now i reviewDueOn actor d =
     and_then (publishable i d) (\<lambda>version. publish_commit now version reviewDueOn actor d)"

section \<open>Acknowledgements\<close>

definition acknowledge_commit :: "int \<Rightarrow> string \<Rightarrow> actor \<Rightarrow> documents_db \<Rightarrow> bool \<times> documents_db" where
  "acknowledge_commit now i actor d =
     (if \<exists>a \<in> set (doc_acks d). ak_versionId a = i \<and> ak_employeeId a = ac_sub actor then (True, d)
      else (False, doc_record actor ''document.acknowledged'' i
             (d\<lparr>doc_acks := doc_acks d @
                [\<lparr>ak_versionId = i, ak_employeeId = ac_sub actor, ak_acknowledgedAt = now\<rparr>]\<rparr>)))"

definition acknowledgeable :: "string \<Rightarrow> documents_db \<Rightarrow> document_version result" where
  "acknowledgeable i d =
     and_then (must_get_version i d) (\<lambda>v.
       if dv_status v \<noteq> Ver_published \<or> dv_supersededAt v \<noteq> None
       then Inl (PreconditionFailedException ''PRECONDITION_FAILED'')
       else Inr v)"

definition acknowledge :: "int \<Rightarrow> string \<Rightarrow> actor \<Rightarrow> documents_db \<Rightarrow> (bool \<times> documents_db) result" where
  "acknowledge now i actor d =
     and_then (acknowledgeable i d) (\<lambda>v. Inr (acknowledge_commit now i actor d))"

definition owes :: "string \<Rightarrow> documents_db \<Rightarrow> document_version \<Rightarrow> controlled_document \<Rightarrow> bool" where
  "owes employeeId d v row \<longleftrightarrow>
     do_id row = dv_documentId v \<and> dv_status v = Ver_published \<and> dv_supersededAt v = None \<and>
     do_retiredAt row = None \<and>
     \<not> (\<exists>a \<in> set (doc_acks d). ak_versionId a = dv_id v \<and> ak_employeeId a = employeeId)"

definition list_outstanding :: "string \<Rightarrow> documents_db \<Rightarrow> outstanding list" where
  "list_outstanding employeeId d =
     map (\<lambda>(v, row). (do_id row, do_code row, do_title row, do_category row, dv_id v, dv_version v, dv_publishedAt v))
       (sort_key (\<lambda>(v, row). (do_code row, dv_id v))
         [(v, row). v \<leftarrow> doc_versions d, row \<leftarrow> doc_documents d, owes employeeId d v row])"

definition list_acknowledged_by :: "string \<Rightarrow> documents_db \<Rightarrow> (string \<times> int) list result" where
  "list_acknowledged_by i d =
     and_then (must_get_version i d) (\<lambda>_.
       Inr (map (\<lambda>a. (ak_employeeId a, ak_acknowledgedAt a))
         (sort_key ak_acknowledgedAt (filter (\<lambda>a. ak_versionId a = i) (doc_acks d)))))"

end
