(* ===== verification/DocumentSafety.thy ===== *)
theory DocumentSafety
  imports RequestRaces Documents
begin

text \<open>
  The document library and the engine, one completed operation after another: the contract of
  \<open>request_hooks\<close> for the approval type, and the invariant that ties a version to its request, its dates
  to its status, and at most one version in force to a document.
\<close>

section \<open>The approval type keeps the engine's contract\<close>

interpretation version_table: keyed_table dv_id "find_row dv_id" "modify_row dv_id" "keys_distinct dv_id"
  by (rule keyed_list_table)

definition version_state :: "string \<Rightarrow> documents_db \<Rightarrow> version_status option" where
  "version_state i d = map_option dv_status (find_row dv_id i (doc_versions d))"

fun version_agrees :: "string \<Rightarrow> request_status \<Rightarrow> version_status option \<Rightarrow> bool" where
  "version_agrees i Pending s = (s = Some Ver_draft \<or> s = Some Ver_in_review)"
| "version_agrees i In_review s = False"
| "version_agrees i Approved s = (s = Some Ver_approved \<or> s = Some Ver_published \<or> s = Some Ver_superseded)"
| "version_agrees i Rejected s = (s = Some Ver_rejected)"
| "version_agrees i Cancelled s = (s = Some Ver_draft \<or> s = Some Ver_in_review)"
| "version_agrees i Expired s = (s = Some Ver_draft \<or> s = Some Ver_in_review)"

definition document_typed :: "string \<Rightarrow> document_payload \<Rightarrow> bool" where
  "document_typed t p \<longleftrightarrow> t = ''document_approval''"

lemma set_version_Inr [result_simps]:
  "set_version i f d = Inr (v, d') \<longleftrightarrow>
     published_index_ok (modify_row dv_id i f (doc_versions d)) \<and>
     v = find_row dv_id i (modify_row dv_id i f (doc_versions d)) \<and>
     d' = d\<lparr>doc_versions := modify_row dv_id i f (doc_versions d)\<rparr>"
  by (auto simp: set_version_def Let_def)

lemma version_state_modify:
  assumes "\<And>v. dv_id (f v) = dv_id v"
  shows "version_state k (d\<lparr>doc_versions := modify_row dv_id i f (doc_versions d)\<rparr>) =
    (if k = i then map_option (\<lambda>v. dv_status (f v)) (find_row dv_id i (doc_versions d)) else version_state k d)"
  by (simp add: version_state_def version_table.lookup_modify assms option.map_comp comp_def)

lemma set_document_registry: "set document_registry = {document_type}"
  by (simp add: document_registry_def register_def registry_has_def)

lemma document_registry_get:
  "registry_get document_registry t = Inr def \<longleftrightarrow> t = ''document_approval'' \<and> def = document_type"
  by (auto simp: document_registry_def register_def registry_has_def registry_get_def document_type_def)

text \<open>What closing a request does to the version table: nothing, or one status at the target.\<close>

definition closing_update :: "request_status \<Rightarrow> string \<Rightarrow> int \<Rightarrow> document_version \<Rightarrow> document_version" where
  "closing_update st u now v =
     (case st of
        Approved \<Rightarrow> v\<lparr>dv_status := Ver_approved, dv_approvedBy := Some u, dv_approvedAt := Some now\<rparr>
      | Rejected \<Rightarrow> v\<lparr>dv_status := Ver_rejected\<rparr>
      | _ \<Rightarrow> v)"

lemma closing_update_simps [simp]:
  "dv_id (closing_update st u now v) = dv_id v" "dv_documentId (closing_update st u now v) = dv_documentId v"
  "dv_publishedAt (closing_update st u now v) = dv_publishedAt v"
  "dv_supersededAt (closing_update st u now v) = dv_supersededAt v"
  by (cases st; simp add: closing_update_def)+

lemma closing_update_fun:
  "closing_update Approved u now =
     (\<lambda>v. v\<lparr>dv_status := Ver_approved, dv_approvedBy := Some u, dv_approvedAt := Some now\<rparr>)"
  "closing_update Rejected u now = (\<lambda>v. v\<lparr>dv_status := Ver_rejected\<rparr>)"
  "closing_update Cancelled u now = (\<lambda>v. v)" "closing_update Expired u now = (\<lambda>v. v)"
  by (simp_all add: closing_update_def fun_eq_iff)

lemma modify_row_same: "(\<And>r. f r = r) \<Longrightarrow> modify_row key k f t = t"
  by (induction t) (simp_all add: modify_row_def)

lemma document_closes:
  assumes "closes document_type p rid u now st d = Inr d'"
  shows "d' = d\<lparr>doc_versions := modify_row dv_id (dp_versionId p) (closing_update st u now) (doc_versions d)\<rparr>"
    and "st \<noteq> Pending" "st \<noteq> In_review"
proof -
  show "st \<noteq> Pending" "st \<noteq> In_review" using assms by (auto simp: closes_def)
  show "d' = d\<lparr>doc_versions := modify_row dv_id (dp_versionId p) (closing_update st u now) (doc_versions d)\<rparr>"
    using assms
    by (cases st)
      (auto simp: closes_def document_type_def document_on_approve_def document_on_reject_def closing_update_fun
        and_then_eq_Inr set_version_Inr modify_row_same)
qed

interpretation doc_hooks: request_hooks document_registry document_typed dp_versionId version_state version_agrees
proof unfold_locales
  fix def :: "(document_payload, documents_db) type_def"
  assume "def \<in> set document_registry"
  then show "td_approvalSteps def = None" "td_onSubmit def = None"
    by (simp_all add: set_document_registry document_type_def)
next
  fix def :: "(document_payload, documents_db) type_def" and p rid u now st d d'
  assume def: "def \<in> set document_registry" and pending: "version_agrees (dp_versionId p) Pending (version_state (dp_versionId p) d)"
    and run: "closes def p rid u now st d = Inr d'"
  then have c: "closes document_type p rid u now st d = Inr d'" by (simp add: set_document_registry)
  obtain v where v: "find_row dv_id (dp_versionId p) (doc_versions d) = Some v"
      "dv_status v = Ver_draft \<or> dv_status v = Ver_in_review"
    using pending by (auto simp: version_state_def)
  have "version_state (dp_versionId p) d' = Some (dv_status (closing_update st u now v))"
    unfolding document_closes(1) [OF c] by (subst version_state_modify) (simp_all add: v(1))
  with document_closes(2,3) [OF c] v(2) show "version_agrees (dp_versionId p) st (version_state (dp_versionId p) d')"
    by (cases st) (auto simp: closing_update_def)
next
  fix def :: "(document_payload, documents_db) type_def" and p rid u now st d d' k
  assume "def \<in> set document_registry" "closes def p rid u now st d = Inr d'" "k \<noteq> dp_versionId p"
  then show "version_state k d' = version_state k d"
    by (auto simp: set_document_registry version_state_modify dest!: document_closes(1))
qed

section \<open>The invariant\<close>

definition dates_ok :: "document_version \<Rightarrow> bool" where
  "dates_ok v \<longleftrightarrow>
     (case dv_status v of
        Ver_published \<Rightarrow> dv_publishedAt v \<noteq> None \<and> dv_supersededAt v = None
      | Ver_superseded \<Rightarrow> dv_publishedAt v \<noteq> None \<and> dv_supersededAt v \<noteq> None
      | _ \<Rightarrow> dv_publishedAt v = None \<and> dv_supersededAt v = None)"

definition tables_ok :: "documents_db \<Rightarrow> bool" where
  "tables_ok d \<longleftrightarrow>
     keys_distinct dv_id (doc_versions d) \<and> published_index_ok (doc_versions d) \<and>
     (\<forall>v \<in> set (doc_versions d). dates_ok v)"

text \<open>A version is a draft exactly as long as nothing was filed about it.\<close>

definition drafts_unfiled :: "document_state \<Rightarrow> bool" where
  "drafts_unfiled db \<longleftrightarrow>
     (\<forall>v \<in> set (doc_versions (domain_db db)).
        dv_status v = Ver_draft \<longleftrightarrow> (\<forall>r \<in> set (items db). dp_versionId (ri_payload r) \<noteq> dv_id v))"

definition doc_inv :: "document_state \<Rightarrow> bool" where
  "doc_inv db \<longleftrightarrow> doc_hooks.in_step db \<and> tables_ok (domain_db db) \<and> drafts_unfiled db"

lemma dates_in_force: "dates_ok v \<Longrightarrow> ver_in_force v \<longleftrightarrow> dv_status v = Ver_published"
  by (auto simp: dates_ok_def ver_in_force_def split: version_status.splits)

lemma index_inj:
  "keys_distinct dv_id vs \<Longrightarrow> published_index_ok vs \<longleftrightarrow> inj_on dv_documentId {v \<in> set vs. ver_in_force v}"
  by (auto simp: published_index_ok_def distinct_map keys_distinct_def)

lemma set_modify_row: "set (modify_row key k f t) = (\<lambda>r. if key r = k then f r else r) ` set t"
  by (simp add: modify_row_def set_update_where)

lemma tables_ok_modify:
  assumes ok: "tables_ok d" and id: "\<And>v. dv_id (f v) = dv_id v"
    and dates: "\<And>v. v \<in> set (doc_versions d) \<Longrightarrow> dv_id v = i \<Longrightarrow> dates_ok (f v)"
    and idx: "published_index_ok (modify_row dv_id i f (doc_versions d))"
  shows "tables_ok (d\<lparr>doc_versions := modify_row dv_id i f (doc_versions d)\<rparr>)"
  using ok dates idx version_table.wf_modify [OF id] by (auto simp: tables_ok_def set_modify_row)

text \<open>An update that puts no version in force cannot break the index.\<close>

lemma index_ok_map:
  "\<forall>v \<in> set vs. dv_documentId (g v) = dv_documentId v \<and> (ver_in_force (g v) \<longrightarrow> ver_in_force v) \<Longrightarrow>
   published_index_ok vs \<Longrightarrow> published_index_ok (map g vs)"
proof (induction vs)
  case (Cons v vs)
  have sub: "dv_documentId ` set (filter ver_in_force (map g vs)) \<subseteq> dv_documentId ` set (filter ver_in_force vs)"
    using Cons.prems(1) by force
  have "published_index_ok (map g vs)"
    using Cons.IH Cons.prems by (simp add: published_index_ok_def split: if_splits)
  then show ?case using Cons.prems sub by (auto simp: published_index_ok_def split: if_splits)
qed (simp add: published_index_ok_def)

lemma index_ok_retreat:
  assumes "published_index_ok vs"
    and "\<And>v. v \<in> set vs \<Longrightarrow> dv_documentId (f v) = dv_documentId v \<and> (ver_in_force (f v) \<longrightarrow> ver_in_force v)"
  shows "published_index_ok (modify_row dv_id i f vs)"
  unfolding modify_row_def update_where_def by (rule index_ok_map) (use assms in auto)

section \<open>Publication\<close>

text \<open>What publication amounts to: one pass over the versions.\<close>

definition publish_row :: "int \<Rightarrow> string option \<Rightarrow> document_version \<Rightarrow> document_version \<Rightarrow> document_version" where
  "publish_row now due v u =
     (if dv_id u = dv_id v
      then u\<lparr>dv_status := Ver_published, dv_publishedAt := Some now, dv_reviewDueOn := due\<rparr>
      else if dv_documentId u = dv_documentId v \<and> ver_in_force u
      then u\<lparr>dv_status := Ver_superseded, dv_supersededAt := Some now\<rparr>
      else u)"

lemma publish_row_simps [simp]:
  "dv_id (publish_row now due v u) = dv_id u" "dv_documentId (publish_row now due v u) = dv_documentId u"
  by (simp_all add: publish_row_def)

lemma keys_distinct_map: "(\<And>r. key (g r) = key r) \<Longrightarrow> keys_distinct key (map g t) = keys_distinct key t"
  by (simp add: keys_distinct_def comp_def)

lemma find_row_map: "(\<And>r. key (g r) = key r) \<Longrightarrow> find_row key k (map g t) = map_option g (find_row key k t)"
  by (induction t) auto

lemma index_ok_publish:
  assumes keys: "keys_distinct dv_id vs" and v: "v \<in> set vs" and idx: "published_index_ok vs"
  shows "published_index_ok (map (publish_row now due v) vs)"
proof -
  have inj: "inj_on dv_documentId {u \<in> set vs. ver_in_force u}" using idx index_inj [OF keys] by simp
  have "inj_on dv_documentId {u \<in> set (map (publish_row now due v) vs). ver_in_force u}"
  proof (rule inj_onI)
    fix a b
    assume ab: "a \<in> {u \<in> set (map (publish_row now due v) vs). ver_in_force u}"
      "b \<in> {u \<in> set (map (publish_row now due v) vs). ver_in_force u}" "dv_documentId a = dv_documentId b"
    then obtain u w where u: "u \<in> set vs" "a = publish_row now due v u" "ver_in_force a"
        and w: "w \<in> set vs" "b = publish_row now due v w" "ver_in_force b"
      by auto
    have kind: "dv_id x = dv_id v \<or> (dv_documentId x \<noteq> dv_documentId v \<and> ver_in_force x \<and> publish_row now due v x = x)"
      if "ver_in_force (publish_row now due v x)" for x
      using that by (auto simp: publish_row_def ver_in_force_def split: if_splits)
    have same: "x = v" if "x \<in> set vs" "dv_id x = dv_id v" for x
      using version_table.wf_member_unique [OF keys that(1) v that(2)] .
    have doc: "dv_documentId u = dv_documentId w" using ab(3) u(2) w(2) by simp
    consider "dv_id u = dv_id v" "dv_id w = dv_id v" | "ver_in_force u" "ver_in_force w" "a = u" "b = w"
      using kind [of u] kind [of w] u w doc same by metis
    then show "a = b"
    proof cases
      case 1
      then show ?thesis using same u w by metis
    next
      case 2
      then show ?thesis using inj_onD [OF inj doc] u(1) w(1) by simp
    qed
  qed
  moreover have "keys_distinct dv_id (map (publish_row now due v) vs)"
    using keys by (simp add: keys_distinct_map)
  ultimately show ?thesis by (simp add: index_inj)
qed

lemma find_published_in_force:
  assumes ok: "tables_ok d"
  shows "find_published i d = None \<Longrightarrow> u \<in> set (doc_versions d) \<Longrightarrow> dv_documentId u = i \<Longrightarrow> \<not> ver_in_force u"
    and "find_published i d = Some c \<Longrightarrow> c \<in> set (doc_versions d) \<and> dv_documentId c = i \<and> ver_in_force c"
proof -
  have f: "ver_in_force u \<longleftrightarrow> dv_status u = Ver_published \<and> dv_supersededAt u = None" if "u \<in> set (doc_versions d)" for u
    using ok that by (auto simp: tables_ok_def dates_in_force dates_ok_def)
  show "find_published i d = None \<Longrightarrow> u \<in> set (doc_versions d) \<Longrightarrow> dv_documentId u = i \<Longrightarrow> \<not> ver_in_force u"
    by (auto simp: find_published_def find_None_iff f)
  show "find_published i d = Some c \<Longrightarrow> c \<in> set (doc_versions d) \<and> dv_documentId c = i \<and> ver_in_force c"
    by (auto simp: find_published_def find_Some_iff f)
qed

lemma publish_commit_spec:
  assumes ok: "tables_ok d" and v: "v \<in> set (doc_versions d)" and st: "dv_status v = Ver_approved"
  shows "publish_commit now v due actor d =
    Inr (Some (publish_row now due v v),
         doc_record actor ''document.published'' (dv_id v)
           (d\<lparr>doc_versions := map (publish_row now due v) (doc_versions d)\<rparr>))"
proof -
  let ?vs = "doc_versions d"
  let ?pub = "\<lambda>v. v\<lparr>dv_status := Ver_published, dv_publishedAt := Some now, dv_reviewDueOn := due\<rparr>"
  let ?sup = "\<lambda>v. v\<lparr>dv_status := Ver_superseded, dv_supersededAt := Some now\<rparr>"
  have keys: "keys_distinct dv_id ?vs" and idx: "published_index_ok ?vs" and nf: "\<not> ver_in_force v"
    using ok v st by (auto simp: tables_ok_def dates_in_force)
  have idx': "published_index_ok (map (publish_row now due v) ?vs)" by (rule index_ok_publish [OF keys v idx])
  have found: "find_row dv_id (dv_id v) (map (publish_row now due v) ?vs) = Some (publish_row now due v v)"
    using find_row_eqI [OF keys v] by (simp add: find_row_map)
  show ?thesis
  proof (cases "find_published (dv_documentId v) d")
    case None
    have "modify_row dv_id (dv_id v) ?pub ?vs = map (publish_row now due v) ?vs"
      using find_published_in_force(1) [OF ok None]
      by (auto simp: modify_row_def update_where_def publish_row_def)
    then show ?thesis using None idx' found by (simp add: publish_commit_def publish_replacing_def set_version_def Let_def)
  next
    case (Some c)
    have c: "c \<in> set ?vs" "dv_documentId c = dv_documentId v" "ver_in_force c"
      using find_published_in_force(2) [OF ok Some] by auto
    then have ne: "dv_id c \<noteq> dv_id v" using version_table.wf_member_unique [OF keys c(1) v] nf by auto
    have inj: "inj_on dv_documentId {u \<in> set ?vs. ver_in_force u}" using idx index_inj [OF keys] by simp
    have only: "dv_id u = dv_id c \<longleftrightarrow> dv_documentId u = dv_documentId v \<and> ver_in_force u" if "u \<in> set ?vs" for u
      using c that version_table.wf_member_unique [OF keys that c(1)] inj_onD [OF inj, of u c] by auto
    have "modify_row dv_id (dv_id v) ?pub (modify_row dv_id (dv_id c) ?sup ?vs) = map (publish_row now due v) ?vs"
      using only ne by (auto simp: modify_row_def update_where_def publish_row_def)
    moreover have "published_index_ok (modify_row dv_id (dv_id c) ?sup ?vs)"
      by (rule index_ok_retreat [OF idx]) (simp add: ver_in_force_def)
    ultimately show ?thesis using Some ne idx' found by (simp add: publish_commit_def publish_replacing_def set_version_def Let_def)
  qed
qed

lemma publish_tables_ok:
  assumes ok: "tables_ok d" and v: "v \<in> set (doc_versions d)" and st: "dv_status v = Ver_approved"
  shows "tables_ok (d\<lparr>doc_versions := map (publish_row now due v) (doc_versions d)\<rparr>)"
proof -
  have "dates_ok (publish_row now due v u)" if "u \<in> set (doc_versions d)" for u
  proof -
    have u: "dates_ok u" "dates_ok v" using ok that v by (auto simp: tables_ok_def)
    have "u = v" if "dv_id u = dv_id v"
      using ok version_table.wf_member_unique [OF _ \<open>u \<in> set (doc_versions d)\<close> v that] by (simp add: tables_ok_def)
    then show ?thesis
      using u st by (cases "dv_status u") (auto simp: publish_row_def dates_ok_def ver_in_force_def)
  qed
  then show ?thesis
    using ok index_ok_publish [OF _ v] by (auto simp: tables_ok_def keys_distinct_map)
qed

section \<open>Operations one after another\<close>

definition with_domain :: "documents_db \<Rightarrow> document_state \<Rightarrow> document_state" where
  "with_domain d db = db\<lparr>domain_db := d\<rparr>"

inductive doc_step :: "document_state \<Rightarrow> document_state \<Rightarrow> bool" where
  ds_create:
    "create_document now i vid input actor (domain_db db) = Inr (row, d') \<Longrightarrow>
     find_row dv_id vid (doc_versions (domain_db db)) = None \<Longrightarrow> doc_step db (with_domain d' db)"
| ds_draft:
    "create_draft now vid i body summary actor (domain_db db) = Inr (v, d') \<Longrightarrow>
     find_row dv_id vid (doc_versions (domain_db db)) = None \<Longrightarrow> doc_step db (with_domain d' db)"
| ds_update: "update_draft vid body summary (domain_db db) = Inr (v, d') \<Longrightarrow> doc_step db (with_domain d' db)"
| ds_retire: "retire_document now i actor (domain_db db) = Inr d' \<Longrightarrow> doc_step db (with_domain d' db)"
| ds_submit:
    "submit_for_approval env engineId vid actor db = (res, db') \<Longrightarrow> find_row ri_id engineId (items db) = None \<Longrightarrow>
     \<forall>a \<in> set (approvals db). ap_requestId a \<noteq> engineId \<Longrightarrow> doc_step db db'"
| ds_publish: "publish now vid due actor (domain_db db) = Inr (v, d') \<Longrightarrow> doc_step db (with_domain d' db)"
| ds_acknowledge: "acknowledge now vid actor (domain_db db) = Inr (b, d') \<Longrightarrow> doc_step db (with_domain d' db)"
| ds_engine: "closing_call document_registry db db' \<Longrightarrow> doc_step db db'"
| ds_breach: "doc_step db (sla_breach_row now item db)"

definition doc_init :: "document_state \<Rightarrow> bool" where
  "doc_init db \<longleftrightarrow> engine_init db \<and> doc_versions (domain_db db) = []"

inductive doc_reachable :: "document_state \<Rightarrow> bool" where
  doc_start: "doc_init db \<Longrightarrow> doc_reachable db"
| doc_next: "doc_reachable db \<Longrightarrow> doc_step db db' \<Longrightarrow> doc_reachable db'"

lemma with_domain_simps [simp]:
  "items (with_domain d db) = items db" "approvals (with_domain d db) = approvals db"
  "comments (with_domain d db) = comments db" "domain_db (with_domain d db) = d"
  by (simp_all add: with_domain_def)

subsection \<open>The engine sees engine calls and foreign writes\<close>

lemma closing_call_steps: "closing_call reg db db' \<Longrightarrow> engine_step reg db db'"
  by (induction rule: closing_call.induct) (auto intro: step_approve step_reject step_cancel step_expire)

lemma foreign_write: "engine_step reg db (db\<lparr>domain_db := d\<rparr>)"
  by (rule step_other) simp_all

lemma submit_for_approval_cases:
  assumes "submit_for_approval env engineId vid actor db = (res, db')"
  obtains "db' = db"
  | v row item db1 where "find_row dv_id vid (doc_versions (domain_db db)) = Some v" "dv_status v = Ver_draft"
      "submit env document_registry engineId ''document_approval'' (document_payload_of v row) actor no_options db =
         Inr (item, db1)"
      "db' = db1 \<or> (\<exists>w d'. mark_in_review vid (ri_id item) (domain_db db1) = Inr (w, d') \<and> db' = with_domain d' db1)"
      "\<And>e. mark_in_review vid (ri_id item) (domain_db db1) = Inl e \<Longrightarrow> db' = db1"
      "\<And>w d'. mark_in_review vid (ri_id item) (domain_db db1) = Inr (w, d') \<Longrightarrow> db' = with_domain d' db1"
proof (cases "submittable vid (domain_db db)")
  case (Inl e)
  then show thesis using assms that(1) by (simp add: submit_for_approval_def)
next
  case (Inr vd)
  then obtain v row where vd: "vd = (v, row)" "find_row dv_id vid (doc_versions (domain_db db)) = Some v"
      "dv_status v = Ver_draft"
    by (auto simp: submittable_def must_get_version_def and_then_eq_Inr split: option.splits if_splits)
  show thesis
  proof (cases "file_version env engineId vd actor db")
    case Inl': (Inl e)
    then show thesis using assms that(1) Inr by (simp add: submit_for_approval_def)
  next
    case Inr': (Inr p)
    obtain item db1 where p: "p = (item, db1)" by (cases p)
    show thesis
      by (rule that(2) [of v row item db1])
        (use assms Inr Inr' p vd in \<open>auto simp: submit_for_approval_def file_version_def with_domain_def split: sum.splits\<close>)
  qed
qed

lemma doc_step_engine: "doc_step db db' \<Longrightarrow> rtranclp (engine_step document_registry) db db'"
proof (induction rule: doc_step.induct)
  case (ds_submit env engineId vid actor db res db')
  show ?case
    using ds_submit(1)
  proof (cases rule: submit_for_approval_cases)
    case (2 v row item db1)
    have "engine_step document_registry db db1" by (rule step_submit [OF 2(3) ds_submit(2,3)])
    moreover have "db' = db1 \<or> engine_step document_registry db1 db'"
      using 2(4) by (auto simp: with_domain_def intro: foreign_write)
    ultimately show ?thesis by (auto intro: rtranclp.rtrancl_into_rtrancl)
  qed simp
qed (auto simp: with_domain_def intro: foreign_write closing_call_steps step_breach)

lemma doc_reachable_engine: "doc_reachable db \<Longrightarrow> engine_reachable document_registry db"
proof (induction rule: doc_reachable.induct)
  case (doc_next db db')
  have "engine_reachable document_registry b" if "rtranclp (engine_step document_registry) db b" for b
    using that doc_next.IH by (induction rule: rtranclp_induct) (auto intro: reach_step)
  then show ?case using doc_step_engine [OF doc_next.hyps(2)] by blast
qed (simp add: doc_init_def reach_init)

subsection \<open>Every operation keeps the invariant\<close>

text \<open>A write of the module's own: rows that agree keep agreeing, drafts stay unfiled.\<close>

lemma doc_inv_write:
  assumes inv: "doc_inv db" and tab: "tables_ok d'"
    and states: "\<And>r. r \<in> set (items db) \<Longrightarrow>
        version_state (dp_versionId (ri_payload r)) d' = version_state (dp_versionId (ri_payload r)) (domain_db db) \<or>
        (ri_status r = Approved \<and> version_agrees x Approved (version_state (dp_versionId (ri_payload r)) d'))"
    and drafts: "\<And>v. v \<in> set (doc_versions d') \<Longrightarrow>
        dv_status v = Ver_draft \<longleftrightarrow> (\<forall>r \<in> set (items db). dp_versionId (ri_payload r) \<noteq> dv_id v)"
  shows "doc_inv (with_domain d' db)"
  unfolding doc_inv_def
proof (intro conjI)
  show "doc_hooks.in_step (with_domain d' db)"
  proof (rule doc_hooks.domain_write_in_step)
    show "doc_hooks.in_step db" using inv by (simp add: doc_inv_def)
    fix r assume r: "r \<in> set (items db)" "doc_hooks.item_in_step (domain_db db) r"
    then show "doc_hooks.item_in_step (domain_db (with_domain d' db)) r"
      using states [OF r(1)] by (cases "ri_status r") (auto simp: doc_hooks.item_in_step_def)
  qed simp
qed (use tab drafts in \<open>auto simp: drafts_unfiled_def\<close>)

lemma targeted_version:
  assumes "doc_inv db" and "r \<in> set (items db)"
  shows "\<exists>v. find_row dv_id (dp_versionId (ri_payload r)) (doc_versions (domain_db db)) = Some v \<and>
    v \<in> set (doc_versions (domain_db db)) \<and> dv_status v \<noteq> Ver_draft \<and>
    version_agrees (dv_id v) (ri_status r) (Some (dv_status v)) \<and> ri_status r \<noteq> In_review"
proof -
  have "doc_hooks.item_in_step (domain_db db) r" using assms by (auto simp: doc_inv_def doc_hooks.in_step_def)
  then have a: "version_agrees (dp_versionId (ri_payload r)) (ri_status r)
      (version_state (dp_versionId (ri_payload r)) (domain_db db))" "ri_status r \<noteq> In_review"
    by (auto simp: doc_hooks.item_in_step_def)
  obtain v where v: "find_row dv_id (dp_versionId (ri_payload r)) (doc_versions (domain_db db)) = Some v"
    using a(1) by (cases "ri_status r") (auto simp: version_state_def)
  have m: "v \<in> set (doc_versions (domain_db db))" "dv_id v = dp_versionId (ri_payload r)"
    using find_row_Some [OF v] by auto
  have "dv_status v \<noteq> Ver_draft" using assms m by (auto simp: doc_inv_def drafts_unfiled_def)
  then show ?thesis using a v m by (simp add: version_state_def)
qed

lemma doc_inv_append:
  assumes inv: "doc_inv db" and new: "find_row dv_id (dv_id v) (doc_versions (domain_db db)) = None"
    and v: "dv_status v = Ver_draft" "dv_publishedAt v = None" "dv_supersededAt v = None"
    and d': "doc_versions d' = doc_versions (domain_db db) @ [v]"
  shows "doc_inv (with_domain d' db)"
proof (rule doc_inv_write [OF inv])
  have t: "tables_ok (domain_db db)" using inv by (simp add: doc_inv_def)
  show "tables_ok d'"
    using t new v by (auto simp: tables_ok_def d' keys_distinct_append_one published_index_ok_def ver_in_force_def dates_ok_def)
  show "version_state (dp_versionId (ri_payload r)) d' = version_state (dp_versionId (ri_payload r)) (domain_db db) \<or>
      (ri_status r = Approved \<and> version_agrees [] Approved (version_state (dp_versionId (ri_payload r)) d'))"
    if "r \<in> set (items db)" for r
    using targeted_version [OF inv that] by (auto simp: version_state_def d' find_row_append)
  fix w assume w: "w \<in> set (doc_versions d')"
  show "dv_status w = Ver_draft \<longleftrightarrow> (\<forall>r \<in> set (items db). dp_versionId (ri_payload r) \<noteq> dv_id w)"
  proof (cases "w = v")
    case True
    have "dp_versionId (ri_payload r) \<noteq> dv_id v" if "r \<in> set (items db)" for r
      using targeted_version [OF inv that] new by auto
    then show ?thesis using True v by simp
  next
    case False
    then show ?thesis using w inv by (auto simp: d' doc_inv_def drafts_unfiled_def)
  qed
qed

lemma doc_inv_same_stages:
  assumes inv: "doc_inv db"
    and d': "doc_versions d' = map g (doc_versions (domain_db db))"
    and g: "\<And>v. dv_id (g v) = dv_id v \<and> dv_status (g v) = dv_status v \<and> dv_documentId (g v) = dv_documentId v \<and>
      dv_publishedAt (g v) = dv_publishedAt v \<and> dv_supersededAt (g v) = dv_supersededAt v"
  shows "doc_inv (with_domain d' db)"
proof (rule doc_inv_write [OF inv])
  have t: "tables_ok (domain_db db)" using inv by (simp add: doc_inv_def)
  have "dates_ok (g v) = dates_ok v" for v using g [of v] by (cases "dv_status v") (simp_all add: dates_ok_def)
  moreover have "published_index_ok (doc_versions d')"
    unfolding d' by (rule index_ok_map) (use g t in \<open>auto simp: ver_in_force_def tables_ok_def\<close>)
  ultimately show "tables_ok d'" using t g by (simp add: tables_ok_def d' keys_distinct_map)
  show "version_state (dp_versionId (ri_payload r)) d' = version_state (dp_versionId (ri_payload r)) (domain_db db) \<or>
      (ri_status r = Approved \<and> version_agrees [] Approved (version_state (dp_versionId (ri_payload r)) d'))" for r
    using g by (simp add: version_state_def d' find_row_map option.map_comp comp_def)
  show "dv_status v = Ver_draft \<longleftrightarrow> (\<forall>r \<in> set (items db). dp_versionId (ri_payload r) \<noteq> dv_id v)"
    if "v \<in> set (doc_versions d')" for v
    using that inv g by (auto simp: d' doc_inv_def drafts_unfiled_def)
qed

lemma doc_inv_publish:
  assumes inv: "doc_inv db" and v: "v \<in> set (doc_versions (domain_db db))" "dv_status v = Ver_approved"
    and d': "doc_versions d' = map (publish_row now due v) (doc_versions (domain_db db))"
  shows "doc_inv (with_domain d' db)"
proof (rule doc_inv_write [OF inv])
  have t: "tables_ok (domain_db db)" using inv by (simp add: doc_inv_def)
  show "tables_ok d'" using publish_tables_ok [OF t v] by (simp add: tables_ok_def d')
  have stage: "dv_status (publish_row now due v u) = dv_status u \<or>
      (dv_status u \<in> {Ver_approved, Ver_published} \<and> dv_status (publish_row now due v u) \<in> {Ver_published, Ver_superseded})"
    if "u \<in> set (doc_versions (domain_db db))" for u
  proof -
    have "dates_ok u" using t that by (simp add: tables_ok_def)
    moreover have "u = v" if "dv_id u = dv_id v"
      using t version_table.wf_member_unique [OF _ \<open>u \<in> set (doc_versions (domain_db db))\<close> v(1) that]
      by (simp add: tables_ok_def)
    ultimately show ?thesis using v(2) by (auto simp: publish_row_def dates_in_force)
  qed
  show "version_state (dp_versionId (ri_payload r)) d' = version_state (dp_versionId (ri_payload r)) (domain_db db) \<or>
      (ri_status r = Approved \<and> version_agrees [] Approved (version_state (dp_versionId (ri_payload r)) d'))"
    if r: "r \<in> set (items db)" for r
  proof -
    obtain u where u: "find_row dv_id (dp_versionId (ri_payload r)) (doc_versions (domain_db db)) = Some u"
        "u \<in> set (doc_versions (domain_db db))" "version_agrees (dv_id u) (ri_status r) (Some (dv_status u))"
      using targeted_version [OF inv r] by blast
    then show ?thesis
      using stage [OF u(2)] by (cases "ri_status r") (auto simp: version_state_def d' find_row_map)
  qed
  show "dv_status w = Ver_draft \<longleftrightarrow> (\<forall>r \<in> set (items db). dp_versionId (ri_payload r) \<noteq> dv_id w)"
    if w: "w \<in> set (doc_versions d')" for w
  proof -
    obtain u where u: "u \<in> set (doc_versions (domain_db db))" "w = publish_row now due v u" using w by (auto simp: d')
    have "dv_status w = Ver_draft \<longleftrightarrow> dv_status u = Ver_draft" using stage [OF u(1)] u(2) by auto
    then show ?thesis using inv u by (simp add: doc_inv_def drafts_unfiled_def)
  qed
qed

lemma untargeted_modify:
  "(\<And>q. ri_payload (f q) = ri_payload q) \<Longrightarrow>
   (\<forall>q \<in> set (modify_row ri_id k f t). dp_versionId (ri_payload q) \<noteq> i) \<longleftrightarrow>
   (\<forall>q \<in> set t. dp_versionId (ri_payload q) \<noteq> i)"
  by (induction t) (simp_all add: modify_row_def)

lemma doc_inv_closing:
  assumes inv: "doc_inv db" and call: "closing_call document_registry db db'"
  shows "doc_inv db'"
proof -
  have step': "doc_hooks.in_step db'"
    using inv doc_hooks.closing_call_in_step [OF _ call] by (simp add: doc_inv_def)
  have t: "tables_ok (domain_db db)" using inv by (simp add: doc_inv_def)
  consider "db' = db" | "one_closed document_registry db db'"
    using doc_hooks.closing_call_one [OF call] by blast
  then show ?thesis
  proof cases
    case 1
    then show ?thesis using inv by simp
  next
    case 2
    then obtain k r rid u now st f where r: "find_row ri_id k (items db) = Some r" "is_open (ri_status r)"
        and hook: "closes document_type (ri_payload r) rid u now st (domain_db db) = Inr (domain_db db')"
        and items': "items db' = modify_row ri_id k f (items db)" "\<And>q. filed (f q) = filed q"
      unfolding one_closed_def document_registry_get by metis
    have mem: "r \<in> set (items db)" using find_row_Some [OF r(1)] by simp
    obtain v where v: "find_row dv_id (dp_versionId (ri_payload r)) (doc_versions (domain_db db)) = Some v"
        "v \<in> set (doc_versions (domain_db db))" "dv_status v = Ver_in_review"
      using targeted_version [OF inv mem] r(2) by (cases "ri_status r") auto
    have vid: "dv_id v = dp_versionId (ri_payload r)" using find_row_Some [OF v(1)] by simp
    note d' = document_closes [OF hook]
    have unpublished: "dv_publishedAt v = None" "dv_supersededAt v = None"
      using t v(2,3) by (auto simp: tables_ok_def dates_ok_def)
    have same: "w = v" if "w \<in> set (doc_versions (domain_db db))" "dv_id w = dv_id v" for w
      using t version_table.wf_member_unique [OF _ that(1) v(2) that(2)] by (simp add: tables_ok_def)
    have "tables_ok (domain_db db')"
      unfolding d'(1)
    proof (rule tables_ok_modify [OF t])
      fix w assume "w \<in> set (doc_versions (domain_db db))" "dv_id w = dp_versionId (ri_payload r)"
      then have "w = v" using same vid by simp
      then show "dates_ok (closing_update st u now w)"
        using unpublished v(3) d'(2,3) by (cases st) (simp_all add: closing_update_fun dates_ok_def)
    next
      show "published_index_ok (modify_row dv_id (dp_versionId (ri_payload r)) (closing_update st u now)
          (doc_versions (domain_db db)))"
        by (rule index_ok_retreat) (use t in \<open>auto simp: tables_ok_def ver_in_force_def\<close>)
    qed simp
    moreover have "drafts_unfiled db'"
      unfolding drafts_unfiled_def
    proof
      fix w' assume "w' \<in> set (doc_versions (domain_db db'))"
      then obtain w where w: "w \<in> set (doc_versions (domain_db db))"
          "w' = (if dv_id w = dp_versionId (ri_payload r) then closing_update st u now w else w)"
        unfolding d'(1) by (auto simp: set_modify_row)
      have "dv_status w' = Ver_draft \<longleftrightarrow> dv_status w = Ver_draft"
        using w(2) same [OF w(1)] vid v(3) d'(2,3) by (cases st) (auto simp: closing_update_fun)
      moreover have "(\<forall>q \<in> set (items db'). dp_versionId (ri_payload q) \<noteq> dv_id w') \<longleftrightarrow>
          (\<forall>q \<in> set (items db). dp_versionId (ri_payload q) \<noteq> dv_id w)"
      proof -
        have "ri_payload (f q) = ri_payload q" for q using items'(2) [of q] by (simp add: filed_def)
        then show ?thesis unfolding items'(1) by (subst untargeted_modify) (simp_all add: w(2))
      qed
      ultimately show "dv_status w' = Ver_draft \<longleftrightarrow> (\<forall>q \<in> set (items db'). dp_versionId (ri_payload q) \<noteq> dv_id w')"
        using inv w(1) by (simp add: doc_inv_def drafts_unfiled_def)
    qed
    ultimately show ?thesis using step' by (simp add: doc_inv_def)
  qed
qed

lemma doc_inv_submit:
  assumes inv: "doc_inv db" and run: "submit_for_approval env engineId vid actor db = (res, db')"
    and fresh: "find_row ri_id engineId (items db) = None"
  shows "doc_inv db'"
  using run
proof (cases rule: submit_for_approval_cases)
  case 1
  then show ?thesis using inv by simp
next
  case (2 v row item db1)
  have t: "tables_ok (domain_db db)" using inv by (simp add: doc_inv_def)
  have v: "v \<in> set (doc_versions (domain_db db))" "dv_id v = vid" using find_row_Some [OF 2(1)] by auto
  have unfiled: "\<forall>r \<in> set (items db). dp_versionId (ri_payload r) \<noteq> vid"
    using inv v 2(2) by (auto simp: doc_inv_def drafts_unfiled_def)
  have target: "dp_versionId (document_payload_of v row) = vid" using v by (simp add: document_payload_of_def)
  have step1: "doc_hooks.in_step db1"
    by (rule doc_hooks.submit_in_step [OF _ 2(3) fresh])
      (use inv unfiled 2(1,2) in \<open>simp_all add: doc_inv_def target document_typed_def version_state_def\<close>)
  obtain d1: "domain_db db1 = domain_db db" and it1: "items db1 = items db @ [item]"
    and pl: "ri_payload item = document_payload_of v row" "ri_id item = engineId"
    by (rule submit_shape [OF 2(3)]) (auto simp: document_registry_get document_type_def)
  let ?f = "\<lambda>v. v\<lparr>dv_status := Ver_in_review, dv_requestId := Some (ri_id item)\<rparr>"
  let ?vs = "modify_row dv_id vid ?f (doc_versions (domain_db db))"
  have same: "w = v" if "w \<in> set (doc_versions (domain_db db))" "dv_id w = vid" for w
    using t version_table.wf_member_unique [OF _ that(1) v(1)] that(2) v(2) by (simp add: tables_ok_def)
  have unpublished: "dv_publishedAt v = None" "dv_supersededAt v = None"
    using t v(1) 2(2) by (auto simp: tables_ok_def dates_ok_def)
  have idx: "published_index_ok ?vs"
    by (rule index_ok_retreat) (use t in \<open>auto simp: tables_ok_def ver_in_force_def\<close>)
  then have mark: "mark_in_review vid (ri_id item) (domain_db db1) = Inr (find_row dv_id vid ?vs, (domain_db db)\<lparr>doc_versions := ?vs\<rparr>)"
    by (simp add: mark_in_review_def set_version_Inr d1)
  then have db': "db' = with_domain ((domain_db db)\<lparr>doc_versions := ?vs\<rparr>) db1" by (rule 2(6))
  have "doc_hooks.in_step db'"
  proof (rule doc_hooks.domain_write_in_step [OF step1])
    fix r assume r: "r \<in> set (items db1)" "doc_hooks.item_in_step (domain_db db1) r"
    show "doc_hooks.item_in_step (domain_db db') r"
    proof (cases "dp_versionId (ri_payload r) = vid")
      case True
      then have "r = item" using r(1) unfiled by (auto simp: it1)
      moreover have "ri_status item = Pending" by (rule submit_shape [OF 2(3)])
      ultimately show ?thesis using r(2) 2(1)
        by (simp add: doc_hooks.item_in_step_def db' version_state_modify pl target)
    next
      case False
      then show ?thesis using r(2)
        by (simp add: doc_hooks.item_in_step_def db' version_state_modify d1)
    qed
  qed (simp add: db')
  moreover have "tables_ok (domain_db db')"
    unfolding db' with_domain_simps
    by (rule tables_ok_modify [OF t _ _ idx]) (use same unpublished in \<open>auto simp: dates_ok_def\<close>)
  moreover have "drafts_unfiled db'"
    unfolding drafts_unfiled_def
  proof
    fix w' assume "w' \<in> set (doc_versions (domain_db db'))"
    then obtain w where w: "w \<in> set (doc_versions (domain_db db))" "w' = (if dv_id w = vid then ?f w else w)"
      by (auto simp: db' set_modify_row)
    have it': "items db' = items db @ [item]" by (simp add: db' it1)
    show "dv_status w' = Ver_draft \<longleftrightarrow> (\<forall>q \<in> set (items db'). dp_versionId (ri_payload q) \<noteq> dv_id w')"
    proof (cases "dv_id w = vid")
      case True
      then show ?thesis using w(2) by (simp add: it' pl target)
    next
      case False
      then show ?thesis using w inv by (simp add: it' pl target doc_inv_def drafts_unfiled_def)
    qed
  qed
  ultimately show ?thesis by (simp add: doc_inv_def)
qed

lemma create_version_Inr:
  assumes "create_version now i documentId n body summary d = Inr (v, d')"
  shows "doc_versions d' = doc_versions d @ [v]" "dv_id v = i" "dv_status v = Ver_draft" "dv_publishedAt v = None"
    "dv_supersededAt v = None" "dv_documentId v = documentId" "dv_version v = n" "dv_requestId v = None"
    "doc_acks d' = doc_acks d" "doc_documents d' = doc_documents d"
  using assms by (auto simp: create_version_def Let_def split: if_splits)

lemma doc_record_simps [simp]:
  "doc_versions (doc_record actor act i d) = doc_versions d" "doc_documents (doc_record actor act i d) = doc_documents d"
  "doc_acks (doc_record actor act i d) = doc_acks d"
  by (simp_all add: doc_record_def)

lemma patch_content_simps [simp]:
  "dv_id (patch_content b c v) = dv_id v" "dv_status (patch_content b c v) = dv_status v"
  "dv_documentId (patch_content b c v) = dv_documentId v" "dv_publishedAt (patch_content b c v) = dv_publishedAt v"
  "dv_supersededAt (patch_content b c v) = dv_supersededAt v" "dv_version (patch_content b c v) = dv_version v"
  by (simp_all add: patch_content_def Let_def split: option.splits)

lemma doc_inv_same_versions:
  assumes "doc_inv db" and "doc_versions d' = doc_versions (domain_db db)"
  shows "doc_inv (with_domain d' db)"
  by (rule doc_inv_same_stages [OF assms(1), where g = "\<lambda>v. v"]) (simp_all add: assms(2))

lemma doc_inv_step: "doc_step db db' \<Longrightarrow> doc_inv db \<Longrightarrow> doc_inv db'"
proof (induction rule: doc_step.induct)
  case (ds_create now i vid input actor db row d')
  then obtain v d1 where c: "create_version now vid i 1 (dc_body input) None
      ((domain_db db)\<lparr>doc_documents := doc_documents (domain_db db) @ [row]\<rparr>) = Inr (v, d1)"
      and d': "d' = doc_record actor ''document.created'' i d1"
    by (auto simp: create_document_def and_then_eq_Inr Let_def split: if_splits)
  note v = create_version_Inr [OF c]
  show ?case by (rule doc_inv_append [OF ds_create(3), of v]) (use v ds_create(2) in \<open>simp_all add: d'\<close>)
next
  case (ds_draft now vid i body summary actor db v d')
  then obtain d1 where c: "create_version now vid i (max_version i (domain_db db) + 1) body summary (domain_db db) = Inr (v, d1)"
      and d': "d' = doc_record actor ''document.draft_created'' (dv_id v) d1"
    by (auto simp: create_draft_def and_then_eq_Inr)
  note v = create_version_Inr [OF c]
  show ?case by (rule doc_inv_append [OF ds_draft(3), of v]) (use v ds_draft(2) in \<open>simp_all add: d'\<close>)
next
  case (ds_update vid body summary db v d')
  then have "doc_versions d' = map (\<lambda>v. if dv_id v = vid \<and> dv_status v = Ver_draft then patch_content body summary v else v)
      (doc_versions (domain_db db))"
    by (auto simp: update_draft_def Let_def update_where_def split: option.splits)
  then show ?case by (rule doc_inv_same_stages [OF ds_update(2)]) simp
next
  case (ds_retire now i actor db d')
  then show ?case by (auto simp: retire_document_def and_then_eq_Inr split: if_splits intro!: doc_inv_same_versions)
next
  case (ds_submit env engineId vid actor db res db')
  then show ?case using doc_inv_submit by blast
next
  case (ds_publish now vid due actor db v d')
  then obtain u where u: "u \<in> set (doc_versions (domain_db db))" "dv_status u = Ver_approved"
      and p: "publish_commit now u due actor (domain_db db) = Inr (v, d')"
    by (auto simp: publish_def publishable_def must_get_version_def and_then_eq_Inr dest!: find_row_Some split: option.splits if_splits)
  have t: "tables_ok (domain_db db)" using ds_publish(2) by (simp add: doc_inv_def)
  have "doc_versions d' = map (publish_row now due u) (doc_versions (domain_db db))"
    using p unfolding publish_commit_spec [OF t u] by auto
  then show ?case by (rule doc_inv_publish [OF ds_publish(2) u])
next
  case (ds_acknowledge now vid actor db b d')
  then show ?case
    by (auto simp: acknowledge_def acknowledgeable_def acknowledge_commit_def and_then_eq_Inr split: if_splits intro!: doc_inv_same_versions)
next
  case (ds_engine db db')
  then show ?case using doc_inv_closing by blast
next
  case (ds_breach db now item)
  have "domain_db (sla_breach_row now item db) = domain_db db"
    by (simp add: sla_breach_row_def split: option.splits)
  moreover have "drafts_unfiled (sla_breach_row now item db)"
  proof (cases "ri_slaDeadline item")
    case (Some x)
    have p: "ri_payload (breach_item now q) = ri_payload q" for q :: "document_payload request_item"
      by (simp add: breach_item_def)
    show ?thesis
      using ds_breach Some untargeted_modify [OF p, where t = "items db"]
      by (simp add: doc_inv_def drafts_unfiled_def sla_breach_row_def)
  qed (use ds_breach in \<open>simp add: doc_inv_def sla_breach_row_def\<close>)
  ultimately show ?case
    using ds_breach doc_hooks.breach_in_step by (simp add: doc_inv_def)
qed

lemma doc_inv_reachable: "doc_reachable db \<Longrightarrow> doc_inv db"
proof (induction rule: doc_reachable.induct)
  case (doc_start db)
  then show ?case
    by (simp add: doc_inv_def doc_init_def engine_init_def doc_hooks.in_step_def tables_ok_def drafts_unfiled_def
        keys_distinct_def published_index_ok_def)
next
  case (doc_next db db')
  then show ?case using doc_inv_step by blast
qed

end
