(* ===== verification/ModuleRaces.thy ===== *)
theory ModuleRaces
  imports RequestRaces RequestHooks
begin

text \<open>
  A module beside the engine, both serving many callers at once: the module's own transactions, the
  filing of requests by calls in progress, engine decisions split into check and transaction. A call is
  what an operation carries from one await to the next; it may stop anywhere.

  The locale states what a module owes so that everything it has released on an approval is earned: its
  own transactions release nothing, its hooks release a row only when the engine approves, to the person
  who approved.
\<close>

type_synonym ('p, 'd, 'c) module_world = "('p, 'd) race_state \<times> 'c list"

abbreviation world_db :: "('p, 'd, 'c) module_world \<Rightarrow> ('p, 'd) engine_db" where
  "world_db w \<equiv> fst (fst w)"

abbreviation world_tables :: "('p, 'd, 'c) module_world \<Rightarrow> 'd" where
  "world_tables w \<equiv> domain_db (fst (fst w))"

inductive module_step ::
    "('p, 'd) registry \<Rightarrow> ('d \<Rightarrow> 'c list \<Rightarrow> 'd \<Rightarrow> 'c list \<Rightarrow> bool) \<Rightarrow>
     ('c \<Rightarrow> (string \<times> 'p \<times> actor \<times> submit_options) option) \<Rightarrow> ('c \<Rightarrow> string \<Rightarrow> 'c) \<Rightarrow>
     ('p, 'd, 'c) module_world \<Rightarrow> ('p, 'd, 'c) module_world \<Rightarrow> bool"
  for reg own filing next_call where
  ms_own:
    "own (domain_db db) cs d' cs' \<Longrightarrow>
     module_step reg own filing next_call ((db, fl), cs) ((db\<lparr>domain_db := d'\<rparr>, fl), cs')"
| ms_file:
    "c \<in> set cs \<Longrightarrow> filing c = Some (ty, p, actor, opts) \<Longrightarrow> submit env reg i ty p actor opts db = Inr (item, db') \<Longrightarrow>
     find_row ri_id i (items db) = None \<Longrightarrow> \<forall>a \<in> set (approvals db). ap_requestId a \<noteq> i \<Longrightarrow>
     module_step reg own filing next_call ((db, fl), cs) ((db', fl), remove1 c cs @ [next_call c i])"
| ms_stop:
    "c \<in> set cs \<Longrightarrow> module_step reg own filing next_call ((db, fl), cs) ((db, fl), remove1 c cs)"
| ms_begin:
    "race_step reg (db, fl) (db, fl') \<Longrightarrow> module_step reg own filing next_call ((db, fl), cs) ((db, fl'), cs)"
| ms_commit:
    "f \<in> set fl \<Longrightarrow> commit_flight env i f db = Inr db' \<Longrightarrow>
     module_step reg own filing next_call ((db, fl), cs) ((db', remove1 f fl), cs)"
| ms_breach:
    "module_step reg own filing next_call ((db, fl), cs) ((sla_breach_row now item db, fl), cs)"

inductive module_reachable ::
    "('p, 'd) registry \<Rightarrow> ('d \<Rightarrow> 'c list \<Rightarrow> 'd \<Rightarrow> 'c list \<Rightarrow> bool) \<Rightarrow>
     ('c \<Rightarrow> (string \<times> 'p \<times> actor \<times> submit_options) option) \<Rightarrow> ('c \<Rightarrow> string \<Rightarrow> 'c) \<Rightarrow>
     ('d \<Rightarrow> bool) \<Rightarrow> ('p, 'd, 'c) module_world \<Rightarrow> bool"
  for reg own filing next_call start where
  module_start:
    "engine_init db \<Longrightarrow> start (domain_db db) \<Longrightarrow> module_reachable reg own filing next_call start ((db, []), [])"
| module_next:
    "module_reachable reg own filing next_call start w \<Longrightarrow> module_step reg own filing next_call w w' \<Longrightarrow>
     module_reachable reg own filing next_call start w'"

lemma module_step_races: "module_step reg own filing next_call w w' \<Longrightarrow> race_step reg (fst w) (fst w')"
proof (induction rule: module_step.induct)
  case (ms_own db cs d' cs' fl)
  show ?case unfolding fst_conv by (rule race_call, rule step_other) simp_all
next
  case (ms_file c cs ty p actor opts env i db item db' fl)
  then show ?case unfolding fst_conv by (intro race_call step_submit)
next
  case (ms_stop c cs db fl)
  show ?case unfolding fst_conv by (rule race_call, rule step_other) simp_all
next
  case (ms_commit f fl env i db db' cs)
  then show ?case unfolding fst_conv by (rule race_commit)
next
  case (ms_breach db fl cs now item)
  show ?case unfolding fst_conv by (rule race_call, rule step_breach)
qed simp

lemma module_reachable_races:
  "module_reachable reg own filing next_call start w \<Longrightarrow> race_reachable reg (fst w)"
proof (induction rule: module_reachable.induct)
  case (module_start db)
  then show ?case by (simp add: race_init)
next
  case (module_next w w')
  then show ?case using module_step_races race_next by blast
qed

section \<open>Evidence of an approval\<close>

text \<open>An approval by \<open>u\<close>, on record, of a request about \<open>k\<close>, made for somebody other than who filed it.\<close>

definition approved_by :: "('p \<Rightarrow> 'k) \<Rightarrow> ('p, 'd) engine_db \<Rightarrow> 'k \<Rightarrow> string \<Rightarrow> bool" where
  "approved_by target db k u \<longleftrightarrow>
     (\<exists>r a. find_row ri_id (ri_id r) (items db) = Some r \<and> target (ri_payload r) = k \<and> a \<in> set (approvals db) \<and>
        ap_requestId a = ri_id r \<and> ap_decision a = Decision_approved \<and> ap_approverId a = u \<and>
        answered_for a \<noteq> ri_requesterId r)"

lemma approved_by_mono:
  assumes "keeps_filed (items db) (items db')" and "set (approvals db) \<subseteq> set (approvals db')"
    and "approved_by target db k u"
  shows "approved_by target db' k u"
proof -
  obtain r a where r: "find_row ri_id (ri_id r) (items db) = Some r" "target (ri_payload r) = k"
      "a \<in> set (approvals db)" "ap_requestId a = ri_id r" "ap_decision a = Decision_approved" "ap_approverId a = u"
      "answered_for a \<noteq> ri_requesterId r"
    using assms(3) by (auto simp: approved_by_def)
  obtain r' where r': "find_row ri_id (ri_id r) (items db') = Some r'" "filed r' = filed r"
    using assms(1) r(1) by (auto simp: keeps_filed_def)
  then have "ri_id r' = ri_id r" "ri_payload r' = ri_payload r" "ri_requesterId r' = ri_requesterId r"
    by (simp_all add: filed_def)
  then show ?thesis
    unfolding approved_by_def using r r' assms(2) by (intro exI [of _ r'] exI [of _ a]) auto
qed

lemma commit_closes:
  assumes ok: "flight_ok reg (items db) f" "flight_earned reg (approvals db) f"
    and single: "\<And>def. def \<in> set reg \<Longrightarrow> td_approvalSteps def = None"
    and m: "commit_flight env j f db = Inr db'"
  obtains q def u st where "seen (items db) q" "registry_get reg (ri_type q) = Inr def"
      "closes def (ri_payload q) (ri_id q) u (ev_now env) st (domain_db db) = Inr (domain_db db')"
      "st = Approved \<longrightarrow> (\<exists>a \<in> set (approvals db'). ap_requestId a = ri_id q \<and> ap_decision a = Decision_approved \<and>
          ap_approverId a = u \<and> (td_allowSelfApproval def \<or> answered_for a \<noteq> ri_requesterId q))"
proof (cases f)
  case (Approving ctx nt actor)
  have c: "seen (items db) (dc_request ctx)" "registry_get reg (ri_type (dc_request ctx)) = Inr (dc_def ctx)"
      "td_allowSelfApproval (dc_def ctx) \<or> ri_requesterId (dc_request ctx) \<noteq> sod_subject (dc_delegation ctx) actor"
    using ok(1) Approving by (auto simp: context_ok_def)
  have "dc_def ctx \<in> set reg" using c(2) by (auto dest!: registry_get_Inr find_row_Some)
  then have final: "is_final_step (dc_def ctx) n" for n using single by (simp add: is_final_step_def)
  from m Approving have "approve_commit env j nt actor ctx db = Inr db'" by simp
  then show ?thesis
  proof (rule approve_commit_shape)
    fix na
    assume aps: "approvals db' = approvals db @ [approval_row (ev_now env) j ctx Decision_approved nt actor]"
      and hook: "if is_final_step (dc_def ctx) (ri_currentStep (dc_request ctx))
          then td_onApprove (dc_def ctx) (ri_payload (dc_request ctx)) (ri_id (dc_request ctx)) (ac_sub actor)
            (ev_now env) (domain_db db) = Inr (domain_db db')
          else run_hook (map_option (\<lambda>h x d. h (ri_payload (dc_request ctx)) (ri_id (dc_request ctx))
            (ri_currentStep (dc_request ctx)) (ri_currentStep (dc_request ctx) + 1) na (ac_sub actor)
            (ev_now env) d) (td_onStepApproved (dc_def ctx))) () (domain_db db) = Inr (domain_db db')"
    have "answered_for (approval_row (ev_now env) j ctx Decision_approved nt actor) = sod_subject (dc_delegation ctx) actor"
      by (cases "dc_delegation ctx") (simp_all add: answered_for_def approval_row_def sod_subject_def)
    then have "\<exists>a \<in> set (approvals db'). ap_requestId a = ri_id (dc_request ctx) \<and> ap_decision a = Decision_approved \<and>
        ap_approverId a = ac_sub actor \<and> (td_allowSelfApproval (dc_def ctx) \<or> answered_for a \<noteq> ri_requesterId (dc_request ctx))"
      using c(3) unfolding aps by (intro bexI [of _ "approval_row (ev_now env) j ctx Decision_approved nt actor"])
        (auto simp: approval_row_def)
    then show ?thesis
      using that [OF c(1,2), of "ac_sub actor" Approved] hook final by (simp add: closes_def)
  qed
next
  case (Rejecting ctx nt actor)
  have c: "seen (items db) (dc_request ctx)" "registry_get reg (ri_type (dc_request ctx)) = Inr (dc_def ctx)"
    using ok(1) Rejecting by (auto simp: context_ok_def)
  from m Rejecting have "reject_commit env j nt actor ctx db = Inr db'" by simp
  from reject_commit_shape(4) [OF this] show ?thesis
    using that [OF c, of "ac_sub actor" Rejected] by (simp add: closes_def)
next
  case (Cancelling c actor)
  from m Cancelling have "cancel_commit env actor c db = Inr db'" by simp
  from cancel_commit_shape(4) [OF this] show ?thesis
    using that [of "fst c" "snd c" "ac_sub actor" Cancelled] ok Cancelling by (simp add: closes_def)
next
  case (Expiring c)
  from m Expiring have "expire_commit env c db = Inr db'" by simp
  from expire_commit_shape(4) [OF this] show ?thesis
    using that [of "fst c" "snd c" "[]" Expired] ok Expiring by (simp add: closes_def)
qed

lemma write_keeps: "log_kept db (db\<lparr>domain_db := d\<rparr>)"
  by (auto simp: log_kept_def same_filings_def)

section \<open>What a module owes\<close>

locale released_by_approval =
  fixes reg :: "('p, 'd) registry"
    and own :: "'d \<Rightarrow> 'c list \<Rightarrow> 'd \<Rightarrow> 'c list \<Rightarrow> bool"
    and filing :: "'c \<Rightarrow> (string \<times> 'p \<times> actor \<times> submit_options) option"
    and next_call :: "'c \<Rightarrow> string \<Rightarrow> 'c"
    and start :: "'d \<Rightarrow> bool"
    and target :: "'p \<Rightarrow> 'k"
    and released :: "'d \<Rightarrow> ('k \<times> string) set"
    and good :: "'d \<Rightarrow> 'c list \<Rightarrow> bool"
    and payload_ok :: "'d \<Rightarrow> 'p \<Rightarrow> bool"
  assumes simple_type: "def \<in> set reg \<Longrightarrow>
        td_approvalSteps def = None \<and> td_onSubmit def = None \<and> \<not> td_allowSelfApproval def"
    and starts: "start d \<Longrightarrow> good d [] \<and> released d = {}"
    and own_keeps: "own d cs d' cs' \<Longrightarrow> good d cs \<Longrightarrow>
        good d' cs' \<and> released d' \<subseteq> released d \<and> (\<forall>p. payload_ok d p \<longrightarrow> payload_ok d' p)"
    and hook_keeps: "def \<in> set reg \<Longrightarrow> closes def p rid u now st d = Inr d' \<Longrightarrow> good d cs \<Longrightarrow> payload_ok d p \<Longrightarrow>
        good d' cs \<and> released d' \<subseteq> released d \<union> (if st = Approved then {(target p, u)} else {}) \<and>
        (\<forall>q. payload_ok d q \<longrightarrow> payload_ok d' q)"
    and filing_keeps: "c \<in> set cs \<Longrightarrow> filing c = Some (ty, p, actor, opts) \<Longrightarrow> good d cs \<Longrightarrow>
        payload_ok d p \<and> good d (remove1 c cs @ [next_call c i])"
    and stop_keeps: "c \<in> set cs \<Longrightarrow> good d cs \<Longrightarrow> good d (remove1 c cs)"
begin

definition earned_world :: "('p, 'd, 'c) module_world \<Rightarrow> bool" where
  "earned_world w \<longleftrightarrow>
     good (world_tables w) (snd w) \<and> (\<forall>r \<in> set (items (world_db w)). payload_ok (world_tables w) (ri_payload r)) \<and>
     (\<forall>(k, u) \<in> released (world_tables w). approved_by target (world_db w) k u)"

lemma earned_keeps:
  assumes inv: "earned_world ((db, fl), cs)" and log: "log_kept db db'" and good: "good (domain_db db') cs'"
    and pay: "\<And>p. payload_ok (domain_db db) p \<Longrightarrow> payload_ok (domain_db db') p"
    and rel: "\<And>k u. (k, u) \<in> released (domain_db db') \<Longrightarrow> (k, u) \<in> released (domain_db db) \<or> approved_by target db' k u"
  shows "earned_world ((db', fl'), cs')"
proof -
  have "payload_ok (domain_db db') (ri_payload r')" if "r' \<in> set (items db')" for r'
  proof -
    obtain r where "r \<in> set (items db)" "filed r' = filed r"
      using log \<open>r' \<in> set (items db')\<close> by (auto simp: log_kept_def same_filings_def)
    moreover from this have "ri_payload r' = ri_payload r" by (simp add: filed_def)
    ultimately show ?thesis using inv pay by (simp add: earned_world_def)
  qed
  moreover have "approved_by target db' k u" if "(k, u) \<in> released (domain_db db')" for k u
    using rel [OF that]
  proof
    assume "(k, u) \<in> released (domain_db db)"
    then have "approved_by target db k u" using inv by (auto simp: earned_world_def)
    then show ?thesis using log approved_by_mono [of db db' target k u] by (simp add: log_kept_def)
  qed
  ultimately show ?thesis using good by (auto simp: earned_world_def)
qed

lemma earned_step:
  assumes step: "module_step reg own filing next_call w w'" and inv: "earned_world w" and race: "race_reachable reg (fst w)"
  shows "earned_world w'"
  using step
proof cases
  case (ms_own db cs d' cs' fl)
  have g: "good (domain_db db) cs" using inv ms_own(1) by (simp add: earned_world_def)
  note k = own_keeps [OF ms_own(3) g]
  show ?thesis
    unfolding ms_own(2)
  proof (rule earned_keeps [OF inv [unfolded ms_own(1)] write_keeps])
    show "(x, u) \<in> released (domain_db db) \<or> approved_by target (db\<lparr>domain_db := d'\<rparr>) x u"
      if "(x, u) \<in> released (domain_db (db\<lparr>domain_db := d'\<rparr>))" for x u
      using that k by auto
  qed (use k in auto)
next
  case (ms_file c cs ty p actor opts env i db item db' fl)
  have f: "payload_ok (domain_db db) p" "good (domain_db db) (remove1 c cs @ [next_call c i])"
    using filing_keeps [OF ms_file(3,4)] inv ms_file(1) by (auto simp: earned_world_def)
  show ?thesis using ms_file(5)
  proof (rule submit_shape)
    fix def d'
    assume def: "registry_get reg ty = Inr def" and items': "items db' = items db @ [item]"
      and d': "domain_db db' = d'" and aps: "approvals db' = approvals db" and pl: "ri_payload item = p"
      and hook: "run_hook (map_option (\<lambda>h x d. h p (ac_sub actor) (ev_now env) d) (td_onSubmit def))
         () (domain_db db) = Inr d'"
    have "def \<in> set reg" using def by (auto dest!: registry_get_Inr find_row_Some)
    then have same: "domain_db db' = domain_db db" using hook simple_type d' by simp
    have kf: "keeps_filed (items db) (items db')"
      by (auto simp: items' keeps_filed_def find_row_append split: option.splits)
    have "approved_by target db' k u" if "(k, u) \<in> released (domain_db db)" for k u
      using inv that approved_by_mono [OF kf, of target k u] aps ms_file(1) by (auto simp: earned_world_def)
    then show ?thesis
      using inv f ms_file(1) unfolding ms_file(2) earned_world_def by (auto simp: items' pl same)
  qed
next
  case (ms_stop c cs db fl)
  then show ?thesis using inv stop_keeps by (simp add: earned_world_def)
next
  case (ms_begin db fl fl' cs)
  then show ?thesis using inv by (simp add: earned_world_def)
next
  case (ms_commit f fl env i db db' cs)
  have ok: "flight_ok reg (items db) f" "flight_earned reg (approvals db) f"
    using race_inv_reachable [OF race] races_earned_reachable [OF race] ms_commit(1,3)
    by (auto simp: race_inv_def races_earned_def)
  have log: "log_kept db db'" by (rule commit_keeps [OF ms_commit(4)])
  have single: "td_approvalSteps def = None" if "def \<in> set reg" for def using simple_type [OF that] by simp
  obtain q def u st where q: "seen (items db) q" "registry_get reg (ri_type q) = Inr def"
      and hook: "closes def (ri_payload q) (ri_id q) u (ev_now env) st (domain_db db) = Inr (domain_db db')"
      and log_row: "st = Approved \<longrightarrow> (\<exists>a \<in> set (approvals db'). ap_requestId a = ri_id q \<and>
          ap_decision a = Decision_approved \<and> ap_approverId a = u \<and>
          (td_allowSelfApproval def \<or> answered_for a \<noteq> ri_requesterId q))"
    by (rule commit_closes [OF ok single ms_commit(4)])
  have def: "def \<in> set reg" using q(2) by (auto dest!: registry_get_Inr find_row_Some)
  obtain r where r: "find_row ri_id (ri_id q) (items db) = Some r" "filed r = filed q"
    using q(1) by (auto simp: seen_def)
  have p: "payload_ok (domain_db db) (ri_payload q)"
    using inv ms_commit(1) find_row_Some [OF r(1)] r(2) by (auto simp: earned_world_def filed_def)
  have k: "good (domain_db db') cs" "released (domain_db db') \<subseteq> released (domain_db db) \<union>
      (if st = Approved then {(target (ri_payload q), u)} else {})"
      "\<And>x. payload_ok (domain_db db) x \<Longrightarrow> payload_ok (domain_db db') x"
    using hook_keeps [OF def hook _ p, of cs] inv ms_commit(1) by (auto simp: earned_world_def)
  obtain r' where r': "find_row ri_id (ri_id q) (items db') = Some r'" "filed r' = filed r"
    using log r(1) unfolding log_kept_def keeps_filed_def by blast
  then have same: "ri_id r' = ri_id q" "ri_payload r' = ri_payload q" "ri_requesterId r' = ri_requesterId q"
    using r(2) by (simp_all add: filed_def)
  have new: "approved_by target db' (target (ri_payload q)) u" if "st = Approved"
    using log_row that simple_type [OF def] r'(1) same unfolding approved_by_def by metis
  show ?thesis
    unfolding ms_commit(2)
  proof (rule earned_keeps [OF inv [unfolded ms_commit(1)] log k(1)])
    show "(x, w) \<in> released (domain_db db) \<or> approved_by target db' x w" if "(x, w) \<in> released (domain_db db')" for x w
      using that k(2) new by (auto split: if_splits)
  qed (rule k(3))
next
  case (ms_breach db fl cs now item)
  have "domain_db (sla_breach_row now item db) = domain_db db"
    by (simp add: sla_breach_row_def split: option.splits)
  then show ?thesis
    unfolding ms_breach(2) using inv [unfolded ms_breach(1)]
    by (intro earned_keeps [OF inv [unfolded ms_breach(1)] breach_keeps]) (simp_all add: earned_world_def)
qed

lemma reachable_earned:
  "module_reachable reg own filing next_call start w \<Longrightarrow> earned_world w"
proof (induction rule: module_reachable.induct)
  case (module_start db)
  then show ?case using starts by (auto simp: earned_world_def engine_init_def)
next
  case (module_next w w')
  then show ?case using earned_step module_reachable_races by blast
qed

end

end
