(* ===== verification/DocumentRaces.thy ===== *)
theory DocumentRaces
  imports DocumentSafety ModuleRaces
begin

text \<open>
  The document library under concurrent callers. An operation is followed from one await to the next: what
  it has read travels in the call, and other callers run in between. The two writes of a publication are
  one transaction, and the version it retires is the one it read before them. \<open>createDocument\<close>,
  \<open>updateDraft\<close> and \<open>retireDocument\<close> are one step each: what they read first is checked again by the
  unique code, or by the condition of the update.
\<close>

section \<open>Steps\<close>

datatype document_call =
    Drafting string "string option" "string option" actor
  | Numbering string int "string option" "string option" actor
  | Filing document_payload actor
  | Under_review string string
  | Publishing document_version "string option" actor
  | Replacing document_version "document_version option" "string option" actor
  | Acknowledging string actor

fun document_filing :: "document_call \<Rightarrow> (string \<times> document_payload \<times> actor \<times> submit_options) option" where
  "document_filing (Filing payload actor) = Some (''document_approval'', payload, actor, no_options)"
| "document_filing _ = None"

fun document_filed :: "document_call \<Rightarrow> string \<Rightarrow> document_call" where
  "document_filed (Filing payload actor) engineId = Under_review (dp_versionId payload) engineId"
| "document_filed c engineId = c"

inductive document_own :: "documents_db \<Rightarrow> document_call list \<Rightarrow> documents_db \<Rightarrow> document_call list \<Rightarrow> bool" where
  dw_create: "create_document now i vid input actor d = Inr (row, d') \<Longrightarrow>
    find_row dv_id vid (doc_versions d) = None \<Longrightarrow> document_own d cs d' cs"
| dw_update: "update_draft vid body summary d = Inr (v, d') \<Longrightarrow> document_own d cs d' cs"
| dw_retire: "retire_document now i actor d = Inr d' \<Longrightarrow> document_own d cs d' cs"
| dw_draft_look: "get_document i d = Inr row \<Longrightarrow> document_own d cs d (cs @ [Drafting i body summary actor])"
| dw_draft_number: "Drafting i body summary actor \<in> set cs \<Longrightarrow>
    document_own d cs d (remove1 (Drafting i body summary actor) cs @ [Numbering i (max_version i d + 1) body summary actor])"
| dw_draft: "Numbering i n body summary actor \<in> set cs \<Longrightarrow> create_version now vid i n body summary d = Inr (v, d') \<Longrightarrow>
    find_row dv_id vid (doc_versions d) = None \<Longrightarrow>
    document_own d cs (doc_record actor ''document.draft_created'' (dv_id v) d') (remove1 (Numbering i n body summary actor) cs)"
| dw_submit_look: "submittable vid d = Inr (v, row) \<Longrightarrow>
    document_own d cs d (cs @ [Filing (document_payload_of v row) actor])"
| dw_mark: "Under_review vid q \<in> set cs \<Longrightarrow> mark_in_review vid q d = Inr (v, d') \<Longrightarrow>
    document_own d cs d' (remove1 (Under_review vid q) cs)"
| dw_publish_look: "publishable vid d = Inr v \<Longrightarrow>
    document_own d cs d (cs @ [Publishing v due actor])"
| dw_publish_read: "Publishing v due actor \<in> set cs \<Longrightarrow>
    document_own d cs d (remove1 (Publishing v due actor) cs @ [Replacing v (find_published (dv_documentId v) d) due actor])"
| dw_publish: "Replacing v found due actor \<in> set cs \<Longrightarrow> publish_replacing now v found due actor d = Inr (p, d') \<Longrightarrow>
    document_own d cs d' (remove1 (Replacing v found due actor) cs)"
| dw_acknowledge_look: "acknowledgeable vid d = Inr v \<Longrightarrow>
    document_own d cs d (cs @ [Acknowledging vid actor])"
| dw_acknowledge: "Acknowledging vid actor \<in> set cs \<Longrightarrow> acknowledge_commit now vid actor d = (b, d') \<Longrightarrow>
    document_own d cs d' (remove1 (Acknowledging vid actor) cs)"

definition documents_start :: "documents_db \<Rightarrow> bool" where
  "documents_start d \<longleftrightarrow> doc_versions d = []"

type_synonym document_world = "(document_payload, documents_db, document_call) module_world"

abbreviation documents_reachable :: "document_world \<Rightarrow> bool" where
  "documents_reachable \<equiv> module_reachable document_registry document_own document_filing document_filed documents_start"

section \<open>What holds of every version and of every call\<close>

definition version_ok :: "document_version \<Rightarrow> bool" where
  "version_ok v \<longleftrightarrow>
     (dv_publishedAt v \<noteq> None \<longrightarrow> dv_approvedBy v \<noteq> None) \<and>
     (dv_status v = Ver_approved \<longrightarrow> dv_approvedBy v \<noteq> None) \<and>
     (dv_status v = Ver_published \<longrightarrow> dv_publishedAt v \<noteq> None)"

text \<open>A version that was read as approved: the row is there, of that document, with who approved it.\<close>

definition names_approved :: "documents_db \<Rightarrow> document_version \<Rightarrow> bool" where
  "names_approved d v \<longleftrightarrow>
     (\<exists>u. find_row dv_id (dv_id v) (doc_versions d) = Some u \<and> dv_documentId u = dv_documentId v \<and> dv_approvedBy u \<noteq> None)"

fun document_call_ok :: "documents_db \<Rightarrow> document_call \<Rightarrow> bool" where
  "document_call_ok d (Publishing v due actor) = names_approved d v"
| "document_call_ok d (Replacing v found due actor) =
     (names_approved d v \<and> (case found of None \<Rightarrow> True
        | Some c \<Rightarrow> names_approved d c \<and> dv_documentId c = dv_documentId v))"
| "document_call_ok d c = True"

definition versions_fine :: "documents_db \<Rightarrow> bool" where
  "versions_fine d \<longleftrightarrow>
     keys_distinct dv_id (doc_versions d) \<and> published_index_ok (doc_versions d) \<and>
     (\<forall>v \<in> set (doc_versions d). version_ok v)"

definition documents_good :: "documents_db \<Rightarrow> document_call list \<Rightarrow> bool" where
  "documents_good d cs \<longleftrightarrow> versions_fine d \<and> (\<forall>c \<in> set cs. document_call_ok d c)"

definition approval_of :: "document_version \<Rightarrow> (string \<times> string) set" where
  "approval_of v = Pair (dv_id v) ` set_option (dv_approvedBy v)"

definition approvals_on :: "documents_db \<Rightarrow> (string \<times> string) set" where
  "approvals_on d = (\<Union>v \<in> set (doc_versions d). approval_of v)"

section \<open>What a change keeps\<close>

definition versions_kept :: "documents_db \<Rightarrow> documents_db \<Rightarrow> bool" where
  "versions_kept d d' \<longleftrightarrow> (\<forall>v. names_approved d v \<longrightarrow> names_approved d' v)"

definition lawful_change :: "(string \<times> string) set \<Rightarrow> documents_db \<Rightarrow> documents_db \<Rightarrow> bool" where
  "lawful_change X d d' \<longleftrightarrow>
     (versions_fine d \<longrightarrow> versions_fine d' \<and> versions_kept d d' \<and> approvals_on d' \<subseteq> approvals_on d \<union> X)"

lemma document_call_kept: "versions_kept d d' \<Longrightarrow> document_call_ok d c \<Longrightarrow> document_call_ok d' c"
  by (cases c) (auto simp: versions_kept_def split: option.splits)

lemma lawful_good:
  assumes "lawful_change X d d'" and "documents_good d cs" and "\<And>c. c \<in> set cs' \<Longrightarrow> c \<in> set cs"
  shows "documents_good d' cs' \<and> approvals_on d' \<subseteq> approvals_on d \<union> X"
  using assms document_call_kept [of d d'] by (simp add: lawful_change_def documents_good_def)

lemma lawful_same: "doc_versions d' = doc_versions d \<Longrightarrow> lawful_change X d d'"
  by (simp add: lawful_change_def versions_kept_def names_approved_def approvals_on_def versions_fine_def)

lemma lawful_trans: "lawful_change {} d d' \<Longrightarrow> lawful_change {} d' d'' \<Longrightarrow> lawful_change {} d d''"
  by (auto simp: lawful_change_def versions_kept_def)

lemma lawful_append:
  assumes "doc_versions d' = doc_versions d @ [v]" and "find_row dv_id (dv_id v) (doc_versions d) = None"
    and "dv_status v = Ver_draft" "dv_publishedAt v = None" "dv_approvedBy v = None"
  shows "lawful_change X d d'"
  using assms
  by (auto simp: lawful_change_def versions_fine_def version_ok_def versions_kept_def names_approved_def approvals_on_def
      approval_of_def keys_distinct_append_one find_row_append published_index_ok_def ver_in_force_def)

lemma lawful_map:
  assumes d': "doc_versions d' = map g (doc_versions d)" and index: "published_index_ok (doc_versions d')"
    and keep: "\<And>v. dv_id (g v) = dv_id v \<and> dv_documentId (g v) = dv_documentId v \<and>
        (dv_approvedBy v \<noteq> None \<longrightarrow> dv_approvedBy (g v) \<noteq> None)"
    and ok: "\<And>v. v \<in> set (doc_versions d) \<Longrightarrow> versions_fine d \<Longrightarrow> version_ok (g v) \<and> approval_of (g v) \<subseteq> approval_of v \<union> X"
  shows "lawful_change X d d'"
  unfolding lawful_change_def
proof (intro impI conjI)
  assume fine: "versions_fine d"
  show "versions_fine d'"
    using fine index keep ok by (auto simp: versions_fine_def d' keys_distinct_map)
  show "versions_kept d d'"
    using keep by (auto simp: versions_kept_def names_approved_def d' find_row_map)
  show "approvals_on d' \<subseteq> approvals_on d \<union> X"
    using ok [OF _ fine] by (fastforce simp: approvals_on_def d')
qed

lemma lawful_set_version:
  assumes run: "set_version i f d = Inr (x, d')"
    and keep: "\<And>v. dv_id (f v) = dv_id v \<and> dv_documentId (f v) = dv_documentId v \<and>
        (dv_approvedBy v \<noteq> None \<longrightarrow> dv_approvedBy (f v) \<noteq> None)"
    and ok: "\<And>v. find_row dv_id i (doc_versions d) = Some v \<Longrightarrow> version_ok v \<Longrightarrow>
        version_ok (f v) \<and> approval_of (f v) \<subseteq> approval_of v \<union> X"
  shows "lawful_change X d d'"
proof (rule lawful_map [where g = "\<lambda>v. if dv_id v = i then f v else v"])
  have r: "published_index_ok (modify_row dv_id i f (doc_versions d))"
      "d' = d\<lparr>doc_versions := modify_row dv_id i f (doc_versions d)\<rparr>"
    using run by (auto simp: set_version_Inr)
  then show "doc_versions d' = map (\<lambda>v. if dv_id v = i then f v else v) (doc_versions d)" "published_index_ok (doc_versions d')"
    by (simp_all add: modify_row_def update_where_def)
  fix v assume v: "v \<in> set (doc_versions d)" "versions_fine d"
  then have "find_row dv_id (dv_id v) (doc_versions d) = Some v"
    by (intro find_row_eqI) (simp_all add: versions_fine_def)
  then show "version_ok (if dv_id v = i then f v else v) \<and> approval_of (if dv_id v = i then f v else v) \<subseteq> approval_of v \<union> X"
    using ok [of v] v by (auto simp: versions_fine_def)
qed (use keep in auto)

section \<open>Every operation is a lawful change\<close>

lemma doc_record_versions [simp]: "doc_versions (doc_record actor act i d) = doc_versions d"
  by (simp add: doc_record_def)

lemma lawful_create_version:
  assumes "create_version now i k n body summary d = Inr (v, d')" and "find_row dv_id i (doc_versions d) = None"
    and "doc_versions d'' = doc_versions d'"
  shows "lawful_change {} d d''"
  by (rule lawful_append [where v = v]) (use assms in \<open>auto simp: create_version_def Let_def split: if_splits\<close>)

lemma lawful_patch:
  assumes "update_draft i body summary d = Inr (v, d')"
  shows "lawful_change {} d d'"
proof -
  let ?g = "\<lambda>v. if dv_id v = i \<and> dv_status v = Ver_draft then patch_content body summary v else v"
  have same: "dv_id (?g v) = dv_id v" "dv_documentId (?g v) = dv_documentId v" "dv_status (?g v) = dv_status v"
    "dv_approvedBy (?g v) = dv_approvedBy v" "dv_publishedAt (?g v) = dv_publishedAt v"
    "dv_supersededAt (?g v) = dv_supersededAt v" for v
    by (simp_all add: patch_content_def Let_def split: option.split)
  have d': "doc_versions d' = map ?g (doc_versions d)"
    using assms by (auto simp: update_draft_def Let_def update_where_def split: option.splits)
  show ?thesis
    unfolding lawful_change_def
  proof
    assume fine: "versions_fine d"
    have "published_index_ok (doc_versions d')"
      unfolding d' by (rule index_ok_map) (use fine same in \<open>auto simp: versions_fine_def ver_in_force_def\<close>)
    then have "lawful_change {} d d'"
    proof (rule lawful_map [OF d'])
      show "dv_id (?g v) = dv_id v \<and> dv_documentId (?g v) = dv_documentId v \<and>
          (dv_approvedBy v \<noteq> None \<longrightarrow> dv_approvedBy (?g v) \<noteq> None)" for v
        by (simp only: same simp_thms)
      show "version_ok (?g v) \<and> approval_of (?g v) \<subseteq> approval_of v \<union> {}" if "v \<in> set (doc_versions d)" for v
        using fine that by (simp only: version_ok_def approval_of_def same versions_fine_def) simp
    qed
    then show "versions_fine d' \<and> versions_kept d d' \<and> approvals_on d' \<subseteq> approvals_on d \<union> {}"
      using fine by (simp only: lawful_change_def simp_thms)
  qed
qed

lemma lawful_mark: "mark_in_review i q d = Inr (v, d') \<Longrightarrow> lawful_change {} d d'"
  unfolding mark_in_review_def
  by (rule lawful_set_version) (auto simp: version_ok_def approval_of_def)

lemma names_approved_row:
  "names_approved d v \<Longrightarrow> find_row dv_id (dv_id v) (doc_versions d) = Some u \<Longrightarrow> dv_approvedBy u \<noteq> None"
  by (auto simp: names_approved_def)

lemma lawful_publish:
  assumes run: "publish_replacing now v found due actor d = Inr (p, d')"
    and ok: "document_call_ok d (Replacing v found due actor)"
  shows "lawful_change {} d d'"
proof -
  obtain d1 d2 where first: "(case found of None \<Rightarrow> Inr d
        | Some current \<Rightarrow>
            if dv_id current = dv_id v then Inr d
            else and_then (set_version (dv_id current)
                     (\<lambda>v. v\<lparr>dv_status := Ver_superseded, dv_supersededAt := Some now\<rparr>) d) (\<lambda>(v, d'). Inr d')) = Inr d1"
    and second: "set_version (dv_id v)
        (\<lambda>v. v\<lparr>dv_status := Ver_published, dv_publishedAt := Some now, dv_reviewDueOn := due\<rparr>) d1 = Inr (p, d2)"
    and d': "d' = doc_record actor ''document.published'' (dv_id v) d2"
    using run by (auto simp: publish_replacing_def and_then_eq_Inr)
  have one: "lawful_change {} d d1"
  proof (cases "\<exists>c. found = Some c \<and> dv_id c \<noteq> dv_id v")
    case True
    then obtain c :: document_version and x where "set_version (dv_id c)
        (\<lambda>v. v\<lparr>dv_status := Ver_superseded, dv_supersededAt := Some now\<rparr>) d = Inr (x, d1)"
      using first by (auto simp: and_then_eq_Inr)
    then show ?thesis by (rule lawful_set_version) (auto simp: version_ok_def approval_of_def)
  next
    case False
    then show ?thesis using first by (auto intro: lawful_same split: option.splits if_splits)
  qed
  show ?thesis
    unfolding lawful_change_def
  proof
    assume fine: "versions_fine d"
    have "names_approved d1 v" using one fine ok by (simp add: lawful_change_def versions_kept_def)
    then have "lawful_change {} d1 d2"
      by (intro lawful_set_version [OF second]) (auto simp: version_ok_def approval_of_def dest: names_approved_row)
    then have "lawful_change {} d d'"
      using lawful_trans [OF lawful_trans [OF one] lawful_same] d' by simp
    then show "versions_fine d' \<and> versions_kept d d' \<and> approvals_on d' \<subseteq> approvals_on d \<union> {}"
      using fine by (simp add: lawful_change_def)
  qed
qed

lemma lawful_hook:
  assumes "closes document_type p rid u now st d = Inr d'"
  shows "lawful_change (if st = Approved then {(dp_versionId p, u)} else {}) d d'"
proof -
  note d' = document_closes [OF assms]
  let ?g = "\<lambda>v. if dv_id v = dp_versionId p then closing_update st u now v else v"
  have rows: "doc_versions d' = map ?g (doc_versions d)" by (simp add: d'(1) modify_row_def update_where_def)
  show ?thesis
    unfolding lawful_change_def
  proof
    assume fine: "versions_fine d"
    have index: "published_index_ok (doc_versions d')"
      unfolding rows by (rule index_ok_map) (use fine in \<open>auto simp: versions_fine_def ver_in_force_def\<close>)
    have closing: "(dv_approvedBy v \<noteq> None \<longrightarrow> dv_approvedBy (closing_update st u now v) \<noteq> None) \<and>
        (version_ok v \<longrightarrow> version_ok (closing_update st u now v)) \<and>
        approval_of (closing_update st u now v) \<subseteq> approval_of v \<union> (if st = Approved then {(dv_id v, u)} else {})" for v
      using d'(2,3) by (cases st) (simp_all add: closing_update_fun version_ok_def approval_of_def)
    have "lawful_change (if st = Approved then {(dp_versionId p, u)} else {}) d d'"
    proof (rule lawful_map [OF rows index])
      show "dv_id (?g v) = dv_id v \<and> dv_documentId (?g v) = dv_documentId v \<and>
          (dv_approvedBy v \<noteq> None \<longrightarrow> dv_approvedBy (?g v) \<noteq> None)" for v
        using closing [of v] by simp
      show "version_ok (?g v) \<and> approval_of (?g v) \<subseteq> approval_of v \<union> (if st = Approved then {(dp_versionId p, u)} else {})"
        if "v \<in> set (doc_versions d)" for v
        using closing [of v] fine that
        by (cases "dv_id v = dp_versionId p"; cases "st = Approved") (auto simp: versions_fine_def)
    qed
    then show "versions_fine d' \<and> versions_kept d d' \<and>
        approvals_on d' \<subseteq> approvals_on d \<union> (if st = Approved then {(dp_versionId p, u)} else {})"
      using fine by (simp add: lawful_change_def)
  qed
qed

lemma found_approved:
  assumes "versions_fine d" and "find_published k d = Some c"
  shows "names_approved d c \<and> dv_documentId c = k"
proof -
  have c: "c \<in> set (doc_versions d)" "dv_documentId c = k" "dv_status c = Ver_published"
    using assms(2) by (auto simp: find_published_def find_Some_iff)
  then have "dv_approvedBy c \<noteq> None" using assms(1) by (auto simp: versions_fine_def version_ok_def)
  moreover have "find_row dv_id (dv_id c) (doc_versions d) = Some c"
    using assms(1) c(1) by (intro find_row_eqI) (simp_all add: versions_fine_def)
  ultimately show ?thesis using c(2) by (simp add: names_approved_def)
qed

lemma looked_approved:
  assumes "versions_fine d" and "publishable i d = Inr v"
  shows "names_approved d v"
proof -
  have v: "find_row dv_id i (doc_versions d) = Some v"
    using assms(2) by (auto simp: publishable_def must_get_version_def and_then_eq_Inr split: option.splits if_splits)
  moreover have "dv_status v = Ver_approved"
    using assms(2) by (auto simp: publishable_def and_then_eq_Inr split: if_splits)
  ultimately have "dv_approvedBy v \<noteq> None" "dv_id v = i"
    using find_row_Some [OF v] assms(1) by (auto simp: versions_fine_def version_ok_def)
  then show ?thesis using v by (simp add: names_approved_def)
qed

lemma document_own_lawful:
  assumes "document_own d cs d' cs'" and good: "documents_good d cs"
  shows "lawful_change {} d d' \<and> (\<forall>c \<in> set cs'. c \<in> set cs \<or> document_call_ok d c)"
  using assms(1)
proof cases
  case (dw_create now i vid input actor row)
  then obtain v d1 where c: "create_version now vid i 1 (dc_body input) None (d\<lparr>doc_documents := doc_documents d @ [row]\<rparr>) = Inr (v, d1)"
      and d': "doc_versions d' = doc_versions d1"
    by (auto simp: create_document_def Let_def and_then_eq_Inr split: if_splits)
  have "lawful_change {} (d\<lparr>doc_documents := doc_documents d @ [row]\<rparr>) d'"
    by (rule lawful_create_version [OF c _ d']) (simp add: dw_create)
  then show ?thesis
    using dw_create(1) lawful_trans [OF lawful_same [of "d\<lparr>doc_documents := doc_documents d @ [row]\<rparr>" d]] by simp
next
  case (dw_update vid body summary v)
  then show ?thesis using lawful_patch by simp
next
  case (dw_retire now i actor)
  then show ?thesis by (auto simp: retire_document_def and_then_eq_Inr intro: lawful_same split: if_splits)
next
  case (dw_draft_number i body summary actor)
  then show ?thesis by (auto intro: lawful_same dest: set_remove1_subset [THEN subsetD])
next
  case (dw_draft i n body summary actor now vid v d1)
  have "lawful_change {} d d'" by (rule lawful_create_version [OF dw_draft(4,5)]) (simp add: dw_draft(1))
  then show ?thesis using dw_draft(2) by (auto dest: set_remove1_subset [THEN subsetD])
next
  case (dw_mark vid q v)
  then show ?thesis using lawful_mark by (auto dest: set_remove1_subset [THEN subsetD])
next
  case (dw_publish_look vid v actor due)
  then show ?thesis using good looked_approved [of d vid v] by (auto simp: documents_good_def intro: lawful_same)
next
  case (dw_publish_read v due actor)
  have "names_approved d v" using good dw_publish_read(3) by (auto simp: documents_good_def)
  then have "document_call_ok d (Replacing v (find_published (dv_documentId v) d) due actor)"
    using good found_approved [of d "dv_documentId v"] by (simp add: documents_good_def split: option.split)
  then show ?thesis using dw_publish_read(1,2) lawful_same [of d' d] by (auto dest: set_remove1_subset [THEN subsetD])
next
  case (dw_publish v found due actor now p)
  have "document_call_ok d (Replacing v found due actor)" using good dw_publish(2) unfolding documents_good_def by blast
  then show ?thesis
    using dw_publish(1) lawful_publish [OF dw_publish(3)] by (auto dest: set_remove1_subset [THEN subsetD])
next
  case (dw_acknowledge vid actor now b)
  then show ?thesis
    by (auto simp: acknowledge_commit_def intro!: lawful_same split: if_splits dest: set_remove1_subset [THEN subsetD])
qed (auto intro: lawful_same)

interpretation document_approvals: released_by_approval document_registry document_own document_filing document_filed
    documents_start dp_versionId approvals_on documents_good "\<lambda>d p. True"
proof unfold_locales
  fix def assume "def \<in> set document_registry"
  then show "td_approvalSteps def = None \<and> td_onSubmit def = None \<and> \<not> td_allowSelfApproval def"
    by (simp add: set_document_registry document_type_def)
next
  fix d assume "documents_start d"
  then show "documents_good d [] \<and> approvals_on d = {}"
    by (simp add: documents_start_def documents_good_def versions_fine_def keys_distinct_def published_index_ok_def
        approvals_on_def)
next
  fix d cs d' cs' assume a: "document_own d cs d' cs'" "documents_good d cs"
  note l = document_own_lawful [OF a]
  then have "versions_kept d d'" using a(2) by (simp add: lawful_change_def documents_good_def)
  then have "document_call_ok d' c" if "c \<in> set cs'" for c
    using that l a(2) document_call_kept by (auto simp: documents_good_def)
  then show "documents_good d' cs' \<and> approvals_on d' \<subseteq> approvals_on d \<and> (\<forall>p. True \<longrightarrow> True)"
    using l a(2) by (simp add: lawful_change_def documents_good_def)
next
  fix def p rid u now st d d' cs
  assume "def \<in> set document_registry" "closes def p rid u now st d = Inr d'" "documents_good d cs"
  then show "documents_good d' cs \<and> approvals_on d' \<subseteq> approvals_on d \<union> (if st = Approved then {(dp_versionId p, u)} else {}) \<and>
      (\<forall>q. True \<longrightarrow> True)"
    using lawful_good [OF lawful_hook] by (simp only: set_document_registry) simp
next
  fix c cs ty p actor opts d i
  assume "c \<in> set cs" "document_filing c = Some (ty, p, actor, opts)" "documents_good d cs"
  then show "True \<and> documents_good d (remove1 c cs @ [document_filed c i])"
    by (cases c rule: document_call.exhaust) (auto simp: documents_good_def dest: set_remove1_subset [THEN subsetD])
next
  fix c cs d assume "c \<in> set cs" "documents_good d cs"
  then show "documents_good d (remove1 c cs)"
    by (auto simp: documents_good_def dest: set_remove1_subset [THEN subsetD])
qed

lemma documents_world:
  assumes "documents_reachable w"
  shows "documents_good (world_tables w) (snd w)"
    and "v \<in> set (doc_versions (world_tables w)) \<Longrightarrow> dv_approvedBy v = Some u \<Longrightarrow>
      approved_by dp_versionId (world_db w) (dv_id v) u"
proof -
  have e: "document_approvals.earned_world w" by (rule document_approvals.reachable_earned [OF assms])
  then show "documents_good (world_tables w) (snd w)" by (simp add: document_approvals.earned_world_def)
  assume "v \<in> set (doc_versions (world_tables w))" "dv_approvedBy v = Some u"
  then have "(dv_id v, u) \<in> approvals_on (world_tables w)" by (auto simp: approvals_on_def approval_of_def)
  then show "approved_by dp_versionId (world_db w) (dv_id v) u"
    using e by (auto simp: document_approvals.earned_world_def)
qed

section \<open>What the two writes of a publication come to\<close>

definition replace_row ::
    "int \<Rightarrow> string option \<Rightarrow> document_version \<Rightarrow> document_version option \<Rightarrow> document_version \<Rightarrow> document_version" where
  "replace_row now due version found u =
     (if dv_id u = dv_id version
      then u\<lparr>dv_status := Ver_published, dv_publishedAt := Some now, dv_reviewDueOn := due\<rparr>
      else if map_option dv_id found = Some (dv_id u)
      then u\<lparr>dv_status := Ver_superseded, dv_supersededAt := Some now\<rparr>
      else u)"

text \<open>Another version of the document is in force, which the publication has not read, and the version to be
  published has not been superseded.\<close>

definition stands_in_the_way :: "documents_db \<Rightarrow> document_version \<Rightarrow> document_version option \<Rightarrow> bool" where
  "stands_in_the_way d version found \<longleftrightarrow>
     (\<exists>u \<in> set (doc_versions d). dv_documentId u = dv_documentId version \<and> ver_in_force u \<and>
        dv_id u \<noteq> dv_id version \<and> map_option dv_id found \<noteq> Some (dv_id u)) \<and>
     (\<exists>v \<in> set (doc_versions d). dv_id v = dv_id version \<and> dv_supersededAt v = None)"

lemma replace_row_simps [simp]:
  "dv_id (replace_row now due v found u) = dv_id u" "dv_documentId (replace_row now due v found u) = dv_documentId u"
  by (simp_all add: replace_row_def)

lemma replace_row_in_force:
  "ver_in_force (replace_row now due version found u) \<longleftrightarrow>
     (if dv_id u = dv_id version then dv_supersededAt u = None
      else map_option dv_id found \<noteq> Some (dv_id u) \<and> ver_in_force u)"
  by (auto simp: replace_row_def ver_in_force_def)

lemma replace_index:
  assumes fine: "versions_fine d" and v: "v \<in> set (doc_versions d)" "dv_id v = dv_id version"
    "dv_documentId v = dv_documentId version"
  shows "published_index_ok (map (replace_row now due version found) (doc_versions d)) \<longleftrightarrow>
    \<not> stands_in_the_way d version found"
proof -
  let ?g = "replace_row now due version found" and ?vs = "doc_versions d"
  have keys: "keys_distinct dv_id ?vs" "keys_distinct dv_id (map ?g ?vs)"
    using fine by (simp_all add: versions_fine_def keys_distinct_map)
  have only: "u = v" if "u \<in> set ?vs" "dv_id u = dv_id version" for u
    using version_table.wf_member_unique [OF keys(1) that(1) v(1)] that(2) v(2) by simp
  have inj: "u = w" if "u \<in> set ?vs" "w \<in> set ?vs" "ver_in_force u" "ver_in_force w" "dv_documentId u = dv_documentId w" for u w
    using fine index_inj [OF keys(1)] that by (auto simp: versions_fine_def dest: inj_onD)
  have index: "published_index_ok (map ?g ?vs) \<longleftrightarrow>
      (\<forall>u \<in> set ?vs. \<forall>w \<in> set ?vs. ver_in_force (?g u) \<longrightarrow> ver_in_force (?g w) \<longrightarrow>
         dv_documentId u = dv_documentId w \<longrightarrow> ?g u = ?g w)"
  proof -
    have "{x \<in> set (map ?g ?vs). ver_in_force x} = ?g ` {u \<in> set ?vs. ver_in_force (?g u)}" by auto
    then show ?thesis
      unfolding index_inj [OF keys(2)] inj_on_def by (simp only: ball_simps replace_row_simps mem_Collect_eq) blast
  qed
  show ?thesis
  proof
    assume ok: "published_index_ok (map ?g ?vs)"
    show "\<not> stands_in_the_way d version found"
    proof
      assume "stands_in_the_way d version found"
      then obtain u x where u: "u \<in> set ?vs" "dv_documentId u = dv_documentId version" "ver_in_force u"
          "dv_id u \<noteq> dv_id version" "map_option dv_id found \<noteq> Some (dv_id u)"
        and x: "x \<in> set ?vs" "dv_id x = dv_id version" "dv_supersededAt x = None"
        unfolding stands_in_the_way_def by blast
      have "x = v" by (rule only [OF x(1,2)])
      moreover have "ver_in_force (?g u)" "ver_in_force (?g v)"
        using u x \<open>x = v\<close> v(2) by (simp_all add: replace_row_in_force)
      ultimately have "?g u = ?g v"
        using ok [unfolded index, rule_format, OF u(1) v(1)] u(2) v(3) by simp
      then have "dv_id u = dv_id v" by (metis replace_row_simps(1))
      then show False using u(4) v(2) by simp
    qed
  next
    assume free: "\<not> stands_in_the_way d version found"
    have step: "?g u = ?g w" if "u \<in> set ?vs" "w \<in> set ?vs" "ver_in_force (?g u)" "ver_in_force (?g w)"
        "dv_documentId u = dv_documentId w" for u w
    proof (cases "dv_id u = dv_id version"; cases "dv_id w = dv_id version")
      assume "dv_id u = dv_id version" "dv_id w = dv_id version"
      then show ?thesis using only that(1,2) by metis
    next
      assume a: "dv_id u = dv_id version" "dv_id w \<noteq> dv_id version"
      then have "u = v" using only that(1) by simp
      then show ?thesis
        using free that a v unfolding stands_in_the_way_def by (auto simp: replace_row_in_force)
    next
      assume a: "dv_id u \<noteq> dv_id version" "dv_id w = dv_id version"
      then have "w = v" using only that(2) by simp
      then show ?thesis
        using free that a v unfolding stands_in_the_way_def by (auto simp: replace_row_in_force)
    next
      assume a: "dv_id u \<noteq> dv_id version" "dv_id w \<noteq> dv_id version"
      then have "u = w" using inj [OF that(1,2)] that(3-5) by (simp add: replace_row_in_force)
      then show ?thesis by simp
    qed
    then show "published_index_ok (map ?g ?vs)" unfolding index by blast
  qed
qed

lemma publish_replacing_spec:
  assumes fine: "versions_fine d" and v: "find_row dv_id (dv_id version) (doc_versions d) = Some v"
    and doc: "dv_documentId v = dv_documentId version"
  shows "publish_replacing now version found due actor d =
    (if stands_in_the_way d version found then Inl (ThrownError ''uq_document_published_version'')
     else Inr (Some (replace_row now due version found v),
        doc_record actor ''document.published'' (dv_id version)
          (d\<lparr>doc_versions := map (replace_row now due version found) (doc_versions d)\<rparr>)))"
proof -
  let ?g = "replace_row now due version found" and ?vs = "doc_versions d"
  let ?pub = "\<lambda>v. v\<lparr>dv_status := Ver_published, dv_publishedAt := Some now, dv_reviewDueOn := due\<rparr>"
  let ?sup = "\<lambda>v. v\<lparr>dv_status := Ver_superseded, dv_supersededAt := Some now\<rparr>"
  have m: "v \<in> set ?vs" "dv_id v = dv_id version" using find_row_Some [OF v] by auto
  note index = replace_index [OF fine m doc, of now due found]
  have row: "find_row dv_id (dv_id version) (map ?g ?vs) = Some (?g v)" using v by (simp add: find_row_map)
  have second: "set_version (dv_id version) ?pub d1 =
      (if stands_in_the_way d version found then Inl (ThrownError ''uq_document_published_version'')
       else Inr (Some (?g v), d1\<lparr>doc_versions := map ?g ?vs\<rparr>))"
    if "modify_row dv_id (dv_id version) ?pub (doc_versions d1) = map ?g ?vs" for d1
    using that index row by (simp add: set_version_def Let_def)
  show ?thesis
  proof (cases "\<exists>c. found = Some c \<and> dv_id c \<noteq> dv_id version")
    case True
    then obtain c where c: "found = Some c" "dv_id c \<noteq> dv_id version" by blast
    have "published_index_ok (modify_row dv_id (dv_id c) ?sup ?vs)"
      by (rule index_ok_retreat) (use fine in \<open>simp_all add: versions_fine_def ver_in_force_def\<close>)
    moreover have "modify_row dv_id (dv_id version) ?pub (modify_row dv_id (dv_id c) ?sup ?vs) = map ?g ?vs"
      using c by (auto simp: modify_row_def update_where_def replace_row_def)
    ultimately show ?thesis
      using c second [of "d\<lparr>doc_versions := modify_row dv_id (dv_id c) ?sup ?vs\<rparr>"]
      by (simp add: publish_replacing_def set_version_def [of "dv_id c"] Let_def)
  next
    case False
    then have "modify_row dv_id (dv_id version) ?pub ?vs = map ?g ?vs"
      by (cases found) (auto simp: modify_row_def update_where_def replace_row_def)
    then have "set_version (dv_id version) ?pub d =
      (if stands_in_the_way d version found then Inl (ThrownError ''uq_document_published_version'')
       else Inr (Some (?g v), d\<lparr>doc_versions := map ?g ?vs\<rparr>))" by (rule second)
    then show ?thesis
      using False by (cases found) (simp_all add: publish_replacing_def)
  qed
qed

section \<open>One call after another is one of the interleavings\<close>

lemma alone_own:
  assumes "documents_reachable ((db, fl), cs)" and "document_own (domain_db db) cs d' cs'"
  shows "documents_reachable ((with_domain d' db, fl), cs')"
  unfolding with_domain_def by (rule module_next [OF assms(1)]) (rule ms_own, rule assms(2))

lemma alone_look:
  assumes "documents_reachable ((db, fl), cs)" and "document_own (domain_db db) cs (domain_db db) cs'"
  shows "documents_reachable ((db, fl), cs')"
  using alone_own [OF assms] by (simp add: with_domain_def)

lemma alone_flight:
  assumes w: "documents_reachable ((db, []), cs)" and opened: "race_step document_registry (db, []) (db, [f])"
    and commit: "commit_flight env i f db = Inr db'"
  shows "documents_reachable ((db', []), cs)"
proof -
  have "documents_reachable ((db, [f]), cs)" by (rule module_next [OF w]) (rule ms_begin [OF opened])
  then have "documents_reachable ((db', remove1 f [f]), cs)" by (rule module_next) (rule ms_commit [OF _ commit], simp)
  then show ?thesis by simp
qed

lemma alone_closing:
  assumes w: "documents_reachable ((db, []), cs)" and call: "closing_call document_registry db db'"
  shows "documents_reachable ((db', []), cs)"
  using call
proof cases
  case (call_approve env i rid nt actor)
  then obtain ctx where c: "approve_check env document_registry rid actor db = Inr ctx" "approve_commit env i nt actor ctx db = Inr db'"
    by (auto simp: approve_def and_then_eq_Inr)
  show ?thesis
    by (rule alone_flight [OF w, where f = "Approving ctx nt actor" and env = env and i = i])
      (use c race_begin_approve [OF c(1), of "[]" nt] in simp_all)
next
  case (call_reject env i rid nt actor)
  then obtain ctx where c: "reject_check env document_registry rid actor db = Inr ctx" "reject_commit env i nt actor ctx db = Inr db'"
    by (auto simp: reject_def and_then_eq_Inr)
  show ?thesis
    by (rule alone_flight [OF w, where f = "Rejecting ctx nt actor" and env = env and i = i])
      (use c race_begin_reject [OF c(1), of "[]" nt] in simp_all)
next
  case (call_cancel env rid actor)
  then obtain c where c: "cancel_check env document_registry rid actor db = Inr c" "cancel_commit env actor c db = Inr db'"
    by (auto simp: cancel_def and_then_eq_Inr)
  show ?thesis
    by (rule alone_flight [OF w, where f = "Cancelling c actor" and env = env])
      (use c race_begin_cancel [OF c(1), of "[]"] in simp_all)
next
  case (call_expire env rid)
  then obtain found where c: "expire_check document_registry rid db = Inr found"
      "(case found of None \<Rightarrow> Inr db | Some ctx \<Rightarrow> expire_commit env ctx db) = Inr db'"
    by (auto simp: expire_def and_then_eq_Inr)
  show ?thesis
  proof (cases found)
    case None
    then show ?thesis using w c by simp
  next
    case (Some ctx)
    show ?thesis
      by (rule alone_flight [OF w, where f = "Expiring ctx" and env = env])
        (use c Some race_begin_expire [of document_registry rid db ctx "[]"] in simp_all)
  qed
qed

lemma alone_submit:
  assumes w: "documents_reachable ((db, []), [])" and run: "submit_for_approval env q vid actor db = (res, db')"
    and fresh: "find_row ri_id q (items db) = None" "\<forall>a \<in> set (approvals db). ap_requestId a \<noteq> q"
  shows "documents_reachable ((db', []), [])"
proof (cases "submittable vid (domain_db db)")
  case (Inl e)
  then show ?thesis using w run by (simp add: submit_for_approval_def)
next
  case look: (Inr vd)
  obtain v row where vd: "vd = (v, row)" by (cases vd)
  have id: "dv_id v = vid"
    using look vd by (auto simp: submittable_def must_get_version_def and_then_eq_Inr dest!: find_row_Some split: option.splits if_splits)
  show ?thesis
  proof (cases "file_version env q vd actor db")
    case (Inl e)
    then show ?thesis using w run look by (simp add: submit_for_approval_def)
  next
    case (Inr r)
    obtain item db1 where f: "file_version env q vd actor db = Inr (item, db1)" using Inr by (cases r) auto
    note s = f [unfolded file_version_def vd fst_conv snd_conv]
    have item: "ri_id item = q" by (rule submit_shape [OF s])
    let ?c = "Filing (document_payload_of v row) actor"
    have "documents_reachable ((db, []), [?c])"
      using alone_look [OF w dw_submit_look [of vid "domain_db db" v row "[]"]] look vd by simp
    then have "documents_reachable ((db1, []), remove1 ?c [?c] @ [document_filed ?c q])"
      by (rule module_next) (rule ms_file [OF _ _ s fresh], simp_all)
    then have marking: "documents_reachable ((db1, []), [Under_review vid q])"
      by (simp add: document_payload_of_def id)
    show ?thesis
    proof (cases "mark_in_review vid q (domain_db db1)")
      case (Inl e)
      have "documents_reachable ((db1, []), remove1 (Under_review vid q) [Under_review vid q])"
        by (rule module_next [OF marking]) (rule ms_stop, simp)
      then show ?thesis using run look f Inl by (simp add: submit_for_approval_def item)
    next
      case (Inr p)
      obtain x d' where p: "p = (x, d')" by (cases p)
      have "document_own (domain_db db1) [Under_review vid q] d' []"
        using dw_mark [of vid q "[Under_review vid q]" "domain_db db1" x d'] Inr p by simp
      from alone_own [OF marking this] show ?thesis
        using run look f Inr p by (simp add: submit_for_approval_def item with_domain_def)
    qed
  qed
qed

lemma alone_draft:
  assumes w: "documents_reachable ((db, []), [])" and run: "create_draft now vid i body summary actor (domain_db db) = Inr (v, d')"
    and fresh: "find_row dv_id vid (doc_versions (domain_db db)) = None"
  shows "documents_reachable ((with_domain d' db, []), [])"
proof -
  let ?d = "domain_db db" and ?a = "Drafting i body summary actor"
  let ?b = "Numbering i (max_version i (domain_db db) + 1) body summary actor"
  obtain row d1 where r: "get_document i ?d = Inr row" "create_version now vid i (max_version i ?d + 1) body summary ?d = Inr (v, d1)"
      and d': "d' = doc_record actor ''document.draft_created'' (dv_id v) d1"
    using run by (auto simp: create_draft_def and_then_eq_Inr)
  have "documents_reachable ((db, []), [?a])" using alone_look [OF w dw_draft_look [OF r(1)]] by simp
  from alone_look [OF this dw_draft_number [of i body summary actor "[?a]"]]
  have "documents_reachable ((db, []), [?b])" by simp
  from alone_own [OF this dw_draft [OF _ r(2) fresh, of actor "[?b]"]] show ?thesis using d' by simp
qed

lemma alone_publish:
  assumes w: "documents_reachable ((db, []), [])" and run: "publish now vid due actor (domain_db db) = Inr (p, d')"
  shows "documents_reachable ((with_domain d' db, []), [])"
proof -
  let ?d = "domain_db db"
  obtain v where v: "publishable vid ?d = Inr v"
      "publish_replacing now v (find_published (dv_documentId v) ?d) due actor ?d = Inr (p, d')"
    using run by (auto simp: publish_def publish_commit_def and_then_eq_Inr)
  let ?a = "Publishing v due actor" and ?b = "Replacing v (find_published (dv_documentId v) (domain_db db)) due actor"
  have "documents_reachable ((db, []), [?a])" using alone_look [OF w dw_publish_look [OF v(1)]] by simp
  from alone_look [OF this dw_publish_read [of v due actor "[?a]"]]
  have "documents_reachable ((db, []), [?b])" by simp
  from alone_own [OF this dw_publish [OF _ v(2), of "[?b]"]] show ?thesis by simp
qed

lemma alone_acknowledge:
  assumes w: "documents_reachable ((db, []), [])" and run: "acknowledge now vid actor (domain_db db) = Inr (b, d')"
  shows "documents_reachable ((with_domain d' db, []), [])"
proof -
  let ?d = "domain_db db" and ?a = "Acknowledging vid actor"
  obtain v where v: "acknowledgeable vid ?d = Inr v"
      "acknowledge_commit now vid actor ?d = (b, d')"
    using run by (auto simp: acknowledge_def and_then_eq_Inr)
  have "documents_reachable ((db, []), [?a])" using alone_look [OF w dw_acknowledge_look [OF v(1)]] by simp
  from alone_own [OF this dw_acknowledge [OF _ v(2), of "[?a]"]] show ?thesis by simp
qed

lemma alone_step:
  assumes "doc_step db db'" and w: "documents_reachable ((db, []), [])"
  shows "documents_reachable ((db', []), [])"
  using assms(1)
proof cases
  case (ds_create now i vid input actor row d')
  then show ?thesis using alone_own [OF w dw_create] by simp
next
  case (ds_draft now vid i body summary actor v d')
  then show ?thesis using alone_draft [OF w] by simp
next
  case (ds_update vid body summary v d')
  then show ?thesis using alone_own [OF w dw_update] by simp
next
  case (ds_retire now i actor d')
  then show ?thesis using alone_own [OF w dw_retire] by simp
next
  case (ds_submit env engineId vid actor res)
  then show ?thesis using alone_submit [OF w] by simp
next
  case (ds_publish now vid due actor v d')
  then show ?thesis using alone_publish [OF w] by simp
next
  case (ds_acknowledge now vid actor b d')
  then show ?thesis using alone_acknowledge [OF w] by simp
next
  case ds_engine
  then show ?thesis using alone_closing [OF w] by simp
next
  case (ds_breach now item)
  then show ?thesis using module_next [OF w ms_breach] by simp
qed

lemma alone_reachable: "doc_reachable db \<Longrightarrow> documents_reachable ((db, []), [])"
proof (induction rule: doc_reachable.induct)
  case (doc_start db)
  then show ?case by (simp add: doc_init_def module_start documents_start_def)
next
  case (doc_next db db')
  then show ?case using alone_step by blast
qed

end
