(* ===== verification/DocumentProperties.thy ===== *)
theory DocumentProperties
  imports DocumentRaces
begin

text \<open>
  Claims on the document library: who stands behind the version in force, what publication does, what a
  reader owes, and the two ways a version gets stuck.
\<close>

lemma reachable_races: "engine_reachable reg db \<Longrightarrow> race_reachable reg (db, [])"
  by (induction rule: engine_reachable.induct) (auto intro: race_init race_next race_call)

section \<open>Claims\<close>

text \<open>With one call at a time a version in force is the only one of its document, and the request behind it is
  approved.\<close>

lemma undisturbed_version_was_approved:
  assumes "doc_reachable db" and "v \<in> set (doc_versions (domain_db db))" and "ver_in_force v"
  shows "(\<forall>u \<in> set (doc_versions (domain_db db)).
      ver_in_force u \<and> dv_documentId u = dv_documentId v \<longrightarrow> u = v) \<and>
    (\<exists>r \<in> set (items db). \<exists>a \<in> set (approvals db).
       dp_versionId (ri_payload r) = dv_id v \<and> ri_status r = Approved \<and> ap_requestId a = ri_id r \<and>
       ap_decision a = Decision_approved \<and>
       ri_requesterId r \<noteq> (case ap_delegatedFromId a of None \<Rightarrow> ap_approverId a | Some u \<Rightarrow> u))"
proof
  have inv: "doc_inv db" by (rule doc_inv_reachable [OF assms(1)])
  then have t: "tables_ok (domain_db db)" by (simp add: doc_inv_def)
  then have inj: "inj_on dv_documentId {u \<in> set (doc_versions (domain_db db)). ver_in_force u}"
    using index_inj by (auto simp: tables_ok_def)
  then show "\<forall>u \<in> set (doc_versions (domain_db db)).
      ver_in_force u \<and> dv_documentId u = dv_documentId v \<longrightarrow> u = v"
    using assms(2,3) inj_onD [OF inj] by auto
  have pub: "dv_status v = Ver_published" using t assms(2,3) by (simp add: tables_ok_def dates_in_force)
  moreover have "dv_status v = Ver_draft \<longleftrightarrow> (\<forall>r \<in> set (items db). dp_versionId (ri_payload r) \<noteq> dv_id v)"
    using inv assms(2) by (simp add: doc_inv_def drafts_unfiled_def)
  ultimately obtain r where r: "r \<in> set (items db)" "dp_versionId (ri_payload r) = dv_id v" by auto
  have "find_row dv_id (dv_id v) (doc_versions (domain_db db)) = Some v"
    using t assms(2) find_row_eqI by (auto simp: tables_ok_def)
  then have approved: "ri_status r = Approved"
    using targeted_version [OF inv r(1)] r(2) pub by (cases "ri_status r") auto
  have e: "engine_inv document_registry db"
    by (rule engine_inv_reachable [OF doc_reachable_engine [OF assms(1)]])
  have ie: "item_ok r" "decisions_of db (ri_id r) = expected_log r" using e r(1) by (auto simp: engine_inv_def)
  then have "(1, Decision_approved) \<in> set (decisions_of db (ri_id r))"
    using approved by (auto simp: expected_log_def steps_approved_def item_ok_def)
  then obtain a where a: "a \<in> set (approvals db)" "ap_requestId a = ri_id r" "ap_decision a = Decision_approved"
    by (auto simp: decisions_of_def)
  have "duties_separated document_registry (items db) a"
    using race_inv_reachable [OF reachable_races [OF doc_reachable_engine [OF assms(1)]]] a(1)
    by (simp add: race_inv_def)
  moreover have "find_row ri_id (ri_id r) (items db) = Some r"
    using find_row_eqI [of ri_id "items db" r] e r(1) by (simp add: engine_inv_def)
  ultimately have "ri_requesterId r \<noteq> answered_for a"
    using a(2) by (auto simp: duties_separated_def document_registry_get document_type_def)
  then show "\<exists>r \<in> set (items db). \<exists>a \<in> set (approvals db).
       dp_versionId (ri_payload r) = dv_id v \<and> ri_status r = Approved \<and> ap_requestId a = ri_id r \<and>
       ap_decision a = Decision_approved \<and>
       ri_requesterId r \<noteq> (case ap_delegatedFromId a of None \<Rightarrow> ap_approverId a | Some u \<Rightarrow> u)"
    using r a approved unfolding answered_for_def by blast
qed


text \<open>C17. However calls interleave, a version in force is the only one of its document, and the person it names
  as approver is on record with an approval of a request about that very version, made for somebody other
  than the one who filed it. That the request itself still stands as approved is true when calls run one
  at a time; interleaved, a late rejection can follow the approval.\<close>

theorem version_in_force_was_approved:
  assumes "documents_reachable w" and "v \<in> set (doc_versions (world_tables w))" and "ver_in_force v"
  shows "(\<forall>u \<in> set (doc_versions (world_tables w)).
      ver_in_force u \<and> dv_documentId u = dv_documentId v \<longrightarrow> u = v) \<and>
    (\<exists>u. dv_approvedBy v = Some u \<and> approved_by dp_versionId (world_db w) (dv_id v) u) \<and>
    (doc_reachable (world_db w) \<longrightarrow>
      (\<exists>r \<in> set (items (world_db w)). dp_versionId (ri_payload r) = dv_id v \<and> ri_status r = Approved))"
proof (intro conjI impI)
  have fine: "versions_fine (world_tables w)" using documents_world(1) [OF assms(1)] by (simp add: documents_good_def)
  then have "inj_on dv_documentId {u \<in> set (doc_versions (world_tables w)). ver_in_force u}"
    using index_inj by (auto simp: versions_fine_def)
  then show "\<forall>u \<in> set (doc_versions (world_tables w)). ver_in_force u \<and> dv_documentId u = dv_documentId v \<longrightarrow> u = v"
    using assms(2,3) by (auto dest: inj_onD)
  have "dv_approvedBy v \<noteq> None"
    using fine assms(2,3) by (auto simp: versions_fine_def version_ok_def ver_in_force_def)
  then show "\<exists>u. dv_approvedBy v = Some u \<and> approved_by dp_versionId (world_db w) (dv_id v) u"
    using documents_world(2) [OF assms(1,2)] by blast
  show "\<exists>r \<in> set (items (world_db w)). dp_versionId (ri_payload r) = dv_id v \<and> ri_status r = Approved"
    if "doc_reachable (world_db w)"
    using undisturbed_version_was_approved [OF that assms(2,3)] by blast
qed


text \<open>Acknowledging a version takes exactly that version off the list of what the reader owes and
  leaves every other reader's list as it was; acknowledging twice changes nothing.\<close>

theorem acknowledgement_settles_one_version:
  assumes "acknowledge now i actor d = Inr (already, d')"
  shows "set (list_outstanding (ac_sub actor) d') =
      {q \<in> set (list_outstanding (ac_sub actor) d). fst (snd (snd (snd (snd q)))) \<noteq> i} \<and>
    (u \<noteq> ac_sub actor \<longrightarrow> list_outstanding u d' = list_outstanding u d) \<and>
    acknowledge now' i actor d' = Inr (True, d')"
proof -
  obtain v where v: "find_row dv_id i (doc_versions d) = Some v" "dv_status v = Ver_published" "dv_supersededAt v = None"
    using assms by (auto simp: acknowledge_def acknowledgeable_def acknowledge_commit_def must_get_version_def and_then_eq_Inr split: option.splits if_splits)
  have same: "doc_versions d' = doc_versions d" "doc_documents d' = doc_documents d"
    using assms by (auto simp: acknowledge_def acknowledgeable_def acknowledge_commit_def and_then_eq_Inr split: if_splits)
  have acks: "(\<exists>a \<in> set (doc_acks d'). ak_versionId a = w \<and> ak_employeeId a = e) \<longleftrightarrow>
      (w = i \<and> e = ac_sub actor) \<or> (\<exists>a \<in> set (doc_acks d). ak_versionId a = w \<and> ak_employeeId a = e)" for w e
    using assms by (auto simp: acknowledge_def acknowledgeable_def acknowledge_commit_def and_then_eq_Inr split: if_splits)
  have owes': "owes e d' w row \<longleftrightarrow> owes e d w row \<and> \<not> (dv_id w = i \<and> e = ac_sub actor)" for e w row
    unfolding owes_def acks by auto
  have "list_outstanding u d' = list_outstanding u d" if "u \<noteq> ac_sub actor"
    using that by (simp add: list_outstanding_def owes' same)
  moreover have "set (list_outstanding (ac_sub actor) d') =
      {q \<in> set (list_outstanding (ac_sub actor) d). fst (snd (snd (snd (snd q)))) \<noteq> i}"
    by (auto simp: list_outstanding_def owes' same image_iff)
  moreover have "acknowledge now' i actor d' = Inr (True, d')"
    using v acks [of i "ac_sub actor"] by (simp add: acknowledge_def acknowledgeable_def acknowledge_commit_def must_get_version_def same)
  ultimately show ?thesis by blast
qed

text \<open>C19. When a rejection reaches a version that is already in force (a draft submitted twice has two
  requests), the document has no published version any more, yet the row still counts for the unique
  index: publishing any other version of the document fails.\<close>

theorem late_rejection_blocks_document:
  assumes "tables_ok d" and "find_row dv_id (dp_versionId p) (doc_versions d) = Some v" and "ver_in_force v"
    and "document_on_reject p rid u now d = Inr d'"
    and "find_row dv_id i (doc_versions d') = Some w" and "dv_status w = Ver_approved"
    and "dv_documentId w = dv_documentId v"
  shows "find_published (dv_documentId v) d' = None \<and>
    publish now' i due actor d' = Inl (ThrownError ''uq_document_published_version'')"
proof -
  let ?vs = "doc_versions d'"
  have keys: "keys_distinct dv_id (doc_versions d)" and idx: "published_index_ok (doc_versions d)"
    using assms(1) by (auto simp: tables_ok_def)
  have v: "v \<in> set (doc_versions d)" "dv_id v = dp_versionId p" using find_row_Some [OF assms(2)] by auto
  have vs: "?vs = modify_row dv_id (dp_versionId p) (\<lambda>v. v\<lparr>dv_status := Ver_rejected\<rparr>) (doc_versions d)"
    using assms(4) by (auto simp: document_on_reject_def and_then_eq_Inr set_version_Inr)
  have only: "x = v" if "x \<in> set (doc_versions d)" "ver_in_force x" "dv_documentId x = dv_documentId v" for x
    using that v(1) assms(3) idx index_inj [OF keys] by (auto dest: inj_onD)
  have old: "dates_ok x" if "x \<in> set (doc_versions d)" for x using assms(1) that by (simp add: tables_ok_def)
  have none: "find_published (dv_documentId v) d' = None"
    unfolding find_published_def find_None_iff vs set_modify_row
  proof clarify
    fix x assume x: "x \<in> set (doc_versions d)"
      and "dv_documentId (if dv_id x = dp_versionId p then x\<lparr>dv_status := Ver_rejected\<rparr> else x) = dv_documentId v"
      "dv_status (if dv_id x = dp_versionId p then x\<lparr>dv_status := Ver_rejected\<rparr> else x) = Ver_published"
    then have "dv_id x \<noteq> dv_id v" "dv_documentId x = dv_documentId v" "dv_status x = Ver_published"
      by (auto simp: v(2) split: if_splits)
    then show False using only [OF x] dates_in_force [OF old [OF x]] by auto
  qed
  have v': "v\<lparr>dv_status := Ver_rejected\<rparr> \<in> set ?vs" using v by (force simp: vs set_modify_row)
  have w: "w \<in> set ?vs" "dv_id w = i" using find_row_Some [OF assms(5)] by auto
  have ne: "dv_id v \<noteq> i"
  proof
    assume "dv_id v = i"
    then have "find_row dv_id i ?vs = Some (v\<lparr>dv_status := Ver_rejected\<rparr>)"
      using assms(2) v(2) by (simp add: vs version_table.lookup_modify)
    then show False using assms(5,6) by auto
  qed
  let ?pub = "\<lambda>v. v\<lparr>dv_status := Ver_published, dv_publishedAt := Some now', dv_reviewDueOn := due\<rparr>"
  have keys': "keys_distinct dv_id (modify_row dv_id i ?pub ?vs)"
    unfolding vs by (intro version_table.wf_modify keys) simp_all
  have sup: "dv_supersededAt w = None"
  proof -
    obtain x where x: "x \<in> set (doc_versions d)" "w = (if dv_id x = dp_versionId p then x\<lparr>dv_status := Ver_rejected\<rparr> else x)"
      using w(1) by (auto simp: vs set_modify_row)
    then have "w = x" using assms(6) by (auto split: if_splits)
    then show ?thesis using old [OF x(1)] assms(6) by (simp add: dates_ok_def)
  qed
  have "\<not> published_index_ok (modify_row dv_id i ?pub ?vs)"
  proof
    assume "published_index_ok (modify_row dv_id i ?pub ?vs)"
    then have inj: "inj_on dv_documentId {u \<in> set (modify_row dv_id i ?pub ?vs). ver_in_force u}"
      by (simp add: index_inj [OF keys'])
    have a: "v\<lparr>dv_status := Ver_rejected\<rparr> \<in> {u \<in> set (modify_row dv_id i ?pub ?vs). ver_in_force u}"
      using v' ne assms(3) by (force simp: set_modify_row ver_in_force_def)
    have b: "?pub w \<in> {u \<in> set (modify_row dv_id i ?pub ?vs). ver_in_force u}"
      using w sup by (force simp: set_modify_row ver_in_force_def)
    have "v\<lparr>dv_status := Ver_rejected\<rparr> = ?pub w"
      by (rule inj_onD [OF inj _ a b]) (simp add: assms(7))
    then have "dv_id (v\<lparr>dv_status := Ver_rejected\<rparr>) = dv_id (?pub w)" by (rule arg_cong)
    then show False using ne w(2) by simp
  qed
  then have "publish now' i due actor d' = Inl (ThrownError ''uq_document_published_version'')"
    using assms(5,6,7) none w(2) by (simp add: publish_def publishable_def must_get_version_def publish_commit_def publish_replacing_def set_version_def Let_def)
  with none show ?thesis by simp
qed

text \<open>Cancelling a request under review strands its version: the version stays in review for ever, so
  it can never again be edited, submitted, published or acknowledged.\<close>

theorem cancelled_review_strands_version:
  assumes "doc_reachable db" and "r \<in> set (items db)" and "ri_status r = Cancelled" and "rtranclp doc_step db db'"
  shows "\<exists>v. find_row dv_id (dp_versionId (ri_payload r)) (doc_versions (domain_db db')) = Some v \<and>
    dv_status v = Ver_in_review \<and>
    update_draft (dv_id v) body summary (domain_db db') = Inl (PreconditionFailedException ''PRECONDITION_FAILED'') \<and>
    submit_for_approval env q (dv_id v) actor db' = (Inl (PreconditionFailedException ''PRECONDITION_FAILED''), db') \<and>
    publish now (dv_id v) due actor (domain_db db') = Inl (PreconditionFailedException ''PRECONDITION_FAILED'') \<and>
    acknowledge now (dv_id v) actor (domain_db db') = Inl (PreconditionFailedException ''PRECONDITION_FAILED'')"
proof -
  let ?same = "\<lambda>r'. ri_status r' = Cancelled \<and> ri_payload r' = ri_payload r"
  have reach: "doc_reachable b \<and> (\<exists>r'. find_row ri_id (ri_id r) (items b) = Some r' \<and> ?same r')"
    if "rtranclp doc_step db b" for b
    using that
  proof (induction rule: rtranclp_induct)
    case base
    have "keys_distinct ri_id (items db)"
      using engine_inv_reachable [OF doc_reachable_engine [OF assms(1)]] by (simp add: engine_inv_def)
    then show ?case using assms(1-3) find_row_eqI [of ri_id "items db" r] by simp
  next
    case (step b c)
    have "\<exists>r'. find_row ri_id (ri_id r) (items y) = Some r' \<and> ?same r'"
      if "rtranclp (engine_step document_registry) b y" for y
      using that
    proof (induction rule: rtranclp_induct)
      case base
      then show ?case using step.IH by blast
    next
      case (step x y)
      then obtain r1 where r1: "find_row ri_id (ri_id r) (items x) = Some r1" "?same r1" by blast
      obtain ch where ch: "change_ok document_registry x ch" "items y = changed_items ch (items x)"
        by (rule engine_step_change [OF step.hyps(2)])
      obtain r2 where "find_row ri_id (ri_id r) (items y) = Some r2" "outcome_of r2 = outcome_of r1"
        unfolding ch(2) by (rule change_closed [OF ch(1) r1(1)]) (use r1(2) in auto)
      then show ?case using r1(2) by (auto simp: outcome_of_def filed_def)
    qed
    from this [OF doc_step_engine [OF step.hyps(2)]] show ?case
      using step.IH step.hyps(2) by (auto intro: doc_next)
  qed
  obtain r' where b: "doc_reachable db'" and r': "find_row ri_id (ri_id r) (items db') = Some r'" "?same r'"
    using reach [OF assms(4)] by blast
  obtain v where v: "find_row dv_id (dp_versionId (ri_payload r)) (doc_versions (domain_db db')) = Some v"
      "v \<in> set (doc_versions (domain_db db'))" "dv_status v = Ver_in_review"
    using targeted_version [OF doc_inv_reachable [OF b], of r'] find_row_Some [OF r'(1)] r'(2) by auto
  have id: "dv_id v = dp_versionId (ri_payload r)" using find_row_Some [OF v(1)] by simp
  have keys: "keys_distinct dv_id (doc_versions (domain_db db'))"
    using doc_inv_reachable [OF b] by (simp add: doc_inv_def tables_ok_def)
  have no_draft: "\<not> (dv_id u = dv_id v \<and> dv_status u = Ver_draft)" if "u \<in> set (doc_versions (domain_db db'))" for u
    using version_table.wf_member_unique [OF keys that v(2)] v(3) by auto
  have "update_draft (dv_id v) body summary (domain_db db') = Inl (PreconditionFailedException ''PRECONDITION_FAILED'')"
  proof -
    have "update_where (\<lambda>u. dv_id u = dv_id v \<and> dv_status u = Ver_draft) f (doc_versions (domain_db db')) =
        doc_versions (domain_db db')" for f
      unfolding update_where_def by (rule map_idI) (use no_draft in auto)
    moreover have "find (\<lambda>u. dv_id u = dv_id v \<and> dv_status u = Ver_draft) (doc_versions (domain_db db')) = None"
      using no_draft by (auto simp: find_None_iff)
    ultimately show ?thesis using v(1) id by (simp add: update_draft_def)
  qed
  then show ?thesis
    using v id by (intro exI [of _ v])
      (simp add: submit_for_approval_def submittable_def must_get_version_def publish_def publishable_def acknowledge_def acknowledgeable_def acknowledge_commit_def)
qed

text \<open>C30. A search lets a row through exactly when the trimmed term occurs in one of its columns, upper and
  lower case taken as one; no character of the term acts as a wildcard.\<close>

theorem search_is_containment:
  assumes "trim t \<noteq> []" and "columns \<noteq> []"
  shows "search_across (Some t) columns \<longleftrightarrow>
    (\<exists>v. Some v \<in> set columns \<and> (\<exists>u w. map lower_char v = u @ map lower_char (trim t) @ w))"
proof -
  have "search_across (Some t) columns \<longleftrightarrow>
      (\<exists>c \<in> set columns. case c of None \<Rightarrow> False | Some v \<Rightarrow> sublist (map lower_char (trim t)) (map lower_char v))"
    using assms by (simp add: search_across_def list_ex_iff ilike_contains)
  also have "\<dots> \<longleftrightarrow> (\<exists>v. Some v \<in> set columns \<and> sublist (map lower_char (trim t)) (map lower_char v))"
    by (auto split: option.splits)
  finally show ?thesis by (simp add: sublist_def)
qed

section \<open>Witnesses\<close>

definition dx_actor :: "string \<Rightarrow> actor" where "dx_actor u = \<lparr>ac_sub = u, ac_email = u\<rparr>"

definition dx_env :: "int \<Rightarrow> request_env" where
  "dx_env now =
     \<lparr>ev_now = now, ev_check = (\<lambda>u p. u = ''bob''), ev_holders = (\<lambda>p. [''bob'']),
      ev_delegation = (\<lambda>u. None), ev_employee = (\<lambda>u. Some Employee_active)\<rparr>"

definition dx_input :: document_input where
  "dx_input = \<lparr>dc_code = ''POL-001'', dc_title = ''Access policy'', dc_category = Isms_policy,
               dc_ownerId = ''alice'', dc_body = None\<rparr>"

definition dx_empty :: document_state where
  "dx_empty = \<lparr>items = [], approvals = [], comments = [], outbox = [], subscriptions = [], deliveries = [],
     domain_db = \<lparr>doc_documents = [], doc_versions = [], doc_acks = [], doc_audit = []\<rparr>\<rparr>"

definition dx_created :: document_state where
  "dx_created = with_domain (snd (projr (create_document 1 ''d1'' ''v1'' dx_input (dx_actor ''alice'')
     (domain_db dx_empty)))) dx_empty"

definition dx_submitted :: document_state where
  "dx_submitted = snd (submit_for_approval (dx_env 2) ''r1'' ''v1'' (dx_actor ''alice'') dx_created)"

definition dx_approved :: document_state where
  "dx_approved = projr (approve (dx_env 3) document_registry ''a1'' ''r1'' None (dx_actor ''bob'') dx_submitted)"

definition dx_published :: document_state where
  "dx_published = with_domain (snd (projr (publish 4 ''v1'' None (dx_actor ''bob'') (domain_db dx_approved)))) dx_approved"

definition dx_cancelled :: document_state where
  "dx_cancelled = projr (cancel (dx_env 3) document_registry ''r1'' (dx_actor ''alice'') dx_submitted)"

lemma dx_runs:
  "\<not> isl (create_document 1 ''d1'' ''v1'' dx_input (dx_actor ''alice'') (domain_db dx_empty))"
  "\<not> isl (approve (dx_env 3) document_registry ''a1'' ''r1'' None (dx_actor ''bob'') dx_submitted)"
  "\<not> isl (publish 4 ''v1'' None (dx_actor ''bob'') (domain_db dx_approved))"
  "\<not> isl (cancel (dx_env 3) document_registry ''r1'' (dx_actor ''alice'') dx_submitted)"
  by code_simp+

lemma dx_submitted_reachable: "doc_reachable dx_submitted"
proof (rule doc_next)
  show "doc_reachable dx_created"
    unfolding dx_created_def
    by (rule doc_next [OF doc_start ds_create [OF Inr_of [OF dx_runs(1)]]])
      (simp_all add: dx_empty_def doc_init_def engine_init_def)
  show "doc_step dx_created dx_submitted"
    unfolding dx_submitted_def
    by (rule ds_submit [OF prod.collapse [symmetric]])
      (simp_all add: dx_created_def dx_empty_def with_domain_def)
qed

lemma dx_approved_reachable: "doc_reachable dx_approved"
proof (rule doc_next [OF dx_submitted_reachable ds_engine])
  show "closing_call document_registry dx_submitted dx_approved"
    by (rule call_approve [where env = "dx_env 3"]) (use dx_runs(2) in \<open>simp add: dx_approved_def\<close>)
qed

lemma dx_published_reachable: "doc_reachable dx_published"
  unfolding dx_published_def by (rule doc_next [OF dx_approved_reachable ds_publish [OF Inr_of [OF dx_runs(3)]]])

lemma dx_cancelled_reachable: "doc_reachable dx_cancelled"
proof (rule doc_next [OF dx_submitted_reachable ds_engine])
  show "closing_call document_registry dx_submitted dx_cancelled"
    by (rule call_cancel [where env = "dx_env 3"]) (use dx_runs(4) in \<open>simp add: dx_cancelled_def\<close>)
qed

theorem version_in_force_was_approved_witness:
  "approved_by dp_versionId dx_published ''v1'' ''bob'' \<and>
   (\<exists>r \<in> set (items dx_published). dp_versionId (ri_payload r) = ''v1'' \<and> ri_status r = Approved)"
proof -
  have v: "map_option (\<lambda>v. (ver_in_force v, dv_approvedBy v)) (find_row dv_id ''v1'' (doc_versions (domain_db dx_published))) =
      Some (True, Some ''bob'')"
    by code_simp
  then obtain v where v: "find_row dv_id ''v1'' (doc_versions (domain_db dx_published)) = Some v" "ver_in_force v"
      "dv_approvedBy v = Some ''bob''"
    by auto
  have m: "v \<in> set (doc_versions (world_tables ((dx_published, []), [])))" "dv_id v = ''v1''"
    using find_row_Some [OF v(1)] by auto
  from version_in_force_was_approved [OF alone_reachable [OF dx_published_reachable] m(1) v(2)]
  show ?thesis using v(3) m(2) dx_published_reachable by auto
qed








definition dx_read :: documents_db where
  "dx_read = snd (projr (acknowledge 5 ''v1'' (dx_actor ''carol'') (domain_db dx_published)))"

theorem acknowledgement_settles_one_version_witness:
  "acknowledge 6 ''v1'' (dx_actor ''carol'') dx_read = Inr (True, dx_read) \<and>
   list_outstanding ''dave'' dx_read = list_outstanding ''dave'' (domain_db dx_published)"
proof -
  have "\<not> isl (acknowledge 5 ''v1'' (dx_actor ''carol'') (domain_db dx_published))" by code_simp
  from acknowledgement_settles_one_version [OF Inr_of [OF this], of "''dave''" 6] show ?thesis
    by (simp add: dx_read_def dx_actor_def)
qed

text \<open>One draft, read by two submissions before either marks it; one request approved, the version published;
  a second version approved; then the first version's other request is rejected.\<close>

definition dx_vd :: "document_version \<times> controlled_document" where
  "dx_vd = projr (submittable ''v1'' (domain_db dx_created))"

definition dx_file :: "string \<Rightarrow> document_state \<Rightarrow> document_state" where
  "dx_file q db = snd (projr (file_version (dx_env 2) q dx_vd (dx_actor ''alice'') db))"

definition dx_mark :: "string \<Rightarrow> document_state \<Rightarrow> document_state" where
  "dx_mark q db = with_domain (snd (projr (mark_in_review ''v1'' q (domain_db db)))) db"

definition dx_twice :: document_state where
  "dx_twice = dx_mark ''r2'' (dx_mark ''r1'' (dx_file ''r2'' (dx_file ''r1'' dx_created)))"

definition dx_first_published :: document_state where
  "dx_first_published =
     (let db = projr (approve (dx_env 3) document_registry ''a1'' ''r1'' None (dx_actor ''bob'') dx_twice)
      in with_domain (snd (projr (publish 4 ''v1'' None (dx_actor ''bob'') (domain_db db)))) db)"

definition dx_second_approved :: document_state where
  "dx_second_approved =
     (let db = with_domain (snd (projr (create_draft 5 ''v2'' ''d1'' None None (dx_actor ''alice'')
                 (domain_db dx_first_published)))) dx_first_published;
          db' = snd (submit_for_approval (dx_env 6) ''r3'' ''v2'' (dx_actor ''alice'') db)
      in projr (approve (dx_env 7) document_registry ''a3'' ''r3'' None (dx_actor ''bob'') db'))"

definition dx_payload :: document_payload where
  "dx_payload = ri_payload (the (find_row ri_id ''r2'' (items dx_second_approved)))"

definition dx_blocked :: documents_db where
  "dx_blocked = projr (document_on_reject dx_payload ''r2'' ''bob'' 8 (domain_db dx_second_approved))"

theorem late_rejection_blocks_document_witness:
  "publish 9 ''v2'' None (dx_actor ''bob'') dx_blocked = Inl (ThrownError ''uq_document_published_version'')"
proof -
  have ok: "tables_ok (domain_db dx_second_approved)" by code_simp
  have v: "map_option (\<lambda>v. (ver_in_force v, dv_documentId v))
      (find_row dv_id (dp_versionId dx_payload) (doc_versions (domain_db dx_second_approved))) = Some (True, ''d1'')"
    by code_simp
  have w: "map_option (\<lambda>w. (dv_status w, dv_documentId w)) (find_row dv_id ''v2'' (doc_versions dx_blocked)) =
      Some (Ver_approved, ''d1'')"
    by code_simp
  have "\<not> isl (document_on_reject dx_payload ''r2'' ''bob'' 8 (domain_db dx_second_approved))" by code_simp
  then have run: "document_on_reject dx_payload ''r2'' ''bob'' 8 (domain_db dx_second_approved) = Inr dx_blocked"
    by (simp add: dx_blocked_def)
  obtain v where v': "find_row dv_id (dp_versionId dx_payload) (doc_versions (domain_db dx_second_approved)) = Some v"
      "ver_in_force v" "dv_documentId v = ''d1''"
    using v by auto
  obtain w where w': "find_row dv_id ''v2'' (doc_versions dx_blocked) = Some w" "dv_status w = Ver_approved"
      "dv_documentId w = ''d1''"
    using w by auto
  show ?thesis
    using late_rejection_blocks_document [OF ok v'(1,2) run w'(1,2), of 9 None "dx_actor ''bob''"] v'(3) w'(3)
    by simp
qed

theorem cancelled_review_strands_version_witness:
  "\<exists>v :: document_version. dv_status v = Ver_in_review \<and>
     publish 9 (dv_id v) None (dx_actor ''bob'') (domain_db dx_cancelled) =
       Inl (PreconditionFailedException ''PRECONDITION_FAILED'')"
proof -
  have r: "items dx_cancelled \<noteq> [] \<and> ri_status (hd (items dx_cancelled)) = Cancelled" by code_simp
  then have mem: "hd (items dx_cancelled) \<in> set (items dx_cancelled)" by simp
  show ?thesis
    using cancelled_review_strands_version [OF dx_cancelled_reachable mem conjunct2 [OF r] rtranclp.rtrancl_refl,
        of None None "dx_env 9" "''r9''" "dx_actor ''bob''" 9 None] by blast
qed

theorem search_is_containment_witness:
  "search_across (Some '' 50% '') [None, Some ''Rate 50% off''] \<and> \<not> search_across (Some ''5_%'') [Some ''Rate 50% off'']"
proof -
  have t: "trim '' 50% '' = ''50%''" "trim ''5_%'' = ''5_%''" by code_simp+
  have yes: "search_across (Some '' 50% '') [None, Some ''Rate 50% off'']"
  proof (subst search_is_containment)
    show "\<exists>v. Some v \<in> set [None, Some ''Rate 50% off''] \<and>
        (\<exists>u w. map lower_char v = u @ map lower_char (trim '' 50% '') @ w)"
      unfolding t
      by (intro exI [of _ "''Rate 50% off''"] conjI exI [of _ "''rate ''"] exI [of _ "'' off''"]) (simp, code_simp)
  qed (simp_all add: t)
  have no: "\<not> search_across (Some ''5_%'') [Some ''Rate 50% off'']" by code_simp
  show ?thesis using yes no by simp
qed

end
