(* ===== verification/Positions.thy ===== *)
theory Positions
  imports WorkforceData Search
begin

text \<open>
  Positions, approved headcount and who holds what: \<^verbatim>\<open>positions.service.ts\<close> and
  \<^verbatim>\<open>positions.drizzle-repository.ts\<close> under \<^verbatim>\<open>libs/modules/positions/src\<close>, with the date guard of
  \<^verbatim>\<open>libs/platform/src/errors/date-window.guard.ts\<close>.

  The schema (migration 0016) adds a unique code, one open assignment per employee, a positive headcount
  and ordered windows; a violation throws. An assignment's transaction is kept in two halves, the count
  and the insert, because the transactions run at the default isolation level, where the count sees
  what was committed when it ran.
\<close>

section \<open>Rows\<close>

datatype position_status = Position_active | Position_frozen | Position_closed

record position =
  po_id :: string
  po_code :: string
  po_title :: string
  po_department :: string
  po_level :: "string option"
  po_headcount :: int
  po_description :: "string option"
  po_status :: position_status
  po_createdAt :: int
  po_updatedAt :: int

record employee_position =
  ep_id :: string
  ep_employeeId :: string
  ep_positionId :: string
  ep_effectiveFrom :: iso_date
  ep_effectiveTo :: "iso_date option"
  ep_endReason :: "string option"
  ep_createdAt :: int

record position_input =
  pi_code :: string
  pi_title :: string
  pi_department :: string
  pi_level :: "string option"
  pi_headcount :: "int option"
  pi_description :: "string option"

text \<open>A patch: \<open>None\<close> for a key that is absent; a nullable column has a second option for null.\<close>

record position_patch =
  pp_title :: "string option"
  pp_department :: "string option"
  pp_level :: "string option option"
  pp_headcount :: "int option"
  pp_description :: "string option option"
  pp_status :: "position_status option"

record position_filters =
  pf_search :: "string option"
  pf_department :: "string option"
  pf_status :: "position_status option"
  pf_vacantOnly :: bool

record assign_input =
  as_employeeId :: string
  as_positionId :: string
  as_effectiveFrom :: iso_date
  as_endReason :: "string option"

record positions_db =
  pos_positions :: "position list"
  pos_assignments :: "employee_position list"
  pos_audit :: "audit_entry list"

definition pos_record :: "actor \<Rightarrow> string \<Rightarrow> string \<Rightarrow> positions_db \<Rightarrow> positions_db" where
  "pos_record actor action resourceId d =
     d\<lparr>pos_audit := pos_audit d @
       [\<lparr>au_actorId = Some (ac_sub actor), au_action = action, au_resourceId = resourceId\<rparr>]\<rparr>"

definition assert_date_order :: "iso_date \<Rightarrow> iso_date \<Rightarrow> string \<Rightarrow> unit result" where
  "assert_date_order d_from d_to code = (if d_to < d_from then Inl (PreconditionFailedException code) else Inr ())"

section \<open>Positions\<close>

definition create_position ::
    "int \<Rightarrow> string \<Rightarrow> position_input \<Rightarrow> actor \<Rightarrow> positions_db \<Rightarrow> (position \<times> positions_db) result" where
  "create_position now i input actor d =
     (if find_row po_code (pi_code input) (pos_positions d) \<noteq> None then Inl (ConflictException ''CONFLICT'')
      else let p = \<lparr>po_id = i, po_code = pi_code input, po_title = pi_title input,
                    po_department = pi_department input, po_level = pi_level input,
                    po_headcount = (case pi_headcount input of None \<Rightarrow> 1 | Some n \<Rightarrow> n),
                    po_description = pi_description input, po_status = Position_active,
                    po_createdAt = now, po_updatedAt = now\<rparr>
           in if po_headcount p < 1 then Inl (ThrownError ''ck_position_headcount_positive'')
              else Inr (p, pos_record actor ''position.created'' i
                             (d\<lparr>pos_positions := pos_positions d @ [p]\<rparr>)))"

definition get_position :: "string \<Rightarrow> positions_db \<Rightarrow> position result" where
  "get_position i d =
     (case find_row po_id i (pos_positions d) of
        None \<Rightarrow> Inl (NotFoundException ''NOT_FOUND'')
      | Some p \<Rightarrow> Inr p)"

definition keep :: "'a option \<Rightarrow> 'a \<Rightarrow> 'a" where
  "keep new old = (case new of None \<Rightarrow> old | Some x \<Rightarrow> x)"

definition patch_position :: "int \<Rightarrow> position_patch \<Rightarrow> position \<Rightarrow> position" where
  "patch_position now x p =
     p\<lparr>po_title := keep (pp_title x) (po_title p), po_department := keep (pp_department x) (po_department p),
       po_level := keep (pp_level x) (po_level p), po_headcount := keep (pp_headcount x) (po_headcount p),
       po_description := keep (pp_description x) (po_description p),
       po_status := keep (pp_status x) (po_status p), po_updatedAt := now\<rparr>"

definition update_position ::
    "int \<Rightarrow> string \<Rightarrow> position_patch \<Rightarrow> actor \<Rightarrow> positions_db \<Rightarrow> (position \<times> positions_db) result" where
  "update_position now i x actor d =
     and_then (get_position i d) (\<lambda>before.
       if keep (pp_headcount x) (po_headcount before) < 1
       then Inl (ThrownError ''ck_position_headcount_positive'')
       else Inr (patch_position now x before,
              pos_record actor ''position.updated'' i
                (d\<lparr>pos_positions := modify_row po_id i (patch_position now x) (pos_positions d)\<rparr>)))"

section \<open>Occupancy\<close>

definition is_open_assignment :: "employee_position \<Rightarrow> bool" where
  "is_open_assignment a \<longleftrightarrow> ep_effectiveTo a = None"

definition count_open_assignments :: "string \<Rightarrow> positions_db \<Rightarrow> int" where
  "count_open_assignments positionId d =
     int (length (filter (\<lambda>a. ep_positionId a = positionId \<and> is_open_assignment a) (pos_assignments d)))"

definition find_current_assignment :: "string \<Rightarrow> positions_db \<Rightarrow> employee_position option" where
  "find_current_assignment employeeId d =
     find (\<lambda>a. ep_employeeId a = employeeId \<and> is_open_assignment a) (pos_assignments d)"

text \<open>A listed position: the row, how many hold it, and the vacancies, floored at zero.\<close>

type_synonym position_occupancy = "position \<times> int \<times> int"

definition occupancy_of :: "positions_db \<Rightarrow> position \<Rightarrow> position_occupancy" where
  "occupancy_of d p =
     (let filled = count_open_assignments (po_id p) d in (p, filled, max 0 (po_headcount p - filled)))"

definition list_positions ::
    "position_filters \<Rightarrow> nat \<Rightarrow> nat \<Rightarrow> positions_db \<Rightarrow> position_occupancy list \<times> nat" where
  "list_positions f limit offset d =
     (let found = filter (\<lambda>p.
            search_across (pf_search f) [Some (po_title p), Some (po_code p), Some (po_department p)] \<and>
            (case pf_department f of None \<Rightarrow> True | Some x \<Rightarrow> x = [] \<or> po_department p = x) \<and>
            (case pf_status f of None \<Rightarrow> True | Some s \<Rightarrow> po_status p = s)) (pos_positions d);
          rows = map (occupancy_of d) (take limit (drop offset (sort_key (\<lambda>p. (po_code p, po_id p)) found)))
      in (if pf_vacantOnly f then filter (\<lambda>(p, filled, vacancies). vacancies > 0) rows else rows, length found))"

definition newest_first :: "employee_position list \<Rightarrow> employee_position list" where
  "newest_first = sort_key (\<lambda>a. (- day_of (ep_effectiveFrom a), ep_id a))"

text \<open>An employee's history carries the code and title of each role (an inner join).\<close>

definition list_assignments_for_employee ::
    "string \<Rightarrow> positions_db \<Rightarrow> (employee_position \<times> string \<times> string) list" where
  "list_assignments_for_employee employeeId d =
     concat (map (\<lambda>a. case find_row po_id (ep_positionId a) (pos_positions d) of
                        None \<Rightarrow> [] | Some p \<Rightarrow> [(a, po_code p, po_title p)])
       (newest_first (filter (\<lambda>a. ep_employeeId a = employeeId) (pos_assignments d))))"

definition list_assignments_for_position :: "string \<Rightarrow> positions_db \<Rightarrow> employee_position list result" where
  "list_assignments_for_position positionId d =
     and_then (get_position positionId d) (\<lambda>_.
       Inr (newest_first (filter (\<lambda>a. ep_positionId a = positionId) (pos_assignments d))))"

section \<open>Assignment\<close>

definition close_assignment :: "string \<Rightarrow> iso_date \<Rightarrow> string option \<Rightarrow> positions_db \<Rightarrow> positions_db" where
  "close_assignment i effectiveTo reason d =
     d\<lparr>pos_assignments := update_where (\<lambda>a. ep_id a = i \<and> is_open_assignment a)
         (\<lambda>a. a\<lparr>ep_effectiveTo := Some effectiveTo, ep_endReason := reason\<rparr>) (pos_assignments d)\<rparr>"

definition open_assignment :: "int \<Rightarrow> string \<Rightarrow> assign_input \<Rightarrow> positions_db \<Rightarrow> (employee_position \<times> positions_db) result" where
  "open_assignment now i input d =
     (if find_current_assignment (as_employeeId input) d \<noteq> None
      then Inl (ThrownError ''uq_employee_current_position'')
      else let a = \<lparr>ep_id = i, ep_employeeId = as_employeeId input, ep_positionId = as_positionId input,
                    ep_effectiveFrom = as_effectiveFrom input, ep_effectiveTo = None, ep_endReason = None,
                    ep_createdAt = now\<rparr>
           in Inr (a, d\<lparr>pos_assignments := pos_assignments d @ [a]\<rparr>))"

text \<open>What is read before the transaction: the position, which has to be active.\<close>

definition assignable_position :: "string \<Rightarrow> positions_db \<Rightarrow> position result" where
  "assignable_position i d =
     and_then (get_position i d) (\<lambda>p.
       if po_status p \<noteq> Position_active then Inl (PreconditionFailedException ''PRECONDITION_FAILED'') else Inr p)"

text \<open>The first half of the transaction: leave the current position, then count the seats of the new one.\<close>

definition vacate_and_count :: "position \<Rightarrow> assign_input \<Rightarrow> positions_db \<Rightarrow> positions_db result" where
  "vacate_and_count p input d =
     and_then
       (case find_current_assignment (as_employeeId input) d of
          None \<Rightarrow> Inr d
        | Some current \<Rightarrow>
            if ep_positionId current = as_positionId input then Inl (ConflictException ''CONFLICT'')
            else and_then (assert_date_order (ep_effectiveFrom current) (as_effectiveFrom input) ''POSITION_INVALID_WINDOW'')
              (\<lambda>_. Inr (close_assignment (ep_id current) (as_effectiveFrom input)
                     (Some (keep (as_endReason input) ''transfer'')) d)))
       (\<lambda>d1. if count_open_assignments (as_positionId input) d1 \<ge> po_headcount p
             then Inl (PreconditionFailedException ''POSITION_HEADCOUNT_EXCEEDED'') else Inr d1)"

text \<open>The second half: the new row and its audit entry.\<close>

definition take_seat :: "int \<Rightarrow> string \<Rightarrow> assign_input \<Rightarrow> actor \<Rightarrow> positions_db \<Rightarrow> (employee_position \<times> positions_db) result" where
  "take_seat now i input actor d =
     and_then (open_assignment now i input d) (\<lambda>(a, d'). Inr (a, pos_record actor ''position.assigned'' i d'))"

definition assign_position ::
    "int \<Rightarrow> string \<Rightarrow> assign_input \<Rightarrow> actor \<Rightarrow> positions_db \<Rightarrow> (employee_position \<times> positions_db) result" where
  "assign_position now i input actor d =
     and_then (assignable_position (as_positionId input) d) (\<lambda>p.
     and_then (vacate_and_count p input d) (\<lambda>d1. take_seat now i input actor d1))"

definition end_assignment ::
    "string \<Rightarrow> iso_date \<Rightarrow> string option \<Rightarrow> actor \<Rightarrow> positions_db \<Rightarrow> (employee_position \<times> positions_db) result" where
  "end_assignment i effectiveTo reason actor d =
     (case find_row ep_id i (pos_assignments d) of
        None \<Rightarrow> Inl (NotFoundException ''NOT_FOUND'')
      | Some a \<Rightarrow>
          if \<not> is_open_assignment a then Inl (NotFoundException ''NOT_FOUND'')
          else and_then (assert_date_order (ep_effectiveFrom a) effectiveTo ''POSITION_INVALID_WINDOW'') (\<lambda>_.
            Inr (a\<lparr>ep_effectiveTo := Some effectiveTo, ep_endReason := reason\<rparr>,
                 pos_record actor ''position.unassigned'' i (close_assignment i effectiveTo reason d))))"

definition current_assignment :: "string \<Rightarrow> positions_db \<Rightarrow> employee_position option" where
  "current_assignment = find_current_assignment"

end
