(* ===== verification/PositionProperties.thy ===== *)
theory PositionProperties
  imports Positions
begin

text \<open>
  Occupancy: the invariant of the assignment table over every operation of the service, what a transfer
  does, and how two transfers at once take the same seat.
\<close>

section \<open>The invariant\<close>

interpretation assignment_table: keyed_table ep_id "find_row ep_id" "modify_row ep_id" "keys_distinct ep_id"
  by (rule keyed_list_table)

definition window_ok :: "employee_position \<Rightarrow> bool" where
  "window_ok a \<longleftrightarrow> (case ep_effectiveTo a of None \<Rightarrow> True | Some t \<Rightarrow> ep_effectiveFrom a \<le> t)"

definition open_once :: "employee_position list \<Rightarrow> bool" where
  "open_once as = distinct (map ep_employeeId (filter is_open_assignment as))"

definition occupancy_ok :: "positions_db \<Rightarrow> bool" where
  "occupancy_ok d \<longleftrightarrow>
     keys_distinct ep_id (pos_assignments d) \<and> open_once (pos_assignments d) \<and>
     (\<forall>a \<in> set (pos_assignments d). window_ok a) \<and> (\<forall>p \<in> set (pos_positions d). po_headcount p \<ge> 1)"

inductive position_step :: "positions_db \<Rightarrow> positions_db \<Rightarrow> bool" where
  ps_create: "create_position now i input actor d = Inr (p, d') \<Longrightarrow> position_step d d'"
| ps_update: "update_position now i x actor d = Inr (p, d') \<Longrightarrow> position_step d d'"
| ps_assign: "assign_position now i input actor d = Inr (a, d') \<Longrightarrow> find_row ep_id i (pos_assignments d) = None \<Longrightarrow>
    position_step d d'"
| ps_end: "end_assignment i t reason actor d = Inr (a, d') \<Longrightarrow> position_step d d'"

inductive position_reachable :: "positions_db \<Rightarrow> bool" where
  pr_init: "pos_positions d = [] \<Longrightarrow> pos_assignments d = [] \<Longrightarrow> position_reachable d"
| pr_next: "position_reachable d \<Longrightarrow> position_step d d' \<Longrightarrow> position_reachable d'"

lemma pos_record_simps [simp]:
  "pos_assignments (pos_record actor act i d) = pos_assignments d"
  "pos_positions (pos_record actor act i d) = pos_positions d"
  by (simp_all add: pos_record_def)

lemma find_current_iff:
  assumes "open_once (pos_assignments d)"
  shows "find_current_assignment e d = Some a \<longleftrightarrow>
    a \<in> set (pos_assignments d) \<and> ep_employeeId a = e \<and> is_open_assignment a"
proof -
  have "open_once as \<Longrightarrow> find (\<lambda>a. ep_employeeId a = e \<and> is_open_assignment a) as = Some a \<longleftrightarrow>
      a \<in> set as \<and> ep_employeeId a = e \<and> is_open_assignment a" for as
  proof (induction as)
    case (Cons b as)
    then show ?case by (auto simp: open_once_def image_iff split: if_splits)
  qed simp
  then show ?thesis using assms by (simp add: find_current_assignment_def)
qed

lemma find_current_None: "find_current_assignment e d = None \<longleftrightarrow>
    (\<forall>a \<in> set (pos_assignments d). ep_employeeId a = e \<longrightarrow> \<not> is_open_assignment a)"
  by (auto simp: find_current_assignment_def find_None_iff)

definition closed_at :: "string \<Rightarrow> iso_date \<Rightarrow> string option \<Rightarrow> employee_position \<Rightarrow> employee_position" where
  "closed_at i t reason a =
     (if ep_id a = i \<and> is_open_assignment a then a\<lparr>ep_effectiveTo := Some t, ep_endReason := reason\<rparr> else a)"

lemma close_assignment_map:
  "pos_assignments (close_assignment i t reason d) = map (closed_at i t reason) (pos_assignments d)"
  by (simp add: close_assignment_def update_where_def closed_at_def)

lemma close_positions [simp]: "pos_positions (close_assignment i t reason d) = pos_positions d"
  by (simp add: close_assignment_def)

lemma closed_at_simps [simp]:
  "ep_id (closed_at i t reason a) = ep_id a" "ep_employeeId (closed_at i t reason a) = ep_employeeId a"
  "ep_positionId (closed_at i t reason a) = ep_positionId a"
  "ep_effectiveFrom (closed_at i t reason a) = ep_effectiveFrom a"
  "is_open_assignment (closed_at i t reason a) \<longleftrightarrow> is_open_assignment a \<and> ep_id a \<noteq> i"
  by (auto simp: closed_at_def is_open_assignment_def)

lemma closed_at_other: "ep_id a \<noteq> i \<Longrightarrow> closed_at i t reason a = a"
  by (simp add: closed_at_def)

lemma open_once_closed: "open_once as \<Longrightarrow> open_once (map (closed_at i t reason) as)"
proof (induction as)
  case (Cons a as)
  then show ?case
    by (auto simp: open_once_def split: if_splits)
qed (simp add: open_once_def)

lemma close_keeps_ok:
  assumes ok: "occupancy_ok d"
    and t: "\<And>a. a \<in> set (pos_assignments d) \<Longrightarrow> ep_id a = i \<Longrightarrow> is_open_assignment a \<Longrightarrow> ep_effectiveFrom a \<le> t"
  shows "occupancy_ok (close_assignment i t reason d)"
proof -
  have "window_ok (closed_at i t reason a)" if "a \<in> set (pos_assignments d)" for a
    using ok t [OF that] that by (auto simp: occupancy_ok_def closed_at_def window_ok_def)
  moreover have "keys_distinct ep_id (map (closed_at i t reason) (pos_assignments d))"
    using ok by (simp add: occupancy_ok_def keys_distinct_def comp_def)
  ultimately show ?thesis
    using ok open_once_closed by (auto simp: occupancy_ok_def close_assignment_map)
qed

lemma vacate_and_count_Inr:
  assumes "vacate_and_count p input d = Inr d1"
  obtains "find_current_assignment (as_employeeId input) d = None" "d1 = d"
      "count_open_assignments (as_positionId input) d1 < po_headcount p"
  | current where "find_current_assignment (as_employeeId input) d = Some current"
      "ep_positionId current \<noteq> as_positionId input" "ep_effectiveFrom current \<le> as_effectiveFrom input"
      "d1 = close_assignment (ep_id current) (as_effectiveFrom input) (Some (keep (as_endReason input) ''transfer'')) d"
      "count_open_assignments (as_positionId input) d1 < po_headcount p"
  using assms
  by (auto simp: vacate_and_count_def and_then_eq_Inr assert_date_order_def split: option.splits if_splits)

lemma take_seat_Inr:
  assumes "take_seat now i input actor d = Inr (a, d')"
  shows "pos_assignments d' = pos_assignments d @ [a]" "pos_positions d' = pos_positions d" "ep_id a = i"
    "ep_employeeId a = as_employeeId input" "ep_positionId a = as_positionId input" "ep_effectiveTo a = None"
    "ep_effectiveFrom a = as_effectiveFrom input" "find_current_assignment (as_employeeId input) d = None"
  using assms by (auto simp: take_seat_def open_assignment_def and_then_eq_Inr Let_def split: if_splits)

lemma seat_keeps_ok:
  assumes ok: "occupancy_ok d" and seat: "take_seat now i input actor d = Inr (a, d')"
    and fresh: "find_row ep_id i (pos_assignments d) = None"
  shows "occupancy_ok d'"
proof -
  note s = take_seat_Inr [OF seat]
  have "ep_employeeId a \<notin> ep_employeeId ` {x \<in> set (pos_assignments d). is_open_assignment x}"
    using s(4,8) by (auto simp: find_current_None)
  then have "open_once (pos_assignments d')"
    using ok by (auto simp: s(1) open_once_def occupancy_ok_def)
  moreover have "keys_distinct ep_id (pos_assignments d')"
    using ok fresh by (simp add: s(1,3) occupancy_ok_def keys_distinct_append_one)
  ultimately show ?thesis using ok by (auto simp: occupancy_ok_def s(1,2,6) window_ok_def)
qed

lemma same_assignment:
  "occupancy_ok d \<Longrightarrow> a \<in> set (pos_assignments d) \<Longrightarrow> b \<in> set (pos_assignments d) \<Longrightarrow> ep_id a = ep_id b \<Longrightarrow> a = b"
  unfolding occupancy_ok_def by (blast intro: assignment_table.wf_member_unique)

lemma vacate_keeps_ok:
  assumes ok: "occupancy_ok d" and run: "vacate_and_count p input d = Inr d1"
  shows "occupancy_ok d1"
  using run
proof (cases rule: vacate_and_count_Inr)
  case 1
  then show ?thesis using ok by simp
next
  case (2 current)
  have "current \<in> set (pos_assignments d)" using 2(1) ok find_current_iff by (simp add: occupancy_ok_def)
  then show ?thesis
    unfolding 2(4) using 2(3) ok same_assignment by (intro close_keeps_ok) blast+
qed

lemma fresh_closed: "find_row ep_id i (map (closed_at k t reason) as) = map_option (closed_at k t reason) (find_row ep_id i as)"
  by (induction as) auto

lemma vacate_fresh:
  "vacate_and_count p input d = Inr d1 \<Longrightarrow> find_row ep_id i (pos_assignments d) = None \<Longrightarrow>
   find_row ep_id i (pos_assignments d1) = None"
  by (erule vacate_and_count_Inr) (simp_all add: close_assignment_map fresh_closed)

lemma occupancy_ok_step: "position_step d d' \<Longrightarrow> occupancy_ok d \<Longrightarrow> occupancy_ok d'"
proof (induction rule: position_step.induct)
  case (ps_create now i input actor d p d')
  then show ?case by (auto simp: create_position_def occupancy_ok_def Let_def split: if_splits)
next
  case (ps_update now i x actor d p d')
  then obtain before where b: "find_row po_id i (pos_positions d) = Some before"
      "\<not> keep (pp_headcount x) (po_headcount before) < 1"
      "d' = pos_record actor ''position.updated'' i
         (d\<lparr>pos_positions := modify_row po_id i (patch_position now x) (pos_positions d)\<rparr>)"
    by (auto simp: update_position_def get_position_def and_then_eq_Inr split: option.splits if_splits)
  have "po_headcount (patch_position now x q) \<ge> 1" if "q \<in> set (pos_positions d)" for q
    using b(2) that ps_update(2) by (auto simp: patch_position_def keep_def occupancy_ok_def split: option.splits)
  then show ?case using ps_update(2)
    by (auto simp: b(3) occupancy_ok_def modify_row_def set_update_where)
next
  case (ps_assign now i input actor d a d')
  then obtain p d1 where v: "vacate_and_count p input d = Inr d1" and s: "take_seat now i input actor d1 = Inr (a, d')"
    by (auto simp: assign_position_def and_then_eq_Inr)
  show ?case
    by (rule seat_keeps_ok [OF vacate_keeps_ok [OF ps_assign(3) v] s vacate_fresh [OF v ps_assign(2)]])
next
  case (ps_end i t reason actor d a d')
  then obtain b where b: "find_row ep_id i (pos_assignments d) = Some b" "ep_effectiveFrom b \<le> t"
      "d' = pos_record actor ''position.unassigned'' i (close_assignment i t reason d)"
    by (auto simp: end_assignment_def and_then_eq_Inr assert_date_order_def split: option.splits if_splits)
  have "occupancy_ok (close_assignment i t reason d)"
  proof (rule close_keeps_ok [OF ps_end(2)])
    fix x assume "x \<in> set (pos_assignments d)" "ep_id x = i"
    then have "x = b" using same_assignment [OF ps_end(2)] find_row_Some [OF b(1)] by simp
    then show "ep_effectiveFrom x \<le> t" using b(2) by simp
  qed
  then show ?case by (simp add: b(3) occupancy_ok_def)
qed

lemma occupancy_ok_reachable: "position_reachable d \<Longrightarrow> occupancy_ok d"
proof (induction rule: position_reachable.induct)
  case (pr_next d d')
  then show ?case using occupancy_ok_step by blast
qed (simp add: occupancy_ok_def keys_distinct_def open_once_def)

lemma count_open_append:
  "pos_assignments d' = pos_assignments d @ [a] \<Longrightarrow>
   count_open_assignments q d' = count_open_assignments q d + (if ep_positionId a = q \<and> is_open_assignment a then 1 else 0)"
  by (simp add: count_open_assignments_def)

section \<open>Claims\<close>

text \<open>C29. An assignment with no other call inside it is one act: the person ends up in the new position
  and nowhere else, the position they left is closed on the day the new one begins, nobody else's
  position changes, and the new position holds no more people than the headcount the call read. The
  last of these rests on the call being undisturbed (the transaction takes no lock on the seats, and two
  assignments that both count before either inserts overfill the position: \<open>last_seat_taken_twice\<close>).\<close>

theorem transfer_is_one_act:
  assumes "position_reachable d" and "assign_position now i input actor d = Inr (a, d')"
    and "find_row ep_id i (pos_assignments d) = None"
  shows "current_assignment (as_employeeId input) d' = Some a \<and> ep_positionId a = as_positionId input \<and>
    (\<forall>b \<in> set (pos_assignments d'). is_open_assignment b \<and> ep_employeeId b = as_employeeId input \<longrightarrow> b = a) \<and>
    (\<forall>e. e \<noteq> as_employeeId input \<longrightarrow> current_assignment e d' = current_assignment e d) \<and>
    (\<forall>c. current_assignment (as_employeeId input) d = Some c \<longrightarrow>
       ep_effectiveFrom c \<le> ep_effectiveFrom a \<and>
       c\<lparr>ep_effectiveTo := Some (ep_effectiveFrom a), ep_endReason := Some (keep (as_endReason input) ''transfer'')\<rparr>
         \<in> set (pos_assignments d')) \<and>
    (\<exists>p. find_row po_id (as_positionId input) (pos_positions d) = Some p \<and>
       count_open_assignments (as_positionId input) d' \<le> po_headcount p)"
proof -
  have ok: "occupancy_ok d" by (rule occupancy_ok_reachable [OF assms(1)])
  obtain p d1 where p: "find_row po_id (as_positionId input) (pos_positions d) = Some p"
      and v: "vacate_and_count p input d = Inr d1" and s: "take_seat now i input actor d1 = Inr (a, d')"
    using assms(2)
    by (auto simp: assign_position_def and_then_eq_Inr assignable_position_def get_position_def
        split: option.splits if_splits)
  note seat = take_seat_Inr [OF s]
  have ok1: "occupancy_ok d1" by (rule vacate_keeps_ok [OF ok v])
  have ok': "occupancy_ok d'" by (rule seat_keeps_ok [OF ok1 s vacate_fresh [OF v assms(3)]])
  then have once: "open_once (pos_assignments d')" "open_once (pos_assignments d)" "open_once (pos_assignments d1)"
    using ok ok1 by (simp_all add: occupancy_ok_def)
  have mine: "current_assignment (as_employeeId input) d' = Some a"
    using seat by (simp add: current_assignment_def find_current_iff [OF once(1)] is_open_assignment_def)
  have sole: "b = a" if "b \<in> set (pos_assignments d')" "is_open_assignment b" "ep_employeeId b = as_employeeId input" for b
    using mine find_current_iff [OF once(1), of "as_employeeId input" b] that by (simp add: current_assignment_def)
  have others: "b \<in> set (pos_assignments d1) \<and> is_open_assignment b \<longleftrightarrow> b \<in> set (pos_assignments d) \<and> is_open_assignment b"
    if e: "ep_employeeId b \<noteq> as_employeeId input" for b
    using v
  proof (cases rule: vacate_and_count_Inr)
    case (2 c)
    have c: "c \<in> set (pos_assignments d)" "ep_employeeId c = as_employeeId input"
      using 2(1) find_current_iff [OF once(2)] by auto
    have "ep_id x \<noteq> ep_id c" if "x \<in> set (pos_assignments d)" "ep_employeeId x = ep_employeeId b" for x
      using same_assignment [OF ok that(1) c(1)] c(2) e that(2) by auto
    then show ?thesis by (auto simp: 2(4) close_assignment_map closed_at_other image_iff intro!: bexI)
  qed simp
  have frame: "current_assignment e d' = current_assignment e d" if "e \<noteq> as_employeeId input" for e
    by (rule option_eqI)
      (use others that seat(1,4) find_current_iff [OF once(1), of e] find_current_iff [OF once(2), of e]
        in \<open>auto simp: current_assignment_def\<close>)
  have left: "ep_effectiveFrom c \<le> ep_effectiveFrom a \<and>
      c\<lparr>ep_effectiveTo := Some (ep_effectiveFrom a), ep_endReason := Some (keep (as_endReason input) ''transfer'')\<rparr>
         \<in> set (pos_assignments d')" if "current_assignment (as_employeeId input) d = Some c" for c
    using v
  proof (cases rule: vacate_and_count_Inr)
    case 1
    then show ?thesis using that by (simp add: current_assignment_def)
  next
    case (2 c')
    have c: "c \<in> set (pos_assignments d)" "is_open_assignment c" "c' = c"
      using 2(1) that find_current_iff [OF once(2), of "as_employeeId input" c] by (auto simp: current_assignment_def)
    then have "closed_at (ep_id c) (as_effectiveFrom input) (Some (keep (as_endReason input) ''transfer'')) c
        \<in> set (pos_assignments d1)"
      by (auto simp: 2(4) close_assignment_map)
    then show ?thesis using c 2(3) seat(1,7) by (simp add: closed_at_def)
  qed
  have "count_open_assignments (as_positionId input) d1 < po_headcount p"
    using v by (cases rule: vacate_and_count_Inr)
  then have "count_open_assignments (as_positionId input) d' \<le> po_headcount p"
    by (simp add: count_open_append [OF seat(1)])
  then show ?thesis using mine seat(5) sole frame left p by blast
qed

text \<open>The count inside the transaction does not reserve the seat: two assignments of different people that
  both count before either inserts both succeed, and the position is over its headcount.\<close>

theorem last_seat_taken_twice:
  assumes "assignable_position q d = Inr p" and "po_headcount p = count_open_assignments q d + 1"
    and "as_positionId x = q" and "as_positionId y = q" and "as_employeeId x \<noteq> as_employeeId y"
    and "current_assignment (as_employeeId x) d = None" and "current_assignment (as_employeeId y) d = None"
  shows "\<exists>a b d1 d2. vacate_and_count p x d = Inr d \<and> vacate_and_count p y d = Inr d \<and>
    take_seat now i x actor d = Inr (a, d1) \<and> take_seat now' j y actor' d1 = Inr (b, d2) \<and>
    count_open_assignments q d2 = po_headcount p + 1 \<and>
    vacate_and_count p y d1 = Inl (PreconditionFailedException ''POSITION_HEADCOUNT_EXCEEDED'')"
proof -
  let ?a = "\<lparr>ep_id = i, ep_employeeId = as_employeeId x, ep_positionId = q, ep_effectiveFrom = as_effectiveFrom x,
      ep_effectiveTo = None, ep_endReason = None, ep_createdAt = now\<rparr>"
  let ?b = "\<lparr>ep_id = j, ep_employeeId = as_employeeId y, ep_positionId = q, ep_effectiveFrom = as_effectiveFrom y,
      ep_effectiveTo = None, ep_endReason = None, ep_createdAt = now'\<rparr>"
  let ?d1 = "pos_record actor ''position.assigned'' i (d\<lparr>pos_assignments := pos_assignments d @ [?a]\<rparr>)"
  let ?d2 = "pos_record actor' ''position.assigned'' j (?d1\<lparr>pos_assignments := pos_assignments ?d1 @ [?b]\<rparr>)"
  have none: "find_current_assignment (as_employeeId x) d = None" "find_current_assignment (as_employeeId y) d = None"
    using assms(6,7) by (simp_all add: current_assignment_def)
  have none': "find_current_assignment (as_employeeId y) ?d1 = None"
    using none(2) assms(5) by (auto simp: find_current_None)
  have c1: "count_open_assignments q ?d1 = count_open_assignments q d + 1"
    by (subst count_open_append [where d = d and a = ?a]) (simp_all add: is_open_assignment_def)
  have c2: "count_open_assignments q ?d2 = count_open_assignments q ?d1 + 1"
    by (subst count_open_append [where d = ?d1 and a = ?b]) (simp_all add: is_open_assignment_def)
  have "vacate_and_count p x d = Inr d" "vacate_and_count p y d = Inr d"
    using assms(2-4) none by (simp_all add: vacate_and_count_def)
  moreover have "take_seat now i x actor d = Inr (?a, ?d1)" "take_seat now' j y actor' ?d1 = Inr (?b, ?d2)"
    using none none' assms(3,4) by (simp_all add: take_seat_def open_assignment_def Let_def)
  moreover have "vacate_and_count p y ?d1 = Inl (PreconditionFailedException ''POSITION_HEADCOUNT_EXCEEDED'')"
    using none' c1 assms(2,4) by (simp add: vacate_and_count_def)
  moreover have "count_open_assignments q ?d2 = po_headcount p + 1" using c1 c2 assms(2) by simp
  ultimately show ?thesis by blast
qed

section \<open>Witnesses\<close>

definition desk0 :: positions_db where
  "desk0 = \<lparr>pos_positions = [], pos_assignments = [], pos_audit = []\<rparr>"

definition desk_actor :: actor where
  "desk_actor = \<lparr>ac_sub = ''hr'', ac_email = ''hr@x''\<rparr>"

definition desk_input :: "string \<Rightarrow> position_input" where
  "desk_input code = \<lparr>pi_code = code, pi_title = ''Engineer'', pi_department = ''QA'', pi_level = None,
     pi_headcount = None, pi_description = None\<rparr>"

definition desk1 :: positions_db where
  "desk1 = snd (projr (create_position 1 ''p1'' (desk_input ''QA-1'') desk_actor desk0))"

definition desk2 :: positions_db where
  "desk2 = snd (projr (create_position 2 ''p2'' (desk_input ''QA-2'') desk_actor desk1))"

definition seat :: "string \<Rightarrow> string \<Rightarrow> int \<Rightarrow> assign_input" where
  "seat e p m = \<lparr>as_employeeId = e, as_positionId = p, as_effectiveFrom = Iso 2026 m 1, as_endReason = None\<rparr>"

definition desk3 :: positions_db where
  "desk3 = snd (projr (assign_position 3 ''a1'' (seat ''ann'' ''p1'' 1) desk_actor desk2))"

lemma desk_runs:
  "\<not> isl (create_position 1 ''p1'' (desk_input ''QA-1'') desk_actor desk0)"
  "\<not> isl (create_position 2 ''p2'' (desk_input ''QA-2'') desk_actor desk1)"
  "\<not> isl (assign_position 3 ''a1'' (seat ''ann'' ''p1'' 1) desk_actor desk2)"
  "\<not> isl (assign_position 4 ''a2'' (seat ''ann'' ''p2'' 3) desk_actor desk3)"
  "find_row ep_id ''a1'' (pos_assignments desk2) = None" "find_row ep_id ''a2'' (pos_assignments desk3) = None"
  by code_simp+

lemma desk_reachable: "position_reachable desk3"
proof -
  have "position_reachable desk0" by (rule pr_init) (simp_all add: desk0_def)
  then have "position_reachable desk1"
    by (rule pr_next) (rule ps_create [OF Inr_of [OF desk_runs(1), folded desk1_def]])
  then have "position_reachable desk2"
    by (rule pr_next) (rule ps_create [OF Inr_of [OF desk_runs(2), folded desk2_def]])
  then show ?thesis
    by (rule pr_next) (rule ps_assign [OF Inr_of [OF desk_runs(3), folded desk3_def] desk_runs(5)])
qed

theorem transfer_is_one_act_witness:
  "let d' = snd (projr (assign_position 4 ''a2'' (seat ''ann'' ''p2'' 3) desk_actor desk3))
   in map_option ep_positionId (current_assignment ''ann'' desk3) = Some ''p1'' \<and>
      map_option ep_positionId (current_assignment ''ann'' d') = Some ''p2''"
proof -
  have "current_assignment (as_employeeId (seat ''ann'' ''p2'' 3))
      (snd (projr (assign_position 4 ''a2'' (seat ''ann'' ''p2'' 3) desk_actor desk3))) =
      Some (fst (projr (assign_position 4 ''a2'' (seat ''ann'' ''p2'' 3) desk_actor desk3))) \<and>
      ep_positionId (fst (projr (assign_position 4 ''a2'' (seat ''ann'' ''p2'' 3) desk_actor desk3))) =
      as_positionId (seat ''ann'' ''p2'' 3)"
    using transfer_is_one_act [OF desk_reachable Inr_of [OF desk_runs(4)] desk_runs(6)] by blast
  moreover have "map_option ep_positionId (current_assignment ''ann'' desk3) = Some ''p1''" by code_simp
  ultimately show ?thesis by (simp add: seat_def Let_def)
qed

theorem last_seat_taken_twice_witness:
  "\<exists>a b d1 d2. take_seat 3 ''a1'' (seat ''ann'' ''p1'' 1) desk_actor desk2 = Inr (a, d1) \<and>
     take_seat 4 ''a2'' (seat ''bob'' ''p1'' 1) desk_actor d1 = Inr (b, d2) \<and> count_open_assignments ''p1'' d2 = 2"
proof -
  define p where "p = projr (assignable_position ''p1'' desk2)"
  have "\<not> isl (assignable_position ''p1'' desk2)" by code_simp
  then have p: "assignable_position ''p1'' desk2 = Inr p" unfolding p_def by (cases "assignable_position ''p1'' desk2") simp_all
  have n: "po_headcount p = count_open_assignments ''p1'' desk2 + 1" "po_headcount p = 1" unfolding p_def by code_simp+
  have e: "as_positionId (seat ''ann'' ''p1'' 1) = ''p1''" "as_positionId (seat ''bob'' ''p1'' 1) = ''p1''"
      "as_employeeId (seat ''ann'' ''p1'' 1) \<noteq> as_employeeId (seat ''bob'' ''p1'' 1)"
      "current_assignment (as_employeeId (seat ''ann'' ''p1'' 1)) desk2 = None"
      "current_assignment (as_employeeId (seat ''bob'' ''p1'' 1)) desk2 = None"
    by code_simp+
  show ?thesis using last_seat_taken_twice [OF p n(1) e] n(2) by fastforce
qed

end
