(* ===== verification/Doubles.thy ===== *)
theory Doubles
  imports Complex_Main
begin

text \<open>
  JavaScript's numbers where their rounding can matter: \<open>to_double x\<close> is the double nearest to the rational
  \<open>x\<close>, ties to even, 53 significant bits. Overflow and the subnormal range are left out; the numbers it
  is used on lie far from both. An operation on doubles is the exact one followed by \<open>to_double\<close>.
\<close>

section \<open>Rounding\<close>

fun binary_length :: "nat \<Rightarrow> nat" where
  "binary_length n = (if n = 0 then 0 else Suc (binary_length (n div 2)))"

declare binary_length.simps [simp del]

definition round_half_even :: "rat \<Rightarrow> int" where
  "round_half_even y =
     (let f = \<lfloor>y\<rfloor>; r = y - of_int f
      in if r < 1 / 2 then f else if r > 1 / 2 then f + 1 else if even f then f else f + 1)"

definition binade :: "rat \<Rightarrow> rat" where
  "binade x =
     (let (p, q) = quotient_of x; a = binary_length (nat p); b = binary_length (nat q);
          base = (2 ^ a / 2 ^ b :: rat)
      in if base \<le> x then base else base / 2)"

definition to_double_pos :: "rat \<Rightarrow> rat" where
  "to_double_pos x = (let u = binade x / 2 ^ 52 in of_int (round_half_even (x / u)) * u)"

definition to_double :: "rat \<Rightarrow> rat" where
  "to_double x = (if x = 0 then 0 else if x > 0 then to_double_pos x else - to_double_pos (- x))"

section \<open>The error of one rounding\<close>

lemma binary_length_lower: "n > 0 \<Longrightarrow> 2 ^ (binary_length n) \<le> 2 * n"
proof (induction n rule: binary_length.induct)
  case (1 n)
  show ?case
  proof (cases "n div 2 = 0")
    case True
    then have "n = 1" using "1.prems" by simp
    then show ?thesis by (simp add: binary_length.simps)
  next
    case False
    then have "2 ^ binary_length (n div 2) \<le> 2 * (n div 2)" using 1 by simp
    then show ?thesis using "1.prems" by (subst binary_length.simps) simp
  qed
qed

lemma binary_length_upper: "n < 2 ^ binary_length n"
proof (induction n rule: binary_length.induct)
  case (1 n)
  then show ?case by (cases "n = 0") (simp_all add: binary_length.simps [of n])
qed

lemma round_half_even_error: "\<bar>of_int (round_half_even y) - y\<bar> \<le> 1 / 2"
proof -
  have "of_int \<lfloor>y\<rfloor> \<le> y" "y < of_int \<lfloor>y\<rfloor> + 1" by linarith+
  then show ?thesis
    unfolding round_half_even_def Let_def by (auto simp: abs_le_iff split: if_splits)
qed

lemma binade_bounds:
  assumes "x > 0"
  shows "0 < binade x" and "binade x \<le> x"
proof -
  obtain p q where pq: "quotient_of x = (p, q)" by (cases "quotient_of x")
  have q: "q > 0" by (rule quotient_of_denom_pos [OF pq])
  have x: "x = of_int p / of_int q" by (rule quotient_of_div [OF pq])
  have p: "p > 0" using assms q by (simp add: x zero_less_divide_iff)
  let ?a = "binary_length (nat p)" and ?b = "binary_length (nat q)"
  have "(2 :: rat) ^ ?a \<le> 2 * of_int p"
  proof -
    have "(2 :: nat) ^ ?a \<le> 2 * nat p" using binary_length_lower p by simp
    then have "of_nat (2 ^ ?a) \<le> (of_nat (2 * nat p) :: rat)" by (simp only: of_nat_le_iff)
    then show ?thesis using p by (simp add: of_nat_nat)
  qed
  moreover have "of_int q \<le> (2 :: rat) ^ ?b"
  proof -
    have "of_nat (nat q) \<le> (of_nat (2 ^ ?b) :: rat)" using binary_length_upper [of "nat q"] by (simp only: of_nat_le_iff)
    then show ?thesis using q by (simp add: of_nat_nat)
  qed
  ultimately have "(2 :: rat) ^ ?a / 2 ^ ?b / 2 \<le> of_int p / of_int q"
  proof -
    assume u: "(2 :: rat) ^ ?a \<le> 2 * of_int p" and l: "of_int q \<le> (2 :: rat) ^ ?b"
    have "(2 :: rat) ^ ?a / 2 ^ ?b \<le> 2 * of_int p / of_int q"
      by (rule frac_le) (use u l p q in auto)
    then show ?thesis by simp
  qed
  then have "(2 :: rat) ^ ?a / 2 ^ ?b / 2 \<le> x" by (simp only: x)
  then show "binade x \<le> x" by (simp add: binade_def pq Let_def)
  show "0 < binade x" by (simp add: binade_def pq Let_def)
qed

lemma double_pos_error:
  assumes "x > 0"
  shows "\<bar>to_double_pos x - x\<bar> \<le> x / 2 ^ 53"
proof -
  let ?u = "binade x / 2 ^ 52"
  have u: "?u > 0" "?u \<le> x / 2 ^ 52" using binade_bounds [OF assms] by (simp_all add: divide_right_mono)
  have "to_double_pos x - x = (of_int (round_half_even (x / ?u)) - x / ?u) * ?u"
    using u(1) by (simp add: to_double_pos_def Let_def algebra_simps)
  then have "\<bar>to_double_pos x - x\<bar> = \<bar>of_int (round_half_even (x / ?u)) - x / ?u\<bar> * ?u"
    using u(1) by (simp only: abs_mult abs_of_pos)
  also have "\<dots> \<le> 1 / 2 * ?u" using round_half_even_error u(1) by (intro mult_right_mono) auto
  also have "\<dots> \<le> x / 2 ^ 53" using u(2) by simp
  finally show ?thesis .
qed

lemma double_error: "\<bar>to_double x - x\<bar> \<le> \<bar>x\<bar> / 2 ^ 53"
proof -
  consider "x = 0" | "x > 0" | "- x > 0" by linarith
  then show ?thesis
  proof cases
    case 3
    have "to_double x - x = - (to_double_pos (- x) - (- x))" using 3 by (simp add: to_double_def)
    then have "\<bar>to_double x - x\<bar> = \<bar>to_double_pos (- x) - (- x)\<bar>" by (simp only: abs_minus_cancel)
    then show ?thesis using double_pos_error [OF 3] 3 by simp
  next
    case 2
    then show ?thesis using double_pos_error [OF 2] unfolding to_double_def by (simp only: if_False abs_of_pos) auto
  qed (simp add: to_double_def)
qed

lemma double_zero [simp]: "to_double 0 = 0" by (simp add: to_double_def)

section \<open>The error of a sum\<close>

text \<open>Adding up \<open>n\<close> numbers between 0 and \<open>B\<close>, each rounded first, is off by at most \<open>n * n * B / 2 ^ 51\<close>.\<close>

lemma double_sum_error:
  fixes f :: "'a \<Rightarrow> rat"
  assumes "\<And>x. x \<in> set xs \<Longrightarrow> 0 \<le> f x \<and> f x \<le> B" and "length xs \<le> 1024" and "B \<ge> 0"
  shows "\<bar>foldl (\<lambda>s x. to_double (s + to_double (f x))) 0 xs - sum_list (map f xs)\<bar> \<le> of_nat (length xs) * of_nat (length xs) * B / 2 ^ 51"
  using assms
proof (induction xs rule: rev_induct)
  case (snoc x xs)
  let ?n = "of_nat (length xs) :: rat"
  let ?s = "foldl (\<lambda>s x. to_double (s + to_double (f x))) 0 xs" and ?S = "sum_list (map f xs)"
  have ih: "\<bar>?s - ?S\<bar> \<le> ?n * ?n * B / 2 ^ 51" using snoc by simp
  have fx: "0 \<le> f x" "f x \<le> B" using snoc.prems(1) by auto
  have n: "0 \<le> ?n" "?n \<le> 1023" using snoc.prems(2) by (simp_all add: of_nat_le_iff [where 'a = rat, of _ 1023, simplified])
  have S: "0 \<le> ?S" "?S \<le> ?n * B"
  proof -
    have *: "(\<And>y. y \<in> set ys \<Longrightarrow> 0 \<le> f y \<and> f y \<le> B) \<Longrightarrow> 0 \<le> sum_list (map f ys) \<and> sum_list (map f ys) \<le> of_nat (length ys) * B" for ys
      by (induction ys) (force simp: algebra_simps)+
    show "0 \<le> ?S" "?S \<le> ?n * B" using * [of xs] snoc.prems(1) by auto
  qed
  have nB: "?n * B \<le> 1023 * B" using n snoc.prems(3) by (intro mult_right_mono)
  have nn: "?n * ?n * B \<le> 1023 * 1023 * B"
    using n snoc.prems(3) by (intro mult_right_mono mult_mono) auto
  have e1: "\<bar>to_double (f x) - f x\<bar> \<le> B / 2 ^ 53"
    using double_error [of "f x"] fx by (auto intro: order_trans simp: divide_right_mono)
  let ?t = "?s + to_double (f x)"
  have tS: "\<bar>?t - (?S + f x)\<bar> \<le> ?n * ?n * B / 2 ^ 51 + B / 2 ^ 53" using ih e1 by linarith
  have e2: "\<bar>to_double ?t - ?t\<bar> \<le> \<bar>?t\<bar> / 2 ^ 53" by (rule double_error)
  have tb: "\<bar>?t\<bar> \<le> (?n + 2) * B"
  proof -
    have "\<bar>?t\<bar> \<le> ?S + f x + (?n * ?n * B / 2 ^ 51 + B / 2 ^ 53)" using tS S fx by linarith
    also have "\<dots> \<le> ?n * B + B + (1023 * 1023 * B / 2 ^ 51 + B / 2 ^ 53)"
      using S fx nn by (intro add_mono) (simp_all add: divide_right_mono)
    also have "\<dots> \<le> (?n + 2) * B" using snoc.prems(3) by (simp add: algebra_simps)
    finally show ?thesis .
  qed
  have "\<bar>to_double ?t - (?S + f x)\<bar> \<le> ?n * ?n * B / 2 ^ 51 + B / 2 ^ 53 + (?n + 2) * B / 2 ^ 53"
  proof -
    have "\<bar>?t\<bar> / 2 ^ 53 \<le> (?n + 2) * B / 2 ^ 53" using tb by (simp add: divide_right_mono)
    then show ?thesis using e2 tS by linarith
  qed
  also have "\<dots> = (4 * (?n * ?n * B) + ?n * B + 3 * B) / 2 ^ 53" by (simp add: field_simps)
  also have "\<dots> \<le> (4 * (?n * ?n * B) + 8 * (?n * B) + 4 * B) / 2 ^ 53"
    using snoc.prems(3) mult_nonneg_nonneg [OF n(1) snoc.prems(3)] by (intro divide_right_mono) auto
  also have "\<dots> = (?n + 1) * (?n + 1) * B / 2 ^ 51" by (simp add: field_simps)
  finally show ?case by (simp add: algebra_simps)
qed simp

end
