(* ===== verification/Performance.thy ===== *)
theory Performance
  imports RequestHooks Positions Doubles
begin

text \<open>
  Performance reviews: \<^verbatim>\<open>performance.service.ts\<close>, \<^verbatim>\<open>performance-review.type-def.ts\<close> and
  \<^verbatim>\<open>performance.drizzle-repository.ts\<close> under \<^verbatim>\<open>libs/modules/performance/src\<close>, with the two redaction
  functions and the read rule of \<^verbatim>\<open>performance.controller.ts\<close>.

  Every operation checks before it opens its transaction; the checks and the transactions are separate
  definitions, composed as the methods compose them. The constraints of migration 0029 that a
  transaction can meet throw. Goal weights are rationals; their sum is taken the way JavaScript takes
  it, in double precision (\<open>to_double\<close>). Names joined into views are left out.
\<close>

section \<open>Rows\<close>

datatype cycle_status = Cycle_draft | Cycle_open | Cycle_closed

datatype perf_status =
  Self_assessment | Manager_review | Pending_approval | Shared_review | Acknowledged_review | Cancelled_review

datatype rating = Unsatisfactory | Needs_improvement | Meets | Exceeds | Outstanding

record rating_level =
  rl_code :: rating
  rl_rank :: int
  rl_label :: string
  rl_requiresDevelopmentPlan :: bool

record review_cycle =
  cy_id :: string
  cy_reference :: string
  cy_name :: string
  cy_periodStart :: iso_date
  cy_periodEnd :: iso_date
  cy_selfAssessmentDue :: "iso_date option"
  cy_reviewDue :: iso_date
  cy_status :: cycle_status
  cy_openedAt :: "int option"
  cy_closedAt :: "int option"
  cy_createdBy :: string

record perf_review =
  rv_id :: string
  rv_cycleId :: string
  rv_employeeId :: string
  rv_reviewerId :: string
  rv_positionId :: "string option"
  rv_status :: perf_status
  rv_selfAssessment :: "string option"
  rv_selfAssessmentSubmittedAt :: "int option"
  rv_managerSummary :: "string option"
  rv_overallRating :: "rating option"
  rv_developmentPlan :: "string option"
  rv_ratedAt :: "int option"
  rv_requestId :: "string option"
  rv_approvedBy :: "string option"
  rv_approvedAt :: "int option"
  rv_acknowledgedAt :: "int option"
  rv_createdBy :: string
  rv_createdAt :: int

record perf_goal =
  pg_id :: string
  pg_reviewId :: string
  pg_title :: string
  pg_description :: "string option"
  pg_target :: "string option"
  pg_weight :: rat
  pg_outcome :: "string option"
  pg_rating :: "rating option"

record cycle_input =
  ci_reference :: string
  ci_name :: string
  ci_periodStart :: iso_date
  ci_periodEnd :: iso_date
  ci_selfAssessmentDue :: "iso_date option"
  ci_reviewDue :: iso_date

record review_input =
  rn_cycleId :: string
  rn_employeeId :: string
  rn_reviewerId :: string

record goal_input =
  gi_reviewId :: string
  gi_title :: string
  gi_description :: "string option"
  gi_target :: "string option"
  gi_weight :: rat

record goal_grade =
  gg_id :: string
  gg_outcome :: "string option"
  gg_rating :: rating

record rate_input =
  ra_managerSummary :: string
  ra_overallRating :: rating
  ra_developmentPlan :: "string option"
  ra_goals :: "goal_grade list"

record perf_filters =
  pq_cycleId :: "string option"
  pq_employeeId :: "string option"
  pq_reviewerId :: "string option"
  pq_status :: "perf_status option"

record staff_row =
  sf_id :: string
  sf_displayName :: string
  sf_email :: string
  sf_status :: employee_status

record review_payload =
  rp_reviewId :: string
  rp_cycleId :: string
  rp_employeeId :: string
  rp_reviewerId :: string
  rp_overallRating :: rating

record perf_db =
  pf_scale :: "rating_level list"
  pf_cycles :: "review_cycle list"
  pf_reviews :: "perf_review list"
  pf_goals :: "perf_goal list"
  pf_positions :: positions_db
  pf_staff :: "staff_row list"
  pf_audit :: "audit_entry list"

definition perf_record :: "string \<Rightarrow> string \<Rightarrow> string \<Rightarrow> perf_db \<Rightarrow> perf_db" where
  "perf_record who action resourceId d =
     d\<lparr>pf_audit := pf_audit d @
       [\<lparr>au_actorId = Some who, au_action = action, au_resourceId = resourceId\<rparr>]\<rparr>"

section \<open>Guarded updates\<close>

text \<open>
  An update of a review with the states it expects in its \<^verbatim>\<open>where\<close> clause: the updated row, or \<open>None\<close>
  when nothing matched.
\<close>

definition update_review ::
    "string \<Rightarrow> perf_status list \<Rightarrow> (perf_review \<Rightarrow> perf_review) \<Rightarrow> perf_db \<Rightarrow> (perf_review \<times> perf_db) option" where
  "update_review i expected f d =
     (case find_row rv_id i (pf_reviews d) of
        None \<Rightarrow> None
      | Some r \<Rightarrow>
          if rv_status r \<in> set expected
          then Some (f r, d\<lparr>pf_reviews := modify_row rv_id i f (pf_reviews d)\<rparr>) else None)"

definition REASSIGNABLE :: "perf_status list" where
  "REASSIGNABLE = [Self_assessment, Manager_review]"

definition CANCELLABLE :: "perf_status list" where
  "CANCELLABLE = [Self_assessment, Manager_review, Pending_approval]"

definition SETTLED_REVIEW_STATUSES :: "perf_status list" where
  "SETTLED_REVIEW_STATUSES = [Acknowledged_review, Cancelled_review]"

definition must_find_cycle :: "string \<Rightarrow> perf_db \<Rightarrow> review_cycle result" where
  "must_find_cycle i d =
     (case find_row cy_id i (pf_cycles d) of
        None \<Rightarrow> Inl (NotFoundException ''NOT_FOUND'') | Some c \<Rightarrow> Inr c)"

definition must_find_review :: "string \<Rightarrow> perf_db \<Rightarrow> perf_review result" where
  "must_find_review i d =
     (case find_row rv_id i (pf_reviews d) of
        None \<Rightarrow> Inl (NotFoundException ''NOT_FOUND'') | Some r \<Rightarrow> Inr r)"

text \<open>The last steps of a transaction that moves a review: refuse when nothing matched, else audit.\<close>

definition recorded_move ::
    "string \<Rightarrow> app_error \<Rightarrow> string \<Rightarrow> string \<Rightarrow> (perf_review \<times> perf_db) option \<Rightarrow> (perf_review \<times> perf_db) result" where
  "recorded_move who err action i moved =
     (case moved of None \<Rightarrow> Inl err | Some (r, d) \<Rightarrow> Inr (r, perf_record who action i d))"

abbreviation not_in_state :: app_error where
  "not_in_state \<equiv> PreconditionFailedException ''PERFORMANCE_REVIEW_NOT_IN_STATE''"

section \<open>Cycles\<close>

definition create_cycle ::
    "string \<Rightarrow> cycle_input \<Rightarrow> actor \<Rightarrow> perf_db \<Rightarrow> (review_cycle \<times> perf_db) result" where
  "create_cycle i input actor d =
     (if ci_periodEnd input < ci_periodStart input then Inl (PreconditionFailedException ''PRECONDITION_FAILED'')
      else if ci_reviewDue input < ci_periodEnd input then Inl (PreconditionFailedException ''PRECONDITION_FAILED'')
      else if (case ci_selfAssessmentDue input of None \<Rightarrow> False | Some s \<Rightarrow> s > ci_reviewDue input)
      then Inl (PreconditionFailedException ''PRECONDITION_FAILED'')
      else if find_row cy_reference (ci_reference input) (pf_cycles d) \<noteq> None then Inl (ConflictException ''CONFLICT'')
      else let c = \<lparr>cy_id = i, cy_reference = ci_reference input, cy_name = ci_name input,
                    cy_periodStart = ci_periodStart input, cy_periodEnd = ci_periodEnd input,
                    cy_selfAssessmentDue = ci_selfAssessmentDue input, cy_reviewDue = ci_reviewDue input,
                    cy_status = Cycle_draft, cy_openedAt = None, cy_closedAt = None,
                    cy_createdBy = ac_sub actor\<rparr>
           in Inr (c, perf_record (ac_sub actor) ''performance.cycle_created'' i
                        (d\<lparr>pf_cycles := pf_cycles d @ [c]\<rparr>)))"

definition open_cycle :: "int \<Rightarrow> string \<Rightarrow> actor \<Rightarrow> perf_db \<Rightarrow> (review_cycle \<times> perf_db) result" where
  "open_cycle now i actor d =
     (case find_row cy_id i (pf_cycles d) of
        None \<Rightarrow> Inl (NotFoundException ''NOT_FOUND'')
      | Some c \<Rightarrow>
          if cy_status c \<noteq> Cycle_draft then Inl not_in_state
          else let f = (\<lambda>c. c\<lparr>cy_status := Cycle_open, cy_openedAt := Some now\<rparr>)
               in Inr (f c, perf_record (ac_sub actor) ''performance.cycle_opened'' i
                          (d\<lparr>pf_cycles := modify_row cy_id i f (pf_cycles d)\<rparr>)))"

definition unfinished :: "perf_review \<Rightarrow> bool" where
  "unfinished r \<longleftrightarrow> rv_status r \<noteq> Acknowledged_review \<and> rv_status r \<noteq> Cancelled_review"

definition count_unfinished_reviews :: "string \<Rightarrow> perf_db \<Rightarrow> nat" where
  "count_unfinished_reviews cycleId d =
     length (filter (\<lambda>r. rv_cycleId r = cycleId \<and> unfinished r) (pf_reviews d))"

text \<open>The transaction of a close in two halves: the count, and the guarded update.\<close>

definition close_count :: "string \<Rightarrow> perf_db \<Rightarrow> review_cycle result" where
  "close_count i d =
     and_then (must_find_cycle i d) (\<lambda>c.
       if count_unfinished_reviews i d > 0
       then Inl (PreconditionFailedException ''PERFORMANCE_CYCLE_HAS_OPEN_REVIEWS'') else Inr c)"

definition close_update :: "int \<Rightarrow> string \<Rightarrow> actor \<Rightarrow> perf_db \<Rightarrow> (review_cycle \<times> perf_db) result" where
  "close_update now i actor d =
     (case find_row cy_id i (pf_cycles d) of
        None \<Rightarrow> Inl not_in_state
      | Some c \<Rightarrow>
          if cy_status c \<noteq> Cycle_open then Inl not_in_state
          else let f = (\<lambda>c. c\<lparr>cy_status := Cycle_closed, cy_closedAt := Some now\<rparr>)
               in Inr (f c, perf_record (ac_sub actor) ''performance.cycle_closed'' i
                          (d\<lparr>pf_cycles := modify_row cy_id i f (pf_cycles d)\<rparr>)))"

definition close_cycle :: "int \<Rightarrow> string \<Rightarrow> actor \<Rightarrow> perf_db \<Rightarrow> (review_cycle \<times> perf_db) result" where
  "close_cycle now i actor d = and_then (close_count i d) (\<lambda>_. close_update now i actor d)"

section \<open>Reviews\<close>

text \<open>What creating a review settles before its transaction: the cycle, the position, the first state.\<close>

definition create_review_check :: "review_input \<Rightarrow> perf_db \<Rightarrow> (string option \<times> perf_status) result" where
  "create_review_check input d =
     and_then (must_find_cycle (rn_cycleId input) d) (\<lambda>c.
       if cy_status c \<noteq> Cycle_open then Inl (PreconditionFailedException ''PERFORMANCE_CYCLE_NOT_OPEN'')
       else if rn_reviewerId input = rn_employeeId input
       then Inl (PreconditionFailedException ''PERFORMANCE_SELF_REVIEW'')
       else if \<exists>r \<in> set (pf_reviews d). rv_cycleId r = rn_cycleId input \<and> rv_employeeId r = rn_employeeId input
       then Inl (ConflictException ''CONFLICT'')
       else Inr (map_option ep_positionId (current_assignment (rn_employeeId input) (pf_positions d)),
                 if cy_selfAssessmentDue c = None then Manager_review else Self_assessment))"

definition create_review_commit ::
    "int \<Rightarrow> string \<Rightarrow> review_input \<Rightarrow> string option \<times> perf_status \<Rightarrow> actor \<Rightarrow> perf_db \<Rightarrow>
     (perf_review \<times> perf_db) result" where
  "create_review_commit now i input start actor d =
     (if \<exists>r \<in> set (pf_reviews d). rv_cycleId r = rn_cycleId input \<and> rv_employeeId r = rn_employeeId input
      then Inl (ThrownError ''ux_review_cycle_employee'')
      else let r = \<lparr>rv_id = i, rv_cycleId = rn_cycleId input, rv_employeeId = rn_employeeId input,
                    rv_reviewerId = rn_reviewerId input, rv_positionId = fst start, rv_status = snd start,
                    rv_selfAssessment = None, rv_selfAssessmentSubmittedAt = None, rv_managerSummary = None,
                    rv_overallRating = None, rv_developmentPlan = None, rv_ratedAt = None, rv_requestId = None,
                    rv_approvedBy = None, rv_approvedAt = None, rv_acknowledgedAt = None,
                    rv_createdBy = ac_sub actor, rv_createdAt = now\<rparr>
           in Inr (r, perf_record (ac_sub actor) ''performance.review_created'' i
                        (d\<lparr>pf_reviews := pf_reviews d @ [r]\<rparr>)))"

definition create_review ::
    "int \<Rightarrow> string \<Rightarrow> review_input \<Rightarrow> actor \<Rightarrow> perf_db \<Rightarrow> (perf_review \<times> perf_db) result" where
  "create_review now i input actor d =
     and_then (create_review_check input d) (\<lambda>start. create_review_commit now i input start actor d)"

definition reassign_check :: "string \<Rightarrow> string \<Rightarrow> perf_db \<Rightarrow> unit result" where
  "reassign_check i reviewerId d =
     and_then (must_find_review i d) (\<lambda>r.
       if reviewerId = rv_employeeId r then Inl (PreconditionFailedException ''PERFORMANCE_SELF_REVIEW'') else Inr ())"

definition reassign_commit :: "string \<Rightarrow> string \<Rightarrow> actor \<Rightarrow> perf_db \<Rightarrow> (perf_review \<times> perf_db) result" where
  "reassign_commit i reviewerId actor d =
     recorded_move (ac_sub actor) not_in_state ''performance.review_reviewer_changed'' i
       (update_review i REASSIGNABLE (\<lambda>r. r\<lparr>rv_reviewerId := reviewerId\<rparr>) d)"

definition reassign_reviewer :: "string \<Rightarrow> string \<Rightarrow> actor \<Rightarrow> perf_db \<Rightarrow> (perf_review \<times> perf_db) result" where
  "reassign_reviewer i reviewerId actor d =
     and_then (reassign_check i reviewerId d) (\<lambda>_. reassign_commit i reviewerId actor d)"

definition submit_self_assessment ::
    "int \<Rightarrow> string \<Rightarrow> string \<Rightarrow> actor \<Rightarrow> perf_db \<Rightarrow> (perf_review \<times> perf_db) result" where
  "submit_self_assessment now i words actor d =
     and_then (must_find_review i d) (\<lambda>_.
       recorded_move (ac_sub actor) not_in_state ''performance.self_assessment_submitted'' i
         (update_review i [Self_assessment]
            (\<lambda>r. r\<lparr>rv_selfAssessment := Some words, rv_selfAssessmentSubmittedAt := Some now,
                   rv_status := Manager_review\<rparr>) d))"

definition acknowledge_review :: "int \<Rightarrow> string \<Rightarrow> actor \<Rightarrow> perf_db \<Rightarrow> (perf_review \<times> perf_db) result" where
  "acknowledge_review now i actor d =
     and_then (must_find_review i d) (\<lambda>_.
       recorded_move (ac_sub actor) not_in_state ''performance.review_acknowledged'' i
         (update_review i [Shared_review]
            (\<lambda>r. r\<lparr>rv_status := Acknowledged_review, rv_acknowledgedAt := Some now\<rparr>) d))"

definition cancel_review :: "string \<Rightarrow> actor \<Rightarrow> perf_db \<Rightarrow> (perf_review \<times> perf_db) result" where
  "cancel_review i actor d =
     and_then (must_find_review i d) (\<lambda>_.
       recorded_move (ac_sub actor) (PreconditionFailedException ''PERFORMANCE_REVIEW_SETTLED'')
         ''performance.review_cancelled'' i
         (update_review i CANCELLABLE (\<lambda>r. r\<lparr>rv_status := Cancelled_review\<rparr>) d))"

section \<open>Goals\<close>

definition assert_goals_editable :: "perf_review \<Rightarrow> unit result" where
  "assert_goals_editable r =
     (if rv_status r \<in> set SETTLED_REVIEW_STATUSES then Inl (ConflictException ''PERFORMANCE_REVIEW_SETTLED'')
      else if rv_status r \<noteq> Self_assessment \<and> rv_status r \<noteq> Manager_review then Inl not_in_state
      else Inr ())"

definition goals_editable :: "string \<Rightarrow> perf_db \<Rightarrow> perf_review result" where
  "goals_editable i d = and_then (must_find_review i d) (\<lambda>r. and_then (assert_goals_editable r) (\<lambda>_. Inr r))"

definition set_goal_commit :: "string \<Rightarrow> goal_input \<Rightarrow> actor \<Rightarrow> perf_db \<Rightarrow> perf_db result" where
  "set_goal_commit i input actor d =
     (if gi_weight input \<le> 0 \<or> gi_weight input > 100 then Inl (ThrownError ''ck_goal_weight_range'')
      else let same = (\<lambda>g. pg_reviewId g = gi_reviewId input \<and> pg_title g = gi_title input);
               edit = (\<lambda>g. g\<lparr>pg_description := gi_description input, pg_target := gi_target input,
                            pg_weight := gi_weight input\<rparr>);
               fresh = \<lparr>pg_id = i, pg_reviewId = gi_reviewId input, pg_title = gi_title input,
                        pg_description = gi_description input, pg_target = gi_target input,
                        pg_weight = gi_weight input, pg_outcome = None, pg_rating = None\<rparr>
           in Inr (perf_record (ac_sub actor) ''performance.goal_set'' (gi_reviewId input)
                (d\<lparr>pf_goals := (if list_ex same (pf_goals d) then update_where same edit (pf_goals d)
                                else pf_goals d @ [fresh])\<rparr>)))"

definition set_goal :: "string \<Rightarrow> goal_input \<Rightarrow> actor \<Rightarrow> perf_db \<Rightarrow> perf_db result" where
  "set_goal i input actor d = and_then (goals_editable (gi_reviewId input) d) (\<lambda>_. set_goal_commit i input actor d)"

definition remove_goal_commit :: "string \<Rightarrow> string \<Rightarrow> actor \<Rightarrow> perf_db \<Rightarrow> perf_db result" where
  "remove_goal_commit reviewId goalId actor d =
     (case find_row pg_id goalId (pf_goals d) of
        None \<Rightarrow> Inl (NotFoundException ''NOT_FOUND'')
      | Some g \<Rightarrow>
          if pg_reviewId g \<noteq> reviewId then Inl (NotFoundException ''NOT_FOUND'')
          else Inr (perf_record (ac_sub actor) ''performance.goal_removed'' reviewId
                 (d\<lparr>pf_goals := filter (\<lambda>g. pg_id g \<noteq> goalId) (pf_goals d)\<rparr>)))"

definition remove_goal :: "string \<Rightarrow> string \<Rightarrow> actor \<Rightarrow> perf_db \<Rightarrow> perf_db result" where
  "remove_goal reviewId goalId actor d =
     and_then (goals_editable reviewId d) (\<lambda>_. remove_goal_commit reviewId goalId actor d)"

definition list_goals :: "string \<Rightarrow> perf_db \<Rightarrow> perf_goal list" where
  "list_goals reviewId d =
     sort_key (\<lambda>g. (- pg_weight g, pg_title g)) (filter (\<lambda>g. pg_reviewId g = reviewId) (pf_goals d))"

definition rate_goal :: "string \<Rightarrow> goal_grade \<Rightarrow> perf_db \<Rightarrow> perf_db option" where
  "rate_goal reviewId x d =
     (if list_ex (\<lambda>g. pg_id g = gg_id x \<and> pg_reviewId g = reviewId) (pf_goals d)
      then Some (d\<lparr>pf_goals := update_where (\<lambda>g. pg_id g = gg_id x \<and> pg_reviewId g = reviewId)
                    (\<lambda>g. g\<lparr>pg_outcome := gg_outcome x, pg_rating := Some (gg_rating x)\<rparr>) (pf_goals d)\<rparr>)
      else None)"

section \<open>Rating\<close>

definition assert_is_reviewer :: "perf_review \<Rightarrow> actor \<Rightarrow> unit result" where
  "assert_is_reviewer r actor =
     (if rv_reviewerId r \<noteq> ac_sub actor then Inl (PreconditionFailedException ''PERFORMANCE_NOT_THE_REVIEWER'')
      else Inr ())"

definition plan_of :: "string option \<Rightarrow> string option" where
  "plan_of p = (case p of None \<Rightarrow> None | Some t \<Rightarrow> if trim t = [] then None else Some (trim t))"

text \<open>The check gives the development plan the rating is stored with.\<close>

definition rate_check :: "string \<Rightarrow> rate_input \<Rightarrow> actor \<Rightarrow> perf_db \<Rightarrow> string option result" where
  "rate_check i input actor d =
     and_then (must_find_review i d) (\<lambda>r.
     and_then (assert_is_reviewer r actor) (\<lambda>_.
       case find_row rl_code (ra_overallRating input) (pf_scale d) of
         None \<Rightarrow> Inl (NotFoundException ''NOT_FOUND'')
       | Some level \<Rightarrow>
           let plan = plan_of (ra_developmentPlan input)
           in if rl_requiresDevelopmentPlan level \<and> plan = None
              then Inl (PreconditionFailedException ''PERFORMANCE_DEVELOPMENT_PLAN_REQUIRED'') else Inr plan))"

fun rate_goals :: "string \<Rightarrow> goal_grade list \<Rightarrow> perf_db \<Rightarrow> perf_db result" where
  "rate_goals i [] d = Inr d"
| "rate_goals i (x # xs) d =
     (case rate_goal i x d of None \<Rightarrow> Inl (NotFoundException ''NOT_FOUND'') | Some d' \<Rightarrow> rate_goals i xs d')"

definition rate_commit ::
    "int \<Rightarrow> string \<Rightarrow> rate_input \<Rightarrow> string option \<Rightarrow> actor \<Rightarrow> perf_db \<Rightarrow> (perf_review \<times> perf_db) result" where
  "rate_commit now i input plan actor d =
     (case update_review i [Manager_review]
             (\<lambda>r. r\<lparr>rv_managerSummary := Some (ra_managerSummary input),
                    rv_overallRating := Some (ra_overallRating input), rv_developmentPlan := plan,
                    rv_ratedAt := Some now\<rparr>) d of
        None \<Rightarrow> Inl not_in_state
      | Some (r, d1) \<Rightarrow>
          and_then (rate_goals i (ra_goals input) d1) (\<lambda>d2.
            Inr (r, perf_record (ac_sub actor) ''performance.review_rated'' i d2)))"

definition rate :: "int \<Rightarrow> string \<Rightarrow> rate_input \<Rightarrow> actor \<Rightarrow> perf_db \<Rightarrow> (perf_review \<times> perf_db) result" where
  "rate now i input actor d = and_then (rate_check i input actor d) (\<lambda>plan. rate_commit now i input plan actor d)"

section \<open>The request type\<close>

definition apply_approval :: "int \<Rightarrow> string \<Rightarrow> string \<Rightarrow> perf_db \<Rightarrow> perf_db result" where
  "apply_approval now reviewId approverId d =
     (case update_review reviewId [Pending_approval]
             (\<lambda>r. r\<lparr>rv_status := Shared_review, rv_approvedBy := Some approverId, rv_approvedAt := Some now\<rparr>) d of
        None \<Rightarrow> Inl not_in_state
      | Some (r, d') \<Rightarrow> Inr (perf_record approverId ''performance.review_approved'' reviewId d'))"

definition apply_return :: "string \<Rightarrow> string \<Rightarrow> perf_db \<Rightarrow> perf_db" where
  "apply_return reviewId actorId d =
     (case update_review reviewId [Pending_approval] (\<lambda>r. r\<lparr>rv_status := Manager_review, rv_requestId := None\<rparr>) d of
        None \<Rightarrow> d
      | Some (r, d') \<Rightarrow> perf_record actorId ''performance.review_returned'' reviewId d')"

definition review_on_approve :: "review_payload \<Rightarrow> string \<Rightarrow> string \<Rightarrow> int \<Rightarrow> perf_db \<Rightarrow> perf_db result" where
  "review_on_approve payload requestId approverId now d =
     (if approverId = rp_employeeId payload then Inl (PreconditionFailedException ''PERFORMANCE_EMPLOYEE_APPROVAL'')
      else apply_approval now (rp_reviewId payload) approverId d)"

definition review_on_reject :: "review_payload \<Rightarrow> string \<Rightarrow> string \<Rightarrow> int \<Rightarrow> perf_db \<Rightarrow> perf_db result" where
  "review_on_reject payload requestId reviewerId now d = Inr (apply_return (rp_reviewId payload) reviewerId d)"

definition review_on_expire :: "review_payload \<Rightarrow> string \<Rightarrow> int \<Rightarrow> perf_db \<Rightarrow> perf_db result" where
  "review_on_expire payload requestId now d =
     Inr (apply_return (rp_reviewId payload) (rp_reviewerId payload) d)"

definition review_type :: "(review_payload, perf_db) type_def" where
  "review_type =
     \<lparr>td_type = ''performance_review'', td_requiredApprovalPermission = ''performance.approve'',
      td_allowSelfApproval = False, td_defaultExpiryHours = Some (14 * 24), td_slaHours = Some (5 * 24),
      td_approvalSteps = None, td_onSubmit = None, td_onApprove = review_on_approve, td_onStepApproved = None,
      td_onReject = Some review_on_reject, td_onCancel = None, td_onExpire = Some review_on_expire\<rparr>"

definition review_registry :: "(review_payload, perf_db) registry" where
  "review_registry = register review_type []"

section \<open>Sending for approval\<close>

type_synonym perf_state = "(review_payload, perf_db) engine_db"

definition goals_total :: "perf_goal list \<Rightarrow> rat" where
  "goals_total gs = foldl (\<lambda>s g. to_double (s + to_double (pg_weight g))) 0 gs"

definition weights_off :: "perf_goal list \<Rightarrow> bool" where
  "weights_off gs \<longleftrightarrow> \<bar>to_double (goals_total gs - 100)\<bar> > to_double (1 / 100)"

definition assert_goals_complete :: "perf_goal list \<Rightarrow> unit result" where
  "assert_goals_complete gs =
     (if gs = [] then Inr ()
      else if weights_off gs then Inl (PreconditionFailedException ''PERFORMANCE_GOAL_WEIGHTS_INVALID'')
      else if filter (\<lambda>g. pg_rating g = None) gs \<noteq> []
      then Inl (PreconditionFailedException ''PERFORMANCE_GOAL_WEIGHTS_INVALID'') else Inr ())"

text \<open>What is checked before the request is filed, and the payload it is filed with.\<close>

definition submit_review_check :: "string \<Rightarrow> actor \<Rightarrow> perf_db \<Rightarrow> review_payload result" where
  "submit_review_check i actor d =
     and_then (must_find_review i d) (\<lambda>r.
     and_then (assert_is_reviewer r actor) (\<lambda>_.
       case (rv_overallRating r, rv_managerSummary r) of
         (Some rating, Some summary) \<Rightarrow>
           if summary = [] then Inl not_in_state
           else and_then (assert_goals_complete (list_goals i d)) (\<lambda>_.
             Inr \<lparr>rp_reviewId = rv_id r, rp_cycleId = rv_cycleId r, rp_employeeId = rv_employeeId r,
                  rp_reviewerId = rv_reviewerId r, rp_overallRating = rating\<rparr>)
       | _ \<Rightarrow> Inl not_in_state))"

definition file_review ::
    "request_env \<Rightarrow> string \<Rightarrow> review_payload \<Rightarrow> actor \<Rightarrow> perf_state \<Rightarrow>
     (review_payload request_item \<times> perf_state) result" where
  "file_review env engineId payload actor db =
     submit env review_registry engineId ''performance_review'' payload actor no_options db"

definition mark_pending_approval ::
    "string \<Rightarrow> string \<Rightarrow> actor \<Rightarrow> perf_db \<Rightarrow> (perf_review \<times> perf_db) result" where
  "mark_pending_approval i engineId actor d =
     (case update_review i [Manager_review]
             (\<lambda>r. r\<lparr>rv_status := Pending_approval, rv_requestId := Some engineId\<rparr>) d of
        None \<Rightarrow> Inl not_in_state
      | Some (r, d') \<Rightarrow>
          if rv_overallRating r = None then Inl (ThrownError ''ck_review_rating_before_sharing'')
          else Inr (r, perf_record (ac_sub actor) ''performance.review_submitted_for_approval'' i d'))"

text \<open>Two transactions: a request that was filed stays when the review can no longer be marked.\<close>

definition submit_review ::
    "request_env \<Rightarrow> string \<Rightarrow> string \<Rightarrow> actor \<Rightarrow> perf_state \<Rightarrow> perf_review result \<times> perf_state" where
  "submit_review env engineId i actor db =
     (case submit_review_check i actor (domain_db db) of
        Inl e \<Rightarrow> (Inl e, db)
      | Inr payload \<Rightarrow>
          (case file_review env engineId payload actor db of
             Inl e \<Rightarrow> (Inl e, db)
           | Inr (item, db1) \<Rightarrow>
               (case mark_pending_approval i (ri_id item) actor (domain_db db1) of
                  Inl e \<Rightarrow> (Inl e, db1)
                | Inr (r, d') \<Rightarrow> (Inr r, db1\<lparr>domain_db := d'\<rparr>))))"

section \<open>Reading\<close>

definition list_reviews :: "perf_filters \<Rightarrow> nat \<Rightarrow> nat \<Rightarrow> perf_db \<Rightarrow> perf_review list \<times> nat" where
  "list_reviews f limit offset d =
     (let asked = (\<lambda>want got. case want of None \<Rightarrow> True | Some x \<Rightarrow> x = [] \<or> got = x);
          found = filter (\<lambda>r. asked (pq_cycleId f) (rv_cycleId r) \<and> asked (pq_employeeId f) (rv_employeeId r) \<and>
              asked (pq_reviewerId f) (rv_reviewerId r) \<and>
              (case pq_status f of None \<Rightarrow> True | Some s \<Rightarrow> rv_status r = s)) (pf_reviews d)
      in (take limit (drop offset (sort_key (\<lambda>r. (- rv_createdAt r, rv_id r)) found)), length found))"

definition list_cycles :: "cycle_status option \<Rightarrow> nat \<Rightarrow> nat \<Rightarrow> perf_db \<Rightarrow> review_cycle list \<times> nat" where
  "list_cycles status limit offset d =
     (let found = filter (\<lambda>c. case status of None \<Rightarrow> True | Some s \<Rightarrow> cy_status c = s) (pf_cycles d)
      in (take limit (drop offset (rev (sort_key (\<lambda>c. (day_of (cy_periodStart c), cy_id c)) found))), length found))"

definition perf_statuses :: "perf_status list" where
  "perf_statuses =
     [Self_assessment, Manager_review, Pending_approval, Shared_review, Acknowledged_review, Cancelled_review]"

text \<open>Grouped by status in the order of the enum; a status nobody is in has no group.\<close>

definition cycle_progress :: "string \<Rightarrow> perf_db \<Rightarrow> (perf_status \<times> nat) list result" where
  "cycle_progress i d =
     and_then (must_find_cycle i d) (\<lambda>_.
       Inr (filter (\<lambda>(s, n). n > 0)
         (map (\<lambda>s. (s, length (filter (\<lambda>r. rv_cycleId r = i \<and> rv_status r = s) (pf_reviews d)))) perf_statuses)))"

type_synonym coverage_gap = "staff_row \<times> perf_review option \<times> string option"

definition gap_rows :: "string \<Rightarrow> perf_db \<Rightarrow> coverage_gap list" where
  "gap_rows cycleId d =
     [(e, r, p).
        e \<leftarrow> filter (\<lambda>e. sf_status e = Employee_active) (pf_staff d),
        r \<leftarrow> (let rs = filter (\<lambda>r. rv_employeeId r = sf_id e \<and> rv_cycleId r = cycleId) (pf_reviews d)
             in if rs = [] then [None] else map Some rs),
        (case r of None \<Rightarrow> True | Some r \<Rightarrow> unfinished r),
        p \<leftarrow> (let ps = filter (\<lambda>a. ep_employeeId a = sf_id e \<and> is_open_assignment a)
                      (pos_assignments (pf_positions d))
             in if ps = [] then [None] else map (\<lambda>a. Some (ep_positionId a)) ps)]"

definition status_rank :: "perf_status \<Rightarrow> nat" where
  "status_rank s = length (takeWhile (\<lambda>t. t \<noteq> s) perf_statuses)"

definition coverage_gaps :: "string \<Rightarrow> nat \<Rightarrow> nat \<Rightarrow> perf_db \<Rightarrow> (coverage_gap list \<times> nat) result" where
  "coverage_gaps cycleId limit offset d =
     and_then (must_find_cycle cycleId d) (\<lambda>_.
       let rows = gap_rows cycleId d
       in Inr (take limit (drop offset (sort_key (\<lambda>(e, r, p).
                 (case r of None \<Rightarrow> 0 | Some r \<Rightarrow> Suc (status_rank (rv_status r)), sf_displayName e, sf_id e)) rows)),
               length (remdups (map (\<lambda>(e, r, p). sf_id e) rows))))"

text \<open>What the routes show: the judgement is blanked for the person it is about until it is released.\<close>

definition released_to_subject :: "perf_status \<Rightarrow> bool" where
  "released_to_subject s \<longleftrightarrow> s = Shared_review \<or> s = Acknowledged_review"

definition redact_judgement :: "string \<Rightarrow> perf_review \<Rightarrow> perf_review" where
  "redact_judgement viewer r =
     (if rv_employeeId r \<noteq> viewer then r
      else if released_to_subject (rv_status r) then r
      else r\<lparr>rv_managerSummary := None, rv_overallRating := None, rv_developmentPlan := None, rv_ratedAt := None\<rparr>)"

definition redact_goal :: "perf_review \<Rightarrow> string \<Rightarrow> perf_goal \<Rightarrow> perf_goal" where
  "redact_goal r viewer g =
     (if rv_employeeId r \<noteq> viewer then g
      else if released_to_subject (rv_status r) then g
      else g\<lparr>pg_rating := None, pg_outcome := None\<rparr>)"

definition must_see_review :: "request_env \<Rightarrow> string \<Rightarrow> string \<Rightarrow> perf_db \<Rightarrow> perf_review result" where
  "must_see_review env viewer i d =
     and_then (must_find_review i d) (\<lambda>r.
       if rv_employeeId r = viewer \<or> rv_reviewerId r = viewer then Inr r
       else if ev_check env viewer ''performance.read'' then Inr r
       else Inl (PermissionDeniedException ''FORBIDDEN''))"

definition get_review_route :: "request_env \<Rightarrow> string \<Rightarrow> string \<Rightarrow> perf_db \<Rightarrow> perf_review result" where
  "get_review_route env viewer i d =
     and_then (must_see_review env viewer i d) (\<lambda>r. Inr (redact_judgement viewer r))"

definition list_goals_route :: "request_env \<Rightarrow> string \<Rightarrow> string \<Rightarrow> perf_db \<Rightarrow> perf_goal list result" where
  "list_goals_route env viewer i d =
     and_then (must_see_review env viewer i d) (\<lambda>r. Inr (map (redact_goal r viewer) (list_goals i d)))"

definition list_reviews_route ::
    "string \<Rightarrow> perf_filters \<Rightarrow> nat \<Rightarrow> nat \<Rightarrow> perf_db \<Rightarrow> perf_review list \<times> nat" where
  "list_reviews_route viewer f limit offset d =
     (let (rows, total) = list_reviews f limit offset d in (map (redact_judgement viewer) rows, total))"

definition self_assessment_route ::
    "int \<Rightarrow> string \<Rightarrow> string \<Rightarrow> actor \<Rightarrow> perf_db \<Rightarrow> (perf_review \<times> perf_db) result" where
  "self_assessment_route now i words actor d =
     and_then (must_find_review i d) (\<lambda>r.
       if rv_employeeId r \<noteq> ac_sub actor then Inl (PermissionDeniedException ''FORBIDDEN'')
       else submit_self_assessment now i words actor d)"

definition acknowledge_route :: "int \<Rightarrow> string \<Rightarrow> actor \<Rightarrow> perf_db \<Rightarrow> (perf_review \<times> perf_db) result" where
  "acknowledge_route now i actor d =
     and_then (must_find_review i d) (\<lambda>r.
       if rv_employeeId r \<noteq> ac_sub actor then Inl (PermissionDeniedException ''FORBIDDEN'')
       else acknowledge_review now i actor d)"

end
