(* ===== verification/PerformanceSafety.thy ===== *)
theory PerformanceSafety
  imports Performance ModuleRaces
begin

text \<open>
  The performance module under concurrent callers: each operation looks, then commits, and another caller
  may run between the two; submissions file their request in a transaction of their own. The invariant
  says what holds of every review, and what stands behind a review its subject may read.
\<close>

section \<open>Steps\<close>

datatype perf_call =
    Creating review_input "string option \<times> perf_status" actor
  | Reassigning string string actor
  | Setting_goal goal_input actor
  | Removing_goal string string actor
  | Rating_review string rate_input "string option" actor
  | Submitting review_payload actor
  | Marking string string actor
  | Closing_cycle string actor

fun perf_filing :: "perf_call \<Rightarrow> (string \<times> review_payload \<times> actor \<times> submit_options) option" where
  "perf_filing (Submitting payload actor) = Some (''performance_review'', payload, actor, no_options)"
| "perf_filing _ = None"

fun perf_filed :: "perf_call \<Rightarrow> string \<Rightarrow> perf_call" where
  "perf_filed (Submitting payload actor) engineId = Marking (rp_reviewId payload) engineId actor"
| "perf_filed c engineId = c"

inductive perf_own :: "perf_db \<Rightarrow> perf_call list \<Rightarrow> perf_db \<Rightarrow> perf_call list \<Rightarrow> bool" where
  pw_cycle: "create_cycle i input actor d = Inr (c, d') \<Longrightarrow> perf_own d cs d' cs"
| pw_open: "open_cycle now i actor d = Inr (c, d') \<Longrightarrow> perf_own d cs d' cs"
| pw_close_count: "close_count i d = Inr c \<Longrightarrow> perf_own d cs d (cs @ [Closing_cycle i actor])"
| pw_close: "Closing_cycle i actor \<in> set cs \<Longrightarrow> close_update now i actor d = Inr (c, d') \<Longrightarrow>
    perf_own d cs d' (remove1 (Closing_cycle i actor) cs)"
| pw_create_check: "create_review_check input d = Inr s \<Longrightarrow> perf_own d cs d (cs @ [Creating input s actor])"
| pw_create: "Creating input s actor \<in> set cs \<Longrightarrow> create_review_commit now i input s actor d = Inr (r, d') \<Longrightarrow>
    find_row rv_id i (pf_reviews d) = None \<Longrightarrow> perf_own d cs d' (remove1 (Creating input s actor) cs)"
| pw_reassign_check: "reassign_check i u d = Inr () \<Longrightarrow> perf_own d cs d (cs @ [Reassigning i u actor])"
| pw_reassign: "Reassigning i u actor \<in> set cs \<Longrightarrow> reassign_commit i u actor d = Inr (r, d') \<Longrightarrow>
    perf_own d cs d' (remove1 (Reassigning i u actor) cs)"
| pw_self: "self_assessment_route now i words actor d = Inr (r, d') \<Longrightarrow> perf_own d cs d' cs"
| pw_acknowledge: "acknowledge_route now i actor d = Inr (r, d') \<Longrightarrow> perf_own d cs d' cs"
| pw_cancel: "cancel_review i actor d = Inr (r, d') \<Longrightarrow> perf_own d cs d' cs"
| pw_goal_check: "goals_editable (gi_reviewId input) d = Inr r \<Longrightarrow> perf_own d cs d (cs @ [Setting_goal input actor])"
| pw_goal: "Setting_goal input actor \<in> set cs \<Longrightarrow> set_goal_commit i input actor d = Inr d' \<Longrightarrow>
    perf_own d cs d' (remove1 (Setting_goal input actor) cs)"
| pw_remove_check: "goals_editable i d = Inr r \<Longrightarrow> perf_own d cs d (cs @ [Removing_goal i g actor])"
| pw_remove: "Removing_goal i g actor \<in> set cs \<Longrightarrow> remove_goal_commit i g actor d = Inr d' \<Longrightarrow>
    perf_own d cs d' (remove1 (Removing_goal i g actor) cs)"
| pw_rate_check: "rate_check i input actor d = Inr plan \<Longrightarrow> perf_own d cs d (cs @ [Rating_review i input plan actor])"
| pw_rate: "Rating_review i input plan actor \<in> set cs \<Longrightarrow> rate_commit now i input plan actor d = Inr (r, d') \<Longrightarrow>
    perf_own d cs d' (remove1 (Rating_review i input plan actor) cs)"
| pw_submit_check: "submit_review_check i actor d = Inr p \<Longrightarrow> perf_own d cs d (cs @ [Submitting p actor])"
| pw_mark: "Marking i q actor \<in> set cs \<Longrightarrow> mark_pending_approval i q actor d = Inr (r, d') \<Longrightarrow>
    perf_own d cs d' (remove1 (Marking i q actor) cs)"
| pw_elsewhere: "perf_own d cs (d\<lparr>pf_positions := ps, pf_staff := st\<rparr>) cs"

definition perf_start :: "perf_db \<Rightarrow> bool" where
  "perf_start d \<longleftrightarrow> pf_reviews d = []"

abbreviation perf_reachable :: "(review_payload, perf_db, perf_call) module_world \<Rightarrow> bool" where
  "perf_reachable \<equiv> module_reachable review_registry perf_own perf_filing perf_filed perf_start"

section \<open>What holds of every review\<close>

definition review_ok :: "rating_level list \<Rightarrow> perf_review \<Rightarrow> bool" where
  "review_ok scale r \<longleftrightarrow>
     rv_reviewerId r \<noteq> rv_employeeId r \<and>
     (rv_status r \<in> {Pending_approval, Shared_review, Acknowledged_review} \<longrightarrow> rv_overallRating r \<noteq> None) \<and>
     (\<forall>c. rv_overallRating r = Some c \<longrightarrow>
        (\<exists>level. find_row rl_code c scale = Some level \<and>
           (rl_requiresDevelopmentPlan level \<longrightarrow> rv_developmentPlan r \<noteq> None))) \<and>
     (released_to_subject (rv_status r) \<longrightarrow> (\<exists>u. rv_approvedBy r = Some u \<and> u \<noteq> rv_employeeId r)) \<and>
     (rv_status r = Self_assessment \<longrightarrow> rv_overallRating r = None)"

definition names_review :: "perf_db \<Rightarrow> string \<Rightarrow> (perf_review \<Rightarrow> bool) \<Rightarrow> bool" where
  "names_review d i p \<longleftrightarrow> (\<exists>r. find_row rv_id i (pf_reviews d) = Some r \<and> p r)"

fun perf_call_ok :: "perf_db \<Rightarrow> perf_call \<Rightarrow> bool" where
  "perf_call_ok d (Creating input s actor) =
     (rn_reviewerId input \<noteq> rn_employeeId input \<and> snd s \<in> {Self_assessment, Manager_review})"
| "perf_call_ok d (Reassigning i u actor) = names_review d i (\<lambda>r. rv_employeeId r \<noteq> u)"
| "perf_call_ok d (Rating_review i input plan actor) =
     (\<exists>level. find_row rl_code (ra_overallRating input) (pf_scale d) = Some level \<and>
        (rl_requiresDevelopmentPlan level \<longrightarrow> plan \<noteq> None))"
| "perf_call_ok d (Submitting p actor) = names_review d (rp_reviewId p) (\<lambda>r. rv_employeeId r = rp_employeeId p)"
| "perf_call_ok d c = True"

definition payload_names :: "perf_db \<Rightarrow> review_payload \<Rightarrow> bool" where
  "payload_names d p \<longleftrightarrow> names_review d (rp_reviewId p) (\<lambda>r. rv_employeeId r = rp_employeeId p)"

definition reviews_fine :: "perf_db \<Rightarrow> bool" where
  "reviews_fine d \<longleftrightarrow>
     keys_distinct rv_id (pf_reviews d) \<and> (\<forall>r \<in> set (pf_reviews d). review_ok (pf_scale d) r)"

definition perf_good :: "perf_db \<Rightarrow> perf_call list \<Rightarrow> bool" where
  "perf_good d cs \<longleftrightarrow> reviews_fine d \<and> (\<forall>c \<in> set cs. perf_call_ok d c)"

definition signed_off :: "perf_review \<Rightarrow> (string \<times> string) set" where
  "signed_off r =
     (if released_to_subject (rv_status r)
      then (case rv_approvedBy r of None \<Rightarrow> {} | Some u \<Rightarrow> {(rv_id r, u)}) else {})"

definition signed_offs :: "perf_db \<Rightarrow> (string \<times> string) set" where
  "signed_offs d = (\<Union>r \<in> set (pf_reviews d). signed_off r)"

section \<open>What a change keeps\<close>

text \<open>The reviews named before are still there, about the same employee, against the same scale.\<close>

definition reviews_kept :: "perf_db \<Rightarrow> perf_db \<Rightarrow> bool" where
  "reviews_kept d d' \<longleftrightarrow> pf_scale d' = pf_scale d \<and>
     (\<forall>k r. find_row rv_id k (pf_reviews d) = Some r \<longrightarrow>
        (\<exists>r'. find_row rv_id k (pf_reviews d') = Some r' \<and> rv_employeeId r' = rv_employeeId r))"

lemma names_kept:
  "reviews_kept d d' \<Longrightarrow> (\<And>r r'. rv_employeeId r' = rv_employeeId r \<Longrightarrow> p r \<Longrightarrow> p r') \<Longrightarrow>
   names_review d i p \<Longrightarrow> names_review d' i p"
  unfolding reviews_kept_def names_review_def by meson

lemma call_kept:
  assumes kept: "reviews_kept d d'" and ok: "perf_call_ok d c"
  shows "perf_call_ok d' c"
proof (cases c)
  case (Reassigning i u actor)
  then show ?thesis using ok names_kept [OF kept, of "\<lambda>r. rv_employeeId r \<noteq> u" i] by simp
next
  case (Submitting p actor)
  then show ?thesis using ok names_kept [OF kept, of "\<lambda>r. rv_employeeId r = rp_employeeId p" "rp_reviewId p"] by simp
qed (use assms in \<open>auto simp: reviews_kept_def\<close>)

lemma payload_kept: "reviews_kept d d' \<Longrightarrow> payload_names d p \<Longrightarrow> payload_names d' p"
  unfolding payload_names_def by (rule names_kept) auto

text \<open>The shape of a change that respects the invariant and releases at most what it names.\<close>

definition sound_change :: "(string \<times> string) set \<Rightarrow> perf_db \<Rightarrow> perf_db \<Rightarrow> bool" where
  "sound_change X d d' \<longleftrightarrow>
     (reviews_fine d \<longrightarrow> reviews_fine d' \<and> reviews_kept d d' \<and> signed_offs d' \<subseteq> signed_offs d \<union> X)"

lemma sound_good:
  assumes "sound_change X d d'" and "perf_good d cs" and "\<And>c. c \<in> set cs' \<Longrightarrow> c \<in> set cs"
  shows "perf_good d' cs' \<and> signed_offs d' \<subseteq> signed_offs d \<union> X \<and> (\<forall>p. payload_names d p \<longrightarrow> payload_names d' p)"
  using assms call_kept [of d d'] payload_kept [of d d'] by (simp add: sound_change_def perf_good_def)

lemma sound_same:
  "pf_reviews d' = pf_reviews d \<Longrightarrow> pf_scale d' = pf_scale d \<Longrightarrow> sound_change X d d'"
  by (auto simp: sound_change_def reviews_kept_def signed_offs_def reviews_fine_def)

lemma sound_append:
  assumes "pf_reviews d' = pf_reviews d @ [r]" and "pf_scale d' = pf_scale d"
    and "find_row rv_id (rv_id r) (pf_reviews d) = None" and "review_ok (pf_scale d) r"
    and "\<not> released_to_subject (rv_status r)"
  shows "sound_change X d d'"
  using assms
  by (auto simp: sound_change_def reviews_kept_def signed_offs_def signed_off_def keys_distinct_append_one
      find_row_append reviews_fine_def)

lemma update_review_Some:
  assumes "update_review i expected f d = Some (r', d')"
  obtains r where "find_row rv_id i (pf_reviews d) = Some r" "rv_status r \<in> set expected" "r' = f r"
    "d' = d\<lparr>pf_reviews := modify_row rv_id i f (pf_reviews d)\<rparr>"
  using assms by (auto simp: update_review_def split: option.splits if_splits)

interpretation review_table: keyed_table rv_id "find_row rv_id" "modify_row rv_id" "keys_distinct rv_id"
  by (rule keyed_list_table)

lemma sound_update:
  assumes run: "update_review i expected f d = Some (r', d1)"
    and keep: "\<And>r. rv_id (f r) = rv_id r \<and> rv_employeeId (f r) = rv_employeeId r"
    and ok: "\<And>r. find_row rv_id i (pf_reviews d) = Some r \<Longrightarrow> rv_status r \<in> set expected \<Longrightarrow>
        review_ok (pf_scale d) r \<Longrightarrow> review_ok (pf_scale d) (f r) \<and> signed_off (f r) \<subseteq> signed_off r \<union> X"
    and d': "pf_reviews d' = pf_reviews d1" "pf_scale d' = pf_scale d1"
  shows "sound_change X d d'"
  unfolding sound_change_def
proof
  assume fine: "reviews_fine d"
  obtain r where r: "find_row rv_id i (pf_reviews d) = Some r" "rv_status r \<in> set expected"
      and d1: "d1 = d\<lparr>pf_reviews := modify_row rv_id i f (pf_reviews d)\<rparr>"
    by (rule update_review_Some [OF run])
  have key: "rv_id (f x) = rv_id x" for x using keep by simp
  have m: "r \<in> set (pf_reviews d)" "rv_id r = i" using find_row_Some [OF r(1)] by auto
  have scale: "pf_scale d' = pf_scale d" and revs: "pf_reviews d' = modify_row rv_id i f (pf_reviews d)"
    using d' d1 by simp_all
  have keys: "keys_distinct rv_id (pf_reviews d)" and oks: "\<forall>r \<in> set (pf_reviews d). review_ok (pf_scale d) r"
    using fine by (auto simp: reviews_fine_def)
  have rows: "set (pf_reviews d') = (\<lambda>x. if rv_id x = i then f x else x) ` set (pf_reviews d)"
    by (simp add: revs modify_row_def set_update_where)
  have only: "rv_id x = i \<longleftrightarrow> x = r" if "x \<in> set (pf_reviews d)" for x
    using review_table.wf_member_unique [OF keys that m(1)] m(2) by auto
  have new: "review_ok (pf_scale d) (f r)" "signed_off (f r) \<subseteq> signed_off r \<union> X" using ok [OF r] oks m(1) by auto
  have "keys_distinct rv_id (pf_reviews d')" unfolding revs by (rule review_table.wf_modify [OF key keys])
  then have "reviews_fine d'" using oks new(1) only by (auto simp: reviews_fine_def rows scale)
  moreover have "reviews_kept d d'"
    using keep by (auto simp: reviews_kept_def scale revs review_table.lookup_modify [OF key])
  moreover have "signed_offs d' \<subseteq> signed_offs d \<union> X"
    using new(2) only m(1) by (fastforce simp: signed_offs_def rows)
  ultimately show "reviews_fine d' \<and> reviews_kept d d' \<and> signed_offs d' \<subseteq> signed_offs d \<union> X" by simp
qed

section \<open>Every operation is a sound change\<close>

lemma perf_record_simps [simp]:
  "pf_reviews (perf_record who act i d) = pf_reviews d" "pf_scale (perf_record who act i d) = pf_scale d"
  "pf_goals (perf_record who act i d) = pf_goals d" "pf_cycles (perf_record who act i d) = pf_cycles d"
  by (simp_all add: perf_record_def)

lemma recorded_move_Inr:
  assumes "recorded_move who err act i moved = Inr (r, d')"
  obtains d1 where "moved = Some (r, d1)" "d' = perf_record who act i d1"
  using assms by (auto simp: recorded_move_def split: option.splits)

lemma sound_move:
  assumes run: "recorded_move who err act i (update_review i expected f d) = Inr (r', d')"
    and keep: "\<And>r. rv_id (f r) = rv_id r \<and> rv_employeeId (f r) = rv_employeeId r"
    and ok: "\<And>r. find_row rv_id i (pf_reviews d) = Some r \<Longrightarrow> rv_status r \<in> set expected \<Longrightarrow>
        review_ok (pf_scale d) r \<Longrightarrow> review_ok (pf_scale d) (f r) \<and> signed_off (f r) \<subseteq> signed_off r"
  shows "sound_change {} d d'"
  using run
proof (rule recorded_move_Inr)
  fix d1 assume "update_review i expected f d = Some (r', d1)" "d' = perf_record who act i d1"
  then show ?thesis using keep ok by (intro sound_update [where f = f]) auto
qed

lemma sound_self: "self_assessment_route now i words actor d = Inr (r, d') \<Longrightarrow> sound_change {} d d'"
  by (auto simp: self_assessment_route_def submit_self_assessment_def and_then_eq_Inr split: if_splits
      elim!: sound_move simp: review_ok_def released_to_subject_def signed_off_def)

lemma sound_acknowledge: "acknowledge_route now i actor d = Inr (r, d') \<Longrightarrow> sound_change {} d d'"
  by (auto simp: acknowledge_route_def acknowledge_review_def and_then_eq_Inr split: if_splits
      elim!: sound_move simp: review_ok_def released_to_subject_def signed_off_def)

lemma sound_cancel: "cancel_review i actor d = Inr (r, d') \<Longrightarrow> sound_change {} d d'"
  by (auto simp: cancel_review_def and_then_eq_Inr
      elim!: sound_move simp: review_ok_def released_to_subject_def signed_off_def)

lemma sound_reassign:
  assumes "reassign_commit i u actor d = Inr (r, d')" and "names_review d i (\<lambda>r. rv_employeeId r \<noteq> u)"
  shows "sound_change {} d d'"
  using assms(1) unfolding reassign_commit_def
  by (rule sound_move)
    (use assms(2) in \<open>auto simp: REASSIGNABLE_def names_review_def review_ok_def released_to_subject_def signed_off_def\<close>)

lemma sound_create:
  assumes run: "create_review_commit now i input s actor d = Inr (r, d')"
    and ok: "perf_call_ok d (Creating input s actor)" and fresh: "find_row rv_id i (pf_reviews d) = None"
  shows "sound_change {} d d'"
  by (rule sound_append [where r = r])
    (use run ok fresh in \<open>auto simp: create_review_commit_def Let_def review_ok_def released_to_subject_def split: if_splits\<close>)

lemma rate_goals_reviews:
  "rate_goals i gs d = Inr d' \<Longrightarrow> pf_reviews d' = pf_reviews d \<and> pf_scale d' = pf_scale d"
  by (induction i gs d rule: rate_goals.induct) (auto simp: rate_goal_def split: option.splits if_splits)

lemma sound_rate:
  assumes run: "rate_commit now i input plan actor d = Inr (r, d')"
    and ok: "perf_call_ok d (Rating_review i input plan actor)"
  shows "sound_change {} d d'"
proof -
  obtain d1 d2 where u: "update_review i [Manager_review]
      (\<lambda>r. r\<lparr>rv_managerSummary := Some (ra_managerSummary input), rv_overallRating := Some (ra_overallRating input),
             rv_developmentPlan := plan, rv_ratedAt := Some now\<rparr>) d = Some (r, d1)"
      and g: "rate_goals i (ra_goals input) d1 = Inr d2"
      and d': "d' = perf_record (ac_sub actor) ''performance.review_rated'' i d2"
    using run by (auto simp: rate_commit_def and_then_eq_Inr split: option.splits)
  show ?thesis
    by (rule sound_update [OF u])
      (use ok rate_goals_reviews [OF g] in \<open>auto simp: d' review_ok_def released_to_subject_def signed_off_def\<close>)
qed

lemma sound_mark:
  assumes run: "mark_pending_approval i q actor d = Inr (r, d')"
  shows "sound_change {} d d'"
proof -
  let ?f = "\<lambda>r. r\<lparr>rv_status := Pending_approval, rv_requestId := Some q\<rparr>"
  obtain d1 where u: "update_review i [Manager_review] ?f d = Some (r, d1)" and rated: "rv_overallRating r \<noteq> None"
      and d': "d' = perf_record (ac_sub actor) ''performance.review_submitted_for_approval'' i d1"
    using run by (auto simp: mark_pending_approval_def split: option.splits if_splits)
  have "rv_overallRating x \<noteq> None" if "find_row rv_id i (pf_reviews d) = Some x" for x
    using u rated that by (auto elim!: update_review_Some)
  then show ?thesis
    by (intro sound_update [OF u]) (auto simp: d' review_ok_def released_to_subject_def signed_off_def)
qed

lemma sound_approval:
  assumes run: "apply_approval now i u d = Inr d'" and other: "names_review d i (\<lambda>r. rv_employeeId r \<noteq> u)"
  shows "sound_change {(i, u)} d d'"
proof -
  let ?f = "\<lambda>r. r\<lparr>rv_status := Shared_review, rv_approvedBy := Some u, rv_approvedAt := Some now\<rparr>"
  obtain r d1 where m: "update_review i [Pending_approval] ?f d = Some (r, d1)"
      and d': "d' = perf_record u ''performance.review_approved'' i d1"
    using run by (auto simp: apply_approval_def split: option.splits)
  show ?thesis
    by (rule sound_update [OF m])
      (use other in \<open>auto simp: d' names_review_def review_ok_def released_to_subject_def signed_off_def dest: find_row_Some\<close>)
qed

lemma sound_return: "sound_change {} d (apply_return i u d)"
proof (cases "update_review i [Pending_approval] (\<lambda>r. r\<lparr>rv_status := Manager_review, rv_requestId := None\<rparr>) d")
  case None
  then show ?thesis by (simp add: apply_return_def sound_same)
next
  case (Some p)
  obtain r d1 where p: "p = (r, d1)" by (cases p)
  show ?thesis
    using Some unfolding p
    by (rule sound_update) (auto simp: apply_return_def Some p review_ok_def released_to_subject_def signed_off_def)
qed

lemma review_registry_set: "def \<in> set review_registry \<longleftrightarrow> def = review_type"
  by (simp add: review_registry_def register_def registry_has_def)

lemma review_hook_sound:
  assumes "closes review_type p rid u now st d = Inr d'" and "payload_names d p"
  shows "sound_change (if st = Approved then {(rp_reviewId p, u)} else {}) d d'"
proof (cases st)
  case Approved
  then have "apply_approval now (rp_reviewId p) u d = Inr d'" and "u \<noteq> rp_employeeId p"
    using assms(1) by (auto simp: closes_def review_type_def review_on_approve_def split: if_splits)
  then show ?thesis
    using Approved assms(2) by (auto simp: payload_names_def names_review_def intro!: sound_approval)
qed (use assms(1) in \<open>auto simp: closes_def review_type_def review_on_reject_def review_on_expire_def
      intro: sound_return sound_same\<close>)

lemma perf_own_sound:
  assumes "perf_own d cs d' cs'" and "perf_good d cs"
  shows "perf_good d' cs' \<and> signed_offs d' \<subseteq> signed_offs d \<and> (\<forall>p. payload_names d p \<longrightarrow> payload_names d' p)"
proof -
  have "sound_change {} d d' \<and> (\<forall>c \<in> set cs'. c \<in> set cs \<or> perf_call_ok d c)"
    using assms(1)
  proof cases
    case (pw_cycle i input actor c)
    then show ?thesis by (auto simp: create_cycle_def Let_def intro!: sound_same split: if_splits)
  next
    case (pw_open now i actor c)
    then show ?thesis by (auto simp: open_cycle_def Let_def intro!: sound_same split: if_splits option.splits)
  next
    case (pw_close i actor now c)
    then show ?thesis
      by (auto simp: close_update_def Let_def intro!: sound_same split: if_splits option.splits
          dest: set_remove1_subset [THEN subsetD])
  next
    case (pw_create_check input s actor)
    then show ?thesis
      by (auto simp: create_review_check_def and_then_eq_Inr intro: sound_same split: if_splits)
  next
    case (pw_create input s actor now i r)
    then show ?thesis
      using assms(2) sound_create [of now i input s actor d r d']
      by (auto simp: perf_good_def simp del: perf_call_ok.simps dest: set_remove1_subset [THEN subsetD])
  next
    case (pw_reassign_check i u actor)
    then show ?thesis
      by (auto simp: reassign_check_def must_find_review_def and_then_eq_Inr names_review_def
          intro: sound_same split: if_splits option.splits)
  next
    case (pw_reassign i u actor r)
    then show ?thesis
      using assms(2) sound_reassign [of i u actor d r d']
      by (auto simp: perf_good_def dest: set_remove1_subset [THEN subsetD] bspec)
  next
    case (pw_goal input actor)
    then show ?thesis
      by (auto simp: set_goal_commit_def Let_def intro!: sound_same split: if_splits
          dest: set_remove1_subset [THEN subsetD])
  next
    case (pw_remove i g actor)
    then show ?thesis
      by (auto simp: remove_goal_commit_def intro!: sound_same split: if_splits option.splits
          dest: set_remove1_subset [THEN subsetD])
  next
    case (pw_rate_check i input actor plan)
    then show ?thesis
      by (auto simp: rate_check_def and_then_eq_Inr Let_def intro: sound_same split: if_splits option.splits)
  next
    case (pw_rate input plan actor now i r)
    then show ?thesis
      using assms(2) sound_rate
      by (auto simp: perf_good_def simp del: perf_call_ok.simps dest: set_remove1_subset [THEN subsetD])
  next
    case (pw_submit_check i actor p)
    then obtain r where "find_row rv_id i (pf_reviews d) = Some r" "rp_reviewId p = rv_id r" "rp_employeeId p = rv_employeeId r"
      by (auto simp: submit_review_check_def must_find_review_def and_then_eq_Inr split: if_splits option.splits)
    then have "names_review d (rp_reviewId p) (\<lambda>r. rv_employeeId r = rp_employeeId p)"
      using find_row_Some [of rv_id i "pf_reviews d" r] by (simp add: names_review_def)
    then show ?thesis using pw_submit_check by (auto intro: sound_same)
  next
    case (pw_mark i q actor r)
    then show ?thesis using sound_mark by (auto dest: set_remove1_subset [THEN subsetD])
  qed (auto intro: sound_same sound_self sound_acknowledge sound_cancel)
  then show ?thesis
    using assms(2) call_kept [of d d'] payload_kept [of d d'] by (auto simp: perf_good_def sound_change_def)
qed

interpretation perf_releases: released_by_approval review_registry perf_own perf_filing perf_filed perf_start
    rp_reviewId signed_offs perf_good payload_names
proof unfold_locales
  fix def assume "def \<in> set review_registry"
  then show "td_approvalSteps def = None \<and> td_onSubmit def = None \<and> \<not> td_allowSelfApproval def"
    by (simp add: review_registry_set review_type_def)
next
  fix d assume "perf_start d"
  then show "perf_good d [] \<and> signed_offs d = {}"
    by (simp add: perf_start_def perf_good_def reviews_fine_def keys_distinct_def signed_offs_def)
next
  fix d cs d' cs' assume "perf_own d cs d' cs'" "perf_good d cs"
  then show "perf_good d' cs' \<and> signed_offs d' \<subseteq> signed_offs d \<and> (\<forall>p. payload_names d p \<longrightarrow> payload_names d' p)"
    by (rule perf_own_sound)
next
  fix def p rid u now st d d' cs
  assume "def \<in> set review_registry" "closes def p rid u now st d = Inr d'" "perf_good d cs" "payload_names d p"
  then show "perf_good d' cs \<and> signed_offs d' \<subseteq> signed_offs d \<union> (if st = Approved then {(rp_reviewId p, u)} else {}) \<and>
      (\<forall>q. payload_names d q \<longrightarrow> payload_names d' q)"
    by (intro sound_good) (simp_all only: review_registry_set review_hook_sound)
next
  fix c cs ty p actor opts d i
  assume "c \<in> set cs" "perf_filing c = Some (ty, p, actor, opts)" "perf_good d cs"
  moreover from this have "perf_call_ok d c" by (simp add: perf_good_def)
  ultimately show "payload_names d p \<and> perf_good d (remove1 c cs @ [perf_filed c i])"
    by (cases c rule: perf_call.exhaust) (auto simp: perf_good_def payload_names_def dest: set_remove1_subset [THEN subsetD])
next
  fix c cs d assume "c \<in> set cs" "perf_good d cs"
  then show "perf_good d (remove1 c cs)"
    by (auto simp: perf_good_def dest: set_remove1_subset [THEN subsetD])
qed

section \<open>One call after another is one of the interleavings\<close>

lemma reach_own:
  "perf_reachable ((db, fl), cs) \<Longrightarrow> perf_own (domain_db db) cs d' cs' \<Longrightarrow>
   perf_reachable ((db\<lparr>domain_db := d'\<rparr>, fl), cs')"
  by (erule module_next) (rule ms_own)

lemma reach_look:
  assumes "perf_reachable ((db, []), [])" and "perf_own (domain_db db) [] (domain_db db) [c]"
    and "perf_own (domain_db db) [c] d' []"
  shows "perf_reachable ((db\<lparr>domain_db := d'\<rparr>, []), [])"
  using reach_own [OF assms(1,2)] assms(3) by (auto dest: reach_own)

lemma reach_create_review:
  assumes "perf_reachable ((db, []), [])" and "create_review now i input actor (domain_db db) = Inr (r, d')"
    and "find_row rv_id i (pf_reviews (domain_db db)) = None"
  shows "perf_reachable ((db\<lparr>domain_db := d'\<rparr>, []), [])"
proof -
  obtain s where s: "create_review_check input (domain_db db) = Inr s"
      "create_review_commit now i input s actor (domain_db db) = Inr (r, d')"
    using assms(2) by (auto simp: create_review_def and_then_eq_Inr)
  show ?thesis
    by (rule reach_look [OF assms(1), where c = "Creating input s actor"])
      (use pw_create_check [OF s(1), of "[]"] pw_create [OF _ s(2) assms(3), of "[Creating input s actor]"] in auto)
qed

lemma reach_reassign:
  assumes "perf_reachable ((db, []), [])" and "reassign_reviewer i u actor (domain_db db) = Inr (r, d')"
  shows "perf_reachable ((db\<lparr>domain_db := d'\<rparr>, []), [])"
proof -
  have s: "reassign_check i u (domain_db db) = Inr ()" "reassign_commit i u actor (domain_db db) = Inr (r, d')"
    using assms(2) by (auto simp: reassign_reviewer_def and_then_eq_Inr)
  show ?thesis
    by (rule reach_look [OF assms(1), where c = "Reassigning i u actor"])
      (use pw_reassign_check [OF s(1), of "[]"] pw_reassign [OF _ s(2), of "[Reassigning i u actor]"] in auto)
qed

lemma reach_rate:
  assumes "perf_reachable ((db, []), [])" and "rate now i input actor (domain_db db) = Inr (r, d')"
  shows "perf_reachable ((db\<lparr>domain_db := d'\<rparr>, []), [])"
proof -
  obtain plan where s: "rate_check i input actor (domain_db db) = Inr plan"
      "rate_commit now i input plan actor (domain_db db) = Inr (r, d')"
    using assms(2) by (auto simp: rate_def and_then_eq_Inr)
  show ?thesis
    by (rule reach_look [OF assms(1), where c = "Rating_review i input plan actor"])
      (use pw_rate_check [OF s(1), of "[]"] pw_rate [OF _ s(2), of "[Rating_review i input plan actor]"] in auto)
qed

lemma reach_submit:
  assumes w: "perf_reachable ((db, []), [])" and run: "submit_review env q i actor db = (res, db')"
    and fresh: "find_row ri_id q (items db) = None" "\<forall>a \<in> set (approvals db). ap_requestId a \<noteq> q"
  shows "perf_reachable ((db', []), [])"
proof (cases "submit_review_check i actor (domain_db db)")
  case (Inl e)
  then show ?thesis using w run by (simp add: submit_review_def)
next
  case (Inr p)
  show ?thesis
  proof (cases "file_review env q p actor db")
    case (Inl e)
    then show ?thesis using w run Inr by (simp add: submit_review_def)
  next
    case (Inr r)
    obtain item db1 where f: "file_review env q p actor db = Inr (item, db1)" using Inr by (cases r) auto
    have item: "ri_id item = q" "domain_db db1 = domain_db db" "rp_reviewId p = i"
    proof -
      show "ri_id item = q" by (rule submit_shape [OF f [unfolded file_review_def]])
      show "domain_db db1 = domain_db db"
        by (rule submit_shape [OF f [unfolded file_review_def]])
          (auto dest!: registry_get_Inr find_row_Some simp: review_registry_set review_type_def)
      show "rp_reviewId p = i"
        using \<open>submit_review_check i actor (domain_db db) = Inr p\<close>
        by (auto simp: submit_review_check_def must_find_review_def and_then_eq_Inr split: option.splits if_splits
            dest: find_row_Some)
    qed
    have "perf_reachable ((db, []), [Submitting p actor])"
      using reach_own [OF w pw_submit_check [OF \<open>submit_review_check i actor (domain_db db) = Inr p\<close>]] by simp
    then have "perf_reachable ((db1, []), remove1 (Submitting p actor) [Submitting p actor] @ [perf_filed (Submitting p actor) q])"
      by (rule module_next) (rule ms_file [OF _ _ f [unfolded file_review_def] fresh], simp_all)
    then have marking: "perf_reachable ((db1, []), [Marking i q actor])" by (simp add: item)
    show ?thesis
    proof (cases "mark_pending_approval i q actor (domain_db db1)")
      case (Inl e)
      have "perf_reachable ((db1, []), remove1 (Marking i q actor) [Marking i q actor])"
        by (rule module_next [OF marking]) (rule ms_stop, simp)
      then show ?thesis
        using run \<open>submit_review_check i actor (domain_db db) = Inr p\<close> f Inl by (simp add: submit_review_def item)
    next
      case (Inr r')
      obtain x d' where x: "r' = (x, d')" by (cases r')
      have "perf_own (domain_db db1) [Marking i q actor] d' []"
        using pw_mark [of i q actor "[Marking i q actor]" "domain_db db1" x d'] Inr x by simp
      from reach_own [OF marking this] show ?thesis
        using run \<open>submit_review_check i actor (domain_db db) = Inr p\<close> f Inr x by (simp add: submit_review_def item)
    qed
  qed
qed

lemma reach_decide:
  assumes w: "perf_reachable ((db, []), [])"
  shows "approve env review_registry j q nte actor db = Inr db' \<Longrightarrow> perf_reachable ((db', []), [])"
    and "reject env review_registry j q nte actor db = Inr db' \<Longrightarrow> perf_reachable ((db', []), [])"
proof -
  show "perf_reachable ((db', []), [])" if run: "approve env review_registry j q nte actor db = Inr db'"
  proof -
    obtain ctx where c: "approve_check env review_registry q actor db = Inr ctx" "approve_commit env j nte actor ctx db = Inr db'"
      using run by (auto simp: approve_def and_then_eq_Inr)
    have "perf_reachable ((db, [] @ [Approving ctx nte actor]), [])"
      by (rule module_next [OF w]) (rule ms_begin, rule race_begin_approve [OF c(1)])
    then have "perf_reachable ((db', remove1 (Approving ctx nte actor) [Approving ctx nte actor]), [])"
      unfolding append_Nil by (rule module_next) (rule ms_commit [where env = env and i = j], simp_all add: c(2))
    then show ?thesis by simp
  qed
  show "perf_reachable ((db', []), [])" if run: "reject env review_registry j q nte actor db = Inr db'"
  proof -
    obtain ctx where c: "reject_check env review_registry q actor db = Inr ctx" "reject_commit env j nte actor ctx db = Inr db'"
      using run by (auto simp: reject_def and_then_eq_Inr)
    have "perf_reachable ((db, [] @ [Rejecting ctx nte actor]), [])"
      by (rule module_next [OF w]) (rule ms_begin, rule race_begin_reject [OF c(1)])
    then have "perf_reachable ((db', remove1 (Rejecting ctx nte actor) [Rejecting ctx nte actor]), [])"
      unfolding append_Nil by (rule module_next) (rule ms_commit [where env = env and i = j], simp_all add: c(2))
    then show ?thesis by simp
  qed
qed

end
