(* ===== verification/PerformanceProperties.thy ===== *)
theory PerformanceProperties
  imports PerformanceSafety
begin

text \<open>
  Claims on performance reviews: who stands behind a rating its subject can read, what the sum of the goal
  weights has to be, and three things the separate transactions let through.
\<close>

lemma released_evidence:
  assumes "perf_reachable w" and "r \<in> set (pf_reviews (world_tables w))" and "released_to_subject (rv_status r)"
  shows "rv_overallRating r \<noteq> None" "review_ok (pf_scale (world_tables w)) r"
    "\<exists>u. rv_approvedBy r = Some u \<and> u \<noteq> rv_employeeId r \<and> approved_by rp_reviewId (world_db w) (rv_id r) u"
proof -
  have e: "perf_releases.earned_world w" by (rule perf_releases.reachable_earned [OF assms(1)])
  then show ok: "review_ok (pf_scale (world_tables w)) r"
    using assms(2) by (simp add: perf_releases.earned_world_def perf_good_def reviews_fine_def)
  then show "rv_overallRating r \<noteq> None" using assms(3) by (auto simp: review_ok_def released_to_subject_def)
  obtain u where u: "rv_approvedBy r = Some u" "u \<noteq> rv_employeeId r"
    using ok assms(3) by (auto simp: review_ok_def)
  then have "(rv_id r, u) \<in> signed_offs (world_tables w)"
    using assms(2,3) unfolding signed_offs_def signed_off_def by (intro UN_I [of r]) auto
  then show "\<exists>u. rv_approvedBy r = Some u \<and> u \<noteq> rv_employeeId r \<and> approved_by rp_reviewId (world_db w) (rv_id r) u"
    using e u by (auto simp: perf_releases.earned_world_def)
qed

section \<open>Claims\<close>

text \<open>C20. However calls interleave, a review its subject may read has a rating, a development plan where the
  scale demands one, a reviewer who is not its subject, and an approver who is not its subject either;
  that person's approval of a request about this review is on record, made for somebody other than who
  filed the request.\<close>

theorem released_review_was_signed_off:
  assumes "perf_reachable w" and "r \<in> set (pf_reviews (world_tables w))" and "released_to_subject (rv_status r)"
  shows "rv_reviewerId r \<noteq> rv_employeeId r \<and>
    (\<exists>c level. rv_overallRating r = Some c \<and> find_row rl_code c (pf_scale (world_tables w)) = Some level \<and>
       (rl_requiresDevelopmentPlan level \<longrightarrow> rv_developmentPlan r \<noteq> None)) \<and>
    (\<exists>u q a. rv_approvedBy r = Some u \<and> u \<noteq> rv_employeeId r \<and>
       find_row ri_id (ri_id q) (items (world_db w)) = Some q \<and> rp_reviewId (ri_payload q) = rv_id r \<and>
       a \<in> set (approvals (world_db w)) \<and> ap_requestId a = ri_id q \<and> ap_decision a = Decision_approved \<and>
       ap_approverId a = u \<and>
       (case ap_delegatedFromId a of None \<Rightarrow> ap_approverId a | Some d \<Rightarrow> d) \<noteq> ri_requesterId q)"
proof (intro conjI)
  note ev = released_evidence [OF assms]
  obtain c where c: "rv_overallRating r = Some c" using ev(1) by auto
  show "rv_reviewerId r \<noteq> rv_employeeId r" using ev(2) by (simp add: review_ok_def)
  show "\<exists>c level. rv_overallRating r = Some c \<and> find_row rl_code c (pf_scale (world_tables w)) = Some level \<and>
       (rl_requiresDevelopmentPlan level \<longrightarrow> rv_developmentPlan r \<noteq> None)"
    using ev(2) c unfolding review_ok_def by blast
  show "\<exists>u q a. rv_approvedBy r = Some u \<and> u \<noteq> rv_employeeId r \<and>
       find_row ri_id (ri_id q) (items (world_db w)) = Some q \<and> rp_reviewId (ri_payload q) = rv_id r \<and>
       a \<in> set (approvals (world_db w)) \<and> ap_requestId a = ri_id q \<and> ap_decision a = Decision_approved \<and>
       ap_approverId a = u \<and>
       (case ap_delegatedFromId a of None \<Rightarrow> ap_approverId a | Some d \<Rightarrow> d) \<noteq> ri_requesterId q"
    using ev(3) unfolding approved_by_def answered_for_def by blast
qed

definition judged :: "perf_review \<Rightarrow> bool" where
  "judged r \<longleftrightarrow> rv_overallRating r \<noteq> None \<or> rv_managerSummary r \<noteq> None \<or> rv_developmentPlan r \<noteq> None"

definition released_by_other :: "(review_payload, perf_db, perf_call) module_world \<Rightarrow> perf_review \<Rightarrow> bool" where
  "released_by_other w r \<longleftrightarrow> released_to_subject (rv_status r) \<and>
     (\<exists>v. v \<noteq> rv_employeeId r \<and> rv_approvedBy r = Some v \<and> approved_by rp_reviewId (world_db w) (rv_id r) v)"

lemma redacted_released:
  assumes "perf_reachable w" and "x \<in> set (pf_reviews (world_tables w))" and "y = redact_judgement u x"
    and "rv_employeeId y = u" and "judged y"
  shows "released_by_other w y"
proof -
  have "released_to_subject (rv_status x) \<and> y = x"
    using assms(3-5) by (auto simp: redact_judgement_def judged_def split: if_splits)
  then show ?thesis using released_evidence(3) [OF assms(1,2)] by (auto simp: released_by_other_def)
qed

text \<open>C21. The read routes show a person nothing of the judgement on them (rating, summary, plan, grades of the
  goals) unless the review has been released, which somebody else approved.\<close>

theorem subject_reads_released_judgement_only:
  assumes "perf_reachable w"
  shows "(\<forall>env u i r. get_review_route env u i (world_tables w) = Inr r \<and> rv_employeeId r = u \<and> judged r \<longrightarrow>
        rv_id r = i \<and> released_by_other w r) \<and>
    (\<forall>u f limit offset. \<forall>r \<in> set (fst (list_reviews_route u f limit offset (world_tables w))).
        rv_employeeId r = u \<and> judged r \<longrightarrow> released_by_other w r) \<and>
    (\<forall>env u i gs. list_goals_route env u i (world_tables w) = Inr gs \<and> (\<exists>g \<in> set gs. pg_rating g \<noteq> None) \<longrightarrow>
        (\<exists>r. find_row rv_id i (pf_reviews (world_tables w)) = Some r \<and>
           (rv_employeeId r = u \<longrightarrow> released_by_other w r)))"
proof (intro conjI allI impI ballI)
  let ?d = "world_tables w"
  fix env u i r assume g: "get_review_route env u i ?d = Inr r \<and> rv_employeeId r = u \<and> judged r"
  obtain x where x: "find_row rv_id i (pf_reviews ?d) = Some x" "r = redact_judgement u x"
    using g by (cases "find_row rv_id i (pf_reviews ?d)")
      (auto simp: get_review_route_def must_see_review_def must_find_review_def and_then_eq_Inr split: if_splits)
  then show "rv_id r = i" using find_row_Some [OF x(1)] by (simp add: redact_judgement_def)
  show "released_by_other w r"
    using redacted_released [OF assms _ x(2)] find_row_Some [OF x(1)] g by simp
next
  let ?d = "world_tables w"
  fix u f limit offset r
  assume r: "r \<in> set (fst (list_reviews_route u f limit offset ?d))" "rv_employeeId r = u \<and> judged r"
  obtain x where "x \<in> set (pf_reviews ?d)" "r = redact_judgement u x"
    using r(1) by (auto simp: list_reviews_route_def list_reviews_def Let_def dest!: in_set_takeD in_set_dropD)
  then show "released_by_other w r" using redacted_released [OF assms] r(2) by blast
next
  let ?d = "world_tables w"
  fix env u i gs assume g: "list_goals_route env u i ?d = Inr gs \<and> (\<exists>g \<in> set gs. pg_rating g \<noteq> None)"
  obtain x where x: "find_row rv_id i (pf_reviews ?d) = Some x" "gs = map (redact_goal x u) (list_goals i ?d)"
    using g by (cases "find_row rv_id i (pf_reviews ?d)")
      (auto simp: list_goals_route_def must_see_review_def must_find_review_def and_then_eq_Inr split: if_splits)
  have "released_to_subject (rv_status x)" if "rv_employeeId x = u"
    using g that unfolding x(2) by (auto simp: redact_goal_def split: if_splits)
  then show "\<exists>r. find_row rv_id i (pf_reviews ?d) = Some r \<and> (rv_employeeId r = u \<longrightarrow> released_by_other w r)"
    using released_evidence(3) [OF assms, of x] find_row_Some [OF x(1)] x(1) by (auto simp: released_by_other_def)
qed

text \<open>A cycle can close over a review in flight, in both orders: a creation that checked before the close
  commits after it, and a close that counted before a creation committed closes all the same. One after
  the other, the creation is refused.\<close>

theorem cycle_closes_over_a_review:
  assumes "create_review_check input d = Inr s" and "close_cycle now (rn_cycleId input) actor d = Inr (c, d1)"
  shows "(\<exists>r d2. create_review_commit now' i input s actor' d1 = Inr (r, d2) \<and>
      count_unfinished_reviews (rn_cycleId input) d2 > 0 \<and>
      map_option cy_status (find_row cy_id (rn_cycleId input) (pf_cycles d2)) = Some Cycle_closed) \<and>
    (\<exists>r d1' d2. create_review_commit now' i input s actor' d = Inr (r, d1') \<and>
      close_update now (rn_cycleId input) actor d1' = Inr (c, d2) \<and>
      count_unfinished_reviews (rn_cycleId input) d2 > 0) \<and>
    create_review now' i input actor' d1 = Inl (PreconditionFailedException ''PERFORMANCE_CYCLE_NOT_OPEN'')"
proof -
  let ?k = "rn_cycleId input"
  let ?f = "\<lambda>c. c\<lparr>cy_status := Cycle_closed, cy_closedAt := Some now\<rparr>"
  obtain c0 where c0: "find_row cy_id ?k (pf_cycles d) = Some c0" "cy_status c0 = Cycle_open"
      and none: "\<not> (\<exists>r \<in> set (pf_reviews d). rv_cycleId r = ?k \<and> rv_employeeId r = rn_employeeId input)"
      and s: "s = (map_option ep_positionId (current_assignment (rn_employeeId input) (pf_positions d)),
          if cy_selfAssessmentDue c0 = None then Manager_review else Self_assessment)"
    using assms(1) by (auto simp: create_review_check_def must_find_cycle_def and_then_eq_Inr
        split: option.splits if_splits)
  have d1: "d1 = perf_record (ac_sub actor) ''performance.cycle_closed'' ?k
      (d\<lparr>pf_cycles := modify_row cy_id ?k ?f (pf_cycles d)\<rparr>)" and c: "c = ?f c0"
    using assms(2) c0 by (auto simp: close_cycle_def close_update_def and_then_eq_Inr Let_def)
  have closed: "find_row cy_id ?k (pf_cycles d1) = Some (?f c0)"
    using c0 find_row_update_where [of cy_id ?f ?k "\<lambda>r. cy_id r = ?k" "pf_cycles d"] find_row_Some [OF c0(1)]
    by (simp add: d1 modify_row_def)
  let ?r = "\<lambda>n. \<lparr>rv_id = i, rv_cycleId = ?k, rv_employeeId = rn_employeeId input, rv_reviewerId = rn_reviewerId input,
      rv_positionId = fst s, rv_status = snd s, rv_selfAssessment = None, rv_selfAssessmentSubmittedAt = None,
      rv_managerSummary = None, rv_overallRating = None, rv_developmentPlan = None, rv_ratedAt = None,
      rv_requestId = None, rv_approvedBy = None, rv_approvedAt = None, rv_acknowledgedAt = None,
      rv_createdBy = ac_sub actor', rv_createdAt = n\<rparr>"
  let ?add = "\<lambda>d. perf_record (ac_sub actor') ''performance.review_created'' i (d\<lparr>pf_reviews := pf_reviews d @ [?r now']\<rparr>)"
  have unf: "unfinished (?r now')" by (simp add: unfinished_def s)
  have "create_review_commit now' i input s actor' d1 = Inr (?r now', ?add d1)"
    using none by (simp add: create_review_commit_def d1 Let_def)
  moreover have "count_unfinished_reviews ?k (?add d1) > 0" using unf by (simp add: count_unfinished_reviews_def)
  ultimately have after: "\<exists>r d2. create_review_commit now' i input s actor' d1 = Inr (r, d2) \<and>
      count_unfinished_reviews ?k d2 > 0 \<and> map_option cy_status (find_row cy_id ?k (pf_cycles d2)) = Some Cycle_closed"
    using closed by (intro exI [of _ "?r now'"] exI [of _ "?add d1"] conjI) simp_all
  have c1: "create_review_commit now' i input s actor' d = Inr (?r now', ?add d)"
    using none by (simp add: create_review_commit_def Let_def)
  let ?d2 = "perf_record (ac_sub actor) ''performance.cycle_closed'' ?k
      ((?add d)\<lparr>pf_cycles := modify_row cy_id ?k ?f (pf_cycles d)\<rparr>)"
  have c2: "close_update now ?k actor (?add d) = Inr (c, ?d2)"
    using c0 c by (simp add: close_update_def Let_def)
  have "pf_reviews ?d2 = pf_reviews d @ [?r now']" by simp
  then have c3: "count_unfinished_reviews ?k ?d2 > 0"
    using unf by (simp only: count_unfinished_reviews_def) simp
  have before: "\<exists>r d1' d2. create_review_commit now' i input s actor' d = Inr (r, d1') \<and>
      close_update now ?k actor d1' = Inr (c, d2) \<and> count_unfinished_reviews ?k d2 > 0"
    using c1 c2 c3 by blast
  have "create_review now' i input actor' d1 = Inl (PreconditionFailedException ''PERFORMANCE_CYCLE_NOT_OPEN'')"
    using closed by (simp add: create_review_def create_review_check_def must_find_cycle_def)
  then show ?thesis using after before by blast
qed

section \<open>The sum of the weights\<close>

definition weight_sum :: "perf_goal list \<Rightarrow> rat" where
  "weight_sum gs = sum_list (map pg_weight gs)"

lemma goals_total_error:
  assumes "length gs \<le> 1024" and "\<forall>g \<in> set gs. 0 < pg_weight g \<and> pg_weight g \<le> 100"
  shows "\<bar>goals_total gs - weight_sum gs\<bar> \<le> 1 / 10 ^ 6"
proof -
  have "\<bar>goals_total gs - weight_sum gs\<bar> \<le> of_nat (length gs) * of_nat (length gs) * 100 / 2 ^ 51"
    unfolding goals_total_def weight_sum_def using assms by (intro double_sum_error) auto
  also have "\<dots> \<le> 1024 * 1024 * 100 / 2 ^ 51"
  proof -
    have n: "(of_nat (length gs) :: rat) \<le> 1024" using assms(1) by (metis of_nat_le_iff of_nat_numeral)
    show ?thesis by (intro divide_right_mono mult_right_mono mult_mono n) auto
  qed
  finally show ?thesis by simp
qed

lemma weights_off_iff:
  assumes "\<bar>t - s\<bar> \<le> 1 / 10 ^ 6" and "s = of_int k / 100"
  shows "\<not> \<bar>to_double (t - 100)\<bar> > to_double (1 / 100) \<Longrightarrow> \<bar>s - 100\<bar> \<le> 1 / 100"
    and "s = 100 \<Longrightarrow> \<not> \<bar>to_double (t - 100)\<bar> > to_double (1 / 100)"
proof -
  have c: "\<bar>to_double (1 / 100) - 1 / 100\<bar> \<le> 1 / 10 ^ 6" using double_error [of "1 / 100"] by simp
  have e: "\<bar>to_double (t - 100) - (t - 100)\<bar> \<le> \<bar>t - 100\<bar> / 2 ^ 53" by (rule double_error)
  have half: "\<bar>t - 100\<bar> / 2 ^ 53 \<le> \<bar>t - 100\<bar> / 10" by (rule divide_left_mono) auto
  show "\<bar>s - 100\<bar> \<le> 1 / 100" if "\<not> \<bar>to_double (t - 100)\<bar> > to_double (1 / 100)"
  proof -
    have "\<bar>t - 100\<bar> - \<bar>t - 100\<bar> / 10 \<le> 1 / 100 + 1 / 10 ^ 6" using that c e half by linarith
    then have "\<bar>t - 100\<bar> \<le> 2 / 100 - 1 / 10 ^ 5" by simp
    moreover have "\<bar>s - 100\<bar> \<le> \<bar>t - 100\<bar> + \<bar>t - s\<bar>" by linarith
    ultimately have "\<bar>s - 100\<bar> < 2 / 100" using assms(1) by simp
    then have "\<bar>of_int (k - 10000) :: rat\<bar> < of_int 2" by (simp add: assms(2) abs_less_iff field_simps)
    then have "\<bar>k - 10000\<bar> < 2" by (simp only: of_int_abs [symmetric] of_int_less_iff)
    then have "\<bar>k - 10000\<bar> \<le> 1" by simp
    then have "\<bar>of_int (k - 10000) :: rat\<bar> \<le> of_int 1" by (simp only: of_int_abs [symmetric] of_int_le_iff)
    then show ?thesis by (simp add: assms(2) abs_le_iff field_simps)
  qed
  show "\<not> \<bar>to_double (t - 100)\<bar> > to_double (1 / 100)" if "s = 100"
  proof -
    have "\<bar>to_double (t - 100)\<bar> \<le> \<bar>t - 100\<bar> + \<bar>t - 100\<bar> / 10" using e half by linarith
    also have "\<dots> \<le> 1 / 10 ^ 5" using assms(1) that by simp
    finally have "\<bar>to_double (t - 100)\<bar> \<le> 1 / 10 ^ 5" .
    moreover have "1 / 100 - 1 / 10 ^ 6 \<le> to_double (1 / 100)" using c by linarith
    ultimately show ?thesis by simp
  qed
qed

lemma cents_sum:
  "\<forall>g \<in> set gs. \<exists>k :: int. pg_weight g = of_int k / 100 \<Longrightarrow> \<exists>k :: int. weight_sum gs = of_int k / 100"
proof (induction gs)
  case Nil
  show ?case by (rule exI [of _ 0]) (simp add: weight_sum_def)
next
  case (Cons g gs)
  then obtain k l :: int where "pg_weight g = of_int k / 100" "weight_sum gs = of_int l / 100" by auto
  then show ?case by (intro exI [of _ "k + l"]) (simp add: weight_sum_def add_divide_distrib)
qed

text \<open>C23. For weights as the column stores them (two decimals, up to 100, at most 1024 goals), the sum in
  floating point decides as it should: goals that are accepted are all graded and carry 100 percent to
  within a hundredth, and graded goals that carry exactly 100 percent are accepted.\<close>

theorem goal_weights_total_hundred:
  assumes "gs \<noteq> []" and "length gs \<le> 1024"
    and "\<forall>g \<in> set gs. 0 < pg_weight g \<and> pg_weight g \<le> 100 \<and> (\<exists>k :: int. pg_weight g = of_int k / 100)"
  shows "(assert_goals_complete gs = Inr () \<longrightarrow>
        \<bar>weight_sum gs - 100\<bar> \<le> 1 / 100 \<and> (\<forall>g \<in> set gs. pg_rating g \<noteq> None)) \<and>
    (weight_sum gs = 100 \<and> (\<forall>g \<in> set gs. pg_rating g \<noteq> None) \<longrightarrow> assert_goals_complete gs = Inr ())"
proof -
  obtain k :: int where k: "weight_sum gs = of_int k / 100" using cents_sum assms(3) by blast
  have e: "\<bar>goals_total gs - weight_sum gs\<bar> \<le> 1 / 10 ^ 6" using goals_total_error assms(2,3) by blast
  note w = weights_off_iff [OF e k, folded weights_off_def]
  show ?thesis
    using w assms(1) by (auto simp: assert_goals_complete_def filter_empty_conv split: if_splits)
qed

section \<open>A worked history\<close>

text \<open>
  Ann rates Eve's review and submits it twice: the second call is refused, but the request it filed
  stays. The first request is rejected, Bob takes the review over, rates it anew and submits; then Bob
  approves Ann's leftover request.
\<close>

definition px_actor :: "string \<Rightarrow> actor" where
  "px_actor u = \<lparr>ac_sub = u, ac_email = u\<rparr>"

definition px_env :: request_env where
  "px_env = \<lparr>ev_now = 100, ev_check = (\<lambda>u p. u = ''bob'' \<or> u = ''cal''), ev_holders = (\<lambda>p. [''bob'', ''cal'']),
     ev_delegation = (\<lambda>u. None), ev_employee = (\<lambda>u. Some Employee_active)\<rparr>"

definition px_tables :: perf_db where
  "px_tables = \<lparr>pf_scale = [\<lparr>rl_code = Meets, rl_rank = 3, rl_label = ''Meets'', rl_requiresDevelopmentPlan = False\<rparr>,
       \<lparr>rl_code = Outstanding, rl_rank = 5, rl_label = ''Outstanding'', rl_requiresDevelopmentPlan = False\<rparr>],
     pf_cycles = [], pf_reviews = [], pf_goals = [],
     pf_positions = \<lparr>pos_positions = [], pos_assignments = [], pos_audit = []\<rparr>, pf_staff = [], pf_audit = []\<rparr>"

definition px_start :: perf_state where
  "px_start = \<lparr>items = [], approvals = [], comments = [], outbox = [], subscriptions = [], deliveries = [],
     domain_db = px_tables\<rparr>"

definition px_own :: "('a \<times> perf_db) result \<Rightarrow> perf_state \<Rightarrow> perf_state" where
  "px_own r db = db\<lparr>domain_db := snd (projr r)\<rparr>"

definition px_cycle :: "perf_db \<Rightarrow> (review_cycle \<times> perf_db) result" where
  "px_cycle = create_cycle ''c1''
     \<lparr>ci_reference = ''PR-2026'', ci_name = ''2026'', ci_periodStart = Iso 2026 1 1, ci_periodEnd = Iso 2026 6 30,
      ci_selfAssessmentDue = None, ci_reviewDue = Iso 2026 7 31\<rparr> (px_actor ''hr'')"

definition px_review :: "perf_db \<Rightarrow> (perf_review \<times> perf_db) result" where
  "px_review = create_review 1 ''r1''
     \<lparr>rn_cycleId = ''c1'', rn_employeeId = ''eve'', rn_reviewerId = ''ann''\<rparr> (px_actor ''hr'')"

definition px_rate :: "rating \<Rightarrow> string \<Rightarrow> perf_db \<Rightarrow> (perf_review \<times> perf_db) result" where
  "px_rate c u = rate 2 ''r1''
     \<lparr>ra_managerSummary = ''summary'', ra_overallRating = c, ra_developmentPlan = None, ra_goals = []\<rparr> (px_actor u)"

definition px_rated :: perf_state where
  "px_rated = (let a = px_own (px_cycle (domain_db px_start)) px_start;
      b = px_own (open_cycle 0 ''c1'' (px_actor ''hr'') (domain_db a)) a;
      c = px_own (px_review (domain_db b)) b
    in px_own (px_rate Outstanding ''ann'' (domain_db c)) c)"

definition px_filed :: "string \<Rightarrow> string \<Rightarrow> perf_state \<Rightarrow> perf_state" where
  "px_filed q u db = snd (submit_review px_env q ''r1'' (px_actor u) db)"

definition px_twice :: perf_state where
  "px_twice = px_filed ''q2'' ''ann'' (px_filed ''q1'' ''ann'' px_rated)"

definition px_returned :: perf_state where
  "px_returned = projr (reject px_env review_registry ''p1'' ''q1'' None (px_actor ''cal'') px_twice)"

definition px_bobs :: perf_state where
  "px_bobs = (let a = px_own (reassign_reviewer ''r1'' ''bob'' (px_actor ''hr'') (domain_db px_returned)) px_returned
     in px_filed ''q3'' ''bob'' (px_own (px_rate Meets ''bob'' (domain_db a)) a))"

definition px_end :: perf_state where
  "px_end = projr (approve px_env review_registry ''p2'' ''q2'' None (px_actor ''bob'') px_bobs)"

definition px_a :: perf_state where "px_a = px_own (px_cycle (domain_db px_start)) px_start"
definition px_b :: perf_state where "px_b = px_own (open_cycle 0 ''c1'' (px_actor ''hr'') (domain_db px_a)) px_a"
definition px_c :: perf_state where "px_c = px_own (px_review (domain_db px_b)) px_b"
definition px_d :: perf_state where
  "px_d = px_own (reassign_reviewer ''r1'' ''bob'' (px_actor ''hr'') (domain_db px_returned)) px_returned"
definition px_e :: perf_state where "px_e = px_own (px_rate Meets ''bob'' (domain_db px_d)) px_d"

lemma px_runs:
  "\<not> isl (px_cycle (domain_db px_start))" "\<not> isl (open_cycle 0 ''c1'' (px_actor ''hr'') (domain_db px_a))"
  "\<not> isl (px_review (domain_db px_b))" "\<not> isl (px_rate Outstanding ''ann'' (domain_db px_c))"
  "\<not> isl (reject px_env review_registry ''p1'' ''q1'' None (px_actor ''cal'') px_twice)"
  "\<not> isl (reassign_reviewer ''r1'' ''bob'' (px_actor ''hr'') (domain_db px_returned))"
  "\<not> isl (px_rate Meets ''bob'' (domain_db px_d))"
  "\<not> isl (approve px_env review_registry ''p2'' ''q2'' None (px_actor ''bob'') px_bobs)"
  by code_simp+

lemma px_fresh:
  "find_row rv_id ''r1'' (pf_reviews (domain_db px_b)) = None"
  "find_row ri_id ''q1'' (items px_rated) = None" "approvals px_rated = []"
  "find_row ri_id ''q2'' (items (px_filed ''q1'' ''ann'' px_rated)) = None"
  "approvals (px_filed ''q1'' ''ann'' px_rated) = []"
  "find_row ri_id ''q3'' (items px_e) = None" "map ap_requestId (approvals px_e) = [''q1'']"
  by code_simp+

lemma px_outcome:
  "map (\<lambda>r. (rv_status r, rv_overallRating r, rv_reviewerId r, rv_approvedBy r)) (pf_reviews (domain_db px_end)) =
     [(Shared_review, Some Meets, ''bob'', Some ''bob'')]"
  "map (\<lambda>q. (ri_status q, rp_overallRating (ri_payload q))) (items px_end) =
     [(Rejected, Outstanding), (Approved, Outstanding), (Pending, Meets)]"
  by code_simp+

lemma px_d_approvals: "\<forall>a \<in> set (approvals px_e). ap_requestId a \<noteq> ''q3''"
proof -
  have "ap_requestId a = ''q1''" if "a \<in> set (approvals px_e)" for a
    using arg_cong [OF px_fresh(7), of set] that by auto
  then show ?thesis by simp
qed

lemma px_reach_own:
  assumes "perf_reachable ((db, []), [])" and "\<not> isl r"
    and "\<And>c d'. r = Inr (c, d') \<Longrightarrow> perf_own (domain_db db) [] d' []"
  shows "perf_reachable ((px_own r db, []), [])"
  using reach_own [OF assms(1) assms(3) [OF Inr_of [OF assms(2)]]] by (simp add: px_own_def)

lemma px_end_reachable: "perf_reachable ((px_end, []), [])"
proof -
  have start: "perf_reachable ((px_start, []), [])"
    by (rule module_start) (simp_all add: engine_init_def px_start_def perf_start_def px_tables_def)
  have a: "perf_reachable ((px_a, []), [])"
    unfolding px_a_def by (rule px_reach_own [OF start px_runs(1)]) (simp add: px_cycle_def pw_cycle)
  have b: "perf_reachable ((px_b, []), [])"
    unfolding px_b_def by (rule px_reach_own [OF a px_runs(2)]) (rule pw_open)
  have c: "perf_reachable ((px_c, []), [])"
    using reach_create_review [OF b Inr_of [OF px_runs(3), unfolded px_review_def] px_fresh(1)]
    by (simp add: px_c_def px_own_def px_review_def)
  have "px_rated = px_own (px_rate Outstanding ''ann'' (domain_db px_c)) px_c"
    by (simp add: px_rated_def px_a_def px_b_def px_c_def Let_def)
  then have rated: "perf_reachable ((px_rated, []), [])"
    using reach_rate [OF c Inr_of [OF px_runs(4), unfolded px_rate_def]] by (simp add: px_own_def px_rate_def)
  have one: "perf_reachable ((px_filed ''q1'' ''ann'' px_rated, []), [])"
    unfolding px_filed_def by (rule reach_submit [OF rated prod.collapse [symmetric] px_fresh(2)]) (simp add: px_fresh(3))
  have two: "perf_reachable ((px_twice, []), [])"
    unfolding px_twice_def px_filed_def [of "''q2''"]
    by (rule reach_submit [OF one prod.collapse [symmetric] px_fresh(4)]) (simp add: px_fresh(5))
  have "reject px_env review_registry ''p1'' ''q1'' None (px_actor ''cal'') px_twice = Inr px_returned"
    using px_runs(5) by (simp add: px_returned_def)
  then have returned: "perf_reachable ((px_returned, []), [])" by (rule reach_decide(2) [OF two])
  have d: "perf_reachable ((px_d, []), [])"
    using reach_reassign [OF returned Inr_of [OF px_runs(6)]] by (simp add: px_d_def px_own_def)
  have e: "perf_reachable ((px_e, []), [])"
    using reach_rate [OF d Inr_of [OF px_runs(7), unfolded px_rate_def]] by (simp add: px_e_def px_own_def px_rate_def)
  have "perf_reachable ((px_filed ''q3'' ''bob'' px_e, []), [])"
    unfolding px_filed_def by (rule reach_submit [OF e prod.collapse [symmetric] px_fresh(6) px_d_approvals])
  moreover have "px_bobs = px_filed ''q3'' ''bob'' px_e" by (simp add: px_bobs_def px_e_def px_d_def Let_def)
  moreover have "approve px_env review_registry ''p2'' ''q2'' None (px_actor ''bob'') px_bobs = Inr px_end"
    using px_runs(8) by (simp add: px_end_def)
  ultimately show ?thesis using reach_decide(1) by simp
qed

text \<open>Two submissions of one review: the one that comes second is refused and keeps its request.\<close>

lemma refused_submission:
  assumes chk: "submit_review_check i actor (domain_db db) = Inr p" and filing: "file_review env q p actor db = Inr (item, db1)"
    and r: "find_row rv_id i (pf_reviews (domain_db db)) = Some r" "rv_status r \<noteq> Manager_review"
    and fresh: "find_row ri_id q (items db) = None"
  shows "submit_review env q i actor db = (Inl not_in_state, db1) \<and> find_row ri_id q (items db1) = Some item \<and>
    ri_status item = Pending \<and> ri_requesterId item = ac_sub actor \<and> rp_reviewId (ri_payload item) = i \<and>
    ri_assigneeId item = None"
proof -
  have p: "rp_reviewId p = i"
    using chk by (auto simp: submit_review_check_def must_find_review_def and_then_eq_Inr split: option.splits if_splits
        dest: find_row_Some)
  show ?thesis using filing unfolding file_review_def
  proof (rule submit_shape)
    fix def d'
    assume s: "registry_get review_registry ''performance_review'' = Inr def" "items db1 = items db @ [item]"
      "domain_db db1 = d'" "ri_id item = q" "ri_requesterId item = ac_sub actor" "ri_status item = Pending"
      "ri_payload item = p" "ri_assigneeId item = so_assigneeId no_options"
      and hook: "run_hook (map_option (\<lambda>h x d. h p (ac_sub actor) (ev_now env) d) (td_onSubmit def)) () (domain_db db) = Inr d'"
    have "def = review_type" using s(1) by (auto simp: review_registry_set dest!: registry_get_Inr find_row_Some)
    then have "domain_db db1 = domain_db db" using hook s(3) by (simp add: review_type_def)
    then have "mark_pending_approval i (ri_id item) actor (domain_db db1) = Inl not_in_state"
      using r by (simp add: mark_pending_approval_def update_review_def)
    then show ?thesis
      using chk filing s fresh p by (simp add: submit_review_def find_row_append no_options_def)
  qed
qed

text \<open>The approval of an open request about a review releases what the review holds, whoever wrote it.\<close>

lemma approval_releases:
  assumes q: "find_row ri_id q (items db) = Some x" "is_open (ri_status x)" "ri_type x = ''performance_review''"
      "ri_assigneeId x = None" "rp_reviewId (ri_payload x) = i"
    and r: "find_row rv_id i (pf_reviews (domain_db db)) = Some r" "rv_status r = Pending_approval"
    and actor: "ac_sub actor \<noteq> ri_requesterId x" "ac_sub actor \<noteq> rp_employeeId (ri_payload x)"
      "ev_delegation env (ac_sub actor) = None" "ev_check env (ac_sub actor) ''performance.approve''"
  shows "\<exists>db'. approve env review_registry aid q wnote actor db = Inr db' \<and>
    find_row rv_id i (pf_reviews (domain_db db')) =
      Some (r\<lparr>rv_status := Shared_review, rv_approvedBy := Some (ac_sub actor), rv_approvedAt := Some (ev_now env)\<rparr>)"
proof -
  have def: "registry_get review_registry ''performance_review'' = Inr review_type"
    by (simp add: registry_get_def review_registry_def register_def registry_has_def review_type_def)
  let ?ctx = "\<lparr>dc_request = x, dc_def = review_type, dc_delegation = None, dc_fallbackFor = None\<rparr>"
  have chk: "approve_check env review_registry q actor db = Inr ?ctx"
    using q def actor
    by (simp add: approve_check_Inr sod_subject_def allowed_for_def resolve_assignee_gate_def step_permission_def
        step_def_def review_type_def)
  let ?f = "\<lambda>r. r\<lparr>rv_status := Shared_review, rv_approvedBy := Some (ac_sub actor), rv_approvedAt := Some (ev_now env)\<rparr>"
  let ?d = "perf_record (ac_sub actor) ''performance.review_approved'' i
      ((domain_db db)\<lparr>pf_reviews := modify_row rv_id i ?f (pf_reviews (domain_db db))\<rparr>)"
  have hook: "review_on_approve (ri_payload x) (ri_id x) (ac_sub actor) (ev_now env) (domain_db db) = Inr ?d"
    using r actor(2) q(5) by (simp add: review_on_approve_def apply_approval_def update_review_def)
  have final: "is_final_step review_type n" for n by (simp add: is_final_step_def review_type_def)
  have td: "td_onApprove review_type = review_on_approve" by (simp add: review_type_def)
  obtain db' where m: "approve_commit env aid wnote actor ?ctx db = Inr db'"
    by (simp add: approve_commit_def next_assignee_def final Let_def td hook)
  have dom: "domain_db db' = ?d"
    by (rule approve_commit_shape [OF m]) (simp add: final td hook)
  have "find_row rv_id i (pf_reviews ?d) = Some (?f r)"
    using r(1) find_row_update_where [of rv_id ?f i "\<lambda>r. rv_id r = i" "pf_reviews (domain_db db)"] find_row_Some [OF r(1)]
    by (simp add: modify_row_def)
  then show ?thesis using chk m dom by (simp add: approve_def)
qed

text \<open>C22. The author of a rating can release it. A submission refused because the review is already on
  its way (its status is no longer with the reviewer) leaves the request it filed, open and unassigned.
  As long as that request stays open, its approval releases whatever the review holds by then: somebody
  other than its requester and the review's subject who has rated the review anew, and had it submitted
  again, approves the leftover request and releases their own rating, their name standing as reviewer's
  author and as approver.\<close>

theorem author_signs_off_own_rating:
  assumes refused: "submit_review_check i former (domain_db db1) = Inr p" "file_review env1 q p former db1 = Inr (item, db2)"
      "find_row rv_id i (pf_reviews (domain_db db1)) = Some r1" "rv_status r1 \<noteq> Manager_review"
      "find_row ri_id q (items db1) = None"
    and rated: "rate now i input author d3 = Inr (r3, d4)"
    and kept: "find_row rv_id i (pf_reviews (domain_db db5)) = Some r5" "rv_status r5 = Pending_approval"
      "rv_overallRating r5 = rv_overallRating r3" "rv_ratedAt r5 = rv_ratedAt r3" "rv_reviewerId r5 = rv_reviewerId r3"
    and open5: "find_row ri_id q (items db5) = Some x" "filed x = filed item" "is_open (ri_status x)" "ri_assigneeId x = None"
    and others: "ac_sub author \<noteq> ac_sub former" "ac_sub author \<noteq> rp_employeeId p"
      "ev_delegation env (ac_sub author) = None" "ev_check env (ac_sub author) ''performance.approve''"
  shows "submit_review env1 q i former db1 = (Inl not_in_state, db2) \<and>
    find_row ri_id q (items db2) = Some item \<and> ri_status item = Pending \<and>
    (\<exists>db6 r6. approve env review_registry aid q wnote author db5 = Inr db6 \<and>
       find_row rv_id i (pf_reviews (domain_db db6)) = Some r6 \<and> rv_status r6 = Shared_review \<and>
       rv_overallRating r6 = Some (ra_overallRating input) \<and> rv_ratedAt r6 = Some now \<and>
       rv_reviewerId r6 = ac_sub author \<and> rv_approvedBy r6 = Some (ac_sub author))"
proof -
  note s = refused_submission [OF refused]
  have ty: "ri_type item = ''performance_review''" "ri_payload item = p"
    using refused(2) unfolding file_review_def by (auto elim!: submit_shape)
  have x: "ri_type x = ''performance_review''" "ri_payload x = p" "ri_requesterId x = ac_sub former" "rp_reviewId (ri_payload x) = i"
    using open5(2) s ty by (auto simp: filed_def)
  obtain plan r where r: "find_row rv_id i (pf_reviews d3) = Some r" "rv_reviewerId r = ac_sub author"
      and "rate_commit now i input plan author d3 = Inr (r3, d4)"
    using rated by (auto simp: rate_def rate_check_def assert_is_reviewer_def must_find_review_def and_then_eq_Inr
        split: option.splits if_splits)
  then have r3: "rv_overallRating r3 = Some (ra_overallRating input)" "rv_ratedAt r3 = Some now"
      "rv_reviewerId r3 = ac_sub author"
    by (auto simp: rate_commit_def update_review_def and_then_eq_Inr split: option.splits if_splits)
  obtain db6 where d6: "approve env review_registry aid q wnote author db5 = Inr db6"
      "find_row rv_id i (pf_reviews (domain_db db6)) = Some (r5\<lparr>rv_status := Shared_review,
         rv_approvedBy := Some (ac_sub author), rv_approvedAt := Some (ev_now env)\<rparr>)"
    using approval_releases [OF open5(1,3) x(1) open5(4) x(4) kept(1,2), of author env] others x(2,3) by auto
  have "rv_overallRating r5 = Some (ra_overallRating input) \<and> rv_ratedAt r5 = Some now \<and> rv_reviewerId r5 = ac_sub author"
    using kept(3-5) r3 by simp
  with d6 have "\<exists>db6 r6. approve env review_registry aid q wnote author db5 = Inr db6 \<and>
       find_row rv_id i (pf_reviews (domain_db db6)) = Some r6 \<and> rv_status r6 = Shared_review \<and>
       rv_overallRating r6 = Some (ra_overallRating input) \<and> rv_ratedAt r6 = Some now \<and>
       rv_reviewerId r6 = ac_sub author \<and> rv_approvedBy r6 = Some (ac_sub author)"
    by (intro exI [of _ db6] exI [of _ "r5\<lparr>rv_status := Shared_review,
         rv_approvedBy := Some (ac_sub author), rv_approvedAt := Some (ev_now env)\<rparr>"]) simp
  with s show ?thesis by blast
qed

section \<open>Witnesses\<close>

text \<open>Cal is the history's first approver; Bob's rating is the one that is released.\<close>

theorem author_signs_off_own_rating_witness:
  "perf_reachable ((px_end, []), []) \<and>
   (\<exists>e. submit_review px_env ''q2'' ''r1'' (px_actor ''ann'') (px_filed ''q1'' ''ann'' px_rated) = (Inl e, px_twice)) \<and>
   (\<exists>r. find_row rv_id ''r1'' (pf_reviews (domain_db px_end)) = Some r \<and> rv_overallRating r = Some Meets \<and>
      rv_reviewerId r = ''bob'' \<and> rv_approvedBy r = Some ''bob'')"
proof -
  let ?db1 = "px_filed ''q1'' ''ann'' px_rated"
  let ?chk = "submit_review_check ''r1'' (px_actor ''ann'') (domain_db ?db1)"
  let ?file = "file_review px_env ''q2'' (projr ?chk) (px_actor ''ann'') ?db1"
  let ?r1 = "the (find_row rv_id ''r1'' (pf_reviews (domain_db ?db1)))"
  let ?rate = "px_rate Meets ''bob'' (domain_db px_d)"
  let ?r5 = "the (find_row rv_id ''r1'' (pf_reviews (domain_db px_bobs)))"
  let ?x = "the (find_row ri_id ''q2'' (items px_bobs))"
  have some: "v = Some (the v)" if "v \<noteq> None" for v :: "'a option" using that by simp
  have c: "\<not> isl ?chk" "\<not> isl ?file" "(find_row rv_id ''r1'' (pf_reviews (domain_db ?db1)) = None) = False"
    "(rv_status ?r1 = Manager_review) = False"
    "(find_row rv_id ''r1'' (pf_reviews (domain_db px_bobs)) = None) = False"
    "(find_row ri_id ''q2'' (items px_bobs) = None) = False"
    by code_simp+
  have k: "rv_status ?r5 = Pending_approval" "rv_overallRating ?r5 = rv_overallRating (fst (projr ?rate))"
    "rv_ratedAt ?r5 = rv_ratedAt (fst (projr ?rate))" "rv_reviewerId ?r5 = rv_reviewerId (fst (projr ?rate))"
    "filed ?x = filed (fst (projr ?file))" "is_open (ri_status ?x)" "ri_assigneeId ?x = None"
    "(rp_employeeId (projr ?chk) = ''bob'') = False" "snd (projr ?file) = px_twice"
    by code_simp+
  have rate: "rate 2 ''r1'' \<lparr>ra_managerSummary = ''summary'', ra_overallRating = Meets, ra_developmentPlan = None,
      ra_goals = []\<rparr> (px_actor ''bob'') (domain_db px_d) = Inr (fst (projr ?rate), snd (projr ?rate))"
    using Inr_of [OF px_runs(7)] by (simp add: px_rate_def)
  have run: "?file = Inr (fst (projr ?file), px_twice)" using Inr_of [OF c(2)] k(9) by simp
  have names: "ac_sub (px_actor ''bob'') = ''bob''" "ac_sub (px_actor ''ann'') = ''ann''" by (simp_all add: px_actor_def)
  have env: "ev_delegation px_env ''bob'' = None" "ev_check px_env ''bob'' p" for p by (simp_all add: px_env_def)
  have all: "submit_review px_env ''q2'' ''r1'' (px_actor ''ann'') ?db1 = (Inl not_in_state, px_twice) \<and>
    find_row ri_id ''q2'' (items px_twice) = Some (fst (projr ?file)) \<and> ri_status (fst (projr ?file)) = Pending \<and>
    (\<exists>db6 r6. approve px_env review_registry ''p2'' ''q2'' None (px_actor ''bob'') px_bobs = Inr db6 \<and>
       find_row rv_id ''r1'' (pf_reviews (domain_db db6)) = Some r6 \<and> rv_status r6 = Shared_review \<and>
       rv_overallRating r6 = Some Meets \<and> rv_ratedAt r6 = Some 2 \<and>
       rv_reviewerId r6 = ''bob'' \<and> rv_approvedBy r6 = Some ''bob'')"
    using author_signs_off_own_rating [OF sum.collapse(2) [OF c(1), symmetric] run some _ px_fresh(4) rate some k(1-4) some k(5-7),
        where env = px_env and aid = "''p2''" and wnote = None] c k(8) names env
    by (simp only: rate_input.simps) simp
  moreover have "approve px_env review_registry ''p2'' ''q2'' None (px_actor ''bob'') px_bobs = Inr px_end"
    using px_runs(8) by (simp add: px_end_def)
  ultimately show ?thesis using px_end_reachable by auto
qed

theorem released_review_was_signed_off_witness:
  "\<exists>r u q a. r \<in> set (pf_reviews (domain_db px_end)) \<and> rv_approvedBy r = Some u \<and> u \<noteq> rv_employeeId r \<and>
     q \<in> set (items px_end) \<and> a \<in> set (approvals px_end) \<and> ap_requestId a = ri_id q \<and> ap_approverId a = u"
proof -
  obtain r where r: "pf_reviews (domain_db px_end) = [r]" "rv_status r = Shared_review"
    using px_outcome(1) by (auto simp: map_eq_Cons_conv)
  have "r \<in> set (pf_reviews (world_tables ((px_end, []), [])))" "released_to_subject (rv_status r)"
    using r by (simp_all add: released_to_subject_def)
  from released_review_was_signed_off [OF px_end_reachable this] show ?thesis
    using r(1) find_row_Some by fastforce
qed

theorem subject_reads_released_judgement_only_witness:
  "rv_overallRating (projr (get_review_route px_env ''eve'' ''r1'' (domain_db px_rated))) = None \<and>
   released_by_other ((px_end, []), []) (projr (get_review_route px_env ''eve'' ''r1'' (domain_db px_end)))"
proof
  show "rv_overallRating (projr (get_review_route px_env ''eve'' ''r1'' (domain_db px_rated))) = None" by code_simp
  let ?r = "get_review_route px_env ''eve'' ''r1'' (domain_db px_end)"
  have "\<not> isl ?r" "rv_employeeId (projr ?r) = ''eve''" "rv_overallRating (projr ?r) \<noteq> None" by code_simp+
  then show "released_by_other ((px_end, []), []) (projr ?r)"
    using subject_reads_released_judgement_only [OF px_end_reachable] by (auto simp: judged_def)
qed

theorem cycle_closes_over_a_review_witness:
  "\<exists>r d2. create_review_commit 5 ''r9''
       \<lparr>rn_cycleId = ''c1'', rn_employeeId = ''eve'', rn_reviewerId = ''ann''\<rparr> (None, Manager_review) (px_actor ''hr'')
       (snd (projr (close_cycle 4 ''c1'' (px_actor ''hr'') (domain_db px_b)))) = Inr (r, d2) \<and>
     count_unfinished_reviews ''c1'' d2 > 0"
proof -
  let ?i = "\<lparr>rn_cycleId = ''c1'', rn_employeeId = ''eve'', rn_reviewerId = ''ann''\<rparr>"
  have c: "create_review_check ?i (domain_db px_b) = Inr (None, Manager_review)" by code_simp
  have "\<not> isl (close_cycle 4 (rn_cycleId ?i) (px_actor ''hr'') (domain_db px_b))" by code_simp
  from cycle_closes_over_a_review [OF c Inr_of [OF this], of 5 "''r9''" "px_actor ''hr''"] show ?thesis
    by (simp only: review_input.simps) blast
qed

definition px_goal :: "string \<Rightarrow> rat \<Rightarrow> perf_goal" where
  "px_goal i x = \<lparr>pg_id = i, pg_reviewId = ''r1'', pg_title = i, pg_description = None, pg_target = None,
     pg_weight = x, pg_outcome = None, pg_rating = Some Meets\<rparr>"

theorem goal_weights_total_hundred_witness:
  "assert_goals_complete [px_goal ''a'' (3333 / 100), px_goal ''b'' (3333 / 100), px_goal ''c'' (3334 / 100)] = Inr ()"
proof -
  let ?gs = "[px_goal ''a'' (3333 / 100), px_goal ''b'' (3333 / 100), px_goal ''c'' (3334 / 100)]"
  have "\<forall>g \<in> set ?gs. 0 < pg_weight g \<and> pg_weight g \<le> 100 \<and> (\<exists>k :: int. pg_weight g = of_int k / 100)"
    by (auto simp: px_goal_def intro: exI [of _ 3333] exI [of _ 3334])
  then show ?thesis
    using goal_weights_total_hundred [of ?gs] by (simp add: px_goal_def weight_sum_def)
qed

end
