(* ===== verification/Quality.thy ===== *)
theory Quality
  imports Positions
begin

text \<open>
  The quality register: non-conformances, corrective actions and internal audits
  (\<^verbatim>\<open>nonconformance.service.ts\<close>, \<^verbatim>\<open>capa.service.ts\<close>, \<^verbatim>\<open>internal-audit.service.ts\<close> and their
  repositories under \<^verbatim>\<open>libs/modules/qms/src\<close>).

  Every operation reads and checks first, on rows read outside any transaction, and then opens a
  transaction that writes. The first half yields a value of \<open>qms_write\<close>, all that the transaction is
  given; the second half is \<open>run_write\<close>. An operation called on its own is the two in a row.

  The CHECK constraints of the tables (migrations 0024 and 0025) are part of what an update does: a row
  that violates one is not written and the statement throws. PostgreSQL evaluates them in the order of
  their names. Column widths are left out. Times are milliseconds.
\<close>

section \<open>Rows\<close>

datatype nc_status = Nc_open | Nc_contained | Nc_closed | Nc_void

datatype nc_severity = Sev_observation | Sev_minor | Sev_major | Sev_critical

datatype nc_source = Src_internal_audit | Src_external_audit | Src_customer_complaint | Src_process_monitoring
  | Src_employee_report | Src_supplier | Src_incident | Src_other

datatype capa_status = Capa_analysis | Capa_planned | Capa_in_progress | Capa_implemented | Capa_verified
  | Capa_ineffective | Capa_cancelled

datatype cause_method = Five_whys | Fishbone | Fault_tree | Pareto | Other_method

datatype ia_status = Audit_planned | Audit_in_progress | Audit_reported | Audit_closed | Audit_cancelled

datatype audit_role = Role_lead | Role_auditor | Role_observer

record severity_level =
  sv_code :: nc_severity
  sv_rank :: int
  sv_label :: string
  sv_description :: string
  sv_requiresCapa :: bool
  sv_containmentDueDays :: int

record nonconformance =
  nc_id :: string
  nc_reference :: string
  nc_title :: string
  nc_description :: string
  nc_requirement :: string
  nc_source :: nc_source
  nc_severity :: nc_severity
  nc_status :: nc_status
  nc_processArea :: string
  nc_ownerId :: string
  nc_detectedAt :: int
  nc_raisedBy :: string
  nc_incidentId :: "string option"
  nc_evidenceDocumentId :: "string option"
  nc_internalAuditId :: "string option"
  nc_containmentAction :: "string option"
  nc_containedAt :: "int option"
  nc_closedAt :: "int option"
  nc_closureNote :: "string option"
  nc_closedBy :: "string option"
  nc_voidReason :: "string option"
  nc_createdAt :: int
  nc_updatedAt :: int

record capa =
  ca_id :: string
  ca_reference :: string
  ca_nonconformanceId :: string
  ca_status :: capa_status
  ca_ownerId :: string
  ca_rootCause :: "string option"
  ca_rootCauseMethod :: "cause_method option"
  ca_actionPlan :: "string option"
  ca_dueOn :: "iso_date option"
  ca_implementedAt :: "int option"
  ca_verifiedAt :: "int option"
  ca_verifiedBy :: "string option"
  ca_effectivenessEvidence :: "string option"
  ca_outcomeNote :: "string option"
  ca_createdAt :: int
  ca_updatedAt :: int

record internal_audit =
  ia_id :: string
  ia_reference :: string
  ia_title :: string
  ia_objective :: string
  ia_scope :: string
  ia_criteria :: string
  ia_status :: ia_status
  ia_leadAuditorId :: string
  ia_plannedStartOn :: "iso_date option"
  ia_plannedEndOn :: "iso_date option"
  ia_startedAt :: "int option"
  ia_reportedAt :: "int option"
  ia_conclusion :: "string option"
  ia_reportDocumentId :: "string option"
  ia_closedAt :: "int option"
  ia_cancelReason :: "string option"
  ia_createdAt :: int
  ia_updatedAt :: int

text \<open>The creation time of a roster entry is left out: nothing reads it.\<close>

record roster_entry =
  ro_internalAuditId :: string
  ro_auditorId :: string
  ro_role :: audit_role
  ro_addedBy :: string

text \<open>\<open>qm_incidents\<close> holds the ids of the incident table of the ISMS module, which the foreign key reads.\<close>

record qms_db =
  qm_severities :: "severity_level list"
  qm_findings :: "nonconformance list"
  qm_capas :: "capa list"
  qm_audits :: "internal_audit list"
  qm_roster :: "roster_entry list"
  qm_incidents :: "string list"
  qm_trail :: "audit_entry list"

definition qm_record :: "actor \<Rightarrow> string \<Rightarrow> string \<Rightarrow> qms_db \<Rightarrow> qms_db" where
  "qm_record actor action resourceId d =
     d\<lparr>qm_trail := qm_trail d @
       [\<lparr>au_actorId = Some (ac_sub actor), au_action = action, au_resourceId = resourceId\<rparr>]\<rparr>"

section \<open>Inputs\<close>

record raise_input =
  nn_reference :: string
  nn_title :: string
  nn_description :: string
  nn_requirement :: string
  nn_source :: nc_source
  nn_severity :: nc_severity
  nn_processArea :: string
  nn_ownerId :: string
  nn_detectedAt :: "int option"
  nn_incidentId :: "string option"
  nn_internalAuditId :: "string option"
  nn_evidenceDocumentId :: "string option"

record nc_patch =
  np_title :: "string option"
  np_description :: "string option"
  np_requirement :: "string option"
  np_source :: "nc_source option"
  np_severity :: "nc_severity option"
  np_processArea :: "string option"
  np_ownerId :: "string option"
  np_detectedAt :: "int option"
  np_incidentId :: "string option option"
  np_internalAuditId :: "string option option"
  np_evidenceDocumentId :: "string option option"

record capa_input =
  cn_reference :: string
  cn_ownerId :: string
  cn_dueOn :: "iso_date option"

record capa_analysis =
  cl_rootCause :: string
  cl_rootCauseMethod :: cause_method
  cl_actionPlan :: string
  cl_dueOn :: "iso_date option option"

record audit_plan =
  ip_reference :: string
  ip_title :: string
  ip_objective :: string
  ip_scope :: string
  ip_criteria :: string
  ip_leadAuditorId :: string
  ip_plannedStartOn :: "iso_date option"
  ip_plannedEndOn :: "iso_date option"

record audit_patch =
  ix_title :: "string option"
  ix_objective :: "string option"
  ix_scope :: "string option"
  ix_criteria :: "string option"
  ix_leadAuditorId :: "string option"
  ix_plannedStartOn :: "iso_date option option"
  ix_plannedEndOn :: "iso_date option option"

section \<open>The constraints\<close>

definition btrim :: "string \<Rightarrow> string" where
  "btrim s = rev (dropWhile (\<lambda>c. c = CHR '' '') (rev (dropWhile (\<lambda>c. c = CHR '' '') s)))"

definition substance :: "nat \<Rightarrow> string option \<Rightarrow> bool" where
  "substance n s \<longleftrightarrow> n \<le> length (btrim (case s of None \<Rightarrow> [] | Some x \<Rightarrow> x))"

definition in_order :: "int option \<Rightarrow> int option \<Rightarrow> bool" where
  "in_order a b \<longleftrightarrow> (case a of None \<Rightarrow> True | Some x \<Rightarrow> (case b of None \<Rightarrow> True | Some y \<Rightarrow> x \<le> y))"

definition nc_checks :: "qms_db \<Rightarrow> nonconformance \<Rightarrow> (string \<times> bool) list" where
  "nc_checks d n =
     [(''ck_nc_closed_pair'', (nc_status n = Nc_closed) =
         (nc_closedAt n \<noteq> None \<and> nc_closedBy n \<noteq> None \<and> substance 10 (nc_closureNote n))),
      (''ck_nc_contained_pair'', (nc_containedAt n = None) = (\<not> substance 10 (nc_containmentAction n))),
      (''ck_nc_contained_states'', nc_status n \<notin> {Nc_contained, Nc_closed} \<or> nc_containedAt n \<noteq> None),
      (''ck_nc_description_substance'', substance 10 (Some (nc_description n))),
      (''ck_nc_process_area_substance'', substance 2 (Some (nc_processArea n))),
      (''ck_nc_requirement_substance'', substance 5 (Some (nc_requirement n))),
      (''ck_nc_timeline_order'', in_order (Some (nc_detectedAt n)) (nc_containedAt n) \<and>
         in_order (nc_containedAt n) (nc_closedAt n) \<and> in_order (Some (nc_detectedAt n)) (nc_closedAt n)),
      (''ck_nc_title_substance'', substance 5 (Some (nc_title n))),
      (''ck_nc_void_clean'', nc_status n \<noteq> Nc_void \<or>
         nc_containedAt n = None \<and> nc_closedAt n = None \<and> substance 10 (nc_voidReason n)),
      (''ck_nc_void_reason_only_when_void'', nc_voidReason n = None \<or> nc_status n = Nc_void),
      (''nonconformances_severity_fkey'', \<exists>g \<in> set (qm_severities d). sv_code g = nc_severity n),
      (''nonconformances_incident_id_fkey'',
         case nc_incidentId n of None \<Rightarrow> True | Some i \<Rightarrow> i \<in> set (qm_incidents d)),
      (''nonconformances_internal_audit_id_fkey'',
         case nc_internalAuditId n of None \<Rightarrow> True | Some i \<Rightarrow> find_row ia_id i (qm_audits d) \<noteq> None)]"

definition capa_checks :: "capa \<Rightarrow> (string \<times> bool) list" where
  "capa_checks c =
     [(''ck_capa_implemented_states'',
         ca_status c \<notin> {Capa_implemented, Capa_verified, Capa_ineffective} \<or> ca_implementedAt c \<noteq> None),
      (''ck_capa_outcome_note'',
         ca_status c \<notin> {Capa_ineffective, Capa_cancelled} \<or> substance 10 (ca_outcomeNote c)),
      (''ck_capa_plan_states'',
         ca_status c \<in> {Capa_analysis, Capa_cancelled} \<or> substance 10 (ca_actionPlan c)),
      (''ck_capa_root_cause_states'', ca_status c \<in> {Capa_analysis, Capa_cancelled} \<or>
         substance 10 (ca_rootCause c) \<and> ca_rootCauseMethod c \<noteq> None),
      (''ck_capa_timeline_order'', in_order (ca_implementedAt c) (ca_verifiedAt c)),
      (''ck_capa_verified_pair'', (ca_status c = Capa_verified) =
         (ca_verifiedAt c \<noteq> None \<and> ca_verifiedBy c \<noteq> None \<and> substance 10 (ca_effectivenessEvidence c)))]"

definition ia_checks :: "internal_audit \<Rightarrow> (string \<times> bool) list" where
  "ia_checks a =
     [(''ck_audit_cancelled_clean'', ia_status a \<noteq> Audit_cancelled \<or> ia_reportedAt a = None \<and> ia_closedAt a = None),
      (''ck_audit_cancelled_pair'', (ia_status a = Audit_cancelled) = substance 10 (ia_cancelReason a)),
      (''ck_audit_closed_states'', (ia_status a = Audit_closed) = (ia_closedAt a \<noteq> None)),
      (''ck_audit_criteria_substance'', substance 5 (Some (ia_criteria a))),
      (''ck_audit_objective_substance'', substance 10 (Some (ia_objective a))),
      (''ck_audit_planned_window'',
         case ia_plannedStartOn a of None \<Rightarrow> True | Some s \<Rightarrow> (case ia_plannedEndOn a of None \<Rightarrow> True | Some e \<Rightarrow> s \<le> e)),
      (''ck_audit_reported_pair'', (ia_status a \<in> {Audit_reported, Audit_closed}) =
         (ia_reportedAt a \<noteq> None \<and> ia_reportDocumentId a \<noteq> None \<and> substance 10 (ia_conclusion a))),
      (''ck_audit_scope_substance'', substance 10 (Some (ia_scope a))),
      (''ck_audit_started_states'',
         ia_status a \<notin> {Audit_in_progress, Audit_reported, Audit_closed} \<or> ia_startedAt a \<noteq> None),
      (''ck_audit_timeline_order'',
         in_order (ia_startedAt a) (ia_reportedAt a) \<and> in_order (ia_reportedAt a) (ia_closedAt a)),
      (''ck_audit_title_substance'', substance 5 (Some (ia_title a))),
      (''invalid input syntax for type uuid'', ia_leadAuditorId a \<noteq> [])]"

text \<open>The lead's column is a uuid, which an empty string is not; the check stands at the end of \<open>ia_checks\<close>.\<close>

definition checked :: "(string \<times> bool) list \<Rightarrow> unit result" where
  "checked cs = (case find (\<lambda>(n, holds). \<not> holds) cs of None \<Rightarrow> Inr () | Some (n, _) \<Rightarrow> Inl (ThrownError n))"

text \<open>An update of at most one row, which returns that row or nothing.\<close>

definition update_returning ::
    "('r \<Rightarrow> (string \<times> bool) list) \<Rightarrow> ('r \<Rightarrow> bool) \<Rightarrow> ('r \<Rightarrow> 'r) \<Rightarrow> 'r list \<Rightarrow> ('r list \<times> 'r option) result" where
  "update_returning checks p f t =
     (case find p t of
        None \<Rightarrow> Inr (t, None)
      | Some r \<Rightarrow> and_then (checked (checks (f r))) (\<lambda>_. Inr (update_where p f t, Some (f r))))"

section \<open>What a transaction is given\<close>

datatype nc_extra = Contain_with string int | Close_with int string string | Void_with string

datatype capa_extra = Nothing_more | Implemented_at int | Verified_with int string string | Outcome_with string

datatype ia_extra = Started_at int | Reported_with int string string | Closed_at int | Cancelled_with string

datatype qms_write =
    Insert_finding raise_input actor
  | Patch_finding string nc_patch actor
  | Move_finding string nc_status nc_status nc_extra string actor
  | Insert_capa string capa_input actor
  | Set_analysis string capa_analysis actor
  | Move_capa string capa_status capa_status capa_extra string actor
  | Insert_audit audit_plan actor
  | Patch_audit string audit_patch string actor
  | Move_audit string ia_status ia_status ia_extra string actor
  | Put_auditor string string audit_role string actor
  | Drop_auditor string string actor

section \<open>Internal audits\<close>

fun audit_transitions :: "ia_status \<Rightarrow> ia_status list" where
  "audit_transitions Audit_planned = [Audit_in_progress, Audit_cancelled]"
| "audit_transitions Audit_in_progress = [Audit_reported, Audit_cancelled]"
| "audit_transitions Audit_reported = [Audit_closed]"
| "audit_transitions Audit_closed = []"
| "audit_transitions Audit_cancelled = []"

definition is_settled_audit :: "ia_status \<Rightarrow> bool" where
  "is_settled_audit s \<longleftrightarrow> s = Audit_closed \<or> s = Audit_cancelled"

definition get_audit :: "string \<Rightarrow> qms_db \<Rightarrow> internal_audit result" where
  "get_audit i d = (case find_row ia_id i (qm_audits d) of None \<Rightarrow> Inl (NotFoundException ''NOT_FOUND'') | Some a \<Rightarrow> Inr a)"

definition audit_may_become :: "internal_audit \<Rightarrow> ia_status \<Rightarrow> unit result" where
  "audit_may_become a s =
     ensure (s \<in> set (audit_transitions (ia_status a))) (PreconditionFailedException ''INTERNAL_AUDIT_NOT_IN_STATE'')"

definition audit_not_settled :: "internal_audit \<Rightarrow> unit result" where
  "audit_not_settled a =
     ensure (\<not> is_settled_audit (ia_status a)) (PreconditionFailedException ''INTERNAL_AUDIT_SETTLED'')"

definition planned_window :: "iso_date option \<Rightarrow> iso_date option \<Rightarrow> unit result" where
  "planned_window s e =
     (case (s, e) of
        (Some s', Some e') \<Rightarrow> assert_date_order s' e' ''INTERNAL_AUDIT_INVALID_WINDOW''
      | _ \<Rightarrow> Inr ())"

definition plan_audit :: "audit_plan \<Rightarrow> actor \<Rightarrow> qms_db \<Rightarrow> qms_write result" where
  "plan_audit input actor d =
     (if find_row ia_reference (ip_reference input) (qm_audits d) \<noteq> None then Inl (ConflictException ''CONFLICT'')
      else and_then (planned_window (ip_plannedStartOn input) (ip_plannedEndOn input))
             (\<lambda>_. Inr (Insert_audit input actor)))"

definition update_audit :: "string \<Rightarrow> audit_patch \<Rightarrow> actor \<Rightarrow> qms_db \<Rightarrow> qms_write result" where
  "update_audit i x actor d =
     and_then (get_audit i d) (\<lambda>before.
     and_then (audit_not_settled before) (\<lambda>_.
     and_then (planned_window (keep (ix_plannedStartOn x) (ia_plannedStartOn before))
                 (keep (ix_plannedEndOn x) (ia_plannedEndOn before))) (\<lambda>_.
       Inr (Patch_audit i x (ia_leadAuditorId before) actor))))"

definition start_audit :: "int \<Rightarrow> string \<Rightarrow> int option \<Rightarrow> actor \<Rightarrow> qms_db \<Rightarrow> qms_write result" where
  "start_audit now i startedAt actor d =
     and_then (get_audit i d) (\<lambda>a.
     and_then (audit_may_become a Audit_in_progress) (\<lambda>_.
       if filter (\<lambda>r. ro_internalAuditId r = i \<and> ro_role r \<noteq> Role_observer) (qm_roster d) = []
       then Inl (PreconditionFailedException ''INTERNAL_AUDIT_NO_AUDITORS'')
       else Inr (Move_audit i (ia_status a) Audit_in_progress (Started_at (keep startedAt now)) ''internal_audit.started'' actor)))"

definition report_audit :: "int \<Rightarrow> string \<Rightarrow> string \<Rightarrow> string \<Rightarrow> actor \<Rightarrow> qms_db \<Rightarrow> qms_write result" where
  "report_audit now i conclusion reportDocumentId actor d =
     and_then (get_audit i d) (\<lambda>a.
     and_then (audit_may_become a Audit_reported) (\<lambda>_.
       if \<not> in_order (ia_startedAt a) (Some now) then Inl (PreconditionFailedException ''INTERNAL_AUDIT_NOT_IN_STATE'')
       else Inr (Move_audit i (ia_status a) Audit_reported (Reported_with now conclusion reportDocumentId)
              ''internal_audit.reported'' actor)))"

definition close_audit :: "int \<Rightarrow> string \<Rightarrow> actor \<Rightarrow> qms_db \<Rightarrow> qms_write result" where
  "close_audit now i actor d =
     and_then (get_audit i d) (\<lambda>a.
     and_then (audit_may_become a Audit_closed) (\<lambda>_.
       Inr (Move_audit i (ia_status a) Audit_closed (Closed_at now) ''internal_audit.closed'' actor)))"

definition cancel_audit :: "string \<Rightarrow> string \<Rightarrow> actor \<Rightarrow> qms_db \<Rightarrow> qms_write result" where
  "cancel_audit i reason actor d =
     and_then (get_audit i d) (\<lambda>a.
     and_then (audit_may_become a Audit_cancelled) (\<lambda>_.
       Inr (Move_audit i (ia_status a) Audit_cancelled (Cancelled_with reason) ''internal_audit.cancelled'' actor)))"

definition assign_auditor :: "string \<Rightarrow> string \<Rightarrow> audit_role \<Rightarrow> actor \<Rightarrow> qms_db \<Rightarrow> qms_write result" where
  "assign_auditor i auditorId r actor d =
     and_then (get_audit i d) (\<lambda>a.
     and_then (audit_not_settled a) (\<lambda>_. Inr (Put_auditor i auditorId r (ia_leadAuditorId a) actor)))"

definition remove_auditor :: "string \<Rightarrow> string \<Rightarrow> actor \<Rightarrow> qms_db \<Rightarrow> qms_write result" where
  "remove_auditor i auditorId actor d =
     and_then (get_audit i d) (\<lambda>a.
     and_then (audit_not_settled a) (\<lambda>_.
       if auditorId = ia_leadAuditorId a then Inl (PreconditionFailedException ''INTERNAL_AUDIT_LEAD_REQUIRED'')
       else Inr (Drop_auditor i auditorId actor)))"

text \<open>Who counts as having audited: lead or auditor, never an observer.\<close>

definition did_audit :: "string \<Rightarrow> string \<Rightarrow> qms_db \<Rightarrow> bool" where
  "did_audit i personId d \<longleftrightarrow>
     (\<exists>r \<in> set (qm_roster d). ro_internalAuditId r = i \<and> ro_auditorId r = personId \<and>
        (ro_role r = Role_lead \<or> ro_role r = Role_auditor))"

section \<open>Non-conformances\<close>

fun finding_transitions :: "nc_status \<Rightarrow> nc_status list" where
  "finding_transitions Nc_open = [Nc_contained, Nc_void]"
| "finding_transitions Nc_contained = [Nc_closed, Nc_void]"
| "finding_transitions Nc_closed = []"
| "finding_transitions Nc_void = []"

definition is_settled_finding :: "nc_status \<Rightarrow> bool" where
  "is_settled_finding s \<longleftrightarrow> s = Nc_closed \<or> s = Nc_void"

definition CLOCK_SKEW_TOLERANCE_MS :: int where "CLOCK_SKEW_TOLERANCE_MS = 2 * 60000"

definition get_finding :: "string \<Rightarrow> qms_db \<Rightarrow> nonconformance result" where
  "get_finding i d = (case find_row nc_id i (qm_findings d) of None \<Rightarrow> Inl (NotFoundException ''NOT_FOUND'') | Some n \<Rightarrow> Inr n)"

definition finding_may_become :: "nonconformance \<Rightarrow> nc_status \<Rightarrow> unit result" where
  "finding_may_become n s =
     ensure (s \<in> set (finding_transitions (nc_status n))) (PreconditionFailedException ''NONCONFORMANCE_NOT_IN_STATE'')"

definition not_future_detection :: "int \<Rightarrow> int option \<Rightarrow> unit result" where
  "not_future_detection now moment =
     ensure (case moment of None \<Rightarrow> True | Some t \<Rightarrow> t \<le> now + CLOCK_SKEW_TOLERANCE_MS)
       (PreconditionFailedException ''NONCONFORMANCE_NOT_IN_STATE'')"

definition has_verified_capa :: "string \<Rightarrow> qms_db \<Rightarrow> bool" where
  "has_verified_capa i d \<longleftrightarrow> (\<exists>c \<in> set (qm_capas d). ca_nonconformanceId c = i \<and> ca_status c = Capa_verified)"

definition severity_for :: "nc_severity \<Rightarrow> qms_db \<Rightarrow> severity_level result" where
  "severity_for s d =
     (case find_row sv_code s (sort_key sv_rank (qm_severities d)) of
        None \<Rightarrow> Inl (PreconditionFailedException ''NONCONFORMANCE_NOT_IN_STATE'')
      | Some g \<Rightarrow> Inr g)"

definition raise_finding :: "int \<Rightarrow> raise_input \<Rightarrow> actor \<Rightarrow> qms_db \<Rightarrow> qms_write result" where
  "raise_finding now input actor d =
     (if find_row nc_reference (nn_reference input) (qm_findings d) \<noteq> None then Inl (ConflictException ''CONFLICT'')
      else and_then (not_future_detection now (nn_detectedAt input)) (\<lambda>_. Inr (Insert_finding input actor)))"

definition update_finding :: "int \<Rightarrow> string \<Rightarrow> nc_patch \<Rightarrow> actor \<Rightarrow> qms_db \<Rightarrow> qms_write result" where
  "update_finding now i x actor d =
     and_then (get_finding i d) (\<lambda>before.
     and_then (ensure (\<not> is_settled_finding (nc_status before)) (PreconditionFailedException ''NONCONFORMANCE_SETTLED'')) (\<lambda>_.
     and_then (not_future_detection now (np_detectedAt x)) (\<lambda>_. Inr (Patch_finding i x actor))))"

definition contain_finding :: "int \<Rightarrow> string \<Rightarrow> string \<Rightarrow> int option \<Rightarrow> actor \<Rightarrow> qms_db \<Rightarrow> qms_write result" where
  "contain_finding now i containmentAction containedAt actor d =
     and_then (get_finding i d) (\<lambda>n.
     and_then (finding_may_become n Nc_contained) (\<lambda>_.
       let moment = keep containedAt now
       in if moment < nc_detectedAt n then Inl (PreconditionFailedException ''NONCONFORMANCE_NOT_IN_STATE'')
          else Inr (Move_finding i (nc_status n) Nc_contained (Contain_with containmentAction moment)
                 ''nonconformance.contained'' actor)))"

definition close_finding :: "int \<Rightarrow> string \<Rightarrow> string \<Rightarrow> actor \<Rightarrow> qms_db \<Rightarrow> qms_write result" where
  "close_finding now i closureNote actor d =
     and_then (get_finding i d) (\<lambda>n.
     and_then (finding_may_become n Nc_closed) (\<lambda>_.
     and_then (severity_for (nc_severity n) d) (\<lambda>grade.
       if sv_requiresCapa grade \<and> \<not> has_verified_capa i d
       then Inl (PreconditionFailedException ''NONCONFORMANCE_CAPA_REQUIRED'')
       else Inr (Move_finding i (nc_status n) Nc_closed (Close_with now closureNote (ac_sub actor))
              ''nonconformance.closed'' actor))))"

definition void_finding :: "string \<Rightarrow> string \<Rightarrow> actor \<Rightarrow> qms_db \<Rightarrow> qms_write result" where
  "void_finding i reason actor d =
     and_then (get_finding i d) (\<lambda>n.
     and_then (finding_may_become n Nc_void) (\<lambda>_.
       if nc_containedAt n \<noteq> None then Inl (PreconditionFailedException ''NONCONFORMANCE_NOT_IN_STATE'')
       else Inr (Move_finding i (nc_status n) Nc_void (Void_with reason) ''nonconformance.voided'' actor)))"

section \<open>Corrective actions\<close>

fun capa_transitions :: "capa_status \<Rightarrow> capa_status list" where
  "capa_transitions Capa_analysis = [Capa_planned, Capa_cancelled]"
| "capa_transitions Capa_planned = [Capa_in_progress, Capa_cancelled]"
| "capa_transitions Capa_in_progress = [Capa_implemented, Capa_cancelled]"
| "capa_transitions Capa_implemented = [Capa_verified, Capa_ineffective, Capa_cancelled]"
| "capa_transitions Capa_ineffective = [Capa_analysis, Capa_cancelled]"
| "capa_transitions Capa_verified = []"
| "capa_transitions Capa_cancelled = []"

definition is_settled_capa :: "capa_status \<Rightarrow> bool" where
  "is_settled_capa s \<longleftrightarrow> s = Capa_verified \<or> s = Capa_cancelled"

definition get_capa :: "string \<Rightarrow> qms_db \<Rightarrow> capa result" where
  "get_capa i d = (case find_row ca_id i (qm_capas d) of None \<Rightarrow> Inl (NotFoundException ''NOT_FOUND'') | Some c \<Rightarrow> Inr c)"

definition capa_may_become :: "capa \<Rightarrow> capa_status \<Rightarrow> unit result" where
  "capa_may_become c s =
     ensure (s \<in> set (capa_transitions (ca_status c))) (PreconditionFailedException ''CAPA_NOT_IN_STATE'')"

definition long_enough :: "string option \<Rightarrow> bool" where
  "long_enough s \<longleftrightarrow> \<not> length (trim (case s of None \<Rightarrow> [] | Some x \<Rightarrow> x)) < 10"

definition analysis_complete :: "capa \<Rightarrow> unit result" where
  "analysis_complete c =
     ensure (long_enough (ca_rootCause c) \<and> ca_rootCauseMethod c \<noteq> None \<and> long_enough (ca_actionPlan c))
       (PreconditionFailedException ''CAPA_ANALYSIS_INCOMPLETE'')"

definition not_the_auditor :: "string \<Rightarrow> actor \<Rightarrow> qms_db \<Rightarrow> unit result" where
  "not_the_auditor nonconformanceId actor d =
     (case find_row nc_id nonconformanceId (qm_findings d) of
        None \<Rightarrow> Inr ()
      | Some n \<Rightarrow> (case nc_internalAuditId n of
            None \<Rightarrow> Inr ()
          | Some a \<Rightarrow> ensure (\<not> did_audit a (ac_sub actor) d)
              (PreconditionFailedException ''CAPA_AUDITOR_IMPARTIALITY'')))"

definition open_capa :: "string \<Rightarrow> capa_input \<Rightarrow> actor \<Rightarrow> qms_db \<Rightarrow> qms_write result" where
  "open_capa nonconformanceId input actor d =
     and_then (get_finding nonconformanceId d) (\<lambda>n.
       if is_settled_finding (nc_status n) then Inl (PreconditionFailedException ''NONCONFORMANCE_SETTLED'')
       else if find_row ca_reference (cn_reference input) (qm_capas d) \<noteq> None then Inl (ConflictException ''CONFLICT'')
       else Inr (Insert_capa nonconformanceId input actor))"

definition record_analysis :: "string \<Rightarrow> capa_analysis \<Rightarrow> actor \<Rightarrow> qms_db \<Rightarrow> qms_write result" where
  "record_analysis i input actor d =
     and_then (get_capa i d) (\<lambda>c.
       if is_settled_capa (ca_status c) then Inl (PreconditionFailedException ''CAPA_SETTLED'')
       else if ca_status c \<noteq> Capa_analysis then Inl (PreconditionFailedException ''CAPA_NOT_IN_STATE'')
       else Inr (Set_analysis i input actor))"

definition plan_capa :: "string \<Rightarrow> actor \<Rightarrow> qms_db \<Rightarrow> qms_write result" where
  "plan_capa i actor d =
     and_then (get_capa i d) (\<lambda>c.
     and_then (capa_may_become c Capa_planned) (\<lambda>_.
     and_then (analysis_complete c) (\<lambda>_.
       Inr (Move_capa i (ca_status c) Capa_planned Nothing_more ''capa.planned'' actor))))"

definition start_capa :: "string \<Rightarrow> actor \<Rightarrow> qms_db \<Rightarrow> qms_write result" where
  "start_capa i actor d =
     and_then (get_capa i d) (\<lambda>c.
     and_then (capa_may_become c Capa_in_progress) (\<lambda>_.
       Inr (Move_capa i (ca_status c) Capa_in_progress Nothing_more ''capa.started'' actor)))"

definition mark_implemented :: "int \<Rightarrow> string \<Rightarrow> int option \<Rightarrow> actor \<Rightarrow> qms_db \<Rightarrow> qms_write result" where
  "mark_implemented now i implementedAt actor d =
     and_then (get_capa i d) (\<lambda>c.
     and_then (capa_may_become c Capa_implemented) (\<lambda>_.
       Inr (Move_capa i (ca_status c) Capa_implemented (Implemented_at (keep implementedAt now))
         ''capa.implemented'' actor)))"

text \<open>A review, in either direction, is not for the owner and not for somebody who audited the finding.\<close>

definition may_review :: "capa \<Rightarrow> actor \<Rightarrow> qms_db \<Rightarrow> unit result" where
  "may_review c actor d =
     (if ca_ownerId c = ac_sub actor then Inl (PreconditionFailedException ''CAPA_SELF_VERIFICATION'')
      else not_the_auditor (ca_nonconformanceId c) actor d)"

definition verify_capa :: "int \<Rightarrow> string \<Rightarrow> string \<Rightarrow> actor \<Rightarrow> qms_db \<Rightarrow> qms_write result" where
  "verify_capa now i evidence actor d =
     and_then (get_capa i d) (\<lambda>c.
     and_then (capa_may_become c Capa_verified) (\<lambda>_.
     and_then (may_review c actor d) (\<lambda>_.
       if \<not> in_order (ca_implementedAt c) (Some now) then Inl (PreconditionFailedException ''CAPA_NOT_IN_STATE'')
       else Inr (Move_capa i (ca_status c) Capa_verified (Verified_with now (ac_sub actor) evidence)
              ''capa.verified'' actor))))"

definition mark_ineffective :: "string \<Rightarrow> string \<Rightarrow> actor \<Rightarrow> qms_db \<Rightarrow> qms_write result" where
  "mark_ineffective i reason actor d =
     and_then (get_capa i d) (\<lambda>c.
     and_then (capa_may_become c Capa_ineffective) (\<lambda>_.
     and_then (may_review c actor d) (\<lambda>_.
       Inr (Move_capa i (ca_status c) Capa_ineffective (Outcome_with reason) ''capa.ineffective'' actor))))"

definition reopen_analysis :: "string \<Rightarrow> actor \<Rightarrow> qms_db \<Rightarrow> qms_write result" where
  "reopen_analysis i actor d =
     and_then (get_capa i d) (\<lambda>c.
     and_then (capa_may_become c Capa_analysis) (\<lambda>_.
       Inr (Move_capa i (ca_status c) Capa_analysis Nothing_more ''capa.analysed'' actor)))"

definition cancel_capa :: "string \<Rightarrow> string \<Rightarrow> actor \<Rightarrow> qms_db \<Rightarrow> qms_write result" where
  "cancel_capa i reason actor d =
     and_then (get_capa i d) (\<lambda>c.
     and_then (capa_may_become c Capa_cancelled) (\<lambda>_.
       Inr (Move_capa i (ca_status c) Capa_cancelled (Outcome_with reason) ''capa.cancelled'' actor)))"

section \<open>The transactions\<close>

definition new_finding :: "int \<Rightarrow> string \<Rightarrow> raise_input \<Rightarrow> actor \<Rightarrow> nonconformance" where
  "new_finding now i input actor =
     \<lparr>nc_id = i, nc_reference = nn_reference input, nc_title = nn_title input,
      nc_description = nn_description input, nc_requirement = nn_requirement input, nc_source = nn_source input,
      nc_severity = nn_severity input, nc_status = Nc_open, nc_processArea = nn_processArea input,
      nc_ownerId = nn_ownerId input, nc_detectedAt = keep (nn_detectedAt input) now, nc_raisedBy = ac_sub actor,
      nc_incidentId = nn_incidentId input, nc_evidenceDocumentId = nn_evidenceDocumentId input,
      nc_internalAuditId = nn_internalAuditId input, nc_containmentAction = None, nc_containedAt = None,
      nc_closedAt = None, nc_closureNote = None, nc_closedBy = None, nc_voidReason = None,
      nc_createdAt = now, nc_updatedAt = now\<rparr>"

definition patch_finding :: "int \<Rightarrow> nc_patch \<Rightarrow> nonconformance \<Rightarrow> nonconformance" where
  "patch_finding now x n =
     n\<lparr>nc_title := keep (np_title x) (nc_title n), nc_description := keep (np_description x) (nc_description n),
       nc_requirement := keep (np_requirement x) (nc_requirement n), nc_source := keep (np_source x) (nc_source n),
       nc_severity := keep (np_severity x) (nc_severity n),
       nc_processArea := keep (np_processArea x) (nc_processArea n),
       nc_ownerId := keep (np_ownerId x) (nc_ownerId n), nc_detectedAt := keep (np_detectedAt x) (nc_detectedAt n),
       nc_incidentId := keep (np_incidentId x) (nc_incidentId n),
       nc_internalAuditId := keep (np_internalAuditId x) (nc_internalAuditId n),
       nc_evidenceDocumentId := keep (np_evidenceDocumentId x) (nc_evidenceDocumentId n), nc_updatedAt := now\<rparr>"

fun put_finding_extra :: "nc_extra \<Rightarrow> nonconformance \<Rightarrow> nonconformance" where
  "put_finding_extra (Contain_with action moment) n = n\<lparr>nc_containmentAction := Some action, nc_containedAt := Some moment\<rparr>"
| "put_finding_extra (Close_with moment closing who) n =
     n\<lparr>nc_closedAt := Some moment, nc_closureNote := Some closing, nc_closedBy := Some who\<rparr>"
| "put_finding_extra (Void_with reason) n = n\<lparr>nc_voidReason := Some reason\<rparr>"

definition new_capa :: "int \<Rightarrow> string \<Rightarrow> string \<Rightarrow> capa_input \<Rightarrow> capa" where
  "new_capa now i nonconformanceId input =
     \<lparr>ca_id = i, ca_reference = cn_reference input, ca_nonconformanceId = nonconformanceId,
      ca_status = Capa_analysis, ca_ownerId = cn_ownerId input, ca_rootCause = None, ca_rootCauseMethod = None,
      ca_actionPlan = None, ca_dueOn = cn_dueOn input, ca_implementedAt = None, ca_verifiedAt = None,
      ca_verifiedBy = None, ca_effectivenessEvidence = None, ca_outcomeNote = None,
      ca_createdAt = now, ca_updatedAt = now\<rparr>"

definition put_analysis :: "int \<Rightarrow> capa_analysis \<Rightarrow> capa \<Rightarrow> capa" where
  "put_analysis now x c =
     c\<lparr>ca_rootCause := Some (cl_rootCause x), ca_rootCauseMethod := Some (cl_rootCauseMethod x),
       ca_actionPlan := Some (cl_actionPlan x), ca_dueOn := keep (cl_dueOn x) (ca_dueOn c), ca_updatedAt := now\<rparr>"

fun put_capa_extra :: "capa_extra \<Rightarrow> capa \<Rightarrow> capa" where
  "put_capa_extra Nothing_more c = c"
| "put_capa_extra (Implemented_at moment) c = c\<lparr>ca_implementedAt := Some moment\<rparr>"
| "put_capa_extra (Verified_with moment who evidence) c =
     c\<lparr>ca_verifiedAt := Some moment, ca_verifiedBy := Some who, ca_effectivenessEvidence := Some evidence\<rparr>"
| "put_capa_extra (Outcome_with reason) c = c\<lparr>ca_outcomeNote := Some reason\<rparr>"

definition new_audit :: "int \<Rightarrow> string \<Rightarrow> audit_plan \<Rightarrow> internal_audit" where
  "new_audit now i input =
     \<lparr>ia_id = i, ia_reference = ip_reference input, ia_title = ip_title input, ia_objective = ip_objective input,
      ia_scope = ip_scope input, ia_criteria = ip_criteria input, ia_status = Audit_planned,
      ia_leadAuditorId = ip_leadAuditorId input, ia_plannedStartOn = ip_plannedStartOn input,
      ia_plannedEndOn = ip_plannedEndOn input, ia_startedAt = None, ia_reportedAt = None, ia_conclusion = None,
      ia_reportDocumentId = None, ia_closedAt = None, ia_cancelReason = None, ia_createdAt = now, ia_updatedAt = now\<rparr>"

definition patch_audit :: "int \<Rightarrow> audit_patch \<Rightarrow> internal_audit \<Rightarrow> internal_audit" where
  "patch_audit now x a =
     a\<lparr>ia_title := keep (ix_title x) (ia_title a), ia_objective := keep (ix_objective x) (ia_objective a),
       ia_scope := keep (ix_scope x) (ia_scope a), ia_criteria := keep (ix_criteria x) (ia_criteria a),
       ia_leadAuditorId := keep (ix_leadAuditorId x) (ia_leadAuditorId a),
       ia_plannedStartOn := keep (ix_plannedStartOn x) (ia_plannedStartOn a),
       ia_plannedEndOn := keep (ix_plannedEndOn x) (ia_plannedEndOn a), ia_updatedAt := now\<rparr>"

fun put_audit_extra :: "ia_extra \<Rightarrow> internal_audit \<Rightarrow> internal_audit" where
  "put_audit_extra (Started_at moment) a = a\<lparr>ia_startedAt := Some moment\<rparr>"
| "put_audit_extra (Reported_with moment conclusion document) a =
     a\<lparr>ia_reportedAt := Some moment, ia_conclusion := Some conclusion, ia_reportDocumentId := Some document\<rparr>"
| "put_audit_extra (Closed_at moment) a = a\<lparr>ia_closedAt := Some moment\<rparr>"
| "put_audit_extra (Cancelled_with reason) a = a\<lparr>ia_cancelReason := Some reason\<rparr>"

definition in_roster :: "string \<Rightarrow> string \<Rightarrow> roster_entry \<Rightarrow> bool" where
  "in_roster i auditorId r \<longleftrightarrow> ro_internalAuditId r = i \<and> ro_auditorId r = auditorId"

definition upsert_auditor :: "string \<Rightarrow> string \<Rightarrow> audit_role \<Rightarrow> string \<Rightarrow> qms_db \<Rightarrow> qms_db" where
  "upsert_auditor i auditorId r addedBy d =
     d\<lparr>qm_roster :=
       (if find (in_roster i auditorId) (qm_roster d) = None
        then qm_roster d @
          [\<lparr>ro_internalAuditId = i, ro_auditorId = auditorId, ro_role = r, ro_addedBy = addedBy\<rparr>]
        else update_where (in_roster i auditorId) (\<lambda>e. e\<lparr>ro_role := r, ro_addedBy := addedBy\<rparr>) (qm_roster d))\<rparr>"

definition update_audit_row :: "(internal_audit \<Rightarrow> bool) \<Rightarrow> (internal_audit \<Rightarrow> internal_audit) \<Rightarrow> app_error \<Rightarrow> qms_db \<Rightarrow> qms_db result" where
  "update_audit_row p f missing d =
     and_then (update_returning ia_checks p f (qm_audits d)) (\<lambda>(t, row).
       case row of None \<Rightarrow> Inl missing | Some _ \<Rightarrow> Inr (d\<lparr>qm_audits := t\<rparr>))"

text \<open>A patch that finds no row reads a property of null.\<close>

definition no_row :: app_error where "no_row = ThrownError ''TypeError''"

definition run_patch_audit :: "int \<Rightarrow> string \<Rightarrow> audit_patch \<Rightarrow> string \<Rightarrow> actor \<Rightarrow> qms_db \<Rightarrow> qms_db result" where
  "run_patch_audit now i x lead actor d =
     and_then (update_audit_row (\<lambda>a. ia_id a = i) (patch_audit now x) no_row d) (\<lambda>d1.
       let d2 = (case ix_leadAuditorId x of
                   None \<Rightarrow> d1
                 | Some next_lead \<Rightarrow>
                     if next_lead = [] \<or> next_lead = lead then d1
                     else upsert_auditor i lead Role_auditor (ac_sub actor)
                            (upsert_auditor i next_lead Role_lead (ac_sub actor) d1))
       in Inr (qm_record actor ''internal_audit.updated'' i d2))"

definition run_put_auditor :: "int \<Rightarrow> string \<Rightarrow> string \<Rightarrow> audit_role \<Rightarrow> string \<Rightarrow> actor \<Rightarrow> qms_db \<Rightarrow> qms_db result" where
  "run_put_auditor now i auditorId r lead actor d =
     (let d1 = upsert_auditor i auditorId r (ac_sub actor) d
      in and_then
           (if r = Role_lead \<and> auditorId \<noteq> lead
            then and_then
                   (update_returning ia_checks (\<lambda>a. ia_id a = i)
                      (\<lambda>a. a\<lparr>ia_leadAuditorId := auditorId, ia_updatedAt := now\<rparr>) (qm_audits d1))
                   (\<lambda>(t, _). Inr (upsert_auditor i lead Role_auditor (ac_sub actor) (d1\<lparr>qm_audits := t\<rparr>)))
            else Inr d1)
           (\<lambda>d2. Inr (qm_record actor ''internal_audit.auditor_assigned'' i d2)))"

definition txn_raise_finding [simp]:
    "txn_raise_finding now new_id input actor d =
     (let n = new_finding now new_id input actor
      in if find_row nc_reference (nc_reference n) (qm_findings d) \<noteq> None then Inl (ThrownError ''uq_nc_reference'')
         else and_then (checked (nc_checks d n)) (\<lambda>_.
           Inr (qm_record actor ''nonconformance.raised'' new_id (d\<lparr>qm_findings := qm_findings d @ [n]\<rparr>))))"

definition txn_update_finding [simp]:
    "txn_update_finding now i x actor d =
     and_then (update_returning (nc_checks d) (\<lambda>n. nc_id n = i) (patch_finding now x) (qm_findings d)) (\<lambda>(t, row).
       case row of
         None \<Rightarrow> Inl no_row
       | Some _ \<Rightarrow> Inr (qm_record actor ''nonconformance.updated'' i (d\<lparr>qm_findings := t\<rparr>)))"

definition txn_move_finding [simp]:
    "txn_move_finding now i from_status to_status extra action actor d =
     and_then
       (update_returning (nc_checks d) (\<lambda>n. nc_id n = i \<and> nc_status n = from_status)
          (\<lambda>n. put_finding_extra extra (n\<lparr>nc_status := to_status, nc_updatedAt := now\<rparr>)) (qm_findings d))
       (\<lambda>(t, row). case row of
            None \<Rightarrow> Inl (ConflictException ''NONCONFORMANCE_NOT_IN_STATE'')
          | Some _ \<Rightarrow> Inr (qm_record actor action i (d\<lparr>qm_findings := t\<rparr>)))"

definition txn_open_capa [simp]:
    "txn_open_capa now new_id nonconformanceId input actor d =
     (let c = new_capa now new_id nonconformanceId input
      in if find_row ca_reference (ca_reference c) (qm_capas d) \<noteq> None then Inl (ThrownError ''uq_capa_reference'')
         else if find_row nc_id nonconformanceId (qm_findings d) = None
         then Inl (ThrownError ''capas_nonconformance_id_fkey'')
         else and_then (checked (capa_checks c)) (\<lambda>_.
           Inr (qm_record actor ''capa.opened'' new_id (d\<lparr>qm_capas := qm_capas d @ [c]\<rparr>))))"

definition txn_record_analysis [simp]:
    "txn_record_analysis now i x actor d =
     and_then (update_returning capa_checks (\<lambda>c. ca_id c = i) (put_analysis now x) (qm_capas d)) (\<lambda>(t, row).
       case row of
         None \<Rightarrow> Inl no_row
       | Some _ \<Rightarrow> Inr (qm_record actor ''capa.analysed'' i (d\<lparr>qm_capas := t\<rparr>)))"

definition txn_move_capa [simp]:
    "txn_move_capa now i from_status to_status extra action actor d =
     and_then
       (update_returning capa_checks (\<lambda>c. ca_id c = i \<and> ca_status c = from_status)
          (\<lambda>c. put_capa_extra extra (c\<lparr>ca_status := to_status, ca_updatedAt := now\<rparr>)) (qm_capas d))
       (\<lambda>(t, row). case row of
            None \<Rightarrow> Inl (ConflictException ''CAPA_NOT_IN_STATE'')
          | Some _ \<Rightarrow> Inr (qm_record actor action i (d\<lparr>qm_capas := t\<rparr>)))"

definition txn_plan_audit [simp]:
    "txn_plan_audit now new_id input actor d =
     (let a = new_audit now new_id input
      in if find_row ia_reference (ia_reference a) (qm_audits d) \<noteq> None
         then Inl (ThrownError ''uq_internal_audit_reference'')
         else and_then (checked (ia_checks a)) (\<lambda>_.
           Inr (qm_record actor ''internal_audit.planned'' new_id
             (upsert_auditor new_id (ip_leadAuditorId input) Role_lead (ac_sub actor)
               (d\<lparr>qm_audits := qm_audits d @ [a]\<rparr>)))))"

definition txn_move_audit [simp]:
    "txn_move_audit now i from_status to_status extra action actor d =
     and_then
       (update_audit_row (\<lambda>a. ia_id a = i \<and> ia_status a = from_status)
          (\<lambda>a. put_audit_extra extra (a\<lparr>ia_status := to_status, ia_updatedAt := now\<rparr>))
          (ConflictException ''INTERNAL_AUDIT_NOT_IN_STATE'') d)
       (\<lambda>d1. Inr (qm_record actor action i d1))"

definition txn_remove_auditor [simp]:
    "txn_remove_auditor i auditorId actor d =
     (if find (in_roster i auditorId) (qm_roster d) = None then Inl (NotFoundException ''NOT_FOUND'')
      else Inr (qm_record actor ''internal_audit.auditor_removed'' i
             (d\<lparr>qm_roster := filter (\<lambda>r. \<not> in_roster i auditorId r) (qm_roster d)\<rparr>)))"

text \<open>The transaction a decided write stands for.\<close>

fun run_write :: "int \<Rightarrow> string \<Rightarrow> qms_write \<Rightarrow> qms_db \<Rightarrow> qms_db result" where
  "run_write now new_id (Insert_finding input actor) d = txn_raise_finding now new_id input actor d"
| "run_write now new_id (Patch_finding i x actor) d = txn_update_finding now i x actor d"
| "run_write now new_id (Move_finding i from_status to_status extra action actor) d = txn_move_finding now i from_status to_status extra action actor d"
| "run_write now new_id (Insert_capa nonconformanceId input actor) d = txn_open_capa now new_id nonconformanceId input actor d"
| "run_write now new_id (Set_analysis i x actor) d = txn_record_analysis now i x actor d"
| "run_write now new_id (Move_capa i from_status to_status extra action actor) d = txn_move_capa now i from_status to_status extra action actor d"
| "run_write now new_id (Insert_audit input actor) d = txn_plan_audit now new_id input actor d"
| "run_write now new_id (Patch_audit i x lead actor) d = run_patch_audit now i x lead actor d"
| "run_write now new_id (Move_audit i from_status to_status extra action actor) d = txn_move_audit now i from_status to_status extra action actor d"
| "run_write now new_id (Put_auditor i auditorId r lead actor) d = run_put_auditor now i auditorId r lead actor d"
| "run_write now new_id (Drop_auditor i auditorId actor) d = txn_remove_auditor i auditorId actor d"

section \<open>The operations\<close>

datatype qms_request =
    Raise_finding raise_input
  | Update_finding string nc_patch
  | Contain_finding string string "int option"
  | Close_finding string string
  | Void_finding string string
  | Open_capa string capa_input
  | Record_analysis string capa_analysis
  | Plan_capa string
  | Start_capa string
  | Mark_implemented string "int option"
  | Verify_capa string string
  | Mark_ineffective string string
  | Reopen_analysis string
  | Cancel_capa string string
  | Plan_audit audit_plan
  | Update_audit string audit_patch
  | Start_audit string "int option"
  | Report_audit string string string
  | Close_audit string
  | Cancel_audit string string
  | Assign_auditor string string audit_role
  | Remove_auditor string string

fun qms_look :: "int \<Rightarrow> qms_request \<Rightarrow> actor \<Rightarrow> qms_db \<Rightarrow> qms_write result" where
  "qms_look now (Raise_finding input) actor d = raise_finding now input actor d"
| "qms_look now (Update_finding i x) actor d = update_finding now i x actor d"
| "qms_look now (Contain_finding i action moment) actor d = contain_finding now i action moment actor d"
| "qms_look now (Close_finding i closing) actor d = close_finding now i closing actor d"
| "qms_look now (Void_finding i reason) actor d = void_finding i reason actor d"
| "qms_look now (Open_capa i input) actor d = open_capa i input actor d"
| "qms_look now (Record_analysis i input) actor d = record_analysis i input actor d"
| "qms_look now (Plan_capa i) actor d = plan_capa i actor d"
| "qms_look now (Start_capa i) actor d = start_capa i actor d"
| "qms_look now (Mark_implemented i moment) actor d = mark_implemented now i moment actor d"
| "qms_look now (Verify_capa i evidence) actor d = verify_capa now i evidence actor d"
| "qms_look now (Mark_ineffective i reason) actor d = mark_ineffective i reason actor d"
| "qms_look now (Reopen_analysis i) actor d = reopen_analysis i actor d"
| "qms_look now (Cancel_capa i reason) actor d = cancel_capa i reason actor d"
| "qms_look now (Plan_audit input) actor d = plan_audit input actor d"
| "qms_look now (Update_audit i x) actor d = update_audit i x actor d"
| "qms_look now (Start_audit i moment) actor d = start_audit now i moment actor d"
| "qms_look now (Report_audit i conclusion document) actor d = report_audit now i conclusion document actor d"
| "qms_look now (Close_audit i) actor d = close_audit now i actor d"
| "qms_look now (Cancel_audit i reason) actor d = cancel_audit i reason actor d"
| "qms_look now (Assign_auditor i auditorId r) actor d = assign_auditor i auditorId r actor d"
| "qms_look now (Remove_auditor i auditorId) actor d = remove_auditor i auditorId actor d"

text \<open>An operation with nothing in between.\<close>

definition qms_call :: "int \<Rightarrow> string \<Rightarrow> qms_request \<Rightarrow> actor \<Rightarrow> qms_db \<Rightarrow> qms_db result" where
  "qms_call now new_id req actor d = and_then (qms_look now req actor d) (\<lambda>w. run_write now new_id w d)"

end
