(* ===== verification/QualitySafety.thy ===== *)
theory QualitySafety
  imports Quality
begin

text \<open>
  The quality register under many callers. A world is the database with the transactions that have been
  decided on and not yet run; a call may look, run, or stop between the two. The lemmas reduce a
  transaction to what it does to one row of one table, and establish the invariant of a world.
\<close>

section \<open>Worlds\<close>

type_synonym quality_world = "qms_db \<times> qms_write list"

definition fresh_id :: "string \<Rightarrow> qms_db \<Rightarrow> bool" where
  "fresh_id i d \<longleftrightarrow> find_row nc_id i (qm_findings d) = None \<and> find_row ca_id i (qm_capas d) = None \<and>
     find_row ia_id i (qm_audits d) = None"

definition empty_register :: "qms_db \<Rightarrow> bool" where
  "empty_register d \<longleftrightarrow> keys_distinct sv_code (qm_severities d) \<and> qm_findings d = [] \<and> qm_capas d = [] \<and>
     qm_audits d = [] \<and> qm_roster d = []"

inductive quality_step :: "quality_world \<Rightarrow> quality_world \<Rightarrow> bool" where
  qs_look: "qms_look now req actor d = Inr w \<Longrightarrow> quality_step (d, ws) (d, w # ws)"
| qs_commit: "w \<in> set ws \<Longrightarrow> fresh_id i d \<Longrightarrow> run_write now i w d = Inr d' \<Longrightarrow>
    quality_step (d, ws) (d', remove1 w ws)"
| qs_stop: "w \<in> set ws \<Longrightarrow> quality_step (d, ws) (d, remove1 w ws)"

text \<open>Reachable worlds, with the databases there have been.\<close>

inductive quality_reachable :: "qms_db list \<Rightarrow> quality_world \<Rightarrow> bool" where
  qr_start: "empty_register d \<Longrightarrow> quality_reachable [d] (d, [])"
| qr_next: "quality_reachable h w \<Longrightarrow> quality_step w w' \<Longrightarrow> quality_reachable (fst w' # h) w'"

text \<open>One operation at a time.\<close>

inductive quality_serial :: "qms_db \<Rightarrow> bool" where
  serial_start: "empty_register d \<Longrightarrow> quality_serial d"
| serial_call: "quality_serial d \<Longrightarrow> fresh_id i d \<Longrightarrow> qms_call now i req actor d = Inr d' \<Longrightarrow> quality_serial d'"

lemma serial_reachable: "quality_serial d \<Longrightarrow> \<exists>h. quality_reachable h (d, [])"
proof (induction rule: quality_serial.induct)
  case (serial_start d)
  then show ?case by (blast intro: qr_start)
next
  case (serial_call d i now req actor d')
  then obtain h w where h: "quality_reachable h (d, [])" and w: "qms_look now req actor d = Inr w"
      "run_write now i w d = Inr d'"
    by (auto simp: qms_call_def and_then_eq_Inr)
  have "quality_reachable (d # h) (d, [w])" using qr_next [OF h qs_look [OF w(1)]] by simp
  from qr_next [OF this qs_commit [OF _ serial_call(2) w(2)]] show ?case by auto
qed

section \<open>One row of one table\<close>

definition replace_row :: "('r \<Rightarrow> 'k) \<Rightarrow> 'r \<Rightarrow> 'r list \<Rightarrow> 'r list" where
  "replace_row key r t = map (\<lambda>x. if key x = key r then r else x) t"

lemma update_is_replace:
  assumes "keys_distinct key t" and "r \<in> set t" and "p r"
    and "\<And>x. p x \<Longrightarrow> key x = key r" and "key (f r) = key r"
  shows "update_where p f t = replace_row key (f r) t"
proof -
  have "(if p x then f x else x) = (if key x = key (f r) then f r else x)" if "x \<in> set t" for x
  proof -
    have "x = r" if "key x = key r"
      using assms(1,2) \<open>x \<in> set t\<close> that by (auto simp: keys_distinct_def distinct_map dest: inj_onD)
    then show ?thesis using assms(3-5) by metis
  qed
  then show ?thesis by (simp add: update_where_def replace_row_def)
qed

lemma set_replace_row: "x \<in> set (replace_row key r t) \<Longrightarrow> x = r \<or> x \<in> set t \<and> key x \<noteq> key r"
  by (auto simp: replace_row_def split: if_splits)

lemma replace_row_other: "x \<in> set t \<Longrightarrow> key x \<noteq> key r \<Longrightarrow> x \<in> set (replace_row key r t)"
  by (auto simp: replace_row_def)

lemma replace_row_new: "x \<in> set t \<Longrightarrow> key x = key r \<Longrightarrow> r \<in> set (replace_row key r t)"
  by (auto simp: replace_row_def)

lemma replace_row_keeps:
  assumes "keys_distinct key t" and "r \<in> set t" and "key r' = key r" and "R r r'" and "\<And>x. R x x"
  shows "\<forall>x \<in> set t. \<exists>y \<in> set (replace_row key r' t). R x y"
proof
  fix x assume x: "x \<in> set t"
  show "\<exists>y \<in> set (replace_row key r' t). R x y"
  proof (cases "key x = key r")
    case True
    then have "x = r" using assms(1,2) x by (auto simp: keys_distinct_def distinct_map dest: inj_onD)
    then show ?thesis using replace_row_new [of r t key r'] assms(2-4) by auto
  next
    case False
    then show ?thesis using replace_row_other [of x t key r'] assms(3,5) x by auto
  qed
qed

lemma keys_replace_row [simp]: "keys_distinct key (replace_row key r t) = keys_distinct key t"
  unfolding keys_distinct_def replace_row_def
  by (simp add: comp_def if_distrib [of key] cong: if_cong)

lemma checked_Inr: "checked cs = Inr u \<longleftrightarrow> list_all snd cs"
  by (induction cs) (auto simp: checked_def split: option.splits)

lemma update_returning_Inr:
  assumes "update_returning checks p f t = Inr (t', row)"
  obtains "row = None" "t' = t" | r where "row = Some (f r)" "r \<in> set t" "p r" "list_all snd (checks (f r))"
    "t' = update_where p f t"
proof (cases "find p t")
  case None
  then show ?thesis using assms that(1) by (simp add: update_returning_def)
next
  case (Some r)
  then have "r \<in> set t" "p r" by (auto simp: find_Some_iff)
  then show ?thesis using assms Some that(2) by (auto simp: update_returning_def and_then_eq_Inr checked_Inr)
qed

section \<open>What a transaction does to the register\<close>

lemma qm_record_simps [simp]:
  "qm_severities (qm_record actor action i d) = qm_severities d" "qm_findings (qm_record actor action i d) = qm_findings d"
  "qm_capas (qm_record actor action i d) = qm_capas d" "qm_audits (qm_record actor action i d) = qm_audits d"
  "qm_roster (qm_record actor action i d) = qm_roster d" "qm_incidents (qm_record actor action i d) = qm_incidents d"
  by (simp_all add: qm_record_def)

lemma upsert_simps [simp]:
  "qm_severities (upsert_auditor i a r who d) = qm_severities d" "qm_findings (upsert_auditor i a r who d) = qm_findings d"
  "qm_capas (upsert_auditor i a r who d) = qm_capas d" "qm_audits (upsert_auditor i a r who d) = qm_audits d"
  "qm_incidents (upsert_auditor i a r who d) = qm_incidents d"
  by (simp_all add: upsert_auditor_def)

lemma kept_fields [simp]:
  "nc_id (new_finding now i input actor) = i" "nc_status (new_finding now i input actor) = Nc_open"
  "nc_id (patch_finding now x n) = nc_id n" "nc_status (patch_finding now x n) = nc_status n"
  "nc_id (put_finding_extra e n) = nc_id n" "nc_status (put_finding_extra e n) = nc_status n"
  "nc_severity (put_finding_extra e n) = nc_severity n"
  "ca_id (new_capa now i k ci) = i" "ca_status (new_capa now i k ci) = Capa_analysis"
  "ca_id (put_analysis now cl c) = ca_id c" "ca_status (put_analysis now cl c) = ca_status c"
  "ca_ownerId (put_analysis now cl c) = ca_ownerId c" "ca_verifiedBy (put_analysis now cl c) = ca_verifiedBy c"
  "ca_nonconformanceId (put_analysis now cl c) = ca_nonconformanceId c"
  "ca_id (put_capa_extra ce c) = ca_id c" "ca_status (put_capa_extra ce c) = ca_status c"
  "ca_ownerId (put_capa_extra ce c) = ca_ownerId c"
  "ca_nonconformanceId (put_capa_extra ce c) = ca_nonconformanceId c"
  by (cases e; simp add: new_finding_def patch_finding_def)+
     (cases ce; simp add: new_capa_def put_analysis_def)+

definition moved_finding :: "int \<Rightarrow> nc_status \<Rightarrow> nc_extra \<Rightarrow> nonconformance \<Rightarrow> nonconformance" where
  "moved_finding now s extra n = put_finding_extra extra (n\<lparr>nc_status := s, nc_updatedAt := now\<rparr>)"

definition moved_capa :: "int \<Rightarrow> capa_status \<Rightarrow> capa_extra \<Rightarrow> capa \<Rightarrow> capa" where
  "moved_capa now s extra c = put_capa_extra extra (c\<lparr>ca_status := s, ca_updatedAt := now\<rparr>)"

lemma moved_simps [simp]:
  "nc_id (moved_finding now s extra n) = nc_id n" "nc_status (moved_finding now s extra n) = s"
  "nc_severity (moved_finding now s extra n) = nc_severity n"
  "ca_id (moved_capa now t ce c) = ca_id c" "ca_status (moved_capa now t ce c) = t"
  "ca_ownerId (moved_capa now t ce c) = ca_ownerId c"
  "ca_nonconformanceId (moved_capa now t ce c) = ca_nonconformanceId c"
  by (simp_all add: moved_finding_def moved_capa_def)

lemma run_write_fixed:
  "run_write now i w d = Inr d' \<Longrightarrow> qm_severities d' = qm_severities d \<and> qm_incidents d' = qm_incidents d"
  by (cases w)
     (auto simp: and_then_eq_Inr Let_def run_patch_audit_def run_put_auditor_def update_audit_row_def
        split: if_splits option.splits)

lemma run_write_capas:
  assumes run: "run_write now i w d = Inr d'" and keys: "keys_distinct ca_id (qm_capas d)"
  obtains (same) "qm_capas d' = qm_capas d"
  | (born) n input actor where "w = Insert_capa n input actor" "qm_capas d' = qm_capas d @ [new_capa now i n input]"
      "list_all snd (capa_checks (new_capa now i n input))" "qm_findings d' = qm_findings d"
  | (analysed) c x actor where "w = Set_analysis (ca_id c) x actor" "c \<in> set (qm_capas d)"
      "qm_capas d' = replace_row ca_id (put_analysis now x c) (qm_capas d)"
      "list_all snd (capa_checks (put_analysis now x c))" "qm_findings d' = qm_findings d"
  | (moved) c s extra action actor where "w = Move_capa (ca_id c) (ca_status c) s extra action actor"
      "c \<in> set (qm_capas d)" "qm_capas d' = replace_row ca_id (moved_capa now s extra c) (qm_capas d)"
      "list_all snd (capa_checks (moved_capa now s extra c))" "qm_findings d' = qm_findings d"
proof (cases w)
  case (Insert_capa n input actor)
  then show ?thesis using run born
    by (auto simp: and_then_eq_Inr Let_def checked_Inr split: if_splits)
next
  case (Set_analysis k x actor)
  then obtain t row where u: "update_returning capa_checks (\<lambda>c. ca_id c = k) (put_analysis now x) (qm_capas d) = Inr (t, Some row)"
      and d': "d' = qm_record actor ''capa.analysed'' k (d\<lparr>qm_capas := t\<rparr>)"
    using run by (auto simp: and_then_eq_Inr split: option.splits)
  from u show ?thesis
  proof (cases rule: update_returning_Inr)
    case (2 c)
    have "t = replace_row ca_id (put_analysis now x c) (qm_capas d)"
      unfolding 2(5) using 2(3) by (intro update_is_replace [OF keys 2(2)]) simp_all
    then show ?thesis using 2 Set_analysis d' by (intro analysed [of c x actor]) simp_all
  qed simp
next
  case (Move_capa k s0 s extra action actor)
  let ?f = "\<lambda>c. put_capa_extra extra (c\<lparr>ca_status := s, ca_updatedAt := now\<rparr>)"
  obtain t row where u: "update_returning capa_checks (\<lambda>c. ca_id c = k \<and> ca_status c = s0) ?f (qm_capas d) = Inr (t, Some row)"
      and d': "d' = qm_record actor action k (d\<lparr>qm_capas := t\<rparr>)"
    using run Move_capa by (auto simp: and_then_eq_Inr split: option.splits)
  from u show ?thesis
  proof (cases rule: update_returning_Inr)
    case (2 c)
    have "t = replace_row ca_id (?f c) (qm_capas d)"
      unfolding 2(5) using 2(3) by (intro update_is_replace [OF keys 2(2)]) simp_all
    then show ?thesis using 2 Move_capa d' by (intro moved [of c s extra action actor]) (simp_all add: moved_capa_def)
  qed simp
qed (use run same in \<open>auto simp: and_then_eq_Inr Let_def run_patch_audit_def run_put_auditor_def
       update_audit_row_def split: if_splits option.splits\<close>)

lemma run_write_findings:
  assumes run: "run_write now i w d = Inr d'" and keys: "keys_distinct nc_id (qm_findings d)"
  obtains (same) "qm_findings d' = qm_findings d"
  | (born) input actor where "w = Insert_finding input actor" "qm_findings d' = qm_findings d @ [new_finding now i input actor]"
      "list_all snd (nc_checks d (new_finding now i input actor))" "qm_capas d' = qm_capas d"
  | (patched) n x actor where "w = Patch_finding (nc_id n) x actor" "n \<in> set (qm_findings d)"
      "qm_findings d' = replace_row nc_id (patch_finding now x n) (qm_findings d)"
      "list_all snd (nc_checks d (patch_finding now x n))" "qm_capas d' = qm_capas d"
  | (moved) n s extra action actor where "w = Move_finding (nc_id n) (nc_status n) s extra action actor"
      "n \<in> set (qm_findings d)" "qm_findings d' = replace_row nc_id (moved_finding now s extra n) (qm_findings d)"
      "list_all snd (nc_checks d (moved_finding now s extra n))" "qm_capas d' = qm_capas d"
proof (cases w)
  case (Insert_finding input actor)
  then show ?thesis using run born
    by (auto simp: and_then_eq_Inr Let_def checked_Inr split: if_splits)
next
  case (Patch_finding k x actor)
  then obtain t row where u: "update_returning (nc_checks d) (\<lambda>n. nc_id n = k) (patch_finding now x) (qm_findings d) = Inr (t, Some row)"
      and d': "d' = qm_record actor ''nonconformance.updated'' k (d\<lparr>qm_findings := t\<rparr>)"
    using run by (auto simp: and_then_eq_Inr split: option.splits)
  from u show ?thesis
  proof (cases rule: update_returning_Inr)
    case (2 n)
    have "t = replace_row nc_id (patch_finding now x n) (qm_findings d)"
      unfolding 2(5) using 2(3) by (intro update_is_replace [OF keys 2(2)]) simp_all
    then show ?thesis using 2 Patch_finding d' by (intro patched [of n x actor]) simp_all
  qed simp
next
  case (Move_finding k s0 s extra action actor)
  let ?f = "\<lambda>n. put_finding_extra extra (n\<lparr>nc_status := s, nc_updatedAt := now\<rparr>)"
  obtain t row where u: "update_returning (nc_checks d) (\<lambda>n. nc_id n = k \<and> nc_status n = s0) ?f (qm_findings d) = Inr (t, Some row)"
      and d': "d' = qm_record actor action k (d\<lparr>qm_findings := t\<rparr>)"
    using run Move_finding by (auto simp: and_then_eq_Inr split: option.splits)
  from u show ?thesis
  proof (cases rule: update_returning_Inr)
    case (2 n)
    have "t = replace_row nc_id (?f n) (qm_findings d)"
      unfolding 2(5) using 2(3) by (intro update_is_replace [OF keys 2(2)]) simp_all
    then show ?thesis using 2 Move_finding d' by (intro moved [of n s extra action actor]) (simp_all add: moved_finding_def)
  qed simp
qed (use run same in \<open>auto simp: and_then_eq_Inr Let_def run_patch_audit_def run_put_auditor_def
       update_audit_row_def split: if_splits option.splits\<close>)


section \<open>The invariant of a world\<close>

text \<open>A finding goes through containment or is void from the start: the edge from contained to void of
  \<open>finding_transitions\<close> is never taken.\<close>

fun finding_edge :: "nc_status \<Rightarrow> nc_status \<Rightarrow> bool" where
  "finding_edge Nc_open s = (s = Nc_contained \<or> s = Nc_void)"
| "finding_edge Nc_contained s = (s = Nc_closed)"
| "finding_edge _ s = False"

definition contained_first :: "nonconformance \<Rightarrow> bool" where
  "contained_first n \<longleftrightarrow> nc_status n = Nc_contained \<or> nc_status n = Nc_closed \<longrightarrow> nc_containedAt n \<noteq> None"

text \<open>\<open>v\<close> neither owned the action nor audited its finding.\<close>

definition impartial :: "string \<Rightarrow> capa \<Rightarrow> qms_db \<Rightarrow> bool" where
  "impartial v c d \<longleftrightarrow> ca_ownerId c \<noteq> v \<and>
     (\<forall>n \<in> set (qm_findings d). nc_id n = ca_nonconformanceId c \<longrightarrow>
        (case nc_internalAuditId n of None \<Rightarrow> True | Some a \<Rightarrow> \<not> did_audit a v d))"

definition reviewed :: "qms_db list \<Rightarrow> string \<Rightarrow> string \<Rightarrow> bool" where
  "reviewed h i v \<longleftrightarrow>
     (\<exists>e \<in> set h. \<exists>c \<in> set (qm_capas e). ca_id c = i \<and> ca_status c = Capa_implemented \<and> impartial v c e)"

lemma reviewed_mono: "reviewed h i v \<Longrightarrow> set h \<subseteq> set h' \<Longrightarrow> reviewed h' i v"
  by (auto simp: reviewed_def)

fun write_sound :: "qms_db list \<Rightarrow> qms_write \<Rightarrow> bool" where
  "write_sound h (Move_capa i s0 s extra action actor) \<longleftrightarrow> s \<in> set (capa_transitions s0) \<and>
     (s = Capa_verified \<longrightarrow> (\<exists>now evidence. extra = Verified_with now (ac_sub actor) evidence) \<and> reviewed h i (ac_sub actor))"
| "write_sound h (Move_finding i s0 s extra action actor) \<longleftrightarrow> finding_edge s0 s"
| "write_sound h w \<longleftrightarrow> True"

lemma write_sound_mono: "write_sound h w \<Longrightarrow> set h \<subseteq> set h' \<Longrightarrow> write_sound h' w"
  by (cases w) (auto intro: reviewed_mono)

lemma get_simps [simp]:
  "get_finding i d = Inr n \<longleftrightarrow> find_row nc_id i (qm_findings d) = Some n"
  "get_capa i d = Inr c \<longleftrightarrow> find_row ca_id i (qm_capas d) = Some c"
  "get_audit i d = Inr a \<longleftrightarrow> find_row ia_id i (qm_audits d) = Some a"
  by (simp_all add: get_finding_def get_capa_def get_audit_def split: option.splits)

lemma may_review_Inr:
  assumes "may_review c actor d = Inr u" and "keys_distinct nc_id (qm_findings d)"
  shows "impartial (ac_sub actor) c d"
  using assms find_row_eqI [OF assms(2)]
  by (fastforce simp: may_review_def not_the_auditor_def impartial_def split: if_splits option.splits)

lemma capa_to_verified: "Capa_verified \<in> set (capa_transitions s) \<longleftrightarrow> s = Capa_implemented"
  by (cases s) simp_all

lemma look_sound:
  assumes look: "qms_look now req actor d = Inr w" and d: "d \<in> set h"
    and keys: "keys_distinct nc_id (qm_findings d)" and contained: "\<forall>n \<in> set (qm_findings d). contained_first n"
  shows "write_sound h w"
proof (cases req)
  case (Void_finding i reason)
  with look obtain n where n: "find_row nc_id i (qm_findings d) = Some n" "Nc_void \<in> set (finding_transitions (nc_status n))"
      "nc_containedAt n = None" "w = Move_finding i (nc_status n) Nc_void (Void_with reason) ''nonconformance.voided'' actor"
    by (auto simp: void_finding_def finding_may_become_def and_then_eq_Inr split: if_splits)
  moreover have "contained_first n" using n(1) contained by (auto dest: find_row_Some)
  ultimately show ?thesis by (cases "nc_status n") (auto simp: contained_first_def)
next
  case (Close_finding i closing)
  with look obtain s extra action where "Nc_closed \<in> set (finding_transitions s)" "w = Move_finding i s Nc_closed extra action actor"
    by (auto simp: close_finding_def finding_may_become_def and_then_eq_Inr split: if_splits)
  then show ?thesis by (cases s) auto
next
  case (Contain_finding i doing at_time)
  with look obtain s extra action where "Nc_contained \<in> set (finding_transitions s)" "w = Move_finding i s Nc_contained extra action actor"
    by (auto simp: contain_finding_def finding_may_become_def and_then_eq_Inr Let_def split: if_splits)
  then show ?thesis by (cases s) auto
next
  case (Verify_capa i evidence)
  with look obtain c where c: "find_row ca_id i (qm_capas d) = Some c" "Capa_verified \<in> set (capa_transitions (ca_status c))"
      "may_review c actor d = Inr ()"
      "w = Move_capa i (ca_status c) Capa_verified (Verified_with now (ac_sub actor) evidence) ''capa.verified'' actor"
    by (auto simp: verify_capa_def capa_may_become_def and_then_eq_Inr split: if_splits)
  then have "reviewed h i (ac_sub actor)"
    using d may_review_Inr [OF c(3) keys] find_row_Some [OF c(1)] by (auto simp: reviewed_def capa_to_verified)
  then show ?thesis using c by auto
qed (use look in \<open>auto simp: raise_finding_def update_finding_def open_capa_def record_analysis_def plan_capa_def
       start_capa_def mark_implemented_def mark_ineffective_def reopen_analysis_def cancel_capa_def plan_audit_def
       update_audit_def start_audit_def report_audit_def close_audit_def cancel_audit_def assign_auditor_def
       remove_auditor_def capa_may_become_def and_then_eq_Inr split: if_splits\<close>)

definition same_action :: "capa \<Rightarrow> capa \<Rightarrow> bool" where
  "same_action c0 c \<longleftrightarrow> ca_id c = ca_id c0 \<and> ca_ownerId c = ca_ownerId c0 \<and>
     ca_nonconformanceId c = ca_nonconformanceId c0"

definition world_inv :: "qms_db list \<Rightarrow> quality_world \<Rightarrow> bool" where
  "world_inv h w \<longleftrightarrow>
     fst w \<in> set h \<and> keys_distinct ca_id (qm_capas (fst w)) \<and> keys_distinct nc_id (qm_findings (fst w)) \<and>
     (\<forall>n \<in> set (qm_findings (fst w)). contained_first n) \<and>
     (\<forall>c \<in> set (qm_capas (fst w)). list_all snd (capa_checks c) \<and>
        (ca_status c = Capa_verified \<longrightarrow> (\<exists>v. ca_verifiedBy c = Some v \<and> reviewed h (ca_id c) v))) \<and>
     (\<forall>x \<in> set (snd w). write_sound h x) \<and>
     (\<forall>e \<in> set h. \<forall>c0 \<in> set (qm_capas e). \<exists>c \<in> set (qm_capas (fst w)). same_action c0 c)"

text \<open>What an accepted transaction does to the corrective actions.\<close>

lemma capas_after:
  assumes run: "run_write now i w d = Inr d'" and keys: "keys_distinct ca_id (qm_capas d)"
    and fresh: "fresh_id i d" and sound: "write_sound h w"
    and before: "\<forall>c \<in> set (qm_capas d). list_all snd (capa_checks c) \<and>
        (ca_status c = Capa_verified \<longrightarrow> (\<exists>v. ca_verifiedBy c = Some v \<and> reviewed h (ca_id c) v))"
  shows "keys_distinct ca_id (qm_capas d') \<and>
    (\<forall>c \<in> set (qm_capas d'). list_all snd (capa_checks c) \<and>
        (ca_status c = Capa_verified \<longrightarrow> (\<exists>v. ca_verifiedBy c = Some v \<and> reviewed h (ca_id c) v))) \<and>
    (\<forall>c0 \<in> set (qm_capas d). \<exists>c \<in> set (qm_capas d'). same_action c0 c)"
  using run keys
proof (cases rule: run_write_capas)
  case same
  then show ?thesis using keys before by (auto simp: same_action_def)
next
  case (born n input actor)
  then show ?thesis using keys before fresh
    by (auto simp: same_action_def fresh_id_def keys_distinct_append_one)
next
  case (analysed c x actor)
  have "\<forall>c0 \<in> set (qm_capas d). \<exists>c' \<in> set (qm_capas d'). same_action c0 c'"
    unfolding analysed(3) by (rule replace_row_keeps [OF keys analysed(2)]) (simp_all add: same_action_def)
  then show ?thesis using keys before analysed by (auto dest!: set_replace_row)
next
  case (moved c s extra action actor)
  have "\<forall>c0 \<in> set (qm_capas d). \<exists>c' \<in> set (qm_capas d'). same_action c0 c'"
    unfolding moved(3) by (rule replace_row_keeps [OF keys moved(2)]) (simp_all add: same_action_def)
  moreover have "s = Capa_verified \<Longrightarrow> \<exists>v. ca_verifiedBy (moved_capa now s extra c) = Some v \<and> reviewed h (ca_id c) v"
    using sound moved(1) by (auto simp: moved_capa_def)
  ultimately show ?thesis using keys before moved by (auto dest!: set_replace_row)
qed


lemma checks_contained: "list_all snd (nc_checks d n) \<Longrightarrow> contained_first n"
  by (auto simp: nc_checks_def contained_first_def)

lemma findings_after:
  assumes run: "run_write now i w d = Inr d'" and keys: "keys_distinct nc_id (qm_findings d)"
    and fresh: "fresh_id i d" and before: "\<forall>n \<in> set (qm_findings d). contained_first n"
  shows "keys_distinct nc_id (qm_findings d') \<and> (\<forall>n \<in> set (qm_findings d'). contained_first n)"
  using run keys
proof (cases rule: run_write_findings)
  case (born input actor)
  then show ?thesis using keys before fresh
    by (auto simp: fresh_id_def keys_distinct_append_one dest: checks_contained)
qed (use keys before in \<open>auto dest!: set_replace_row dest: checks_contained\<close>)

lemma same_action_trans: "same_action a b \<Longrightarrow> same_action b c \<Longrightarrow> same_action a c"
  by (simp add: same_action_def)

lemma world_inv_stay:
  assumes inv: "world_inv h (d, ws)" and ws': "\<forall>x \<in> set ws'. write_sound h x"
  shows "world_inv (d # h) (d, ws')"
proof -
  have more: "set h \<subseteq> set (d # h)" by auto
  have "\<forall>x \<in> set ws'. write_sound (d # h) x" using ws' write_sound_mono [OF _ more] by blast
  moreover have "\<exists>v. ca_verifiedBy c = Some v \<and> reviewed (d # h) (ca_id c) v"
    if "c \<in> set (qm_capas d)" "ca_status c = Capa_verified" for c
    using inv that reviewed_mono [OF _ more] by (fastforce simp: world_inv_def)
  moreover have "d \<in> set h" using inv by (simp add: world_inv_def)
  ultimately show ?thesis using inv by (simp add: world_inv_def)
qed

lemma world_inv_step:
  assumes step: "quality_step w w'" and inv: "world_inv h w"
  shows "world_inv (fst w' # h) w'"
  using step
proof (cases rule: quality_step.cases)
  case (qs_look now req actor d x ws)
  have "write_sound h x"
    using look_sound [OF qs_look(3)] inv qs_look(1) by (simp add: world_inv_def)
  moreover have "world_inv h (d, ws)" using inv qs_look(1) by simp
  ultimately show ?thesis using world_inv_stay [of h d ws "x # ws"] qs_look(2) by (simp add: world_inv_def)
next
  case (qs_commit x ws i d now d')
  have x: "write_sound h x" and caps: "\<forall>c \<in> set (qm_capas d). list_all snd (capa_checks c) \<and>
        (ca_status c = Capa_verified \<longrightarrow> (\<exists>v. ca_verifiedBy c = Some v \<and> reviewed h (ca_id c) v))"
    using inv qs_commit(1,3) by (simp_all add: world_inv_def)
  have keys: "keys_distinct ca_id (qm_capas d)" "keys_distinct nc_id (qm_findings d)"
    and found: "\<forall>n \<in> set (qm_findings d). contained_first n"
    using inv qs_commit(1) by (simp_all add: world_inv_def)
  note after = capas_after [OF qs_commit(5) keys(1) qs_commit(4) x caps]
  have hist: "\<exists>c \<in> set (qm_capas d'). same_action c0 c" if e: "e \<in> set h" "c0 \<in> set (qm_capas e)" for e c0
  proof -
    obtain c1 where "c1 \<in> set (qm_capas d)" "same_action c0 c1"
      using inv qs_commit(1) e by (fastforce simp: world_inv_def)
    then show ?thesis using after same_action_trans by blast
  qed
  have ws: "\<forall>y \<in> set (remove1 x ws). write_sound (d' # h) y"
    using inv qs_commit(1) write_sound_mono [of h _ "d' # h"] set_remove1_subset [of x ws]
    by (fastforce simp: world_inv_def)
  have own: "\<exists>c \<in> set (qm_capas d'). same_action c0 c" if "c0 \<in> set (qm_capas d')" for c0
    using that by (auto simp: same_action_def)
  have signed: "list_all snd (capa_checks c) \<and>
      (ca_status c = Capa_verified \<longrightarrow> (\<exists>v. ca_verifiedBy c = Some v \<and> reviewed (d' # h) (ca_id c) v))"
    if "c \<in> set (qm_capas d')" for c
    using after that reviewed_mono [of h _ _ "d' # h"] by (meson set_subset_Cons)
  show ?thesis
    unfolding world_inv_def qs_commit(2) fst_conv snd_conv
  proof (intro conjI)
    show "\<forall>c \<in> set (qm_capas d'). list_all snd (capa_checks c) \<and>
        (ca_status c = Capa_verified \<longrightarrow> (\<exists>v. ca_verifiedBy c = Some v \<and> reviewed (d' # h) (ca_id c) v))"
      using signed by blast
    show "\<forall>e \<in> set (d' # h). \<forall>c0 \<in> set (qm_capas e). \<exists>c \<in> set (qm_capas d'). same_action c0 c"
      using hist own by auto
    show "\<forall>y \<in> set (remove1 x ws). write_sound (d' # h) y" by (rule ws)
    show "keys_distinct ca_id (qm_capas d')" using after by blast
    show "keys_distinct nc_id (qm_findings d')" "\<forall>n \<in> set (qm_findings d'). contained_first n"
      using findings_after [OF qs_commit(5) keys(2) qs_commit(4) found] by blast+
  qed simp
next
  case (qs_stop x ws d)
  then have stay: "world_inv h (d, ws)" using inv by simp
  then have "\<forall>y \<in> set (remove1 x ws). write_sound h y"
    using set_remove1_subset [of x ws] by (auto simp: world_inv_def)
  from world_inv_stay [OF stay this] show ?thesis by (simp add: qs_stop(2))
qed

lemma world_inv_reachable: "quality_reachable h w \<Longrightarrow> world_inv h w"
proof (induction rule: quality_reachable.induct)
  case (qr_start d)
  then show ?case by (simp add: world_inv_def empty_register_def keys_distinct_def)
next
  case (qr_next h w w')
  then show ?case by (blast intro: world_inv_step)
qed


section \<open>The life of the rows\<close>

text \<open>A table of rows with a stage each: nothing happens, a row is born in the first stage, or one row moves
  along an edge.\<close>

inductive life_step :: "('s \<Rightarrow> 's \<Rightarrow> bool) \<Rightarrow> 's \<Rightarrow> ('k \<times> 's) list \<Rightarrow> ('k \<times> 's) list \<Rightarrow> bool" for edges first where
  life_stays: "life_step edges first t t"
| life_born: "k \<notin> fst ` set t \<Longrightarrow> life_step edges first t (t @ [(k, first)])"
| life_moves: "edges s s' \<Longrightarrow> life_step edges first (us @ (k, s) # vs) (us @ (k, s') # vs)"

definition stages :: "('r \<Rightarrow> 'k) \<Rightarrow> ('r \<Rightarrow> 's) \<Rightarrow> 'r list \<Rightarrow> ('k \<times> 's) list" where
  "stages key stage t = map (\<lambda>r. (key r, stage r)) t"

lemma stages_replaced:
  assumes keys: "keys_distinct key t" and r: "r \<in> set t" "key r' = key r"
    and edge: "stage r' = stage r \<or> edges (stage r) (stage r')"
  shows "life_step edges first (stages key stage t) (stages key stage (replace_row key r' t))"
proof -
  obtain us vs where t: "t = us @ r # vs" using r(1) by (blast dest: split_list)
  have "\<forall>x \<in> set us \<union> set vs. key x \<noteq> key r" using keys unfolding t keys_distinct_def by (auto; metis imageI)
  then have "replace_row key r' t = us @ r' # vs"
    unfolding t replace_row_def using r(2) by (auto intro!: map_idI)
  then show ?thesis using edge life_moves [of edges "stage r" "stage r'" first "map (\<lambda>r. (key r, stage r)) us" "key r"]
    by (auto simp: stages_def t r(2) life_stays)
qed

lemma stages_appended:
  "find_row key (key r) t = None \<Longrightarrow> stage r = first \<Longrightarrow> life_step edges first (stages key stage t) (stages key stage (t @ [r]))"
proof -
  assume fresh: "find_row key (key r) t = None" and first: "stage r = first"
  have "key r \<notin> fst ` set (stages key stage t)" using fresh by (auto simp: stages_def find_row_None_iff)
  then show ?thesis using life_born [of "key r" "stages key stage t" edges first] first by (simp add: stages_def)
qed

section \<open>One operation at a time\<close>

lemmas look_defs = raise_finding_def update_finding_def contain_finding_def close_finding_def void_finding_def
  open_capa_def record_analysis_def plan_capa_def start_capa_def mark_implemented_def verify_capa_def
  mark_ineffective_def reopen_analysis_def cancel_capa_def plan_audit_def update_audit_def start_audit_def
  report_audit_def close_audit_def cancel_audit_def assign_auditor_def remove_auditor_def and_then_eq_Inr Let_def

lemma look_patch:
  "qms_look now req actor d = Inr (Patch_finding i x who) \<Longrightarrow>
   \<exists>n. find_row nc_id i (qm_findings d) = Some n \<and> \<not> is_settled_finding (nc_status n)"
  by (cases req) (auto simp: look_defs split: if_splits)

lemma look_close:
  "qms_look now req actor d = Inr (Move_finding i s Nc_closed extra action who) \<Longrightarrow>
   \<exists>n g. find_row nc_id i (qm_findings d) = Some n \<and> severity_for (nc_severity n) d = Inr g \<and>
     (sv_requiresCapa g \<longrightarrow> has_verified_capa i d)"
  by (cases req) (auto simp: look_defs split: if_splits)

lemma severity_for_unique:
  assumes "severity_for s d = Inr g" and "keys_distinct sv_code (qm_severities d)"
    and "g' \<in> set (qm_severities d)" "sv_code g' = s"
  shows "g' = g"
proof -
  have "g \<in> set (qm_severities d)" "sv_code g = s"
    using assms(1) by (auto simp: severity_for_def split: option.splits dest!: find_row_Some)
  then show ?thesis using assms(2-4) by (auto simp: keys_distinct_def distinct_map dest: inj_onD)
qed

lemma verified_stays:
  assumes run: "run_write now i w d = Inr d'" and keys: "keys_distinct ca_id (qm_capas d)"
    and sound: "write_sound h w" and ok: "has_verified_capa k d"
  shows "has_verified_capa k d'"
proof -
  define R where "R c c' \<longleftrightarrow> ca_nonconformanceId c' = ca_nonconformanceId c \<and>
      (ca_status c = Capa_verified \<longrightarrow> ca_status c' = Capa_verified)" for c c' :: capa
  have "\<forall>c \<in> set (qm_capas d). \<exists>c' \<in> set (qm_capas d'). R c c'"
    using run keys
  proof (cases rule: run_write_capas)
    case (analysed c x actor)
    show ?thesis unfolding analysed(3) by (rule replace_row_keeps [OF keys analysed(2)]) (simp_all add: R_def)
  next
    case (moved c s extra action actor)
    show ?thesis unfolding moved(3)
      by (rule replace_row_keeps [OF keys moved(2)]) (use sound moved(1) in \<open>auto simp: R_def\<close>)
  qed (auto simp: R_def)
  then show ?thesis using ok by (fastforce simp: has_verified_capa_def R_def)
qed

definition gate_inv :: "qms_db \<Rightarrow> bool" where
  "gate_inv d \<longleftrightarrow> keys_distinct sv_code (qm_severities d) \<and>
     (\<forall>n \<in> set (qm_findings d). \<forall>g \<in> set (qm_severities d).
        nc_status n = Nc_closed \<longrightarrow> sv_code g = nc_severity n \<longrightarrow> sv_requiresCapa g \<longrightarrow> has_verified_capa (nc_id n) d)"

lemma gate_inv_call:
  assumes w: "qms_look now req actor d = Inr w" and run: "run_write now i w d = Inr d'"
    and inv: "world_inv h (d, [])" and gate: "gate_inv d"
  shows "gate_inv d'"
proof -
  have keys: "keys_distinct ca_id (qm_capas d)" "keys_distinct nc_id (qm_findings d)"
    using inv by (simp_all add: world_inv_def)
  have sound: "write_sound h w"
    using look_sound [OF w] inv by (simp add: world_inv_def)
  note sev = run_write_fixed [OF run, THEN conjunct1]
  note verified = verified_stays [OF run keys(1) sound]
  have unique: "find_row nc_id (nc_id n) (qm_findings d) = Some n" if "n \<in> set (qm_findings d)" for n
    using keys(2) that by (rule find_row_eqI)
  show ?thesis
    using run keys(2)
  proof (cases rule: run_write_findings)
    case same
    then show ?thesis using gate verified by (auto simp: gate_inv_def sev)
  next
    case (born input actor)
    then show ?thesis using gate verified by (auto simp: gate_inv_def sev)
  next
    case (patched n x who)
    have "nc_status n \<noteq> Nc_closed"
      using look_patch w patched(1) unique [OF patched(2)] by (fastforce simp: is_settled_finding_def)
    then show ?thesis using gate verified patched(3) by (auto simp: gate_inv_def sev dest!: set_replace_row)
  next
    case (moved n s extra action who)
    have "has_verified_capa (nc_id n) d"
      if "s = Nc_closed" "g \<in> set (qm_severities d)" "sv_code g = nc_severity n" "sv_requiresCapa g" for g
    proof -
      note sc = that(1)
      obtain g' where "severity_for (nc_severity n) d = Inr g'" "sv_requiresCapa g' \<longrightarrow> has_verified_capa (nc_id n) d"
        using look_close [OF w [unfolded moved(1) sc]] unique [OF moved(2)] by auto
      then show ?thesis using severity_for_unique that gate by (auto simp: gate_inv_def)
    qed
    then show ?thesis using gate verified moved(3) by (auto simp: gate_inv_def sev dest!: set_replace_row)
  qed
qed

lemma serial_inv: "quality_serial d \<Longrightarrow> \<exists>h. world_inv h (d, [])"
  using serial_reachable world_inv_reachable by blast

lemma gate_inv_serial: "quality_serial d \<Longrightarrow> gate_inv d"
proof (induction rule: quality_serial.induct)
  case (serial_start d)
  then show ?case by (simp add: gate_inv_def empty_register_def)
next
  case (serial_call d i now req actor d')
  then show ?case using serial_inv [OF serial_call(1)] gate_inv_call
    by (auto simp: qms_call_def and_then_eq_Inr)
qed


section \<open>The lead and the roster\<close>

definition on_roster :: "string \<Rightarrow> string \<Rightarrow> qms_db \<Rightarrow> bool" where
  "on_roster i person d \<longleftrightarrow> (\<exists>r \<in> set (qm_roster d). in_roster i person r)"

lemma on_roster_upsert: "on_roster i p (upsert_auditor j q r who d) \<longleftrightarrow> i = j \<and> p = q \<or> on_roster i p d"
proof (cases "find (in_roster j q) (qm_roster d)")
  case None
  then show ?thesis by (auto simp: on_roster_def upsert_auditor_def in_roster_def)
next
  case (Some e)
  then have "on_roster j q d" by (auto simp: on_roster_def find_Some_iff)
  moreover have "in_roster i p (if in_roster j q x then x\<lparr>ro_role := r, ro_addedBy := who\<rparr> else x) = in_roster i p x" for x
    by (simp add: in_roster_def)
  then have "on_roster i p (upsert_auditor j q r who d) = on_roster i p d"
    by (simp add: on_roster_def upsert_auditor_def Some set_update_where del: if_image_distrib)
  ultimately show ?thesis by auto
qed

lemma on_roster_simps [simp]:
  "on_roster i p (qm_record actor action k d) = on_roster i p d"
  "on_roster i p (d\<lparr>qm_audits := t\<rparr>) = on_roster i p d" "on_roster i p (d\<lparr>qm_findings := u\<rparr>) = on_roster i p d"
  "on_roster i p (d\<lparr>qm_capas := v\<rparr>) = on_roster i p d"
  by (simp_all add: on_roster_def)

definition lead_inv :: "qms_db \<Rightarrow> bool" where
  "lead_inv d \<longleftrightarrow> keys_distinct ia_id (qm_audits d) \<and> (\<forall>a \<in> set (qm_audits d). on_roster (ia_id a) (ia_leadAuditorId a) d)"

lemma audit_fields [simp]:
  "ia_id (new_audit now i input) = i" "ia_leadAuditorId (new_audit now i input) = ip_leadAuditorId input"
  "ia_id (patch_audit now x a) = ia_id a" "ia_leadAuditorId (patch_audit now x a) = keep (ix_leadAuditorId x) (ia_leadAuditorId a)"
  "ia_id (put_audit_extra e a) = ia_id a" "ia_leadAuditorId (put_audit_extra e a) = ia_leadAuditorId a"
  by (cases e; simp add: new_audit_def patch_audit_def)+

lemma update_audit_row_Inr:
  assumes "update_audit_row p f missing d = Inr d'" and "keys_distinct ia_id (qm_audits d)"
    and "\<And>x. p x \<Longrightarrow> ia_id x = i" and "\<And>x. ia_id (f x) = ia_id x"
  obtains a where "a \<in> set (qm_audits d)" "ia_id a = i" "list_all snd (ia_checks (f a))"
    "d' = d\<lparr>qm_audits := replace_row ia_id (f a) (qm_audits d)\<rparr>"
proof -
  obtain t r where u: "update_returning ia_checks p f (qm_audits d) = Inr (t, Some r)" "d' = d\<lparr>qm_audits := t\<rparr>"
    using assms(1) by (auto simp: update_audit_row_def and_then_eq_Inr split: option.splits)
  from u(1) show ?thesis
  proof (cases rule: update_returning_Inr)
    case (2 a)
    have "t = replace_row ia_id (f a) (qm_audits d)"
      unfolding 2(5) using 2(3) assms(3) by (intro update_is_replace [OF assms(2) 2(2)]) (simp_all add: assms(4))
    then show ?thesis using that [of a] 2 assms(3) u(2) by simp
  qed simp
qed

text \<open>A transaction of another kind leaves audits and roster alone.\<close>

fun touches_audits :: "qms_write \<Rightarrow> bool" where
  "touches_audits (Insert_audit input who) = True"
| "touches_audits (Patch_audit k x lead who) = True"
| "touches_audits (Move_audit k s s' e a who) = True"
| "touches_audits (Put_auditor k p r lead who) = True"
| "touches_audits (Drop_auditor k p who) = True"
| "touches_audits w = False"

lemma run_write_audits:
  "run_write now i w d = Inr d' \<Longrightarrow> \<not> touches_audits w \<Longrightarrow> qm_audits d' = qm_audits d \<and> qm_roster d' = qm_roster d"
  by (cases w) (auto simp: and_then_eq_Inr Let_def split: if_splits option.splits)

lemma look_lead:
  "qms_look now req actor d = Inr (Patch_audit i x lead who) \<Longrightarrow>
     \<exists>a. find_row ia_id i (qm_audits d) = Some a \<and> ia_leadAuditorId a = lead"
  "qms_look now req actor d = Inr (Put_auditor i p r lead who) \<Longrightarrow>
     \<exists>a. find_row ia_id i (qm_audits d) = Some a \<and> ia_leadAuditorId a = lead"
  "qms_look now req actor d = Inr (Drop_auditor i p who) \<Longrightarrow>
     \<exists>a. find_row ia_id i (qm_audits d) = Some a \<and> ia_leadAuditorId a \<noteq> p"
  by (cases req; auto simp: look_defs split: if_splits)+

lemma lead_inv_upsert: "lead_inv d \<Longrightarrow> lead_inv (upsert_auditor j q r who d)"
  by (simp add: lead_inv_def on_roster_upsert)

lemma lead_inv_replace:
  assumes "lead_inv d" and "on_roster (ia_id a) (ia_leadAuditorId a) d"
  shows "lead_inv (d\<lparr>qm_audits := replace_row ia_id a (qm_audits d)\<rparr>)"
  using assms by (auto simp: lead_inv_def dest!: set_replace_row)

lemma lead_inv_call:
  assumes look: "qms_look now req actor d = Inr w" and run: "run_write now i w d = Inr d'"
    and inv: "lead_inv d" and fresh: "fresh_id i d"
  shows "lead_inv d'"
proof -
  have keys: "keys_distinct ia_id (qm_audits d)" using inv by (simp add: lead_inv_def)
  have same: "a = b" if "find_row ia_id k (qm_audits d) = Some a" "b \<in> set (qm_audits d)" "ia_id b = k" for a b k
    using find_row_eqI [OF keys that(2)] that by simp
  show ?thesis
  proof (cases w)
    case (Insert_audit input who)
    then show ?thesis using run inv fresh
      by (auto simp: and_then_eq_Inr Let_def lead_inv_def on_roster_upsert fresh_id_def keys_distinct_append_one split: if_splits)
  next
    case (Patch_audit k x lead who)
    then obtain d1 where u: "update_audit_row (\<lambda>a. ia_id a = k) (patch_audit now x) no_row d = Inr d1"
        and d': "d' = qm_record who ''internal_audit.updated'' k
          (case ix_leadAuditorId x of None \<Rightarrow> d1 | Some next_lead \<Rightarrow>
             if next_lead = [] \<or> next_lead = lead then d1
             else upsert_auditor k lead Role_auditor (ac_sub who) (upsert_auditor k next_lead Role_lead (ac_sub who) d1))"
      using run by (auto simp: run_patch_audit_def and_then_eq_Inr Let_def)
    obtain a where a: "a \<in> set (qm_audits d)" "ia_id a = k" "list_all snd (ia_checks (patch_audit now x a))"
        "d1 = d\<lparr>qm_audits := replace_row ia_id (patch_audit now x a) (qm_audits d)\<rparr>"
      using update_audit_row_Inr [OF u keys] by auto
    have lead: "ia_leadAuditorId a = lead" using look_lead(1) look Patch_audit same a(1,2) by blast
    have "keep (ix_leadAuditorId x) lead \<noteq> []" using a(3) lead by (simp add: ia_checks_def)
    moreover have "on_roster k lead d" using inv a(1,2) lead by (auto simp: lead_inv_def)
    ultimately show ?thesis using inv lead a(1,2)
      by (auto simp: d' a(4) lead_inv_def on_roster_upsert keep_def dest!: set_replace_row split: option.splits if_splits)
  next
    case (Move_audit k s s' e action who)
    then obtain d1 where u: "update_audit_row (\<lambda>a. ia_id a = k \<and> ia_status a = s)
          (\<lambda>a. put_audit_extra e (a\<lparr>ia_status := s', ia_updatedAt := now\<rparr>))
          (ConflictException ''INTERNAL_AUDIT_NOT_IN_STATE'') d = Inr d1" and d': "d' = qm_record who action k d1"
      using run by (auto simp: and_then_eq_Inr)
    obtain a where a: "a \<in> set (qm_audits d)" "ia_id a = k" "d1 = d\<lparr>qm_audits := replace_row ia_id
         (put_audit_extra e (a\<lparr>ia_status := s', ia_updatedAt := now\<rparr>)) (qm_audits d)\<rparr>"
      using update_audit_row_Inr [OF u keys, of k] by auto
    then show ?thesis using inv by (auto simp: d' lead_inv_def dest!: set_replace_row)
  next
    case (Put_auditor k p r lead who)
    obtain a where a: "a \<in> set (qm_audits d)" "ia_id a = k" "ia_leadAuditorId a = lead"
      using look_lead(2) look Put_auditor by (blast dest: find_row_Some)
    have "on_roster k lead d" using inv a by (auto simp: lead_inv_def)
    then show ?thesis using run Put_auditor inv a
      by (auto simp: run_put_auditor_def and_then_eq_Inr Let_def lead_inv_def on_roster_upsert
          split: if_splits elim!: update_returning_Inr)
         (auto simp: set_update_where keys_distinct_update_where split: if_splits)
  next
    case (Drop_auditor k p who)
    obtain a where a: "find_row ia_id k (qm_audits d) = Some a" "ia_leadAuditorId a \<noteq> p"
      using look_lead(3) look Drop_auditor by blast
    have "on_roster (ia_id b) (ia_leadAuditorId b) d'" if "b \<in> set (qm_audits d)" for b
    proof -
      note member = that
      obtain r where r: "r \<in> set (qm_roster d)" "in_roster (ia_id b) (ia_leadAuditorId b) r"
        using inv member by (auto simp: lead_inv_def on_roster_def)
      have "\<not> in_roster k p r" using r(2) same [OF a(1) that] a(2) by (auto simp: in_roster_def)
      then show ?thesis using r run Drop_auditor by (auto simp: on_roster_def split: if_splits)
    qed
    then show ?thesis using run Drop_auditor inv by (auto simp: lead_inv_def split: if_splits)
  qed (use run_write_audits [OF run] inv in \<open>auto simp: lead_inv_def on_roster_def\<close>)
qed

lemma lead_inv_serial: "quality_serial d \<Longrightarrow> lead_inv d"
proof (induction rule: quality_serial.induct)
  case (serial_start d)
  then show ?case by (simp add: lead_inv_def empty_register_def keys_distinct_def)
next
  case (serial_call d i now req actor d')
  then show ?case using lead_inv_call by (auto simp: qms_call_def and_then_eq_Inr)
qed

end
