(* ===== verification/QualityForm.thy ===== *)
theory QualityForm
  imports QualitySafety
begin

text \<open>
  The form of the quality register as its schema declares it: primary keys, unique references, foreign keys
  and row constraints, over every interleaving of calls.
\<close>

definition audit_exists :: "qms_db \<Rightarrow> string \<Rightarrow> bool" where
  "audit_exists d i \<longleftrightarrow> i \<in> ia_id ` set (qm_audits d)"

definition roster_key :: "roster_entry \<Rightarrow> string \<times> string" where
  "roster_key r = (ro_internalAuditId r, ro_auditorId r)"

definition findings_formed :: "qms_db \<Rightarrow> bool" where
  "findings_formed d \<longleftrightarrow> keys_distinct nc_id (qm_findings d) \<and> keys_distinct nc_reference (qm_findings d) \<and>
     (\<forall>n \<in> set (qm_findings d). list_all snd (nc_checks d n))"

definition capas_formed :: "qms_db \<Rightarrow> bool" where
  "capas_formed d \<longleftrightarrow> keys_distinct ca_id (qm_capas d) \<and> keys_distinct ca_reference (qm_capas d) \<and>
     (\<forall>c \<in> set (qm_capas d). list_all snd (capa_checks c) \<and> ca_nonconformanceId c \<in> nc_id ` set (qm_findings d))"

definition audits_formed :: "qms_db \<Rightarrow> bool" where
  "audits_formed d \<longleftrightarrow> keys_distinct ia_id (qm_audits d) \<and> keys_distinct ia_reference (qm_audits d) \<and>
     (\<forall>a \<in> set (qm_audits d). list_all snd (ia_checks a))"

definition roster_formed :: "qms_db \<Rightarrow> bool" where
  "roster_formed d \<longleftrightarrow> distinct (map roster_key (qm_roster d)) \<and>
     (\<forall>r \<in> set (qm_roster d). audit_exists d (ro_internalAuditId r))"

definition register_formed :: "qms_db \<Rightarrow> bool" where
  "register_formed d \<longleftrightarrow> findings_formed d \<and> capas_formed d \<and> audits_formed d \<and> roster_formed d"

section \<open>Tables\<close>

lemma other_key_replaced:
  assumes "keys_distinct key t" and "r \<in> set t" and "key r' = key r" and "other r' = other r"
  shows "map other (replace_row key r' t) = map other t"
proof -
  have "x = r" if "x \<in> set t" "key x = key r" for x
    using assms(1,2) that by (auto simp: keys_distinct_def distinct_map dest: inj_onD)
  then show ?thesis using assms(3,4) by (auto simp: replace_row_def)
qed

lemma replaced_table:
  assumes "keys_distinct key t" "keys_distinct other t" and "\<forall>x \<in> set t. ok x"
    and "r \<in> set t" "key r' = key r" "other r' = other r" "ok r'"
  shows "keys_distinct key (replace_row key r' t) \<and> keys_distinct other (replace_row key r' t) \<and>
    (\<forall>x \<in> set (replace_row key r' t). ok x)"
  using assms other_key_replaced [OF assms(1,4-6)]
  by (auto simp: keys_distinct_def [of other] dest!: set_replace_row)

lemma appended_table:
  "keys_distinct key t \<Longrightarrow> keys_distinct other t \<Longrightarrow> \<forall>x \<in> set t. ok x \<Longrightarrow> find_row key (key r) t = None \<Longrightarrow>
   find_row other (other r) t = None \<Longrightarrow> ok r \<Longrightarrow>
   keys_distinct key (t @ [r]) \<and> keys_distinct other (t @ [r]) \<and> (\<forall>x \<in> set (t @ [r]). ok x)"
  by (auto simp: keys_distinct_append_one)

lemma audit_found: "(find_row ia_id i (qm_audits d) = None) = (\<not> audit_exists d i)"
  by (auto simp: audit_exists_def find_row_None_iff)

lemma nc_checks_mono:
  assumes "list_all snd (nc_checks d n)" and "qm_severities d' = qm_severities d" and "qm_incidents d' = qm_incidents d"
    and more: "\<forall>i. audit_exists d i \<longrightarrow> audit_exists d' i"
  shows "list_all snd (nc_checks d' n)"
proof -
  have "case nc_internalAuditId n of None \<Rightarrow> True | Some i \<Rightarrow> find_row ia_id i (qm_audits d') \<noteq> None"
    using assms(1) more by (auto simp: nc_checks_def audit_found split: option.splits)
  then show ?thesis
    using assms(1) unfolding nc_checks_def assms(2,3) list.pred_inject snd_conv by blast
qed

lemma roster_upsert:
  assumes "roster_formed d" and "audit_exists d i"
  shows "roster_formed (upsert_auditor i p r who d)"
proof (cases "find (in_roster i p) (qm_roster d)")
  case None
  then show ?thesis using assms
    by (auto simp: roster_formed_def upsert_auditor_def find_None_iff in_roster_def roster_key_def audit_exists_def)
next
  case (Some e)
  have "map roster_key (update_where (in_roster i p) (\<lambda>e. e\<lparr>ro_role := r, ro_addedBy := who\<rparr>) t) = map roster_key t" for t
    by (rule map_key_update_where) (simp add: roster_key_def)
  then show ?thesis using assms Some
    by (auto simp: roster_formed_def upsert_auditor_def audit_exists_def set_update_where)
qed

lemma roster_formed_cong:
  "roster_formed d \<Longrightarrow> qm_roster d' = qm_roster d \<Longrightarrow> \<forall>i. audit_exists d i \<longrightarrow> audit_exists d' i \<Longrightarrow> roster_formed d'"
  by (auto simp: roster_formed_def)

section \<open>Transactions\<close>

lemma more_fields [simp]:
  "nc_reference (patch_finding now x n) = nc_reference n" "nc_reference (moved_finding now s extra n) = nc_reference n"
  "ca_reference (put_analysis now cl c) = ca_reference c" "ca_reference (moved_capa now t ce c) = ca_reference c"
  "ca_nonconformanceId (new_capa now i k ci) = k"
  "ia_reference (patch_audit now ax a) = ia_reference a" "ia_reference (put_audit_extra e a) = ia_reference a"
  by (cases extra; cases ce; cases e;
      simp add: moved_finding_def moved_capa_def patch_finding_def put_analysis_def new_capa_def patch_audit_def)+

text \<open>A roster entry is decided on for an audit that exists, and audits are never deleted.\<close>

fun names_audit :: "qms_db \<Rightarrow> qms_write \<Rightarrow> bool" where
  "names_audit d (Put_auditor i p r lead who) = audit_exists d i"
| "names_audit d w = True"

lemma names_audit_mono: "names_audit d w \<Longrightarrow> \<forall>k. audit_exists d k \<longrightarrow> audit_exists d' k \<Longrightarrow> names_audit d' w"
  by (cases w) auto

lemma look_names_audit: "qms_look now req actor d = Inr w \<Longrightarrow> names_audit d w"
  using look_lead(2) [of now req actor d]
  by (cases w) (auto simp: audit_exists_def dest!: find_row_Some)

lemma audits_replaced:
  assumes "audits_formed d" and "a \<in> set (qm_audits d)" and "ia_id a' = ia_id a" and "ia_reference a' = ia_reference a"
    and "list_all snd (ia_checks a')"
  shows "audits_formed (d\<lparr>qm_audits := replace_row ia_id a' (qm_audits d)\<rparr>) \<and>
    (\<forall>i. audit_exists d i \<longrightarrow> audit_exists (d\<lparr>qm_audits := replace_row ia_id a' (qm_audits d)\<rparr>) i)"
proof -
  have "map ia_id (replace_row ia_id a' (qm_audits d)) = map ia_id (qm_audits d)"
    using assms(1-3) by (intro other_key_replaced) (simp_all add: audits_formed_def)
  then have "ia_id ` set (replace_row ia_id a' (qm_audits d)) = ia_id ` set (qm_audits d)"
    by (metis list.set_map)
  then show ?thesis
    using replaced_table [of ia_id "qm_audits d" ia_reference "\<lambda>a. list_all snd (ia_checks a)" a a'] assms
    by (simp add: audits_formed_def audit_exists_def)
qed

lemma formed_simps [simp]:
  "audits_formed (qm_record actor action i d) = audits_formed d" "roster_formed (qm_record actor action i d) = roster_formed d"
  "audit_exists (qm_record actor action i d) k = audit_exists d k"
  "audits_formed (upsert_auditor j p r who d) = audits_formed d" "audit_exists (upsert_auditor j p r who d) k = audit_exists d k"
  by (simp_all add: audits_formed_def roster_formed_def audit_exists_def)

lemma audits_grow:
  assumes run: "run_write now i w d = Inr d'" and ok: "audits_formed d" and fresh: "fresh_id i d"
  shows "audits_formed d' \<and> (\<forall>k. audit_exists d k \<longrightarrow> audit_exists d' k)"
proof (cases w)
  case (Insert_audit input who)
  then show ?thesis
    using run appended_table [of ia_id "qm_audits d" ia_reference "\<lambda>a. list_all snd (ia_checks a)" "new_audit now i input"] ok fresh
    by (auto simp: and_then_eq_Inr Let_def checked_Inr audits_formed_def audit_exists_def fresh_id_def split: if_splits)
next
  case (Patch_audit k x lead who)
  then obtain d1 where u: "update_audit_row (\<lambda>a. ia_id a = k) (patch_audit now x) no_row d = Inr d1"
      and d': "qm_audits d' = qm_audits d1"
    using run by (auto simp: run_patch_audit_def and_then_eq_Inr Let_def split: option.splits if_splits)
  obtain a where "a \<in> set (qm_audits d)" "list_all snd (ia_checks (patch_audit now x a))"
      "d1 = d\<lparr>qm_audits := replace_row ia_id (patch_audit now x a) (qm_audits d)\<rparr>"
    using update_audit_row_Inr [OF u, of k] ok by (auto simp: audits_formed_def)
  then show ?thesis using audits_replaced [OF ok, of a "patch_audit now x a"] d'
    by (simp add: audits_formed_def audit_exists_def)
next
  case (Move_audit k s s' e action who)
  let ?f = "\<lambda>a. put_audit_extra e (a\<lparr>ia_status := s', ia_updatedAt := now\<rparr>)"
  obtain d1 where u: "update_audit_row (\<lambda>a. ia_id a = k \<and> ia_status a = s) ?f
        (ConflictException ''INTERNAL_AUDIT_NOT_IN_STATE'') d = Inr d1" and d': "qm_audits d' = qm_audits d1"
    using run Move_audit by (auto simp: and_then_eq_Inr)
  obtain a where "a \<in> set (qm_audits d)" "list_all snd (ia_checks (?f a))" "d1 = d\<lparr>qm_audits := replace_row ia_id (?f a) (qm_audits d)\<rparr>"
    using update_audit_row_Inr [OF u, of k] ok by (auto simp: audits_formed_def)
  then show ?thesis using audits_replaced [OF ok, of a "?f a"] d'
    by (simp add: audits_formed_def audit_exists_def)
next
  case (Put_auditor k p r lead who)
  let ?f = "\<lambda>a. a\<lparr>ia_leadAuditorId := p, ia_updatedAt := now\<rparr>"
  show ?thesis
  proof (cases "r = Role_lead \<and> p \<noteq> lead")
    case True
    then obtain t row where u: "update_returning ia_checks (\<lambda>a. ia_id a = k) ?f (qm_audits d) = Inr (t, row)"
        and d': "qm_audits d' = t"
      using run Put_auditor by (auto simp: run_put_auditor_def and_then_eq_Inr Let_def)
    from u show ?thesis
    proof (cases rule: update_returning_Inr)
      case 1
      then show ?thesis using ok d' by (simp add: audits_formed_def audit_exists_def)
    next
      case (2 a)
      have "t = replace_row ia_id (?f a) (qm_audits d)"
        unfolding 2(5) using ok 2(2,3) by (intro update_is_replace) (simp_all add: audits_formed_def)
      then show ?thesis using audits_replaced [OF ok 2(2), of "?f a"] 2(4) d'
        by (simp add: audits_formed_def audit_exists_def)
    qed
  next
    case False
    then have "qm_audits d' = qm_audits d" using run Put_auditor by (auto simp: run_put_auditor_def Let_def)
    then show ?thesis using ok by (simp add: audits_formed_def audit_exists_def)
  qed
next
  case (Drop_auditor k p who)
  then show ?thesis using run ok by (auto simp: audits_formed_def audit_exists_def split: if_splits)
qed (use run_write_audits [OF run] ok in \<open>simp_all add: audits_formed_def audit_exists_def\<close>)

lemma roster_stays:
  assumes run: "run_write now i w d = Inr d'" and ok: "roster_formed d" and named: "names_audit d w"
    and grow: "\<forall>k. audit_exists d k \<longrightarrow> audit_exists d' k"
  shows "roster_formed d'"
proof (cases w)
  case (Insert_audit input who)
  let ?d1 = "d\<lparr>qm_audits := qm_audits d @ [new_audit now i input]\<rparr>"
  have "roster_formed ?d1" by (rule roster_formed_cong [OF ok]) (simp_all add: audit_exists_def)
  then have "roster_formed (upsert_auditor i (ip_leadAuditorId input) Role_lead (ac_sub who) ?d1)"
    by (rule roster_upsert) (simp add: audit_exists_def)
  then show ?thesis using run Insert_audit by (auto simp: and_then_eq_Inr Let_def split: if_splits)
next
  case (Patch_audit k x lead who)
  then obtain d1 where u: "update_audit_row (\<lambda>a. ia_id a = k) (patch_audit now x) no_row d = Inr d1"
      and d': "d' = qm_record who ''internal_audit.updated'' k
          (case ix_leadAuditorId x of None \<Rightarrow> d1 | Some next_lead \<Rightarrow>
             if next_lead = [] \<or> next_lead = lead then d1
             else upsert_auditor k lead Role_auditor (ac_sub who) (upsert_auditor k next_lead Role_lead (ac_sub who) d1))"
    using run by (auto simp: run_patch_audit_def and_then_eq_Inr Let_def)
  obtain t row where t: "update_returning ia_checks (\<lambda>a. ia_id a = k) (patch_audit now x) (qm_audits d) = Inr (t, Some row)"
      "d1 = d\<lparr>qm_audits := t\<rparr>"
    using u by (auto simp: update_audit_row_def and_then_eq_Inr split: option.splits)
  from t(1) have exists: "audit_exists d k" by (cases rule: update_returning_Inr) (auto simp: audit_exists_def)
  have same: "audit_exists d1 j = audit_exists d' j" for j by (simp add: d' split: option.split)
  have one: "roster_formed d1"
    by (rule roster_formed_cong [OF ok]) (use t(2) grow same in auto)
  have "audit_exists d1 k" using exists grow same by blast
  then show ?thesis using one by (auto simp: d' intro!: roster_upsert split: option.split)
next
  case (Move_audit k s s' e action who)
  then have "qm_roster d' = qm_roster d"
    using run by (auto simp: and_then_eq_Inr update_audit_row_def split: option.splits)
  then show ?thesis by (rule roster_formed_cong [OF ok _ grow])
next
  case (Put_auditor k p r lead who)
  let ?d1 = "upsert_auditor k p r (ac_sub who) d"
  have one: "roster_formed ?d1" by (rule roster_upsert [OF ok]) (use named Put_auditor in simp)
  show ?thesis
  proof (cases "r = Role_lead \<and> p \<noteq> lead")
    case True
    then obtain t where d': "d' = qm_record who ''internal_audit.auditor_assigned'' k
        (upsert_auditor k lead Role_auditor (ac_sub who) (?d1\<lparr>qm_audits := t\<rparr>))"
      using run Put_auditor by (auto simp: run_put_auditor_def and_then_eq_Inr Let_def)
    have same: "audit_exists (?d1\<lparr>qm_audits := t\<rparr>) j = audit_exists d' j" for j by (simp add: d')
    have "roster_formed (?d1\<lparr>qm_audits := t\<rparr>)"
      by (rule roster_formed_cong [OF one]) (use grow same in auto)
    then show ?thesis unfolding d' using named Put_auditor grow same by (auto intro!: roster_upsert)
  next
    case False
    then show ?thesis using run Put_auditor one by (auto simp: run_put_auditor_def Let_def)
  qed
next
  case (Drop_auditor k p who)
  then show ?thesis using run ok
    by (auto simp: roster_formed_def audit_exists_def distinct_map_filter split: if_splits)
qed (use run_write_audits [OF run] roster_formed_cong [OF ok _ grow] in simp_all)


lemma findings_stay:
  assumes run: "run_write now i w d = Inr d'" and ok: "findings_formed d" and fresh: "fresh_id i d"
    and grow: "\<forall>k. audit_exists d k \<longrightarrow> audit_exists d' k"
  shows "findings_formed d' \<and> nc_id ` set (qm_findings d) \<subseteq> nc_id ` set (qm_findings d')"
proof -
  let ?ok = "\<lambda>n. list_all snd (nc_checks d n)"
  have keys: "keys_distinct nc_id (qm_findings d)" "keys_distinct nc_reference (qm_findings d)"
      "\<forall>n \<in> set (qm_findings d). ?ok n"
    using ok by (simp_all add: findings_formed_def)
  have kept: "nc_id ` set (replace_row nc_id n' (qm_findings d)) = nc_id ` set (qm_findings d)"
    if "n \<in> set (qm_findings d)" "nc_id n' = nc_id n" for n n'
    using other_key_replaced [OF keys(1) that, of nc_id] that(2) by (metis list.set_map)
  have "keys_distinct nc_id (qm_findings d') \<and> keys_distinct nc_reference (qm_findings d') \<and>
      (\<forall>n \<in> set (qm_findings d'). ?ok n) \<and> nc_id ` set (qm_findings d) \<subseteq> nc_id ` set (qm_findings d')"
    using run keys(1)
  proof (cases rule: run_write_findings)
    case same
    then show ?thesis using keys by simp
  next
    case (born input actor)
    have "find_row nc_reference (nc_reference (new_finding now i input actor)) (qm_findings d) = None"
      using run born(1) by (auto simp: Let_def split: if_splits)
    then show ?thesis
      using appended_table [OF keys, of "new_finding now i input actor"] fresh born(3)
      unfolding born(2) by (auto simp: fresh_id_def)
  next
    case (patched n x actor)
    then show ?thesis
      using replaced_table [OF keys patched(2), of "patch_finding now x n"] kept [OF patched(2), of "patch_finding now x n"]
      by simp
  next
    case (moved n s extra action actor)
    then show ?thesis
      using replaced_table [OF keys moved(2), of "moved_finding now s extra n"] kept [OF moved(2), of "moved_finding now s extra n"]
      by simp
  qed
  then show ?thesis
    using run_write_fixed [OF run] grow unfolding findings_formed_def by (blast intro: nc_checks_mono)
qed

lemma capas_stay:
  assumes run: "run_write now i w d = Inr d'" and ok: "capas_formed d" and fresh: "fresh_id i d"
    and grow: "nc_id ` set (qm_findings d) \<subseteq> nc_id ` set (qm_findings d')"
  shows "capas_formed d'"
proof -
  let ?ok = "\<lambda>c. list_all snd (capa_checks c) \<and> ca_nonconformanceId c \<in> nc_id ` set (qm_findings d)"
  have keys: "keys_distinct ca_id (qm_capas d)" "keys_distinct ca_reference (qm_capas d)" "\<forall>c \<in> set (qm_capas d). ?ok c"
    using ok by (simp_all add: capas_formed_def)
  have "keys_distinct ca_id (qm_capas d') \<and> keys_distinct ca_reference (qm_capas d') \<and> (\<forall>c \<in> set (qm_capas d'). ?ok c)"
    using run keys(1)
  proof (cases rule: run_write_capas)
    case same
    then show ?thesis using keys by simp
  next
    case (born n input actor)
    have "find_row ca_reference (ca_reference (new_capa now i n input)) (qm_capas d) = None"
        "n \<in> nc_id ` set (qm_findings d)"
      using run born(1) by (auto simp: Let_def find_row_None_iff split: if_splits)
    then show ?thesis
      using appended_table [OF keys, of "new_capa now i n input"] fresh born(3)
      unfolding born(2) by (simp add: fresh_id_def)
  next
    case (analysed c x actor)
    have "?ok (put_analysis now x c)" using analysed(2,4) keys(3) by simp
    then show ?thesis unfolding analysed(3) by (intro replaced_table [OF keys analysed(2)]) simp_all
  next
    case (moved c s extra action actor)
    have "?ok (moved_capa now s extra c)" using moved(2,4) keys(3) by simp
    then show ?thesis unfolding moved(3) by (intro replaced_table [OF keys moved(2)]) simp_all
  qed
  then show ?thesis using grow by (auto simp: capas_formed_def)
qed

lemma register_formed_step:
  assumes step: "quality_step w w'" and ok: "register_formed (fst w)" and named: "\<forall>x \<in> set (snd w). names_audit (fst w) x"
  shows "register_formed (fst w') \<and> (\<forall>x \<in> set (snd w'). names_audit (fst w') x)"
  using step
proof (cases rule: quality_step.cases)
  case (qs_look now req actor d x ws)
  then show ?thesis using ok named look_names_audit [OF qs_look(3)] by simp
next
  case (qs_commit x ws i d now d')
  have formed: "findings_formed d" "capas_formed d" "audits_formed d" "roster_formed d" and x: "names_audit d x"
    using ok named qs_commit(1,3) by (simp_all add: register_formed_def)
  note audits = audits_grow [OF qs_commit(5) formed(3) qs_commit(4)]
  note findings = findings_stay [OF qs_commit(5) formed(1) qs_commit(4) audits [THEN conjunct2]]
  have "names_audit d' y" if "y \<in> set (remove1 x ws)" for y
    using audits [THEN conjunct2] names_audit_mono [of d y d'] that named qs_commit(1) set_remove1_subset [of x ws] by auto
  then show ?thesis
    using audits findings capas_stay [OF qs_commit(5) formed(2) qs_commit(4) findings [THEN conjunct2]]
      roster_stays [OF qs_commit(5) formed(4) x audits [THEN conjunct2]]
    by (simp add: register_formed_def qs_commit(2))
next
  case (qs_stop x ws d)
  then show ?thesis using ok named set_remove1_subset [of x ws] by auto
qed

lemma register_formed_reachable:
  "quality_reachable h w \<Longrightarrow> register_formed (fst w) \<and> (\<forall>x \<in> set (snd w). names_audit (fst w) x)"
proof (induction rule: quality_reachable.induct)
  case (qr_start d)
  then show ?case
    by (simp add: empty_register_def register_formed_def findings_formed_def capas_formed_def audits_formed_def
        roster_formed_def keys_distinct_def)
next
  case (qr_next h w w')
  then show ?case using register_formed_step by blast
qed

end
