(* ===== verification/QualityReports.thy ===== *)
theory QualityReports
  imports Quality
begin

text \<open>
  What the quality register shows: the listings with their filters and the reports. The listings that add
  an employee's name to each row are the same rows here. A page is a slice of the ordered rows beside the
  count of all of them.
\<close>

section \<open>Listings\<close>

record nc_filters =
  nf_status :: "nc_status option"
  nf_severity :: "nc_severity option"
  nf_source :: "nc_source option"
  nf_ownerId :: "string option"
  nf_processArea :: "string option"
  nf_openOnly :: bool
  nf_capaRequiredOnly :: bool
  nf_search :: "string option"

record capa_filters =
  cf_status :: "capa_status option"
  cf_ownerId :: "string option"
  cf_nonconformanceId :: "string option"
  cf_openOnly :: bool
  cf_dueOnOrBefore :: "iso_date option"

record audit_filters =
  xf_status :: "ia_status option"
  xf_leadAuditorId :: "string option"
  xf_auditorId :: "string option"
  xf_openOnly :: bool
  xf_plannedStartOnOrBefore :: "iso_date option"
  xf_search :: "string option"

text \<open>A filter that is absent, or an empty string, is no filter.\<close>

definition wanted :: "'a option \<Rightarrow> 'a \<Rightarrow> bool" where
  "wanted f x \<longleftrightarrow> (case f of None \<Rightarrow> True | Some y \<Rightarrow> x = y)"

definition wanted_text :: "string option \<Rightarrow> string \<Rightarrow> bool" where
  "wanted_text f x \<longleftrightarrow> (case f of None \<Rightarrow> True | Some y \<Rightarrow> y = [] \<or> x = y)"

definition page :: "nat \<Rightarrow> nat \<Rightarrow> 'a list \<Rightarrow> 'a list \<times> nat" where
  "page limit offset rows = (take limit (drop offset rows), length rows)"

text \<open>Nulls last: a row without a date sorts behind every date.\<close>

definition nulls_last :: "iso_date option \<Rightarrow> nat \<times> int" where
  "nulls_last t = (case t of None \<Rightarrow> (1, 0) | Some x \<Rightarrow> (0, day_of x))"

definition on_or_before :: "iso_date option \<Rightarrow> iso_date option \<Rightarrow> bool" where
  "on_or_before limit t \<longleftrightarrow>
     (case limit of None \<Rightarrow> True | Some x \<Rightarrow> (case t of None \<Rightarrow> False | Some y \<Rightarrow> y \<le> x))"

text \<open>\<open>ms div MS_PER_DAY\<close> is the day of an instant in the session's time zone, UTC.\<close>

definition containment_due :: "severity_level \<Rightarrow> nonconformance \<Rightarrow> int" where
  "containment_due g n = nc_detectedAt n div MS_PER_DAY + sv_containmentDueDays g"

definition graded :: "qms_db \<Rightarrow> nonconformance list \<Rightarrow> (nonconformance \<times> severity_level) list" where
  "graded d ns =
     concat (map (\<lambda>n. map (\<lambda>g. (n, g)) (filter (\<lambda>g. sv_code g = nc_severity n) (qm_severities d))) ns)"

text \<open>The register row: the finding, its grade, its corrective actions, how many are verified, and the
  day containment is due while it is not contained.\<close>

definition register_row ::
    "qms_db \<Rightarrow> nonconformance \<times> severity_level \<Rightarrow> nonconformance \<times> severity_level \<times> nat \<times> nat \<times> int option" where
  "register_row d r = (case r of (n, g) \<Rightarrow>
     (n, g, length (filter (\<lambda>c. ca_nonconformanceId c = nc_id n) (qm_capas d)),
      length (filter (\<lambda>c. ca_nonconformanceId c = nc_id n \<and> ca_status c = Capa_verified) (qm_capas d)),
      if nc_containedAt n = None then Some (containment_due g n) else None))"

definition list_findings :: "nc_filters \<Rightarrow> nat \<Rightarrow> nat \<Rightarrow> qms_db \<Rightarrow>
    (nonconformance \<times> severity_level \<times> nat \<times> nat \<times> int option) list \<times> nat" where
  "list_findings f limit offset d =
     page limit offset (map (register_row d)
       (sort_key (\<lambda>(n, g). (- sv_rank g, nc_detectedAt n, nc_id n))
         (filter (\<lambda>(n, g). wanted (nf_status f) (nc_status n) \<and> wanted (nf_severity f) (nc_severity n) \<and>
              wanted (nf_source f) (nc_source n) \<and> wanted_text (nf_ownerId f) (nc_ownerId n) \<and>
              wanted_text (nf_processArea f) (nc_processArea n) \<and>
              (nf_openOnly f \<longrightarrow> \<not> is_settled_finding (nc_status n)) \<and>
              (nf_capaRequiredOnly f \<longrightarrow> sv_requiresCapa g) \<and>
              search_across (nf_search f) [Some (nc_title n), Some (nc_reference n), Some (nc_requirement n)])
            (graded d (qm_findings d)))))"

text \<open>A queued action with the reference, title and grade of its finding (an inner join).\<close>

definition capa_row :: "qms_db \<Rightarrow> capa \<Rightarrow> (capa \<times> string \<times> string \<times> nc_severity) list" where
  "capa_row d c =
     (case find_row nc_id (ca_nonconformanceId c) (qm_findings d) of
        None \<Rightarrow> []
      | Some n \<Rightarrow> [(c, nc_reference n, nc_title n, nc_severity n)])"

definition list_capas :: "capa_filters \<Rightarrow> nat \<Rightarrow> nat \<Rightarrow> qms_db \<Rightarrow> (capa \<times> string \<times> string \<times> nc_severity) list \<times> nat" where
  "list_capas f limit offset d =
     (let found = filter (\<lambda>c. wanted (cf_status f) (ca_status c) \<and> wanted_text (cf_ownerId f) (ca_ownerId c) \<and>
            wanted_text (cf_nonconformanceId f) (ca_nonconformanceId c) \<and>
            (cf_openOnly f \<longrightarrow> \<not> is_settled_capa (ca_status c)) \<and>
            on_or_before (cf_dueOnOrBefore f) (ca_dueOn c)) (qm_capas d)
      in (take limit (drop offset (concat (map (capa_row d) (sort_key (\<lambda>c. (nulls_last (ca_dueOn c), ca_id c)) found)))),
          length found))"

definition list_for_nonconformance :: "string \<Rightarrow> qms_db \<Rightarrow> capa list result" where
  "list_for_nonconformance i d =
     and_then (get_finding i d) (\<lambda>_.
       Inr (rev (sort_key (\<lambda>c. (ca_createdAt c, ca_id c)) (filter (\<lambda>c. ca_nonconformanceId c = i) (qm_capas d)))))"

text \<open>An audit of the programme: how many audit it, how many findings it raised, how many are open.\<close>

definition is_open_finding :: "nc_status \<Rightarrow> bool" where
  "is_open_finding s \<longleftrightarrow> s = Nc_open \<or> s = Nc_contained"

definition audit_row :: "qms_db \<Rightarrow> internal_audit \<Rightarrow> internal_audit \<times> nat \<times> nat \<times> nat" where
  "audit_row d a =
     (let raised = filter (\<lambda>n. nc_internalAuditId n = Some (ia_id a)) (qm_findings d)
      in (a, length (filter (\<lambda>r. ro_internalAuditId r = ia_id a \<and> (ro_role r = Role_lead \<or> ro_role r = Role_auditor))
               (qm_roster d)),
          length raised, length (filter (\<lambda>n. is_open_finding (nc_status n)) raised)))"

definition list_audits :: "audit_filters \<Rightarrow> nat \<Rightarrow> nat \<Rightarrow> qms_db \<Rightarrow> (internal_audit \<times> nat \<times> nat \<times> nat) list \<times> nat" where
  "list_audits f limit offset d =
     page limit offset (map (audit_row d)
       (sort_key (\<lambda>a. (nulls_last (ia_plannedStartOn a), ia_id a))
         (filter (\<lambda>a. wanted (xf_status f) (ia_status a) \<and> wanted_text (xf_leadAuditorId f) (ia_leadAuditorId a) \<and>
              (case xf_auditorId f of None \<Rightarrow> True
               | Some p \<Rightarrow> p = [] \<or> list_ex (in_roster (ia_id a) p) (qm_roster d)) \<and>
              (xf_openOnly f \<longrightarrow> \<not> is_settled_audit (ia_status a)) \<and>
              on_or_before (xf_plannedStartOnOrBefore f) (ia_plannedStartOn a) \<and>
              search_across (xf_search f) [Some (ia_title a), Some (ia_reference a), Some (ia_scope a)])
            (qm_audits d))))"

fun role_order :: "audit_role \<Rightarrow> nat" where
  "role_order Role_lead = 0"
| "role_order Role_auditor = 1"
| "role_order Role_observer = 2"

definition list_auditors :: "string \<Rightarrow> qms_db \<Rightarrow> roster_entry list result" where
  "list_auditors i d =
     and_then (get_audit i d) (\<lambda>_.
       Inr (sort_key (\<lambda>r. (role_order (ro_role r), ro_auditorId r)) (filter (\<lambda>r. ro_internalAuditId r = i) (qm_roster d))))"

definition list_audit_findings :: "string \<Rightarrow> qms_db \<Rightarrow> (nonconformance \<times> severity_level) list result" where
  "list_audit_findings i d =
     and_then (get_audit i d) (\<lambda>_.
       Inr (sort_key (\<lambda>(n, g). (- sv_rank g, nc_detectedAt n, nc_id n))
              (graded d (filter (\<lambda>n. nc_internalAuditId n = Some i) (qm_findings d)))))"

section \<open>Reports\<close>

definition containment_overdue :: "int \<Rightarrow> nat \<Rightarrow> qms_db \<Rightarrow> (nonconformance \<times> severity_level \<times> int \<times> int) list" where
  "containment_overdue current_day limit d =
     take limit (map (\<lambda>(n, g). (n, g, containment_due g n, current_day - containment_due g n))
       (sort_key (\<lambda>(n, g). (containment_due g n, - sv_rank g, nc_id n))
         (filter (\<lambda>(n, g). nc_status n = Nc_open \<and> containment_due g n < current_day) (graded d (qm_findings d)))))"

definition unlinked_findings :: "nat \<Rightarrow> qms_db \<Rightarrow> nonconformance list" where
  "unlinked_findings limit d =
     take limit (map fst (sort_key (\<lambda>(n, g). (nc_detectedAt n, nc_id n))
       (graded d (filter (\<lambda>n. nc_source n = Src_internal_audit \<and> nc_internalAuditId n = None \<and> nc_status n \<noteq> Nc_void)
          (qm_findings d)))))"

text \<open>The verified actions of a process area, and the last moment one was verified. A null moment is skipped
  by the maximum.\<close>

definition verified_in :: "qms_db \<Rightarrow> string \<Rightarrow> capa list" where
  "verified_in d area =
     filter (\<lambda>c. ca_status c = Capa_verified \<and>
        list_ex (\<lambda>n. nc_id n = ca_nonconformanceId c \<and> nc_processArea n = area) (qm_findings d)) (qm_capas d)"

definition last_verified :: "qms_db \<Rightarrow> string \<Rightarrow> int option" where
  "last_verified d area =
     (case List.map_filter ca_verifiedAt (verified_in d area) of [] \<Rightarrow> None | t # ts \<Rightarrow> Some (foldl max t ts))"

definition recurred_in :: "qms_db \<Rightarrow> string \<Rightarrow> nonconformance list" where
  "recurred_in d area =
     (case last_verified d area of
        None \<Rightarrow> []
      | Some t \<Rightarrow> rev (sort_key (\<lambda>n. (nc_detectedAt n, nc_id n))
          (filter (\<lambda>n. nc_processArea n = area \<and> nc_detectedAt n > t \<and> nc_status n \<noteq> Nc_void) (qm_findings d))))"

record recurrence_signal =
  rs_processArea :: string
  rs_findings :: nat
  rs_verifiedCapas :: nat
  rs_latestReference :: string
  rs_latestDetectedAt :: int
  rs_earlierCapaVerifiedAt :: int

definition signal_of :: "qms_db \<Rightarrow> string \<Rightarrow> recurrence_signal list" where
  "signal_of d area =
     (case (recurred_in d area, last_verified d area) of
        (n # _, Some t) \<Rightarrow>
          [\<lparr>rs_processArea = area,
            rs_findings = length (filter (\<lambda>m. nc_processArea m = area \<and> nc_status m \<noteq> Nc_void) (qm_findings d)),
            rs_verifiedCapas = length (verified_in d area), rs_latestReference = nc_reference n,
            rs_latestDetectedAt = nc_detectedAt n, rs_earlierCapaVerifiedAt = t\<rparr>]
      | _ \<Rightarrow> [])"

definition recurrence_signals :: "nat \<Rightarrow> qms_db \<Rightarrow> recurrence_signal list" where
  "recurrence_signals limit d =
     take limit (sort_key (\<lambda>s. (- rs_latestDetectedAt s, rs_processArea s))
       (concat (map (signal_of d) (remdups (map nc_processArea (qm_findings d))))))"

end
