(* ===== verification/QualityProperties.thy ===== *)
theory QualityProperties
  imports QualityForm QualityReports
begin

text \<open>
  What the quality register promises: the life of its rows, the review behind a verified action, the gate
  on closing, the lead on the roster, the overdue report; and where calls at once, or a role changed at
  the right moment, get around a promise.
\<close>

definition capa_edge :: "capa_status \<Rightarrow> capa_status \<Rightarrow> bool" where
  "capa_edge s s' \<longleftrightarrow> s' \<in> set (capa_transitions s)"

text \<open>C26. However calls interleave, the register refines two small machines: in a step a finding or an action is
  born in its first state, or exactly one row moves along one edge, or nothing moves. The edge from
  contained to void, which the service's table lists, is not among them.\<close>

theorem register_rows_move_along_edges:
  assumes "quality_reachable h w" and step: "quality_step w w'"
  shows "life_step finding_edge Nc_open (stages nc_id nc_status (qm_findings (fst w))) (stages nc_id nc_status (qm_findings (fst w'))) \<and>
    life_step capa_edge Capa_analysis (stages ca_id ca_status (qm_capas (fst w))) (stages ca_id ca_status (qm_capas (fst w')))"
  using step
proof (cases rule: quality_step.cases)
  case (qs_commit x ws i d now d')
  have inv: "world_inv h w" by (rule world_inv_reachable [OF assms(1)])
  have keys: "keys_distinct nc_id (qm_findings d)" "keys_distinct ca_id (qm_capas d)" and sound: "write_sound h x"
    using inv qs_commit(1,3) by (simp_all add: world_inv_def)
  have fresh: "find_row nc_id i (qm_findings d) = None" "find_row ca_id i (qm_capas d) = None"
    using qs_commit(4) by (simp_all add: fresh_id_def)
  have "life_step finding_edge Nc_open (stages nc_id nc_status (qm_findings d)) (stages nc_id nc_status (qm_findings d'))"
    using qs_commit(5) keys(1)
  proof (cases rule: run_write_findings)
    case (moved n s extra action actor)
    show ?thesis unfolding moved(3)
      by (rule stages_replaced [OF keys(1) moved(2)]) (use sound moved(1) in simp_all)
  qed (simp_all add: life_stays stages_appended fresh stages_replaced [OF keys(1)])
  moreover have "life_step capa_edge Capa_analysis (stages ca_id ca_status (qm_capas d)) (stages ca_id ca_status (qm_capas d'))"
    using qs_commit(5) keys(2)
  proof (cases rule: run_write_capas)
    case (moved c s extra action actor)
    show ?thesis unfolding moved(3)
      by (rule stages_replaced [OF keys(2) moved(2)]) (use sound moved(1) in \<open>simp_all add: capa_edge_def\<close>)
  qed (simp_all add: life_stays stages_appended fresh stages_replaced [OF keys(2)])
  ultimately show ?thesis by (simp add: qs_commit(1,2))
qed (simp_all add: life_stays)

text \<open>C24. A verified action carries a review: however calls interleave, its verifier is not its owner, the
  evidence, the cause, the method and the plan are all there, and at some moment the action stood
  implemented while the verifier was no auditor of its finding.\<close>

theorem verified_action_was_reviewed:
  assumes "quality_reachable h w" and "c \<in> set (qm_capas (fst w))" and "ca_status c = Capa_verified"
  shows "\<exists>v. ca_verifiedBy c = Some v \<and> ca_ownerId c \<noteq> v \<and> substance 10 (ca_effectivenessEvidence c) \<and>
    substance 10 (ca_rootCause c) \<and> ca_rootCauseMethod c \<noteq> None \<and> substance 10 (ca_actionPlan c) \<and>
    reviewed h (ca_id c) v"
proof -
  have inv: "world_inv h w" by (rule world_inv_reachable [OF assms(1)])
  then obtain v where v: "ca_verifiedBy c = Some v" "reviewed h (ca_id c) v"
    and checks: "list_all snd (capa_checks c)"
    using assms(2,3) by (auto simp: world_inv_def)
  from v(2) obtain e c0 where e: "e \<in> set h" "c0 \<in> set (qm_capas e)" "ca_id c0 = ca_id c" "impartial v c0 e"
    by (auto simp: reviewed_def)
  then obtain c1 where "c1 \<in> set (qm_capas (fst w))" "same_action c0 c1"
    using inv by (fastforce simp: world_inv_def)
  then have "same_action c0 c"
    using inv assms(2) e(3) by (auto simp: world_inv_def same_action_def keys_distinct_def distinct_map dest: inj_onD)
  then show ?thesis using v checks e(4) assms(3) by (auto simp: impartial_def same_action_def capa_checks_def)
qed

text \<open>C25. The gate, one operation at a time: a closed finding whose grade asks for a corrective action has one,
  verified by somebody who does not own it.\<close>

theorem closed_finding_has_verified_action:
  assumes "quality_serial d" and "n \<in> set (qm_findings d)" and "nc_status n = Nc_closed"
    and "g \<in> set (qm_severities d)" and "sv_code g = nc_severity n" and "sv_requiresCapa g"
  shows "\<exists>c v. c \<in> set (qm_capas d) \<and> ca_nonconformanceId c = nc_id n \<and> ca_status c = Capa_verified \<and>
    ca_verifiedBy c = Some v \<and> v \<noteq> ca_ownerId c"
proof -
  have "has_verified_capa (nc_id n) d"
    using gate_inv_serial [OF assms(1)] assms(2-6) by (auto simp: gate_inv_def)
  then obtain c where c: "c \<in> set (qm_capas d)" "ca_nonconformanceId c = nc_id n" "ca_status c = Capa_verified"
    by (auto simp: has_verified_capa_def)
  obtain h where "quality_reachable h (d, [])" using serial_reachable [OF assms(1)] by blast
  from world_inv_reachable [OF this] have inv: "world_inv h (d, [])" .
  then obtain v e c0 where v: "ca_verifiedBy c = Some v" and e: "e \<in> set h" "c0 \<in> set (qm_capas e)"
      "ca_id c0 = ca_id c" "ca_ownerId c0 \<noteq> v"
    using c by (fastforce simp: world_inv_def reviewed_def impartial_def)
  then obtain c1 where "c1 \<in> set (qm_capas d)" "same_action c0 c1"
    using inv by (fastforce simp: world_inv_def)
  then have "same_action c0 c"
    using inv c(1) e(3) by (auto simp: world_inv_def same_action_def keys_distinct_def distinct_map dest: inj_onD)
  then show ?thesis using v c e(4) by (auto simp: same_action_def)
qed

text \<open>One operation at a time, whoever an audit names as its lead has an entry on its roster.\<close>

theorem lead_has_a_roster_entry:
  assumes "quality_serial d" and "a \<in> set (qm_audits d)"
  shows "\<exists>r. r \<in> set (qm_roster d) \<and> ro_internalAuditId r = ia_id a \<and> ro_auditorId r = ia_leadAuditorId a"
  using lead_inv_serial [OF assms(1)] assms(2) by (auto simp: lead_inv_def on_roster_def in_roster_def)

text \<open>C27. The register is always of its declared form, however calls interleave: ids and references are unique,
  every row satisfies the constraints of its table, an action answers a finding that is there, and a person
  stands at most once on the roster of an audit that is there.\<close>

theorem register_is_well_formed:
  assumes "quality_reachable h w"
  shows "register_formed (fst w)"
  using register_formed_reachable [OF assms] by blast

section \<open>The recurrence report\<close>

lemma foldl_max_less: "foldl max t ts < (x::int) \<longleftrightarrow> t < x \<and> (\<forall>y \<in> set ts. y < x)"
  by (induction ts arbitrary: t) auto

lemma map_filter_some:
  "(\<And>c. c \<in> set cs \<Longrightarrow> f c \<noteq> None) \<Longrightarrow> List.map_filter f cs = map (\<lambda>c. the (f c)) cs"
  by (induction cs) (auto simp: List.map_filter_simps split: option.splits)

lemma recurred_in_iff:
  assumes "capas_formed d"
  shows "n \<in> set (recurred_in d area) \<longleftrightarrow> n \<in> set (qm_findings d) \<and> nc_processArea n = area \<and> nc_status n \<noteq> Nc_void \<and>
    verified_in d area \<noteq> [] \<and> (\<forall>c \<in> set (verified_in d area). the (ca_verifiedAt c) < nc_detectedAt n)"
proof -
  have "ca_verifiedAt c \<noteq> None" if "c \<in> set (verified_in d area)" for c
    using assms that by (auto simp: verified_in_def capas_formed_def capa_checks_def)
  note flat = map_filter_some [of "verified_in d area" ca_verifiedAt, OF this]
  have "last_verified d area =
      (case map (\<lambda>c. the (ca_verifiedAt c)) (verified_in d area) of [] \<Rightarrow> None | t # ts \<Rightarrow> Some (foldl max t ts))"
    by (simp add: last_verified_def flat)
  then show ?thesis by (cases "verified_in d area") (auto simp: recurred_in_def foldl_max_less)
qed

lemma signal_of_iff:
  "signal_of d area = [] \<longleftrightarrow> recurred_in d area = []"
  by (auto simp: signal_of_def recurred_in_def split: list.splits option.splits)

lemma signal_of_area: "s \<in> set (signal_of d area) \<Longrightarrow> rs_processArea s = area"
  by (auto simp: signal_of_def split: list.splits option.splits)

lemma length_signal_of: "length (signal_of d area) \<le> 1"
  by (simp add: signal_of_def split: list.split option.split)

lemma set_recurrence_signals:
  assumes "length (remdups (map nc_processArea (qm_findings d))) \<le> limit"
  shows "set (recurrence_signals limit d) = (\<Union>area \<in> nc_processArea ` set (qm_findings d). set (signal_of d area))"
proof -
  have "length (concat (map (signal_of d) areas)) \<le> length areas" for areas
  proof (induction areas)
    case (Cons a areas)
    then show ?case using length_signal_of [of d a] by simp
  qed simp
  from this [of "remdups (map nc_processArea (qm_findings d))"]
  show ?thesis using assms by (simp add: recurrence_signals_def)
qed

text \<open>C28. The recurrence report, when it is not cut off by its limit, names exactly the process areas where a
  finding that stands was detected after every action verified for that area, and there was one.\<close>

theorem recurrence_report_is_complete:
  assumes "quality_reachable h w" and "length (remdups (map nc_processArea (qm_findings (fst w)))) \<le> limit"
  shows "(area \<in> rs_processArea ` set (recurrence_signals limit (fst w))) =
    (\<exists>n. n \<in> set (qm_findings (fst w)) \<and> nc_processArea n = area \<and> nc_status n \<noteq> Nc_void \<and>
       verified_in (fst w) area \<noteq> [] \<and>
       filter (\<lambda>c. nc_detectedAt n \<le> the (ca_verifiedAt c)) (verified_in (fst w) area) = [])"
proof -
  let ?d = "fst w"
  have formed: "capas_formed ?d" using register_formed_reachable [OF assms(1)] by (simp add: register_formed_def)
  have "area \<in> rs_processArea ` set (recurrence_signals limit ?d) \<longleftrightarrow>
      area \<in> nc_processArea ` set (qm_findings ?d) \<and> signal_of ?d area \<noteq> []"
    unfolding set_recurrence_signals [OF assms(2)]
  proof
    assume "area \<in> nc_processArea ` set (qm_findings ?d) \<and> signal_of ?d area \<noteq> []"
    moreover from this obtain s where "s \<in> set (signal_of ?d area)" by (meson list.set_sel(1))
    ultimately show "area \<in> rs_processArea ` (\<Union>area \<in> nc_processArea ` set (qm_findings ?d). set (signal_of ?d area))"
      using signal_of_area [of s ?d area] by (intro image_eqI [of _ _ s] UN_I [of area]) simp_all
  next
    assume "area \<in> rs_processArea ` (\<Union>area \<in> nc_processArea ` set (qm_findings ?d). set (signal_of ?d area))"
    then obtain b s where b: "b \<in> nc_processArea ` set (qm_findings ?d)" "s \<in> set (signal_of ?d b)" "rs_processArea s = area"
      by auto
    then have "b = area" using signal_of_area [of s ?d b] by simp
    then show "area \<in> nc_processArea ` set (qm_findings ?d) \<and> signal_of ?d area \<noteq> []" using b by auto
  qed
  also have "\<dots> \<longleftrightarrow> (\<exists>n. n \<in> set (recurred_in ?d area))"
  proof -
    have "recurred_in ?d area \<noteq> [] \<longleftrightarrow> (\<exists>n. n \<in> set (recurred_in ?d area))" by (cases "recurred_in ?d area") auto
    then show ?thesis unfolding signal_of_iff using recurred_in_iff [OF formed, of _ area] by (metis imageI)
  qed
  finally show ?thesis
    unfolding recurred_in_iff [OF formed] by (auto simp: filter_empty_conv not_le)
qed

section \<open>Worked histories\<close>

datatype quality_event = Ev_look qms_request string | Ev_commit nat string

definition qx_actor :: "string \<Rightarrow> actor" where
  "qx_actor u = \<lparr>ac_sub = u, ac_email = u\<rparr>"

fun play_one :: "quality_event \<Rightarrow> quality_world \<Rightarrow> quality_world option" where
  "play_one (Ev_look req u) (d, ws) =
     (case qms_look 100 req (qx_actor u) d of Inl _ \<Rightarrow> None | Inr w \<Rightarrow> Some (d, w # ws))"
| "play_one (Ev_commit k i) (d, ws) =
     (if k < length ws \<and> fresh_id i d
      then (case run_write 100 i (ws ! k) d of Inl _ \<Rightarrow> None | Inr d' \<Rightarrow> Some (d', remove1 (ws ! k) ws))
      else None)"

fun play :: "quality_event list \<Rightarrow> quality_world \<Rightarrow> quality_world option" where
  "play [] w = Some w"
| "play (e # es) w = Option.bind (play_one e w) (play es)"

fun serial_calls :: "(string \<times> qms_request \<times> string) list \<Rightarrow> qms_db \<Rightarrow> qms_db option" where
  "serial_calls [] d = Some d"
| "serial_calls ((i, req, u) # cs) d =
     (if fresh_id i d
      then (case qms_call 100 i req (qx_actor u) d of Inl _ \<Rightarrow> None | Inr d' \<Rightarrow> serial_calls cs d')
      else None)"

lemma play_one_step: "play_one e w = Some w' \<Longrightarrow> quality_step w w'"
  by (cases "(e, w)" rule: play_one.cases)
     (auto intro: quality_step.intros split: sum.splits if_splits)

lemma play_reachable: "play es w = Some w' \<Longrightarrow> quality_reachable h w \<Longrightarrow> \<exists>h'. quality_reachable h' w'"
proof (induction es arbitrary: h w)
  case (Cons e es)
  then obtain w1 where "play_one e w = Some w1" "play es w1 = Some w'"
    by (auto simp: Option.bind_eq_Some_conv)
  then show ?case using Cons.IH Cons.prems(2) qr_next play_one_step by blast
qed auto

lemma serial_calls_serial: "serial_calls cs d = Some d' \<Longrightarrow> quality_serial d \<Longrightarrow> quality_serial d'"
proof (induction cs arbitrary: d)
  case (Cons c cs)
  then show ?case
    by (cases c) (auto split: if_splits sum.splits intro: quality_serial.intros)
qed simp

definition qx_grade :: "nc_severity \<Rightarrow> int \<Rightarrow> bool \<Rightarrow> int \<Rightarrow> severity_level" where
  "qx_grade s rank needs days =
     \<lparr>sv_code = s, sv_rank = rank, sv_label = ''grade'', sv_description = ''a grade'', sv_requiresCapa = needs, sv_containmentDueDays = days\<rparr>"

definition qx_start :: qms_db where
  "qx_start = \<lparr>qm_severities = [qx_grade Sev_minor 2 False 14, qx_grade Sev_major 3 True 7], qm_findings = [], qm_capas = [],
     qm_audits = [], qm_roster = [], qm_incidents = [], qm_trail = []\<rparr>"

definition qx_plan :: qms_request where
  "qx_plan = Plan_audit \<lparr>ip_reference = ''IA-1'', ip_title = ''Stores'', ip_objective = ''the objective'',
     ip_scope = ''the stores'', ip_criteria = ''the manual'', ip_leadAuditorId = ''lena'',
     ip_plannedStartOn = None, ip_plannedEndOn = None\<rparr>"

definition qx_raise :: "nc_severity \<Rightarrow> string option \<Rightarrow> qms_request" where
  "qx_raise s audit = Raise_finding \<lparr>nn_reference = ''NC-1'', nn_title = ''No labels'', nn_description = ''parts unlabelled'',
     nn_requirement = ''clause 8.5'', nn_source = Src_internal_audit, nn_severity = s, nn_processArea = ''stores'',
     nn_ownerId = ''omar'', nn_detectedAt = None, nn_incidentId = None, nn_internalAuditId = audit,
     nn_evidenceDocumentId = None\<rparr>"

definition qx_analysis :: "string \<Rightarrow> qms_request" where
  "qx_analysis cause = Record_analysis ''c1'' \<lparr>cl_rootCause = cause, cl_rootCauseMethod = Five_whys,
     cl_actionPlan = ''label everything'', cl_dueOn = None\<rparr>"

definition qx_regrade :: qms_request where
  "qx_regrade = Update_finding ''f1'' \<lparr>np_title = None, np_description = None, np_requirement = None, np_source = None,
     np_severity = Some Sev_major, np_processArea = None, np_ownerId = None, np_detectedAt = None,
     np_incidentId = None, np_internalAuditId = None, np_evidenceDocumentId = None\<rparr>"

definition qx_open :: qms_request where
  "qx_open = Open_capa ''f1'' \<lparr>cn_reference = ''CA-1'', cn_ownerId = ''omar'', cn_dueOn = None\<rparr>"

definition qx_work :: "(string \<times> qms_request \<times> string) list" where
  "qx_work = [(''a1'', qx_plan, ''hr''), (''f1'', qx_raise Sev_major (Some ''a1''), ''lena''),
     (''-'', Contain_finding ''f1'' ''parts set aside'' None, ''omar''), (''c1'', qx_open, ''hr''),
     (''-'', qx_analysis ''nobody was told'', ''omar''), (''-'', Plan_capa ''c1'', ''omar''), (''-'', Start_capa ''c1'', ''omar''),
     (''-'', Mark_implemented ''c1'' None, ''omar'')]"

definition qx_review :: "string \<Rightarrow> (string \<times> qms_request \<times> string) list" where
  "qx_review u = [(''-'', Verify_capa ''c1'' ''all labels seen'', u), (''-'', Close_finding ''f1'' ''nothing left to do'', ''hr'')]"

definition qx_ends :: "qms_db option \<Rightarrow> qms_db" where "qx_ends r = the r"

definition qx_closed :: qms_db where "qx_closed = qx_ends (serial_calls (qx_work @ qx_review ''vera'') qx_start)"

definition qx_demoted :: qms_db where
  "qx_demoted = qx_ends (serial_calls
     (qx_work @ [(''-'', Assign_auditor ''a1'' ''lena'' Role_observer, ''lena'')] @ qx_review ''lena'') qx_start)"

lemma qx_serial: "serial_calls cs qx_start \<noteq> None \<Longrightarrow> quality_serial (qx_ends (serial_calls cs qx_start))"
  by (rule serial_calls_serial [of cs qx_start])
     (auto simp: qx_ends_def qx_start_def empty_register_def keys_distinct_def qx_grade_def intro: serial_start)

lemma qx_runs:
  "serial_calls (qx_work @ qx_review ''vera'') qx_start \<noteq> None"
  "serial_calls (qx_work @ [(''-'', Assign_auditor ''a1'' ''lena'' Role_observer, ''lena'')] @ qx_review ''lena'') qx_start \<noteq> None"
  by code_simp+


lemma qx_outcomes:
  "map (\<lambda>n. (nc_id n, nc_status n, nc_severity n, nc_internalAuditId n)) (qm_findings qx_closed) = [(''f1'', Nc_closed, Sev_major, Some ''a1'')]"
  "map (\<lambda>n. (nc_id n, nc_status n, nc_severity n, nc_internalAuditId n)) (qm_findings qx_demoted) = [(''f1'', Nc_closed, Sev_major, Some ''a1'')]"
  "map (\<lambda>c. (ca_nonconformanceId c, ca_status c, ca_verifiedBy c)) (qm_capas qx_closed) = [(''f1'', Capa_verified, Some ''vera'')]"
  "map (\<lambda>c. (ca_nonconformanceId c, ca_status c, ca_verifiedBy c)) (qm_capas qx_demoted) = [(''f1'', Capa_verified, Some ''lena'')]"
  "map (\<lambda>a. (ia_id a, ia_leadAuditorId a)) (qm_audits qx_demoted) = [(''a1'', ''lena'')]"
  "qm_severities qx_closed = [qx_grade Sev_minor 2 False 14, qx_grade Sev_major 3 True 7]"
  by code_simp+

lemma qx_closed_serial: "quality_serial qx_closed" unfolding qx_closed_def by (rule qx_serial [OF qx_runs(1)])

lemma qx_demoted_serial: "quality_serial qx_demoted" unfolding qx_demoted_def by (rule qx_serial [OF qx_runs(2)])

text \<open>The roster keeps one role per person, and putting the lead on it again as an observer is accepted: one
  operation at a time, the person an audit names as its lead signs off the action for a finding of that
  very audit.\<close>

theorem demoted_lead_signs_off_own_finding:
  "\<exists>d a n c. quality_serial d \<and> a \<in> set (qm_audits d) \<and> n \<in> set (qm_findings d) \<and> c \<in> set (qm_capas d) \<and>
     nc_internalAuditId n = Some (ia_id a) \<and> ca_nonconformanceId c = nc_id n \<and> ca_status c = Capa_verified \<and>
     ca_verifiedBy c = Some (ia_leadAuditorId a)"
proof -
  obtain a where "qm_audits qx_demoted = [a]" "ia_id a = ''a1''" "ia_leadAuditorId a = ''lena''"
    using qx_outcomes(5) by (auto simp: map_eq_Cons_conv)
  moreover obtain n where "qm_findings qx_demoted = [n]" "nc_id n = ''f1''" "nc_internalAuditId n = Some ''a1''"
    using qx_outcomes(2) by (auto simp: map_eq_Cons_conv)
  moreover obtain c where "qm_capas qx_demoted = [c]" "ca_nonconformanceId c = ''f1''" "ca_status c = Capa_verified"
      "ca_verifiedBy c = Some ''lena''"
    using qx_outcomes(4) by (auto simp: map_eq_Cons_conv)
  ultimately show ?thesis using qx_demoted_serial by force
qed

theorem lead_has_a_roster_entry_witness:
  "\<exists>a r. a \<in> set (qm_audits qx_demoted) \<and> r \<in> set (qm_roster qx_demoted) \<and> ro_internalAuditId r = ia_id a \<and>
     ro_auditorId r = ia_leadAuditorId a"
proof -
  obtain a where "a \<in> set (qm_audits qx_demoted)" using qx_outcomes(5) by (auto simp: map_eq_Cons_conv)
  with lead_has_a_roster_entry [OF qx_demoted_serial this] show ?thesis by blast
qed

theorem closed_finding_has_verified_action_witness:
  "\<exists>n c v. n \<in> set (qm_findings qx_closed) \<and> nc_status n = Nc_closed \<and> c \<in> set (qm_capas qx_closed) \<and>
     ca_nonconformanceId c = nc_id n \<and> ca_status c = Capa_verified \<and> ca_verifiedBy c = Some v \<and> v \<noteq> ca_ownerId c"
proof -
  obtain n where n: "n \<in> set (qm_findings qx_closed)" "nc_status n = Nc_closed" "nc_severity n = Sev_major"
    using qx_outcomes(1) by (auto simp: map_eq_Cons_conv)
  have "qx_grade Sev_major 3 True 7 \<in> set (qm_severities qx_closed)" unfolding qx_outcomes(6) by simp
  from closed_finding_has_verified_action [OF qx_closed_serial n(1,2) this] n show ?thesis
    by (auto simp: qx_grade_def)
qed

theorem verified_action_was_reviewed_witness:
  "\<exists>h c v. quality_reachable h (qx_closed, []) \<and> c \<in> set (qm_capas qx_closed) \<and> ca_status c = Capa_verified \<and>
     ca_verifiedBy c = Some v \<and> ca_ownerId c \<noteq> v \<and> reviewed h (ca_id c) v"
proof -
  obtain h where h: "quality_reachable h (qx_closed, [])" using serial_reachable [OF qx_closed_serial] by blast
  obtain c where c: "c \<in> set (qm_capas qx_closed)" "ca_status c = Capa_verified"
    using qx_outcomes(3) by (auto simp: map_eq_Cons_conv)
  from verified_action_was_reviewed [OF h, of c] c show ?thesis using h by (auto intro: exI)
qed

theorem register_is_well_formed_witness: "register_formed qx_demoted"
proof -
  obtain h where "quality_reachable h (qx_demoted, [])" using serial_reachable [OF qx_demoted_serial] by blast
  from register_is_well_formed [OF this] show ?thesis by simp
qed

text \<open>A second finding in the same area, detected later.\<close>

definition qx_again :: qms_request where
  "qx_again = Raise_finding \<lparr>nn_reference = ''NC-2'', nn_title = ''No labels'', nn_description = ''parts unlabelled'',
     nn_requirement = ''clause 8.5'', nn_source = Src_other, nn_severity = Sev_minor, nn_processArea = ''stores'',
     nn_ownerId = ''omar'', nn_detectedAt = Some 200, nn_incidentId = None, nn_internalAuditId = None,
     nn_evidenceDocumentId = None\<rparr>"

definition qx_recurred :: qms_db where
  "qx_recurred = qx_ends (serial_calls (qx_work @ qx_review ''vera'' @ [(''f2'', qx_again, ''lena'')]) qx_start)"

lemma qx_recurred_run:
  "serial_calls (qx_work @ qx_review ''vera'' @ [(''f2'', qx_again, ''lena'')]) qx_start \<noteq> None"
  "map (\<lambda>s. (rs_processArea s, rs_latestReference s)) (recurrence_signals 200 qx_recurred) = [(''stores'', ''NC-2'')]"
  "length (remdups (map nc_processArea (qm_findings qx_recurred))) = 1"
  by code_simp+

theorem recurrence_report_is_complete_witness:
  "\<exists>n. n \<in> set (qm_findings qx_recurred) \<and> nc_processArea n = ''stores'' \<and>
     filter (\<lambda>c. nc_detectedAt n \<le> the (ca_verifiedAt c)) (verified_in qx_recurred ''stores'') = []"
proof -
  obtain h where h: "quality_reachable h (qx_recurred, [])"
    using serial_reachable qx_serial [OF qx_recurred_run(1)] by (auto simp: qx_recurred_def)
  have "rs_processArea ` set (recurrence_signals 200 qx_recurred) =
      fst ` set (map (\<lambda>s. (rs_processArea s, rs_latestReference s)) (recurrence_signals 200 qx_recurred))"
    by (simp add: image_image)
  then have "''stores'' \<in> rs_processArea ` set (recurrence_signals 200 qx_recurred)"
    unfolding qx_recurred_run(2) by simp
  then show ?thesis using recurrence_report_is_complete [OF h, of 200 "''stores''"] qx_recurred_run(3) by auto
qed

section \<open>Calls at once\<close>

text \<open>A close decided on while the finding is minor, a grade decided on while it is open.\<close>

definition qx_regrading :: "quality_event list" where
  "qx_regrading =
     [Ev_look (qx_raise Sev_minor None) ''lena'', Ev_commit 0 ''f1'',
      Ev_look (Contain_finding ''f1'' ''parts set aside'' None) ''omar'', Ev_commit 0 ''-'',
      Ev_look qx_regrade ''lena'', Ev_look (Close_finding ''f1'' ''nothing left to do'') ''omar'',
      Ev_commit 0 ''-'', Ev_commit 0 ''-'']"

text \<open>An analysis decided on while the action is in analysis, and written after it is verified.\<close>

definition qx_late :: "quality_event list" where
  "qx_late =
     [Ev_look (qx_raise Sev_major None) ''lena'', Ev_commit 0 ''f1'', Ev_look qx_open ''hr'', Ev_commit 0 ''c1'',
      Ev_look (qx_analysis ''a different story'') ''omar'',
      Ev_look (qx_analysis ''nobody was told'') ''omar'', Ev_commit 0 ''-'', Ev_look (Plan_capa ''c1'') ''omar'', Ev_commit 0 ''-'',
      Ev_look (Start_capa ''c1'') ''omar'', Ev_commit 0 ''-'', Ev_look (Mark_implemented ''c1'' None) ''omar'', Ev_commit 0 ''-'',
      Ev_look (Verify_capa ''c1'' ''all labels seen'') ''vera'', Ev_commit 0 ''-'']"

definition qx_world :: "quality_event list \<Rightarrow> quality_world" where
  "qx_world es = the (play es (qx_start, []))"

definition qx_write :: "quality_world" where
  "qx_write = the (play_one (Ev_commit 0 ''-'') (qx_world qx_late))"

lemma qx_plays: "play qx_regrading (qx_start, []) \<noteq> None" "play qx_late (qx_start, []) \<noteq> None"
  "play_one (Ev_commit 0 ''-'') (qx_world qx_late) \<noteq> None"
  by code_simp+

lemma qx_play_reachable: "play es (qx_start, []) \<noteq> None \<Longrightarrow> \<exists>h. quality_reachable h (qx_world es)"
proof -
  assume "play es (qx_start, []) \<noteq> None"
  then have "play es (qx_start, []) = Some (qx_world es)" by (auto simp: qx_world_def)
  moreover have "quality_reachable [qx_start] (qx_start, [])"
    by (rule qr_start) (simp add: qx_start_def empty_register_def keys_distinct_def qx_grade_def)
  ultimately show ?thesis by (rule play_reachable)
qed

lemma qx_late_step: "quality_step (qx_world qx_late) qx_write"
  by (rule play_one_step [of "Ev_commit 0 ''-''"]) (use qx_plays(3) in \<open>auto simp: qx_write_def\<close>)

lemma qx_race_outcomes:
  "map (\<lambda>n. (nc_id n, nc_status n, nc_severity n)) (qm_findings (fst (qx_world qx_regrading))) = [(''f1'', Nc_closed, Sev_major)]"
  "qm_capas (fst (qx_world qx_regrading)) = []" "snd (qx_world qx_regrading) = []"
  "qm_severities (fst (qx_world qx_regrading)) = [qx_grade Sev_minor 2 False 14, qx_grade Sev_major 3 True 7]"
  "map (\<lambda>c. (ca_id c, ca_status c, ca_rootCause c)) (qm_capas (fst (qx_world qx_late))) = [(''c1'', Capa_verified, Some ''nobody was told'')]"
  "map (\<lambda>c. (ca_id c, ca_status c, ca_rootCause c)) (qm_capas (fst qx_write)) = [(''c1'', Capa_verified, Some ''a different story'')]"
  by code_simp+

text \<open>The gate reads the grade before its transaction and a new grade is written without looking at the state:
  with two calls at once a finding is closed whose grade asks for a corrective action, with none.\<close>

theorem regrade_slips_past_the_gate:
  "\<exists>h d n g. quality_reachable h (d, []) \<and> n \<in> set (qm_findings d) \<and> nc_status n = Nc_closed \<and>
     g \<in> set (qm_severities d) \<and> sv_code g = nc_severity n \<and> sv_requiresCapa g \<and> \<not> has_verified_capa (nc_id n) d"
proof -
  let ?d = "fst (qx_world qx_regrading)"
  obtain h where h: "quality_reachable h (?d, [])"
    using qx_play_reachable [OF qx_plays(1)] qx_race_outcomes(3) by (metis prod.collapse)
  obtain n where n: "qm_findings ?d = [n]" "nc_status n = Nc_closed" "nc_severity n = Sev_major"
    using qx_race_outcomes(1) by (auto simp: map_eq_Cons_conv)
  have g: "qx_grade Sev_major 3 True 7 \<in> set (qm_severities ?d)" unfolding qx_race_outcomes(4) by simp
  have "\<not> has_verified_capa (nc_id n) ?d" by (simp add: has_verified_capa_def qx_race_outcomes(2))
  moreover have "sv_code (qx_grade Sev_major 3 True 7) = nc_severity n" "sv_requiresCapa (qx_grade Sev_major 3 True 7)"
    by (simp_all add: qx_grade_def n(3))
  moreover have "n \<in> set (qm_findings ?d)" by (simp add: n(1))
  ultimately show ?thesis using h n(2) g by blast
qed

text \<open>The analysis is written without looking at the state: an action signed off as effective can have its
  cause rewritten afterwards, by a call that had been let through while it was still in analysis.\<close>

theorem late_analysis_rewrites_verified_action:
  "\<exists>h w w' c c'. quality_reachable h w \<and> quality_step w w' \<and> c \<in> set (qm_capas (fst w)) \<and> c' \<in> set (qm_capas (fst w')) \<and>
     ca_id c' = ca_id c \<and> ca_status c = Capa_verified \<and> ca_status c' = Capa_verified \<and> ca_rootCause c' \<noteq> ca_rootCause c"
proof -
  obtain h where h: "quality_reachable h (qx_world qx_late)" using qx_play_reachable [OF qx_plays(2)] by blast
  obtain c where c: "qm_capas (fst (qx_world qx_late)) = [c]" "ca_id c = ''c1''" "ca_status c = Capa_verified"
      "ca_rootCause c = Some ''nobody was told''"
    using qx_race_outcomes(5) by (auto simp: map_eq_Cons_conv)
  obtain c' where c': "qm_capas (fst qx_write) = [c']" "ca_id c' = ''c1''" "ca_status c' = Capa_verified"
      "ca_rootCause c' = Some ''a different story''"
    using qx_race_outcomes(6) by (auto simp: map_eq_Cons_conv)
  have "c \<in> set (qm_capas (fst (qx_world qx_late)))" "c' \<in> set (qm_capas (fst qx_write))" "ca_rootCause c' \<noteq> ca_rootCause c"
    by (simp_all add: c c')
  then show ?thesis using h qx_late_step c(2,3) c'(2,3) by metis
qed

theorem register_rows_move_along_edges_witness:
  "\<exists>h. quality_reachable h (qx_world qx_late) \<and> quality_step (qx_world qx_late) qx_write \<and>
     life_step finding_edge Nc_open (stages nc_id nc_status (qm_findings (fst (qx_world qx_late)))) (stages nc_id nc_status (qm_findings (fst qx_write))) \<and>
     life_step capa_edge Capa_analysis (stages ca_id ca_status (qm_capas (fst (qx_world qx_late)))) (stages ca_id ca_status (qm_capas (fst qx_write)))"
proof -
  obtain h where h: "quality_reachable h (qx_world qx_late)" using qx_play_reachable [OF qx_plays(2)] by blast
  from register_rows_move_along_edges [OF h qx_late_step] show ?thesis using h qx_late_step by blast
qed

end
