(* ===== verification/Contracts.thy ===== *)
theory Contracts
  imports Quality
begin

text \<open>
  Employment contracts (\<^verbatim>\<open>contracts.service.ts\<close> and \<^verbatim>\<open>contracts.drizzle-repository.ts\<close> under
  \<^verbatim>\<open>libs/modules/contracts/src\<close>) with the constraints and the two unique indexes of migration 0017. An
  operation is what it checks on rows read outside a transaction, which yields a \<open>contract_write\<close>, and the
  transaction that write stands for; \<open>update_returning\<close> and \<open>checked\<close> are those of \<open>Quality\<close>. The worker's sweep
  reads a list of contracts and runs one transaction for each. Texts of notifications are left out.
\<close>

section \<open>Rows\<close>

datatype contract_type = Permanent | Fixed_term | Probation | Internship | Contractor

datatype contract_status = Contract_draft | Contract_active | Contract_expired | Contract_terminated

datatype salary_period = Hourly | Monthly | Annual

record compensation =
  cp_baseSalary :: rat
  cp_salaryCurrency :: string
  cp_salaryPeriod :: salary_period

record contract =
  ec_id :: string
  ec_employeeId :: string
  ec_positionId :: "string option"
  ec_reference :: string
  ec_contractType :: contract_type
  ec_startDate :: iso_date
  ec_endDate :: "iso_date option"
  ec_probationEndDate :: "iso_date option"
  ec_noticePeriodDays :: int
  ec_baseSalary :: "rat option"
  ec_salaryCurrency :: "string option"
  ec_salaryPeriod :: "salary_period option"
  ec_status :: contract_status
  ec_signedAt :: "int option"
  ec_documentId :: "string option"
  ec_terminatedOn :: "iso_date option"
  ec_terminationReason :: "string option"
  ec_supersededById :: "string option"
  ec_notes :: "string option"
  ec_createdAt :: int
  ec_updatedAt :: int

record draft_input =
  df_employeeId :: string
  df_positionId :: "string option"
  df_reference :: string
  df_contractType :: contract_type
  df_startDate :: iso_date
  df_endDate :: "iso_date option"
  df_probationEndDate :: "iso_date option"
  df_noticePeriodDays :: "int option"
  df_compensation :: "compensation option"
  df_documentId :: "string option"
  df_notes :: "string option"

record contract_patch =
  cx_positionId :: "string option option"
  cx_contractType :: "contract_type option"
  cx_startDate :: "iso_date option"
  cx_endDate :: "iso_date option option"
  cx_probationEndDate :: "iso_date option option"
  cx_noticePeriodDays :: "int option"
  cx_compensation :: "compensation option option"
  cx_documentId :: "string option option"
  cx_notes :: "string option option"

text \<open>A queued notification and its idempotency key.\<close>

datatype notice_key = Expired_notice string | Expiring_notice string int

record contract_notice =
  cz_recipientId :: string
  cz_resourceId :: string
  cz_key :: notice_key

record contracts_db =
  cb_contracts :: "contract list"
  cb_positions :: "string list"
  cb_notices :: "contract_notice list"
  cb_audit :: "audit_entry list"

definition contract_record :: "string option \<Rightarrow> string \<Rightarrow> string \<Rightarrow> contracts_db \<Rightarrow> contracts_db" where
  "contract_record actorId action resourceId d =
     d\<lparr>cb_audit := cb_audit d @ [\<lparr>au_actorId = actorId, au_action = action, au_resourceId = resourceId\<rparr>]\<rparr>"

definition schedule_notice :: "contract_notice \<Rightarrow> contracts_db \<Rightarrow> contracts_db" where
  "schedule_notice n d =
     (if find_row cz_key (cz_key n) (cb_notices d) = None then d\<lparr>cb_notices := cb_notices d @ [n]\<rparr> else d)"

definition contract_checks :: "contracts_db \<Rightarrow> contract \<Rightarrow> (string \<times> bool) list" where
  "contract_checks d c =
     [(''ck_contract_not_self_superseded'', ec_supersededById c \<noteq> Some (ec_id c)),
      (''ck_contract_notice_non_negative'', 0 \<le> ec_noticePeriodDays c),
      (''ck_contract_probation_window'',
         case ec_probationEndDate c of None \<Rightarrow> True | Some t \<Rightarrow> ec_startDate c \<le> t),
      (''ck_contract_salary_complete'',
         case ec_baseSalary c of None \<Rightarrow> True | Some s \<Rightarrow> 0 < s \<and> ec_salaryCurrency c \<noteq> None \<and> ec_salaryPeriod c \<noteq> None),
      (''ck_contract_terminated_window'',
         case ec_terminatedOn c of None \<Rightarrow> True | Some t \<Rightarrow> ec_startDate c \<le> t),
      (''ck_contract_termination_reason'',
         (ec_status c = Contract_terminated) = (ec_terminatedOn c \<noteq> None \<and> ec_terminationReason c \<noteq> None)),
      (''ck_contract_type_end_date'', (ec_contractType c = Permanent) = (ec_endDate c = None)),
      (''ck_contract_window'', case ec_endDate c of None \<Rightarrow> True | Some t \<Rightarrow> ec_startDate c \<le> t),
      (''uq_employee_active_contract'', ec_status c = Contract_active \<longrightarrow>
         \<not> list_ex (\<lambda>x. ec_id x \<noteq> ec_id c \<and> ec_employeeId x = ec_employeeId c \<and> ec_status x = Contract_active) (cb_contracts d)),
      (''employment_contracts_position_id_fkey'',
         case ec_positionId c of None \<Rightarrow> True | Some p \<Rightarrow> p \<in> set (cb_positions d))]"

section \<open>Terms\<close>

definition assert_terms :: "contract_type \<Rightarrow> iso_date \<Rightarrow> iso_date option \<Rightarrow> iso_date option \<Rightarrow> unit result" where
  "assert_terms ty d_start d_end d_probation =
     (if ty = Permanent \<and> d_end \<noteq> None then Inl (PreconditionFailedException ''CONTRACT_INVALID_TERM'')
      else if ty \<noteq> Permanent \<and> d_end = None then Inl (PreconditionFailedException ''CONTRACT_INVALID_TERM'')
      else and_then
        (case d_end of None \<Rightarrow> Inr () | Some t \<Rightarrow> assert_date_order d_start t ''CONTRACT_INVALID_WINDOW'')
        (\<lambda>_. case d_probation of None \<Rightarrow> Inr () | Some t \<Rightarrow> assert_date_order d_start t ''CONTRACT_INVALID_WINDOW''))"

definition get_contract :: "string \<Rightarrow> contracts_db \<Rightarrow> contract result" where
  "get_contract i d = (case find_row ec_id i (cb_contracts d) of None \<Rightarrow> Inl (NotFoundException ''NOT_FOUND'') | Some c \<Rightarrow> Inr c)"

definition find_active :: "string \<Rightarrow> contracts_db \<Rightarrow> contract option" where
  "find_active employeeId d = find (\<lambda>c. ec_employeeId c = employeeId \<and> ec_status c = Contract_active) (cb_contracts d)"

text \<open>The state a contract has to be in to become active, on the day \<open>day\<close>.\<close>

definition assert_activatable :: "iso_date \<Rightarrow> contract \<Rightarrow> int option \<Rightarrow> unit result" where
  "assert_activatable day c signedAt =
     (if ec_status c \<noteq> Contract_draft then Inl (PreconditionFailedException ''CONTRACT_NOT_DRAFT'')
      else if ec_signedAt c = None \<and> signedAt = None then Inl (PreconditionFailedException ''CONTRACT_NOT_SIGNED'')
      else (case ec_endDate c of
              None \<Rightarrow> Inr ()
            | Some t \<Rightarrow> if t < day then Inl (PreconditionFailedException ''CONTRACT_ALREADY_ENDED'') else Inr ()))"

section \<open>What is checked before a transaction\<close>

text \<open>A write carries the rows as they were read.\<close>

datatype contract_write =
    Draft_write draft_input actor
  | Patch_write string contract_patch actor
  | Activate_write contract "int option" actor
  | Renew_write contract contract "int option" actor
  | Terminate_write string iso_date string actor
  | Expire_write string iso_date

definition draft_contract :: "draft_input \<Rightarrow> actor \<Rightarrow> contracts_db \<Rightarrow> contract_write result" where
  "draft_contract input actor d =
     and_then (assert_terms (df_contractType input) (df_startDate input) (df_endDate input) (df_probationEndDate input)) (\<lambda>_.
       if find_row ec_reference (df_reference input) (cb_contracts d) \<noteq> None then Inl (ConflictException ''CONFLICT'')
       else Inr (Draft_write input actor))"

definition update_contract :: "string \<Rightarrow> contract_patch \<Rightarrow> actor \<Rightarrow> contracts_db \<Rightarrow> contract_write result" where
  "update_contract i x actor d =
     and_then (get_contract i d) (\<lambda>before.
       if ec_status before \<noteq> Contract_draft then Inl (PreconditionFailedException ''CONTRACT_NOT_DRAFT'')
       else and_then
         (assert_terms (keep (cx_contractType x) (ec_contractType before)) (keep (cx_startDate x) (ec_startDate before))
            (keep (cx_endDate x) (ec_endDate before)) (keep (cx_probationEndDate x) (ec_probationEndDate before)))
         (\<lambda>_. Inr (Patch_write i x actor)))"

definition activate_contract :: "iso_date \<Rightarrow> string \<Rightarrow> int option \<Rightarrow> actor \<Rightarrow> contracts_db \<Rightarrow> contract_write result" where
  "activate_contract day i signedAt actor d =
     and_then (get_contract i d) (\<lambda>c.
     and_then (assert_activatable day c signedAt) (\<lambda>_. Inr (Activate_write c signedAt actor)))"

definition renew_contract :: "iso_date \<Rightarrow> string \<Rightarrow> string \<Rightarrow> int option \<Rightarrow> actor \<Rightarrow> contracts_db \<Rightarrow> contract_write result" where
  "renew_contract day outgoingId incomingId signedAt actor d =
     (if outgoingId = incomingId then Inl (PreconditionFailedException ''PRECONDITION_FAILED'')
      else and_then (get_contract outgoingId d) (\<lambda>outgoing.
      and_then (get_contract incomingId d) (\<lambda>incoming.
        if ec_employeeId outgoing \<noteq> ec_employeeId incoming then Inl (PreconditionFailedException ''PRECONDITION_FAILED'')
        else if ec_status outgoing \<noteq> Contract_active then Inl (PreconditionFailedException ''CONTRACT_NOT_ACTIVE'')
        else and_then (assert_activatable day incoming signedAt) (\<lambda>_.
        and_then (assert_date_order (ec_startDate outgoing) (ec_startDate incoming) ''CONTRACT_INVALID_WINDOW'') (\<lambda>_.
          Inr (Renew_write outgoing incoming signedAt actor))))))"

definition terminate_contract :: "string \<Rightarrow> iso_date \<Rightarrow> string \<Rightarrow> actor \<Rightarrow> contracts_db \<Rightarrow> contract_write result" where
  "terminate_contract i terminatedOn reason actor d =
     and_then (get_contract i d) (\<lambda>c.
       if ec_status c \<noteq> Contract_active then Inl (PreconditionFailedException ''CONTRACT_NOT_ACTIVE'')
       else and_then (assert_date_order (ec_startDate c) terminatedOn ''CONTRACT_INVALID_WINDOW'') (\<lambda>_.
         Inr (Terminate_write i terminatedOn reason actor)))"

section \<open>The transactions\<close>

definition new_contract :: "int \<Rightarrow> string \<Rightarrow> draft_input \<Rightarrow> contract" where
  "new_contract now i input =
     \<lparr>ec_id = i, ec_employeeId = df_employeeId input, ec_positionId = df_positionId input,
      ec_reference = df_reference input, ec_contractType = df_contractType input, ec_startDate = df_startDate input,
      ec_endDate = df_endDate input, ec_probationEndDate = df_probationEndDate input,
      ec_noticePeriodDays = keep (df_noticePeriodDays input) 30,
      ec_baseSalary = map_option cp_baseSalary (df_compensation input),
      ec_salaryCurrency = map_option cp_salaryCurrency (df_compensation input),
      ec_salaryPeriod = map_option cp_salaryPeriod (df_compensation input),
      ec_status = Contract_draft, ec_signedAt = None, ec_documentId = df_documentId input, ec_terminatedOn = None,
      ec_terminationReason = None, ec_supersededById = None, ec_notes = df_notes input,
      ec_createdAt = now, ec_updatedAt = now\<rparr>"

text \<open>The three columns of a compensation are one fact: null clears all three.\<close>

definition compensation_columns :: "compensation option option \<Rightarrow> contract \<Rightarrow> contract" where
  "compensation_columns p c =
     (case p of
        None \<Rightarrow> c
      | Some x \<Rightarrow> c\<lparr>ec_baseSalary := map_option cp_baseSalary x, ec_salaryCurrency := map_option cp_salaryCurrency x,
                    ec_salaryPeriod := map_option cp_salaryPeriod x\<rparr>)"

definition patch_contract :: "int \<Rightarrow> contract_patch \<Rightarrow> contract \<Rightarrow> contract" where
  "patch_contract now x c =
     (compensation_columns (cx_compensation x) c)
       \<lparr>ec_positionId := keep (cx_positionId x) (ec_positionId c),
        ec_contractType := keep (cx_contractType x) (ec_contractType c),
        ec_startDate := keep (cx_startDate x) (ec_startDate c), ec_endDate := keep (cx_endDate x) (ec_endDate c),
        ec_probationEndDate := keep (cx_probationEndDate x) (ec_probationEndDate c),
        ec_noticePeriodDays := keep (cx_noticePeriodDays x) (ec_noticePeriodDays c),
        ec_documentId := keep (cx_documentId x) (ec_documentId c), ec_notes := keep (cx_notes x) (ec_notes c),
        ec_updatedAt := now\<rparr>"

text \<open>The guarded update: the row with that id in that state, or nothing.\<close>

definition update_contract_row ::
    "string \<Rightarrow> contract_status \<Rightarrow> (contract \<Rightarrow> contract) \<Rightarrow> contracts_db \<Rightarrow> (contracts_db \<times> contract option) result" where
  "update_contract_row i from_status f d =
     and_then (update_returning (contract_checks d) (\<lambda>c. ec_id c = i \<and> ec_status c = from_status) f (cb_contracts d))
       (\<lambda>(t, row). Inr (d\<lparr>cb_contracts := t\<rparr>, row))"

definition contract_transition ::
    "int \<Rightarrow> string \<Rightarrow> contract_status \<Rightarrow> contract_status \<Rightarrow> (contract \<Rightarrow> contract) \<Rightarrow> contracts_db \<Rightarrow>
     (contracts_db \<times> contract option) result" where
  "contract_transition now i from_status to_status extra d =
     update_contract_row i from_status (\<lambda>c. extra (c\<lparr>ec_status := to_status, ec_updatedAt := now\<rparr>)) d"

definition txn_draft :: "int \<Rightarrow> string \<Rightarrow> draft_input \<Rightarrow> actor \<Rightarrow> contracts_db \<Rightarrow> contracts_db result" where
  "txn_draft now new_id input actor d =
     (let c = new_contract now new_id input
      in if find_row ec_reference (ec_reference c) (cb_contracts d) \<noteq> None then Inl (ThrownError ''uq_contract_reference'')
         else and_then (checked (contract_checks d c)) (\<lambda>_.
           Inr (contract_record (Some (ac_sub actor)) ''contract.drafted'' new_id (d\<lparr>cb_contracts := cb_contracts d @ [c]\<rparr>))))"

definition txn_update :: "int \<Rightarrow> string \<Rightarrow> contract_patch \<Rightarrow> actor \<Rightarrow> contracts_db \<Rightarrow> contracts_db result" where
  "txn_update now i x actor d =
     and_then (update_contract_row i Contract_draft (patch_contract now x) d) (\<lambda>(d1, row).
       case row of
         None \<Rightarrow> Inl (ConflictException ''CONTRACT_NOT_DRAFT'')
       | Some _ \<Rightarrow> Inr (contract_record (Some (ac_sub actor)) ''contract.updated'' i d1))"

text \<open>\<open>signed\<close> is the date given, else the one on the row that was read, else the clock.\<close>

definition activate_within ::
    "int \<Rightarrow> contract \<Rightarrow> int option \<Rightarrow> actor \<Rightarrow> string \<Rightarrow> contracts_db \<Rightarrow> (contracts_db \<times> contract) result" where
  "activate_within now c signedAt actor action d =
     (let signed = keep signedAt (keep (ec_signedAt c) now)
      in and_then (contract_transition now (ec_id c) Contract_draft Contract_active (\<lambda>r. r\<lparr>ec_signedAt := Some signed\<rparr>) d)
           (\<lambda>(d1, row). case row of
              None \<Rightarrow> Inl (ConflictException ''CONTRACT_NOT_DRAFT'')
            | Some r \<Rightarrow> Inr (contract_record (Some (ac_sub actor)) action (ec_id r) d1, r)))"

definition txn_activate :: "int \<Rightarrow> contract \<Rightarrow> int option \<Rightarrow> actor \<Rightarrow> contracts_db \<Rightarrow> contracts_db result" where
  "txn_activate now c signedAt actor d =
     (if find_active (ec_employeeId c) d \<noteq> None then Inl (ConflictException ''CONTRACT_ALREADY_ACTIVE'')
      else and_then (activate_within now c signedAt actor ''contract.activated'' d) (\<lambda>(d1, _). Inr d1))"

definition txn_renew :: "int \<Rightarrow> contract \<Rightarrow> contract \<Rightarrow> int option \<Rightarrow> actor \<Rightarrow> contracts_db \<Rightarrow> contracts_db result" where
  "txn_renew now outgoing incoming signedAt actor d =
     and_then (contract_transition now (ec_id outgoing) Contract_active Contract_expired id d) (\<lambda>(d1, closed).
       case closed of
         None \<Rightarrow> Inl (ConflictException ''CONTRACT_NOT_ACTIVE'')
       | Some gone \<Rightarrow>
           and_then (activate_within now incoming signedAt actor ''contract.renewed'' d1) (\<lambda>(d2, activated).
           and_then (contract_transition now (ec_id gone) Contract_expired Contract_expired
                       (\<lambda>r. r\<lparr>ec_supersededById := Some (ec_id activated)\<rparr>) d2) (\<lambda>(d3, _). Inr d3)))"

definition txn_terminate :: "int \<Rightarrow> string \<Rightarrow> iso_date \<Rightarrow> string \<Rightarrow> actor \<Rightarrow> contracts_db \<Rightarrow> contracts_db result" where
  "txn_terminate now i terminatedOn reason actor d =
     and_then (contract_transition now i Contract_active Contract_terminated
                 (\<lambda>r. r\<lparr>ec_terminatedOn := Some terminatedOn, ec_terminationReason := Some reason\<rparr>) d) (\<lambda>(d1, row).
       case row of
         None \<Rightarrow> Inl (ConflictException ''CONTRACT_NOT_ACTIVE'')
       | Some _ \<Rightarrow> Inr (contract_record (Some (ac_sub actor)) ''contract.terminated'' i d1))"

text \<open>One contract of the sweep: moved and announced, or left as it is; with whether it moved.\<close>

definition txn_expire :: "int \<Rightarrow> string \<Rightarrow> contracts_db \<Rightarrow> (contracts_db \<times> bool) result" where
  "txn_expire now i d =
     and_then (contract_transition now i Contract_active Contract_expired id d) (\<lambda>(d1, row).
       case row of
         None \<Rightarrow> Inr (d1, False)
       | Some r \<Rightarrow> Inr (schedule_notice \<lparr>cz_recipientId = ec_employeeId r, cz_resourceId = ec_id r, cz_key = Expired_notice (ec_id r)\<rparr>
                       (contract_record None ''contract.expired'' (ec_id r) d1), True))"

fun run_contract :: "int \<Rightarrow> string \<Rightarrow> contract_write \<Rightarrow> contracts_db \<Rightarrow> contracts_db result" where
  "run_contract now new_id (Draft_write input actor) d = txn_draft now new_id input actor d"
| "run_contract now new_id (Patch_write i x actor) d = txn_update now i x actor d"
| "run_contract now new_id (Activate_write c signedAt actor) d = txn_activate now c signedAt actor d"
| "run_contract now new_id (Renew_write outgoing incoming signedAt actor) d = txn_renew now outgoing incoming signedAt actor d"
| "run_contract now new_id (Terminate_write i terminatedOn reason actor) d = txn_terminate now i terminatedOn reason actor d"
| "run_contract now new_id (Expire_write i d_end) d = and_then (txn_expire now i d) (\<lambda>(d1, _). Inr d1)"

section \<open>The sweep and the listings\<close>

definition end_on_or_before :: "iso_date \<Rightarrow> contract \<Rightarrow> bool" where
  "end_on_or_before day c \<longleftrightarrow> (case ec_endDate c of None \<Rightarrow> False | Some t \<Rightarrow> t \<le> day)"

definition by_end_date :: "contract \<Rightarrow> int \<times> string" where
  "by_end_date c = (case ec_endDate c of None \<Rightarrow> (0, ec_id c) | Some t \<Rightarrow> (day_of t, ec_id c))"

definition list_expired :: "iso_date \<Rightarrow> nat \<Rightarrow> contracts_db \<Rightarrow> contract list" where
  "list_expired asOf limit d =
     take limit (sort_key by_end_date (filter (\<lambda>c. ec_status c = Contract_active \<and> end_on_or_before asOf c) (cb_contracts d)))"

definition list_expiring_between :: "iso_date \<Rightarrow> iso_date \<Rightarrow> nat \<Rightarrow> contracts_db \<Rightarrow> contract list" where
  "list_expiring_between d_from d_to limit d =
     take limit (sort_key by_end_date (filter (\<lambda>c. ec_status c = Contract_active \<and> end_on_or_before d_to c \<and>
        (case ec_endDate c of None \<Rightarrow> False | Some t \<Rightarrow> d_from \<le> t)) (cb_contracts d)))"

text \<open>The sweep with nobody in between; a transaction that throws ends it, with what was committed before.\<close>

fun expire_each :: "int \<Rightarrow> contract list \<Rightarrow> nat \<Rightarrow> contracts_db \<Rightarrow> nat result \<times> contracts_db" where
  "expire_each now [] n d = (Inr n, d)"
| "expire_each now (c # cs) n d =
     (case txn_expire now (ec_id c) d of
        Inl e \<Rightarrow> (Inl e, d)
      | Inr (d1, moved) \<Rightarrow> expire_each now cs (if moved then n + 1 else n) d1)"

definition expire_due_contracts :: "int \<Rightarrow> iso_date \<Rightarrow> nat \<Rightarrow> contracts_db \<Rightarrow> nat result \<times> contracts_db" where
  "expire_due_contracts now asOf limit d = expire_each now (list_expired asOf limit d) 0 d"

definition remind_expiring_contracts :: "int \<Rightarrow> iso_date \<Rightarrow> nat \<Rightarrow> contracts_db \<Rightarrow> nat \<times> contracts_db" where
  "remind_expiring_contracts withinDays asOf limit d =
     (let soon = list_expiring_between asOf (iso_of_day (day_of asOf + withinDays)) limit d
      in (length soon,
          foldl (\<lambda>d c. schedule_notice \<lparr>cz_recipientId = ec_employeeId c, cz_resourceId = ec_id c,
                    cz_key = Expiring_notice (ec_id c) withinDays\<rparr> d) d soon))"

record contract_filters =
  cq_employeeId :: "string option"
  cq_status :: "contract_status option"
  cq_contractType :: "contract_type option"
  cq_positionId :: "string option"
  cq_endingOnOrBefore :: "iso_date option"

definition newest_contracts :: "contract list \<Rightarrow> contract list" where
  "newest_contracts = sort_key (\<lambda>c. (- day_of (ec_startDate c), ec_id c))"

definition list_contracts :: "contract_filters \<Rightarrow> nat \<Rightarrow> nat \<Rightarrow> contracts_db \<Rightarrow> contract list \<times> nat" where
  "list_contracts f limit offset d =
     (let found = filter (\<lambda>c.
            (case cq_employeeId f of None \<Rightarrow> True | Some e \<Rightarrow> e = [] \<or> ec_employeeId c = e) \<and>
            (case cq_status f of None \<Rightarrow> True | Some s \<Rightarrow> ec_status c = s) \<and>
            (case cq_contractType f of None \<Rightarrow> True | Some t \<Rightarrow> ec_contractType c = t) \<and>
            (case cq_positionId f of None \<Rightarrow> True | Some p \<Rightarrow> p = [] \<or> ec_positionId c = Some p) \<and>
            (case cq_endingOnOrBefore f of None \<Rightarrow> True
             | Some t \<Rightarrow> ec_status c = Contract_active \<and> end_on_or_before t c)) (cb_contracts d)
      in (take limit (drop offset (newest_contracts found)), length found))"

definition list_contracts_for_employee :: "string \<Rightarrow> contracts_db \<Rightarrow> contract list" where
  "list_contracts_for_employee employeeId d =
     newest_contracts (filter (\<lambda>c. ec_employeeId c = employeeId) (cb_contracts d))"

end
