(* ===== verification/ContractSafety.thy ===== *)
theory ContractSafety
  imports Contracts QualitySafety
begin

text \<open>
  The contract register under many callers and the sweep: the step relation, the invariant, and what the
  renewal and the sweep do to a register that satisfies it. The table's own constraints are one conjunct of
  the invariant: every row satisfies \<open>contract_checks\<close> against the table as it is.
\<close>

section \<open>Calls and steps\<close>

datatype contract_request =
    Draft_contract draft_input
  | Update_contract string contract_patch
  | Activate_contract string "int option"
  | Renew_contract string string "int option"
  | Terminate_contract string iso_date string

fun contract_look :: "iso_date \<Rightarrow> contract_request \<Rightarrow> actor \<Rightarrow> contracts_db \<Rightarrow> contract_write result" where
  "contract_look day (Draft_contract input) actor d = draft_contract input actor d"
| "contract_look day (Update_contract i x) actor d = update_contract i x actor d"
| "contract_look day (Activate_contract i signedAt) actor d = activate_contract day i signedAt actor d"
| "contract_look day (Renew_contract outgoingId incomingId signedAt) actor d =
     renew_contract day outgoingId incomingId signedAt actor d"
| "contract_look day (Terminate_contract i terminatedOn reason) actor d = terminate_contract i terminatedOn reason actor d"

text \<open>One operation with nobody in between.\<close>

definition contract_call ::
    "int \<Rightarrow> iso_date \<Rightarrow> string \<Rightarrow> contract_request \<Rightarrow> actor \<Rightarrow> contracts_db \<Rightarrow> contracts_db result" where
  "contract_call now day new_id req actor d =
     and_then (contract_look day req actor d) (\<lambda>w. run_contract now new_id w d)"

type_synonym contract_world = "contracts_db \<times> contract_write list"

definition fresh_contract :: "string \<Rightarrow> contracts_db \<Rightarrow> bool" where
  "fresh_contract i d \<longleftrightarrow> find_row ec_id i (cb_contracts d) = None"

inductive contract_step :: "contract_world \<Rightarrow> contract_world \<Rightarrow> bool" where
  cs_look: "contract_look day req actor d = Inr w \<Longrightarrow> contract_step (d, ws) (d, w # ws)"
| cs_sweep: "contract_step (d, ws) (d, map (\<lambda>c. Expire_write (ec_id c) asOf) (list_expired asOf limit d) @ ws)"
| cs_commit: "w \<in> set ws \<Longrightarrow> fresh_contract i d \<Longrightarrow> run_contract now i w d = Inr d' \<Longrightarrow>
    contract_step (d, ws) (d', remove1 w ws)"
| cs_stop: "w \<in> set ws \<Longrightarrow> contract_step (d, ws) (d, remove1 w ws)"

inductive contract_reachable :: "contract_world \<Rightarrow> bool" where
  cr_start: "cb_contracts d = [] \<Longrightarrow> contract_reachable (d, [])"
| cr_next: "contract_reachable w \<Longrightarrow> contract_step w w' \<Longrightarrow> contract_reachable w'"

section \<open>The invariant\<close>

definition good_contracts :: "contracts_db \<Rightarrow> bool" where
  "good_contracts d \<longleftrightarrow> keys_distinct ec_id (cb_contracts d) \<and>
     (\<forall>c \<in> set (cb_contracts d). list_all snd (contract_checks d c))"

definition signed_if_active :: "contract \<Rightarrow> bool" where
  "signed_if_active c \<longleftrightarrow> (ec_status c = Contract_active \<longrightarrow> ec_signedAt c \<noteq> None)"

definition binding :: "contract \<Rightarrow> bool" where
  "binding c \<longleftrightarrow> ec_status c \<noteq> Contract_draft"

text \<open>A superseded contract has expired, and the one that replaced it is the employee's and came into force.\<close>

definition succeeded_by :: "contracts_db \<Rightarrow> contract \<Rightarrow> bool" where
  "succeeded_by d c \<longleftrightarrow> (case ec_supersededById c of
     None \<Rightarrow> True
   | Some k \<Rightarrow> ec_status c = Contract_expired \<and>
       list_ex (\<lambda>n. ec_id n = k \<and> ec_employeeId n = ec_employeeId c \<and> binding n) (cb_contracts d))"

definition contracts_sound :: "contracts_db \<Rightarrow> bool" where
  "contracts_sound d \<longleftrightarrow> good_contracts d \<and>
     (\<forall>c \<in> set (cb_contracts d). signed_if_active c \<and> succeeded_by d c)"

text \<open>A contract row does not change hands; a pending renewal is between two contracts of one employee.\<close>

definition held_by :: "contracts_db \<Rightarrow> string \<Rightarrow> string \<Rightarrow> bool" where
  "held_by d i e \<longleftrightarrow> (\<exists>c \<in> set (cb_contracts d). ec_id c = i \<and> ec_employeeId c = e)"

fun pending_ok :: "contracts_db \<Rightarrow> contract_write \<Rightarrow> bool" where
  "pending_ok d (Renew_write outgoing incoming signedAt actor) \<longleftrightarrow> ec_id outgoing \<noteq> ec_id incoming \<and>
     held_by d (ec_id outgoing) (ec_employeeId outgoing) \<and> held_by d (ec_id incoming) (ec_employeeId outgoing)"
| "pending_ok d w \<longleftrightarrow> True"

section \<open>One row\<close>

abbreviation put_contract :: "contract \<Rightarrow> contracts_db \<Rightarrow> contracts_db" where
  "put_contract c d \<equiv> d\<lparr>cb_contracts := replace_row ec_id c (cb_contracts d)\<rparr>"

lemma contract_record_simps [simp]:
  "cb_contracts (contract_record a act i d) = cb_contracts d" "cb_positions (contract_record a act i d) = cb_positions d"
  "cb_notices (contract_record a act i d) = cb_notices d"
  by (simp_all add: contract_record_def)

lemma schedule_notice_simps [simp]:
  "cb_contracts (schedule_notice n d) = cb_contracts d" "cb_positions (schedule_notice n d) = cb_positions d"
  by (simp_all add: schedule_notice_def)

lemma contract_fields [simp]:
  "ec_id (patch_contract now x c) = ec_id c" "ec_employeeId (patch_contract now x c) = ec_employeeId c"
  "ec_status (patch_contract now x c) = ec_status c" "ec_supersededById (patch_contract now x c) = ec_supersededById c"
  "ec_signedAt (patch_contract now x c) = ec_signedAt c"
  "ec_id (new_contract now i input) = i" "ec_status (new_contract now i input) = Contract_draft"
  "ec_supersededById (new_contract now i input) = None" "ec_signedAt (new_contract now i input) = None"
  by (simp_all add: patch_contract_def compensation_columns_def new_contract_def split: option.splits)

lemma get_contract_Inr [simp]: "get_contract i d = Inr c \<longleftrightarrow> find_row ec_id i (cb_contracts d) = Some c"
  by (simp add: get_contract_def split: option.splits)

lemma update_contract_row_Inr:
  assumes "update_contract_row i s f d = Inr (d1, row)" and keys: "keys_distinct ec_id (cb_contracts d)"
    and f: "\<And>c. ec_id (f c) = ec_id c"
  obtains (none) "row = None" "d1 = d"
  | (some) r where "r \<in> set (cb_contracts d)" "ec_id r = i" "ec_status r = s" "row = Some (f r)"
      "list_all snd (contract_checks d (f r))" "d1 = put_contract (f r) d"
proof -
  obtain t where t: "update_returning (contract_checks d) (\<lambda>c. ec_id c = i \<and> ec_status c = s) f (cb_contracts d) = Inr (t, row)"
      and d1: "d1 = d\<lparr>cb_contracts := t\<rparr>"
    using assms(1) by (auto simp: update_contract_row_def and_then_eq_Inr)
  from t show ?thesis
  proof (cases rule: update_returning_Inr)
    case 1
    then show ?thesis using d1 by (intro none) simp_all
  next
    case (2 r)
    have "t = replace_row ec_id (f r) (cb_contracts d)"
      unfolding 2(5) using 2(3) f by (intro update_is_replace [OF keys 2(2)]) simp_all
    then show ?thesis using 2 d1 by (intro some [of r]) simp_all
  qed
qed

text \<open>The checks of a row read the rest of the table only for the one active contract of an employee.\<close>

definition terms_ok :: "string list \<Rightarrow> contract \<Rightarrow> bool" where
  "terms_ok ps c \<longleftrightarrow> list_all (\<lambda>(n, holds). n \<noteq> ''uq_employee_active_contract'' \<longrightarrow> holds)
     (contract_checks \<lparr>cb_contracts = [], cb_positions = ps, cb_notices = [], cb_audit = []\<rparr> c)"

definition only_active :: "contracts_db \<Rightarrow> contract \<Rightarrow> bool" where
  "only_active d c \<longleftrightarrow> (ec_status c = Contract_active \<longrightarrow>
     (\<forall>x \<in> set (cb_contracts d). ec_id x \<noteq> ec_id c \<and> ec_employeeId x = ec_employeeId c \<longrightarrow> ec_status x \<noteq> Contract_active))"

lemma checks_split: "list_all snd (contract_checks d c) \<longleftrightarrow> terms_ok (cb_positions d) c \<and> only_active d c"
proof -
  have "only_active d c = (ec_status c = Contract_active \<longrightarrow>
      \<not> list_ex (\<lambda>x. ec_id x \<noteq> ec_id c \<and> ec_employeeId x = ec_employeeId c \<and> ec_status x = Contract_active) (cb_contracts d))"
    by (auto simp: only_active_def list_ex_iff)
  then show ?thesis by (simp add: contract_checks_def terms_ok_def conj_ac cong: option.case_cong)
qed

lemma checks_put:
  assumes good: "good_contracts d" and r: "r \<in> set (cb_contracts d)" "ec_id c = ec_id r"
    and ok: "list_all snd (contract_checks d c)"
  shows "good_contracts (put_contract c d)"
proof -
  have "only_active (put_contract c d) y \<and> terms_ok (cb_positions d) y"
    if "y \<in> set (replace_row ec_id c (cb_contracts d))" for y
    using set_replace_row [OF that] good ok
    by (auto simp: good_contracts_def checks_split only_active_def dest!: set_replace_row)
  then show ?thesis using good by (simp add: good_contracts_def checks_split)
qed

lemma held_put [simp]:
  assumes "r \<in> set (cb_contracts d)" "ec_id c = ec_id r" "ec_employeeId c = ec_employeeId r" "keys_distinct ec_id (cb_contracts d)"
  shows "held_by (put_contract c d) i e = held_by d i e"
proof -
  have same: "y = r" if "y \<in> set (cb_contracts d)" "ec_id y = ec_id r" for y
    using assms(1,4) that by (auto simp: keys_distinct_def distinct_map dest: inj_onD)
  show ?thesis
    unfolding held_by_def using assms(1-3) same by (auto simp: replace_row_def)
qed

lemma succeeded_put:
  assumes ok: "contracts_sound d" and r: "r \<in> set (cb_contracts d)" "ec_id c = ec_id r" "ec_employeeId c = ec_employeeId r"
    and binding: "binding r \<Longrightarrow> binding c" and y: "y \<in> set (cb_contracts d)"
  shows "succeeded_by (put_contract c d) y"
proof (cases "ec_supersededById y")
  case (Some k)
  then obtain n where n: "n \<in> set (cb_contracts d)" "ec_id n = k" "ec_employeeId n = ec_employeeId y" "binding n"
      and y': "ec_status y = Contract_expired"
    using ok y by (fastforce simp: contracts_sound_def succeeded_by_def list_ex_iff)
  have "\<exists>m \<in> set (replace_row ec_id c (cb_contracts d)). ec_id m = k \<and> ec_employeeId m = ec_employeeId y \<and> binding m"
  proof (cases "ec_id n = ec_id c")
    case True
    then have "n = r" using n(1) r ok by (auto simp: contracts_sound_def good_contracts_def keys_distinct_def distinct_map dest: inj_onD)
    then show ?thesis using n r binding replace_row_new [OF n(1) True] by auto
  next
    case False
    then show ?thesis using replace_row_other [OF n(1) False] n by auto
  qed
  then show ?thesis using Some y' by (simp add: succeeded_by_def list_ex_iff)
qed (simp add: succeeded_by_def)

lemma sound_put:
  assumes ok: "contracts_sound d" and r: "r \<in> set (cb_contracts d)" "ec_id c = ec_id r" "ec_employeeId c = ec_employeeId r"
    and checks: "list_all snd (contract_checks d c)" and signed: "signed_if_active c"
    and binding: "binding r \<Longrightarrow> binding c" and c: "succeeded_by (put_contract c d) c"
  shows "contracts_sound (put_contract c d)"
  unfolding contracts_sound_def
  using checks_put [OF _ r(1,2) checks] succeeded_put [OF ok r binding] ok signed c
  by (auto simp: contracts_sound_def dest!: set_replace_row)

section \<open>The transactions\<close>

text \<open>A move keeps the terms. \<open>ending_set\<close>: both columns of a termination are there.\<close>

definition ending_set :: "contract \<Rightarrow> bool" where
  "ending_set c \<longleftrightarrow> ec_terminatedOn c \<noteq> None \<and> ec_terminationReason c \<noteq> None"

lemma terms_ending: "terms_ok ps c \<Longrightarrow> (ec_status c = Contract_terminated) = ending_set c"
  by (simp add: terms_ok_def contract_checks_def ending_set_def)

lemma terms_moved:
  assumes "terms_ok ps c" "ec_status c \<noteq> Contract_terminated" "s \<noteq> Contract_terminated"
  shows "terms_ok ps (c\<lparr>ec_status := s, ec_updatedAt := now\<rparr>)"
  using assms by (simp add: terms_ok_def contract_checks_def cong: option.case_cong)

lemma terms_signed: "terms_ok ps (c\<lparr>ec_signedAt := x\<rparr>) = terms_ok ps c"
  by (simp add: terms_ok_def contract_checks_def cong: option.case_cong)

lemma terms_superseded: "terms_ok ps c \<Longrightarrow> k \<noteq> ec_id c \<Longrightarrow> terms_ok ps (c\<lparr>ec_supersededById := Some k\<rparr>)"
  by (simp add: terms_ok_def contract_checks_def cong: option.case_cong)

lemma sound_keys: "contracts_sound d \<Longrightarrow> keys_distinct ec_id (cb_contracts d)"
  by (simp add: contracts_sound_def good_contracts_def)

lemma sound_row:
  assumes "contracts_sound d" and "c \<in> set (cb_contracts d)"
  shows "terms_ok (cb_positions d) c" and "only_active d c" and "signed_if_active c" and "succeeded_by d c"
  using assms by (simp_all add: contracts_sound_def good_contracts_def checks_split)

lemma sound_cong:
  "cb_contracts d' = cb_contracts d \<Longrightarrow> cb_positions d' = cb_positions d \<Longrightarrow> contracts_sound d' = contracts_sound d"
  by (simp add: contracts_sound_def good_contracts_def checks_split only_active_def succeeded_by_def cong: option.case_cong)

lemma held_cong: "cb_contracts d' = cb_contracts d \<Longrightarrow> held_by d' = held_by d"
  by (simp add: held_by_def fun_eq_iff)

lemmas same_rows = sound_cong [OF contract_record_simps(1,2)] held_cong [OF contract_record_simps(1)]
  sound_cong [OF schedule_notice_simps] held_cong [OF schedule_notice_simps(1)]

declare same_rows [simp]

text \<open>What a guarded update keeps. \<open>keeps_contracts\<close> is what the pending writes rely on.\<close>

definition keeps_contracts :: "contracts_db \<Rightarrow> contracts_db \<Rightarrow> bool" where
  "keeps_contracts d d' \<longleftrightarrow> contracts_sound d' \<and> cb_positions d' = cb_positions d \<and> (\<forall>i e. held_by d i e \<longrightarrow> held_by d' i e)"

lemma keeps_refl: "contracts_sound d \<Longrightarrow> keeps_contracts d d"
  by (simp add: keeps_contracts_def)

lemma keeps_trans: "keeps_contracts d d' \<Longrightarrow> keeps_contracts d' d'' \<Longrightarrow> keeps_contracts d d''"
  by (simp add: keeps_contracts_def)

lemma keeps_log [simp]:
  "keeps_contracts d (contract_record a act i d') = keeps_contracts d d'"
  "keeps_contracts d (schedule_notice n d') = keeps_contracts d d'"
  by (simp_all add: keeps_contracts_def)

lemma keeps_put:
  assumes "contracts_sound d" and "r \<in> set (cb_contracts d)" "ec_id c = ec_id r" "ec_employeeId c = ec_employeeId r"
    and "list_all snd (contract_checks d c)" "signed_if_active c" "binding r \<Longrightarrow> binding c"
    and "succeeded_by (put_contract c d) c"
  shows "keeps_contracts d (put_contract c d)"
  using sound_put [OF assms] held_put [OF assms(2-4) sound_keys [OF assms(1)]] by (simp add: keeps_contracts_def)

text \<open>Only an expired contract is superseded, so a row that is in force or a draft has no successor.\<close>

lemma no_successor:
  "contracts_sound d \<Longrightarrow> r \<in> set (cb_contracts d) \<Longrightarrow> ec_status r \<noteq> Contract_expired \<Longrightarrow> ec_supersededById r = None"
  using sound_row(4) by (fastforce simp: succeeded_by_def split: option.splits)

lemma keeps_move:
  assumes ok: "contracts_sound d" and t: "contract_transition now i s s' f d = Inr (d1, row)"
    and f: "\<And>c. ec_id (f c) = ec_id c" "\<And>c. ec_employeeId (f c) = ec_employeeId c" "\<And>c. ec_status (f c) = ec_status c"
      "\<And>c. ec_supersededById (f c) = ec_supersededById c" "\<And>c. s' = Contract_active \<Longrightarrow> ec_signedAt (f c) \<noteq> None"
    and move: "s \<noteq> Contract_expired" "s' \<noteq> Contract_draft"
  shows "keeps_contracts d d1"
proof -
  have same: "\<And>c. ec_id (f (c\<lparr>ec_status := s', ec_updatedAt := now\<rparr>)) = ec_id c" by (simp add: f)
  from t [unfolded contract_transition_def] sound_keys [OF ok] same show ?thesis
  proof (cases rule: update_contract_row_Inr)
    case (some r)
    let ?c = "f (r\<lparr>ec_status := s', ec_updatedAt := now\<rparr>)"
    have "ec_supersededById ?c = None" using no_successor [OF ok some(1)] some(3) move f by simp
    then have "succeeded_by (put_contract ?c d) ?c" by (simp add: succeeded_by_def)
    then show ?thesis unfolding some(6) using some f move
      by (intro keeps_put [OF ok some(1)]) (simp_all add: signed_if_active_def binding_def)
  qed (use ok in \<open>simp add: keeps_refl\<close>)
qed

lemma keeps_draft:
  assumes ok: "contracts_sound d" and fresh: "fresh_contract i d" and run: "txn_draft now i input actor d = Inr d'"
  shows "keeps_contracts d d'"
proof -
  let ?c = "new_contract now i input"
  have d': "d' = contract_record (Some (ac_sub actor)) ''contract.drafted'' i (d\<lparr>cb_contracts := cb_contracts d @ [?c]\<rparr>)"
      and checks: "terms_ok (cb_positions d) ?c"
    using run by (auto simp: txn_draft_def and_then_eq_Inr Let_def checked_Inr checks_split split: if_splits)
  have keys: "keys_distinct ec_id (cb_contracts d @ [?c])"
    using sound_keys [OF ok] fresh by (auto simp: keys_distinct_def fresh_contract_def find_row_None_iff)
  let ?d = "d\<lparr>cb_contracts := cb_contracts d @ [?c]\<rparr>"
  have old: "terms_ok (cb_positions d) y \<and> only_active ?d y \<and> signed_if_active y \<and> succeeded_by ?d y"
    if "y \<in> set (cb_contracts d)" for y
    using sound_row [OF ok that] by (auto simp: only_active_def succeeded_by_def split: option.splits)
  have new: "only_active ?d ?c \<and> signed_if_active ?c \<and> succeeded_by ?d ?c"
    by (simp add: only_active_def signed_if_active_def succeeded_by_def)
  have "contracts_sound ?d"
    using keys old new checks by (auto simp: contracts_sound_def good_contracts_def checks_split)
  then show ?thesis unfolding d' by (auto simp: keeps_contracts_def held_by_def)
qed

lemma keeps_update:
  assumes ok: "contracts_sound d" and run: "txn_update now i x actor d = Inr d'"
  shows "keeps_contracts d d'"
proof -
  obtain d1 row where u: "update_contract_row i Contract_draft (patch_contract now x) d = Inr (d1, row)"
      and d': "d' = contract_record (Some (ac_sub actor)) ''contract.updated'' i d1"
    using run by (auto simp: txn_update_def and_then_eq_Inr split: option.splits)
  from u sound_keys [OF ok] contract_fields(1) have "keeps_contracts d d1"
  proof (cases rule: update_contract_row_Inr)
    case (some r)
    have "ec_supersededById r = None" using no_successor [OF ok some(1)] some(3) by simp
    then show ?thesis unfolding some(6) using some
      by (intro keeps_put [OF ok some(1)]) (simp_all add: signed_if_active_def binding_def succeeded_by_def)
  qed (use ok in \<open>simp add: keeps_refl\<close>)
  then show ?thesis by (simp add: d')
qed


lemma moved_row:
  assumes ok: "contracts_sound d" and t: "contract_transition now i s s' f d = Inr (d1, Some c)"
    and f: "\<And>c. ec_id (f c) = ec_id c" "\<And>c. ec_status (f c) = ec_status c"
  obtains r where "r \<in> set (cb_contracts d)" "ec_id r = i" "ec_status r = s" "c = f (r\<lparr>ec_status := s', ec_updatedAt := now\<rparr>)"
    "d1 = put_contract c d" "c \<in> set (cb_contracts d1)" "ec_id c = i" "ec_status c = s'"
    "list_all snd (contract_checks d c)"
proof -
  have same: "\<And>c. ec_id (f (c\<lparr>ec_status := s', ec_updatedAt := now\<rparr>)) = ec_id c" by (simp add: f)
  from t [unfolded contract_transition_def] sound_keys [OF ok] same show ?thesis
  proof (cases rule: update_contract_row_Inr)
    case (some r)
    then show ?thesis using that [of r] f replace_row_new [OF some(1), of ec_id c] by simp
  qed simp
qed

lemma keeps_activate:
  assumes ok: "contracts_sound d" and run: "activate_within now c signedAt actor action d = Inr (d2, a)"
  shows "keeps_contracts d d2" and "a \<in> set (cb_contracts d2)" and "ec_id a = ec_id c" and "binding a"
proof -
  let ?signed = "keep signedAt (keep (ec_signedAt c) now)"
  obtain d1 where t: "contract_transition now (ec_id c) Contract_draft Contract_active (\<lambda>r. r\<lparr>ec_signedAt := Some ?signed\<rparr>) d
        = Inr (d1, Some a)"
      and d2: "d2 = contract_record (Some (ac_sub actor)) action (ec_id a) d1"
    using run by (auto simp: activate_within_def and_then_eq_Inr split: option.splits)
  show "keeps_contracts d d2" using keeps_move [OF ok t] by (simp add: d2)
  have "a \<in> set (cb_contracts d1) \<and> ec_id a = ec_id c \<and> ec_status a = Contract_active"
    by (rule moved_row [OF ok t]) simp_all
  then show "a \<in> set (cb_contracts d2)" "ec_id a = ec_id c" "binding a"
    by (simp_all add: d2 binding_def)
qed

lemma same_holder:
  assumes "contracts_sound d" and "c \<in> set (cb_contracts d)" and "held_by d (ec_id c) e"
  shows "ec_employeeId c = e"
  using assms sound_keys [OF assms(1)] by (auto simp: held_by_def keys_distinct_def distinct_map dest: inj_onD)

lemma keeps_renew:
  assumes ok: "contracts_sound d" and pending: "pending_ok d (Renew_write outgoing incoming signedAt actor)"
    and run: "txn_renew now outgoing incoming signedAt actor d = Inr d'"
  shows "keeps_contracts d d'"
proof -
  obtain d1 gone d2 a row where
      t1: "contract_transition now (ec_id outgoing) Contract_active Contract_expired id d = Inr (d1, Some gone)"
      and t2: "activate_within now incoming signedAt actor ''contract.renewed'' d1 = Inr (d2, a)"
      and t3: "contract_transition now (ec_id gone) Contract_expired Contract_expired
                 (\<lambda>r. r\<lparr>ec_supersededById := Some (ec_id a)\<rparr>) d2 = Inr (d', row)"
    using run by (auto simp: txn_renew_def and_then_eq_Inr split: option.splits)
  have k1: "keeps_contracts d d1" using keeps_move [OF ok t1] by simp
  then have ok1: "contracts_sound d1" by (simp add: keeps_contracts_def)
  note act = keeps_activate [OF ok1 t2]
  have k2: "keeps_contracts d d2" using keeps_trans [OF k1 act(1)] .
  then have ok2: "contracts_sound d2" by (simp add: keeps_contracts_def)
  have gone: "ec_id gone = ec_id outgoing" by (rule moved_row [OF ok t1]) simp_all
  have held: "held_by d2 (ec_id outgoing) (ec_employeeId outgoing)" "held_by d2 (ec_id incoming) (ec_employeeId outgoing)"
    using pending k2 by (simp_all add: keeps_contracts_def)
  have "keeps_contracts d2 d'"
  proof (cases row)
    case None
    then have "d' = d2"
      using t3 by (auto simp: contract_transition_def update_contract_row_def and_then_eq_Inr update_returning_def split: option.splits)
    then show ?thesis using keeps_refl [OF ok2] by simp
  next
    case (Some c)
    obtain r where r: "r \<in> set (cb_contracts d2)" "ec_id r = ec_id gone"
        "ec_status r = Contract_expired" "c = (r\<lparr>ec_status := Contract_expired, ec_updatedAt := now\<rparr>)\<lparr>ec_supersededById := Some (ec_id a)\<rparr>"
        "d' = put_contract c d2" "list_all snd (contract_checks d2 c)"
      by (rule moved_row [OF ok2 t3 [unfolded Some]]) auto
    have "ec_employeeId r = ec_employeeId outgoing" "ec_employeeId a = ec_employeeId outgoing"
      using same_holder [OF ok2 r(1)] same_holder [OF ok2 act(2)] held r(2) gone act(3) by simp_all
    moreover have "ec_id a \<noteq> ec_id c" using pending act(3) r gone by auto
    ultimately have "succeeded_by (put_contract c d2) c"
      using replace_row_other [OF act(2), of ec_id c] act(4) r(4) by (auto simp: succeeded_by_def list_ex_iff)
    then show ?thesis unfolding r(5) using r
      by (intro keeps_put [OF ok2 r(1)]) (simp_all add: signed_if_active_def binding_def)
  qed
  then show ?thesis using keeps_trans [OF k2] by blast
qed

lemma keeps_run:
  assumes ok: "contracts_sound d" and fresh: "fresh_contract i d" and pending: "pending_ok d w"
    and run: "run_contract now i w d = Inr d'"
  shows "keeps_contracts d d'"
proof (cases w)
  case (Draft_write input actor)
  then show ?thesis using keeps_draft [OF ok fresh] run by simp
next
  case (Patch_write k x actor)
  then show ?thesis using keeps_update [OF ok] run by simp
next
  case (Activate_write c signedAt actor)
  then show ?thesis using keeps_activate(1) [OF ok] run by (auto simp: txn_activate_def and_then_eq_Inr split: if_splits)
next
  case (Renew_write outgoing incoming signedAt actor)
  then show ?thesis using keeps_renew [OF ok] pending run by simp
next
  case (Terminate_write k terminatedOn reason actor)
  let ?f = "\<lambda>r. r\<lparr>ec_terminatedOn := Some terminatedOn, ec_terminationReason := Some reason\<rparr>"
  obtain d1 row where t: "contract_transition now k Contract_active Contract_terminated ?f d = Inr (d1, row)"
      and d': "d' = contract_record (Some (ac_sub actor)) ''contract.terminated'' k d1"
    using run Terminate_write by (auto simp: txn_terminate_def and_then_eq_Inr split: option.splits)
  show ?thesis using keeps_move [OF ok t] by (simp add: d')
next
  case (Expire_write k asOf)
  then obtain d1 row where t: "contract_transition now k Contract_active Contract_expired id d = Inr (d1, row)"
      and "keeps_contracts d d' = keeps_contracts d d1"
    using run by (auto simp: txn_expire_def and_then_eq_Inr split: option.splits)
  then show ?thesis using keeps_move [OF ok t] by simp
qed

lemma look_pending: "contract_look day req actor d = Inr w \<Longrightarrow> pending_ok d w"
  by (cases req)
     (auto simp: draft_contract_def update_contract_def activate_contract_def renew_contract_def terminate_contract_def
        and_then_eq_Inr held_by_def split: if_splits dest!: find_row_Some)

lemma pending_keeps: "pending_ok d w \<Longrightarrow> keeps_contracts d d' \<Longrightarrow> pending_ok d' w"
  by (cases w) (simp_all add: keeps_contracts_def)

lemma reachable_contracts:
  "contract_reachable w \<Longrightarrow> contracts_sound (fst w) \<and> (\<forall>p \<in> set (snd w). pending_ok (fst w) p)"
proof (induction rule: contract_reachable.induct)
  case (cr_start d)
  then show ?case by (simp add: contracts_sound_def good_contracts_def keys_distinct_def)
next
  case (cr_next w w')
  from cr_next(2) show ?case
  proof cases
    case (cs_look day req actor d p ws)
    then show ?thesis using cr_next(3) look_pending by auto
  next
    case (cs_sweep d ws asOf limit)
    then show ?thesis using cr_next(3) by auto
  next
    case (cs_commit p ws i d now d')
    then have kept: "keeps_contracts d d'" using keeps_run [of d i p now d'] cr_next(3) by simp
    then have "pending_ok d' q" if "q \<in> set (remove1 p ws)" for q
      using pending_keeps cs_commit(1) cr_next(3) that notin_set_remove1 by fastforce
    then show ?thesis using cs_commit kept by (simp add: keeps_contracts_def)
  next
    case (cs_stop p ws d)
    then show ?thesis using cr_next(3) by (auto dest: notin_set_remove1)
  qed
qed

end
