(* ===== verification/ContractProperties.thy ===== *)
theory ContractProperties
  imports ContractSafety
begin

text \<open>
  What the contract register promises: the invariant under interleaved calls and sweeps, the renewal against
  its specification, and the sweep against its own.
\<close>

section \<open>The invariant\<close>

text \<open>C31. However calls and sweeps interleave, an employee holds at most one active contract, every row satisfies
  the constraints of the table, an active contract is signed, and a superseded one has expired and names a
  contract of the same employee that came into force.\<close>

theorem contracts_stay_sound:
  assumes "contract_reachable (d, ws)"
  shows "contracts_sound d \<and>
    (\<forall>c \<in> set (cb_contracts d). \<forall>c' \<in> set (cb_contracts d).
       ec_status c = Contract_active \<and> ec_status c' = Contract_active \<and> ec_employeeId c = ec_employeeId c' \<longrightarrow> c = c')"
proof (intro conjI ballI impI)
  show ok: "contracts_sound d" using reachable_contracts [OF assms(1)] by simp
  fix c c' assume c: "c \<in> set (cb_contracts d)" "c' \<in> set (cb_contracts d)"
    and both: "ec_status c = Contract_active \<and> ec_status c' = Contract_active \<and> ec_employeeId c = ec_employeeId c'"
  have "ec_id c = ec_id c'" using sound_row(2) [OF ok c(1)] c both by (auto simp: only_active_def)
  then show "c = c'" using sound_keys [OF ok] c by (auto simp: keys_distinct_def distinct_map dest: inj_onD)
qed

section \<open>A guarded update that finds its row\<close>

lemma find_the:
  assumes "keys_distinct key t" and "r \<in> set t" "p r" and "\<And>x. p x \<Longrightarrow> key x = key r"
  shows "find p t = Some r"
proof (cases "find p t")
  case None
  then show ?thesis using assms(2,3) by (auto simp: find_None_iff)
next
  case (Some x)
  then have "x \<in> set t" "p x" by (auto simp: find_Some_iff)
  then show ?thesis using Some assms by (auto simp: keys_distinct_def distinct_map dest: inj_onD)
qed

lemma one_contract_per_id:
  "contracts_sound d \<Longrightarrow> c \<in> set (cb_contracts d) \<Longrightarrow> c' \<in> set (cb_contracts d) \<Longrightarrow> ec_id c = ec_id c' \<Longrightarrow> c = c'"
  using sound_keys [of d] by (auto simp: keys_distinct_def distinct_map dest: inj_onD)

lemma transition_found:
  assumes ok: "contracts_sound d" and r: "r \<in> set (cb_contracts d)" "ec_id r = i" "ec_status r = s"
    and f: "\<And>x. ec_id (f x) = ec_id x" and c: "c = f (r\<lparr>ec_status := s', ec_updatedAt := now\<rparr>)"
    and checks: "terms_ok (cb_positions d) c" "only_active d c"
  shows "contract_transition now i s s' f d = Inr (put_contract c d, Some c)"
proof -
  let ?p = "\<lambda>x. ec_id x = i \<and> ec_status x = s" and ?f = "\<lambda>x. f (x\<lparr>ec_status := s', ec_updatedAt := now\<rparr>)"
  have "find ?p (cb_contracts d) = Some r" by (rule find_the [OF sound_keys [OF ok] r(1)]) (use r in simp_all)
  moreover have "update_where ?p ?f (cb_contracts d) = replace_row ec_id c (cb_contracts d)"
    unfolding c by (rule update_is_replace [OF sound_keys [OF ok] r(1)]) (use r f in simp_all)
  moreover have "checked (contract_checks d c) = Inr ()" using checks by (simp add: checked_Inr checks_split)
  ultimately show ?thesis
    by (simp add: contract_transition_def update_contract_row_def update_returning_def c)
qed

section \<open>Renewal\<close>

definition may_renew :: "iso_date \<Rightarrow> string \<Rightarrow> string \<Rightarrow> int option \<Rightarrow> contracts_db \<Rightarrow> bool" where
  "may_renew day outgoingId incomingId signedAt d \<longleftrightarrow> outgoingId \<noteq> incomingId \<and>
     (case (find_row ec_id outgoingId (cb_contracts d), find_row ec_id incomingId (cb_contracts d)) of
        (Some out, Some inc) \<Rightarrow> ec_employeeId out = ec_employeeId inc \<and> ec_status out = Contract_active \<and>
          ec_status inc = Contract_draft \<and> \<not> (ec_signedAt inc = None \<and> signedAt = None) \<and>
          \<not> ec_startDate inc < ec_startDate out \<and> (case ec_endDate inc of None \<Rightarrow> True | Some t \<Rightarrow> \<not> t < day)
      | _ \<Rightarrow> False)"

definition renewed :: "int \<Rightarrow> string \<Rightarrow> string \<Rightarrow> int option \<Rightarrow> contract \<Rightarrow> contract" where
  "renewed now outgoingId incomingId signedAt c =
     (if ec_id c = outgoingId
      then c\<lparr>ec_status := Contract_expired, ec_supersededById := Some incomingId, ec_updatedAt := now\<rparr>
      else if ec_id c = incomingId
      then c\<lparr>ec_status := Contract_active, ec_signedAt := Some (keep signedAt (keep (ec_signedAt c) now)), ec_updatedAt := now\<rparr>
      else c)"

lemma renewal_goes_through:
  assumes ok: "contracts_sound d" and out: "out \<in> set (cb_contracts d)" "ec_status out = Contract_active"
    and inc: "inc \<in> set (cb_contracts d)" "ec_status inc = Contract_draft" "ec_employeeId inc = ec_employeeId out"
  shows "txn_renew now out inc signedAt actor d = Inr (contract_record (Some (ac_sub actor)) ''contract.renewed'' (ec_id inc)
    (d\<lparr>cb_contracts := map (renewed now (ec_id out) (ec_id inc) signedAt) (cb_contracts d)\<rparr>))"
proof -
  have diff: "ec_id inc \<noteq> ec_id out"
    using one_contract_per_id [OF ok inc(1) out(1)] out(2) inc(2) by auto
  define c1 where "c1 = out\<lparr>ec_status := Contract_expired, ec_updatedAt := now\<rparr>"
  define c2 where "c2 = inc\<lparr>ec_status := Contract_active, ec_updatedAt := now,
    ec_signedAt := Some (keep signedAt (keep (ec_signedAt inc) now))\<rparr>"
  define c3 where "c3 = c1\<lparr>ec_status := Contract_expired, ec_updatedAt := now, ec_supersededById := Some (ec_id c2)\<rparr>"
  define d1 where "d1 = put_contract c1 d"
  define d2 where "d2 = contract_record (Some (ac_sub actor)) ''contract.renewed'' (ec_id inc) (put_contract c2 d1)"
  have terms: "terms_ok (cb_positions d) c1" "terms_ok (cb_positions d) c2" "terms_ok (cb_positions d) c3"
  proof -
    show c1: "terms_ok (cb_positions d) c1"
      unfolding c1_def by (rule terms_moved) (use sound_row(1) [OF ok out(1)] out(2) in simp_all)
    show "terms_ok (cb_positions d) c2"
      unfolding c2_def terms_signed by (rule terms_moved) (use sound_row(1) [OF ok inc(1)] inc(2) in simp_all)
    show "terms_ok (cb_positions d) c3"
      unfolding c3_def by (rule terms_superseded, rule terms_moved [OF c1]) (use diff in \<open>simp_all add: c1_def c2_def\<close>)
  qed
  have t1: "contract_transition now (ec_id out) Contract_active Contract_expired id d = Inr (d1, Some c1)"
    unfolding d1_def using terms(1) by (intro transition_found [OF ok out(1)]) (simp_all add: out c1_def only_active_def)
  have ok1: "contracts_sound d1" using keeps_move [OF ok t1] by (simp add: keeps_contracts_def)
  have inc1: "inc \<in> set (cb_contracts d1)"
    unfolding d1_def using inc(1) diff by (auto intro!: replace_row_other simp: c1_def)
  have only: "only_active d1 c2"
    using sound_row(2) [OF ok out(1)] out(2) inc(3)
    by (auto simp: only_active_def d1_def c1_def c2_def dest!: set_replace_row)
  have t2: "contract_transition now (ec_id inc) Contract_draft Contract_active
      (\<lambda>r. r\<lparr>ec_signedAt := Some (keep signedAt (keep (ec_signedAt inc) now))\<rparr>) d1 = Inr (put_contract c2 d1, Some c2)"
    using terms(2) only by (intro transition_found [OF ok1 inc1]) (simp_all add: inc c2_def d1_def)
  then have a: "activate_within now inc signedAt actor ''contract.renewed'' d1 = Inr (d2, c2)"
    by (simp add: activate_within_def d2_def c2_def)
  have ok2: "contracts_sound d2" using keeps_activate(1) [OF ok1 a] by (simp add: keeps_contracts_def)
  have "c1 \<in> set (cb_contracts d1)" unfolding d1_def using out(1) by (auto intro!: replace_row_new simp: c1_def)
  then have out2: "c1 \<in> set (cb_contracts d2)"
    unfolding d2_def using diff by (auto intro!: replace_row_other simp: c1_def c2_def)
  have t3: "contract_transition now (ec_id out) Contract_expired Contract_expired
      (\<lambda>r. r\<lparr>ec_supersededById := Some (ec_id c2)\<rparr>) d2 = Inr (put_contract c3 d2, Some c3)"
    using terms(3) by (intro transition_found [OF ok2 out2]) (simp_all add: c1_def c3_def d2_def d1_def only_active_def)
  have same: "x = out" if "x \<in> set (cb_contracts d)" "ec_id x = ec_id out" for x
    using one_contract_per_id [OF ok that(1) out(1) that(2)] .
  have same': "x = inc" if "x \<in> set (cb_contracts d)" "ec_id x = ec_id inc" for x
    using one_contract_per_id [OF ok that(1) inc(1) that(2)] .
  have "(if ec_id x = ec_id out then c3 else if ec_id x = ec_id inc then c2 else x)
      = renewed now (ec_id out) (ec_id inc) signedAt x" if x: "x \<in> set (cb_contracts d)" for x
    using same [OF x] same' [OF x] diff by (cases "x = out"; cases "x = inc") (auto simp: renewed_def c1_def c2_def c3_def)
  moreover have "cb_contracts (put_contract c3 d2) =
      map (\<lambda>x. if ec_id x = ec_id out then c3 else if ec_id x = ec_id inc then c2 else x) (cb_contracts d)"
    using diff by (auto simp: d2_def d1_def replace_row_def c1_def c2_def c3_def)
  ultimately have "cb_contracts (put_contract c3 d2) = map (renewed now (ec_id out) (ec_id inc) signedAt) (cb_contracts d)"
    by (simp cong: map_cong)
  then have "put_contract c3 d2 = contract_record (Some (ac_sub actor)) ''contract.renewed'' (ec_id inc)
    (d\<lparr>cb_contracts := map (renewed now (ec_id out) (ec_id inc) signedAt) (cb_contracts d)\<rparr>)"
    by (simp add: d2_def d1_def contract_record_def)
  then show ?thesis using t1 a t3 by (simp add: txn_renew_def c1_def)
qed

text \<open>C32. Renewal is one act: the call succeeds exactly when both contracts are the employee's, the old one is active,
  the new one is a signed draft that has not ended and does not start earlier; then the old contract has expired
  and names its successor, the new one is active and signed, no other row changes and one audit entry is written.
  In every other case the database is as it was.\<close>

theorem renewal_is_one_act:
  assumes "contracts_sound d"
  shows "contract_call now day new_id (Renew_contract outgoingId incomingId signedAt) actor d = Inr d' \<longleftrightarrow>
    may_renew day outgoingId incomingId signedAt d \<and>
    d' = contract_record (Some (ac_sub actor)) ''contract.renewed'' incomingId
           (d\<lparr>cb_contracts := map (renewed now outgoingId incomingId signedAt) (cb_contracts d)\<rparr>)"
    (is "?call = Inr d' \<longleftrightarrow> ?may \<and> d' = ?result")
proof -
  have look: "renew_contract day outgoingId incomingId signedAt actor d = Inr w \<longleftrightarrow> ?may \<and>
      (\<exists>out inc. find_row ec_id outgoingId (cb_contracts d) = Some out \<and>
         find_row ec_id incomingId (cb_contracts d) = Some inc \<and> w = Renew_write out inc signedAt actor)" for w
    by (auto simp: renew_contract_def may_renew_def and_then_eq_Inr assert_activatable_def assert_date_order_def
        split: if_splits option.splits)
  have "?call = Inr ?result" if ?may
  proof -
    from that obtain out inc where found: "find_row ec_id outgoingId (cb_contracts d) = Some out"
        "find_row ec_id incomingId (cb_contracts d) = Some inc"
        and "ec_employeeId inc = ec_employeeId out" "ec_status out = Contract_active" "ec_status inc = Contract_draft"
      by (auto simp: may_renew_def split: option.splits)
    moreover have "out \<in> set (cb_contracts d)" "ec_id out = outgoingId" "inc \<in> set (cb_contracts d)" "ec_id inc = incomingId"
      using found by (auto dest: find_row_Some)
    ultimately have "txn_renew now out inc signedAt actor d = Inr ?result"
      using renewal_goes_through [OF assms, of out inc] by simp
    moreover have "renew_contract day outgoingId incomingId signedAt actor d = Inr (Renew_write out inc signedAt actor)"
      using look that found by blast
    ultimately show ?thesis by (simp add: contract_call_def)
  qed
  moreover have ?may if "?call = Inr d'"
    using that look by (auto simp: contract_call_def and_then_eq_Inr)
  ultimately show ?thesis by (metis Inr_inject)
qed

section \<open>The sweep\<close>

definition due :: "iso_date \<Rightarrow> contract \<Rightarrow> bool" where
  "due asOf c \<longleftrightarrow> ec_status c = Contract_active \<and> end_on_or_before asOf c"

definition expired :: "int \<Rightarrow> contract \<Rightarrow> contract" where
  "expired now c = c\<lparr>ec_status := Contract_expired, ec_updatedAt := now\<rparr>"

lemma expired_fields [simp]:
  "ec_id (expired now c) = ec_id c" "ec_employeeId (expired now c) = ec_employeeId c"
  "ec_status (expired now c) = Contract_expired"
  by (simp_all add: expired_def)

lemma schedule_announces:
  "set (map cz_key (cb_notices (schedule_notice n d))) = insert (cz_key n) (set (map cz_key (cb_notices d)))"
  by (auto simp: schedule_notice_def find_row_None_iff intro: rev_image_eqI)

lemma schedule_once: "keys_distinct cz_key (cb_notices d) \<Longrightarrow> keys_distinct cz_key (cb_notices (schedule_notice n d))"
  by (simp add: schedule_notice_def keys_distinct_append_one)

lemma expire_one:
  assumes ok: "contracts_sound d" and c: "c \<in> set (cb_contracts d)" "ec_status c = Contract_active"
  obtains d1 where "txn_expire now (ec_id c) d = Inr (d1, True)" "contracts_sound d1"
    "cb_contracts d1 = replace_row ec_id (expired now c) (cb_contracts d)"
    "set (map cz_key (cb_notices d1)) = insert (Expired_notice (ec_id c)) (set (map cz_key (cb_notices d)))"
    "keys_distinct cz_key (cb_notices d) \<Longrightarrow> keys_distinct cz_key (cb_notices d1)"
proof -
  let ?c = "expired now c"
  have "terms_ok (cb_positions d) ?c"
    unfolding expired_def by (rule terms_moved) (use sound_row(1) [OF ok c(1)] c(2) in simp_all)
  then have t: "contract_transition now (ec_id c) Contract_active Contract_expired id d = Inr (put_contract ?c d, Some ?c)"
    by (intro transition_found [OF ok c(1)]) (simp_all add: c expired_def only_active_def)
  have "contracts_sound (put_contract ?c d)" using keeps_move [OF ok t] by (simp add: keeps_contracts_def)
  then show ?thesis using that t schedule_announces schedule_once
    by (auto simp: txn_expire_def)
qed

lemma expire_each_runs:
  assumes "contracts_sound d" and "set cs \<subseteq> set (cb_contracts d)" and "distinct (map ec_id cs)"
    and "\<forall>c \<in> set cs. ec_status c = Contract_active"
  shows "\<exists>d'. expire_each now cs n d = (Inr (n + length cs), d') \<and>
    cb_contracts d' = map (\<lambda>c. if c \<in> set cs then expired now c else c) (cb_contracts d) \<and>
    set (map cz_key (cb_notices d')) = Expired_notice ` ec_id ` set cs \<union> set (map cz_key (cb_notices d)) \<and>
    (keys_distinct cz_key (cb_notices d) \<longrightarrow> keys_distinct cz_key (cb_notices d'))"
  using assms
proof (induction cs arbitrary: n d)
  case (Cons c cs)
  then have c: "c \<in> set (cb_contracts d)" "ec_status c = Contract_active" by simp_all
  obtain d1 where run: "txn_expire now (ec_id c) d = Inr (d1, True)" and ok1: "contracts_sound d1"
    and rows: "cb_contracts d1 = replace_row ec_id (expired now c) (cb_contracts d)"
    and notices: "set (map cz_key (cb_notices d1)) = insert (Expired_notice (ec_id c)) (set (map cz_key (cb_notices d)))"
    and once: "keys_distinct cz_key (cb_notices d) \<Longrightarrow> keys_distinct cz_key (cb_notices d1)"
    using expire_one [OF Cons.prems(1) c] by metis
  have sub: "set cs \<subseteq> set (cb_contracts d1)"
  proof
    fix x assume x: "x \<in> set cs"
    then have "ec_id x \<in> ec_id ` set cs" by simp
    then have "ec_id x \<noteq> ec_id c" using Cons.prems(3) by (metis list.map(2) distinct.simps(2) list.set_map)
    moreover have "x \<in> set (cb_contracts d)" using x Cons.prems(2) by auto
    ultimately show "x \<in> set (cb_contracts d1)" unfolding rows by (intro replace_row_other) simp_all
  qed
  obtain d' where d': "expire_each now cs (n + 1) d1 = (Inr (n + 1 + length cs), d')"
      "cb_contracts d' = map (\<lambda>c. if c \<in> set cs then expired now c else c) (cb_contracts d1)"
      "set (map cz_key (cb_notices d')) = Expired_notice ` ec_id ` set cs \<union> set (map cz_key (cb_notices d1))"
      "keys_distinct cz_key (cb_notices d1) \<longrightarrow> keys_distinct cz_key (cb_notices d')"
    using Cons.IH [OF ok1 sub, of "n + 1"] Cons.prems(3,4) by auto
  have "(if (if ec_id x = ec_id (expired now c) then expired now c else x) \<in> set cs
          then expired now (if ec_id x = ec_id (expired now c) then expired now c else x)
          else if ec_id x = ec_id (expired now c) then expired now c else x)
      = (if x \<in> set (c # cs) then expired now x else x)" if x: "x \<in> set (cb_contracts d)" for x
  proof (cases "x = c")
    case True
    have "expired now c \<notin> set cs" using Cons.prems(4) by (auto dest: bspec)
    then show ?thesis using True by simp
  next
    case False
    then have "ec_id x \<noteq> ec_id c" using one_contract_per_id [OF Cons.prems(1) x c(1)] by blast
    then show ?thesis using False by simp
  qed
  then have "cb_contracts d' = map (\<lambda>x. if x \<in> set (c # cs) then expired now x else x) (cb_contracts d)"
    unfolding d'(2) rows replace_row_def map_map comp_def by (intro map_cong) simp_all
  then show ?case using run d'(1,3,4) notices once by simp
qed simp

text \<open>C33. The sweep of a day expires the active contracts whose end date is that day or earlier, so a
  contract is expired on its last day. (The comments on the sweep say that it takes contracts whose end
  date has passed; the code is one day earlier than that.) With room
  for all of them none fails, the count is theirs, exactly those become expired and everything else
  stays, each has been announced and no announcement is queued twice, and a second sweep of the same day
  finds nothing.\<close>

theorem sweep_expires_what_is_due:
  assumes "contracts_sound d" and "length (filter (due asOf) (cb_contracts d)) \<le> limit"
    and "keys_distinct cz_key (cb_notices d)"
  shows "(\<forall>c. due asOf c \<longleftrightarrow> ec_status c = Contract_active \<and> (\<exists>e. ec_endDate c = Some e \<and> e \<le> asOf)) \<and>
    (\<exists>d'. expire_due_contracts now asOf limit d = (Inr (length (filter (due asOf) (cb_contracts d))), d') \<and>
    cb_contracts d' = map (\<lambda>c. if due asOf c then expired now c else c) (cb_contracts d) \<and>
    set (map cz_key (cb_notices d')) =
      set (map (\<lambda>c. Expired_notice (ec_id c)) (filter (due asOf) (cb_contracts d))) \<union> set (map cz_key (cb_notices d)) \<and>
    keys_distinct cz_key (cb_notices d') \<and> expire_due_contracts later asOf limit d' = (Inr 0, d'))"
proof (rule conjI)
  show "\<forall>c. due asOf c \<longleftrightarrow> ec_status c = Contract_active \<and> (\<exists>e. ec_endDate c = Some e \<and> e \<le> asOf)"
    by (auto simp: due_def end_on_or_before_def split: option.splits)
next
  let ?found = "filter (due asOf) (cb_contracts d)"
  have due_is: "filter (\<lambda>c. ec_status c = Contract_active \<and> end_on_or_before asOf c) = filter (due asOf)"
    by (intro arg_cong [of _ _ filter] ext) (simp add: due_def)
  have listed: "list_expired asOf limit d = sort_key by_end_date ?found"
    using assms(2) by (simp add: list_expired_def due_is)
  have "distinct (map ec_id ?found)"
    using sound_keys [OF assms(1)] by (simp add: keys_distinct_def distinct_map_filter)
  then have distinct: "distinct (map ec_id (sort_key by_end_date ?found))" by (simp add: distinct_map)
  have "\<forall>c \<in> set (sort_key by_end_date ?found). ec_status c = Contract_active" by (auto simp: due_def)
  then obtain d' where d': "expire_each now (sort_key by_end_date ?found) 0 d = (Inr (length ?found), d')"
      "cb_contracts d' = map (\<lambda>c. if c \<in> set ?found then expired now c else c) (cb_contracts d)"
      "set (map cz_key (cb_notices d')) = Expired_notice ` ec_id ` set ?found \<union> set (map cz_key (cb_notices d))"
      "keys_distinct cz_key (cb_notices d) \<longrightarrow> keys_distinct cz_key (cb_notices d')"
    using expire_each_runs [OF assms(1) _ distinct, of now 0] by auto
  have rows: "cb_contracts d' = map (\<lambda>c. if due asOf c then expired now c else c) (cb_contracts d)"
    unfolding d'(2) by (intro map_cong) auto
  have "filter (due asOf) (cb_contracts d') = []"
    unfolding rows by (auto simp: filter_empty_conv due_def)
  then have "list_expired asOf limit d' = []" by (simp add: list_expired_def due_is)
  then show "\<exists>d'. expire_due_contracts now asOf limit d = (Inr (length ?found), d') \<and>
    cb_contracts d' = map (\<lambda>c. if due asOf c then expired now c else c) (cb_contracts d) \<and>
    set (map cz_key (cb_notices d')) =
      set (map (\<lambda>c. Expired_notice (ec_id c)) ?found) \<union> set (map cz_key (cb_notices d)) \<and>
    keys_distinct cz_key (cb_notices d') \<and> expire_due_contracts later asOf limit d' = (Inr 0, d')"
    using d'(1,3,4) assms(3) rows listed by (auto simp: expire_due_contracts_def)
qed

section \<open>A worked history\<close>

lemma call_reachable:
  assumes "contract_reachable (d, [])" and "fresh_contract i d" and "contract_call now day i req actor d = Inr d'"
  shows "contract_reachable (d', [])"
proof -
  obtain w where w: "contract_look day req actor d = Inr w" "run_contract now i w d = Inr d'"
    using assms(3) by (auto simp: contract_call_def and_then_eq_Inr)
  have "contract_reachable (d, [w])" using cr_next [OF assms(1) cs_look [OF w(1)]] .
  from cr_next [OF this cs_commit [OF _ assms(2) w(2)]] show ?thesis by simp
qed

fun contract_calls :: "(string \<times> contract_request) list \<Rightarrow> contracts_db \<Rightarrow> contracts_db option" where
  "contract_calls [] d = Some d"
| "contract_calls ((i, req) # cs) d =
     (if find_row ec_id i (cb_contracts d) \<noteq> None then None
      else case contract_call 100 (Iso 2025 6 1) i req \<lparr>ac_sub = ''hr'', ac_email = ''hr''\<rparr> d of
             Inl _ \<Rightarrow> None | Inr d' \<Rightarrow> contract_calls cs d')"

lemma calls_reachable: "contract_reachable (d, []) \<Longrightarrow> contract_calls cs d = Some d' \<Longrightarrow> contract_reachable (d', [])"
proof (induction cs d rule: contract_calls.induct)
  case (2 i req cs d)
  then show ?case
    by (auto split: if_splits sum.splits intro: call_reachable [unfolded fresh_contract_def])
qed simp

definition kx_empty :: contracts_db where
  "kx_empty = \<lparr>cb_contracts = [], cb_positions = [], cb_notices = [], cb_audit = []\<rparr>"

definition kx_draft :: "string \<Rightarrow> contract_type \<Rightarrow> iso_date \<Rightarrow> iso_date option \<Rightarrow> contract_request" where
  "kx_draft ref ty d_start d_end = Draft_contract \<lparr>df_employeeId = ''lena'', df_positionId = None, df_reference = ref,
     df_contractType = ty, df_startDate = d_start, df_endDate = d_end, df_probationEndDate = None,
     df_noticePeriodDays = None, df_compensation = None, df_documentId = None, df_notes = None\<rparr>"

definition kx_history :: "(string \<times> contract_request) list" where
  "kx_history =
     [(''k1'', kx_draft ''C-1'' Fixed_term (Iso 2025 1 1) (Some (Iso 2025 6 30))),
      (''-'', Activate_contract ''k1'' (Some 90)),
      (''k2'', kx_draft ''C-2'' Permanent (Iso 2025 7 1) None)]"

definition kx_before :: contracts_db where
  "kx_before = (case contract_calls kx_history kx_empty of None \<Rightarrow> kx_empty | Some d \<Rightarrow> d)"

lemma kx_computes:
  "map (\<lambda>c. (ec_id c, ec_status c, ec_employeeId c)) (cb_contracts kx_before) =
     [(''k1'', Contract_active, ''lena''), (''k2'', Contract_draft, ''lena'')]"
  "contract_calls kx_history kx_empty = Some kx_before"
  "may_renew (Iso 2025 6 1) ''k1'' ''k2'' (Some 95) kx_before"
  "map ec_id (filter (due (Iso 2025 6 30)) (cb_contracts kx_before)) = [''k1'']"
  "cb_notices kx_before = []"
  by code_simp+

lemma kx_reachable: "contract_reachable (kx_before, [])"
  by (rule calls_reachable [OF cr_start kx_computes(2)]) (simp add: kx_empty_def)

lemma kx_sound: "contracts_sound kx_before"
  using reachable_contracts [OF kx_reachable] by simp

theorem contracts_stay_sound_witness:
  "\<exists>c. c \<in> set (cb_contracts kx_before) \<and> ec_status c = Contract_active \<and> contracts_sound kx_before"
proof -
  obtain c k where "cb_contracts kx_before = [c, k]" "ec_status c = Contract_active"
    using kx_computes(1) by (auto simp: map_eq_Cons_conv)
  then have c: "c \<in> set (cb_contracts kx_before)" "ec_status c = Contract_active" by simp_all
  from contracts_stay_sound [OF kx_reachable] show ?thesis using c by blast
qed

theorem renewal_is_one_act_witness:
  "\<exists>d'. contract_call 100 (Iso 2025 6 1) ''-'' (Renew_contract ''k1'' ''k2'' (Some 95)) \<lparr>ac_sub = ''hr'', ac_email = ''hr''\<rparr> kx_before = Inr d' \<and>
     map (\<lambda>c. (ec_id c, ec_status c, ec_supersededById c)) (cb_contracts d') =
       [(''k1'', Contract_expired, Some ''k2''), (''k2'', Contract_active, None)]"
proof -
  let ?d = "contract_record (Some ''hr'') ''contract.renewed'' ''k2''
    (kx_before\<lparr>cb_contracts := map (renewed 100 ''k1'' ''k2'' (Some 95)) (cb_contracts kx_before)\<rparr>)"
  have rows: "map (\<lambda>c. (ec_id c, ec_status c, ec_supersededById c)) (cb_contracts ?d) =
      [(''k1'', Contract_expired, Some ''k2''), (''k2'', Contract_active, None)]" by code_simp
  have call: "contract_call 100 (Iso 2025 6 1) ''-'' (Renew_contract ''k1'' ''k2'' (Some 95)) \<lparr>ac_sub = ''hr'', ac_email = ''hr''\<rparr> kx_before = Inr ?d"
    by (rule renewal_is_one_act [OF kx_sound, THEN iffD2], rule conjI [OF kx_computes(3)]) simp
  show ?thesis by (rule exI [of _ ?d], rule conjI [OF call rows])
qed

theorem sweep_expires_what_is_due_witness:
  "\<exists>d'. expire_due_contracts 100 (Iso 2025 6 30) 500 kx_before = (Inr 1, d') \<and>
     set (map cz_key (cb_notices d')) = {Expired_notice ''k1''}"
proof -
  obtain c where c: "filter (due (Iso 2025 6 30)) (cb_contracts kx_before) = [c]" "ec_id c = ''k1''"
    using kx_computes(4) by (auto simp: map_eq_Cons_conv)
  have "keys_distinct cz_key (cb_notices kx_before)" by (simp add: kx_computes(5) keys_distinct_def)
  from sweep_expires_what_is_due [OF kx_sound _ this, of "Iso 2025 6 30" 500 100 200] c show ?thesis
    by (simp add: kx_computes(5)) blast
qed

text \<open>The terms are checked when the row is read and the update asks only that it is still a draft: an edit in
  between puts into force a contract that had ended before the call.\<close>

definition kx_edit :: contract_request where
  "kx_edit = Update_contract ''k1'' \<lparr>cx_positionId = None, cx_contractType = None, cx_startDate = None,
     cx_endDate = Some (Some (Iso 2025 3 1)), cx_probationEndDate = None, cx_noticePeriodDays = None,
     cx_compensation = None, cx_documentId = None, cx_notes = None\<rparr>"

definition kx_race :: "contracts_db option" where
  "kx_race = Option.bind (contract_calls (take 1 kx_history) kx_empty) (\<lambda>d.
     case contract_look (Iso 2025 6 1) (Activate_contract ''k1'' (Some 90)) \<lparr>ac_sub = ''hr'', ac_email = ''hr''\<rparr> d of
       Inl _ \<Rightarrow> None
     | Inr w \<Rightarrow> Option.bind (contract_calls [(''-'', kx_edit)] d) (\<lambda>d1.
         case run_contract 100 ''-'' w d1 of Inl _ \<Rightarrow> None | Inr d2 \<Rightarrow> Some d2))"

lemma edit_between_check_and_activation:
  "map_option (\<lambda>d. map (\<lambda>c. (ec_status c, ec_endDate c)) (cb_contracts d)) kx_race =
     Some [(Contract_active, Some (Iso 2025 3 1))]"
  by code_simp

end
