(* ===== verification/Idempotency.thy ===== *)
theory Idempotency
  imports Search
begin

text \<open>
  The interceptor that answers a retried mutation with the first answer
  (\<^verbatim>\<open>libs/platform/src/http/idempotency.interceptor.ts\<close>).

  The cache is a package the repository only calls: its operations are the argument \<open>svc\<close>, and what the
  interceptor relies on is the predicate \<open>cache_laws\<close> over two views of a cache, what is stored under a key
  and until when a lock is held. The cache reads its own clock when a lock is asked for, so the instant is
  an argument of that call; a lock that is not released lapses by itself. The digest is an argument as well. A request is followed from one
  asynchronous call to the next. When the handler answers, the interceptor stores the answer and releases
  the lock without waiting for either; the two commands reach the cache in that order.
\<close>

section \<open>What the interceptor looks at\<close>

definition IDEMPOTENCY_TTL_SECONDS :: int where "IDEMPOTENCY_TTL_SECONDS = 24 * 3600"

definition IN_FLIGHT_TTL_MS :: int where "IN_FLIGHT_TTL_MS = 90000"

record http_request =
  rq_isHttp :: bool
  rq_method :: string
  rq_url :: string
  rq_body :: string
  rq_skip :: bool
  rq_key :: "string option"
  rq_userId :: "string option"
  rq_authenticated :: bool
  rq_clientIp :: string

record idem_record =
  id_fingerprint :: string
  id_body :: string

text \<open>The cache client: its state, and the four calls the interceptor makes.\<close>

record 'c cache_service =
  cs_isAvailable :: "'c \<Rightarrow> bool"
  cs_getJson :: "'c \<Rightarrow> string \<Rightarrow> idem_record option"
  cs_setJson :: "'c \<Rightarrow> string \<Rightarrow> idem_record \<Rightarrow> int \<Rightarrow> 'c"
  cs_acquireLock :: "'c \<Rightarrow> int \<Rightarrow> string \<Rightarrow> int \<Rightarrow> bool \<times> 'c"
  cs_releaseLock :: "'c \<Rightarrow> string \<Rightarrow> 'c"

definition upper_char :: "char \<Rightarrow> char" where
  "upper_char c = (let n = of_char c :: nat in if 97 \<le> n \<and> n \<le> 122 then char_of (n - 32) else c)"

definition idempotent_methods :: "string set" where
  "idempotent_methods = {''POST'', ''PUT'', ''PATCH''}"

text \<open>The body is its JSON text, \<open>null\<close> when there is none.\<close>

definition fingerprint :: "(string \<Rightarrow> string) \<Rightarrow> http_request \<Rightarrow> string" where
  "fingerprint sha256 req = sha256 (rq_method req @ [CHR 0x0A] @ rq_url req @ [CHR 0x0A] @ rq_body req)"

text \<open>Either the handler runs as if the interceptor were not there, or under a key, a lock and a fingerprint.\<close>

datatype idem_plan = Pass_through | Keyed string string string

definition plan_request :: "(string \<Rightarrow> string) \<Rightarrow> bool \<Rightarrow> http_request \<Rightarrow> idem_plan" where
  "plan_request sha256 available req =
     (if \<not> rq_isHttp req then Pass_through
      else if map upper_char (rq_method req) \<notin> idempotent_methods then Pass_through
      else if rq_skip req then Pass_through
      else (case rq_key req of
          None \<Rightarrow> Pass_through
        | Some key \<Rightarrow>
            if key = [] \<or> \<not> available then Pass_through
            else if (rq_userId req = None \<or> rq_userId req = Some []) \<and> rq_authenticated req then Pass_through
            else let identity = (case rq_userId req of None \<Rightarrow> ''ip:'' @ rq_clientIp req | Some u \<Rightarrow> u);
                     cacheKey = ''idem:'' @ identity @ '':'' @ key
                 in Keyed cacheKey (cacheKey @ '':lock'') (fingerprint sha256 req)))"

section \<open>The phases of a keyed request\<close>

text \<open>From the grant of its lock on, a request carries the instant it was granted, which nothing but the
  properties looks at.\<close>

datatype idem_phase =
    Reading string string string
  | Locking string string string
  | Running string string string int
  | Storing string string string int string
  | Releasing string int
  | Answered

datatype idem_answer = Replayed string string string | Performed string string string | Failed | Refused app_error

text \<open>The first await: what is stored is the answer, or a refusal when the question changed.\<close>

definition replay :: "idem_record \<Rightarrow> string \<Rightarrow> string result" where
  "replay stored fp =
     (if id_fingerprint stored \<noteq> fp then Inl (ValidationException ''IDEMPOTENCY_KEY_REUSED'') else Inr (id_body stored))"

text \<open>A world: the clock, the cache, the requests in progress, the answers given, and what the handlers have carried out
  under a key: key, fingerprint and response, one entry for each mutation performed.\<close>

record 'c idem_world =
  iw_clock :: int
  iw_cache :: 'c
  iw_requests :: "idem_phase list"
  iw_answers :: "idem_answer list"
  iw_done :: "(string \<times> string \<times> string) list"

definition idem_move :: "nat \<Rightarrow> idem_phase \<Rightarrow> 'c idem_world \<Rightarrow> 'c idem_world" where
  "idem_move i p w = w\<lparr>iw_requests := (iw_requests w)[i := p]\<rparr>"

definition idem_answer :: "idem_answer \<Rightarrow> 'c idem_world \<Rightarrow> 'c idem_world" where
  "idem_answer a w = w\<lparr>iw_answers := iw_answers w @ [a]\<rparr>"

definition idem_arrive :: "'c cache_service \<Rightarrow> (string \<Rightarrow> string) \<Rightarrow> http_request \<Rightarrow> 'c idem_world \<Rightarrow> 'c idem_world" where
  "idem_arrive svc sha256 req w =
     (case plan_request sha256 (cs_isAvailable svc (iw_cache w)) req of
        Pass_through \<Rightarrow> w
      | Keyed k l fp \<Rightarrow> w\<lparr>iw_requests := iw_requests w @ [Reading k l fp]\<rparr>)"

definition idem_read :: "'c cache_service \<Rightarrow> nat \<Rightarrow> 'c idem_world \<Rightarrow> 'c idem_world" where
  "idem_read svc i w =
     (case iw_requests w ! i of
        Reading k l fp \<Rightarrow>
          (case cs_getJson svc (iw_cache w) k of
             Some stored \<Rightarrow>
               idem_move i Answered (idem_answer (case replay stored fp of Inl e \<Rightarrow> Refused e | Inr body \<Rightarrow> Replayed k fp body) w)
           | None \<Rightarrow> idem_move i (Locking k l fp) w)
      | _ \<Rightarrow> w)"

definition idem_lock :: "'c cache_service \<Rightarrow> nat \<Rightarrow> 'c idem_world \<Rightarrow> 'c idem_world" where
  "idem_lock svc i w =
     (case iw_requests w ! i of
        Locking k l fp \<Rightarrow>
          (case cs_acquireLock svc (iw_cache w) (iw_clock w) l IN_FLIGHT_TTL_MS of
             (acquired, c) \<Rightarrow>
               if acquired then idem_move i (Running k l fp (iw_clock w)) (w\<lparr>iw_cache := c\<rparr>)
               else idem_move i Answered (idem_answer (Refused (ConflictException ''IDEMPOTENCY_IN_FLIGHT'')) (w\<lparr>iw_cache := c\<rparr>)))
      | _ \<Rightarrow> w)"

text \<open>The handler ends, with a body or by throwing.\<close>

definition idem_end :: "nat \<Rightarrow> string option \<Rightarrow> 'c idem_world \<Rightarrow> 'c idem_world" where
  "idem_end i outcome w =
     (case iw_requests w ! i of
        Running k l fp t \<Rightarrow>
          (case outcome of
             None \<Rightarrow> idem_move i (Releasing l t) (idem_answer Failed w)
           | Some body \<Rightarrow>
               idem_move i (Storing k l fp t body)
                 (idem_answer (Performed k fp body) (w\<lparr>iw_done := iw_done w @ [(k, fp, body)]\<rparr>)))
      | _ \<Rightarrow> w)"

definition idem_store :: "'c cache_service \<Rightarrow> nat \<Rightarrow> 'c idem_world \<Rightarrow> 'c idem_world" where
  "idem_store svc i w =
     (case iw_requests w ! i of
        Storing k l fp t body \<Rightarrow>
          idem_move i (Releasing l t)
            (w\<lparr>iw_cache := cs_setJson svc (iw_cache w) k \<lparr>id_fingerprint = fp, id_body = body\<rparr> IDEMPOTENCY_TTL_SECONDS\<rparr>)
      | _ \<Rightarrow> w)"

definition idem_release :: "'c cache_service \<Rightarrow> nat \<Rightarrow> 'c idem_world \<Rightarrow> 'c idem_world" where
  "idem_release svc i w =
     (case iw_requests w ! i of
        Releasing l t \<Rightarrow> idem_move i Answered (w\<lparr>iw_cache := cs_releaseLock svc (iw_cache w) l\<rparr>)
      | _ \<Rightarrow> w)"

section \<open>What the interceptor relies on\<close>

text \<open>The documented behaviour of the cache: a value that is set is what is read; a lock is granted only when
  nobody holds it or its time has run out, and then for the time asked for; releasing it frees it, whoever
  holds it; and a call touches its own key. \<open>lease c l\<close> is the instant the lock lapses.\<close>

definition lock_free :: "('c \<Rightarrow> string \<Rightarrow> int option) \<Rightarrow> 'c \<Rightarrow> int \<Rightarrow> string \<Rightarrow> bool" where
  "lock_free lease c now l \<longleftrightarrow> (case lease c l of None \<Rightarrow> True | Some t \<Rightarrow> t \<le> now)"

definition cache_laws :: "'c cache_service \<Rightarrow> ('c \<Rightarrow> string \<Rightarrow> int option) \<Rightarrow> bool" where
  "cache_laws svc lease \<longleftrightarrow>
     (\<forall>c k r ttl j. cs_getJson svc (cs_setJson svc c k r ttl) j = (if j = k then Some r else cs_getJson svc c j) \<and>
        lease (cs_setJson svc c k r ttl) j = lease c j) \<and>
     (\<forall>c now l ttl j. cs_getJson svc (snd (cs_acquireLock svc c now l ttl)) j = cs_getJson svc c j \<and>
        fst (cs_acquireLock svc c now l ttl) = lock_free lease c now l \<and>
        lease (snd (cs_acquireLock svc c now l ttl)) j =
          (if j = l \<and> lock_free lease c now l then Some (now + ttl) else lease c j)) \<and>
     (\<forall>c l j. cs_getJson svc (cs_releaseLock svc c l) j = cs_getJson svc c j \<and>
        lease (cs_releaseLock svc c l) j = (if j = l then None else lease c j))"

text \<open>The lock a request has, and since when, from the moment it is granted until it is released.\<close>

fun lock_of :: "idem_phase \<Rightarrow> (string \<times> int) option" where
  "lock_of (Running k l fp t) = Some (l, t)"
| "lock_of (Storing k l fp t body) = Some (l, t)"
| "lock_of (Releasing l t) = Some (l, t)"
| "lock_of p = None"

text \<open>The steps. Time passes. A process may die with a request in it. What is stored may be forgotten at any
  time, a lock only once it has lapsed.\<close>

inductive idem_step :: "'c cache_service \<Rightarrow> ('c \<Rightarrow> string \<Rightarrow> int option) \<Rightarrow> (string \<Rightarrow> string) \<Rightarrow> 'c idem_world \<Rightarrow> 'c idem_world \<Rightarrow> bool"
  for svc lease sha256 where
  is_tick: "iw_clock w \<le> t \<Longrightarrow> idem_step svc lease sha256 w (w\<lparr>iw_clock := t\<rparr>)"
| is_arrive: "idem_step svc lease sha256 w (idem_arrive svc sha256 req w)"
| is_read: "i < length (iw_requests w) \<Longrightarrow> idem_step svc lease sha256 w (idem_read svc i w)"
| is_lock: "i < length (iw_requests w) \<Longrightarrow> idem_step svc lease sha256 w (idem_lock svc i w)"
| is_end: "i < length (iw_requests w) \<Longrightarrow> idem_step svc lease sha256 w (idem_end i outcome w)"
| is_store: "i < length (iw_requests w) \<Longrightarrow> idem_step svc lease sha256 w (idem_store svc i w)"
| is_release: "i < length (iw_requests w) \<Longrightarrow> idem_step svc lease sha256 w (idem_release svc i w)"
| is_die: "i < length (iw_requests w) \<Longrightarrow> idem_step svc lease sha256 w (idem_move i Answered w)"
| is_forget: "\<forall>k. cs_getJson svc c k = None \<or> cs_getJson svc c k = cs_getJson svc (iw_cache w) k \<Longrightarrow>
    \<forall>l. lease c l = lease (iw_cache w) l \<or> (lease c l = None \<and> lock_free lease (iw_cache w) (iw_clock w) l) \<Longrightarrow>
    idem_step svc lease sha256 w (w\<lparr>iw_cache := c\<rparr>)"

inductive idem_reachable :: "'c cache_service \<Rightarrow> ('c \<Rightarrow> string \<Rightarrow> int option) \<Rightarrow> (string \<Rightarrow> string) \<Rightarrow> 'c idem_world \<Rightarrow> bool"
  for svc lease sha256 where
  idem_start: "\<forall>k. cs_getJson svc c k = None \<Longrightarrow>
    idem_reachable svc lease sha256 \<lparr>iw_clock = t, iw_cache = c, iw_requests = [], iw_answers = [], iw_done = []\<rparr>"
| idem_next: "idem_reachable svc lease sha256 w \<Longrightarrow> idem_step svc lease sha256 w w' \<Longrightarrow> idem_reachable svc lease sha256 w'"

text \<open>
  Nothing in the interceptor bounds a handler. What the duration of the lock is measured against is the
  time a request is served at all, the idle timeout of the load balancer, 60 seconds: the runs in which no
  request is at work on its mutation that long.
\<close>

definition REQUEST_LIMIT_MS :: int where "REQUEST_LIMIT_MS = 60000"

definition in_time :: "'c idem_world \<Rightarrow> bool" where
  "in_time w \<longleftrightarrow> (\<forall>p \<in> set (iw_requests w). \<forall>l t. lock_of p = Some (l, t) \<longrightarrow> iw_clock w < t + REQUEST_LIMIT_MS)"

inductive timely_reachable :: "'c cache_service \<Rightarrow> ('c \<Rightarrow> string \<Rightarrow> int option) \<Rightarrow> (string \<Rightarrow> string) \<Rightarrow> 'c idem_world \<Rightarrow> bool"
  for svc lease sha256 where
  timely_start: "\<forall>k. cs_getJson svc c k = None \<Longrightarrow>
    timely_reachable svc lease sha256 \<lparr>iw_clock = t, iw_cache = c, iw_requests = [], iw_answers = [], iw_done = []\<rparr>"
| timely_next: "timely_reachable svc lease sha256 w \<Longrightarrow> idem_step svc lease sha256 w w' \<Longrightarrow> in_time w' \<Longrightarrow>
    timely_reachable svc lease sha256 w'"

end
