(* ===== verification/IdempotencyProperties.thy ===== *)
theory IdempotencyProperties
  imports Idempotency
begin

text \<open>
  What the replay protocol guarantees over any cache that satisfies \<open>cache_laws\<close>: one request of a key at a
  time, replays only of answers that were given; and what it does not: between the read and the lock a
  request can miss the answer of the one before it.
\<close>

section \<open>The invariant\<close>

definition locks_held :: "('c \<Rightarrow> string \<Rightarrow> int option) \<Rightarrow> 'c idem_world \<Rightarrow> bool" where
  "locks_held lease w \<longleftrightarrow>
     (\<forall>i < length (iw_requests w). \<forall>l t. lock_of (iw_requests w ! i) = Some (l, t) \<longrightarrow>
        lease (iw_cache w) l = Some (t + IN_FLIGHT_TTL_MS)) \<and>
     (\<forall>i < length (iw_requests w). \<forall>j < length (iw_requests w). \<forall>l t u.
        lock_of (iw_requests w ! i) = Some (l, t) \<longrightarrow> lock_of (iw_requests w ! j) = Some (l, u) \<longrightarrow> i = j)"

definition answers_backed :: "'c cache_service \<Rightarrow> 'c idem_world \<Rightarrow> bool" where
  "answers_backed svc w \<longleftrightarrow>
     (\<forall>k r. cs_getJson svc (iw_cache w) k = Some r \<longrightarrow> Performed k (id_fingerprint r) (id_body r) \<in> set (iw_answers w)) \<and>
     (\<forall>k l fp t body. Storing k l fp t body \<in> set (iw_requests w) \<longrightarrow> Performed k fp body \<in> set (iw_answers w)) \<and>
     (\<forall>k fp body. Replayed k fp body \<in> set (iw_answers w) \<longrightarrow> Performed k fp body \<in> set (iw_answers w))"

lemma idem_world_simps [simp]:
  "iw_cache (idem_move i p w) = iw_cache w" "iw_requests (idem_move i p w) = (iw_requests w)[i := p]"
  "iw_answers (idem_move i p w) = iw_answers w" "iw_done (idem_move i p w) = iw_done w"
  "iw_cache (idem_answer a w) = iw_cache w" "iw_requests (idem_answer a w) = iw_requests w"
  "iw_answers (idem_answer a w) = iw_answers w @ [a]" "iw_done (idem_answer a w) = iw_done w"
  by (simp_all add: idem_move_def idem_answer_def)

lemma clock_moves [simp]:
  "iw_clock (idem_move i p w) = iw_clock w" "iw_clock (idem_answer a w) = iw_clock w"
  by (simp_all add: idem_move_def idem_answer_def)

lemma laws:
  assumes "cache_laws svc lease"
  shows "cs_getJson svc (cs_setJson svc c k r ttl) j = (if j = k then Some r else cs_getJson svc c j)"
    "lease (cs_setJson svc c k r ttl) l = lease c l"
    "cs_getJson svc (cs_releaseLock svc c l) j = cs_getJson svc c j"
    "lease (cs_releaseLock svc c l) m = (if m = l then None else lease c m)"
  using assms by (auto simp: cache_laws_def)

lemma law_acquire:
  assumes "cache_laws svc lease" and "cs_acquireLock svc c now l ttl = (acquired, c')"
  shows "acquired = lock_free lease c now l"
    "lease c' m = (if m = l \<and> lock_free lease c now l then Some (now + ttl) else lease c m)"
    "cs_getJson svc c' j = cs_getJson svc c j"
  using assms unfolding cache_laws_def by (metis fst_conv snd_conv)+

text \<open>A request moves without taking or losing a lock.\<close>

lemma locks_moved:
  assumes "locks_held lease w" and "i < length (iw_requests w)"
    and "lock_of p = None \<or> lock_of p = lock_of (iw_requests w ! i)"
    and "iw_requests w' = (iw_requests w)[i := p]"
    and "\<And>j l t. j < length (iw_requests w) \<Longrightarrow> lock_of (iw_requests w ! j) = Some (l, t) \<Longrightarrow>
      lease (iw_cache w') l = lease (iw_cache w) l"
  shows "locks_held lease w'"
proof -
  have old: "lock_of (iw_requests w ! j) = Some (l, t)"
    if "j < length (iw_requests w)" "lock_of (iw_requests w' ! j) = Some (l, t)" for j l t
    using assms(2-4) that by (cases "j = i") auto
  have same_length: "length (iw_requests w') = length (iw_requests w)" using assms(4) by simp
  show ?thesis
    unfolding locks_held_def same_length using assms(1) [unfolded locks_held_def] old assms(5) by (metis (no_types))
qed

text \<open>The lock of a request that is in time has not lapsed: it is taken for longer than a request is served.\<close>

lemma lock_lives:
  assumes "locks_held lease w" and "in_time w" and "i < length (iw_requests w)"
    and "lock_of (iw_requests w ! i) = Some (l, t)"
  shows "\<not> lock_free lease (iw_cache w) (iw_clock w) l"
proof -
  have "iw_clock w < t + REQUEST_LIMIT_MS" using assms(2) nth_mem [OF assms(3)] assms(4) by (auto simp: in_time_def)
  then have "iw_clock w < t + IN_FLIGHT_TTL_MS" by (simp add: REQUEST_LIMIT_MS_def IN_FLIGHT_TTL_MS_def)
  then show ?thesis using assms(1,3,4) by (simp add: locks_held_def lock_free_def)
qed

lemma locks_step:
  assumes svc: "cache_laws svc lease" and step: "idem_step svc lease sha256 w w'" and inv: "locks_held lease w"
    and timely: "in_time w"
  shows "locks_held lease w'"
  using step
proof (cases rule: idem_step.cases)
  case (is_tick t)
  then show ?thesis using inv by (simp add: locks_held_def)
next
  case (is_arrive req)
  then show ?thesis using inv
    by (auto simp: idem_arrive_def locks_held_def nth_append less_Suc_eq split: idem_plan.splits)
next
  case (is_read i)
  show ?thesis
  proof (cases "iw_requests w ! i")
    case (Reading k l fp)
    then show ?thesis
      using is_read locks_moved [OF inv is_read(2), of "Locking k l fp"] locks_moved [OF inv is_read(2), of Answered]
      by (simp add: idem_read_def split: option.split)
  qed (use inv is_read in \<open>simp_all add: idem_read_def\<close>)
next
  case (is_lock i)
  show ?thesis
  proof (cases "iw_requests w ! i")
    case (Locking k l fp)
    obtain acquired c where a: "cs_acquireLock svc (iw_cache w) (iw_clock w) l IN_FLIGHT_TTL_MS = (acquired, c)"
      by (cases "cs_acquireLock svc (iw_cache w) (iw_clock w) l IN_FLIGHT_TTL_MS")
    note law = law_acquire [OF svc a]
    show ?thesis
    proof (cases acquired)
      case True
      then have free: "lock_free lease (iw_cache w) (iw_clock w) l" using law(1) by simp
      then have "lock_of (iw_requests w ! j) \<noteq> Some (l, t)" if "j < length (iw_requests w)" for j t
        using lock_lives [OF inv timely that] by blast
      then show ?thesis using inv is_lock Locking a True law(2) free
        by (auto simp: idem_lock_def locks_held_def nth_list_update split: if_splits)
    next
      case False
      then show ?thesis using is_lock Locking a law(1,2) locks_moved [OF inv is_lock(2), of Answered]
        by (auto simp: idem_lock_def)
    qed
  qed (use inv is_lock in \<open>simp_all add: idem_lock_def\<close>)
next
  case (is_end i outcome)
  show ?thesis
  proof (cases "iw_requests w ! i")
    case (Running k l fp t)
    then show ?thesis
      using is_end locks_moved [OF inv is_end(2), of "Releasing l t"]
        locks_moved [OF inv is_end(2), of "Storing k l fp t body" for body]
      by (simp add: idem_end_def split: option.split)
  qed (use inv is_end in \<open>simp_all add: idem_end_def\<close>)
next
  case (is_store i)
  show ?thesis
  proof (cases "iw_requests w ! i")
    case (Storing k l fp t body)
    then show ?thesis
      using is_store locks_moved [OF inv is_store(2), of "Releasing l t"] by (simp add: idem_store_def laws [OF svc])
  qed (use inv is_store in \<open>simp_all add: idem_store_def\<close>)
next
  case (is_release i)
  show ?thesis
  proof (cases "iw_requests w ! i")
    case (Releasing l t)
    then show ?thesis using inv is_release
      by (auto simp: idem_release_def locks_held_def laws [OF svc] nth_list_update split: if_splits)
  qed (use inv is_release in \<open>simp_all add: idem_release_def\<close>)
next
  case (is_die i)
  then show ?thesis using locks_moved [OF inv is_die(2), of Answered] by simp
next
  case (is_forget c)
  have "lease c l = lease (iw_cache w) l" if "i < length (iw_requests w)" "lock_of (iw_requests w ! i) = Some (l, t)" for i l t
    using is_forget(3) lock_lives [OF inv timely that] by blast
  then show ?thesis using inv is_forget(1) by (simp add: locks_held_def)
qed

lemma backed_more:
  assumes "answers_backed svc w" and "set (iw_requests w') \<subseteq> insert p (set (iw_requests w))"
    and "\<And>k l fp t body. p = Storing k l fp t body \<Longrightarrow> Performed k fp body \<in> set (iw_answers w')"
    and "\<And>k. cs_getJson svc (iw_cache w') k = None \<or> cs_getJson svc (iw_cache w') k = cs_getJson svc (iw_cache w) k"
    and "set (iw_answers w) \<subseteq> set (iw_answers w')"
    and "\<And>k fp body. Replayed k fp body \<in> set (iw_answers w') \<Longrightarrow> Performed k fp body \<in> set (iw_answers w')"
  shows "answers_backed svc w'"
proof -
  have "Performed k (id_fingerprint r) (id_body r) \<in> set (iw_answers w')"
    if "cs_getJson svc (iw_cache w') k = Some r" for k r
    using assms(1,4,5) that unfolding answers_backed_def by (metis option.discI subsetD)
  moreover have "Performed k fp body \<in> set (iw_answers w')" if "Storing k l fp t body \<in> set (iw_requests w')" for k l fp t body
    using assms(1,2,3,5) that unfolding answers_backed_def by blast
  ultimately show ?thesis using assms(6) by (simp add: answers_backed_def)
qed

lemma set_moved: "set ((iw_requests w)[i := p]) \<subseteq> insert p (set (iw_requests w))"
  by (rule set_update_subset_insert)

lemma replay_Inr: "replay r fp = Inr body \<longleftrightarrow> id_fingerprint r = fp \<and> id_body r = body"
  by (auto simp: replay_def)

lemma backed_step:
  assumes svc: "cache_laws svc lease" and step: "idem_step svc lease sha256 w w'" and inv: "answers_backed svc w"
  shows "answers_backed svc w'"
  using step
proof (cases rule: idem_step.cases)
  case (is_tick t)
  then show ?thesis using inv by (simp add: answers_backed_def)
next
  case (is_arrive req)
  then show ?thesis using inv by (auto simp: idem_arrive_def answers_backed_def split: idem_plan.splits)
next
  case (is_read i)
  show ?thesis
  proof (cases "iw_requests w ! i")
    case (Reading k l fp)
    have "answers_backed svc (idem_move i (Locking k l fp) w)"
      by (rule backed_more [OF inv, where p = "Locking k l fp"]) (use inv set_moved in \<open>auto simp: answers_backed_def\<close>)
    moreover have "answers_backed svc (idem_move i Answered (idem_answer (case replay r fp of Inl e \<Rightarrow> Refused e | Inr body \<Rightarrow> Replayed k fp body) w))"
      if "cs_getJson svc (iw_cache w) k = Some r" for r
      by (rule backed_more [OF inv, where p = Answered])
         (use inv that set_moved in \<open>auto simp: answers_backed_def replay_Inr split: sum.splits\<close>)
    ultimately show ?thesis using is_read Reading by (auto simp: idem_read_def split: option.splits)
  qed (use inv is_read in \<open>simp_all add: idem_read_def\<close>)
next
  case (is_lock i)
  show ?thesis
  proof (cases "iw_requests w ! i")
    case (Locking k l fp)
    obtain acquired c where a: "cs_acquireLock svc (iw_cache w) (iw_clock w) l IN_FLIGHT_TTL_MS = (acquired, c)"
      by (cases "cs_acquireLock svc (iw_cache w) (iw_clock w) l IN_FLIGHT_TTL_MS")
    note law = law_acquire [OF svc a]
    have "answers_backed svc (idem_move i (Running k l fp (iw_clock w)) (w\<lparr>iw_cache := c\<rparr>))"
      by (rule backed_more [OF inv, where p = "Running k l fp (iw_clock w)"]) (use inv set_moved law(3) in \<open>auto simp: answers_backed_def\<close>)
    moreover have "answers_backed svc (idem_move i Answered (idem_answer (Refused e) (w\<lparr>iw_cache := c\<rparr>)))" for e
      by (rule backed_more [OF inv, where p = Answered]) (use inv set_moved law(3) in \<open>auto simp: answers_backed_def\<close>)
    ultimately show ?thesis using is_lock Locking a by (simp add: idem_lock_def)
  qed (use inv is_lock in \<open>simp_all add: idem_lock_def\<close>)
next
  case (is_end i outcome)
  show ?thesis
  proof (cases "iw_requests w ! i")
    case (Running k l fp t)
    have "answers_backed svc (idem_move i (Releasing l t) (idem_answer Failed w))"
      by (rule backed_more [OF inv, where p = "Releasing l t"]) (use inv set_moved in \<open>auto simp: answers_backed_def\<close>)
    moreover have "answers_backed svc (idem_move i (Storing k l fp t body)
        (idem_answer (Performed k fp body) (w\<lparr>iw_done := iw_done w @ [(k, fp, body)]\<rparr>)))" for body
      by (rule backed_more [OF inv, where p = "Storing k l fp t body"]) (use inv set_moved in \<open>auto simp: answers_backed_def\<close>)
    ultimately show ?thesis using is_end Running by (auto simp: idem_end_def split: option.splits)
  qed (use inv is_end in \<open>simp_all add: idem_end_def\<close>)
next
  case (is_store i)
  show ?thesis
  proof (cases "iw_requests w ! i")
    case (Storing k l fp t body)
    have "Performed k fp body \<in> set (iw_answers w)"
      using inv is_store(2) Storing by (metis answers_backed_def nth_mem)
    then show ?thesis
      using inv is_store Storing set_moved [of w i "Releasing l t"]
      by (auto simp: idem_store_def answers_backed_def laws [OF svc])
  qed (use inv is_store in \<open>simp_all add: idem_store_def\<close>)
next
  case (is_release i)
  show ?thesis
  proof (cases "iw_requests w ! i")
    case (Releasing l t)
    have "answers_backed svc (idem_move i Answered (w\<lparr>iw_cache := cs_releaseLock svc (iw_cache w) l\<rparr>))"
      by (rule backed_more [OF inv, where p = Answered])
         (use inv set_moved in \<open>auto simp: answers_backed_def laws [OF svc]\<close>)
    then show ?thesis using is_release Releasing by (simp add: idem_release_def)
  qed (use inv is_release in \<open>simp_all add: idem_release_def\<close>)
next
  case (is_die i)
  have "answers_backed svc (idem_move i Answered w)"
    by (rule backed_more [OF inv, where p = Answered]) (use inv set_moved in \<open>auto simp: answers_backed_def\<close>)
  then show ?thesis using is_die by simp
next
  case (is_forget c)
  have "answers_backed svc (w\<lparr>iw_cache := c\<rparr>)"
    by (rule backed_more [OF inv, where p = Answered]) (use inv is_forget in \<open>auto simp: answers_backed_def\<close>)
  then show ?thesis using is_forget by simp
qed

lemma answers_inv: "idem_reachable svc lease sha256 w \<Longrightarrow> cache_laws svc lease \<Longrightarrow> answers_backed svc w"
proof (induction rule: idem_reachable.induct)
  case (idem_start c t)
  then show ?case by (simp add: answers_backed_def)
next
  case (idem_next w w')
  then show ?case using backed_step by blast
qed

lemma locks_inv: "timely_reachable svc lease sha256 w \<Longrightarrow> cache_laws svc lease \<Longrightarrow> locks_held lease w \<and> in_time w"
proof (induction rule: timely_reachable.induct)
  case (timely_start c t)
  then show ?case by (simp add: locks_held_def in_time_def)
next
  case (timely_next w w')
  then show ?case using locks_step by blast
qed

section \<open>Properties\<close>

text \<open>C34. Requests with the same key do not overlap, over a cache whose locks lapse when their time is up: in
  every run in which no request is at work under its lock for 60 seconds or more (the time the load
  balancer gives a request), two requests between their lock and its release have different locks. The
  90 seconds a lock is taken for are what makes this true of a lock that lapses by itself.\<close>

theorem requests_of_a_key_do_not_overlap:
  assumes "cache_laws svc lease" and "timely_reachable svc lease sha256 w"
    and "i < length (iw_requests w)" and "j < length (iw_requests w)"
    and "lock_of (iw_requests w ! i) = Some (l, t)" and "lock_of (iw_requests w ! j) = Some (l, u)"
  shows "i = j"
proof -
  have "locks_held lease w" using locks_inv [OF assms(2,1)] ..
  then show ?thesis using assms(3-6) unfolding locks_held_def by blast
qed

text \<open>C35. A replay repeats an answer: whatever is replayed under a key to a request of some fingerprint was the
  response of a handler that succeeded for the same key and the same fingerprint.\<close>

theorem replays_repeat_an_answer:
  assumes "cache_laws svc lease" and "idem_reachable svc lease sha256 w" and "Replayed k fp body \<in> set (iw_answers w)"
  shows "Performed k fp body \<in> set (iw_answers w)"
  using answers_inv [OF assms(2,1)] assms(3) by (simp add: answers_backed_def)

text \<open>The run of two copies of one request: both read before the first one ends, and the second asks for the
  lock when the first has released it.\<close>

definition two_copies :: "'c cache_service \<Rightarrow> (string \<Rightarrow> string) \<Rightarrow> http_request \<Rightarrow> string \<Rightarrow> string \<Rightarrow> 'c idem_world \<Rightarrow> 'c idem_world" where
  "two_copies svc sha256 req b1 b2 w =
     (let n = length (iw_requests w);
          both_read = idem_read svc (n + 1) (idem_read svc n (idem_arrive svc sha256 req (idem_arrive svc sha256 req w)));
          first_done = idem_release svc n (idem_store svc n (idem_end n (Some b1) (idem_lock svc n both_read)))
      in idem_end (n + 1) (Some b2) (idem_lock svc (n + 1) first_done))"

text \<open>C36. The answer is read before the lock is taken and not again after it: over every lawful cache, a copy of
  a request that has read before the first copy ended carries the mutation out a second time, with nothing
  expired and nobody dead.\<close>

theorem late_copy_performs_again:
  assumes svc: "cache_laws svc lease" and available: "\<And>c. cs_isAvailable svc c"
    and plan: "plan_request sha256 True req = Keyed k l fp"
    and fresh: "cs_getJson svc (iw_cache w) k = None" and free: "lock_free lease (iw_cache w) (iw_clock w) l"
  shows "iw_done (two_copies svc sha256 req b1 b2 w) = iw_done w @ [(k, fp, b1), (k, fp, b2)]"
proof -
  define n where "n = length (iw_requests w)"
  define both where "both = idem_read svc (n + 1) (idem_read svc n (idem_arrive svc sha256 req (idem_arrive svc sha256 req w)))"
  have both: "iw_requests both = iw_requests w @ [Locking k l fp, Locking k l fp]" "iw_cache both = iw_cache w" "iw_done both = iw_done w"
    "iw_clock both = iw_clock w"
    by (simp_all add: both_def n_def idem_arrive_def idem_read_def available plan fresh nth_append list_update_append)
  obtain c1 where a: "cs_acquireLock svc (iw_cache w) (iw_clock w) l IN_FLIGHT_TTL_MS = (True, c1)"
    using law_acquire(1) [OF svc] free by (metis (full_types) surj_pair)
  define c2 where "c2 = cs_releaseLock svc (cs_setJson svc c1 k \<lparr>id_fingerprint = fp, id_body = b1\<rparr> IDEMPOTENCY_TTL_SECONDS) l"
  have released: "lock_free lease c2 (iw_clock w) l" by (simp add: c2_def lock_free_def laws(4) [OF svc])
  obtain c3 where b: "cs_acquireLock svc c2 (iw_clock w) l IN_FLIGHT_TTL_MS = (True, c3)"
    using law_acquire(1) [OF svc, of c2 "iw_clock w" l IN_FLIGHT_TTL_MS] released
    by (cases "cs_acquireLock svc c2 (iw_clock w) l IN_FLIGHT_TTL_MS") simp
  define first where "first = idem_release svc n (idem_store svc n (idem_end n (Some b1) (idem_lock svc n both)))"
  have first: "iw_requests first = iw_requests w @ [Answered, Locking k l fp]" "iw_cache first = c2"
      "iw_clock first = iw_clock w" "iw_done first = iw_done w @ [(k, fp, b1)]"
    by (simp_all add: first_def c2_def n_def idem_lock_def idem_end_def idem_store_def idem_release_def both a nth_append list_update_append)
  have "two_copies svc sha256 req b1 b2 w = idem_end (n + 1) (Some b2) (idem_lock svc (n + 1) first)"
    by (simp add: two_copies_def Let_def first_def both_def n_def)
  then show ?thesis by (simp add: idem_lock_def idem_end_def first b n_def nth_append list_update_append)
qed

section \<open>A cache\<close>

type_synonym plain_cache = "(string \<times> idem_record) list \<times> (string \<times> int) list"

definition plain_lease :: "plain_cache \<Rightarrow> string \<Rightarrow> int option" where
  "plain_lease c l = map_of (snd c) l"

definition plain_service :: "plain_cache cache_service" where
  "plain_service =
     \<lparr>cs_isAvailable = (\<lambda>_. True), cs_getJson = (\<lambda>c k. map_of (fst c) k),
      cs_setJson = (\<lambda>c k r ttl. ((k, r) # fst c, snd c)),
      cs_acquireLock = (\<lambda>c now l ttl. if lock_free plain_lease c now l then (True, (fst c, (l, now + ttl) # snd c)) else (False, c)),
      cs_releaseLock = (\<lambda>c l. (fst c, filter (\<lambda>m. fst m \<noteq> l) (snd c)))\<rparr>"

lemma map_of_without: "map_of (filter (\<lambda>m. fst m \<noteq> l) xs) j = (if j = l then None else map_of xs j)"
  by (induction xs) auto

lemma plain_laws: "cache_laws plain_service plain_lease"
proof -
  have "cs_getJson plain_service (snd (cs_acquireLock plain_service c now l ttl)) j = cs_getJson plain_service c j \<and>
      fst (cs_acquireLock plain_service c now l ttl) = lock_free plain_lease c now l \<and>
      plain_lease (snd (cs_acquireLock plain_service c now l ttl)) j =
        (if j = l \<and> lock_free plain_lease c now l then Some (now + ttl) else plain_lease c j)" for c now l ttl j
    by (cases "lock_free plain_lease c now l") (simp_all add: plain_service_def plain_lease_def)
  then show ?thesis
    unfolding cache_laws_def by (intro conjI allI) (simp_all add: plain_service_def plain_lease_def map_of_without)
qed

definition ix_request :: http_request where
  "ix_request = \<lparr>rq_isHttp = True, rq_method = ''POST'', rq_url = ''/v1/leave'', rq_body = ''{}'', rq_skip = False,
     rq_key = Some ''k1'', rq_userId = Some ''ann'', rq_authenticated = True, rq_clientIp = ''10.0.0.1''\<rparr>"

definition ix_start :: "plain_cache idem_world" where
  "ix_start = \<lparr>iw_clock = 0, iw_cache = ([], []), iw_requests = [], iw_answers = [], iw_done = []\<rparr>"

definition ix_running :: "plain_cache idem_world" where
  "ix_running = idem_lock plain_service 0 (idem_read plain_service 0 (idem_arrive plain_service id ix_request ix_start))"

definition ix_replayed :: "plain_cache idem_world" where
  "ix_replayed = idem_read plain_service 1 (idem_arrive plain_service id ix_request
     (idem_store plain_service 0 (idem_end 0 (Some ''ok'') ix_running)))"

text \<open>Fifty seconds later a copy arrives; it reads nothing and goes for the lock.\<close>

definition ix_copy :: "plain_cache idem_world" where
  "ix_copy = idem_read plain_service 1 (idem_arrive plain_service id ix_request (ix_running\<lparr>iw_clock := 50000\<rparr>))"

lemma ix_start_reachable: "idem_reachable plain_service plain_lease id ix_start"
  unfolding ix_start_def by (rule idem_start) (simp add: plain_service_def)

lemma ix_running_reachable: "idem_reachable plain_service plain_lease id ix_running"
  unfolding ix_running_def
  by (rule idem_next [OF idem_next [OF idem_next [OF ix_start_reachable is_arrive] is_read] is_lock]; code_simp)

lemma ix_replayed_reachable: "idem_reachable plain_service plain_lease id ix_replayed"
  unfolding ix_replayed_def
  by (rule idem_next [OF idem_next [OF idem_next [OF idem_next [OF ix_running_reachable is_end] is_store] is_arrive] is_read]; code_simp)

lemma in_time_iff:
  "in_time w \<longleftrightarrow> list_all (\<lambda>p. case lock_of p of None \<Rightarrow> True | Some x \<Rightarrow> iw_clock w < snd x + REQUEST_LIMIT_MS) (iw_requests w)"
  by (fastforce simp: in_time_def list_all_iff split: option.splits)

lemma ix_timely:
  assumes "timely_reachable plain_service plain_lease id w" and "idem_step plain_service plain_lease id w w'"
    and "list_all (\<lambda>p. case lock_of p of None \<Rightarrow> True | Some x \<Rightarrow> iw_clock w' < snd x + REQUEST_LIMIT_MS) (iw_requests w')"
  shows "timely_reachable plain_service plain_lease id w'"
  using assms timely_next in_time_iff by blast

lemma ix_copy_timely: "timely_reachable plain_service plain_lease id (idem_lock plain_service 1 ix_copy)"
proof -
  have "timely_reachable plain_service plain_lease id ix_start"
    unfolding ix_start_def by (rule timely_start) (simp add: plain_service_def)
  then have "timely_reachable plain_service plain_lease id (idem_arrive plain_service id ix_request ix_start)"
    by (rule ix_timely [OF _ is_arrive]) code_simp
  then have "timely_reachable plain_service plain_lease id (idem_read plain_service 0 (idem_arrive plain_service id ix_request ix_start))"
    by (rule ix_timely [OF _ is_read]) code_simp+
  then have "timely_reachable plain_service plain_lease id ix_running"
    unfolding ix_running_def by (rule ix_timely [OF _ is_lock]) code_simp+
  then have "timely_reachable plain_service plain_lease id (ix_running\<lparr>iw_clock := 50000\<rparr>)"
    by (rule ix_timely [OF _ is_tick]) code_simp+
  then have "timely_reachable plain_service plain_lease id (idem_arrive plain_service id ix_request (ix_running\<lparr>iw_clock := 50000\<rparr>))"
    by (rule ix_timely [OF _ is_arrive]) code_simp
  then have "timely_reachable plain_service plain_lease id ix_copy"
    unfolding ix_copy_def by (rule ix_timely [OF _ is_read]) code_simp+
  then show ?thesis by (rule ix_timely [OF _ is_lock]) code_simp+
qed

theorem requests_of_a_key_do_not_overlap_witness:
  "lock_of (iw_requests (idem_lock plain_service 1 ix_copy) ! 0) = Some (''idem:ann:k1:lock'', 0) \<and>
   lock_of (iw_requests (idem_lock plain_service 1 ix_copy) ! 1) \<noteq> Some (''idem:ann:k1:lock'', 50000)"
proof -
  let ?w = "idem_lock plain_service 1 ix_copy"
  have f: "lock_of (iw_requests ?w ! 0) = Some (''idem:ann:k1:lock'', 0)" "0 < length (iw_requests ?w)"
    "1 < length (iw_requests ?w)" by code_simp+
  have "(0::nat) = 1" if "lock_of (iw_requests ?w ! 1) = Some (''idem:ann:k1:lock'', 50000)"
    by (rule requests_of_a_key_do_not_overlap [OF plain_laws ix_copy_timely f(2,3,1) that])
  then show ?thesis using f(1) by auto
qed

theorem replays_repeat_an_answer_witness:
  "\<exists>k fp. Replayed k fp ''ok'' \<in> set (iw_answers ix_replayed) \<and> Performed k fp ''ok'' \<in> set (iw_answers ix_replayed)"
proof -
  have "iw_answers ix_replayed = [Performed ''idem:ann:k1'' (fingerprint id ix_request) ''ok'', Replayed ''idem:ann:k1'' (fingerprint id ix_request) ''ok'']"
    by code_simp
  then have r: "Replayed ''idem:ann:k1'' (fingerprint id ix_request) ''ok'' \<in> set (iw_answers ix_replayed)" by simp
  from replays_repeat_an_answer [OF plain_laws ix_replayed_reachable r] r show ?thesis by blast
qed

theorem late_copy_performs_again_witness:
  "iw_done (two_copies plain_service id ix_request ''one'' ''two'' ix_start) =
     [(''idem:ann:k1'', fingerprint id ix_request, ''one''), (''idem:ann:k1'', fingerprint id ix_request, ''two'')]"
proof -
  have available: "cs_isAvailable plain_service c" for c by (simp add: plain_service_def)
  have plan: "plan_request id True ix_request = Keyed ''idem:ann:k1'' ''idem:ann:k1:lock'' (fingerprint id ix_request)" by code_simp
  have "cs_getJson plain_service (iw_cache ix_start) ''idem:ann:k1'' = None" "lock_free plain_lease (iw_cache ix_start) (iw_clock ix_start) ''idem:ann:k1:lock''"
    by (simp_all add: plain_service_def plain_lease_def lock_free_def ix_start_def)
  from late_copy_performs_again [OF plain_laws available plan this, of "''one''" "''two''"]
  show ?thesis by (simp add: ix_start_def)
qed

end
