(* ===== verification/Spec2Isabelle.thy ===== *)
theory Spec2Isabelle
  imports RequestProperties WorkforceProperties LeaveProperties AttendanceProperties
    OutboxProperties AccessProperties DocumentProperties
    PositionProperties PerformanceProperties QualityProperties
    ContractProperties IdempotencyProperties
begin

text \<open>
  \<^bold>\<open>OpsHub: the request engine, its permission service, the leave, work-from-home, overtime and
  attendance module, privileged access, controlled documents and performance reviews on top of it, positions and
  the quality register beside it, and the outbox relays that carry out what they queue.\<close>

  OpsHub is an internal operations platform: an API server and a worker over one PostgreSQL
  database. Employees file requests (leave, work from home, overtime, attendance corrections); a
  common engine moves them through approval steps, tells the people concerned through an outbox, and
  calls back into the module that owns the request.

  \<^bold>\<open>How the code is modelled.\<close> A table is a list of records in insertion order; an operation is a
  function from its arguments and the tables to an error or the new tables. A transaction that throws
  leaves the tables as they were, so a transaction is a function whose error carries no state; an
  operation of several transactions returns the state beside its result. Identifiers and clocks are
  arguments. Instants are integers (milliseconds), dates are their three fields in the order of the
  ISO string (\<open>js_less_iso_string\<close>), amounts of days are rationals.

  \<^bold>\<open>Interleaving.\<close> The engine reads and checks a request before it opens the transaction that
  decides it. Each operation is therefore a check and a commit, composed as the code composes them;
  the step relation of \<^verbatim>\<open>RequestSafety\<close> lets the commits of concurrent callers run in any
  order after their checks, and what survives that is proved over it: which commits change a request and
  from which reading, the approvals behind an approved request, the separation of duties, and that the rows
  of the workforce module follow their requests however late a decision commits. What needs more is stated
  over the runs it is true of and says so: \<open>orderly_reachable\<close>, in which every decision commits on the
  request as it was checked, or calls that run one at a time. A transaction is one step
  throughout, except where a claim splits it. The outbox relays run in several
  worker processes at once: a relay pass is a sequence of transactions (reap, claim, renew, settle)
  with calls to the outside between them, and the step relation of \<^verbatim>\<open>OutboxSafety\<close> interleaves the
  passes of any number of workers, lets a worker stop anywhere and lets the clock move at any moment.
  What an external call (mail transport, webhook endpoint, Microsoft Graph) does is an argument of the
  step, so every outcome is covered.

  \<^bold>\<open>Theories.\<close>
  \<^item> \<^verbatim>\<open>Prelude\<close>: results, tables and the locale of a keyed table.
  \<^item> \<^verbatim>\<open>Calendar\<close>: \<^verbatim>\<open>libs/shared-kernel/src/time\<close>, \<^verbatim>\<open>working-days.ts\<close>.
  \<^item> \<^verbatim>\<open>Leave\<close>: leave windows, accrual, carry-over amounts, office calendar marks (\<^verbatim>\<open>workforce/src/domain\<close>).
  \<^item> \<^verbatim>\<open>WorkforceData\<close>, \<^verbatim>\<open>LeaveBalance\<close>: the tables of the module and \<^verbatim>\<open>leave-balance.service.ts\<close>.
  \<^item> \<^verbatim>\<open>Messaging\<close>: \<^verbatim>\<open>notification-scheduler.service.ts\<close> and \<^verbatim>\<open>webhook-enqueue.service.ts\<close>.
  \<^item> \<^verbatim>\<open>Authz\<close>: permission resolution, scopes, narrowing and delegations of \<^verbatim>\<open>libs/platform\<close>; the
    locale \<^verbatim>\<open>approver_directory\<close> is what the engine relies on.
  \<^item> \<^verbatim>\<open>Requests\<close>: \<^verbatim>\<open>request-engine.service.ts\<close>, the registry and the two sweeps;
    \<^verbatim>\<open>RequestLemmas\<close> what each operation changes, \<^verbatim>\<open>RequestSafety\<close> the step relation, its
    invariant and the abstract life of a request, \<^verbatim>\<open>RequestProperties\<close> the claims.
  \<^item> \<^verbatim>\<open>RequestHooks\<close>: the contract between the engine and the module that owns a request type, as a
    locale; a domain row that follows its request through every call of the engine. \<^verbatim>\<open>HookRaces\<close>
    extends it to decisions that commit after others ran.
  \<^item> \<^verbatim>\<open>WorkforceTypes\<close>, \<^verbatim>\<open>Workforce\<close>: the request types with their hooks, and
    \<^verbatim>\<open>workforce.service.ts\<close>; \<^verbatim>\<open>WorkforceSafety\<close> their invariant (the interpretation of
    \<^verbatim>\<open>HookRaces\<close> and the freedom from double booking), with every decision in two halves, \<^verbatim>\<open>WorkforceProperties\<close> the claims.
  \<^item> \<^verbatim>\<open>AttendanceDay\<close>, \<^verbatim>\<open>Attendance\<close>: \<^verbatim>\<open>attendance-day.ts\<close> and the reading half of
    \<^verbatim>\<open>attendance.service.ts\<close>; \<^verbatim>\<open>Justifications\<close> its writing half; \<^verbatim>\<open>AttendanceProperties\<close>
    the claims, against a reading of the tables day by day.
  \<^item> \<^verbatim>\<open>LeaveProperties\<close>: the claims on dates, windows, balances and permissions.
  \<^item> \<^verbatim>\<open>Outbox\<close>: \<^verbatim>\<open>abstract-outbox-relay.ts\<close> (\<^verbatim>\<open>libs/platform\<close>): leases, claims and the settling of rows;
    \<^verbatim>\<open>OutboxRelays\<close> the four relays built on it (notifications, e-mail, webhooks, directory tasks)
    with the preferences and the manual retry. \<^verbatim>\<open>OutboxLeases\<close> states the contract of a relay as the
    locale \<open>outbox_relay\<close> and interprets it on each of the four; \<^verbatim>\<open>OutboxSafety\<close> holds the step
    relation of concurrent workers and of the manual retry of a webhook row, its invariant and the abstract
    life of a row;
    \<^verbatim>\<open>OutboxGraph\<close> the ordering of the directory tasks of one person; \<^verbatim>\<open>RelayQueue\<close> how a relay
    coalesces its runs inside one process; \<^verbatim>\<open>OutboxProperties\<close> the claims.
  \<^item> \<^verbatim>\<open>RequestRaces\<close>: what the approval log and the life of a request still are when decisions interleave,
    and the orderly runs.
  \<^item> \<^verbatim>\<open>AccessRequests\<close>: the service, the two-step type and the grants of
    \<^verbatim>\<open>libs/modules/access-requests\<close>; \<^verbatim>\<open>AccessSafety\<close> the module and the engine as one transition
    system, with every call broken at its awaits, and what stands behind each grant;
    \<^verbatim>\<open>AccessProperties\<close> the claims.
  \<^item> \<^verbatim>\<open>Documents\<close>: \<^verbatim>\<open>libs/modules/documents\<close>, with the two unique indexes its behaviour rests on, and
    \<^verbatim>\<open>Search\<close> the contains-search of listings; \<^verbatim>\<open>DocumentSafety\<close> the interpretation of
    \<^verbatim>\<open>RequestHooks\<close> and the invariant of versions, requests and dates, one call at a time;
    \<^verbatim>\<open>DocumentRaces\<close> the module broken at its awaits, the interpretation of \<open>released_by_approval\<close> and what
    the writes of a publication come to; \<^verbatim>\<open>DocumentProperties\<close> the claims.
  \<^item> \<^verbatim>\<open>ModuleRaces\<close>: a module and the engine serving many callers at once, with every call broken at its
    awaits; the locale \<open>released_by_approval\<close> says what the module owes so that whatever it releases on
    an approval has that approval on record.
  \<^item> \<^verbatim>\<open>Positions\<close>: \<^verbatim>\<open>libs/modules/positions\<close>; \<^verbatim>\<open>PositionProperties\<close> the invariant of the assignments and
    the claims.
  \<^item> \<^verbatim>\<open>Performance\<close>: \<^verbatim>\<open>libs/modules/performance\<close> with the redaction of its controller, over \<^verbatim>\<open>Doubles\<close>
    (double precision) for the sum of the goal weights; \<^verbatim>\<open>PerformanceSafety\<close> its steps between awaits,
    its invariant and the interpretation of \<open>released_by_approval\<close>; \<^verbatim>\<open>PerformanceProperties\<close> the claims.
  \<^item> \<^verbatim>\<open>Quality\<close>: findings, corrective actions and internal audits of \<^verbatim>\<open>libs/modules/qms\<close>, each operation
    split into what it checks and the transaction it then runs; \<^verbatim>\<open>QualityReports\<close> the listings and
    reports; \<^verbatim>\<open>QualitySafety\<close> the step relation of interleaved calls and its invariant, \<^verbatim>\<open>QualityForm\<close>
    the declared form of the tables, \<^verbatim>\<open>QualityProperties\<close> the claims.
  \<^item> \<^verbatim>\<open>Contracts\<close>: employment contracts of \<^verbatim>\<open>libs/modules/contracts\<close> with the constraints of their table,
    in the same two halves, and the expiry sweep; \<^verbatim>\<open>ContractSafety\<close> the step relation and the invariant,
    \<^verbatim>\<open>ContractProperties\<close> the renewal and the sweep against their specifications.
  \<^item> \<^verbatim>\<open>Idempotency\<close>: the interceptor that answers a retried mutation, request by request and await by
    await and with a clock, over any cache that obeys \<open>cache_laws\<close>, locks lapsing by themselves; the
    non-overlap of requests is proved for runs in which no request is at work for the 60 seconds the load
    balancer allows; \<^verbatim>\<open>IdempotencyProperties\<close> its claims.

  \<^bold>\<open>Bounds.\<close> No fuel is used: the loops over dates and months terminate by measures. A relay pass
  claims at most fifty batches, and a measure on its phases bounds its transactions. The expiry
  sweep reads at most a hundred rows per run, as the cron does. Integers are unbounded; the code's
  numbers are ids, milliseconds and day counts far below the precision of its doubles, except the
  rounding of day amounts, which \<^verbatim>\<open>Leave\<close> discusses.

  \<^bold>\<open>Not modelled.\<close> The cache, the clock, the generation of identifiers and the order in which the
  database returns unordered rows are arguments or fixed to insertion order. Names joined into views,
  logging and texts of messages carry no state. The web application, HTTP controllers, the MCP
  server, Microsoft Graph, e-mail and object storage are transport or external services: the model has what
  the relays do with each of their outcomes. Texts of templates are not modelled. The
  remaining modules (ISMS, management review, training, door access and so on)
  are listed in the manifest.
\<close>

end
